(* ===== verification/Prelude.thy ===== *)
theory Prelude
  imports Main "HOL-Library.Word" "HOL-Library.Char_ord"
begin

text \<open>
  Shared vocabulary of the development: the widths of the C integers the runtime uses, the
  faults a C routine can run into, and the generic facts on machine words, lists and options the
  component theories rest on.

  Conventions used everywhere. A C string is an Isabelle \<open>string\<close> with no NUL character (the
  terminator is the end of the list). A pointer that may be NULL is an \<open>option\<close>. \<open>size_t\<close>
  values are \<open>nat\<close> where the code cannot make them exceed the size of a live object, and are
  bounded explicitly where the code checks against \<open>SIZE_MAX\<close>. Allocation succeeds: the
  branches that handle a NULL result of \<open>malloc\<close>, \<open>calloc\<close> and \<open>realloc\<close> are not part of
  the model.
\<close>

unbundle bit_operations_syntax

type_synonym u8 = "8 word"
type_synonym u32 = "32 word"
type_synonym u64 = "64 word"

named_theorems word_split \<open>how a word is put together from its low and high part\<close>

text \<open>
  What a C routine can do instead of returning a value: read or write outside the object a
  pointer designates.
\<close>

datatype fault = Out_of_bounds

text \<open>The value of \<open>SIZE_MAX\<close> on the 64-bit targets the runtime is built for.\<close>

definition SIZE_MAX :: nat where
  "SIZE_MAX = 2 ^ 64 - 1"

section \<open>Machine words\<close>

lemma unat_ucast_u32_of_u64 [word_split]:
  "unat (ucast (p :: u64) :: u32) = unat p mod 2 ^ 32"
  by (simp add: unsigned_ucast_eq take_bit_eq_mod)

lemma unat_ucast_u64_of_u32 [simp]:
  "unat (ucast (w :: u32) :: u64) = unat w"
  using unsigned_less [of w, where ?'a = nat] by (simp add: unsigned_ucast_eq take_bit_eq_mod)

lemma unat_drop_bit_u64 [word_split]:
  "unat (drop_bit n (p :: u64)) = unat p div 2 ^ n"
  by (subst unat_drop_bit_eq) (rule drop_bit_eq_div)

lemma unat_drop_bit_u32 [word_split]:
  "unat (drop_bit n (p :: u32)) = unat p div 2 ^ n"
  by (subst unat_drop_bit_eq) (rule drop_bit_eq_div)

lemma u64_low_high:
  "unat (p :: u64) = unat (ucast p :: u32) + 2 ^ 32 * unat (drop_bit 32 p)"
  unfolding word_split by simp

lemma unat_u32_lt: "unat (w :: u32) < 2 ^ 32"
  using unsigned_less [of w, where ?'a = nat] by simp

lemma unat_u64_lt: "unat (w :: u64) < 2 ^ 64"
  using unsigned_less [of w, where ?'a = nat] by simp

text \<open>The same bounds in the form the simplifier gives the powers.\<close>

lemmas word_less = unat_u32_lt [simplified] unat_u64_lt [simplified]

lemma unat_plus_u64:
  "unat (a :: u64) + unat b < 2 ^ 64 \<Longrightarrow> unat (a + b) = unat a + unat b"
  by (simp add: unat_word_ariths)

lemma unat_times_u64:
  "unat (a :: u64) * unat b < 2 ^ 64 \<Longrightarrow> unat (a * b) = unat a * unat b"
  by (simp add: unat_word_ariths)

lemma unat_minus_u64:
  "b \<le> (a :: u64) \<Longrightarrow> unat (a - b) = unat a - unat b"
  by (simp add: unat_sub word_le_nat_alt)

text \<open>
  One step of the word loops: a product of two 32-bit values plus a carry fits in 64 bits, and the
  next carry is again less than \<open>2 ^ 32\<close>.
\<close>

lemma product_fits:
  assumes "unat (c :: u64) < 2 ^ 32"
  shows "unat (ucast (w :: u32) * ucast (f :: u32) + c) = unat w * unat f + unat c"
proof -
  have "unat w * unat f \<le> (2 ^ 32 - 1) * (2 ^ 32 - 1)"
    using unat_u32_lt [of w] unat_u32_lt [of f] by (intro mult_le_mono) simp_all
  with assms have lt: "unat w * unat f + unat c < 2 ^ 64" by simp
  have "unat (ucast w * ucast f :: u64) = unat w * unat f"
    using lt by (subst unat_times_u64) simp_all
  with lt show ?thesis by (subst unat_plus_u64) simp_all
qed

lemma sum_fits:
  assumes "unat (c :: u64) < 2 ^ 33"
  shows "unat (ucast (w :: u32) + c) = unat w + unat c"
  using assms unat_u32_lt [of w] by (subst unat_plus_u64) simp_all

section \<open>The length of a number in bits\<close>

text \<open>The number of binary digits of a natural number.\<close>

fun nbits :: "nat \<Rightarrow> nat" where
  "nbits n = (if n = 0 then 0 else Suc (nbits (n div 2)))"

declare nbits.simps [simp del]

lemma nbits_0 [simp]: "nbits 0 = 0"
  by (simp add: nbits.simps)

lemma nbits_less: "n < 2 ^ nbits n"
proof (induction n rule: nbits.induct)
  case (1 n)
  then show ?case by (cases "n = 0") (simp_all add: nbits.simps [of n] div_less_iff_less_mult)
qed

lemma nbits_le: "n \<noteq> 0 \<Longrightarrow> 2 ^ (nbits n - 1) \<le> n"
proof (induction n rule: nbits.induct)
  case (1 n)
  show ?case
  proof (cases "n div 2 = 0")
    case True
    then have "nbits n = 1" using 1 by (simp add: nbits.simps [of n])
    with 1 show ?thesis by simp
  next
    case False
    then have "2 ^ (nbits (n div 2) - 1) \<le> n div 2" using 1 by simp
    then have "2 ^ Suc (nbits (n div 2) - 1) \<le> n" by simp
    moreover have "Suc (nbits (n div 2) - 1) = nbits n - 1"
      using False by (simp add: nbits.simps [of n] nbits.simps [of "n div 2"])
    ultimately show ?thesis by (simp only:)
  qed
qed

lemma nbits_shift: "a < 2 ^ k \<Longrightarrow> b \<noteq> 0 \<Longrightarrow> nbits (a + 2 ^ k * b) = k + nbits b"
proof (induction k arbitrary: a)
  case (Suc k)
  have "a + 2 ^ Suc k * b = a + (2 ^ k * b) * 2" by simp
  then have "(a + 2 ^ Suc k * b) div 2 = a div 2 + 2 ^ k * b"
    by (simp only: div_mult_self1 [of 2 a] zero_neq_numeral [symmetric] not_False_eq_True add.commute)
  moreover have "a div 2 < 2 ^ k" using Suc.prems by (simp add: div_less_iff_less_mult)
  ultimately show ?case using Suc by (simp add: nbits.simps [of "a + _"])
qed simp

lemma nbits_bounds: "2 ^ k \<le> n \<Longrightarrow> n < 2 ^ Suc k \<Longrightarrow> nbits n = Suc k"
proof -
  assume "2 ^ k \<le> n" "n < 2 ^ Suc k"
  then have n: "n = (n - 2 ^ k) + 2 ^ k * 1" "n - 2 ^ k < 2 ^ k" by simp_all
  then have "nbits n = k + nbits 1" using nbits_shift [of "n - 2 ^ k" k 1] by simp
  then show ?thesis by (simp add: nbits.simps)
qed

lemma nbits_numeral:
  "nbits 1 = 1" "nbits (Suc 0) = 1"
  "nbits (numeral (num.Bit0 k)) = Suc (nbits (numeral k))"
  "nbits (numeral (num.Bit1 k)) = Suc (nbits (numeral k))"
  by (subst nbits.simps; simp add: nbits.simps [of 0])+

lemma nbits_le_iff: "nbits n \<le> k \<longleftrightarrow> n < 2 ^ k"
proof
  assume "nbits n \<le> k"
  then have "(2 :: nat) ^ nbits n \<le> 2 ^ k" by (rule power_increasing) simp
  with nbits_less [of n] show "n < 2 ^ k" by (rule less_le_trans)
next
  assume n: "n < 2 ^ k"
  show "nbits n \<le> k"
  proof (cases "n = 0")
    case False
    have "(2 :: nat) ^ (nbits n - 1) < 2 ^ k" by (rule le_less_trans [OF nbits_le [OF False] n])
    then have "nbits n - 1 < k" by (simp only: power_strict_increasing_iff one_less_numeral_iff semiring_norm(76))
    then show ?thesis by linarith
  qed simp
qed

end
