(* ===== verification/Bigint_Words.thy ===== *)
theory Bigint_Words
  imports Prelude
begin

text \<open>
  The word arrays of \<open>jayess_runtime_bigint.c\<close>. A \<open>jayess_bigint_words\<close> (a length and a
  pointer to that many 32-bit words, least significant first) is the list of its words; the
  empty list is the array of length 0 with the NULL pointer. Each routine is the loop of the
  source, word by word, with its 64-bit carry.

  \<open>words_val\<close> reads an array as a natural number; the lemmas say what each routine does to it.
\<close>

type_synonym jayess_bigint_words = "u32 list"

fun words_val :: "jayess_bigint_words \<Rightarrow> nat" where
  "words_val [] = 0"
| "words_val (w # ws) = unat w + 2 ^ 32 * words_val ws"

section \<open>Length, copies and small constants\<close>

text \<open>\<open>while (length > 0 \&\& words[length-1] == 0) length--\<close>, on the array cut to \<open>length\<close>.\<close>

fun trimmed_length_loop :: "jayess_bigint_words \<Rightarrow> nat \<Rightarrow> nat" where
  "trimmed_length_loop ws 0 = 0"
| "trimmed_length_loop ws (Suc n) = (if ws ! n = 0 then trimmed_length_loop ws n else Suc n)"

definition jayess_bigint_words_trimmed_length :: "jayess_bigint_words \<Rightarrow> nat" where
  "jayess_bigint_words_trimmed_length ws = trimmed_length_loop ws (length ws)"

definition jayess_bigint_words_is_zero :: "jayess_bigint_words \<Rightarrow> bool" where
  "jayess_bigint_words_is_zero ws \<longleftrightarrow> jayess_bigint_words_trimmed_length ws = 0"

definition jayess_bigint_words_new :: "nat \<Rightarrow> jayess_bigint_words" where
  "jayess_bigint_words_new n = replicate n 0"

text \<open>\<open>memcpy\<close> of \<open>n\<close> words from \<open>src\<close> onto the front of \<open>dst\<close>.\<close>

definition copy_words :: "jayess_bigint_words \<Rightarrow> jayess_bigint_words \<Rightarrow> nat \<Rightarrow> jayess_bigint_words" where
  "copy_words dst src n = take n src @ drop n dst"

definition jayess_bigint_words_clone :: "jayess_bigint_words \<Rightarrow> jayess_bigint_words" where
  "jayess_bigint_words_clone ws = copy_words (jayess_bigint_words_new (length ws)) ws (length ws)"

definition jayess_bigint_words_resized :: "jayess_bigint_words \<Rightarrow> nat \<Rightarrow> jayess_bigint_words" where
  "jayess_bigint_words_resized ws n =
     (let resized = jayess_bigint_words_new n;
          copy_count = (if length ws < n then length ws else n)
      in copy_words resized ws copy_count)"

definition jayess_bigint_words_from_u32 :: "u32 \<Rightarrow> jayess_bigint_words" where
  "jayess_bigint_words_from_u32 v = (if v = 0 then [] else [v])"

section \<open>Arithmetic with one word\<close>

fun mul_small_loop :: "u32 \<Rightarrow> u64 \<Rightarrow> jayess_bigint_words \<Rightarrow> jayess_bigint_words \<times> u64" where
  "mul_small_loop factor carry [] = ([], carry)"
| "mul_small_loop factor carry (w # ws) =
     (let product = ucast w * ucast factor + carry;
          (rest, carry') = mul_small_loop factor (drop_bit 32 product) ws
      in (ucast product # rest, carry'))"

definition jayess_bigint_words_mul_small :: "jayess_bigint_words \<Rightarrow> u32 \<Rightarrow> jayess_bigint_words" where
  "jayess_bigint_words_mul_small ws factor =
     (if factor = 0 then []
      else if ws = [] then []
      else (let (out, carry) = mul_small_loop factor 0 ws
            in if carry \<noteq> 0 then out @ [ucast carry] else out))"

text \<open>The loop stops as soon as the carry is 0 and leaves the remaining words as they are.\<close>

fun add_small_loop :: "u64 \<Rightarrow> jayess_bigint_words \<Rightarrow> jayess_bigint_words \<times> u64" where
  "add_small_loop carry [] = ([], carry)"
| "add_small_loop carry (w # ws) =
     (if carry = 0 then (w # ws, carry)
      else (let sum = ucast w + carry;
                (rest, carry') = add_small_loop (drop_bit 32 sum) ws
            in (ucast sum # rest, carry')))"

definition jayess_bigint_words_add_small :: "jayess_bigint_words \<Rightarrow> u32 \<Rightarrow> jayess_bigint_words" where
  "jayess_bigint_words_add_small ws addend =
     (if addend = 0 then ws
      else if ws = [] then jayess_bigint_words_from_u32 addend
      else (let (out, carry) = add_small_loop (ucast addend) ws
            in if carry \<noteq> 0 then out @ [ucast carry] else out))"

fun sub_small_loop :: "u64 \<Rightarrow> jayess_bigint_words \<Rightarrow> jayess_bigint_words \<times> u64" where
  "sub_small_loop borrow [] = ([], borrow)"
| "sub_small_loop borrow (w # ws) =
     (if borrow = 0 then (w # ws, borrow)
      else (let current = (ucast w :: u64);
                (w', borrow') =
                  (if current \<ge> borrow then (ucast (current - borrow), 0)
                   else (ucast (push_bit 32 1 + current - borrow), 1));
                (rest, borrow'') = sub_small_loop borrow' ws
            in (w' # rest, borrow'')))"

text \<open>The new words and the result of the C function (1 when there was no borrow left).\<close>

definition jayess_bigint_words_sub_small ::
  "jayess_bigint_words \<Rightarrow> u32 \<Rightarrow> jayess_bigint_words \<times> bool" where
  "jayess_bigint_words_sub_small ws subtrahend =
     (if ws = [] then (ws, False)
      else (let (out, borrow) = sub_small_loop (ucast subtrahend) ws in (out, borrow = 0)))"

text \<open>The loop runs from the most significant word down: the tail of the list first.\<close>

fun divmod_small_loop :: "u32 \<Rightarrow> jayess_bigint_words \<Rightarrow> jayess_bigint_words \<times> u64" where
  "divmod_small_loop divisor [] = ([], 0)"
| "divmod_small_loop divisor (w # ws) =
     (let (qs, rem) = divmod_small_loop divisor ws;
          current = push_bit 32 rem OR ucast w
      in (ucast (current div ucast divisor) # qs, current mod ucast divisor))"

text \<open>The quotient, the remainder and the result of the C function.\<close>

definition jayess_bigint_words_divmod_small ::
  "jayess_bigint_words \<Rightarrow> u32 \<Rightarrow> jayess_bigint_words \<times> u32 \<times> bool" where
  "jayess_bigint_words_divmod_small ws divisor =
     (if divisor = 0 \<or> ws = [] then (ws, 0, False)
      else (let (qs, rem) = divmod_small_loop divisor ws in (qs, ucast rem, True)))"

section \<open>Arithmetic with whole arrays\<close>

fun cmp_loop :: "jayess_bigint_words \<Rightarrow> jayess_bigint_words \<Rightarrow> nat \<Rightarrow> int" where
  "cmp_loop ls rs 0 = 0"
| "cmp_loop ls rs (Suc n) =
     (if ls ! n \<noteq> rs ! n then (if ls ! n > rs ! n then 1 else -1) else cmp_loop ls rs n)"

definition jayess_bigint_words_cmp :: "jayess_bigint_words \<Rightarrow> jayess_bigint_words \<Rightarrow> int" where
  "jayess_bigint_words_cmp ls rs =
     (let left_len = jayess_bigint_words_trimmed_length ls;
          right_len = jayess_bigint_words_trimmed_length rs
      in if left_len \<noteq> right_len then (if left_len > right_len then 1 else -1)
         else cmp_loop ls rs left_len)"

text \<open>
  The first argument is at least as long as the second here: the caller has grown it. A missing
  word of the second reads as 0.
\<close>

fun add_words_loop :: "u64 \<Rightarrow> jayess_bigint_words \<Rightarrow> jayess_bigint_words \<Rightarrow> jayess_bigint_words \<times> u64" where
  "add_words_loop carry [] rs = ([], carry)"
| "add_words_loop carry (l # ls) rs =
     (let rhs = (case rs of [] \<Rightarrow> 0 | r # _ \<Rightarrow> ucast r);
          sum = ucast l + rhs + carry;
          (rest, carry') = add_words_loop (drop_bit 32 sum) ls (tl rs)
      in (ucast sum # rest, carry'))"

definition jayess_bigint_words_add_words ::
  "jayess_bigint_words \<Rightarrow> jayess_bigint_words \<Rightarrow> jayess_bigint_words" where
  "jayess_bigint_words_add_words ls rs =
     (if rs = [] then ls
      else (let grown = (if length ls < length rs
                         then ls @ replicate (length rs - length ls) 0 else ls);
                (out, carry) = add_words_loop 0 grown rs
            in if carry \<noteq> 0 then out @ [ucast carry] else out))"

text \<open>\<open>while (top != 0) { bits++; top >>= 1; }\<close>\<close>

function top_bits :: "u32 \<Rightarrow> nat" where
  "top_bits t = (if t = 0 then 0 else Suc (top_bits (drop_bit 1 t)))"
  by pat_completeness auto
termination
proof (relation "measure unat")
  fix t :: u32
  assume "t \<noteq> 0"
  then have "0 < unat t" by (simp add: unat_gt_0)
  then show "(drop_bit 1 t, t) \<in> measure unat"
    by (simp add: unat_drop_bit_u32)
qed simp

declare top_bits.simps [simp del]

definition jayess_bigint_words_bit_length :: "jayess_bigint_words \<Rightarrow> nat" where
  "jayess_bigint_words_bit_length ws =
     (let n = jayess_bigint_words_trimmed_length ws
      in if n = 0 then 0 else (n - 1) * 32 + top_bits (ws ! (n - 1)))"

section \<open>What the routines compute\<close>

lemma words_val_append: "words_val (xs @ ys) = words_val xs + 2 ^ (32 * length xs) * words_val ys"
  by (induction xs) (simp_all add: algebra_simps power_add)

lemma words_val_replicate_0 [simp]: "words_val (replicate n 0) = 0"
  by (induction n) simp_all

lemma words_val_less: "words_val ws < 2 ^ (32 * length ws)"
proof (induction ws)
  case (Cons w ws)
  have "unat w + 2 ^ 32 * words_val ws < 2 ^ 32 + 2 ^ 32 * words_val ws"
    using unat_u32_lt [of w] by simp
  also have "\<dots> \<le> 2 ^ 32 * 2 ^ (32 * length ws)"
    using Cons by (simp only: mult_Suc_right [symmetric] mult_le_cancel1 Suc_le_eq) simp
  finally show ?case by (simp add: power_add)
qed simp

text \<open>A final carry of a loop is one more word.\<close>

lemma words_val_carry:
  assumes "unat (c :: u64) < 2 ^ 32"
  shows "words_val (if c \<noteq> 0 then out @ [ucast c] else out)
       = words_val out + 2 ^ (32 * length out) * unat c"
  using assms by (auto simp: words_val_append word_split)

lemma mul_small_loop_val:
  assumes "unat c < 2 ^ 32" and "mul_small_loop f c ws = (out, c')"
  shows "words_val out + 2 ^ (32 * length ws) * unat c' = words_val ws * unat f + unat c
       \<and> unat c' < 2 ^ 32 \<and> length out = length ws"
  using assms
proof (induction ws arbitrary: c out)
  case (Cons w ws)
  define p :: u64 where "p = ucast w * ucast f + c"
  have p: "unat p = unat w * unat f + unat c"
    unfolding p_def using Cons.prems(1) by (rule product_fits)
  obtain rest where rest: "mul_small_loop f (drop_bit 32 p) ws = (rest, c')"
    and out: "out = ucast p # rest"
    using Cons.prems(2) by (auto simp: p_def Let_def split: prod.splits)
  have "unat (drop_bit 32 p) < 2 ^ 32"
    using unat_u64_lt [of p] by (simp add: word_split div_less_iff_less_mult)
  from Cons.IH [OF this rest]
  have IH: "words_val rest + 2 ^ (32 * length ws) * unat c' = words_val ws * unat f + unat (drop_bit 32 p)"
    and rest': "unat c' < 2 ^ 32" "length rest = length ws" by auto
  have "words_val out + 2 ^ (32 * length (w # ws)) * unat c'
      = unat (ucast p :: u32) + 2 ^ 32 * (words_val rest + 2 ^ (32 * length ws) * unat c')"
    by (simp add: out power_add algebra_simps)
  also have "\<dots> = unat p + 2 ^ 32 * (words_val ws * unat f)"
    unfolding IH using u64_low_high [of p] by (simp add: algebra_simps)
  also have "\<dots> = words_val (w # ws) * unat f + unat c"
    by (simp add: p algebra_simps)
  finally show ?case using rest' out by simp
qed simp

lemma mul_small_val [simp]:
  "words_val (jayess_bigint_words_mul_small ws f) = words_val ws * unat f"
proof (cases "f = 0 \<or> ws = []")
  case False
  obtain out c where loop: "mul_small_loop f 0 ws = (out, c)" by fastforce
  from mul_small_loop_val [OF _ this]
  have "words_val out + 2 ^ (32 * length ws) * unat c = words_val ws * unat f"
    "unat c < 2 ^ 32" "length out = length ws" by simp_all
  with False loop show ?thesis
    by (simp add: jayess_bigint_words_mul_small_def Let_def words_val_carry [unfolded if_distrib] del: words_val.simps)
       (auto simp: words_val_append word_split)
qed (auto simp: jayess_bigint_words_mul_small_def)


lemma add_small_loop_val:
  assumes "unat c < 2 ^ 32" and "add_small_loop c ws = (out, c')"
  shows "words_val out + 2 ^ (32 * length ws) * unat c' = words_val ws + unat c
       \<and> unat c' < 2 ^ 32 \<and> length out = length ws"
  using assms
proof (induction ws arbitrary: c out)
  case (Cons w ws)
  show ?case
  proof (cases "c = 0")
    case True
    with Cons.prems show ?thesis by auto
  next
    case False
    define p :: u64 where "p = ucast w + c"
    have p: "unat p = unat w + unat c"
      unfolding p_def using Cons.prems(1) by (intro sum_fits) simp
    obtain rest where rest: "add_small_loop (drop_bit 32 p) ws = (rest, c')"
      and out: "out = ucast p # rest"
      using Cons.prems(2) False by (auto simp: p_def Let_def split: prod.splits)
    have "unat (drop_bit 32 p) < 2 ^ 32"
      using unat_u64_lt [of p] by (simp add: word_split div_less_iff_less_mult)
    from Cons.IH [OF this rest]
    have IH: "words_val rest + 2 ^ (32 * length ws) * unat c' = words_val ws + unat (drop_bit 32 p)"
      and rest': "unat c' < 2 ^ 32" "length rest = length ws" by auto
    have "words_val out + 2 ^ (32 * length (w # ws)) * unat c'
        = unat (ucast p :: u32) + 2 ^ 32 * (words_val rest + 2 ^ (32 * length ws) * unat c')"
      by (simp add: out power_add algebra_simps)
    also have "\<dots> = unat p + 2 ^ 32 * words_val ws"
      unfolding IH using u64_low_high [of p] by (simp add: algebra_simps)
    finally show ?thesis using rest' out by (simp add: p)
  qed
qed simp

lemma add_small_val [simp]:
  "words_val (jayess_bigint_words_add_small ws a) = words_val ws + unat a"
proof (cases "a = 0 \<or> ws = []")
  case False
  obtain out c where loop: "add_small_loop (ucast a) ws = (out, c)" by fastforce
  from add_small_loop_val [OF _ this]
  have "words_val out + 2 ^ (32 * length ws) * unat c = words_val ws + unat a"
    "unat c < 2 ^ 32" "length out = length ws" by (simp_all add: word_less)
  with False loop words_val_carry [of c out] show ?thesis
    by (auto simp: jayess_bigint_words_add_small_def)
qed (auto simp: jayess_bigint_words_add_small_def jayess_bigint_words_from_u32_def)

text \<open>The subtraction keeps the number of words; it is exact when the array holds enough.\<close>

lemma sub_small_loop_val:
  assumes "unat b < 2 ^ 32" and "sub_small_loop b ws = (out, b')"
  shows "words_val out + unat b = words_val ws + 2 ^ (32 * length ws) * unat b'
       \<and> unat b' < 2 ^ 32 \<and> length out = length ws"
  using assms
proof (induction ws arbitrary: b out)
  case (Cons w ws)
  show ?case
  proof (cases "b = 0")
    case True
    with Cons.prems show ?thesis by auto
  next
    case False
    define cur :: u64 where "cur = ucast w"
    define w' b1 where "w' = (if cur \<ge> b then ucast (cur - b) else ucast (push_bit 32 1 + cur - b) :: u32)"
      and "b1 = (if cur \<ge> b then 0 else 1 :: u64)"
    have cur: "unat cur = unat w" by (simp add: cur_def)
    have step: "unat w' + unat b = unat w + 2 ^ 32 * unat b1"
    proof (cases "cur \<ge> b")
      case True
      then have "unat (cur - b) = unat w - unat b" by (simp add: unat_minus_u64 cur)
      moreover have "unat b \<le> unat w" using True by (simp add: word_le_nat_alt cur)
      moreover have "unat w - unat b < 2 ^ 32" using unat_u32_lt [of w] by linarith
      ultimately show ?thesis using True by (simp add: w'_def b1_def word_split)
    next
      case less: False
      then have lt: "unat w < unat b" by (simp add: word_le_nat_alt cur)
      have "unat (push_bit 32 1 + cur) = 2 ^ 32 + unat w"
        using unat_u32_lt [of w] by (simp add: unat_plus_u64 cur push_bit_eq_mult)
      then have "unat (push_bit 32 1 + cur - b) = 2 ^ 32 + unat w - unat b"
        using Cons.prems(1) by (subst unat_minus_u64) (simp_all add: word_le_nat_alt)
      moreover have "2 ^ 32 + unat w - unat b < 2 ^ 32" using lt by simp
      ultimately show ?thesis using less Cons.prems(1)
        by (simp add: w'_def b1_def word_split)
    qed
    obtain rest where rest: "sub_small_loop b1 ws = (rest, b')" and out: "out = w' # rest"
      using Cons.prems(2) False by (auto simp: w'_def b1_def cur_def Let_def split: prod.splits if_splits)
    have "unat b1 < 2 ^ 32" by (simp add: b1_def)
    from Cons.IH [OF this rest]
    have IH: "words_val rest + unat b1 = words_val ws + 2 ^ (32 * length ws) * unat b'"
      and rest': "unat b' < 2 ^ 32" "length rest = length ws" by auto
    have "words_val out + unat b = (unat w' + unat b) + 2 ^ 32 * words_val rest"
      by (simp add: out)
    also have "\<dots> = unat w + 2 ^ 32 * (words_val rest + unat b1)"
      unfolding step by (simp add: algebra_simps)
    also have "\<dots> = words_val (w # ws) + 2 ^ (32 * length (w # ws)) * unat b'"
      unfolding IH by (simp add: power_add algebra_simps)
    finally show ?thesis using rest' out by simp
  qed
qed simp

lemma sub_small_length [simp]:
  "length (fst (jayess_bigint_words_sub_small ws s)) = length ws"
proof (cases "ws = []")
  case False
  obtain out b where "sub_small_loop (ucast s) ws = (out, b)" by fastforce
  with sub_small_loop_val [OF _ this] False show ?thesis
    by (simp add: jayess_bigint_words_sub_small_def word_less)
qed (simp add: jayess_bigint_words_sub_small_def)

lemma sub_small_val:
  assumes "unat s \<le> words_val ws" and "ws \<noteq> []"
  shows "words_val (fst (jayess_bigint_words_sub_small ws s)) = words_val ws - unat s
       \<and> snd (jayess_bigint_words_sub_small ws s)"
proof -
  obtain out b where loop: "sub_small_loop (ucast s) ws = (out, b)" by fastforce
  from sub_small_loop_val [OF _ this]
  have val: "words_val out + unat s = words_val ws + 2 ^ (32 * length ws) * unat b"
    and len: "length out = length ws" by (simp_all add: word_less)
  have "b = 0"
  proof (rule ccontr)
    assume "b \<noteq> 0"
    then have "2 ^ (32 * length ws) \<le> 2 ^ (32 * length ws) * unat b" by (simp add: unat_gt_0 Suc_leI)
    with val words_val_less [of out] assms(1) len show False by simp
  qed
  with val loop assms show ?thesis by (simp add: jayess_bigint_words_sub_small_def)
qed

text \<open>The shift and the OR of the division put a 32-bit remainder above a 32-bit word.\<close>

lemma remainder_word:
  assumes "unat (r :: u64) < 2 ^ 32"
  shows "unat (push_bit 32 r OR ucast (w :: u32)) = 2 ^ 32 * unat r + unat w"
proof -
  have "push_bit 32 r AND ucast w = (0 :: u64)"
    by (rule bit_word_eqI) (auto simp: bit_simps dest: bit_imp_le_length)
  then have "push_bit 32 r OR ucast w = push_bit 32 r + (ucast w :: u64)"
    by (simp add: disjunctive_add_eq_or)
  moreover have shift: "unat (push_bit 32 r) = 2 ^ 32 * unat r"
    using assms by (simp add: push_bit_eq_mult unat_times_u64)
  moreover have "2 ^ 32 * unat r + unat w < 2 ^ 64"
    using assms unat_u32_lt [of w] by simp
  ultimately show ?thesis by (simp add: unat_plus_u64)
qed

lemma divmod_small_loop_val:
  assumes "d \<noteq> 0" and "divmod_small_loop d ws = (qs, r)"
  shows "words_val ws = words_val qs * unat d + unat r \<and> unat r < unat d \<and> length qs = length ws"
  using assms(2)
proof (induction ws arbitrary: qs r)
  case Nil
  with assms(1) show ?case by (simp add: unat_gt_0)
next
  case (Cons w ws)
  obtain qs1 r1 where rec: "divmod_small_loop d ws = (qs1, r1)" by fastforce
  define cur where "cur = push_bit 32 r1 OR ucast w"
  have out: "qs = ucast (cur div ucast d) # qs1" "r = cur mod ucast d"
    using Cons.prems rec by (auto simp: cur_def Let_def)
  from Cons.IH [OF rec] have IH: "words_val ws = words_val qs1 * unat d + unat r1"
    and r1: "unat r1 < unat d" and len: "length qs1 = length ws" by auto
  have cur: "unat cur = 2 ^ 32 * unat r1 + unat w"
    unfolding cur_def using r1 unat_u32_lt [of d] by (intro remainder_word) linarith
  have "unat cur < 2 ^ 32 * unat d"
    using cur r1 unat_u32_lt [of w] mult_le_mono2 [of "Suc (unat r1)" "unat d" "2 ^ 32"] by simp
  then have q: "unat (ucast (cur div ucast d) :: u32) = unat cur div unat d"
    using assms(1) by (simp add: word_split unat_div_distrib unat_gt_0 div_less_iff_less_mult)
  have r: "unat r = unat cur mod unat d" by (simp add: out unat_mod_distrib)
  have "words_val (w # ws) = unat cur + 2 ^ 32 * (words_val qs1 * unat d)"
    by (simp add: cur IH algebra_simps)
  also have "\<dots> = words_val qs * unat d + unat r"
    using div_mult_mod_eq [of "unat cur" "unat d"]
    by (simp add: out(1) q r algebra_simps del: div_mult_mod_eq)
  finally show ?case
    using r len out assms(1) by (simp add: unat_gt_0)
qed

lemma divmod_small_val:
  assumes "d \<noteq> 0" and "jayess_bigint_words_divmod_small ws d = (qs, r, ok)"
  shows "words_val qs = words_val ws div unat d \<and> unat r = words_val ws mod unat d
       \<and> length qs = length ws"
proof (cases "ws = []")
  case True
  with assms show ?thesis by (auto simp: jayess_bigint_words_divmod_small_def)
next
  case False
  obtain rem where loop: "divmod_small_loop d ws = (qs, rem)" and r: "r = ucast rem"
    using assms False by (auto simp: jayess_bigint_words_divmod_small_def split: prod.splits)
  from divmod_small_loop_val [OF assms(1) loop]
  have val: "words_val ws = words_val qs * unat d + unat rem" and lt: "unat rem < unat d"
    and len: "length qs = length ws" by auto
  have "unat r = unat rem"
    using lt unat_u32_lt [of d] by (simp add: r word_split)
  with val lt len show ?thesis by (simp add: mult.commute)
qed


section \<open>Comparison, sum and bit length\<close>

lemma top_bits_nbits: "top_bits t = nbits (unat t)"
proof (induction t rule: top_bits.induct)
  case (1 t)
  then show ?case
    by (simp add: top_bits.simps [of t] nbits.simps [of "unat t"] unat_eq_0 unat_drop_bit_u32)
qed

lemma trimmed_length_loop_spec:
  "n \<le> length ws \<Longrightarrow> trimmed_length_loop ws n \<le> n
   \<and> words_val (take n ws) = words_val (take (trimmed_length_loop ws n) ws)
   \<and> (trimmed_length_loop ws n \<noteq> 0 \<longrightarrow> ws ! (trimmed_length_loop ws n - 1) \<noteq> 0)"
  by (induction n) (auto simp: take_Suc_conv_app_nth words_val_append)

lemma trimmed_length_spec:
  fixes ws :: jayess_bigint_words
  defines "n \<equiv> jayess_bigint_words_trimmed_length ws"
  shows "n \<le> length ws" and "words_val ws = words_val (take n ws)"
    and "n \<noteq> 0 \<Longrightarrow> ws ! (n - 1) \<noteq> 0"
  using trimmed_length_loop_spec [of "length ws" ws]
  by (simp_all add: n_def jayess_bigint_words_trimmed_length_def)

text \<open>The value in terms of the most significant non-zero word.\<close>

lemma words_val_top:
  assumes "jayess_bigint_words_trimmed_length ws = Suc n"
  shows "words_val ws = words_val (take n ws) + 2 ^ (32 * n) * unat (ws ! n)"
    and "ws ! n \<noteq> 0" and "n < length ws"
proof -
  show "n < length ws" and "ws ! n \<noteq> 0" using trimmed_length_spec [of ws] assms by auto
  then show "words_val ws = words_val (take n ws) + 2 ^ (32 * n) * unat (ws ! n)"
    using trimmed_length_spec(2) [of ws] assms by (simp add: take_Suc_conv_app_nth words_val_append)
qed

lemma words_val_take_less: "words_val (take n ws) < 2 ^ (32 * n)"
proof -
  have "words_val (take n ws) < 2 ^ (32 * length (take n ws))" by (rule words_val_less)
  also have "\<dots> \<le> 2 ^ (32 * n)" by (rule power_increasing) simp_all
  finally show ?thesis .
qed

lemma is_zero_val [simp]: "jayess_bigint_words_is_zero ws \<longleftrightarrow> words_val ws = 0"
proof (cases "jayess_bigint_words_trimmed_length ws")
  case 0
  then show ?thesis using trimmed_length_spec(2) [of ws] by (simp add: jayess_bigint_words_is_zero_def)
next
  case (Suc n)
  from words_val_top [OF this] Suc show ?thesis
    by (simp add: jayess_bigint_words_is_zero_def unat_eq_0)
qed

lemma bit_length_val: "jayess_bigint_words_bit_length ws = nbits (words_val ws)"
proof (cases "jayess_bigint_words_trimmed_length ws")
  case 0
  then have "jayess_bigint_words_is_zero ws" by (simp only: jayess_bigint_words_is_zero_def)
  then have "words_val ws = 0" by simp
  with 0 show ?thesis by (simp add: jayess_bigint_words_bit_length_def)
next
  case (Suc n)
  from words_val_top [OF this] words_val_take_less [of n ws] Suc show ?thesis
    by (simp add: jayess_bigint_words_bit_length_def top_bits_nbits nbits_shift unat_eq_0)
qed

lemma sgn_diff_nat: "sgn (int l - int r) = (if l < r then -1 else if r < l then 1 else 0)"
  by simp

lemma cmp_loop_val:
  "n \<le> length ls \<Longrightarrow> n \<le> length rs \<Longrightarrow>
   cmp_loop ls rs n = sgn (int (words_val (take n ls)) - int (words_val (take n rs)))"
proof (induction n)
  case (Suc n)
  let ?l = "words_val (take n ls)" and ?r = "words_val (take n rs)" and ?B = "(2::nat) ^ (32 * n)"
  have val: "words_val (take (Suc n) xs) = words_val (take n xs) + ?B * unat (xs ! n)"
    if "n < length xs" for xs
    using that by (simp add: take_Suc_conv_app_nth words_val_append)
  have bnd: "?l < ?B" "?r < ?B" by (rule words_val_take_less)+
  have gap: "x + ?B * a < y + ?B * b" if "a < b" "x < ?B" for a b x y :: nat
  proof -
    have "x + ?B * a < ?B * Suc a" using that(2) by simp
    also have "\<dots> \<le> ?B * b" using that(1) by (intro mult_le_mono2) simp
    finally show ?thesis by simp
  qed
  show ?case
  proof (cases "ls ! n = rs ! n")
    case True
    with Suc show ?thesis by (simp add: val)
  next
    case False
    then consider "unat (ls ! n) < unat (rs ! n)" | "unat (rs ! n) < unat (ls ! n)"
      using word_unat_eq_iff by (metis linorder_neqE_nat)
    then show ?thesis
    proof cases
      case 1
      with gap [OF 1 bnd(1), of ?r] Suc.prems False show ?thesis
        by (simp add: val word_less_nat_alt sgn_diff_nat del: of_nat_add of_nat_mult)
    next
      case 2
      with gap [OF 2 bnd(2), of ?l] Suc.prems False show ?thesis
        by (simp add: val word_less_nat_alt sgn_diff_nat del: of_nat_add of_nat_mult)
    qed
  qed
qed simp

lemma trimmed_length_mono:
  assumes "jayess_bigint_words_trimmed_length ls < jayess_bigint_words_trimmed_length rs"
  shows "words_val ls < words_val rs"
proof -
  obtain n where n: "jayess_bigint_words_trimmed_length rs = Suc n"
    using assms by (cases "jayess_bigint_words_trimmed_length rs") simp_all
  have "words_val ls < 2 ^ (32 * jayess_bigint_words_trimmed_length ls)"
    using words_val_take_less trimmed_length_spec(2) [of ls] by simp
  also have "\<dots> \<le> 2 ^ (32 * n)" using assms n by (intro power_increasing) simp_all
  also have "\<dots> \<le> 2 ^ (32 * n) * unat (rs ! n)"
    using words_val_top(2) [OF n] by (simp add: Suc_leI unat_gt_0)
  also have "\<dots> \<le> words_val rs" using words_val_top(1) [OF n] by simp
  finally show ?thesis .
qed

lemma cmp_val:
  "jayess_bigint_words_cmp ls rs = sgn (int (words_val ls) - int (words_val rs))"
proof -
  let ?l = "jayess_bigint_words_trimmed_length ls" and ?r = "jayess_bigint_words_trimmed_length rs"
  consider "?l = ?r" | "?l < ?r" | "?r < ?l" by linarith
  then show ?thesis
  proof cases
    case 1
    with trimmed_length_spec [of ls] trimmed_length_spec [of rs] show ?thesis
      by (simp add: jayess_bigint_words_cmp_def Let_def cmp_loop_val)
  next
    case 2
    with trimmed_length_mono [OF 2] show ?thesis by (simp add: jayess_bigint_words_cmp_def)
  next
    case 3
    with trimmed_length_mono [OF 3] show ?thesis by (simp add: jayess_bigint_words_cmp_def)
  qed
qed


lemma add_words_loop_val:
  assumes "unat c \<le> 1" and "length rs \<le> length ls" and "add_words_loop c ls rs = (out, c')"
  shows "words_val out + 2 ^ (32 * length ls) * unat c' = words_val ls + words_val rs + unat c
       \<and> unat c' \<le> 1 \<and> length out = length ls"
  using assms
proof (induction ls arbitrary: c rs out)
  case (Cons l ls)
  define r where "r = (case rs of [] \<Rightarrow> 0 | x # _ \<Rightarrow> x)"
  define p :: u64 where "p = ucast l + ucast r + c"
  have rhs: "(case rs of [] \<Rightarrow> 0 | x # _ \<Rightarrow> ucast x) = (ucast r :: u64)"
    by (simp add: r_def split: list.splits)
  note small = Cons.prems(1) unat_u32_lt [of r] unat_u32_lt [of l]
  have lr: "unat (ucast l + ucast r :: u64) = unat l + unat r"
    using small by (subst sum_fits) simp_all
  have p: "unat p = unat l + unat r + unat c"
    unfolding p_def using small by (subst unat_plus_u64) (simp_all add: lr)
  have rs: "words_val rs = unat r + 2 ^ 32 * words_val (tl rs)"
    by (cases rs) (simp_all add: r_def)
  obtain rest where rest: "add_words_loop (drop_bit 32 p) ls (tl rs) = (rest, c')"
    and out: "out = ucast p # rest"
    using Cons.prems(3) by (auto simp: p_def Let_def rhs split: prod.splits)
  have "unat p < 2 ^ 32 * 2" using small by (simp add: p)
  then have "unat (drop_bit 32 p) < 2"
    unfolding unat_drop_bit_u64 by (subst div_less_iff_less_mult) (simp_all add: mult.commute)
  then have hi: "unat (drop_bit 32 p) \<le> 1" by simp
  have "length (tl rs) \<le> length ls" using Cons.prems(2) by simp
  from Cons.IH [OF hi this rest] have IH: "words_val rest + 2 ^ (32 * length ls) * unat c'
        = words_val ls + words_val (tl rs) + unat (drop_bit 32 p)"
    and rest': "unat c' \<le> 1" "length rest = length ls" by auto
  have "words_val out + 2 ^ (32 * length (l # ls)) * unat c'
      = unat (ucast p :: u32) + 2 ^ 32 * (words_val rest + 2 ^ (32 * length ls) * unat c')"
    by (simp add: out power_add algebra_simps)
  also have "\<dots> = unat p + 2 ^ 32 * (words_val ls + words_val (tl rs))"
    unfolding IH using u64_low_high [of p] by (simp add: algebra_simps)
  also have "\<dots> = words_val (l # ls) + words_val rs + unat c"
    by (simp add: p rs algebra_simps)
  finally show ?case using rest' out by simp
qed simp

lemma add_words_val:
  "words_val (jayess_bigint_words_add_words ls rs) = words_val ls + words_val rs"
proof (cases "rs = []")
  case False
  define grown where "grown = (if length ls < length rs then ls @ replicate (length rs - length ls) 0 else ls)"
  have grown: "words_val grown = words_val ls" "length rs \<le> length grown"
    by (simp_all add: grown_def words_val_append)
  obtain out c where loop: "add_words_loop 0 grown rs = (out, c)" by fastforce
  from add_words_loop_val [OF _ grown(2) this]
  have "words_val out + 2 ^ (32 * length grown) * unat c = words_val ls + words_val rs"
    "unat c < 2 ^ 32" "length out = length grown" by (auto simp: grown(1))
  with False loop words_val_carry [of c out] show ?thesis
    by (auto simp: jayess_bigint_words_add_words_def grown_def [symmetric])
qed (simp add: jayess_bigint_words_add_words_def)

lemma resized_val:
  "words_val (jayess_bigint_words_resized ws n) = words_val ws mod 2 ^ (32 * n)"
  "length (jayess_bigint_words_resized ws n) = n"
proof -
  have split: "words_val ws = words_val (take n ws) + 2 ^ (32 * n) * words_val (drop n ws)" if "n \<le> length ws"
    using that words_val_append [of "take n ws" "drop n ws"] by (simp add: min_def)
  have less: "words_val (take n ws) < 2 ^ (32 * n)" by (rule words_val_take_less)
  have "words_val (take n ws) = words_val ws mod 2 ^ (32 * n)"
    by (cases "n \<le> length ws") (use split less in simp_all)
  then show "words_val (jayess_bigint_words_resized ws n) = words_val ws mod 2 ^ (32 * n)"
    by (auto simp: jayess_bigint_words_resized_def copy_words_def jayess_bigint_words_new_def words_val_append)
  show "length (jayess_bigint_words_resized ws n) = n"
    by (simp add: jayess_bigint_words_resized_def copy_words_def jayess_bigint_words_new_def)
qed

lemma clone_id [simp]: "jayess_bigint_words_clone ws = ws"
  by (simp add: jayess_bigint_words_clone_def copy_words_def jayess_bigint_words_new_def)

end
