(* ===== verification/Bigint_Shift.thy ===== *)
theory Bigint_Shift
  imports Bigint_Words
begin

text \<open>
  The two shift routines of \<open>jayess_runtime_bigint.c\<close> on word arrays. The left shift is exact.
  The right shift is exact for a shift by whole words and for a result of one word; for the
  other inputs it takes the carried-in bits from the less significant neighbour instead of the
  more significant one, which the last lemma shows on a concrete value.
\<close>

section \<open>Shifts\<close>

text \<open>The loop over \<open>i\<close>, with the words still to be read and the output array so far.\<close>

fun shift_left_loop ::
  "nat \<Rightarrow> nat \<Rightarrow> jayess_bigint_words \<Rightarrow> nat \<Rightarrow> jayess_bigint_words \<Rightarrow> jayess_bigint_words" where
  "shift_left_loop word_shift bit_shift out i [] = out"
| "shift_left_loop word_shift bit_shift out i (v # vs) =
     (let current = push_bit bit_shift (ucast v :: u64);
          k = i + word_shift;
          out1 = out[k := out ! k OR ucast current];
          out2 = out1[k + 1 := out1 ! (k + 1) OR ucast (drop_bit 32 current)]
      in shift_left_loop word_shift bit_shift out2 (Suc i) vs)"

definition jayess_bigint_shift_left_words :: "jayess_bigint_words \<Rightarrow> nat \<Rightarrow> jayess_bigint_words" where
  "jayess_bigint_shift_left_words value shift =
     (let word_shift = shift div 32; bit_shift = shift mod 32
      in if jayess_bigint_words_is_zero value then []
         else shift_left_loop word_shift bit_shift
                (jayess_bigint_words_new (length value + word_shift + 1)) 0 value)"

text \<open>
  The loop of the right shift counts \<open>i\<close> down from the length to \<open>word_shift + 1\<close>; \<open>i\<close> below
  is the number of words still to be handled.
\<close>

fun shift_right_loop ::
  "jayess_bigint_words \<Rightarrow> nat \<Rightarrow> nat \<Rightarrow> jayess_bigint_words \<Rightarrow> nat \<Rightarrow> jayess_bigint_words" where
  "shift_right_loop value word_shift bit_shift out 0 = out"
| "shift_right_loop value word_shift bit_shift out (Suc n) =
     (if Suc n > word_shift
      then (let current = value ! n;
                target = n - word_shift;
                out1 = out[target := out ! target OR
                         (if bit_shift = 0 then current else drop_bit bit_shift current)];
                out2 = (if bit_shift \<noteq> 0 \<and> n > word_shift
                        then out1[target := out1 ! target OR push_bit (32 - bit_shift) (value ! (n - 1))]
                        else out1)
            in shift_right_loop value word_shift bit_shift out2 n)
      else out)"

definition jayess_bigint_shift_right_words :: "jayess_bigint_words \<Rightarrow> nat \<Rightarrow> jayess_bigint_words" where
  "jayess_bigint_shift_right_words value shift =
     (let word_shift = shift div 32; bit_shift = shift mod 32
      in if word_shift \<ge> length value \<or> jayess_bigint_words_is_zero value then []
         else shift_right_loop value word_shift bit_shift
                (jayess_bigint_words_new (length value - word_shift)) (length value))"


section \<open>What the shifts compute\<close>

lemma words_val_update:
  "k < length ws \<Longrightarrow> words_val (ws[k := w]) + 2 ^ (32 * k) * unat (ws ! k)
   = words_val ws + 2 ^ (32 * k) * unat w"
proof (induction ws arbitrary: k)
  case (Cons x xs)
  show ?case
  proof (cases k)
    case (Suc j)
    with Cons have "words_val (xs[j := w]) + 2 ^ (32 * j) * unat (xs ! j)
        = words_val xs + 2 ^ (32 * j) * unat w" by simp
    then have "2 ^ 32 * (words_val (xs[j := w]) + 2 ^ (32 * j) * unat (xs ! j))
        = 2 ^ 32 * (words_val xs + 2 ^ (32 * j) * unat w)" by (simp only:)
    then show ?thesis by (simp add: Suc power_add algebra_simps)
  qed simp
qed simp

text \<open>An OR into a word that holds only lower bits adds.\<close>

lemma or_low_high:
  assumes "unat (a :: u32) < 2 ^ n" and "2 ^ n dvd unat b" and "n \<le> 32"
  shows "unat (a OR b) = unat a + unat b"
proof -
  have a: "take_bit n a = a"
    using assms(1,3) by (simp add: word_unat_eq_iff unsigned_take_bit_eq take_bit_nat_eq_self_iff)
  have "take_bit n b = 0"
    using assms(2,3) by (simp only: word_unat_eq_iff unsigned_take_bit_eq)
      (simp add: take_bit_eq_mod dvd_eq_mod_eq_0)
  then have "take_bit n a AND b = 0"
    by (auto simp: bit_eq_iff bit_simps)
  then have "a AND b = 0" by (simp add: a)
  then have or: "a OR b = a + b" by (simp add: disjunctive_add_eq_or)
  obtain m where m: "unat b = 2 ^ n * m" using assms(2) by (rule dvdE)
  have "2 ^ n * m < 2 ^ n * 2 ^ (32 - n)"
    using unat_u32_lt [of b] assms(3) by (simp add: m power_add [symmetric])
  then have "Suc m \<le> 2 ^ (32 - n)" by simp
  then have "2 ^ n * Suc m \<le> 2 ^ n * 2 ^ (32 - n)" by (rule mult_le_mono2)
  then have "2 ^ n * Suc m \<le> 2 ^ 32" using assms(3) by (simp add: power_add [symmetric])
  then have "unat a + unat b < 2 ^ 32" using assms(1) m by simp
  then show ?thesis unfolding or by (simp add: unat_word_ariths)
qed


lemma unat_push_small:
  assumes "b < 32"
  shows "unat (push_bit b (ucast (v :: u32) :: u64)) = unat v * 2 ^ b"
proof -
  have "unat v * 2 ^ b < 2 ^ 32 * 2 ^ b" using unat_u32_lt [of v] by simp
  also have "\<dots> \<le> 2 ^ 64"
    using power_increasing [of "32 + b" 64 "2 :: nat"] assms by (simp add: power_add)
  finally have "unat v * 2 ^ b < 2 ^ 64" .
  then show ?thesis
    by (simp only: unsigned_push_bit_eq unat_ucast_u64_of_u32) (simp add: push_bit_eq_mult take_bit_eq_mod)
qed

lemma shift_left_loop_val:
  assumes "b < 32" and "i + s + length vs < length out"
    and "unat (out ! (i + s)) < 2 ^ b"
    and "\<And>k. i + s < k \<Longrightarrow> k < length out \<Longrightarrow> out ! k = 0"
  shows "words_val (shift_left_loop s b out i vs)
       = words_val out + 2 ^ (32 * (i + s)) * (words_val vs * 2 ^ b)"
  using assms(2-)
proof (induction vs arbitrary: out i)
  case (Cons v vs)
  define cur :: u64 where "cur = push_bit b (ucast v)"
  define k where "k = i + s"
  define out1 where "out1 = out[k := out ! k OR ucast cur]"
  define out2 where "out2 = out1[k + 1 := out1 ! (k + 1) OR ucast (drop_bit 32 cur)]"
  have cur: "unat cur = unat v * 2 ^ b" unfolding cur_def using assms(1) by (rule unat_push_small)
  have klen: "k + 1 < length out" using Cons.prems(1) by (simp add: k_def)
  have next0: "out ! (k + 1) = 0" using Cons.prems(3) klen by (simp add: k_def)
  have low: "2 ^ b dvd unat (ucast cur :: u32)"
  proof -
    have "(2 :: nat) ^ b dvd 2 ^ 32" using assms(1) by (intro le_imp_power_dvd) simp
    then show ?thesis unfolding unat_ucast_u32_of_u64 by (simp add: cur dvd_mod)
  qed
  have orlow: "unat (out ! k OR ucast cur) = unat (out ! k) + unat (ucast cur :: u32)"
    using Cons.prems(2) low assms(1) by (intro or_low_high [of _ b]) (simp_all add: k_def)
  have "unat cur < 2 ^ b * 2 ^ 32" using unat_u32_lt [of v] by (simp add: cur mult.commute)
  then have high: "unat (ucast (drop_bit 32 cur) :: u32) = unat (drop_bit 32 cur)"
    and highb: "unat (drop_bit 32 cur) < 2 ^ b"
    using unat_u64_lt [of cur] by (simp_all add: word_split div_less_iff_less_mult)
  have out1: "words_val out1 = words_val out + 2 ^ (32 * k) * unat (ucast cur :: u32)"
    using words_val_update [of k out "out ! k OR ucast cur"] klen
    by (simp add: out1_def orlow algebra_simps)
  have o1: "out1 ! (k + 1) = 0" "k + 1 < length out1"
    using next0 klen by (simp_all add: out1_def)
  have "words_val out2 = words_val out1 + 2 ^ (32 * (k + 1)) * unat (drop_bit 32 cur)"
    using words_val_update [of "k + 1" out1 "ucast (drop_bit 32 cur)"] o1
    by (simp add: out2_def high)
  also have "\<dots> = words_val out + 2 ^ (32 * k) * (unat (ucast cur :: u32) + 2 ^ 32 * unat (drop_bit 32 cur))"
    by (simp add: out1 power_add algebra_simps)
  finally have out2: "words_val out2 = words_val out + 2 ^ (32 * k) * (unat v * 2 ^ b)"
    using u64_low_high [of cur] cur by simp
  have "words_val (shift_left_loop s b out2 (Suc i) vs)
      = words_val out2 + 2 ^ (32 * (Suc i + s)) * (words_val vs * 2 ^ b)"
  proof (rule Cons.IH)
    show "Suc i + s + length vs < length out2"
      using Cons.prems(1) by (simp add: out2_def out1_def)
    show "unat (out2 ! (Suc i + s)) < 2 ^ b"
      using o1 highb by (simp add: out2_def k_def high)
    show "out2 ! j = 0" if "Suc i + s < j" "j < length out2" for j
      using that Cons.prems(3) by (simp add: out2_def out1_def k_def)
  qed
  then have "words_val (shift_left_loop s b out2 (Suc i) vs)
      = words_val out + 2 ^ (32 * k) * (words_val (v # vs) * 2 ^ b)"
    by (simp add: out2 k_def power_add algebra_simps)
  moreover have "shift_left_loop s b out i (v # vs) = shift_left_loop s b out2 (Suc i) vs"
    by (simp only: shift_left_loop.simps Let_def cur_def k_def out1_def out2_def)
  ultimately show ?case by (simp only: k_def)
qed simp

lemma shift_left_words_val:
  "words_val (jayess_bigint_shift_left_words value shift) = words_val value * 2 ^ shift"
proof (cases "words_val value = 0")
  case False
  let ?s = "shift div 32" and ?b = "shift mod 32"
  let ?out = "jayess_bigint_words_new (length value + ?s + 1)"
  have "words_val (shift_left_loop ?s ?b ?out 0 value)
      = words_val ?out + 2 ^ (32 * (0 + ?s)) * (words_val value * 2 ^ ?b)"
    by (rule shift_left_loop_val) (simp_all add: jayess_bigint_words_new_def del: replicate_Suc)
  moreover have "2 ^ (32 * ?s) * (2 :: nat) ^ ?b = 2 ^ shift"
    by (simp add: power_add [symmetric])
  ultimately show ?thesis using False
    by (simp add: jayess_bigint_shift_left_words_def Let_def jayess_bigint_words_new_def
        mult.left_commute [of _ "words_val value"] del: replicate_Suc)
qed (simp add: jayess_bigint_shift_left_words_def)

lemma shift_left_loop_length [simp]:
  "length (shift_left_loop s b out i vs) = length out"
  by (induction vs arbitrary: out i) (simp_all add: Let_def)

text \<open>Word \<open>j\<close> of the right shift, as the source computes it.\<close>

definition shifted_word :: "jayess_bigint_words \<Rightarrow> nat \<Rightarrow> nat \<Rightarrow> nat \<Rightarrow> u32" where
  "shifted_word value s b j =
     (if b = 0 then value ! (j + s)
      else if j = 0 then drop_bit b (value ! s)
      else drop_bit b (value ! (j + s)) OR push_bit (32 - b) (value ! (j + s - 1)))"

lemma shift_right_loop_words:
  assumes "n - s \<le> length out" and "\<And>j. j < n - s \<Longrightarrow> out ! j = 0"
  shows "shift_right_loop value s b out n
       = map (shifted_word value s b) [0..<n - s] @ drop (n - s) out"
  using assms
proof (induction n arbitrary: out)
  case (Suc n)
  show ?case
  proof (cases "Suc n > s")
    case True
    define t where "t = n - s"
    have t: "Suc n - s = Suc t" "n = t + s" "t < length out" "out ! t = 0"
      using True Suc.prems by (simp_all add: t_def)
    have step: "shift_right_loop value s b out (Suc n)
        = shift_right_loop value s b (out[t := shifted_word value s b t]) n"
      using t True by (auto simp: shifted_word_def Let_def t_def [symmetric])
    have "shift_right_loop value s b (out[t := shifted_word value s b t]) n
        = map (shifted_word value s b) [0..<n - s] @ drop (n - s) (out[t := shifted_word value s b t])"
      by (rule Suc.IH) (use Suc.prems t in \<open>simp_all add: t_def [symmetric]\<close>)
    with step t show ?thesis
      by (simp add: t_def [symmetric] drop_update_swap Cons_nth_drop_Suc [symmetric])
  qed simp
qed simp

lemma shift_right_words:
  assumes "shift div 32 < length value" and "words_val value \<noteq> 0"
  shows "jayess_bigint_shift_right_words value shift
       = map (shifted_word value (shift div 32) (shift mod 32)) [0..<length value - shift div 32]"
  using assms by (simp add: jayess_bigint_shift_right_words_def shift_right_loop_words
      jayess_bigint_words_new_def Let_def)

lemma words_val_drop: "words_val (drop n ws) = words_val ws div 2 ^ (32 * n)"
proof (cases "n \<le> length ws")
  case True
  have "words_val ws = words_val (take n ws) + 2 ^ (32 * n) * words_val (drop n ws)"
    using True words_val_append [of "take n ws" "drop n ws"] by (simp add: min_def)
  then show ?thesis using words_val_take_less [of n ws] by simp
next
  case False
  then have "words_val ws < 2 ^ (32 * n)"
    using words_val_take_less [of n ws] by simp
  with False show ?thesis by simp
qed

text \<open>The shifts the routine computes right: whole words, and a result of a single word.\<close>

lemma shift_right_words_val:
  assumes "shift mod 32 = 0 \<or> length value \<le> Suc (shift div 32)"
  shows "words_val (jayess_bigint_shift_right_words value shift) = words_val value div 2 ^ shift"
proof (cases "shift div 32 \<ge> length value \<or> words_val value = 0")
  case True
  have "words_val value < 2 ^ shift" if "shift div 32 \<ge> length value"
  proof -
    have "words_val value < 2 ^ (32 * length value)" by (rule words_val_less)
    also have "\<dots> \<le> 2 ^ shift" using that by (intro power_increasing) auto
    finally show ?thesis .
  qed
  with True show ?thesis by (auto simp: jayess_bigint_shift_right_words_def Let_def)
next
  case False
  let ?s = "shift div 32" and ?b = "shift mod 32"
  have pow: "(2 :: nat) ^ shift = 2 ^ (32 * ?s) * 2 ^ ?b" by (simp add: power_add [symmetric])
  show ?thesis
  proof (cases "?b = 0")
    case True
    have "map (shifted_word value ?s 0) [0..<length value - ?s] = drop ?s value"
      by (rule nth_equalityI) (simp_all add: shifted_word_def add.commute)
    with False True pow show ?thesis by (simp add: shift_right_words words_val_drop)
  next
    case b: False
    with assms False have len: "length value = Suc ?s" by simp
    then have "drop ?s value = [value ! ?s]"
      by (simp add: Cons_nth_drop_Suc [symmetric])
    then have "unat (value ! ?s) = words_val value div 2 ^ (32 * ?s)"
      using words_val_drop [of ?s "value"] by simp
    moreover have "map (shifted_word value ?s ?b) [0..<length value - ?s] = [drop_bit ?b (value ! ?s)]"
      using b len by (simp add: shifted_word_def)
    ultimately show ?thesis using False pow
      by (simp add: shift_right_words unat_drop_bit_u32 div_mult2_eq)
  qed
qed

lemma shift_right_words_length [simp]:
  "length (jayess_bigint_shift_right_words value shift)
   = (if shift div 32 \<ge> length value \<or> words_val value = 0 then 0 else length value - shift div 32)"
  using shift_right_words [of shift "value"] by (auto simp: jayess_bigint_shift_right_words_def Let_def)

text \<open>\<open>2 ^ 32 >> 1\<close>: the carried-in bit is lost and the result is 0.\<close>

lemma shift_right_words_example:
  "words_val [0, 1] = 2 ^ 32 \<and> words_val (jayess_bigint_shift_right_words [0, 1] 1) = 0"
  by (simp add: shift_right_words shifted_word_def upt_rec)

end
