(* ===== verification/Decimal.thy ===== *)
theory Decimal
  imports Prelude
begin

text \<open>
  Decimal text: the two \<open>printf\<close> conversions the big integers are printed with (\<open>%u\<close> and
  \<open>%09u\<close>), reading a run of digits, and the text of an integer, which is the specification the
  big-integer routines are measured against.
\<close>

definition digit_char :: "nat \<Rightarrow> char" where
  "digit_char d = char_of (48 + d)"

definition is_digit :: "char \<Rightarrow> bool" where
  "is_digit c \<longleftrightarrow> 48 \<le> (of_char c :: nat) \<and> of_char c \<le> (57 :: nat)"

definition digit_val :: "char \<Rightarrow> nat" where
  "digit_val c = of_char c - 48"

text \<open>\<open>printf("%u", n)\<close>.\<close>

fun dec :: "nat \<Rightarrow> string" where
  "dec n = (if n < 10 then [digit_char n] else dec (n div 10) @ [digit_char (n mod 10)])"

declare dec.simps [simp del]

text \<open>\<open>printf("%0ku", n)\<close>: zeros to the left up to \<open>k\<close> characters.\<close>

definition dec_pad :: "nat \<Rightarrow> nat \<Rightarrow> string" where
  "dec_pad k n = replicate (k - length (dec n)) (CHR ''0'') @ dec n"

text \<open>The number a run of digits stands for, after what has been read so far.\<close>

fun dec_val :: "nat \<Rightarrow> string \<Rightarrow> nat" where
  "dec_val acc [] = acc"
| "dec_val acc (c # cs) = dec_val (acc * 10 + digit_val c) cs"

text \<open>The text of an integer.\<close>

definition text_of_int :: "int \<Rightarrow> string" where
  "text_of_int i = (if i < 0 then CHR ''-'' # dec (nat (- i)) else dec (nat i))"

lemma of_char_digit: "d < 10 \<Longrightarrow> of_char (digit_char d) = (48 + d :: nat)"
  by (simp add: digit_char_def)

lemma is_digit_char [simp]: "d < 10 \<Longrightarrow> is_digit (digit_char d)"
  by (simp add: is_digit_def of_char_digit)

lemma digit_val_char [simp]: "d < 10 \<Longrightarrow> digit_val (digit_char d) = d"
  by (simp add: digit_val_def of_char_digit)

lemma digit_char_0: "digit_char 0 = CHR ''0''"
  by code_simp

lemma digit_chars:
  "digit_char 0 = CHR ''0''" "digit_char 1 = CHR ''1''" "digit_char 2 = CHR ''2''"
  "digit_char 3 = CHR ''3''" "digit_char 4 = CHR ''4''" "digit_char 5 = CHR ''5''"
  "digit_char 6 = CHR ''6''" "digit_char 7 = CHR ''7''" "digit_char 8 = CHR ''8''"
  "digit_char 9 = CHR ''9''" "digit_char (Suc 0) = CHR ''1''"
  by code_simp+

lemma digit_char_eq_iff: "a < 10 \<Longrightarrow> b < 10 \<Longrightarrow> digit_char a = digit_char b \<longleftrightarrow> a = b"
  using digit_val_char by metis

lemma dec_digits: "list_all is_digit (dec n)"
  by (induction n rule: dec.induct) (subst dec.simps, simp)

lemma dec_nonempty [simp]: "dec n \<noteq> []"
  by (subst dec.simps) simp

lemma dec_0: "dec 0 = ''0''"
  by (simp add: dec.simps digit_char_0)

lemma dec_val_append: "dec_val a (xs @ ys) = dec_val (dec_val a xs) ys"
  by (induction xs arbitrary: a) simp_all

lemma dec_val_dec [simp]: "dec_val 0 (dec n) = n"
proof (induction n rule: dec.induct)
  case (1 n)
  then show ?case by (cases "n < 10") (simp_all add: dec.simps [of n] dec_val_append)
qed

lemma dec_eq_iff [simp]: "dec m = dec n \<longleftrightarrow> m = n"
  using dec_val_dec by metis

lemma dec_is_zero [simp]: "dec n = ''0'' \<longleftrightarrow> n = 0"
  using dec_eq_iff [of n 0] by (simp add: dec_0)

lemma hd_dec_ne_0: "n \<noteq> 0 \<Longrightarrow> hd (dec n) \<noteq> CHR ''0''"
proof (induction n rule: dec.induct)
  case (1 n)
  show ?case
  proof (cases "n < 10")
    case True
    with 1 digit_char_eq_iff [of n 0] show ?thesis by (simp add: dec.simps [of n] digit_char_0)
  next
    case False
    with 1 show ?thesis by (simp add: dec.simps [of n])
  qed
qed

lemma length_dec_le: "n < 10 ^ k \<Longrightarrow> 0 < k \<Longrightarrow> length (dec n) \<le> k"
proof (induction k arbitrary: n)
  case (Suc k)
  show ?case
  proof (cases "n < 10")
    case True
    then show ?thesis by (simp add: dec.simps [of n])
  next
    case False
    then have "k \<noteq> 0" using Suc.prems by (cases k) simp_all
    moreover have "n div 10 < 10 ^ k" using Suc.prems by (simp add: div_less_iff_less_mult mult.commute)
    ultimately have "length (dec (n div 10)) \<le> k" using Suc.IH by simp
    with False show ?thesis by (simp add: dec.simps [of n])
  qed
qed simp

lemma dec_pad_Suc:
  assumes "0 < k" and "b < 10 ^ Suc k"
  shows "dec_pad (Suc k) b = dec_pad k (b div 10) @ [digit_char (b mod 10)]"
proof (cases "b < 10")
  case True
  then show ?thesis using assms(1)
    by (cases k) (simp_all add: dec_pad_def dec_0 dec.simps [of b] replicate_append_same)
next
  case False
  have "b div 10 < 10 ^ k" using assms(2) by (simp add: div_less_iff_less_mult mult.commute)
  then have "length (dec (b div 10)) \<le> k" using assms(1) by (rule length_dec_le)
  with False show ?thesis by (simp add: dec_pad_def dec.simps [of b])
qed

text \<open>Printing in groups of \<open>k\<close> digits prints the number.\<close>

lemma dec_split:
  assumes "0 < k" and "a \<noteq> 0" and "b < 10 ^ k"
  shows "dec (a * 10 ^ k + b) = dec a @ dec_pad k b"
  using assms
proof (induction k arbitrary: b)
  case (Suc k)
  have "(1 :: nat) * 10 ^ 1 \<le> a * 10 ^ Suc k"
    using Suc.prems(2) by (intro mult_le_mono power_increasing) simp_all
  then have ge: "\<not> a * 10 ^ Suc k + b < 10"
    unfolding not_less mult_1 power_one_right by (rule trans_le_add1)
  have divmod: "(a * 10 ^ Suc k + b) div 10 = a * 10 ^ k + b div 10" "(a * 10 ^ Suc k + b) mod 10 = b mod 10"
    using div_mult_self3 [of 10 "a * 10 ^ k" b] mod_mult_self3 [of "a * 10 ^ k" 10 b]
    by (simp_all add: ac_simps)
  show ?case
  proof (cases "k = 0")
    case True
    then have "b < 10" using Suc.prems by simp
    with ge divmod True show ?thesis
      by (simp add: dec.simps [of "a * 10 + b"] dec_pad_def dec.simps [of b])
  next
    case False
    have "b div 10 < 10 ^ k" using Suc.prems(3) by (simp add: div_less_iff_less_mult mult.commute)
    then have "dec (a * 10 ^ k + b div 10) = dec a @ dec_pad k (b div 10)"
      using Suc.IH Suc.prems(2) False by simp
    with ge divmod show ?thesis
      using dec_pad_Suc [of k b] Suc.prems(3) False by (subst dec.simps) simp
  qed
qed simp

lemma less_length_dec: "n < 10 ^ length (dec n)"
proof (induction n rule: dec.induct)
  case (1 n)
  then show ?case by (cases "n < 10") (simp_all add: dec.simps [of n] div_less_iff_less_mult mult.commute)
qed

lemma dec_times_power:
  assumes "n \<noteq> 0"
  shows "dec (n * 10 ^ k) = dec n @ replicate k (CHR ''0'')"
proof (cases k)
  case (Suc j)
  have "length (dec 0) = 1" by (simp add: dec_0)
  then have "dec_pad k 0 = replicate k (CHR ''0'')"
    using Suc by (simp add: dec_pad_def dec_0 replicate_append_same)
  then show ?thesis using dec_split [of k n 0] assms Suc by simp
qed simp

end
