(* ===== verification/Bigint_Text.thy ===== *)
theory Bigint_Text
  imports Bigint_Shift Decimal
begin

text \<open>
  Big integers as text, the second layer of \<open>jayess_runtime_bigint.c\<close>: a big integer is stored
  as its decimal text, and every operator parses the text into a word array, computes, and prints
  the result. The definitions follow the C functions one by one; the lemmas relate each to the
  integer \<open>i\<close> behind the text \<open>text_of_int i\<close>.

  Printing recurses on the magnitude of a negative value, and the recursion does not stop when
  that magnitude does not fit into the width (the most negative value of the width). The model of
  the printing function is a \<open>partial_function\<close>, in which \<open>None\<close> is this endless recursion.
  Inside the option, \<open>Inl Out_of_bounds\<close> is a read past the end of the word array.
\<close>

section \<open>Parsing\<close>

definition skip_sign :: "string \<Rightarrow> string" where
  "skip_sign text = (case text of [] \<Rightarrow> [] | c # cs \<Rightarrow> if c = CHR ''+'' \<or> c = CHR ''-'' then cs else text)"

fun parse_digits_loop :: "jayess_bigint_words \<Rightarrow> string \<Rightarrow> jayess_bigint_words" where
  "parse_digits_loop value [] = value"
| "parse_digits_loop value (c # cs) =
     (if \<not> is_digit c then []
      else parse_digits_loop
             (jayess_bigint_words_add_small (jayess_bigint_words_mul_small value 10) (of_nat (digit_val c))) cs)"

definition jayess_bigint_parse_magnitude :: "string \<Rightarrow> jayess_bigint_words" where
  "jayess_bigint_parse_magnitude text =
     parse_digits_loop [] (dropWhile (\<lambda>c. c = CHR ''0'') (skip_sign text))"

definition jayess_bigint_is_negative_text :: "string \<Rightarrow> bool" where
  "jayess_bigint_is_negative_text text \<longleftrightarrow> (case text of [] \<Rightarrow> False | c # _ \<Rightarrow> c = CHR ''-'')"

definition jayess_bigint_signed_bit_length :: "string \<Rightarrow> nat" where
  "jayess_bigint_signed_bit_length text =
     (let magnitude = jayess_bigint_parse_magnitude text
      in if \<not> jayess_bigint_words_is_zero magnitude
         then if jayess_bigint_is_negative_text text
              then (let adjusted = fst (jayess_bigint_words_sub_small (jayess_bigint_words_clone magnitude) 1)
                    in jayess_bigint_words_bit_length adjusted + 1)
              else jayess_bigint_words_bit_length magnitude + 1
         else 1)"

text \<open>
  The shift count: whether it parses, its sign and its value. A count that does not fit into
  \<open>size_t\<close> is refused.
\<close>

fun shift_count_loop :: "nat \<Rightarrow> string \<Rightarrow> nat option" where
  "shift_count_loop value [] = Some value"
| "shift_count_loop value (c # cs) =
     (if \<not> is_digit c then None
      else if value > (SIZE_MAX - digit_val c) div 10 then None
      else shift_count_loop (value * 10 + digit_val c) cs)"

definition jayess_bigint_parse_shift_count :: "string \<Rightarrow> (bool \<times> nat) option" where
  "jayess_bigint_parse_shift_count text =
     map_option (\<lambda>count. (jayess_bigint_is_negative_text text, count))
       (shift_count_loop 0 (dropWhile (\<lambda>c. c = CHR ''0'') (skip_sign text)))"

section \<open>Two's complement\<close>

text \<open>\<open>words[i] = ~words[i] + carry\<close>, from the least significant word up.\<close>

fun negate_loop :: "u64 \<Rightarrow> jayess_bigint_words \<Rightarrow> jayess_bigint_words" where
  "negate_loop carry [] = []"
| "negate_loop carry (w # ws) =
     (let value = ucast (NOT w) + carry in ucast value # negate_loop (drop_bit 32 value) ws)"

definition mask_top_word :: "jayess_bigint_words \<Rightarrow> nat \<Rightarrow> nat \<Rightarrow> jayess_bigint_words" where
  "mask_top_word ws word_count width_bits =
     (if width_bits mod 32 \<noteq> 0
      then ws[word_count - 1 := ws ! (word_count - 1) AND (ucast (push_bit (width_bits mod 32) 1 - 1 :: u64))]
      else ws)"

definition jayess_bigint_to_twos_complement :: "string \<Rightarrow> nat \<Rightarrow> jayess_bigint_words" where
  "jayess_bigint_to_twos_complement text width_bits =
     (let word_count = (width_bits + 31) div 32;
          words = jayess_bigint_words_resized (jayess_bigint_parse_magnitude text) word_count;
          words1 = (if jayess_bigint_is_negative_text text \<and> word_count > 0 then negate_loop 1 words else words)
      in if word_count > 0 then mask_top_word words1 word_count width_bits else words1)"

text \<open>The remainders by \<open>10 ^ 9\<close>, least significant first, at most \<open>n\<close> of them.\<close>

fun decimal_parts_loop :: "nat \<Rightarrow> jayess_bigint_words \<Rightarrow> u32 list" where
  "decimal_parts_loop 0 work = []"
| "decimal_parts_loop (Suc n) work =
     (if jayess_bigint_words_is_zero work then []
      else (let (q, r, _) = jayess_bigint_words_divmod_small work 1000000000
            in r # decimal_parts_loop n q))"

text \<open>\<open>parts\<close> has room for 256 remainders.\<close>

definition print_magnitude :: "jayess_bigint_words \<Rightarrow> fault + string" where
  "print_magnitude magnitude =
     (case rev (decimal_parts_loop 256 magnitude) of
        [] \<Rightarrow> Inl Out_of_bounds
      | p # ps \<Rightarrow> Inr (dec (unat p) @ concat (map (\<lambda>q. dec_pad 9 (unat q)) ps)))"

text \<open>A minus sign in front, unless the text is \<open>0\<close>, which becomes \<open>zero\<close>.\<close>

definition negate_text :: "string \<Rightarrow> fault + string \<Rightarrow> fault + string" where
  "negate_text zero result =
     (case result of Inl f \<Rightarrow> Inl f | Inr out \<Rightarrow> Inr (if out = ''0'' then zero else CHR ''-'' # out))"

partial_function (option) jayess_bigint_from_twos_complement ::
  "jayess_bigint_words \<Rightarrow> nat \<Rightarrow> (fault + string) option" where
  "jayess_bigint_from_twos_complement ws width_bits =
     (let word_count = (width_bits + 31) div 32;
          bit_index = width_bits - 1
      in if word_count = 0 \<or> jayess_bigint_words_is_zero ws then Some (Inr ''0'')
         else if bit_index div 32 \<ge> length ws then Some (Inl Out_of_bounds)
         else if drop_bit (bit_index mod 32) (ws ! (bit_index div 32)) AND 1 = 0
         then (let magnitude = mask_top_word (jayess_bigint_words_resized ws word_count) word_count width_bits
               in if jayess_bigint_words_is_zero magnitude then Some (Inr ''0'')
                  else Some (print_magnitude (jayess_bigint_words_clone magnitude)))
         else (let magnitude = negate_loop 1
                     (mask_top_word (jayess_bigint_words_resized ws word_count) word_count width_bits)
               in Option.bind (jayess_bigint_from_twos_complement magnitude width_bits)
                    (\<lambda>positive. Some (negate_text ''0'' positive))))"

section \<open>The operators on texts\<close>

definition jayess_bigint_bitwise_unary_not :: "string \<Rightarrow> (fault + string) option" where
  "jayess_bigint_bitwise_unary_not text =
     (let magnitude = jayess_bigint_parse_magnitude text
      in if jayess_bigint_is_negative_text text
         then (let m = fst (jayess_bigint_words_sub_small magnitude 1)
               in jayess_bigint_from_twos_complement m (jayess_bigint_words_bit_length m + 1))
         else (let m = jayess_bigint_words_add_small magnitude 1
               in map_option (negate_text ''-1'')
                    (jayess_bigint_from_twos_complement m (jayess_bigint_words_bit_length m + 1))))"

text \<open>The operator: the character the C code switches on.\<close>

definition bitwise_word :: "char \<Rightarrow> u32 \<Rightarrow> u32 \<Rightarrow> u32" where
  "bitwise_word opr l r =
     (if opr = CHR ''&'' then l AND r else if opr = CHR ''|'' then l OR r else l XOR r)"

definition jayess_bigint_bitwise_binary :: "string \<Rightarrow> string \<Rightarrow> char \<Rightarrow> (fault + string) option" where
  "jayess_bigint_bitwise_binary left_text right_text opr =
     (let left_width = jayess_bigint_signed_bit_length left_text;
          right_width = jayess_bigint_signed_bit_length right_text;
          width = (if right_width > left_width then right_width else left_width);
          left_words = jayess_bigint_to_twos_complement left_text width;
          right_words = jayess_bigint_to_twos_complement right_text width
      in jayess_bigint_from_twos_complement (map2 (bitwise_word opr) left_words right_words) width)"

text \<open>
  The shifts answer \<open>None\<close> inside the result for the NULL the C functions return when the count
  is not a non-negative number within the limits.
\<close>

definition jayess_bigint_shift_left_text :: "string \<Rightarrow> string \<Rightarrow> (fault + string) option option" where
  "jayess_bigint_shift_left_text value_text shift_text =
     (case jayess_bigint_parse_shift_count shift_text of
        None \<Rightarrow> None
      | Some (negative_shift, shift) \<Rightarrow>
          if negative_shift then None
          else (let magnitude = jayess_bigint_shift_left_words (jayess_bigint_parse_magnitude value_text) shift;
                    out = jayess_bigint_from_twos_complement magnitude
                            (jayess_bigint_words_bit_length magnitude + 1)
                in Some (if jayess_bigint_is_negative_text value_text
                         then map_option (negate_text ''0'') out else out)))"

definition jayess_bigint_shift_right_text :: "string \<Rightarrow> string \<Rightarrow> (fault + string) option option" where
  "jayess_bigint_shift_right_text value_text shift_text =
     (case jayess_bigint_parse_shift_count shift_text of
        None \<Rightarrow> None
      | Some (negative_shift, shift) \<Rightarrow>
          if negative_shift then None
          else (let magnitude = jayess_bigint_parse_magnitude value_text
                in if \<not> jayess_bigint_is_negative_text value_text
                   then (let m = jayess_bigint_shift_right_words magnitude shift
                         in Some (jayess_bigint_from_twos_complement m (jayess_bigint_words_bit_length m + 1)))
                   else if jayess_bigint_words_is_zero magnitude then Some (Some (Inr ''0''))
                   else (let m1 = fst (jayess_bigint_words_sub_small magnitude 1);
                             m2 = jayess_bigint_shift_right_words m1 shift;
                             m3 = jayess_bigint_words_add_small m2 1
                         in Some (map_option (negate_text ''-1'')
                              (jayess_bigint_from_twos_complement m3 (jayess_bigint_words_bit_length m3 + 1))))))"

end
