(* ===== verification/Bigint_Correct.thy ===== *)
theory Bigint_Correct
  imports Bigint_Text
begin

text \<open>
  The big-integer operators measured against integer arithmetic: parsing and printing, two's
  complement, and from them the bitwise operators and the shifts on the texts of integers.
\<close>

section \<open>Parsing a magnitude\<close>

text \<open>An array without superfluous words: what the parser builds.\<close>

definition tight :: "jayess_bigint_words \<Rightarrow> bool" where
  "tight ws \<longleftrightarrow> (ws \<noteq> [] \<longrightarrow> 2 ^ (32 * (length ws - 1)) \<le> words_val ws)"

lemma tight_carry:
  assumes "tight ws" and "length out = length ws" and "unat (c :: u64) < 2 ^ 32"
    and "words_val ws \<le> words_val (if c \<noteq> 0 then out @ [ucast c] else out)"
  shows "tight (if c \<noteq> 0 then out @ [ucast c] else out)"
proof (cases "c = 0")
  case True
  with assms show ?thesis by (auto simp: tight_def)
next
  case False
  with assms(3) have "2 ^ (32 * length out) * 1 \<le> words_val (out @ [ucast c])"
    using words_val_carry [of c out] by (simp add: unat_gt_0 Suc_leI trans_le_add2 del: mult_1_right)
  with False show ?thesis by (simp add: tight_def)
qed

lemma tight_mul_small: "tight ws \<Longrightarrow> f \<noteq> 0 \<Longrightarrow> tight (jayess_bigint_words_mul_small ws f)"
proof (cases "ws = []")
  case False
  assume tight: "tight ws" and f: "f \<noteq> 0"
  obtain out c where loop: "mul_small_loop f 0 ws = (out, c)" by fastforce
  from mul_small_loop_val [OF _ this] have c: "unat c < 2 ^ 32" "length out = length ws" by simp_all
  have result: "jayess_bigint_words_mul_small ws f = (if c \<noteq> 0 then out @ [ucast c] else out)"
    using False f loop by (simp add: jayess_bigint_words_mul_small_def)
  have "words_val ws \<le> words_val (jayess_bigint_words_mul_small ws f)"
    using f by (simp add: unat_gt_0 Suc_leI)
  with tight c show ?thesis unfolding result by (intro tight_carry)
qed (simp add: jayess_bigint_words_mul_small_def tight_def)

lemma tight_add_small: "tight ws \<Longrightarrow> tight (jayess_bigint_words_add_small ws a)"
proof (cases "ws = [] \<or> a = 0")
  case False
  assume tight: "tight ws"
  obtain out c where loop: "add_small_loop (ucast a) ws = (out, c)" by fastforce
  from add_small_loop_val [OF _ this] have c: "unat c < 2 ^ 32" "length out = length ws"
    by (simp_all add: word_less)
  have result: "jayess_bigint_words_add_small ws a = (if c \<noteq> 0 then out @ [ucast c] else out)"
    using False loop by (simp add: jayess_bigint_words_add_small_def)
  have "words_val ws \<le> words_val (jayess_bigint_words_add_small ws a)" by simp
  with tight c show ?thesis unfolding result by (intro tight_carry)
qed (auto simp: jayess_bigint_words_add_small_def jayess_bigint_words_from_u32_def tight_def
      unat_gt_0 Suc_leI)

text \<open>The length of a tight array follows from its value.\<close>

lemma tight_length:
  assumes "tight ws"
  shows "k < length ws \<longleftrightarrow> 32 * k < nbits (words_val ws)"
proof (cases "ws = []")
  case False
  then have lo: "2 ^ (32 * (length ws - 1)) \<le> words_val ws" using assms by (simp add: tight_def)
  have nz: "words_val ws \<noteq> 0" using lo by (metis not_less zero_less_numeral zero_less_power le_zero_eq)
  show ?thesis
  proof
    assume "k < length ws"
    then have "32 * k \<le> 32 * (length ws - 1)" by simp
    then have "(2 :: nat) ^ (32 * k) \<le> words_val ws"
      using lo power_increasing [of "32 * k" "32 * (length ws - 1)" "2 :: nat"] by linarith
    also have "\<dots> < 2 ^ nbits (words_val ws)" by (rule nbits_less)
    finally show "32 * k < nbits (words_val ws)" by (simp add: power_strict_increasing_iff)
  next
    assume "32 * k < nbits (words_val ws)"
    then have "(2 :: nat) ^ (32 * k) \<le> 2 ^ (nbits (words_val ws) - 1)" by (intro power_increasing) simp_all
    also have "\<dots> \<le> words_val ws" by (rule nbits_le [OF nz])
    also have "\<dots> < 2 ^ (32 * length ws)" by (rule words_val_less)
    finally show "k < length ws" by (simp add: power_strict_increasing_iff)
  qed
qed simp

lemma digit_val_less: "is_digit c \<Longrightarrow> digit_val c < 10"
  by (auto simp: is_digit_def digit_val_def)

lemma parse_digits_loop_val:
  assumes "list_all is_digit cs"
  shows "words_val (parse_digits_loop ws cs) = dec_val (words_val ws) cs"
  using assms
proof (induction cs arbitrary: ws)
  case (Cons c cs)
  have "unat (of_nat (digit_val c) :: u32) = digit_val c"
    using digit_val_less [of c] Cons.prems by (simp add: unsigned_of_nat take_bit_eq_mod)
  with Cons show ?case by simp
qed simp

lemma tight_parse_digits_loop: "tight ws \<Longrightarrow> tight (parse_digits_loop ws cs)"
proof (induction cs arbitrary: ws)
  case (Cons c cs)
  then show ?case
    by (simp add: tight_add_small tight_mul_small) (simp add: tight_def)
qed simp

lemma tight_parse_magnitude: "tight (jayess_bigint_parse_magnitude text)"
  unfolding jayess_bigint_parse_magnitude_def
  by (rule tight_parse_digits_loop) (simp add: tight_def)

lemma hd_dec_digit: "is_digit (hd (dec n))"
  using dec_digits [of n] dec_nonempty [of n] by (cases "dec n") auto

lemma is_digit_not_sign: "is_digit c \<Longrightarrow> c \<noteq> CHR ''+'' \<and> c \<noteq> CHR ''-''"
  by (auto simp: is_digit_def)

lemma skip_sign_dec [simp]: "skip_sign (dec n) = dec n"
  using hd_dec_digit [of n] is_digit_not_sign [of "hd (dec n)"]
  by (cases "dec n") (simp_all add: skip_sign_def)

lemma is_negative_dec [simp]: "\<not> jayess_bigint_is_negative_text (dec n)"
  using hd_dec_digit [of n] is_digit_not_sign [of "hd (dec n)"]
  by (cases "dec n") (simp_all add: jayess_bigint_is_negative_text_def)

lemma is_negative_text_of_int [simp]:
  "jayess_bigint_is_negative_text (text_of_int i) \<longleftrightarrow> i < 0"
  by (simp add: text_of_int_def) (simp add: jayess_bigint_is_negative_text_def)

lemma skip_sign_text_of_int: "skip_sign (text_of_int i) = dec (nat \<bar>i\<bar>)"
  by (simp add: text_of_int_def) (simp add: skip_sign_def)

lemma dropWhile_zero_dec:
  "dropWhile (\<lambda>c. c = CHR ''0'') (dec n) = (if n = 0 then [] else dec n)"
proof (cases "n = 0")
  case False
  with hd_dec_ne_0 [of n] show ?thesis by (cases "dec n") simp_all
qed (simp add: dec_0)

lemma parse_magnitude_val [simp]:
  "words_val (jayess_bigint_parse_magnitude (text_of_int i)) = nat \<bar>i\<bar>"
  by (simp add: jayess_bigint_parse_magnitude_def skip_sign_text_of_int dropWhile_zero_dec
      parse_digits_loop_val dec_digits del: abs_ge_zero)

lemma shift_count_loop_val:
  assumes "list_all is_digit cs" and "dec_val n cs \<le> SIZE_MAX"
  shows "shift_count_loop n cs = Some (dec_val n cs)"
  using assms
proof (induction cs arbitrary: n)
  case (Cons c cs)
  have mono: "m \<le> dec_val m xs" for m xs
    by (induction xs arbitrary: m) (simp, metis add_leD1 dec_val.simps(2) le_trans mult_le_mono2 mult_1_right one_le_numeral)
  have "n * 10 + digit_val c \<le> SIZE_MAX" using mono [of "n * 10 + digit_val c" cs] Cons.prems(2) by simp
  then have "n \<le> (SIZE_MAX - digit_val c) div 10" by (simp add: less_eq_div_iff_mult_less_eq)
  with Cons show ?case by simp
qed simp

lemma parse_shift_count_val:
  assumes "n \<le> SIZE_MAX"
  shows "jayess_bigint_parse_shift_count (text_of_int (int n)) = Some (False, n)"
  using assms
  by (simp add: jayess_bigint_parse_shift_count_def skip_sign_text_of_int dropWhile_zero_dec
      shift_count_loop_val dec_digits)


section \<open>The bits of an array\<close>

lemma bit_unat_u32: "bit (unat (w :: u32)) i \<longleftrightarrow> bit w i"
  by (auto simp: bit_unsigned_iff dest: bit_imp_le_length)

lemma bit_words_val:
  "bit (words_val ws) i \<longleftrightarrow> i div 32 < length ws \<and> bit (ws ! (i div 32)) (i mod 32)"
proof (induction ws arbitrary: i)
  case (Cons w ws)
  let ?n = "words_val (w # ws)"
  have low: "take_bit 32 ?n = unat w"
    using unat_u32_lt [of w] by (simp add: take_bit_eq_mod)
  have high: "drop_bit 32 ?n = words_val ws"
    using unat_u32_lt [of w] by (simp add: drop_bit_eq_div)
  show ?case
  proof (cases "i < 32")
    case True
    then have "bit ?n i = bit (take_bit 32 ?n) i" by (simp add: bit_take_bit_iff)
    with True show ?thesis unfolding low by (simp add: bit_unat_u32)
  next
    case False
    then have "bit ?n i = bit (drop_bit 32 ?n) (i - 32)" by (simp add: bit_drop_bit_eq)
    moreover have "i div 32 = Suc ((i - 32) div 32)" "i mod 32 = (i - 32) mod 32"
      using False by (simp_all add: le_div_geq le_mod_geq)
    ultimately show ?thesis unfolding high by (simp add: Cons.IH)
  qed
qed simp

lemma words_val_map2:
  assumes "length ls = length rs"
  shows "words_val (map2 (AND) ls rs) = words_val ls AND words_val rs"
    and "words_val (map2 (OR) ls rs) = words_val ls OR words_val rs"
    and "words_val (map2 (XOR) ls rs) = words_val ls XOR words_val rs"
  using assms by (auto intro!: bit_eqI simp: bit_words_val bit_and_iff bit_or_iff bit_xor_iff)

lemma bit_low_mask:
  assumes "r < 32"
  shows "bit (ucast (push_bit r 1 - 1 :: u64) :: u32) j \<longleftrightarrow> j < r"
proof -
  have "push_bit r 1 - 1 = (mask r :: u64)" by (simp only: push_bit_of_1 mask_eq_exp_minus_1)
  with assms show ?thesis by (auto simp only: bit_unsigned_iff bit_mask_iff possible_bit_word) simp_all
qed

lemma less_div_mod_iff:
  "0 < (m :: nat) \<Longrightarrow> i < w \<longleftrightarrow> i div m < w div m \<or> i div m = w div m \<and> i mod m < w mod m"
  by (metis div_le_mono div_mult_mod_eq linorder_not_less nat_add_left_cancel_less nat_less_le)

lemma words_val_mask_top:
  assumes "0 < w" and "length ws = (w + 31) div 32"
  shows "words_val (mask_top_word ws (length ws) w) = words_val ws mod 2 ^ w"
proof (cases "w mod 32 = 0")
  case True
  then obtain q where "w = 32 * q" by (auto simp: mod_eq_0_iff_dvd elim: dvdE)
  then have "32 * length ws = w" using assms(2) by simp
  with True words_val_less [of ws] show ?thesis by (simp add: mask_top_word_def)
next
  case False
  let ?r = "w mod 32" and ?q = "w div 32"
  have "w + 31 = (?r - 1) + Suc ?q * 32"
    using False div_mult_mod_eq [of w 32] by simp
  then have "length ws = ((?r - 1) + Suc ?q * 32) div 32" using assms(2) by simp
  then have len: "length ws = Suc ?q"
    using mod_less_divisor [of 32 w] by (simp add: less_imp_diff_less)
  have mask: "bit (ucast (push_bit ?r 1 - 1 :: u64) :: u32) j \<longleftrightarrow> j < ?r" for j
    by (rule bit_low_mask) simp
  have "bit (words_val (mask_top_word ws (length ws) w)) i = bit (words_val ws mod 2 ^ w) i" for i
  proof -
    have iw: "i < w \<longleftrightarrow> i div 32 < ?q \<or> i div 32 = ?q \<and> i mod 32 < ?r"
      by (rule less_div_mod_iff) simp
    show ?thesis
      using len False by (auto simp: bit_words_val mask_top_word_def nth_list_update bit_and_iff
          mask [unfolded push_bit_of_1] iw
          simp flip: take_bit_eq_mod simp: bit_take_bit_iff)
  qed
  then show ?thesis by (simp add: bit_eq_iff)
qed

lemma mask_top_length [simp]: "length (mask_top_word ws n w) = length ws"
  by (simp add: mask_top_word_def)

section \<open>Two's complement\<close>

lemma negate_loop_length [simp]: "length (negate_loop c ws) = length ws"
  by (induction ws arbitrary: c) (simp_all add: Let_def)

lemma unat_not_u32: "unat (NOT w :: u32) = 2 ^ 32 - 1 - unat w"
proof -
  have "NOT w = - 1 - w" by (simp add: not_eq_complement)
  moreover have "unat (- 1 - w) = unat (- 1 :: u32) - unat w" by (rule unat_sub) simp
  ultimately show ?thesis by (simp only: unsigned_minus_1_eq_mask mask_eq_exp_minus_1) simp
qed

lemma negate_loop_val:
  assumes "unat c \<le> 1"
  shows "\<exists>c'. unat (c' :: u64) \<le> 1
    \<and> words_val (negate_loop c ws) + words_val ws + 1 + 2 ^ (32 * length ws) * unat c'
      = 2 ^ (32 * length ws) + unat c"
  using assms
proof (induction ws arbitrary: c)
  case Nil
  then show ?case by (intro exI [of _ c]) simp
next
  case (Cons w ws)
  define p :: u64 where "p = ucast (NOT w) + c"
  have p: "unat p + unat w + 1 = 2 ^ 32 + unat c"
    using Cons.prems unat_u32_lt [of w] by (simp add: p_def sum_fits unat_not_u32)
  then have "unat p < 2 ^ 32 * 2" using Cons.prems by simp
  then have "unat (drop_bit 32 p) < 2"
    unfolding unat_drop_bit_u64 by (subst div_less_iff_less_mult) (simp_all add: mult.commute)
  then have "unat (drop_bit 32 p) \<le> 1" by simp
  from Cons.IH [OF this] obtain c' where c': "unat (c' :: u64) \<le> 1"
    and IH: "words_val (negate_loop (drop_bit 32 p) ws) + words_val ws + 1 + 2 ^ (32 * length ws) * unat c'
      = 2 ^ (32 * length ws) + unat (drop_bit 32 p)" by blast
  let ?r = "words_val (negate_loop (drop_bit 32 p) ws)"
  have step: "negate_loop c (w # ws) = ucast p # negate_loop (drop_bit 32 p) ws"
    by (simp only: negate_loop.simps Let_def p_def)
  have "words_val (negate_loop c (w # ws)) + words_val (w # ws) + 1 + 2 ^ (32 * length (w # ws)) * unat c' + 2 ^ 32
      = (unat (ucast p :: u32) + unat w + 1)
        + 2 ^ 32 * (?r + words_val ws + 1 + 2 ^ (32 * length ws) * unat c')"
    unfolding step by (simp add: power_add algebra_simps)
  also have "\<dots> = (unat p + unat w + 1) + 2 ^ 32 * 2 ^ (32 * length ws)"
    unfolding IH using u64_low_high [of p] by (simp add: algebra_simps)
  also have "\<dots> = 2 ^ (32 * length (w # ws)) + unat c + 2 ^ 32"
    using p by (simp add: power_add)
  finally show ?case using c' by (intro exI [of _ c']) linarith
qed

lemma negate_val:
  "int (words_val (negate_loop 1 ws)) = take_bit (32 * length ws) (- int (words_val ws))"
proof -
  let ?N = "2 ^ (32 * length ws) :: nat" and ?r = "words_val (negate_loop 1 ws)"
  obtain c' :: u64 where "?r + words_val ws + 1 + ?N * unat c' = ?N + 1"
    using negate_loop_val [of 1 ws] by auto
  then have "int (?r + words_val ws + ?N * unat c') = int ?N" by linarith
  then have "int ?r = - int (words_val ws) + int ?N * (1 - int (unat c'))"
    by (simp add: algebra_simps)
  moreover have "int ?r = int ?r mod int ?N"
    using words_val_less [of "negate_loop 1 ws"] by (simp flip: of_nat_mod)
  ultimately have "int ?r = (- int (words_val ws) + int ?N * (1 - int (unat c'))) mod int ?N" by simp
  also have "\<dots> = (- int (words_val ws)) mod int ?N" by (rule mod_mult_self2)
  finally show ?thesis by (simp add: take_bit_eq_mod)
qed

lemma to_twos_complement_length:
  "length (jayess_bigint_to_twos_complement text w) = (w + 31) div 32"
  by (simp add: jayess_bigint_to_twos_complement_def Let_def resized_val)

text \<open>The two's complement of width \<open>w\<close> is the integer modulo \<open>2 ^ w\<close>.\<close>

lemma to_twos_complement_val:
  assumes "0 < w"
  shows "int (words_val (jayess_bigint_to_twos_complement (text_of_int i) w)) = take_bit w i"
proof -
  define n where "n = (w + 31) div 32"
  define ws where "ws = jayess_bigint_words_resized (jayess_bigint_parse_magnitude (text_of_int i)) n"
  define ws1 where "ws1 = (if i < 0 then negate_loop 1 ws else ws)"
  have n: "0 < n" "w \<le> 32 * n" using assms by (simp_all add: n_def)
  have len: "length ws = n" "length ws1 = n" by (simp_all add: ws_def ws1_def resized_val)
  have "int (words_val ws) = take_bit (32 * n) \<bar>i\<bar>"
    by (simp add: ws_def resized_val take_bit_eq_mod zmod_int)
  then have ws1: "int (words_val ws1) = take_bit (32 * n) i"
    by (simp add: ws1_def negate_val len take_bit_minus)
  have "jayess_bigint_to_twos_complement (text_of_int i) w = mask_top_word ws1 (length ws1) w"
    using n(1) unfolding jayess_bigint_to_twos_complement_def Let_def n_def [symmetric]
      ws_def [symmetric] len by (simp add: ws1_def)
  then have "int (words_val (jayess_bigint_to_twos_complement (text_of_int i) w))
      = take_bit w (int (words_val ws1))"
    using words_val_mask_top [of w ws1] assms len by (simp add: n_def take_bit_eq_mod zmod_int)
  also have "\<dots> = take_bit w i" using n(2) by (simp add: ws1)
  finally show ?thesis .
qed

section \<open>Printing\<close>

definition print_parts :: "u32 list \<Rightarrow> string" where
  "print_parts ps = (case rev ps of [] \<Rightarrow> [] | q # qs \<Rightarrow> dec (unat q) @ concat (map (\<lambda>r. dec_pad 9 (unat r)) qs))"

lemma print_parts_Cons:
  "ps \<noteq> [] \<Longrightarrow> print_parts (p # ps) = print_parts ps @ dec_pad 9 (unat p)"
  by (cases "rev ps") (simp_all add: print_parts_def)

lemma decimal_parts_loop_print:
  assumes "words_val ws \<noteq> 0" and "words_val ws < 10 ^ (9 * n)"
  shows "decimal_parts_loop n ws \<noteq> [] \<and> print_parts (decimal_parts_loop n ws) = dec (words_val ws)"
  using assms
proof (induction n arbitrary: ws)
  case (Suc n)
  obtain q r ok where div: "jayess_bigint_words_divmod_small ws 1000000000 = (q, r, ok)"
    by (metis prod_cases3)
  from divmod_small_val [OF _ div]
  have q: "words_val q = words_val ws div 10 ^ 9" and r: "unat r = words_val ws mod 10 ^ 9" by simp_all
  have parts: "decimal_parts_loop (Suc n) ws = r # decimal_parts_loop n q"
    using Suc.prems(1) div by simp
  show ?case
  proof (cases "words_val q = 0")
    case True
    then have "decimal_parts_loop n q = []" by (cases n) simp_all
    moreover have "words_val ws mod 10 ^ 9 = words_val ws" using True q by (simp add: div_eq_0_iff)
    ultimately show ?thesis using parts r by (simp add: print_parts_def)
  next
    case False
    have "words_val q < 10 ^ (9 * n)"
      using Suc.prems(2) by (simp add: q div_less_iff_less_mult power_add mult.commute)
    with Suc.IH False have IH: "decimal_parts_loop n q \<noteq> []"
      "print_parts (decimal_parts_loop n q) = dec (words_val q)" by simp_all
    have "dec (words_val q * 10 ^ 9 + unat r) = dec (words_val q) @ dec_pad 9 (unat r)"
      using False by (intro dec_split) (simp_all add: r)
    moreover have "words_val q * 10 ^ 9 + unat r = words_val ws"
      unfolding q r by (rule div_mult_mod_eq)
    ultimately show ?thesis using parts IH by (simp add: print_parts_Cons)
  qed
qed simp

text \<open>256 remainders hold every number below this one.\<close>

definition print_limit :: nat where
  "print_limit = 10 ^ (9 * 256)"

lemma print_magnitude_val:
  assumes "words_val ws \<noteq> 0" and "words_val ws < print_limit"
  shows "print_magnitude ws = Inr (dec (words_val ws))"
proof -
  from decimal_parts_loop_print [OF assms(1) assms(2) [unfolded print_limit_def]] show ?thesis
    by (cases "rev (decimal_parts_loop 256 ws)") (simp_all add: print_magnitude_def print_parts_def)
qed

end
