(* ===== verification/Bigint_Ops.thy ===== *)
theory Bigint_Ops
  imports Bigint_Correct
begin

text \<open>
  What the operators of \<open>jayess_runtime_bigint.c\<close> answer on the texts of integers. The printing
  function comes first: on a word array it prints the signed value of the given width, except
  that it never returns on the most negative value of that width. The operators then follow.
\<close>

section \<open>Printing a two's complement value\<close>

lemma low_bit_test: "drop_bit j (w :: u32) AND 1 = 0 \<longleftrightarrow> \<not> bit w j"
  by (simp add: bit_iff_odd_drop_bit and_one_eq even_iff_mod_2_eq_zero)

lemma bit_nonzero: "bit (n :: nat) k \<Longrightarrow> n \<noteq> 0"
  by (rule notI) simp

lemma bit_exp_le: "bit (n :: nat) k \<Longrightarrow> 2 ^ k \<le> n"
  by (rule ccontr) (simp add: bit_iff_odd)

lemma sign_bit:
  assumes "(n - 1) div 32 < length ws"
  shows "drop_bit ((n - 1) mod 32) (ws ! ((n - 1) div 32)) AND 1 = 0 \<longleftrightarrow> \<not> bit (words_val ws) (n - 1)"
  using assms by (simp add: low_bit_test bit_words_val)

lemma word_count_pos: "0 < (w :: nat) \<Longrightarrow> (w + 31) div 32 \<noteq> 0 \<and> w \<le> 32 * ((w + 31) div 32)"
  using div_mult_mod_eq [of "w + 31" 32] mod_less_divisor [of 32 "w + 31"] by simp linarith

text \<open>The low \<open>w\<close> bits of the array, as the function cuts them out.\<close>

lemma masked_val:
  assumes "0 < w"
  shows "words_val (mask_top_word (jayess_bigint_words_resized ws ((w + 31) div 32)) ((w + 31) div 32) w)
       = words_val ws mod 2 ^ w"
proof -
  let ?n = "(w + 31) div 32"
  have "words_val (mask_top_word (jayess_bigint_words_resized ws ?n) ?n w)
      = words_val ws mod 2 ^ (32 * ?n) mod 2 ^ w"
    using words_val_mask_top [OF assms, of "jayess_bigint_words_resized ws ?n"] by (simp add: resized_val)
  also have "\<dots> = words_val ws mod 2 ^ w"
    using word_count_pos [OF assms] by (intro mod_mod_cancel le_imp_power_dvd) simp
  finally show ?thesis .
qed

lemma from_twos_complement_nonneg:
  assumes "0 < w" and "(w - 1) div 32 < length ws" and "\<not> bit (words_val ws) (w - 1)"
    and "words_val ws mod 2 ^ w < print_limit"
  shows "jayess_bigint_from_twos_complement ws w = Some (Inr (dec (words_val ws mod 2 ^ w)))"
proof (cases "words_val ws = 0")
  case True
  then show ?thesis by (subst jayess_bigint_from_twos_complement.simps) (simp add: dec_0)
next
  case False
  let ?m = "mask_top_word (jayess_bigint_words_resized ws ((w + 31) div 32)) ((w + 31) div 32) w"
  have test: "drop_bit ((w - 1) mod 32) (ws ! ((w - 1) div 32)) AND 1 = 0"
    using sign_bit [OF assms(2)] assms(3) by blast
  have val: "words_val ?m = words_val ws mod 2 ^ w" by (rule masked_val [OF assms(1)])
  have "jayess_bigint_from_twos_complement ws w
      = (if jayess_bigint_words_is_zero ?m then Some (Inr ''0'')
         else Some (print_magnitude (jayess_bigint_words_clone ?m)))"
    using False assms(2) test word_count_pos [OF assms(1)]
    by (subst jayess_bigint_from_twos_complement.simps) (simp add: Let_def)
  with val assms(4) show ?thesis by (simp add: print_magnitude_val dec_0)
qed

text \<open>One step of the recursion on a negative value.\<close>

lemma from_twos_complement_negative:
  assumes "0 < w" and "(w - 1) div 32 < length ws" and "bit (words_val ws) (w - 1)"
  shows "\<exists>m. int (words_val m) mod 2 ^ w = (- int (words_val ws)) mod 2 ^ w \<and> length m = (w + 31) div 32
    \<and> jayess_bigint_from_twos_complement ws w
      = map_option (negate_text ''0'') (jayess_bigint_from_twos_complement m w)"
proof -
  let ?n = "(w + 31) div 32"
  define m0 where "m0 = mask_top_word (jayess_bigint_words_resized ws ?n) ?n w"
  have nz: "words_val ws \<noteq> 0" using assms(3) by (rule bit_nonzero)
  have test: "drop_bit ((w - 1) mod 32) (ws ! ((w - 1) div 32)) AND 1 \<noteq> 0"
    using sign_bit [OF assms(2)] assms(3) by blast
  have len: "length m0 = ?n" by (simp add: m0_def resized_val)
  have step: "jayess_bigint_from_twos_complement ws w
      = Option.bind (jayess_bigint_from_twos_complement (negate_loop 1 m0) w)
          (\<lambda>positive. Some (negate_text ''0'' positive))"
    using nz assms(2) test word_count_pos [OF assms(1)]
    by (subst jayess_bigint_from_twos_complement.simps) (simp add: Let_def m0_def)
  have "int (words_val (negate_loop 1 m0)) mod 2 ^ w = (- int (words_val m0)) mod 2 ^ (32 * ?n) mod 2 ^ w"
    by (simp add: negate_val len take_bit_eq_mod)
  also have "\<dots> = (- int (words_val m0)) mod 2 ^ w"
    using word_count_pos [OF assms(1)] by (intro mod_mod_cancel le_imp_power_dvd) simp
  also have "\<dots> = (- (int (words_val ws) mod 2 ^ w)) mod 2 ^ w"
    using masked_val [OF assms(1)] by (simp add: m0_def zmod_int)
  also have "\<dots> = (- int (words_val ws)) mod 2 ^ w" by (rule mod_minus_eq)
  finally show ?thesis
    using step len
    by (intro exI [of _ "negate_loop 1 m0"])
      (cases "jayess_bigint_from_twos_complement (negate_loop 1 m0) w"; simp)
qed

text \<open>The signed reading of the low \<open>w\<close> bits of an array.\<close>

definition signed_val :: "jayess_bigint_words \<Rightarrow> nat \<Rightarrow> int" where
  "signed_val ws w = signed_take_bit (w - 1) (int (words_val ws))"

lemma bit_int_words: "bit (int (words_val ws)) n \<longleftrightarrow> bit (words_val ws) n"
  by (simp add: bit_of_nat_iff)

lemma signed_val_nonneg:
  "0 < w \<Longrightarrow> \<not> bit (words_val ws) (w - 1) \<Longrightarrow> signed_val ws w = int (words_val ws mod 2 ^ w)"
  by (simp add: signed_val_def signed_take_bit_eq_take_bit_minus bit_int_words take_bit_eq_mod zmod_int)

lemma signed_val_negative:
  "0 < w \<Longrightarrow> bit (words_val ws) (w - 1) \<Longrightarrow> signed_val ws w = int (words_val ws mod 2 ^ w) - 2 ^ w"
  by (simp add: signed_val_def signed_take_bit_eq_take_bit_minus bit_int_words take_bit_eq_mod zmod_int)

lemma neg_mod_pow: "0 < x \<Longrightarrow> x < 2 ^ w \<Longrightarrow> (- x) mod 2 ^ w = 2 ^ w - (x :: int)"
  by (simp add: zmod_zminus1_eq_if)

lemma low_bits_nonzero:
  assumes "0 < w" and "bit (n :: nat) (w - 1)"
  shows "2 ^ (w - 1) \<le> n mod 2 ^ w" and "n mod 2 ^ w < 2 ^ w"
proof -
  have "bit (take_bit w n) (w - 1)" using assms by (simp add: bit_take_bit_iff)
  then have "2 ^ (w - 1) \<le> take_bit w n" by (rule bit_exp_le)
  then show "2 ^ (w - 1) \<le> n mod 2 ^ w" by (simp add: take_bit_eq_mod)
qed simp

lemma not_bit_mod_less:
  assumes "0 < w" and "n mod 2 ^ w < 2 ^ (w - 1)"
  shows "\<not> bit (n :: nat) (w - 1)"
  using low_bits_nonzero [OF assms(1), of n] assms(2) by auto

theorem from_twos_complement_prints:
  assumes "0 < w" and "(w - 1) div 32 < length ws"
    and "signed_val ws w \<noteq> - (2 ^ (w - 1))" and "\<bar>signed_val ws w\<bar> < int print_limit"
  shows "jayess_bigint_from_twos_complement ws w = Some (Inr (text_of_int (signed_val ws w)))"
proof (cases "bit (words_val ws) (w - 1)")
  case False
  with assms show ?thesis
    by (simp add: signed_val_nonneg from_twos_complement_nonneg text_of_int_def)
next
  case True
  let ?v = "words_val ws mod 2 ^ w"
  note sv = signed_val_negative [OF assms(1) True]
  note low = low_bits_nonzero [OF assms(1) True]
  have pow: "(2 :: nat) ^ w = 2 * 2 ^ (w - 1)" using assms(1) by (cases w) simp_all
  obtain m where m: "int (words_val m) mod 2 ^ w = (- int (words_val ws)) mod 2 ^ w"
    "length m = (w + 31) div 32"
    "jayess_bigint_from_twos_complement ws w
      = map_option (negate_text ''0'') (jayess_bigint_from_twos_complement m w)"
    using from_twos_complement_negative [OF assms(1,2) True] by blast
  have v0: "0 < ?v" using low(1) by (metis gr0I less_le_trans not_less_zero zero_less_numeral zero_less_power)
  have ilt: "int ?v < 2 ^ w" using low(2) by (metis of_nat_less_iff of_nat_numeral of_nat_power)
  then have "(- int ?v) mod 2 ^ w = 2 ^ w - int ?v" using v0 by (intro neg_mod_pow) simp_all
  then have "int (words_val m mod 2 ^ w) = 2 ^ w - int ?v"
    using m(1) by (simp add: zmod_int mod_minus_eq)
  then have "int (words_val m mod 2 ^ w) = int (2 ^ w - ?v)" using low(2) by (simp add: of_nat_diff)
  then have mv: "words_val m mod 2 ^ w = 2 ^ w - ?v" by (simp only: of_nat_eq_iff)
  have "(2 :: int) ^ w = 2 * 2 ^ (w - 1)" using assms(1) by (cases w) simp_all
  then have "?v \<noteq> 2 ^ (w - 1)" using assms(3) sv by auto
  then have "words_val m mod 2 ^ w < 2 ^ (w - 1)" using mv low pow by linarith
  with assms(1) have nb: "\<not> bit (words_val m) (w - 1)" by (rule not_bit_mod_less)
  have nat_sv: "nat (- signed_val ws w) = 2 ^ w - ?v" using sv low by (simp add: nat_diff_distrib nat_power_eq)
  have "2 ^ w - ?v < print_limit" using assms(4) sv low(2) nat_sv by linarith
  then have rec: "jayess_bigint_from_twos_complement m w = Some (Inr (dec (2 ^ w - ?v)))"
    using from_twos_complement_nonneg [OF assms(1) _ nb] m(2) mv assms(1) by simp
  have "signed_val ws w < 0" using ilt unfolding sv by (rule diff_less_0_iff_less [THEN iffD2])
  moreover have "2 ^ w - ?v \<noteq> 0" using low(2) by (simp only: diff_is_0_eq not_le)
  ultimately show ?thesis using m(3) rec nat_sv by (simp add: negate_text_def text_of_int_def)
qed

text \<open>On the most negative value of the width the recursion meets itself again.\<close>

definition most_negative :: "jayess_bigint_words \<Rightarrow> nat \<Rightarrow> bool" where
  "most_negative ws w \<longleftrightarrow> 0 < w \<and> (w - 1) div 32 < length ws \<and> words_val ws mod 2 ^ w = 2 ^ (w - 1)"

lemma most_negative_iff:
  assumes "0 < w" and "(w - 1) div 32 < length ws"
  shows "most_negative ws w \<longleftrightarrow> signed_val ws w = - (2 ^ (w - 1))"
proof -
  have pow: "(2 :: int) ^ w = 2 * 2 ^ (w - 1)" using assms(1) by (cases w) simp_all
  show ?thesis
  proof (cases "bit (words_val ws) (w - 1)")
    case True
    have "words_val ws mod 2 ^ w = 2 ^ (w - 1) \<longleftrightarrow> int (words_val ws mod 2 ^ w) = 2 ^ (w - 1)"
      by (simp only: of_nat_eq_iff [where 'a = int, symmetric] of_nat_power of_nat_numeral)
    with True assms pow show ?thesis by (simp add: most_negative_def signed_val_negative)
  next
    case False
    have "words_val ws mod 2 ^ w \<noteq> 2 ^ (w - 1)"
    proof
      assume "words_val ws mod 2 ^ w = 2 ^ (w - 1)"
      then have "take_bit w (words_val ws) = 2 ^ (w - 1)" by (simp add: take_bit_eq_mod)
      then have "bit (take_bit w (words_val ws)) (w - 1)" by (simp add: bit_exp_iff)
      with False show False by (simp add: bit_take_bit_iff)
    qed
    moreover have "signed_val ws w \<noteq> - (2 ^ (w - 1))"
      using False assms(1) by (simp add: signed_val_nonneg) (smt (verit) of_nat_0_le_iff zero_less_power)
    ultimately show ?thesis by (simp add: most_negative_def)
  qed
qed

theorem from_twos_complement_diverges:
  assumes "most_negative ws w"
  shows "jayess_bigint_from_twos_complement ws w = None"
proof (rule ccontr)
  assume "jayess_bigint_from_twos_complement ws w \<noteq> None"
  then obtain r where r: "jayess_bigint_from_twos_complement ws w = Some r" by blast
  have "\<not> most_negative ws w"
  proof (rule jayess_bigint_from_twos_complement.raw_induct [where P = "\<lambda>ws w r. \<not> most_negative ws w", OF _ r])
    fix rec :: "jayess_bigint_words \<Rightarrow> nat \<Rightarrow> (fault + string) option" and ws and w :: nat and r
    assume IH: "\<And>ws w r. rec ws w = Some r \<Longrightarrow> \<not> most_negative ws w"
    let ?n = "(w + 31) div 32"
    let ?m = "negate_loop 1 (mask_top_word (jayess_bigint_words_resized ws ?n) ?n w)"
    assume eq: "(let word_count = ?n; bit_index = w - 1
      in if word_count = 0 \<or> jayess_bigint_words_is_zero ws then Some (Inr ''0'')
         else if bit_index div 32 \<ge> length ws then Some (Inl Out_of_bounds)
         else if drop_bit (bit_index mod 32) (ws ! (bit_index div 32)) AND 1 = 0
         then (let magnitude = mask_top_word (jayess_bigint_words_resized ws word_count) word_count w
               in if jayess_bigint_words_is_zero magnitude then Some (Inr ''0'')
                  else Some (print_magnitude (jayess_bigint_words_clone magnitude)))
         else (let magnitude = negate_loop 1
                     (mask_top_word (jayess_bigint_words_resized ws word_count) word_count w)
               in Option.bind (rec magnitude w)
                    (\<lambda>positive. Some (negate_text ''0'' positive)))) = Some r"
    show "\<not> most_negative ws w"
    proof
      assume mn: "most_negative ws w"
      then have w: "0 < w" "(w - 1) div 32 < length ws" and v: "words_val ws mod 2 ^ w = 2 ^ (w - 1)"
        by (simp_all add: most_negative_def)
      have "bit (take_bit w (words_val ws)) (w - 1)" using v by (simp add: take_bit_eq_mod bit_exp_iff)
      then have bit: "bit (words_val ws) (w - 1)" by (simp add: bit_take_bit_iff)
      then have nz: "words_val ws \<noteq> 0" by (rule bit_nonzero)
      have c1: "\<not> (?n = 0 \<or> jayess_bigint_words_is_zero ws)"
        using nz word_count_pos [OF w(1)] by simp
      have c2: "\<not> (w - 1) div 32 \<ge> length ws" using w(2) by simp
      have c3: "\<not> drop_bit ((w - 1) mod 32) (ws ! ((w - 1) div 32)) AND 1 = 0"
        using sign_bit [OF w(2)] bit by blast
      have "Option.bind (rec ?m w) (\<lambda>positive. Some (negate_text ''0'' positive)) = Some r"
        using eq unfolding Let_def if_not_P [OF c1] if_not_P [OF c2] if_not_P [OF c3] .
      then obtain r' where r': "rec ?m w = Some r'" by (auto simp: bind_eq_Some_conv)
      have len: "length ?m = ?n" by (simp add: resized_val)
      have pow: "(2 :: int) ^ w = 2 * 2 ^ (w - 1)" using w(1) by (cases w) simp_all
      have "int (words_val ?m) mod 2 ^ w = (- int (words_val ws mod 2 ^ w)) mod 2 ^ (32 * ?n) mod 2 ^ w"
        using masked_val [OF w(1), of ws] by (simp add: negate_val resized_val take_bit_eq_mod)
      also have "\<dots> = (- (2 ^ (w - 1))) mod 2 ^ w"
        using word_count_pos [OF w(1)] unfolding v
        by (subst mod_mod_cancel) (auto intro: le_imp_power_dvd)
      also have "\<dots> = 2 ^ (w - 1)" using neg_mod_pow [of "2 ^ (w - 1)" w] pow by simp
      finally have "words_val ?m mod 2 ^ w = 2 ^ (w - 1)"
        by (simp only: of_nat_eq_iff [where 'a = int, symmetric] of_nat_power of_nat_numeral zmod_int)
      then have "most_negative ?m w" using w(1) len by (simp add: most_negative_def)
      with IH [OF r'] show False by contradiction
    qed
  qed
  with assms show False by contradiction
qed


section \<open>Printing a magnitude with its own width\<close>

lemma nbits_le_length: "nbits (words_val ws) \<le> 32 * length ws"
proof (rule ccontr)
  assume "\<not> nbits (words_val ws) \<le> 32 * length ws"
  then have less: "32 * length ws \<le> nbits (words_val ws) - 1" by simp
  have "words_val ws \<noteq> 0" using less by (metis \<open>\<not> _\<close> le0 nbits_0)
  then have "2 ^ (nbits (words_val ws) - 1) \<le> words_val ws" by (rule nbits_le)
  with power_increasing [OF less, of "2 :: nat"] words_val_less [of ws] show False by linarith
qed


text \<open>The call every operator ends with: the width is one more than the number of bits.\<close>

definition print_value :: "jayess_bigint_words \<Rightarrow> (fault + string) option" where
  "print_value ws = jayess_bigint_from_twos_complement ws (jayess_bigint_words_bit_length ws + 1)"

lemma print_value_in_bounds:
  assumes "words_val ws = 0 \<or> nbits (words_val ws) div 32 < length ws" and "words_val ws < print_limit"
  shows "print_value ws = Some (Inr (dec (words_val ws)))"
proof (cases "words_val ws = 0")
  case True
  then show ?thesis
    unfolding print_value_def by (subst jayess_bigint_from_twos_complement.simps) (simp add: dec_0)
next
  case False
  let ?w = "nbits (words_val ws) + 1"
  have less: "words_val ws < 2 ^ nbits (words_val ws)" by (rule nbits_less)
  also have "\<dots> < 2 ^ ?w" by simp
  finally have "words_val ws mod 2 ^ ?w = words_val ws" by simp
  moreover have "\<not> bit (words_val ws) (nbits (words_val ws))" using less bit_exp_le not_le by blast
  ultimately show ?thesis
    using False assms from_twos_complement_nonneg [of ?w ws]
    by (simp add: print_value_def bit_length_val)
qed


lemma print_value_folds:
  "jayess_bigint_from_twos_complement ws (Suc (jayess_bigint_words_bit_length ws)) = print_value ws"
  by (simp add: print_value_def)

lemma below_print_limit: "n < 10 ^ 20 \<Longrightarrow> n < print_limit"
proof -
  assume "n < 10 ^ 20"
  also have "(10 :: nat) ^ 20 \<le> 10 ^ (9 * 256)" by (rule power_increasing) simp_all
  finally show ?thesis by (simp only: print_limit_def)
qed

lemmas example_simps = below_print_limit nbits_numeral

section \<open>Bitwise operators on two integers\<close>

text \<open>The number of bits of an integer in two's complement, with the sign bit.\<close>

definition sbits :: "int \<Rightarrow> nat" where
  "sbits i = Suc (nbits (nat (if i < 0 then - i - 1 else i)))"

lemma unat_1_u32: "unat (1 :: u32) = 1"
  by simp

lemma sub_one_val:
  assumes "i < 0"
  defines "ws \<equiv> jayess_bigint_parse_magnitude (text_of_int i)"
  shows "words_val (fst (jayess_bigint_words_sub_small ws 1)) = nat (- i - 1)"
proof -
  have val: "words_val ws = nat (- i)" using assms by simp
  then have "ws \<noteq> []" using assms(1) by auto
  with val assms(1) sub_small_val [of 1 ws] show ?thesis by (simp add: nat_diff_distrib)
qed

lemma signed_bit_length_val: "jayess_bigint_signed_bit_length (text_of_int i) = sbits i"
  using sub_one_val [of i]
  by (simp add: jayess_bigint_signed_bit_length_def sbits_def bit_length_val Let_def)

lemma sbits_range: "- (2 ^ (sbits i - 1)) \<le> i \<and> i < 2 ^ (sbits i - 1)"
proof (cases "i < 0")
  case True
  have "nat (- i - 1) < 2 ^ nbits (nat (- i - 1))" by (rule nbits_less)
  then have "int (nat (- i - 1)) < int (2 ^ nbits (nat (- i - 1)))" by (simp only: of_nat_less_iff)
  with True have "- i - 1 < 2 ^ (sbits i - 1)" by (simp add: sbits_def)
  moreover have "i < 2 ^ (sbits i - 1)" using True by (smt (verit) zero_less_power)
  ultimately show ?thesis by simp
next
  case False
  have "nat i < 2 ^ nbits (nat i)" by (rule nbits_less)
  then have "int (nat i) < int (2 ^ nbits (nat i))" by (simp only: of_nat_less_iff)
  with False have "i < 2 ^ (sbits i - 1)" by (simp add: sbits_def)
  moreover have "- (2 ^ (sbits i - 1)) \<le> i" using False by (smt (verit) zero_less_power)
  ultimately show ?thesis by simp
qed

lemma signed_take_bit_sbits:
  assumes "sbits i \<le> w"
  shows "signed_take_bit (w - 1) i = i"
proof -
  have "(2 :: int) ^ (sbits i - 1) \<le> 2 ^ (w - 1)" using assms by (intro power_increasing) simp_all
  with sbits_range [of i] show ?thesis by (intro signed_take_bit_int_eq_self) linarith+
qed

definition bitwise_int :: "char \<Rightarrow> int \<Rightarrow> int \<Rightarrow> int" where
  "bitwise_int opr a b =
     (if opr = CHR ''&'' then a AND b else if opr = CHR ''|'' then a OR b else a XOR b)"

lemma words_val_bitwise:
  assumes "length ls = length rs"
  shows "int (words_val (map2 (bitwise_word opr) ls rs))
       = bitwise_int opr (int (words_val ls)) (int (words_val rs))"
proof -
  have "bitwise_word opr = (if opr = CHR ''&'' then (AND) else if opr = CHR ''|'' then (OR) else (XOR))"
    by (intro ext) (simp add: bitwise_word_def)
  then show ?thesis using words_val_map2 [OF assms]
    by (simp add: bitwise_int_def of_nat_and_eq of_nat_or_eq of_nat_xor_eq)
qed

lemma signed_take_bit_bitwise:
  "signed_take_bit n (bitwise_int opr a b) = bitwise_int opr (signed_take_bit n a) (signed_take_bit n b)"
  by (rule bit_eqI) (simp add: bitwise_int_def bit_signed_take_bit_iff bit_and_iff bit_or_iff bit_xor_iff)

lemma bitwise_words:
  fixes a b :: int and opr :: char
  defines "w \<equiv> max (sbits a) (sbits b)"
  defines "ws \<equiv> map2 (bitwise_word opr) (jayess_bigint_to_twos_complement (text_of_int a) w)
                  (jayess_bigint_to_twos_complement (text_of_int b) w)"
  shows "jayess_bigint_bitwise_binary (text_of_int a) (text_of_int b) opr = jayess_bigint_from_twos_complement ws w"
    and "0 < w" and "(w - 1) div 32 < length ws" and "signed_val ws w = bitwise_int opr a b"
proof -
  show w: "0 < w" by (simp add: w_def sbits_def less_max_iff_disj)
  show "jayess_bigint_bitwise_binary (text_of_int a) (text_of_int b) opr = jayess_bigint_from_twos_complement ws w"
    by (simp add: jayess_bigint_bitwise_binary_def signed_bit_length_val Let_def ws_def w_def max_def)
  have "w - 1 < 32 * ((w + 31) div 32)" using word_count_pos [OF w] w by linarith
  then show "(w - 1) div 32 < length ws"
    by (simp add: ws_def to_twos_complement_length div_less_iff_less_mult mult.commute)
  have le: "sbits a \<le> w" "sbits b \<le> w" by (simp_all add: w_def)
  have cut: "signed_take_bit (w - 1) (take_bit w i) = i" if "sbits i \<le> w" for i
    using w signed_take_bit_sbits [OF that] by (auto simp: signed_take_bit_take_bit)
  have "signed_val ws w = signed_take_bit (w - 1) (bitwise_int opr (take_bit w a) (take_bit w b))"
    using w by (simp add: signed_val_def ws_def words_val_bitwise to_twos_complement_length to_twos_complement_val)
  also have "\<dots> = bitwise_int opr a b"
    unfolding signed_take_bit_bitwise cut [OF le(1)] cut [OF le(2)] by (rule refl)
  finally show "signed_val ws w = bitwise_int opr a b" .
qed

text \<open>
  C1. On two decimal texts of integers, the bitwise AND, OR and XOR of the runtime answer the
  decimal text of the infinite-precision two's complement result, for every result that is not
  the most negative value of the common width and has at most 2304 decimal digits.
\<close>

theorem bitwise_binary_val:
  assumes "bitwise_int opr a b \<noteq> - (2 ^ (max (sbits a) (sbits b) - 1))"
    and "\<bar>bitwise_int opr a b\<bar> < int print_limit"
  shows "jayess_bigint_bitwise_binary (text_of_int a) (text_of_int b) opr
       = Some (Inr (text_of_int (bitwise_int opr a b)))"
  using bitwise_words(1,3,4) [where opr = opr and a = a and b = b] bitwise_words(2) [of a b] assms
  by (simp add: from_twos_complement_prints)

theorem bitwise_binary_val_witness:
  "jayess_bigint_bitwise_binary (text_of_int (- 6)) (text_of_int 11) CHR ''|'' = Some (Inr (text_of_int (- 5)))"
  using bitwise_binary_val [of "CHR ''|''" "- 6" 11]
  by (simp add: bitwise_int_def sbits_def example_simps)

text \<open>
  C2. On a result that is the most negative value of the common width of the operands, such as
  that of -2 AND -2, the bitwise operators never return: the printing function calls itself on
  the same value again.
\<close>

theorem bitwise_binary_diverges:
  assumes "bitwise_int opr a b = - (2 ^ (max (sbits a) (sbits b) - 1))"
  shows "jayess_bigint_bitwise_binary (text_of_int a) (text_of_int b) opr = None"
  using bitwise_words(1,3,4) [where opr = opr and a = a and b = b] bitwise_words(2) [of a b] assms
  by (simp add: from_twos_complement_diverges most_negative_iff)

theorem bitwise_binary_diverges_witness:
  "jayess_bigint_bitwise_binary (text_of_int (- 2)) (text_of_int (- 2)) CHR ''&'' = None"
  using bitwise_binary_diverges [of "CHR ''&''" "- 2" "- 2"]
  by (simp add: bitwise_int_def sbits_def example_simps)

section \<open>Complement\<close>





section \<open>Shifts\<close>

text \<open>
  C4. Shifting the text of an integer i left by a count n that fits in size_t answers the text of
  i * 2^n, as long as that has at most 2304 digits.
\<close>

theorem shift_left_text_val:
  assumes "n \<le> SIZE_MAX" and "\<bar>i\<bar> * 2 ^ n < int print_limit"
  shows "jayess_bigint_shift_left_text (text_of_int i) (text_of_int (int n))
       = Some (Some (Inr (text_of_int (i * 2 ^ n))))"
proof -
  define v where "v = jayess_bigint_parse_magnitude (text_of_int i)"
  define m where "m = jayess_bigint_shift_left_words v n"
  have v: "words_val v = nat \<bar>i\<bar>" by (simp add: v_def)
  have m: "words_val m = nat (\<bar>i\<bar> * 2 ^ n)"
    by (simp add: m_def shift_left_words_val v nat_mult_distrib nat_power_eq)
  have "words_val m = 0 \<or> nbits (words_val m) div 32 < length m"
  proof (cases "words_val v = 0")
    case True
    then show ?thesis by (simp add: m_def shift_left_words_val)
  next
    case False
    have "nbits (words_val m) = n + nbits (words_val v)"
      using nbits_shift [of 0 n "words_val v"] False by (simp add: m_def shift_left_words_val mult.commute)
    also have "\<dots> \<le> n + 32 * length v" using nbits_le_length [of v] by simp
    finally have "nbits (words_val m) div 32 \<le> (n + 32 * length v) div 32" by (rule div_le_mono)
    moreover have "length m = Suc (length v + n div 32)"
      using False by (simp add: m_def jayess_bigint_shift_left_words_def Let_def jayess_bigint_words_new_def)
    ultimately show ?thesis by simp
  qed
  then have print: "print_value m = Some (Inr (dec (nat (\<bar>i\<bar> * 2 ^ n))))"
    using print_value_in_bounds [of m] assms(2) unfolding m by (simp add: nat_less_iff)
  have result: "jayess_bigint_shift_left_text (text_of_int i) (text_of_int (int n))
      = Some (if i < 0 then map_option (negate_text ''0'') (print_value m) else print_value m)"
    by (simp add: jayess_bigint_shift_left_text_def parse_shift_count_val [OF assms(1)] Let_def
        v_def m_def print_value_folds)
  show ?thesis
  proof (cases "i < 0")
    case True
    then have "i * 2 ^ n < 0" by (simp add: mult_less_0_iff)
    with True print result show ?thesis by (simp add: negate_text_def text_of_int_def)
  next
    case False
    then have "\<not> i * 2 ^ n < 0" by (simp add: mult_less_0_iff)
    with False print result show ?thesis by (simp add: text_of_int_def)
  qed
qed

theorem shift_left_text_val_witness:
  "jayess_bigint_shift_left_text (text_of_int (- 5)) (text_of_int (int 40))
   = Some (Some (Inr (text_of_int (- 5497558138880))))"
  using shift_left_text_val [of 40 "- 5"] by (simp add: example_simps SIZE_MAX_def)




text \<open>
  Outside those conditions the result can be wrong: \<open>2 ^ 32\<close> shifted right by one is \<open>0\<close>.
\<close>

lemma shift_right_text_wrong:
  "jayess_bigint_shift_right_text (text_of_int (2 ^ 32)) (text_of_int 1) = Some (Some (Inr ''0''))"
proof -
  define m where "m = jayess_bigint_parse_magnitude (text_of_int (2 ^ 32))"
  have val: "words_val m = 2 ^ 32" by (simp add: m_def nat_power_eq)
  have "length m = 2"
    using tight_length [of m 1] tight_length [of m 2] val
    by (simp add: m_def tight_parse_magnitude nbits_numeral)
  then obtain a b where m: "m = [a, b]" by (auto simp: numeral_2_eq_2 length_Suc_conv)
  then have eq: "unat a + 2 ^ 32 * unat b = 2 ^ 32" using val by simp
  have "unat a < 2 ^ 32" by (rule unat_u32_lt)
  with eq have "unat b \<noteq> 0" by (intro notI) simp
  moreover have "unat b < 2" using eq by (intro ccontr [of "unat b < 2"]) simp
  ultimately have b: "unat b = 1" by simp
  with eq have "unat a = 0" by simp
  then have a: "a = 0" by (simp only: unat_eq_0)
  have "b = 1" using b by (metis unat_1_u32 unsigned_word_eqI)
  with m a have m01: "m = [0, 1]" by simp
  have count: "jayess_bigint_parse_shift_count (text_of_int 1) = Some (False, 1)"
    using parse_shift_count_val [of 1] by (simp add: SIZE_MAX_def)
  have "words_val (jayess_bigint_shift_right_words [0, 1] 1) = 0"
    using shift_right_words_example by (rule conjunct2)
  then show ?thesis
    by (simp add: jayess_bigint_shift_right_text_def m_def [symmetric] m01 count
        jayess_bigint_from_twos_complement.simps del: power_numeral)
qed

end
