(* ===== verification/Doubles.thy ===== *)
theory Doubles
  imports Decimal
begin

text \<open>
  The C type \<open>double\<close> and the functions of the C library the runtime applies to it: comparison,
  truncation, conversion from an integer, \<open>strtod\<close> and \<open>printf("%g")\<close>, as IEEE 754 binary64
  with rounding to nearest, ties to even. A double is its 64-bit pattern. The magnitude of a
  finite double is the natural number \<open>dbl_mag\<close> of units of \<open>2 ^ -1074\<close>, the smallest positive
  double, so that every computation below is exact arithmetic on numbers followed by one
  rounding.
\<close>

type_synonym double = u64

section \<open>Reading a bit pattern\<close>

definition dbl_neg :: "double \<Rightarrow> bool" where
  "dbl_neg x \<longleftrightarrow> 2 ^ 63 \<le> unat x"

definition dbl_exp :: "double \<Rightarrow> nat" where
  "dbl_exp x = (unat x div 2 ^ 52) mod 2 ^ 11"

definition dbl_frac :: "double \<Rightarrow> nat" where
  "dbl_frac x = unat x mod 2 ^ 52"

definition dbl_isfinite :: "double \<Rightarrow> bool" where
  "dbl_isfinite x \<longleftrightarrow> dbl_exp x \<noteq> 2047"

definition dbl_isnan :: "double \<Rightarrow> bool" where
  "dbl_isnan x \<longleftrightarrow> dbl_exp x = 2047 \<and> dbl_frac x \<noteq> 0"

definition dbl_mag :: "double \<Rightarrow> nat" where
  "dbl_mag x = (if dbl_exp x = 0 then dbl_frac x else (2 ^ 52 + dbl_frac x) * 2 ^ (dbl_exp x - 1))"

definition dbl_scaled :: "double \<Rightarrow> int" where
  "dbl_scaled x = (if dbl_neg x then - int (dbl_mag x) else int (dbl_mag x))"

text \<open>\<open>x == y\<close> and \<open>x < y\<close>; infinities compare by their (too large) magnitudes.\<close>

definition dbl_eq :: "double \<Rightarrow> double \<Rightarrow> bool" where
  "dbl_eq x y \<longleftrightarrow> \<not> dbl_isnan x \<and> \<not> dbl_isnan y \<and> dbl_scaled x = dbl_scaled y"

definition dbl_less :: "double \<Rightarrow> double \<Rightarrow> bool" where
  "dbl_less x y \<longleftrightarrow> \<not> dbl_isnan x \<and> \<not> dbl_isnan y \<and> dbl_scaled x < dbl_scaled y"

text \<open>The magnitude of 1.\<close>

definition UNIT :: nat where
  "UNIT = 2 ^ 1074"

text \<open>\<open>trunc(x)\<close> of a finite double, as an integer.\<close>

definition dbl_trunc :: "double \<Rightarrow> int" where
  "dbl_trunc x = (let n = int (dbl_mag x div UNIT) in if dbl_neg x then - n else n)"

section \<open>Rounding\<close>

definition round_div :: "nat \<Rightarrow> nat \<Rightarrow> nat" where
  "round_div n d =
     (let q = n div d; r = n mod d in if d < 2 * r \<or> (d = 2 * r \<and> odd q) then q + 1 else q)"

text \<open>
  The pattern of the double nearest to \<open>n / d\<close> units: consecutive doubles have consecutive
  patterns, so a significand rounded up to \<open>2 ^ 53\<close> carries into the exponent by itself.
\<close>

definition dbl_encode :: "nat \<Rightarrow> nat \<Rightarrow> nat" where
  "dbl_encode n d = (let s = nbits (n div d) - 53 in min (s * 2 ^ 52 + round_div n (d * 2 ^ s)) (2047 * 2 ^ 52))"

definition dbl_signed :: "bool \<Rightarrow> nat \<Rightarrow> double" where
  "dbl_signed neg pattern = word_of_nat (if neg then 2 ^ 63 + pattern else pattern)"

definition dbl_of_ratio :: "bool \<Rightarrow> nat \<Rightarrow> nat \<Rightarrow> double" where
  "dbl_of_ratio neg n d = dbl_signed neg (dbl_encode (n * UNIT) d)"

text \<open>\<open>(double)i\<close>.\<close>

definition dbl_of_int :: "int \<Rightarrow> double" where
  "dbl_of_int i = dbl_of_ratio (i < 0) (nat \<bar>i\<bar>) 1"

text \<open>\<open>x + y\<close> and \<open>x - y\<close> of finite doubles; an exact zero is positive unless both are negative.\<close>

definition dbl_add :: "double \<Rightarrow> double \<Rightarrow> double" where
  "dbl_add x y =
     (let s = dbl_scaled x + dbl_scaled y
      in dbl_signed (if s = 0 then dbl_neg x \<and> dbl_neg y else s < 0) (dbl_encode (nat \<bar>s\<bar>) 1))"

definition dbl_minus :: "double \<Rightarrow> double" where
  "dbl_minus x = x XOR push_bit 63 1"

lemma round_div_exact [simp]: "d \<noteq> 0 \<Longrightarrow> round_div (q * d) d = q"
  by (simp add: round_div_def)

lemma round_div_cancel: "c \<noteq> 0 \<Longrightarrow> round_div (n * c) (d * c) = round_div n d"
proof -
  assume "c \<noteq> 0"
  then have "d * c < 2 * (n mod d * c) \<longleftrightarrow> d < 2 * (n mod d)" "d * c = 2 * (n mod d * c) \<longleftrightarrow> d = 2 * (n mod d)"
    by (simp_all add: mult.assoc [symmetric])
  with \<open>c \<noteq> 0\<close> show ?thesis by (simp add: round_div_def mod_mult_mult2 Let_def)
qed

lemma round_div_bounds:
  assumes "d \<noteq> 0"
  shows "n div d \<le> round_div n d" and "round_div n d \<le> n div d + 1"
  by (simp_all add: round_div_def Let_def)

lemma dbl_encode_le: "dbl_encode n d \<le> 2047 * 2 ^ 52"
  by (simp add: dbl_encode_def Let_def)

lemma unat_dbl_signed:
  assumes "p \<le> 2047 * 2 ^ 52"
  shows "unat (dbl_signed neg p) = (if neg then 2 ^ 63 + p else p)"
proof -
  have "p < 2 ^ 63" using assms by simp
  then have "(if neg then 2 ^ 63 + p else p) < 2 ^ 64" by simp
  then show ?thesis unfolding dbl_signed_def
    by (simp add: unat_of_nat take_bit_eq_mod del: if_split) 
qed

lemma mod_sign_bit: "(2 ^ 63 + p) mod 2 ^ 52 = (p :: nat) mod 2 ^ 52"
proof -
  have "(2 ^ 63 + p) mod 2 ^ 52 = (p + 2 ^ 11 * 2 ^ 52) mod 2 ^ 52" by (simp add: add.commute)
  then show ?thesis by (simp only: mod_mult_self1)
qed

lemma div_sign_bit: "(2 ^ 63 + p) div 2 ^ 52 = 2 ^ 11 + (p :: nat) div 2 ^ 52"
  by simp

lemma dbl_signed_fields:
  assumes "p \<le> 2047 * 2 ^ 52"
  shows "dbl_neg (dbl_signed neg p) = neg"
    and "dbl_exp (dbl_signed neg p) = p div 2 ^ 52" and "dbl_frac (dbl_signed neg p) = p mod 2 ^ 52"
proof -
  have lt: "p < 2 ^ 63" and e: "p div 2 ^ 52 < 2 ^ 11" using assms by simp_all
  show "dbl_neg (dbl_signed neg p) = neg"
    using lt by (simp add: dbl_neg_def unat_dbl_signed [OF assms])
  show "dbl_exp (dbl_signed neg p) = p div 2 ^ 52"
    using e div_sign_bit [of p] by (simp add: dbl_exp_def unat_dbl_signed [OF assms])
  show "dbl_frac (dbl_signed neg p) = p mod 2 ^ 52"
    using mod_sign_bit [of p] by (simp add: dbl_frac_def unat_dbl_signed [OF assms])
qed

text \<open>A magnitude with at most 53 significant bits is represented exactly.\<close>

lemma dbl_encode_exact:
  assumes "m = q * 2 ^ s" and "q < 2 ^ 53" and "s \<noteq> 0 \<Longrightarrow> 2 ^ 52 \<le> q"
    and "s * 2 ^ 52 + q \<le> 2047 * 2 ^ 52"
  shows "dbl_encode m 1 = s * 2 ^ 52 + q"
proof -
  have "nbits m - 53 = s"
  proof (cases "s = 0")
    case True
    have "nbits q \<le> 53" using assms(2) by (simp only: nbits_le_iff)
    with True assms(1) show ?thesis by simp
  next
    case False
    then have "nbits q = 53" using nbits_bounds [of 52 q] assms(2,3) by simp
    moreover have "nbits (0 + 2 ^ s * q) = s + nbits q"
      using assms(3) False by (intro nbits_shift) auto
    ultimately show ?thesis by (simp add: assms(1) mult.commute)
  qed
  with assms(4) show ?thesis by (simp add: dbl_encode_def Let_def assms(1))
qed

lemma dbl_mag_signed_exact:
  assumes "m = q * 2 ^ s" and "q < 2 ^ 53" and "s \<noteq> 0 \<Longrightarrow> 2 ^ 52 \<le> q" and "s \<le> 2045"
  shows "dbl_mag (dbl_signed neg (dbl_encode m 1)) = m"
    and "dbl_isfinite (dbl_signed neg (dbl_encode m 1))"
proof -
  let ?e = "s * 2 ^ 52 + q"
  have le: "?e \<le> 2047 * 2 ^ 52" using assms(2,4) by simp
  have enc: "dbl_encode m 1 = ?e" using assms(1-3) le by (rule dbl_encode_exact)
  have exp: "?e div 2 ^ 52 = s + q div 2 ^ 52" and frac: "?e mod 2 ^ 52 = q mod 2 ^ 52" by simp_all
  have q: "q div 2 ^ 52 = (if q < 2 ^ 52 then 0 else 1)" "q mod 2 ^ 52 = (if q < 2 ^ 52 then q else q - 2 ^ 52)"
    using assms(2) by (auto simp: div_if mod_if)
  show "dbl_isfinite (dbl_signed neg (dbl_encode m 1))"
    using assms(4) unfolding enc dbl_isfinite_def dbl_signed_fields [OF le] exp q by simp
  show "dbl_mag (dbl_signed neg (dbl_encode m 1)) = m"
    using assms(3) unfolding enc dbl_mag_def dbl_signed_fields [OF le] exp frac q
    by (cases "s = 0") (auto simp: assms(1))
qed

text \<open>A double that is a number is determined by its sign and magnitude.\<close>

lemma dbl_fields: "unat x = (if dbl_neg x then 2 ^ 63 else 0) + (dbl_exp x * 2 ^ 52 + dbl_frac x)"
proof -
  have lt: "unat x < 2 ^ 64" by (rule unat_u64_lt)
  define y where "y = unat x mod 2 ^ 63"
  have y: "unat x = (if dbl_neg x then 2 ^ 63 else 0) + y"
    using lt by (auto simp: y_def dbl_neg_def mod_if)
  have "y < 2 ^ 63" by (simp add: y_def)
  then have "y div 2 ^ 52 < 2 ^ 11" by (simp add: div_less_iff_less_mult)
  moreover have "unat x div 2 ^ 52 = (if dbl_neg x then 2 ^ 11 else 0) + y div 2 ^ 52"
    and "unat x mod 2 ^ 52 = y mod 2 ^ 52"
    by (subst y, simp only: div_sign_bit mod_sign_bit split: if_splits, simp)+
  ultimately have "dbl_exp x = y div 2 ^ 52" "dbl_frac x = y mod 2 ^ 52"
    by (simp_all add: dbl_exp_def dbl_frac_def)
  then have "dbl_exp x * 2 ^ 52 + dbl_frac x = y" by (simp only: div_mult_mod_eq)
  with y show ?thesis by simp
qed

lemma dbl_encode_mag:
  assumes "\<not> dbl_isnan x"
  shows "dbl_signed (dbl_neg x) (dbl_encode (dbl_mag x) 1) = x"
proof -
  have exp: "dbl_exp x \<le> 2047" and frac: "dbl_frac x < 2 ^ 52"
    using mod_less_divisor [of "2 ^ 11" "unat x div 2 ^ 52"] by (simp_all add: dbl_exp_def dbl_frac_def)
  have le: "dbl_exp x * 2 ^ 52 + dbl_frac x \<le> 2047 * 2 ^ 52"
    using assms exp frac by (cases "dbl_exp x = 2047") (auto simp: dbl_isnan_def)
  have enc: "dbl_encode (dbl_mag x) 1 = dbl_exp x * 2 ^ 52 + dbl_frac x"
  proof (cases "dbl_exp x")
    case 0
    then show ?thesis using dbl_encode_exact [of "dbl_mag x" "dbl_frac x" 0] frac le by (simp add: dbl_mag_def)
  next
    case (Suc s)
    then show ?thesis using dbl_encode_exact [of "dbl_mag x" "2 ^ 52 + dbl_frac x" s] frac le
      by (simp add: dbl_mag_def)
  qed
  have "unat (dbl_signed (dbl_neg x) (dbl_encode (dbl_mag x) 1)) = unat x"
    using unat_dbl_signed [OF le, of "dbl_neg x"] dbl_fields [of x] unfolding enc by simp
  then show ?thesis by (simp only: word_unat_eq_iff)
qed

lemma dbl_eq_nonzero:
  assumes "dbl_eq x y" and "dbl_scaled y \<noteq> 0"
  shows "x = y"
proof -
  from assms have nan: "\<not> dbl_isnan x" "\<not> dbl_isnan y" and eq: "dbl_scaled x = dbl_scaled y"
    by (simp_all add: dbl_eq_def)
  with assms(2) have "dbl_neg x = dbl_neg y \<and> dbl_mag x = dbl_mag y"
    by (auto simp: dbl_scaled_def split: if_splits)
  then show ?thesis using dbl_encode_mag [OF nan(1)] dbl_encode_mag [OF nan(2)] by simp
qed

text \<open>Integers of at most 53 bits are exact.\<close>

lemma dbl_of_int_exact:
  assumes "\<bar>i\<bar> < 2 ^ 53"
  shows "dbl_isfinite (dbl_of_int i)" and "dbl_mag (dbl_of_int i) = nat \<bar>i\<bar> * UNIT"
    and "dbl_neg (dbl_of_int i) \<longleftrightarrow> i < 0"
proof -
  define n where "n = nat \<bar>i\<bar>"
  have n: "n < 2 ^ 53" using assms by (simp add: n_def nat_less_iff)
  have dbl: "dbl_of_int i = dbl_signed (i < 0) (dbl_encode (n * UNIT) 1)"
    by (simp add: dbl_of_int_def dbl_of_ratio_def n_def)
  show "dbl_neg (dbl_of_int i) \<longleftrightarrow> i < 0"
    unfolding dbl using dbl_encode_le by (rule dbl_signed_fields)
  define s q where "s = (if n = 0 then 0 else 1021 + nbits n)" and "q = (if n = 0 then 0 else n * 2 ^ (53 - nbits n))"
  have k: "nbits n \<le> 53" using n by (simp only: nbits_le_iff)
  have "n * UNIT = q * 2 ^ s \<and> q < 2 ^ 53 \<and> (s \<noteq> 0 \<longrightarrow> 2 ^ 52 \<le> q) \<and> s \<le> 2045"
  proof (cases "n = 0")
    case False
    then have pos: "nbits n \<noteq> 0" by (simp add: nbits.simps [of n])
    have "53 - nbits n + (1021 + nbits n) = 1074" using k by simp
    then have "n * UNIT = q * 2 ^ s" using False by (simp add: UNIT_def s_def q_def power_add [symmetric] del: power_numeral)
    moreover have "n * 2 ^ (53 - nbits n) < 2 ^ nbits n * 2 ^ (53 - nbits n)"
      by (rule mult_strict_right_mono [OF nbits_less]) simp
    then have "q < 2 ^ 53" using k False by (simp add: q_def power_add [symmetric] del: power_numeral)
    moreover have "2 ^ (nbits n - 1) * 2 ^ (53 - nbits n) \<le> n * 2 ^ (53 - nbits n)"
      by (rule mult_right_mono [OF nbits_le [OF False]]) simp
    then have "2 ^ 52 \<le> q" using k False pos by (simp add: q_def power_add [symmetric] del: power_numeral)
    moreover have "s \<le> 2045" using k by (simp add: s_def)
    ultimately show ?thesis by blast
  qed (simp add: s_def q_def)
  then show "dbl_isfinite (dbl_of_int i)" and "dbl_mag (dbl_of_int i) = nat \<bar>i\<bar> * UNIT"
    using dbl_mag_signed_exact [of "n * UNIT" q s "i < 0"] unfolding dbl n_def [symmetric] by blast+
qed

lemma UNIT_nonzero [simp]: "UNIT \<noteq> 0" "0 < UNIT"
  by (simp_all only: UNIT_def zero_less_power zero_less_numeral not_gr0 [symmetric] not_not)

lemma dbl_scaled_of_int: "\<bar>i\<bar> < 2 ^ 53 \<Longrightarrow> dbl_scaled (dbl_of_int i) = i * int UNIT"
  by (simp add: dbl_scaled_def dbl_of_int_exact)

lemma dbl_trunc_of_int: "\<bar>i\<bar> < 2 ^ 53 \<Longrightarrow> dbl_trunc (dbl_of_int i) = i"
  by (simp add: dbl_trunc_def dbl_of_int_exact Let_def)

lemma dbl_not_nan_finite: "dbl_isfinite x \<Longrightarrow> \<not> dbl_isnan x"
  by (simp add: dbl_isfinite_def dbl_isnan_def)

lemma dbl_eq_of_int:
  "\<bar>i\<bar> < 2 ^ 53 \<Longrightarrow> \<bar>j\<bar> < 2 ^ 53 \<Longrightarrow> dbl_eq (dbl_of_int i) (dbl_of_int j) \<longleftrightarrow> i = j"
  by (simp add: dbl_eq_def dbl_scaled_of_int dbl_of_int_exact dbl_not_nan_finite)

lemma dbl_less_of_int:
  "\<bar>i\<bar> < 2 ^ 53 \<Longrightarrow> \<bar>j\<bar> < 2 ^ 53 \<Longrightarrow> dbl_less (dbl_of_int i) (dbl_of_int j) \<longleftrightarrow> i < j"
  by (simp add: dbl_less_def dbl_scaled_of_int dbl_of_int_exact dbl_not_nan_finite)

lemma dbl_add_of_int:
  assumes "\<bar>i\<bar> < 2 ^ 53" and "\<bar>j\<bar> < 2 ^ 53" and "\<bar>i + j\<bar> < 2 ^ 53"
  shows "dbl_add (dbl_of_int i) (dbl_of_int j) = dbl_of_int (i + j)"
proof -
  have sum: "dbl_scaled (dbl_of_int i) + dbl_scaled (dbl_of_int j) = (i + j) * int UNIT"
    by (simp only: dbl_scaled_of_int [OF assms(1)] dbl_scaled_of_int [OF assms(2)] distrib_right)
  have neg: "(i + j) * int UNIT < 0 \<longleftrightarrow> i + j < 0" and zero: "(i + j) * int UNIT = 0 \<longleftrightarrow> i + j = 0"
    by (simp_all add: mult_less_0_iff)
  have abs: "nat \<bar>(i + j) * int UNIT\<bar> = nat \<bar>i + j\<bar> * UNIT"
    by (simp add: abs_mult nat_mult_distrib)
  have "(if i + j = 0 then dbl_neg (dbl_of_int i) \<and> dbl_neg (dbl_of_int j) else i + j < 0) = (i + j < 0)"
    using assms by (simp add: dbl_of_int_exact(3))
  then show ?thesis
    unfolding dbl_add_def Let_def sum neg zero abs by (simp add: dbl_of_int_def dbl_of_ratio_def)
qed

end
