(* ===== verification/C_Strings.thy ===== *)
theory C_Strings
  imports Prelude "HOL-Library.Sublist"
begin

text \<open>
  The parts of \<open>ctype.h\<close> and \<open>string.h\<close> the runtime uses, in the C locale: character classes,
  case conversion, prefix comparison and searching.
\<close>

section \<open>Character classes\<close>

definition char_code :: "char \<Rightarrow> nat" where
  "char_code c = of_char c"

definition in_range :: "nat \<Rightarrow> nat \<Rightarrow> char \<Rightarrow> bool" where
  "in_range lo hi c \<longleftrightarrow> lo \<le> char_code c \<and> char_code c \<le> hi"

definition c_isdigit :: "char \<Rightarrow> bool" where
  "c_isdigit c \<longleftrightarrow> in_range 48 57 c"

definition c_isupper :: "char \<Rightarrow> bool" where
  "c_isupper c \<longleftrightarrow> in_range 65 90 c"

definition c_islower :: "char \<Rightarrow> bool" where
  "c_islower c \<longleftrightarrow> in_range 97 122 c"

definition c_isalpha :: "char \<Rightarrow> bool" where
  "c_isalpha c \<longleftrightarrow> c_isupper c \<or> c_islower c"

definition c_isalnum :: "char \<Rightarrow> bool" where
  "c_isalnum c \<longleftrightarrow> c_isalpha c \<or> c_isdigit c"

definition c_isspace :: "char \<Rightarrow> bool" where
  "c_isspace c \<longleftrightarrow> char_code c = 32 \<or> in_range 9 13 c"

definition c_isxdigit :: "char \<Rightarrow> bool" where
  "c_isxdigit c \<longleftrightarrow> c_isdigit c \<or> in_range 65 70 c \<or> in_range 97 102 c"

definition c_tolower :: "char \<Rightarrow> char" where
  "c_tolower c = (if c_isupper c then char_of (char_code c + 32) else c)"

definition c_toupper :: "char \<Rightarrow> char" where
  "c_toupper c = (if c_islower c then char_of (char_code c - 32) else c)"

lemmas c_class_defs = char_code_def in_range_def c_isdigit_def c_isupper_def c_islower_def
  c_isalpha_def c_isalnum_def c_isspace_def c_isxdigit_def c_tolower_def c_toupper_def

lemma char_code_less [simp]: "char_code c < 256"
  by (simp add: char_code_def)

lemma char_code_char_of: "n < 256 \<Longrightarrow> char_code (char_of n) = n"
  by (simp add: char_code_def)

lemma char_code_eq_iff [simp]: "char_code a = char_code b \<longleftrightarrow> a = b"
  by (simp add: char_code_def)

lemma c_isupper_tolower [simp]: "\<not> c_isupper (c_tolower c)"
  by (auto simp: c_tolower_def c_isupper_def in_range_def char_code_char_of)

lemma c_tolower_idem [simp]: "c_tolower (c_tolower c) = c_tolower c"
  by (simp add: c_tolower_def [of "c_tolower c"])

section \<open>Comparing and searching\<close>

text \<open>
  \<open>strncmp(text, p, strlen(p)) == 0\<close> is \<open>prefix p text\<close>; with the length of \<open>p\<close> plus one, the
  comparison includes the terminator and means equality.
\<close>

definition strncmp_eq :: "string \<Rightarrow> string \<Rightarrow> nat \<Rightarrow> bool" where
  "strncmp_eq a b n \<longleftrightarrow> take n a = take n b"

lemma strncmp_eq_prefix: "n = length p \<Longrightarrow> strncmp_eq a p n \<longleftrightarrow> prefix p a"
  by (auto simp: strncmp_eq_def prefix_def take_all) (metis append_take_drop_id)

lemma strncmp_eq_all: "length p < n \<Longrightarrow> strncmp_eq a p n \<longleftrightarrow> a = p"
  by (auto simp: strncmp_eq_def min_def dest: arg_cong [where f = length] split: if_splits)

text \<open>\<open>strstr\<close>: the position of the first occurrence.\<close>

fun strstr :: "string \<Rightarrow> string \<Rightarrow> nat option" where
  "strstr [] needle = (if needle = [] then Some 0 else None)"
| "strstr (c # cs) needle = (if prefix needle (c # cs) then Some 0 else map_option Suc (strstr cs needle))"

lemma strstr_SomeD:
  "strstr s needle = Some n \<Longrightarrow> \<exists>rest. drop n s = needle @ rest \<and> n \<le> length s"
  by (induction s needle arbitrary: n rule: strstr.induct) (auto simp: prefix_def split: if_splits)

lemma strstr_None: "strstr s needle = None \<longleftrightarrow> (\<nexists>a b. s = a @ needle @ b)"
proof (induction s needle rule: strstr.induct)
  case (2 c cs needle)
  show ?case
  proof (cases "prefix needle (c # cs)")
    case True
    then obtain rest where "c # cs = [] @ needle @ rest" by (auto simp: prefix_def)
    with True show ?thesis by (metis option.distinct(1) strstr.simps(2))
  next
    case False
    then have "(\<exists>a b. c # cs = a @ needle @ b) \<longleftrightarrow> (\<exists>a b. cs = a @ needle @ b)"
      by (auto simp: prefix_def Cons_eq_append_conv)
    with False 2 show ?thesis by simp
  qed
qed auto

text \<open>The position of the first occurrence of a character.\<close>

fun strchr :: "string \<Rightarrow> char \<Rightarrow> nat option" where
  "strchr [] d = None"
| "strchr (c # cs) d = (if c = d then Some 0 else map_option Suc (strchr cs d))"

lemma strchr_Some:
  "strchr s d = Some n \<longleftrightarrow> n < length s \<and> s ! n = d \<and> d \<notin> set (take n s)"
  by (induction s d arbitrary: n rule: strchr.induct) (auto simp: nth_Cons take_Cons split: nat.splits)

lemma strchr_None: "strchr s d = None \<longleftrightarrow> d \<notin> set s"
  by (induction s d rule: strchr.induct) auto

end
