(* ===== verification/Number_Text.thy ===== *)
theory Number_Text
  imports Doubles C_Strings
begin

text \<open>
  Doubles as text: \<open>strtod\<close> and \<open>printf("%g")\<close> of the C library, and
  \<open>jayess_number_to_string\<close> of \<open>jayess_runtime_strings.c\<close>, which prints with six significant
  digits. Integers of less than seven digits are printed exactly and read back; larger ones are
  not.
\<close>

section \<open>strtod\<close>

definition strip_sign :: "string \<Rightarrow> bool \<times> string" where
  "strip_sign s = (case s of [] \<Rightarrow> (False, [])
     | c # cs \<Rightarrow> if c = CHR ''-'' then (True, cs) else if c = CHR ''+'' then (False, cs) else (False, s))"

text \<open>Digits, possibly a point and more digits: at least one digit in all.\<close>

definition parse_mantissa :: "(char \<Rightarrow> bool) \<Rightarrow> string \<Rightarrow> (string \<times> string \<times> string) option" where
  "parse_mantissa isd s =
     (let ip = takeWhile isd s; r = dropWhile isd s
      in case r of
           c # r' \<Rightarrow> if c = CHR ''.'' \<and> (ip \<noteq> [] \<or> takeWhile isd r' \<noteq> [])
                     then Some (ip, takeWhile isd r', dropWhile isd r')
                     else if ip = [] then None else Some (ip, [], r)
         | [] \<Rightarrow> if ip = [] then None else Some (ip, [], r))"

definition parse_exponent :: "char \<Rightarrow> string \<Rightarrow> int \<times> string" where
  "parse_exponent marker s =
     (case s of [] \<Rightarrow> (0, s)
      | c # r \<Rightarrow>
          if c_tolower c = marker
          then (let (neg, t) = strip_sign r; ds = takeWhile is_digit t
                in if ds = [] then (0, s)
                   else ((if neg then - int (dec_val 0 ds) else int (dec_val 0 ds)), dropWhile is_digit t))
          else (0, s))"

definition hex_digit_val :: "char \<Rightarrow> nat" where
  "hex_digit_val c = (if c_isdigit c then char_code c - 48 else char_code (c_tolower c) - 87)"

definition scale_ratio :: "bool \<Rightarrow> nat \<Rightarrow> nat \<Rightarrow> int \<Rightarrow> double" where
  "scale_ratio neg n base e =
     (if 0 \<le> e then dbl_of_ratio neg (n * base ^ nat e) 1 else dbl_of_ratio neg n (base ^ nat (- e)))"

definition dbl_inf :: "bool \<Rightarrow> double" where
  "dbl_inf neg = dbl_signed neg (2047 * 2 ^ 52)"

definition dbl_nan :: "bool \<Rightarrow> double" where
  "dbl_nan neg = dbl_signed neg (2047 * 2 ^ 52 + 2 ^ 51)"

definition nan_suffix :: "string \<Rightarrow> string" where
  "nan_suffix s = (case s of [] \<Rightarrow> []
     | c # cs \<Rightarrow> if c = CHR ''('' then
         (case dropWhile (\<lambda>d. c_isalnum d \<or> d = CHR ''_'') cs of
            d # r \<Rightarrow> if d = CHR '')'' then r else s | [] \<Rightarrow> s) else s)"

text \<open>The number and the rest of the text; no conversion is the number 0 and the whole text.\<close>

definition strtod :: "string \<Rightarrow> double \<times> string" where
  "strtod s =
     (let (neg, t) = strip_sign (dropWhile c_isspace s); low = map c_tolower t
      in if prefix ''infinity'' low then (dbl_inf neg, drop 8 t)
         else if prefix ''inf'' low then (dbl_inf neg, drop 3 t)
         else if prefix ''nan'' low then (dbl_nan neg, nan_suffix (drop 3 t))
         else case (if prefix ''0x'' low then parse_mantissa c_isxdigit (drop 2 t) else None) of
           Some (ip, fp, r) \<Rightarrow>
             (let (e, r') = parse_exponent (CHR ''p'') r
              in (scale_ratio neg (foldl (\<lambda>a c. a * 16 + hex_digit_val c) 0 (ip @ fp)) 2 (e - 4 * int (length fp)), r'))
         | None \<Rightarrow>
             (case parse_mantissa is_digit t of
                None \<Rightarrow> (0, s)
              | Some (ip, fp, r) \<Rightarrow>
                  (let (e, r') = parse_exponent (CHR ''e'') r
                   in (scale_ratio neg (dec_val 0 (ip @ fp)) 10 (e - int (length fp)), r'))))"

section \<open>printf with six significant digits\<close>

text \<open>The least \<open>k\<close> such that the magnitude times \<open>10 ^ k\<close> is at least 1; 324 steps are enough.\<close>

fun leading_zeros :: "nat \<Rightarrow> nat \<Rightarrow> nat" where
  "leading_zeros 0 m = 0"
| "leading_zeros (Suc fuel) m = (if UNIT \<le> m then 0 else Suc (leading_zeros fuel (m * 10)))"

definition decimal_exponent :: "nat \<Rightarrow> int" where
  "decimal_exponent m =
     (if UNIT \<le> m then int (length (dec (m div UNIT))) - 1 else - int (leading_zeros 400 m))"

definition six_digits :: "nat \<Rightarrow> nat \<times> int" where
  "six_digits m =
     (let e = decimal_exponent m; d = round_div (m * 10 ^ nat (5 - e)) (UNIT * 10 ^ nat (e - 5))
      in if d = 10 ^ 6 then (10 ^ 5, e + 1) else (d, e))"

definition strip_zeros :: "string \<Rightarrow> string" where
  "strip_zeros ds = rev (dropWhile (\<lambda>c. c = CHR ''0'') (rev ds))"

definition with_fraction :: "string \<Rightarrow> string \<Rightarrow> string" where
  "with_fraction ip fp = (let f = strip_zeros fp in if f = [] then ip else ip @ CHR ''.'' # f)"

definition format_g_mag :: "nat \<Rightarrow> string" where
  "format_g_mag m =
     (if m = 0 then ''0''
      else (let (d, e) = six_digits m; ds = dec d
            in if - 4 \<le> e \<and> e < 6
               then if 0 \<le> e then with_fraction (take (Suc (nat e)) ds) (drop (Suc (nat e)) ds)
                    else with_fraction ''0'' (replicate (nat (- e) - 1) (CHR ''0'') @ ds)
               else with_fraction (take 1 ds) (drop 1 ds) @ CHR ''e'' #
                      (if e < 0 then CHR ''-'' else CHR ''+'') # dec_pad 2 (nat \<bar>e\<bar>)))"

definition format_g :: "double \<Rightarrow> string" where
  "format_g x =
     (let body = (if dbl_isnan x then ''nan'' else if \<not> dbl_isfinite x then ''inf'' else format_g_mag (dbl_mag x))
      in if dbl_neg x then CHR ''-'' # body else body)"

definition jayess_number_to_string :: "double \<Rightarrow> string" where
  "jayess_number_to_string x = format_g x"

section \<open>Exact cases\<close>

lemma is_digit_not_special:
  "is_digit c \<Longrightarrow> c \<noteq> CHR ''-'' \<and> c \<noteq> CHR ''+'' \<and> c \<noteq> CHR ''.'' \<and> \<not> c_isspace c
   \<and> c_tolower c \<noteq> CHR ''i'' \<and> c_tolower c \<noteq> CHR ''n'' \<and> c_tolower c \<noteq> CHR ''x''"
  by (auto simp: is_digit_def c_class_defs)

lemma strip_zeros_replicate [simp]: "strip_zeros (replicate k (CHR ''0'')) = []"
  by (simp add: strip_zeros_def dropWhile_eq_Nil_conv)

lemma decimal_exponent_units:
  "n \<noteq> 0 \<Longrightarrow> decimal_exponent (n * UNIT) = int (length (dec n)) - 1"
  by (simp add: decimal_exponent_def)

lemma format_g_mag_units:
  assumes "n < 10 ^ 6"
  shows "format_g_mag (n * UNIT) = dec n"
proof (cases "n = 0")
  case False
  define l where "l = length (dec n)"
  have l: "l \<noteq> 0" "l \<le> 6" using length_dec_le [OF assms] by (simp_all add: l_def)
  have e: "decimal_exponent (n * UNIT) = int l - 1"
    using False by (simp add: decimal_exponent_units l_def)
  have "n < 10 ^ l" unfolding l_def by (rule less_length_dec)
  then have "n * 10 ^ (6 - l) < 10 ^ l * 10 ^ (6 - l)" by (rule mult_strict_right_mono) simp
  then have d: "n * 10 ^ (6 - l) \<noteq> 10 ^ 6" using l by (simp add: power_add [symmetric] del: power_numeral)
  have k: "nat (5 - (int l - 1)) = 6 - l" "nat (int l - 1 - 5) = 0" "nat (int l - 1) = l - 1"
    "0 \<le> int l - 1" "- 4 \<le> int l - 1" "int l - 1 < 6"
    using l by simp_all
  have "n * UNIT * 10 ^ (6 - l) = n * 10 ^ (6 - l) * (UNIT * 10 ^ 0)" by simp
  then have "round_div (n * UNIT * 10 ^ (6 - l)) (UNIT * 10 ^ 0) = n * 10 ^ (6 - l)"
    by (simp only: round_div_exact mult_1_right power_0 UNIT_nonzero not_False_eq_True)
  then have six: "six_digits (n * UNIT) = (n * 10 ^ (6 - l), int l - 1)"
    using d unfolding six_digits_def Let_def e k by (simp only: if_False)
  have "Suc (l - 1) = length (dec n)" using l by (simp add: l_def)
  then show ?thesis
    unfolding format_g_mag_def six Let_def prod.case if_P [OF k(4)] k(3)
      if_P [OF conjI [OF k(5,6)]] using False by (simp add: dec_times_power with_fraction_def)
qed (simp add: format_g_mag_def dec_0)

theorem number_to_string_int:
  assumes "\<bar>i\<bar> < 10 ^ 6"
  shows "jayess_number_to_string (dbl_of_int i) = text_of_int i"
proof -
  have i: "\<bar>i\<bar> < 2 ^ 53" and n: "nat \<bar>i\<bar> < 10 ^ 6" using assms by simp_all
  show ?thesis
    using format_g_mag_units [OF n]
    by (simp add: jayess_number_to_string_def format_g_def dbl_of_int_exact [OF i] Let_def
        dbl_not_nan_finite text_of_int_def)
qed

text \<open>Larger integers lose digits.\<close>

lemma six_digits_example: "format_g_mag (1234567 * UNIT) = ''1.23457e+06''"
proof -
  have dec: "dec 1234567 = ''1234567''" by (simp add: dec.simps digit_chars)
  have "round_div (1234567 * UNIT) (UNIT * 10) = 123457"
    using round_div_cancel [of UNIT 1234567 10] by (simp add: mult.commute round_div_def)
  then have "six_digits (1234567 * UNIT) = (123457, 6)"
    by (simp add: six_digits_def decimal_exponent_units dec)
  moreover have "dec 123457 = ''123457''" "dec_pad 2 6 = ''06''"
    by (simp_all add: dec_pad_def dec.simps digit_chars)
  ultimately show ?thesis
    by (simp add: format_g_mag_def with_fraction_def strip_zeros_def)
qed

lemma number_to_string_loses_digits:
  "jayess_number_to_string (dbl_of_int 1234567) = ''1.23457e+06''"
  using six_digits_example
  by (simp add: jayess_number_to_string_def format_g_def dbl_of_int_exact Let_def dbl_not_nan_finite)

end
