(* ===== verification/Values.thy ===== *)
theory Values
  imports Number_Text
begin

text \<open>
  Runtime values, \<open>jayess_runtime_values.c\<close> and the \<open>jayess_value\<close> union of
  \<open>jayess_runtime_internal.h\<close>. A value is one constructor per kind. Objects, arrays and functions
  are addresses in the heap of the runtime state; a symbol carries its number and description. A
  pointer to a box that may be NULL is a \<open>jayess_value option\<close>. Boxes are never written to after
  they are built, so their own addresses are not modelled.
\<close>

section \<open>Values\<close>

datatype jayess_value =
    VNull
  | VString string
  | VNumber double
  | VBigint string
  | VBool bool
  | VObject nat
  | VArray nat
  | VUndefined
  | VFunction nat
  | VSymbol nat "string option"

datatype jayess_value_kind =
    KNull | KString | KNumber | KBigint | KBool | KObject | KArray | KUndefined | KFunction | KSymbol

fun value_kind :: "jayess_value \<Rightarrow> jayess_value_kind" where
  "value_kind VNull = KNull"
| "value_kind (VString _) = KString"
| "value_kind (VNumber _) = KNumber"
| "value_kind (VBigint _) = KBigint"
| "value_kind (VBool _) = KBool"
| "value_kind (VObject _) = KObject"
| "value_kind (VArray _) = KArray"
| "value_kind VUndefined = KUndefined"
| "value_kind (VFunction _) = KFunction"
| "value_kind (VSymbol _ _) = KSymbol"

definition jayess_value_kind_of :: "jayess_value option \<Rightarrow> jayess_value_kind" where
  "jayess_value_kind_of v = (case v of None \<Rightarrow> KNull | Some w \<Rightarrow> value_kind w)"

section \<open>Numbers\<close>

text \<open>The doubles \<open>-1\<close>, \<open>0\<close>, ..., \<open>16\<close> have one shared box each.\<close>

definition singleton_numbers :: "double list" where
  "singleton_numbers = map dbl_of_int [-1, 0, 1, 2, 3, 4, 5, 6, 7, 8, 9, 10, 11, 12, 13, 14, 15, 16]"

definition jayess_number_singleton :: "double \<Rightarrow> jayess_value option" where
  "jayess_number_singleton x = map_option VNumber (find (\<lambda>c. dbl_eq x c) singleton_numbers)"

definition jayess_value_from_number :: "double \<Rightarrow> jayess_value" where
  "jayess_value_from_number x =
     (case jayess_number_singleton x of Some s \<Rightarrow> s | None \<Rightarrow> VNumber x)"

fun jayess_value_to_number :: "jayess_value option \<Rightarrow> double" where
  "jayess_value_to_number None = 0"
| "jayess_value_to_number (Some (VNumber x)) = x"
| "jayess_value_to_number (Some (VBigint s)) = fst (strtod s)"
| "jayess_value_to_number (Some (VBool b)) = (if b then dbl_of_int 1 else 0)"
| "jayess_value_to_number (Some (VString s)) = fst (strtod s)"
| "jayess_value_to_number (Some _) = 0"

section \<open>Type, truth and equality\<close>

fun jayess_value_typeof :: "jayess_value option \<Rightarrow> string" where
  "jayess_value_typeof (Some VUndefined) = ''undefined''"
| "jayess_value_typeof (Some (VString _)) = ''string''"
| "jayess_value_typeof (Some (VNumber _)) = ''number''"
| "jayess_value_typeof (Some (VBigint _)) = ''bigint''"
| "jayess_value_typeof (Some (VBool _)) = ''boolean''"
| "jayess_value_typeof (Some (VSymbol _ _)) = ''symbol''"
| "jayess_value_typeof (Some (VFunction _)) = ''function''"
| "jayess_value_typeof _ = ''object''"

definition jayess_value_is_nullish :: "jayess_value option \<Rightarrow> bool" where
  "jayess_value_is_nullish v \<longleftrightarrow> v = None \<or> v = Some VNull \<or> v = Some VUndefined"

text \<open>
  The truth of an array depends on its length and that of a function on its code pointer, which
  the caller supplies from the heap.
\<close>

fun jayess_value_is_truthy :: "(nat \<Rightarrow> nat) \<Rightarrow> (nat \<Rightarrow> bool) \<Rightarrow> jayess_value option \<Rightarrow> bool" where
  "jayess_value_is_truthy array_count has_callee None \<longleftrightarrow> False"
| "jayess_value_is_truthy array_count has_callee (Some VNull) \<longleftrightarrow> False"
| "jayess_value_is_truthy array_count has_callee (Some VUndefined) \<longleftrightarrow> False"
| "jayess_value_is_truthy array_count has_callee (Some (VString s)) \<longleftrightarrow> s \<noteq> []"
| "jayess_value_is_truthy array_count has_callee (Some (VNumber x)) \<longleftrightarrow> \<not> dbl_eq x 0"
| "jayess_value_is_truthy array_count has_callee (Some (VBigint s)) \<longleftrightarrow> s \<noteq> ''0''"
| "jayess_value_is_truthy array_count has_callee (Some (VBool b)) \<longleftrightarrow> b"
| "jayess_value_is_truthy array_count has_callee (Some (VSymbol _ _)) \<longleftrightarrow> True"
| "jayess_value_is_truthy array_count has_callee (Some (VObject _)) \<longleftrightarrow> True"
| "jayess_value_is_truthy array_count has_callee (Some (VArray a)) \<longleftrightarrow> 0 < array_count a"
| "jayess_value_is_truthy array_count has_callee (Some (VFunction f)) \<longleftrightarrow> has_callee f"

text \<open>
  Functions are equal when they have the same code pointer and environment box; \<open>same_fun\<close> is
  that comparison on two addresses.
\<close>

fun value_eq_box :: "(nat \<Rightarrow> nat \<Rightarrow> bool) \<Rightarrow> jayess_value \<Rightarrow> jayess_value \<Rightarrow> bool" where
  "value_eq_box same_fun VNull w \<longleftrightarrow> w = VNull"
| "value_eq_box same_fun VUndefined w \<longleftrightarrow> w = VUndefined"
| "value_eq_box same_fun (VString s) w \<longleftrightarrow> w = VString s"
| "value_eq_box same_fun (VNumber x) w \<longleftrightarrow> (case w of VNumber y \<Rightarrow> dbl_eq x y | _ \<Rightarrow> False)"
| "value_eq_box same_fun (VBigint s) w \<longleftrightarrow> w = VBigint s"
| "value_eq_box same_fun (VBool b) w \<longleftrightarrow> w = VBool b"
| "value_eq_box same_fun (VSymbol i _) w \<longleftrightarrow> (case w of VSymbol j _ \<Rightarrow> i = j | _ \<Rightarrow> False)"
| "value_eq_box same_fun (VObject a) w \<longleftrightarrow> w = VObject a"
| "value_eq_box same_fun (VArray a) w \<longleftrightarrow> w = VArray a"
| "value_eq_box same_fun (VFunction f) w \<longleftrightarrow> (case w of VFunction g \<Rightarrow> same_fun f g | _ \<Rightarrow> False)"

definition jayess_value_eq :: "(nat \<Rightarrow> nat \<Rightarrow> bool) \<Rightarrow> jayess_value option \<Rightarrow> jayess_value option \<Rightarrow> bool" where
  "jayess_value_eq same_fun left right \<longleftrightarrow>
     (case left of
        None \<Rightarrow> right = None
      | Some v \<Rightarrow> (case right of None \<Rightarrow> False
          | Some w \<Rightarrow> value_kind v = value_kind w \<and> value_eq_box same_fun v w))"

section \<open>Accessors\<close>

definition jayess_value_as_string :: "jayess_value option \<Rightarrow> string" where
  "jayess_value_as_string v = (case v of Some (VString s) \<Rightarrow> s | _ \<Rightarrow> [])"

definition jayess_value_as_object :: "jayess_value option \<Rightarrow> nat option" where
  "jayess_value_as_object v = (case v of Some (VObject a) \<Rightarrow> Some a | _ \<Rightarrow> None)"

definition jayess_value_as_array :: "jayess_value option \<Rightarrow> nat option" where
  "jayess_value_as_array v = (case v of Some (VArray a) \<Rightarrow> Some a | _ \<Rightarrow> None)"

definition jayess_value_as_bool :: "(nat \<Rightarrow> nat) \<Rightarrow> (nat \<Rightarrow> bool) \<Rightarrow> jayess_value option \<Rightarrow> bool" where
  "jayess_value_as_bool array_count has_callee v =
     (case v of None \<Rightarrow> False | Some (VBool b) \<Rightarrow> b | _ \<Rightarrow> jayess_value_is_truthy array_count has_callee v)"

text \<open>
  What a constructor answers: the value it returned, if that is a value other than the new
  object, and the new object otherwise. The C code compares boxes; \<open>same_box\<close> says whether the
  two pointers are the same.
\<close>

definition jayess_value_constructor_return ::
  "jayess_value option \<Rightarrow> jayess_value option \<Rightarrow> bool \<Rightarrow> jayess_value option" where
  "jayess_value_constructor_return self v same_box =
     (if v \<noteq> None \<and> \<not> same_box then v
      else if self \<noteq> None then self
      else if v \<noteq> None then v
      else Some VUndefined)"

section \<open>Integer views of a number\<close>

text \<open>\<open>fmod\<close> on integral doubles: the remainder has the sign of the dividend.\<close>

definition fmod_int :: "int \<Rightarrow> int \<Rightarrow> int" where
  "fmod_int a b = sgn a * (\<bar>a\<bar> mod b)"

definition jayess_number_to_uint32 :: "double \<Rightarrow> u32" where
  "jayess_number_to_uint32 x =
     (if \<not> dbl_isfinite x \<or> dbl_eq x 0 then 0
      else (let modulo = fmod_int (dbl_trunc x) 4294967296
            in word_of_int (if modulo < 0 then modulo + 4294967296 else modulo)))"

definition jayess_number_to_int32 :: "double \<Rightarrow> int" where
  "jayess_number_to_int32 x =
     (let u = uint (jayess_number_to_uint32 x) in if 2147483648 \<le> u then u - 4294967296 else u)"

text \<open>
  The operators on numbers. Shifts of a negative left operand follow the two's complement targets
  the runtime is built for.
\<close>

definition jayess_value_bitwise_number_binary ::
  "jayess_value option \<Rightarrow> jayess_value option \<Rightarrow> char \<Rightarrow> jayess_value" where
  "jayess_value_bitwise_number_binary left right opr =
     (let lhs = (word_of_int (jayess_number_to_int32 (jayess_value_to_number left)) :: u32);
          rhs = jayess_number_to_uint32 (jayess_value_to_number right);
          n = unat (rhs AND 31)
      in if opr = CHR ''&'' then jayess_value_from_number (dbl_of_int (sint (lhs AND rhs)))
         else if opr = CHR ''|'' then jayess_value_from_number (dbl_of_int (sint (lhs OR rhs)))
         else if opr = CHR ''^'' then jayess_value_from_number (dbl_of_int (sint (lhs XOR rhs)))
         else if opr = CHR ''<'' then jayess_value_from_number (dbl_of_int (sint (push_bit n lhs)))
         else if opr = CHR ''>'' then jayess_value_from_number (dbl_of_int (sint (signed_drop_bit n lhs)))
         else jayess_value_from_number
                (dbl_of_int (uint (drop_bit n (jayess_number_to_uint32 (jayess_value_to_number left))))))"

section \<open>What numbers become\<close>

lemma dbl_zero_fields: "dbl_scaled 0 = 0" "\<not> dbl_isnan 0" "dbl_isfinite 0"
  by (simp_all add: dbl_scaled_def dbl_mag_def dbl_exp_def dbl_frac_def dbl_isnan_def dbl_isfinite_def)

lemma dbl_of_int_0: "dbl_of_int 0 = 0"
  using dbl_encode_mag [of 0]
  by (simp add: dbl_zero_fields dbl_of_int_def dbl_of_ratio_def dbl_mag_def dbl_exp_def dbl_frac_def dbl_neg_def)

text \<open>Boxing keeps every number except the negative zero, which becomes the positive one.\<close>

lemma value_from_number:
  "jayess_value_from_number x = VNumber (if dbl_eq x 0 then 0 else x)"
proof (cases "find (\<lambda>c. dbl_eq x c) singleton_numbers")
  case None
  then have "\<not> dbl_eq x (dbl_of_int 0)" 
    using find_None_iff [of "\<lambda>c. dbl_eq x c" singleton_numbers] by (auto simp: singleton_numbers_def)
  with None show ?thesis
    by (simp add: jayess_value_from_number_def jayess_number_singleton_def dbl_of_int_0)
next
  case (Some c)
  then have "c \<in> set singleton_numbers" and eq: "dbl_eq x c" by (auto simp: find_Some_iff)
  then obtain i where c: "c = dbl_of_int i" and i: "\<bar>i\<bar> < 2 ^ 53"
    by (auto simp: singleton_numbers_def)
  have box: "jayess_value_from_number x = VNumber c"
    using Some by (simp add: jayess_value_from_number_def jayess_number_singleton_def)
  show ?thesis
  proof (cases "i = 0")
    case True
    with box eq c show ?thesis by (simp add: dbl_of_int_0)
  next
    case False
    then have nz: "dbl_scaled c \<noteq> 0" using c i by (simp add: dbl_scaled_of_int)
    with eq have "x = c" by (rule dbl_eq_nonzero)
    moreover have "\<not> dbl_eq c 0" using nz by (simp add: dbl_eq_def dbl_zero_fields)
    ultimately show ?thesis using box by simp
  qed
qed

lemma fmod_int_mod: "0 < b \<Longrightarrow> (if fmod_int a b < 0 then fmod_int a b + b else fmod_int a b) = a mod b"
proof -
  assume b: "0 < b"
  have m: "0 \<le> \<bar>a\<bar> mod b" "\<bar>a\<bar> mod b < b" using b by simp_all
  consider "a = 0" | "0 < a" | "a < 0" by linarith
  then show ?thesis
  proof cases
    case 3
    then have "a mod b = (if - a mod b = 0 then 0 else b - - a mod b)"
      using zmod_zminus1_eq_if [of "- a" b] by simp
    moreover have "0 \<le> - a mod b" using b by simp
    ultimately show ?thesis using 3 by (auto simp: fmod_int_def)
  qed (use m in \<open>simp_all add: fmod_int_def\<close>)
qed

text \<open>The unsigned and the signed reading of a number are its integer part modulo \<open>2 ^ 32\<close>.\<close>

lemma dbl_scaled_0_iff: "dbl_scaled x = 0 \<longleftrightarrow> dbl_mag x = 0"
  by (simp add: dbl_scaled_def)

lemma number_to_uint32:
  assumes "dbl_isfinite x"
  shows "jayess_number_to_uint32 x = word_of_int (dbl_trunc x)"
proof (cases "dbl_eq x 0")
  case True
  then have "dbl_mag x = 0" by (simp add: dbl_eq_def dbl_zero_fields dbl_scaled_0_iff)
  with True show ?thesis by (simp add: jayess_number_to_uint32_def dbl_trunc_def)
next
  case False
  have "(word_of_int (dbl_trunc x mod 2 ^ LENGTH(32)) :: u32) = word_of_int (dbl_trunc x)"
    by (simp only: word_of_int_2p [symmetric] uint_word_of_int [symmetric] word_of_int_uint)
  with False assms fmod_int_mod [of 4294967296 "dbl_trunc x"] show ?thesis
    by (simp add: jayess_number_to_uint32_def Let_def)
qed

lemma number_to_int32:
  assumes "dbl_isfinite x"
  shows "jayess_number_to_int32 x = sint (word_of_int (dbl_trunc x) :: u32)"
proof -
  define u where "u = uint (word_of_int (dbl_trunc x) :: u32)"
  have u: "0 \<le> u" "u < 2 ^ 32" using uint_bounded [of "word_of_int (dbl_trunc x) :: u32"] by (simp_all add: u_def)
  have "sint (word_of_int (dbl_trunc x) :: u32) = signed_take_bit 31 u"
    by (simp add: u_def sint_uint)
  also have "\<dots> = (if 2147483648 \<le> u then u - 4294967296 else u)"
    using u by (auto simp: signed_take_bit_eq_take_bit_minus take_bit_eq_mod bit_iff_odd mod_pos_pos_trivial
        div_pos_geq div_pos_pos_trivial)
  finally show ?thesis
    using number_to_uint32 [OF assms] by (simp add: jayess_number_to_int32_def Let_def u_def)
qed

end
