(* ===== verification/Key_Store.thy ===== *)
theory Key_Store
  imports Prelude
begin

text \<open>
  The contract of the keyed stores of the runtime: object properties, Map and Set. A store keeps
  at most one binding per key; keys are compared by a relation \<open>same\<close> of the store's own, on the
  keys it accepts. The locales prove what clients of a store rely on, once for all of them: the
  effect of a series of updates, and the order in which the keys are listed.
\<close>

section \<open>Lookup, update and delete\<close>

locale key_store =
  fixes lookup :: "'s \<Rightarrow> 'k \<Rightarrow> 'v option"
    and update :: "'s \<Rightarrow> 'k \<Rightarrow> 'v \<Rightarrow> 's"
    and delete :: "'s \<Rightarrow> 'k \<Rightarrow> 's"
    and same :: "'k \<Rightarrow> 'k \<Rightarrow> bool"
    and key_ok :: "'k \<Rightarrow> bool"
    and inv :: "'s \<Rightarrow> bool"
  assumes same_refl: "key_ok k \<Longrightarrow> same k k"
    and same_sym: "key_ok j \<Longrightarrow> key_ok k \<Longrightarrow> same j k \<Longrightarrow> same k j"
    and same_trans: "key_ok i \<Longrightarrow> key_ok j \<Longrightarrow> key_ok k \<Longrightarrow> same i j \<Longrightarrow> same j k \<Longrightarrow> same i k"
    and inv_update: "inv s \<Longrightarrow> key_ok k \<Longrightarrow> inv (update s k v)"
    and inv_delete: "inv s \<Longrightarrow> key_ok k \<Longrightarrow> inv (delete s k)"
    and lookup_update: "inv s \<Longrightarrow> key_ok k \<Longrightarrow> key_ok j \<Longrightarrow>
          lookup (update s k v) j = (if same j k then Some v else lookup s j)"
    and lookup_delete: "inv s \<Longrightarrow> key_ok k \<Longrightarrow> key_ok j \<Longrightarrow>
          lookup (delete s k) j = (if same j k then None else lookup s j)"
begin

text \<open>Two stores are alike when every key finds the same value.\<close>

definition alike :: "'s \<Rightarrow> 's \<Rightarrow> bool" where
  "alike s t \<longleftrightarrow> (\<forall>j. key_ok j \<longrightarrow> lookup s j = lookup t j)"

lemma update_overwrites:
  assumes "inv s" and "key_ok j" and "key_ok k" and "same j k"
  shows "alike (update (update s j v) k w) (update s k w)"
proof -
  have "same i k" if "key_ok i" and "same i j" for i
    using same_trans [OF that(1) assms(2,3) that(2) assms(4)] .
  with assms show ?thesis by (auto simp: alike_def lookup_update inv_update)
qed

lemma update_commutes:
  assumes "inv s" and "key_ok j" and "key_ok k" and "\<not> same j k"
  shows "alike (update (update s j v) k w) (update (update s k w) j v)"
proof -
  have "\<not> (same i j \<and> same i k)" if "key_ok i" for i
    using assms that same_sym same_trans by metis
  with assms show ?thesis by (auto simp: alike_def lookup_update inv_update)
qed

lemma delete_undoes_update:
  assumes "inv s" and "key_ok k" and "lookup s k = None" and "\<And>i. key_ok i \<Longrightarrow> same i k \<Longrightarrow> lookup s i = lookup s k"
  shows "alike (delete (update s k v) k) s"
  using assms by (simp add: alike_def lookup_update lookup_delete inv_update)

text \<open>A series of updates, and the binding the series leaves for a key.\<close>

definition updates :: "'s \<Rightarrow> ('k \<times> 'v) list \<Rightarrow> 's" where
  "updates s kvs = foldl (\<lambda>t (k, v). update t k v) s kvs"

fun last_binding :: "('k \<times> 'v) list \<Rightarrow> 'k \<Rightarrow> 'v option" where
  "last_binding [] j = None"
| "last_binding ((k, v) # kvs) j =
     (case last_binding kvs j of Some w \<Rightarrow> Some w | None \<Rightarrow> if same j k then Some v else None)"

lemma updates_simps [simp]:
  "updates s [] = s" "updates s ((k, v) # kvs) = updates (update s k v) kvs"
  by (simp_all add: updates_def)

lemma updates_append: "updates s (xs @ ys) = updates (updates s xs) ys"
  by (simp add: updates_def)

lemma inv_updates: "inv s \<Longrightarrow> list_all (\<lambda>kv. key_ok (fst kv)) kvs \<Longrightarrow> inv (updates s kvs)"
  by (induction kvs arbitrary: s) (auto simp: inv_update)

lemma lookup_updates:
  "inv s \<Longrightarrow> list_all (\<lambda>kv. key_ok (fst kv)) kvs \<Longrightarrow> key_ok j \<Longrightarrow>
   lookup (updates s kvs) j = (case last_binding kvs j of Some v \<Rightarrow> Some v | None \<Rightarrow> lookup s j)"
proof (induction kvs arbitrary: s)
  case (Cons kv kvs)
  then show ?case by (cases kv) (auto simp: inv_update lookup_update split: option.splits)
qed simp

end

section \<open>Listing the keys in order of insertion\<close>

locale ordered_store = key_store lookup update delete same key_ok inv
  for lookup :: "'s \<Rightarrow> 'k \<Rightarrow> 'v option" and update :: "'s \<Rightarrow> 'k \<Rightarrow> 'v \<Rightarrow> 's"
    and delete :: "'s \<Rightarrow> 'k \<Rightarrow> 's" and same :: "'k \<Rightarrow> 'k \<Rightarrow> bool"
    and key_ok :: "'k \<Rightarrow> bool" and inv :: "'s \<Rightarrow> bool" +
  fixes keys :: "'s \<Rightarrow> 'k list"
  assumes keys_ok: "inv s \<Longrightarrow> list_all key_ok (keys s)"
    and keys_lookup: "inv s \<Longrightarrow> key_ok k \<Longrightarrow> lookup s k \<noteq> None \<longleftrightarrow> (\<exists>j \<in> set (keys s). same j k)"
    and keys_update: "inv s \<Longrightarrow> key_ok k \<Longrightarrow>
          keys (update s k v) = (if \<exists>j \<in> set (keys s). same j k then keys s else keys s @ [k])"
begin

text \<open>The keys of a series of updates: the old ones, then the new ones at their first use.\<close>

definition insert_key :: "'k list \<Rightarrow> 'k \<Rightarrow> 'k list" where
  "insert_key ks k = (if \<exists>j \<in> set ks. same j k then ks else ks @ [k])"

lemma keys_updates:
  "inv s \<Longrightarrow> list_all (\<lambda>kv. key_ok (fst kv)) kvs \<Longrightarrow> keys (updates s kvs) = foldl insert_key (keys s) (map fst kvs)"
proof (induction kvs arbitrary: s)
  case (Cons kv kvs)
  then show ?case by (cases kv) (simp add: inv_update keys_update insert_key_def)
qed simp

text \<open>Updating keys that are all there already lists them as before.\<close>

lemma keys_updates_old:
  "inv s \<Longrightarrow> list_all (\<lambda>kv. key_ok (fst kv)) kvs \<Longrightarrow> (\<And>k. k \<in> set (map fst kvs) \<Longrightarrow> lookup s k \<noteq> None)
   \<Longrightarrow> keys (updates s kvs) = keys s"
proof (induction kvs arbitrary: s)
  case (Cons kv kvs)
  obtain k v where kv: "kv = (k, v)" by fastforce
  with Cons.prems have ok: "key_ok k" "list_all (\<lambda>kv. key_ok (fst kv)) kvs" and k: "lookup s k \<noteq> None" by auto
  then have keys: "keys (update s k v) = keys s"
    using Cons.prems(1) keys_update keys_lookup [OF Cons.prems(1) ok(1)] by simp
  have "lookup (update s k v) j \<noteq> None" if j: "j \<in> set (map fst kvs)" for j
  proof -
    have "key_ok j" using j ok(2) by (auto simp: list_all_iff)
    moreover have "lookup s j \<noteq> None" using j Cons.prems(3) kv by simp
    ultimately show ?thesis using Cons.prems(1) ok(1) by (simp add: lookup_update)
  qed
  with Cons.IH [of "update s k v"] Cons.prems(1) ok keys kv show ?case by (simp add: inv_update)
qed simp

end

end
