(* ===== verification/Collections.thy ===== *)
theory Collections
  imports Values Key_Store
begin

text \<open>
  Objects and arrays, \<open>jayess_runtime_collections.c\<close>. An object is the list of its entries from
  \<open>head\<close> to \<open>tail\<close>, in the order of insertion (the pointer structure of that list is the subject of
  theory Object_Links); an array is the list of its slots, of which some may be NULL. The counters
  of \<open>jayess_runtime_accounting\<close> the operations touch are threaded through.
\<close>

section \<open>Data\<close>

text \<open>
  An entry has a text key, or no text and a symbol box as key.
\<close>

record jayess_object_entry =
  entry_key :: "string option"
  entry_key_value :: "jayess_value option"
  entry_value :: "jayess_value option"

type_synonym jayess_entries = "jayess_object_entry list"
type_synonym jayess_slots = "jayess_value option list"

record jayess_runtime_accounting =
  boxed_values :: nat
  objects_count :: nat
  object_entries :: nat
  arrays_count :: nat
  array_slots :: nat

section \<open>Entries\<close>

definition jayess_object_entry_is_symbol :: "jayess_object_entry \<Rightarrow> bool" where
  "jayess_object_entry_is_symbol e \<longleftrightarrow>
     entry_key e = None \<and> (case entry_key_value e of Some (VSymbol _ _) \<Rightarrow> True | _ \<Rightarrow> False)"

definition jayess_object_entry_matches_string :: "jayess_object_entry \<Rightarrow> string \<Rightarrow> bool" where
  "jayess_object_entry_matches_string e key \<longleftrightarrow> entry_key e = Some key"

fun jayess_object_entry_matches_value :: "jayess_object_entry \<Rightarrow> jayess_value \<Rightarrow> bool" where
  "jayess_object_entry_matches_value e (VString key) = jayess_object_entry_matches_string e key"
| "jayess_object_entry_matches_value e (VSymbol i d) =
     (jayess_object_entry_is_symbol e \<and>
      jayess_value_eq (\<lambda>_ _. False) (entry_key_value e) (Some (VSymbol i d)))"
| "jayess_object_entry_matches_value e _ = False"

definition is_property_key :: "jayess_value \<Rightarrow> bool" where
  "is_property_key k \<longleftrightarrow> value_kind k = KString \<or> value_kind k = KSymbol"

fun jayess_object_find_value :: "jayess_entries \<Rightarrow> jayess_value \<Rightarrow> jayess_object_entry option" where
  "jayess_object_find_value [] key = None"
| "jayess_object_find_value (e # es) key =
     (if jayess_object_entry_matches_value e key then Some e else jayess_object_find_value es key)"

definition jayess_object_get_key_value :: "jayess_entries \<Rightarrow> jayess_value \<Rightarrow> jayess_value option" where
  "jayess_object_get_key_value es key =
     (case jayess_object_find_value es key of None \<Rightarrow> None | Some e \<Rightarrow> entry_value e)"

text \<open>The new entry \<open>jayess_object_set_key_value\<close> appends.\<close>

definition new_entry :: "jayess_value \<Rightarrow> jayess_value \<Rightarrow> jayess_object_entry" where
  "new_entry key v =
     (case key of
        VString s \<Rightarrow> \<lparr>entry_key = Some s, entry_key_value = None, entry_value = Some v\<rparr>
      | _ \<Rightarrow> \<lparr>entry_key = None, entry_key_value = Some key, entry_value = Some v\<rparr>)"

text \<open>Store in the first matching entry, or append.\<close>

fun set_entry :: "jayess_entries \<Rightarrow> jayess_value \<Rightarrow> jayess_value \<Rightarrow> jayess_entries" where
  "set_entry [] key v = [new_entry key v]"
| "set_entry (e # es) key v =
     (if jayess_object_entry_matches_value e key then e\<lparr>entry_value := Some v\<rparr> # es
      else e # set_entry es key v)"

definition jayess_object_set_key_value ::
  "jayess_runtime_accounting \<Rightarrow> jayess_entries \<Rightarrow> jayess_value \<Rightarrow> jayess_value option
   \<Rightarrow> jayess_runtime_accounting \<times> jayess_entries" where
  "jayess_object_set_key_value acc es key v =
     (case v of
        None \<Rightarrow> (acc, es)
      | Some v \<Rightarrow>
          if \<not> is_property_key key then (acc, es)
          else ((if jayess_object_find_value es key = None
                 then acc\<lparr>object_entries := object_entries acc + 1\<rparr> else acc),
                set_entry es key v))"

fun delete_entry :: "jayess_entries \<Rightarrow> jayess_value \<Rightarrow> jayess_entries" where
  "delete_entry [] key = []"
| "delete_entry (e # es) key =
     (if jayess_object_entry_matches_value e key then es else e # delete_entry es key)"

definition jayess_object_delete_key_value ::
  "jayess_runtime_accounting \<Rightarrow> jayess_entries \<Rightarrow> jayess_value \<Rightarrow> jayess_runtime_accounting \<times> jayess_entries" where
  "jayess_object_delete_key_value acc es key =
     (if jayess_object_find_value es key = None then (acc, es)
      else (acc\<lparr>object_entries := object_entries acc - 1\<rparr>, delete_entry es key))"

text \<open>The same with a text as key.\<close>

definition jayess_object_get :: "jayess_entries \<Rightarrow> string \<Rightarrow> jayess_value option" where
  "jayess_object_get es key = jayess_object_get_key_value es (VString key)"

definition jayess_object_set_value ::
  "jayess_runtime_accounting \<Rightarrow> jayess_entries \<Rightarrow> string \<Rightarrow> jayess_value option
   \<Rightarrow> jayess_runtime_accounting \<times> jayess_entries" where
  "jayess_object_set_value acc es key v = jayess_object_set_key_value acc es (VString key) v"

definition jayess_object_delete ::
  "jayess_runtime_accounting \<Rightarrow> jayess_entries \<Rightarrow> string \<Rightarrow> jayess_runtime_accounting \<times> jayess_entries" where
  "jayess_object_delete acc es key = jayess_object_delete_key_value acc es (VString key)"

text \<open>
  The text keys that are listed. The comparison takes ten characters of the nine-character prefix,
  so that its terminator takes part.
\<close>

definition internal_prefix :: string where
  "internal_prefix = ''__jayess_''"

definition listed_key :: "string \<Rightarrow> bool" where
  "listed_key key \<longleftrightarrow> \<not> strncmp_eq key internal_prefix 10"

definition jayess_object_keys :: "jayess_entries \<Rightarrow> string list" where
  "jayess_object_keys es = filter listed_key (List.map_filter entry_key es)"

section \<open>Arrays\<close>

definition jayess_array_get :: "jayess_slots \<Rightarrow> int \<Rightarrow> jayess_value option" where
  "jayess_array_get vs index =
     (if index < 0 \<or> int (length vs) \<le> index then None else vs ! nat index)"

text \<open>Whether the slot exists now, and the slots, grown with NULL up to \<open>index\<close>.\<close>

definition jayess_array_ensure ::
  "jayess_runtime_accounting \<Rightarrow> jayess_slots \<Rightarrow> int \<Rightarrow> bool \<times> jayess_runtime_accounting \<times> jayess_slots" where
  "jayess_array_ensure acc vs index =
     (if index < 0 then (False, acc, vs)
      else if index < int (length vs) then (True, acc, vs)
      else (True, acc\<lparr>array_slots := array_slots acc + (nat index + 1 - length vs)\<rparr>,
            vs @ replicate (nat index + 1 - length vs) None))"

definition jayess_array_set_value ::
  "jayess_runtime_accounting \<Rightarrow> jayess_slots \<Rightarrow> int \<Rightarrow> jayess_value option
   \<Rightarrow> jayess_runtime_accounting \<times> jayess_slots" where
  "jayess_array_set_value acc vs index v =
     (let (ok, acc', vs') = jayess_array_ensure acc vs index
      in if ok then (acc', vs'[nat index := v]) else (acc', vs'))"

definition jayess_array_push_value ::
  "jayess_runtime_accounting \<Rightarrow> jayess_slots \<Rightarrow> jayess_value option
   \<Rightarrow> jayess_runtime_accounting \<times> jayess_slots \<times> nat" where
  "jayess_array_push_value acc vs v =
     (let (acc', vs') = jayess_array_set_value acc vs (int (length vs)) v in (acc', vs', length vs'))"

text \<open>The shift of the slots above \<open>index\<close> down by one, and the shorter array.\<close>

fun remove_loop :: "jayess_slots \<Rightarrow> nat \<Rightarrow> nat \<Rightarrow> jayess_slots" where
  "remove_loop vs i 0 = vs"
| "remove_loop vs i (Suc n) = remove_loop (vs[i - 1 := vs ! i]) (Suc i) n"

definition jayess_array_remove_slot_preserving_alias ::
  "jayess_runtime_accounting \<Rightarrow> jayess_slots \<Rightarrow> nat \<Rightarrow> jayess_runtime_accounting \<times> jayess_slots" where
  "jayess_array_remove_slot_preserving_alias acc vs index =
     (if length vs \<le> index then (acc, vs)
      else (acc\<lparr>array_slots := array_slots acc - 1\<rparr>,
            take (length vs - 1) (remove_loop vs (index + 1) (length vs - (index + 1)))))"

definition value_or_undefined :: "jayess_value option \<Rightarrow> jayess_value" where
  "value_or_undefined v = (case v of None \<Rightarrow> VUndefined | Some w \<Rightarrow> w)"

definition jayess_array_pop_value ::
  "jayess_runtime_accounting \<Rightarrow> jayess_slots \<Rightarrow> jayess_runtime_accounting \<times> jayess_slots \<times> jayess_value" where
  "jayess_array_pop_value acc vs =
     (if vs = [] then (acc, vs, VUndefined)
      else (let (acc', vs') = jayess_array_remove_slot_preserving_alias acc vs (length vs - 1)
            in (acc', vs', value_or_undefined (vs ! (length vs - 1)))))"

definition jayess_array_shift_value ::
  "jayess_runtime_accounting \<Rightarrow> jayess_slots \<Rightarrow> jayess_runtime_accounting \<times> jayess_slots \<times> jayess_value" where
  "jayess_array_shift_value acc vs =
     (if vs = [] then (acc, vs, VUndefined)
      else (let (acc', vs') = jayess_array_remove_slot_preserving_alias acc vs 0
            in (acc', vs', value_or_undefined (vs ! 0))))"

text \<open>
  \<open>unshift\<close> makes room, moves every slot up from the last one down, and stores in slot 0. It does
  not count the new slot.
\<close>

fun unshift_loop :: "jayess_slots \<Rightarrow> nat \<Rightarrow> jayess_slots" where
  "unshift_loop vs 0 = vs"
| "unshift_loop vs (Suc i) = unshift_loop (vs[Suc i := vs ! i]) i"

definition jayess_array_unshift_value ::
  "jayess_runtime_accounting \<Rightarrow> jayess_slots \<Rightarrow> jayess_value option
   \<Rightarrow> jayess_runtime_accounting \<times> jayess_slots \<times> nat" where
  "jayess_array_unshift_value acc vs v =
     (let vs' = (unshift_loop (vs @ [None]) (length vs))[0 := v] in (acc, vs', length vs'))"

fun append_loop ::
  "jayess_runtime_accounting \<Rightarrow> jayess_slots \<Rightarrow> jayess_slots \<Rightarrow> jayess_runtime_accounting \<times> jayess_slots" where
  "append_loop acc vs [] = (acc, vs)"
| "append_loop acc vs (w # ws) =
     (let (acc', vs') = jayess_array_set_value acc vs (int (length vs)) w in append_loop acc' vs' ws)"

definition jayess_array_append_array ::
  "jayess_runtime_accounting \<Rightarrow> jayess_slots \<Rightarrow> jayess_slots \<Rightarrow> jayess_runtime_accounting \<times> jayess_slots" where
  "jayess_array_append_array acc vs other = append_loop acc vs other"

definition jayess_array_slice_values ::
  "jayess_runtime_accounting \<Rightarrow> jayess_slots \<Rightarrow> int \<Rightarrow> int \<Rightarrow> bool \<Rightarrow> jayess_runtime_accounting \<times> jayess_slots" where
  "jayess_array_slice_values acc vs start finish has_end =
     (let begin0 = (if start < 0 then 0 else start);
          finish0 = (if has_end then finish else int (length vs));
          finish1 = (if int (length vs) < finish0 then int (length vs) else finish0);
          begin1 = (if finish1 < begin0 then finish1 else begin0)
      in append_loop (acc\<lparr>arrays_count := arrays_count acc + 1\<rparr>) []
           (map (\<lambda>i. vs ! nat i) [begin1..finish1 - 1]))"

section \<open>Objects as keyed stores\<close>

text \<open>What identifies a key: its text, or its symbol number.\<close>

fun key_id :: "jayess_value \<Rightarrow> (string + nat) option" where
  "key_id (VString s) = Some (Inl s)"
| "key_id (VSymbol i _) = Some (Inr i)"
| "key_id _ = None"

definition entry_id :: "jayess_object_entry \<Rightarrow> (string + nat) option" where
  "entry_id e = (case entry_key e of Some s \<Rightarrow> Some (Inl s)
     | None \<Rightarrow> (case entry_key_value e of Some k \<Rightarrow> (case k of VSymbol i _ \<Rightarrow> Some (Inr i) | _ \<Rightarrow> None)
                                       | None \<Rightarrow> None))"

text \<open>The key under which an entry was stored.\<close>

definition key_of :: "jayess_object_entry \<Rightarrow> jayess_value" where
  "key_of e = (case entry_key e of Some s \<Rightarrow> VString s | None \<Rightarrow> the (entry_key_value e))"

definition same_key :: "jayess_value \<Rightarrow> jayess_value \<Rightarrow> bool" where
  "same_key j k \<longleftrightarrow> key_id j = key_id k"

text \<open>Every entry has a key and a value, and no two have the same key.\<close>

definition wf_entries :: "jayess_entries \<Rightarrow> bool" where
  "wf_entries es \<longleftrightarrow>
     list_all (\<lambda>e. entry_id e \<noteq> None \<and> entry_value e \<noteq> None) es \<and> distinct (map entry_id es)"

lemma wf_entries_Nil [simp]: "wf_entries []"
  by (simp add: wf_entries_def)

lemma wf_entries_Cons:
  "wf_entries (e # es) \<longleftrightarrow> entry_id e \<noteq> None \<and> entry_value e \<noteq> None \<and> entry_id e \<notin> entry_id ` set es \<and> wf_entries es"
  by (auto simp: wf_entries_def)

lemma is_property_key_iff: "is_property_key k \<longleftrightarrow> key_id k \<noteq> None"
  by (cases k) (simp_all add: is_property_key_def)

lemma matches_value_iff:
  "is_property_key k \<Longrightarrow> jayess_object_entry_matches_value e k \<longleftrightarrow> entry_id e = key_id k"
  by (cases k; cases "entry_key e"; cases "entry_key_value e")
    (auto simp: is_property_key_def jayess_object_entry_matches_string_def
      jayess_object_entry_is_symbol_def jayess_value_eq_def entry_id_def split: jayess_value.splits)

lemma entry_id_new_entry: "is_property_key k \<Longrightarrow> entry_id (new_entry k v) = key_id k"
  by (cases k) (simp_all add: is_property_key_def new_entry_def entry_id_def)

lemma key_of_new_entry: "is_property_key k \<Longrightarrow> key_of (new_entry k v) = k"
  by (cases k) (simp_all add: is_property_key_def new_entry_def key_of_def)

lemma entry_value_new_entry [simp]: "entry_value (new_entry k v) = Some v"
  by (simp add: new_entry_def split: jayess_value.split)

lemma entry_id_set_value [simp]: "entry_id (e\<lparr>entry_value := v\<rparr>) = entry_id e"
  by (simp add: entry_id_def split: option.split)

lemma key_of_set_value [simp]: "key_of (e\<lparr>entry_value := v\<rparr>) = key_of e"
  by (simp add: key_of_def split: option.split)

lemma key_id_key_of: "entry_id e \<noteq> None \<Longrightarrow> key_id (key_of e) = entry_id e"
  by (auto simp: entry_id_def key_of_def split: option.splits jayess_value.splits)

lemma entry_ids_set_entry:
  "is_property_key k \<Longrightarrow> entry_id ` set (set_entry es k v) = insert (key_id k) (entry_id ` set es)"
  by (induction es) (auto simp: matches_value_iff entry_id_new_entry)

lemma wf_set_entry: "wf_entries es \<Longrightarrow> is_property_key k \<Longrightarrow> wf_entries (set_entry es k v)"
proof (induction es)
  case Nil
  then show ?case by (simp add: wf_entries_Cons entry_id_new_entry is_property_key_iff)
next
  case (Cons e es)
  then show ?case by (auto simp: wf_entries_Cons matches_value_iff entry_ids_set_entry image_iff)
qed

lemma entry_ids_delete_entry:
  "wf_entries es \<Longrightarrow> is_property_key k \<Longrightarrow> entry_id ` set (delete_entry es k) = entry_id ` set es - {key_id k}"
  by (induction es) (simp_all add: wf_entries_Cons matches_value_iff insert_Diff_if del: not_None_eq,
      metis Diff_empty Diff_insert0)

lemma wf_delete_entry: "wf_entries es \<Longrightarrow> is_property_key k \<Longrightarrow> wf_entries (delete_entry es k)"
  by (induction es) (auto simp: wf_entries_Cons matches_value_iff entry_ids_delete_entry)

lemma find_value_None:
  "is_property_key k \<Longrightarrow> jayess_object_find_value es k = None \<longleftrightarrow> key_id k \<notin> entry_id ` set es"
  by (induction es) (auto simp: matches_value_iff)

lemma get_Cons:
  "is_property_key k \<Longrightarrow> jayess_object_get_key_value (e # es) k
   = (if entry_id e = key_id k then entry_value e else jayess_object_get_key_value es k)"
  by (simp add: jayess_object_get_key_value_def matches_value_iff)

lemma get_set_entry:
  "is_property_key k \<Longrightarrow> is_property_key j \<Longrightarrow> jayess_object_get_key_value (set_entry es k v) j
   = (if same_key j k then Some v else jayess_object_get_key_value es j)"
proof (induction es)
  case Nil
  then show ?case
    by (simp add: get_Cons entry_id_new_entry same_key_def)
next
  case (Cons e es)
  then show ?case by (auto simp: get_Cons matches_value_iff same_key_def)
qed

lemma get_not_there:
  "is_property_key k \<Longrightarrow> key_id k \<notin> entry_id ` set es \<Longrightarrow> jayess_object_get_key_value es k = None"
  by (simp add: jayess_object_get_key_value_def find_value_None [symmetric])

lemma get_delete_entry:
  "wf_entries es \<Longrightarrow> is_property_key k \<Longrightarrow> is_property_key j \<Longrightarrow>
   jayess_object_get_key_value (delete_entry es k) j
   = (if same_key j k then None else jayess_object_get_key_value es j)"
proof (induction es)
  case Nil
  then show ?case by (simp add: jayess_object_get_key_value_def)
next
  case (Cons e es)
  then show ?case
    by (auto simp: get_Cons matches_value_iff same_key_def wf_entries_Cons get_not_there)
qed

text \<open>The operations of the runtime on the entries alone, whatever the counters are.\<close>

lemma set_key_value_entries:
  "is_property_key k \<Longrightarrow> snd (jayess_object_set_key_value acc es k (Some v)) = set_entry es k v"
  by (simp add: jayess_object_set_key_value_def)

lemma delete_entry_absent: "jayess_object_find_value es k = None \<Longrightarrow> delete_entry es k = es"
  by (induction es) (auto split: if_splits)

lemma delete_key_value_entries:
  "snd (jayess_object_delete_key_value acc es k) = delete_entry es k"
  by (simp add: jayess_object_delete_key_value_def delete_entry_absent)

lemma get_there:
  "wf_entries es \<Longrightarrow> is_property_key k \<Longrightarrow>
   jayess_object_get_key_value es k \<noteq> None \<longleftrightarrow> key_id k \<in> entry_id ` set es"
proof (induction es)
  case Nil
  then show ?case by (simp add: jayess_object_get_key_value_def)
next
  case (Cons e es)
  then show ?case by (auto simp: get_Cons wf_entries_Cons)
qed

lemma same_key_keys:
  "wf_entries es \<Longrightarrow> (\<exists>e \<in> set es. same_key (key_of e) k) \<longleftrightarrow> key_id k \<in> entry_id ` set es"
  by (induction es) (auto simp: wf_entries_Cons same_key_def key_id_key_of)

lemma keys_set_entry:
  "wf_entries es \<Longrightarrow> is_property_key k \<Longrightarrow> map key_of (set_entry es k v)
   = (if key_id k \<in> entry_id ` set es then map key_of es else map key_of es @ [k])"
  by (induction es) (auto simp: matches_value_iff wf_entries_Cons key_of_new_entry)

interpretation obj: ordered_store jayess_object_get_key_value
  "\<lambda>es k v. snd (jayess_object_set_key_value acc es k (Some v))"
  "\<lambda>es k. snd (jayess_object_delete_key_value acc es k)" same_key is_property_key wf_entries
  "map key_of" for acc
proof unfold_locales
  fix es :: jayess_entries
  assume "wf_entries es"
  then show "list_all is_property_key (map key_of es)"
    by (auto simp: list_all_iff is_property_key_iff wf_entries_def key_id_key_of)
qed (simp_all add: set_key_value_entries delete_key_value_entries wf_set_entry wf_delete_entry
      get_set_entry get_delete_entry get_there same_key_keys keys_set_entry del: not_None_eq,
    simp_all add: same_key_def)

section \<open>What the array operations do to the slots\<close>

lemma remove_loop:
  "0 < i \<Longrightarrow> i + n = length vs \<Longrightarrow>
   take (length vs - 1) (remove_loop vs i n) = take (i - 1) vs @ drop i vs"
proof (induction n arbitrary: vs i)
  case (Suc n)
  let ?vs = "vs[i - 1 := vs ! i]"
  have "take (length ?vs - 1) (remove_loop ?vs (Suc i) n) = take (Suc i - 1) ?vs @ drop (Suc i) ?vs"
    using Suc.prems by (intro Suc.IH) simp_all
  moreover have "take i ?vs = take (i - 1) vs @ [vs ! i]"
    using Suc.prems take_Suc_conv_app_nth [of "i - 1" ?vs] by simp
  moreover have "drop i vs = vs ! i # drop (Suc i) vs"
    using Suc.prems by (intro Cons_nth_drop_Suc [symmetric]) simp
  ultimately show ?case using Suc.prems by simp
qed simp

lemma remove_slot:
  "index < length vs \<Longrightarrow>
   jayess_array_remove_slot_preserving_alias acc vs index
   = (acc\<lparr>array_slots := array_slots acc - 1\<rparr>, take index vs @ drop (Suc index) vs)"
  using remove_loop [of "index + 1" "length vs - (index + 1)" vs]
  by (simp add: jayess_array_remove_slot_preserving_alias_def)

lemma unshift_loop: "n < length us \<Longrightarrow> unshift_loop us n = take 1 us @ take n us @ drop (Suc n) us"
proof (induction n arbitrary: us)
  case 0
  then show ?case by (cases us) simp_all
next
  case (Suc i)
  let ?us = "us[Suc i := us ! i]"
  have "unshift_loop ?us i = take 1 ?us @ take i ?us @ drop (Suc i) ?us"
    using Suc.prems by (intro Suc.IH) simp
  moreover have "drop (Suc i) ?us = us ! i # drop (Suc (Suc i)) us"
    using Suc.prems Cons_nth_drop_Suc [of "Suc i" ?us] by simp
  ultimately show ?case using Suc.prems take_Suc_conv_app_nth [of i us] by simp
qed

lemma array_set_inside:
  "0 \<le> i \<Longrightarrow> i < int (length vs) \<Longrightarrow> jayess_array_set_value acc vs i v = (acc, vs[nat i := v])"
  by (simp add: jayess_array_set_value_def jayess_array_ensure_def)

lemma array_set_beyond:
  assumes "int (length vs) \<le> i"
  shows "jayess_array_set_value acc vs i v =
    (acc\<lparr>array_slots := array_slots acc + (nat i + 1 - length vs)\<rparr>,
     vs @ replicate (nat i - length vs) None @ [v])"
proof -
  let ?k = "nat i - length vs"
  have n: "nat i + 1 - length vs = Suc ?k" and i: "nat i = length vs + ?k" using assms by auto
  have "(vs @ replicate (Suc ?k) None)[length vs + ?k := v] = vs @ replicate ?k None @ [v]"
    by (simp add: replicate_append_same [symmetric] list_update_append del: replicate_append_same)
  with assms n i show ?thesis
    by (simp add: jayess_array_set_value_def jayess_array_ensure_def del: replicate_Suc)
qed

lemma array_get_set:
  assumes "0 \<le> i"
  shows "jayess_array_get (snd (jayess_array_set_value acc vs i v)) j
       = (if j = i then v else jayess_array_get vs j)"
proof (cases "i < int (length vs)")
  case True
  with assms show ?thesis by (auto simp: array_set_inside jayess_array_get_def nth_list_update nat_eq_iff2)
next
  case False
  then show ?thesis using assms
    by (auto simp: array_set_beyond jayess_array_get_def nth_append nth_Cons' nat_less_iff nat_eq_iff2)
qed

lemma array_push:
  "jayess_array_push_value acc vs v =
   (acc\<lparr>array_slots := array_slots acc + 1\<rparr>, vs @ [v], Suc (length vs))"
  by (simp add: jayess_array_push_value_def array_set_beyond)

lemma array_pop:
  "vs \<noteq> [] \<Longrightarrow> jayess_array_pop_value acc vs =
   (acc\<lparr>array_slots := array_slots acc - 1\<rparr>, butlast vs, value_or_undefined (last vs))"
  by (simp add: jayess_array_pop_value_def remove_slot butlast_conv_take last_conv_nth)

lemma array_shift:
  "vs \<noteq> [] \<Longrightarrow> jayess_array_shift_value acc vs =
   (acc\<lparr>array_slots := array_slots acc - 1\<rparr>, tl vs, value_or_undefined (hd vs))"
  by (simp add: jayess_array_shift_value_def remove_slot drop_Suc hd_conv_nth)

lemma array_unshift: "jayess_array_unshift_value acc vs v = (acc, v # vs, Suc (length vs))"
  using unshift_loop [of "length vs" "vs @ [None]"]
  by (cases vs) (simp_all add: jayess_array_unshift_value_def)

lemma append_loop:
  "append_loop acc vs ws = (acc\<lparr>array_slots := array_slots acc + length ws\<rparr>, vs @ ws)"
  by (induction ws arbitrary: acc vs) (simp_all add: array_set_beyond)

lemma map_nth_upto:
  "0 \<le> a \<Longrightarrow> b \<le> int (length vs) \<Longrightarrow> map (\<lambda>i. vs ! nat i) [a..b - 1] = drop (nat a) (take (nat b) vs)"
  by (rule nth_equalityI) (auto simp: nat_add_distrib)

lemma array_slice:
  "jayess_array_slice_values acc vs start finish has_end =
   (let e = (if has_end then min finish (int (length vs)) else int (length vs));
        out = drop (nat start) (take (nat e) vs)
    in (acc\<lparr>arrays_count := arrays_count acc + 1, array_slots := array_slots acc + length out\<rparr>, out))"
proof -
  define e where "e = (if has_end then min finish (int (length vs)) else int (length vs))"
  define b where "b = (if e < (if start < 0 then 0 else start) then e else (if start < 0 then 0 else start))"
  have out: "map (\<lambda>i. vs ! nat i) [b..e - 1] = drop (nat start) (take (nat e) vs)"
  proof (cases "e < (if start < 0 then 0 else start)")
    case True
    then show ?thesis by (auto simp: b_def split: if_splits)
  next
    case False
    then have "b = (if start < 0 then 0 else start)" by (simp add: b_def)
    moreover have "e \<le> int (length vs)" by (simp add: e_def)
    ultimately show ?thesis by (simp add: map_nth_upto)
  qed
  have "jayess_array_slice_values acc vs start finish has_end
      = append_loop (acc\<lparr>arrays_count := arrays_count acc + 1\<rparr>) [] (map (\<lambda>i. vs ! nat i) [b..e - 1])"
    by (simp add: jayess_array_slice_values_def Let_def b_def e_def min_def)
  then show ?thesis unfolding out by (simp add: append_loop Let_def e_def)
qed

end
