(* ===== verification/Object_Links.thy ===== *)
theory Object_Links
  imports Collections
begin

text \<open>
  The pointer structure behind an object: a singly linked list of heap cells with a pointer to its
  first and to its last cell (\<open>struct jayess_object\<close>, \<open>struct jayess_object_entry\<close>). The routines
  of \<open>jayess_runtime_collections.c\<close> are modelled on the cells here and shown to refine the list
  operations of theory Collections: every list walk ends, no freed or unallocated cell is read,
  and \<open>tail\<close> stays the last cell.
\<close>

section \<open>Cells and routines\<close>

record link =
  link_entry :: jayess_object_entry
  link_next :: "nat option"

record object_cells =
  cells :: "nat \<Rightarrow> link option"
  head :: "nat option"
  tail :: "nat option"

text \<open>
  Walking the list: \<open>None\<close> when the walk reads a cell that is not allocated or never ends,
  otherwise the cell found, if any.
\<close>

partial_function (option) find_link :: "(nat \<Rightarrow> link option) \<Rightarrow> nat option \<Rightarrow> jayess_value \<Rightarrow> nat option option" where
  "find_link h current key =
     (case current of
        None \<Rightarrow> Some None
      | Some a \<Rightarrow> (case h a of
            None \<Rightarrow> None
          | Some l \<Rightarrow> if jayess_object_entry_matches_value (link_entry l) key then Some (Some a)
                      else find_link h (link_next l) key))"

definition set_next :: "(nat \<Rightarrow> link option) \<Rightarrow> nat \<Rightarrow> nat option \<Rightarrow> (nat \<Rightarrow> link option)" where
  "set_next h a n = h(a := map_option (\<lambda>l. l\<lparr>link_next := n\<rparr>) (h a))"

definition set_link_value :: "(nat \<Rightarrow> link option) \<Rightarrow> nat \<Rightarrow> jayess_value \<Rightarrow> (nat \<Rightarrow> link option)" where
  "set_link_value h a v = h(a := map_option (\<lambda>l. l\<lparr>link_entry := (link_entry l)\<lparr>entry_value := Some v\<rparr>\<rparr>) (h a))"

text \<open>
  The new cell is put at the free address \<open>fresh\<close>. The guard of the code (a key that is no string and no symbol, or a null
  pointer, changes nothing) is left out here: the keys of the operations above are strings and symbols.
\<close>

definition link_set :: "nat \<Rightarrow> object_cells \<Rightarrow> jayess_value \<Rightarrow> jayess_value \<Rightarrow> object_cells option" where
  "link_set fresh obj key v =
     (case find_link (cells obj) (head obj) key of
        None \<Rightarrow> None
      | Some (Some a) \<Rightarrow> Some (obj\<lparr>cells := set_link_value (cells obj) a v\<rparr>)
      | Some None \<Rightarrow>
          (let h = (cells obj)(fresh \<mapsto> \<lparr>link_entry = new_entry key v, link_next = None\<rparr>)
           in Some (case tail obj of
                None \<Rightarrow> obj\<lparr>cells := h, head := Some fresh, tail := Some fresh\<rparr>
              | Some t \<Rightarrow> obj\<lparr>cells := set_next h t (Some fresh), tail := Some fresh\<rparr>)))"

definition remove_link :: "object_cells \<Rightarrow> nat option \<Rightarrow> nat \<Rightarrow> link \<Rightarrow> object_cells" where
  "remove_link obj previous current l =
     (let obj1 = (case previous of
            None \<Rightarrow> obj\<lparr>head := link_next l\<rparr>
          | Some p \<Rightarrow> obj\<lparr>cells := set_next (cells obj) p (link_next l)\<rparr>);
          obj2 = (if tail obj1 = Some current then obj1\<lparr>tail := previous\<rparr> else obj1)
      in obj2\<lparr>cells := (cells obj2)(current := None)\<rparr>)"

partial_function (option) delete_link ::
  "object_cells \<Rightarrow> nat option \<Rightarrow> nat option \<Rightarrow> jayess_value \<Rightarrow> object_cells option" where
  "delete_link obj previous current key =
     (case current of
        None \<Rightarrow> Some obj
      | Some a \<Rightarrow> (case cells obj a of
            None \<Rightarrow> None
          | Some l \<Rightarrow> if jayess_object_entry_matches_value (link_entry l) key
                      then Some (remove_link obj previous a l)
                      else delete_link obj (Some a) (link_next l) key))"

definition link_delete :: "object_cells \<Rightarrow> jayess_value \<Rightarrow> object_cells option" where
  "link_delete obj key = delete_link obj None (head obj) key"

definition link_get :: "object_cells \<Rightarrow> jayess_value \<Rightarrow> jayess_value option option" where
  "link_get obj key =
     map_option (\<lambda>r. Option.bind r (\<lambda>a. Option.bind (cells obj a) (\<lambda>l. entry_value (link_entry l))))
       (find_link (cells obj) (head obj) key)"

section \<open>Abstraction\<close>

text \<open>
  The cells \<open>as\<close> are chained from the pointer \<open>p\<close> up to the pointer \<open>q\<close>; \<open>q = None\<close> is the end of
  the list.
\<close>

fun chain :: "(nat \<Rightarrow> link option) \<Rightarrow> nat option \<Rightarrow> nat list \<Rightarrow> nat option \<Rightarrow> bool" where
  "chain h p [] q \<longleftrightarrow> p = q"
| "chain h p (a # as) q \<longleftrightarrow> p = Some a \<and> (\<exists>l. h a = Some l \<and> chain h (link_next l) as q)"

definition entries_of :: "(nat \<Rightarrow> link option) \<Rightarrow> nat list \<Rightarrow> jayess_entries" where
  "entries_of h as = map (\<lambda>a. link_entry (the (h a))) as"

definition last_cell :: "nat list \<Rightarrow> nat option" where
  "last_cell as = (if as = [] then None else Some (last as))"

definition represents :: "object_cells \<Rightarrow> nat list \<Rightarrow> jayess_entries \<Rightarrow> bool" where
  "represents obj as es \<longleftrightarrow> chain (cells obj) (head obj) as None \<and> distinct as
     \<and> tail obj = last_cell as \<and> es = entries_of (cells obj) as"

lemma chain_append: "chain h p (as @ bs) q \<longleftrightarrow> (\<exists>r. chain h p as r \<and> chain h r bs q)"
  by (induction as arbitrary: p) auto

lemma chain_upd: "a \<notin> set as \<Longrightarrow> chain (h(a := x)) p as q \<longleftrightarrow> chain h p as q"
  by (induction as arbitrary: p) auto

lemma entries_upd: "a \<notin> set as \<Longrightarrow> entries_of (h(a := x)) as = entries_of h as"
  by (auto simp: entries_of_def)

lemma chain_set_next: "a \<notin> set as \<Longrightarrow> chain (set_next h a n) p as q \<longleftrightarrow> chain h p as q"
  by (simp add: set_next_def chain_upd)

lemma entries_set_next: "entries_of (set_next h a n) as = entries_of h as"
  by (cases "h a") (auto simp: entries_of_def set_next_def)

lemma chain_allocated: "chain h p as q \<Longrightarrow> a \<in> set as \<Longrightarrow> h a \<noteq> None"
  by (induction as arbitrary: p) auto

lemma chain_snoc_set_next:
  assumes "chain h p (as @ [t]) q" and "distinct (as @ [t])"
  shows "chain (set_next h t n) p (as @ [t]) n"
  using assms by (auto simp: chain_append chain_set_next) (auto simp: set_next_def)

lemma chain_set_link_value: "chain (set_link_value h a v) p as q \<longleftrightarrow> chain h p as q"
  by (induction as arbitrary: p) (auto simp: set_link_value_def)

lemma entries_set_link_value:
  "distinct (as @ a # bs) \<Longrightarrow> h a \<noteq> None \<Longrightarrow> entries_of (set_link_value h a v) (as @ a # bs)
   = entries_of h as @ (link_entry (the (h a)))\<lparr>entry_value := Some v\<rparr> # entries_of h bs"
  by (auto simp: entries_of_def set_link_value_def)

lemmas entries_simps = entries_of_def [of _ "[]", simplified] entries_of_def [of _ "_ # _", simplified]

text \<open>A walk ends at the first matching cell, or after the last one.\<close>

lemma find_link_None:
  "chain h p as None \<Longrightarrow> jayess_object_find_value (entries_of h as) key = None \<Longrightarrow> find_link h p key = Some None"
proof (induction as arbitrary: p)
  case Nil
  then show ?case by (simp add: find_link.simps)
next
  case (Cons a as)
  then show ?case by (subst find_link.simps) (auto simp: entries_of_def split: if_splits)
qed

lemma find_link_Some:
  "chain h p as None \<Longrightarrow> jayess_object_find_value (entries_of h as) key = Some e \<Longrightarrow>
   \<exists>bs a cs. as = bs @ a # cs \<and> find_link h p key = Some (Some a) \<and> link_entry (the (h a)) = e
     \<and> jayess_object_entry_matches_value e key \<and> jayess_object_find_value (entries_of h bs) key = None"
proof (induction as arbitrary: p)
  case (Cons a as)
  then obtain l where p: "p = Some a" and l: "h a = Some l" and rest: "chain h (link_next l) as None" by auto
  show ?case
  proof (cases "jayess_object_entry_matches_value (link_entry l) key")
    case True
    then have "find_link h p key = Some (Some a)" by (subst find_link.simps) (simp add: p l)
    moreover have "link_entry l = e" using Cons.prems(2) True l by (simp add: entries_of_def)
    ultimately show ?thesis using True l by (intro exI [of _ "[]"]) (simp add: entries_of_def)
  next
    case False
    then have step: "find_link h p key = find_link h (link_next l) key"
      by (subst find_link.simps) (simp add: p l)
    have "jayess_object_find_value (entries_of h as) key = Some e"
      using Cons.prems(2) False l by (simp add: entries_of_def)
    from Cons.IH [OF rest this] obtain bs b cs where "as = bs @ b # cs"
      "find_link h (link_next l) key = Some (Some b)" "link_entry (the (h b)) = e"
      "jayess_object_entry_matches_value e key" "jayess_object_find_value (entries_of h bs) key = None"
      by blast
    then show ?thesis using False l step by (intro exI [of _ "a # bs"]) (simp add: entries_of_def)
  qed
qed (simp add: entries_of_def)

lemma set_entry_split:
  "jayess_object_find_value bs key = None \<Longrightarrow> jayess_object_entry_matches_value e key \<Longrightarrow>
   set_entry (bs @ e # cs) key v = bs @ e\<lparr>entry_value := Some v\<rparr> # cs"
  by (induction bs) (auto split: if_splits)

lemma set_entry_append:
  "jayess_object_find_value es key = None \<Longrightarrow> set_entry es key v = es @ [new_entry key v]"
  by (induction es) (auto split: if_splits)

lemma delete_entry_split:
  "jayess_object_find_value bs key = None \<Longrightarrow> jayess_object_entry_matches_value e key \<Longrightarrow>
   delete_entry (bs @ e # cs) key = bs @ cs"
  by (induction bs) (auto split: if_splits)

lemma find_value_append:
  "jayess_object_find_value es key = None \<Longrightarrow> jayess_object_find_value (es @ fs) key = jayess_object_find_value fs key"
  by (induction es) (auto split: if_splits)

lemma entries_of_append [simp]: "entries_of h (as @ bs) = entries_of h as @ entries_of h bs"
  by (simp add: entries_of_def)

lemma entries_of_Cons [simp]: "entries_of h (a # as) = link_entry (the (h a)) # entries_of h as"
  by (simp add: entries_of_def)

lemma entries_of_Nil [simp]: "entries_of h [] = []"
  by (simp add: entries_of_def)

section \<open>Refinement\<close>

lemma link_get_refines:
  assumes "represents obj as es"
  shows "link_get obj key = Some (jayess_object_get_key_value es key)"
proof -
  from assms have chain: "chain (cells obj) (head obj) as None" and es: "es = entries_of (cells obj) as"
    by (simp_all add: represents_def)
  show ?thesis
  proof (cases "jayess_object_find_value es key")
    case None
    then show ?thesis using find_link_None [OF chain] es
      by (simp add: link_get_def jayess_object_get_key_value_def)
  next
    case (Some e)
    then obtain bs a cs where "as = bs @ a # cs" and find: "find_link (cells obj) (head obj) key = Some (Some a)"
      and e: "link_entry (the (cells obj a)) = e"
      using find_link_Some [OF chain] es by blast
    then have "cells obj a \<noteq> None" using chain_allocated [OF chain] by simp
    then obtain l where "cells obj a = Some l" by blast
    then show ?thesis using find e Some by (simp add: link_get_def jayess_object_get_key_value_def)
  qed
qed

lemma link_set_refines:
  assumes "represents obj as es" and "cells obj fresh = None"
  shows "\<exists>obj' as'. link_set fresh obj key v = Some obj' \<and> represents obj' as' (set_entry es key v)"
proof -
  from assms have chain: "chain (cells obj) (head obj) as None" and dist: "distinct as"
    and tail: "tail obj = last_cell as" and es: "es = entries_of (cells obj) as"
    by (simp_all add: represents_def)
  show ?thesis
  proof (cases "jayess_object_find_value es key")
    case (Some e)
    then obtain bs a cs where as: "as = bs @ a # cs" and find: "find_link (cells obj) (head obj) key = Some (Some a)"
      and e: "link_entry (the (cells obj a)) = e" "jayess_object_entry_matches_value e key"
        "jayess_object_find_value (entries_of (cells obj) bs) key = None"
      using find_link_Some [OF chain] es by blast
    have alloc: "cells obj a \<noteq> None" using chain_allocated [OF chain] as by simp
    have "represents (obj\<lparr>cells := set_link_value (cells obj) a v\<rparr>) as (set_entry es key v)"
      using chain dist tail e alloc
      by (simp add: represents_def chain_set_link_value as entries_set_link_value es set_entry_split
          del: entries_of_append entries_of_Cons) (simp add: set_entry_split)
    with find show ?thesis by (simp add: link_set_def) blast
  next
    case None
    have find: "find_link (cells obj) (head obj) key = Some None"
      using find_link_None [OF chain] None es by simp
    have fresh: "fresh \<notin> set as" using chain_allocated [OF chain] assms(2) by blast
    let ?h = "(cells obj)(fresh \<mapsto> \<lparr>link_entry = new_entry key v, link_next = None\<rparr>)"
    have set: "set_entry es key v = es @ [new_entry key v]" by (rule set_entry_append [OF None])
    show ?thesis
    proof (cases as rule: rev_cases)
      case Nil
      then have "represents (obj\<lparr>cells := ?h, head := Some fresh, tail := Some fresh\<rparr>) [fresh] (es @ [new_entry key v])"
        by (simp add: represents_def last_cell_def es)
      with find Nil tail set show ?thesis by (simp add: link_set_def last_cell_def) blast
    next
      case (snoc bs t)
      then have t: "tail obj = Some t" using tail by (simp add: last_cell_def)
      have "chain ?h (head obj) (bs @ [t]) None" using chain fresh snoc by (simp add: chain_upd)
      then have "chain (set_next ?h t (Some fresh)) (head obj) (bs @ [t]) (Some fresh)"
        using dist snoc by (intro chain_snoc_set_next) auto
      moreover have "set_next ?h t (Some fresh) fresh = ?h fresh" using fresh snoc by (simp add: set_next_def)
      ultimately have "chain (set_next ?h t (Some fresh)) (head obj) ((bs @ [t]) @ [fresh]) None"
        unfolding chain_append by (intro exI [of _ "Some fresh"]) simp
      moreover have "entries_of (set_next ?h t (Some fresh)) (as @ [fresh]) = es @ [new_entry key v]"
        unfolding entries_set_next using fresh by (simp add: entries_upd es)
      ultimately have "represents (obj\<lparr>cells := set_next ?h t (Some fresh), tail := Some fresh\<rparr>)
          (as @ [fresh]) (es @ [new_entry key v])"
        using dist fresh snoc by (simp add: represents_def last_cell_def)
      with find t set show ?thesis by (simp add: link_set_def) blast
    qed
  qed
qed

text \<open>
  Deleting: the walk has passed the cells \<open>bs\<close> and is at the first of the cells \<open>cs\<close>.
\<close>

lemma remove_link_represents:
  assumes "chain (cells obj) (head obj) (bs @ a # cs) None" and "distinct (bs @ a # cs)"
    and "tail obj = last_cell (bs @ a # cs)" and "cells obj a = Some l"
  shows "represents (remove_link obj (last_cell bs) a l) (bs @ cs) (entries_of (cells obj) (bs @ cs))"
proof -
  from assms(1,4) have bs: "chain (cells obj) (head obj) bs (Some a)" and cs: "chain (cells obj) (link_next l) cs None"
    by (auto simp: chain_append)
  have a: "a \<notin> set bs" "a \<notin> set cs" using assms(2) by auto
  have tail: "tail obj = Some a \<longleftrightarrow> cs = []"
    using assms(2,3) by (auto simp: last_cell_def)
  show ?thesis
  proof (cases bs rule: rev_cases)
    case Nil
    with bs cs a tail assms(2,3) show ?thesis
      by (auto simp: represents_def remove_link_def last_cell_def Let_def chain_upd entries_upd)
  next
    case (snoc us p)
    have "chain (set_next (cells obj) p (link_next l)) (head obj) (us @ [p]) (link_next l)"
      using bs assms(2) snoc by (intro chain_snoc_set_next [of _ _ _ _ "Some a"]) auto
    moreover have "chain (set_next (cells obj) p (link_next l)) (link_next l) cs None"
      using cs assms(2) snoc by (subst chain_set_next) auto
    ultimately have "chain (set_next (cells obj) p (link_next l)) (head obj) (bs @ cs) None"
      unfolding chain_append snoc by blast
    moreover have "link_entry (the (set_next (cells obj) p (link_next l) p)) = link_entry (the (cells obj p))"
      using chain_allocated [OF bs, of p] snoc by (auto simp: set_next_def)
    ultimately show ?thesis using snoc a tail assms(2,3)
      by (auto simp: represents_def remove_link_def last_cell_def Let_def chain_upd entries_upd entries_set_next)
  qed
qed

lemma delete_link_refines:
  assumes "chain (cells obj) (head obj) (bs @ cs) None" and "distinct (bs @ cs)"
    and "tail obj = last_cell (bs @ cs)" and "chain (cells obj) p cs None"
    and "jayess_object_find_value (entries_of (cells obj) bs) key = None"
  shows "\<exists>obj' as'. delete_link obj (last_cell bs) p key = Some obj'
    \<and> represents obj' as' (delete_entry (entries_of (cells obj) (bs @ cs)) key)"
  using assms
proof (induction cs arbitrary: bs p)
  case Nil
  then have "delete_entry (entries_of (cells obj) bs) key = entries_of (cells obj) bs"
    by (simp add: delete_entry_absent)
  with Nil show ?case by (subst delete_link.simps) (auto simp: represents_def)
next
  case (Cons a cs)
  then obtain l where p: "p = Some a" and l: "cells obj a = Some l" and rest: "chain (cells obj) (link_next l) cs None"
    by auto
  show ?case
  proof (cases "jayess_object_entry_matches_value (link_entry l) key")
    case True
    have "delete_entry (entries_of (cells obj) (bs @ a # cs)) key = entries_of (cells obj) (bs @ cs)"
      using True l Cons.prems(5) by (simp add: delete_entry_split)
    moreover have "delete_link obj (last_cell bs) p key = Some (remove_link obj (last_cell bs) a l)"
      using True p l by (subst delete_link.simps) simp
    ultimately show ?thesis using remove_link_represents [OF Cons.prems(1-3) l] by auto
  next
    case False
    have "delete_link obj (last_cell bs) p key = delete_link obj (last_cell (bs @ [a])) (link_next l) key"
      using False p l by (subst delete_link.simps) (simp add: last_cell_def)
    moreover have "jayess_object_find_value (entries_of (cells obj) (bs @ [a])) key = None"
      using Cons.prems(5) False l by (simp add: find_value_append)
    ultimately show ?thesis using Cons.IH [of "bs @ [a]" "link_next l"] Cons.prems rest by simp
  qed
qed

text \<open>
  C11. On a heap whose cells form the linked list of an object, reading, setting and deleting a
  property by following and rewriting the head, tail and next pointers always ends, touches only
  allocated cells, and has the effect of the corresponding operation on the list of entries; the
  result is again such a list with its tail pointer on the last cell.
\<close>

theorem object_links_refine:
  assumes "represents obj as es" and "cells obj fresh = None"
  shows "link_get obj key = Some (jayess_object_get_key_value es key)
    \<and> (\<exists>obj' as'. link_set fresh obj key v = Some obj' \<and> represents obj' as' (set_entry es key v))
    \<and> (\<exists>obj' as'. link_delete obj key = Some obj' \<and> represents obj' as' (delete_entry es key))"
proof (intro conjI)
  show "\<exists>obj' as'. link_delete obj key = Some obj' \<and> represents obj' as' (delete_entry es key)"
    using delete_link_refines [of obj "[]" as "head obj" key] assms(1)
    by (simp add: link_delete_def represents_def last_cell_def)
qed (rule link_get_refines [OF assms(1)], rule link_set_refines [OF assms])

theorem object_links_refine_witness:
  defines "obj \<equiv> \<lparr>cells = [0 \<mapsto> \<lparr>link_entry = new_entry (VString ''a'') VNull, link_next = None\<rparr>],
    head = Some 0, tail = Some 0\<rparr>"
  shows "\<exists>obj' as'. link_set 1 obj (VString ''b'') VUndefined = Some obj'
    \<and> represents obj' as' [new_entry (VString ''a'') VNull, new_entry (VString ''b'') VUndefined]"
proof -
  have "represents obj [0] [new_entry (VString ''a'') VNull]" and "cells obj 1 = None"
    by (simp_all add: obj_def represents_def last_cell_def)
  from object_links_refine [OF this, of "VString ''b''" VUndefined] show ?thesis
    by (simp add: jayess_object_entry_matches_string_def new_entry_def)
qed

end
