(* ===== verification/Runtime_State.thy ===== *)
theory Runtime_State
  imports Collections Bigint_Ops
begin

text \<open>
  The state of the runtime: the heap of objects, arrays and functions, the counters, and the
  per-thread exception, \<open>this\<close> stack and call stack of \<open>jayess_runtime_errors.c\<close>. A new object,
  array or function is put at the next address. The operators on values of
  \<open>jayess_runtime_bigint.c\<close>, which may throw, come last.
\<close>

section \<open>The state\<close>

record jayess_function =
  fn_callee :: "nat option"
  fn_env :: "jayess_value option"
  fn_name :: string
  fn_class_name :: string
  fn_param_count :: int
  fn_has_rest :: bool
  fn_properties :: nat
  fn_bound_this :: "jayess_value option"
  fn_bound_args :: nat

record jayess_state =
  objects :: "nat \<Rightarrow> jayess_entries option"
  arrays :: "nat \<Rightarrow> jayess_slots option"
  funcs :: "nat \<Rightarrow> jayess_function option"
  next_address :: nat
  accounting :: jayess_runtime_accounting
  next_symbol_id :: nat
  this_stack :: "jayess_value list"
  call_stack :: "string option list"
  current_exception :: "jayess_value option"

text \<open>The state the runtime starts in.\<close>

definition initial_state :: jayess_state where
  "initial_state =
     \<lparr>objects = (\<lambda>_. None), arrays = (\<lambda>_. None), funcs = (\<lambda>_. None), next_address = 0,
      accounting = \<lparr>boxed_values = 0, objects_count = 0, object_entries = 0, arrays_count = 0, array_slots = 0\<rparr>,
      next_symbol_id = 1, this_stack = [], call_stack = [], current_exception = None\<rparr>"

definition entries_at :: "jayess_state \<Rightarrow> nat \<Rightarrow> jayess_entries" where
  "entries_at s a = (case objects s a of None \<Rightarrow> [] | Some es \<Rightarrow> es)"

definition slots_at :: "jayess_state \<Rightarrow> nat \<Rightarrow> jayess_slots" where
  "slots_at s a = (case arrays s a of None \<Rightarrow> [] | Some vs \<Rightarrow> vs)"

definition jayess_object_new :: "jayess_state \<Rightarrow> nat \<times> jayess_state" where
  "jayess_object_new s =
     (next_address s,
      s\<lparr>objects := (objects s)(next_address s \<mapsto> []), next_address := next_address s + 1,
        accounting := (accounting s)\<lparr>objects_count := objects_count (accounting s) + 1\<rparr>\<rparr>)"

definition jayess_array_new :: "jayess_state \<Rightarrow> nat \<times> jayess_state" where
  "jayess_array_new s =
     (next_address s,
      s\<lparr>arrays := (arrays s)(next_address s \<mapsto> []), next_address := next_address s + 1,
        accounting := (accounting s)\<lparr>arrays_count := arrays_count (accounting s) + 1\<rparr>\<rparr>)"

text \<open>Setting a property of the object, or a slot of the array, at an address.\<close>

definition object_set_key :: "jayess_state \<Rightarrow> nat \<Rightarrow> jayess_value \<Rightarrow> jayess_value option \<Rightarrow> jayess_state" where
  "object_set_key s a key v =
     (let (acc, es) = jayess_object_set_key_value (accounting s) (entries_at s a) key v
      in s\<lparr>objects := (objects s)(a \<mapsto> es), accounting := acc\<rparr>)"

definition object_set :: "jayess_state \<Rightarrow> nat \<Rightarrow> string \<Rightarrow> jayess_value \<Rightarrow> jayess_state" where
  "object_set s a key v = object_set_key s a (VString key) (Some v)"

definition object_get :: "jayess_state \<Rightarrow> nat \<Rightarrow> string \<Rightarrow> jayess_value option" where
  "object_get s a key = jayess_object_get (entries_at s a) key"

definition array_write :: "jayess_state \<Rightarrow> nat \<Rightarrow> jayess_runtime_accounting \<times> jayess_slots \<Rightarrow> jayess_state" where
  "array_write s a r = s\<lparr>arrays := (arrays s)(a \<mapsto> snd r), accounting := fst r\<rparr>"

section \<open>Errors and stacks\<close>

definition jayess_std_error_new_text :: "jayess_state \<Rightarrow> string \<Rightarrow> string \<Rightarrow> jayess_value \<times> jayess_state" where
  "jayess_std_error_new_text s name message =
     (let (a, s1) = jayess_object_new s;
          safe_name = (if name \<noteq> [] then name else ''Error'');
          s2 = object_set s1 a ''__jayess_std_kind'' (VString safe_name);
          s3 = object_set s2 a ''name'' (VString safe_name);
          s4 = object_set s3 a ''message'' (VString message)
      in (VObject a, s4))"

definition jayess_type_error_value :: "jayess_state \<Rightarrow> string \<Rightarrow> jayess_value \<times> jayess_state" where
  "jayess_type_error_value s message = jayess_std_error_new_text s ''TypeError'' message"

text \<open>One line per frame, the innermost first; a frame without a name is anonymous.\<close>

definition frame_line :: "string option \<Rightarrow> string" where
  "frame_line frame =
     ''  at '' @ (case frame of Some n \<Rightarrow> if n \<noteq> [] then n else ''<anonymous>'' | None \<Rightarrow> ''<anonymous>'') @ [CHR 0x0A]"

definition jayess_capture_stack_trace_text :: "string option list \<Rightarrow> string" where
  "jayess_capture_stack_trace_text frames = concat (map frame_line frames)"

definition jayess_attach_exception_stack :: "jayess_state \<Rightarrow> jayess_value \<Rightarrow> jayess_state" where
  "jayess_attach_exception_stack s v =
     (case v of VObject a \<Rightarrow> object_set s a ''stack'' (VString (jayess_capture_stack_trace_text (call_stack s)))
      | _ \<Rightarrow> s)"

definition jayess_throw :: "jayess_state \<Rightarrow> jayess_value option \<Rightarrow> jayess_state" where
  "jayess_throw s v =
     (let e = value_or_undefined v in jayess_attach_exception_stack (s\<lparr>current_exception := Some e\<rparr>) e)"

definition jayess_throw_type_error :: "jayess_state \<Rightarrow> string \<Rightarrow> jayess_state" where
  "jayess_throw_type_error s message =
     (let (e, s1) = jayess_type_error_value s message in jayess_throw s1 (Some e))"

definition jayess_throw_named_error :: "jayess_state \<Rightarrow> string \<Rightarrow> string \<Rightarrow> jayess_state" where
  "jayess_throw_named_error s name message =
     (let (e, s1) = jayess_std_error_new_text s name message in jayess_throw s1 (Some e))"

definition jayess_throw_not_function :: "jayess_state \<Rightarrow> jayess_state" where
  "jayess_throw_not_function s = jayess_throw_type_error s ''value is not a function''"

definition jayess_has_exception :: "jayess_state \<Rightarrow> bool" where
  "jayess_has_exception s \<longleftrightarrow> current_exception s \<noteq> None"

definition jayess_take_exception :: "jayess_state \<Rightarrow> jayess_value \<times> jayess_state" where
  "jayess_take_exception s = (value_or_undefined (current_exception s), s\<lparr>current_exception := None\<rparr>)"

definition jayess_push_call_frame :: "jayess_state \<Rightarrow> string option \<Rightarrow> jayess_state" where
  "jayess_push_call_frame s name = s\<lparr>call_stack := name # call_stack s\<rparr>"

definition jayess_pop_call_frame :: "jayess_state \<Rightarrow> jayess_state" where
  "jayess_pop_call_frame s = (case call_stack s of [] \<Rightarrow> s | _ # fs \<Rightarrow> s\<lparr>call_stack := fs\<rparr>)"

definition jayess_push_this :: "jayess_state \<Rightarrow> jayess_value option \<Rightarrow> jayess_state" where
  "jayess_push_this s v = s\<lparr>this_stack := value_or_undefined v # this_stack s\<rparr>"

definition jayess_pop_this :: "jayess_state \<Rightarrow> jayess_state" where
  "jayess_pop_this s = (case this_stack s of [] \<Rightarrow> s | _ # fs \<Rightarrow> s\<lparr>this_stack := fs\<rparr>)"

definition jayess_current_this :: "jayess_state \<Rightarrow> jayess_value" where
  "jayess_current_this s = (case this_stack s of [] \<Rightarrow> VUndefined | v # _ \<Rightarrow> v)"

section \<open>Functions\<close>

definition function_at :: "jayess_state \<Rightarrow> jayess_value option \<Rightarrow> jayess_function option" where
  "function_at s v = (case v of Some (VFunction f) \<Rightarrow> funcs s f | _ \<Rightarrow> None)"

definition new_function :: "jayess_state \<Rightarrow> jayess_function \<Rightarrow> jayess_value \<times> jayess_state" where
  "new_function s fn =
     (VFunction (next_address s),
      s\<lparr>funcs := (funcs s)(next_address s \<mapsto> fn), next_address := next_address s + 1\<rparr>)"

definition jayess_value_from_function ::
  "jayess_state \<Rightarrow> nat option \<Rightarrow> jayess_value option \<Rightarrow> string \<Rightarrow> string \<Rightarrow> int \<Rightarrow> bool \<Rightarrow> jayess_value \<times> jayess_state" where
  "jayess_value_from_function s callee env name class_name param_count has_rest =
     (let (props, s1) = jayess_object_new s;
          (args, s2) = jayess_array_new s1
      in new_function s2
           \<lparr>fn_callee = callee, fn_env = env, fn_name = name, fn_class_name = class_name,
            fn_param_count = param_count, fn_has_rest = has_rest, fn_properties = props,
            fn_bound_this = Some VUndefined, fn_bound_args = args\<rparr>)"

text \<open>A bound argument is copied; a copied symbol is a new symbol.\<close>

definition jayess_value_clone_bound_arg :: "jayess_state \<Rightarrow> jayess_value option \<Rightarrow> jayess_value option \<times> jayess_state" where
  "jayess_value_clone_bound_arg s v =
     (case v of
        Some (VNumber x) \<Rightarrow> (Some (jayess_value_from_number x), s)
      | Some (VSymbol i d) \<Rightarrow>
          (Some (VSymbol (next_symbol_id s) d), s\<lparr>next_symbol_id := next_symbol_id s + 1\<rparr>)
      | _ \<Rightarrow> (v, s))"

fun clone_bound_loop :: "jayess_state \<Rightarrow> nat \<Rightarrow> jayess_slots \<Rightarrow> jayess_state" where
  "clone_bound_loop s a [] = s"
| "clone_bound_loop s a (v # vs) =
     (let (w, s1) = jayess_value_clone_bound_arg s v;
          s2 = array_write s1 a
                 (jayess_array_set_value (accounting s1) (slots_at s1 a) (int (length (slots_at s1 a))) w)
      in clone_bound_loop s2 a vs)"

definition jayess_array_concat_bound_args_owned ::
  "jayess_state \<Rightarrow> jayess_slots \<Rightarrow> jayess_slots \<Rightarrow> nat \<times> jayess_state" where
  "jayess_array_concat_bound_args_owned s left right =
     (let (a, s1) = jayess_array_new s;
          s2 = clone_bound_loop s1 a left
      in (a, clone_bound_loop s2 a right))"

text \<open>The slots of an array value; none for any other value.\<close>

definition tail_slots :: "jayess_state \<Rightarrow> jayess_value option \<Rightarrow> jayess_slots" where
  "tail_slots s v = (case v of Some (VArray a) \<Rightarrow> slots_at s a | _ \<Rightarrow> [])"

definition jayess_value_bind ::
  "jayess_state \<Rightarrow> jayess_value option \<Rightarrow> jayess_value option \<Rightarrow> jayess_value option \<Rightarrow> jayess_value \<times> jayess_state" where
  "jayess_value_bind s v bound_this bound_args =
     (case function_at s v of
        None \<Rightarrow> (VUndefined, s)
      | Some original \<Rightarrow>
          (let tail = tail_slots s bound_args;
               (props, s1) = jayess_object_new s;
               (args, s2) = jayess_array_concat_bound_args_owned s1 (slots_at s1 (fn_bound_args original)) tail
           in new_function s2
                (original\<lparr>fn_properties := props,
                          fn_bound_this := (if bound_this \<noteq> None then bound_this else fn_bound_this original),
                          fn_bound_args := args\<rparr>)))"

definition jayess_value_function_bound_this :: "jayess_state \<Rightarrow> jayess_value option \<Rightarrow> jayess_value" where
  "jayess_value_function_bound_this s v =
     (case function_at s v of None \<Rightarrow> VUndefined | Some fn \<Rightarrow> value_or_undefined (fn_bound_this fn))"

definition jayess_value_function_bound_arg_count :: "jayess_state \<Rightarrow> jayess_value option \<Rightarrow> nat" where
  "jayess_value_function_bound_arg_count s v =
     (case function_at s v of None \<Rightarrow> 0 | Some fn \<Rightarrow> length (slots_at s (fn_bound_args fn)))"

definition jayess_value_function_bound_arg :: "jayess_state \<Rightarrow> jayess_value option \<Rightarrow> int \<Rightarrow> jayess_value option" where
  "jayess_value_function_bound_arg s v index =
     (case function_at s v of None \<Rightarrow> Some VUndefined
      | Some fn \<Rightarrow> jayess_array_get (slots_at s (fn_bound_args fn)) index)"

definition jayess_value_merge_bound_args ::
  "jayess_state \<Rightarrow> jayess_value option \<Rightarrow> jayess_value option \<Rightarrow> jayess_value \<times> jayess_state" where
  "jayess_value_merge_bound_args s v tail_args =
     (let tail = tail_slots s tail_args
      in case function_at s v of
           None \<Rightarrow> (let (a, s1) = jayess_array_new s
                    in (VArray a, array_write s1 a (append_loop (accounting s1) (slots_at s1 a) tail)))
         | Some fn \<Rightarrow>
             (let (a, s1) = jayess_array_concat_bound_args_owned s (slots_at s (fn_bound_args fn)) tail
              in (VArray a, s1)))"

text \<open>
  Calling a function from the runtime. The compiled code behind a code pointer is the parameter
  \<open>code\<close>: it takes its arguments (the environment first, if there is one) and may change the
  state.
\<close>

type_synonym native_code = "nat \<Rightarrow> jayess_value list \<Rightarrow> jayess_state \<Rightarrow> jayess_value option \<times> jayess_state"

definition chosen_this :: "jayess_function \<Rightarrow> jayess_value option \<Rightarrow> jayess_value option" where
  "chosen_this fn this_value =
     (case fn_bound_this fn of
        Some b \<Rightarrow> if b \<noteq> VUndefined then Some b else this_value
      | None \<Rightarrow> this_value)"

definition env_args :: "jayess_function \<Rightarrow> jayess_value list" where
  "env_args fn = (case fn_env fn of None \<Rightarrow> [] | Some e \<Rightarrow> [e])"

definition jayess_value_call_with_this ::
  "native_code \<Rightarrow> jayess_state \<Rightarrow> jayess_value option \<Rightarrow> jayess_value option \<Rightarrow> jayess_value option \<Rightarrow> int
   \<Rightarrow> jayess_value \<times> jayess_state" where
  "jayess_value_call_with_this code s callback this_value argument argument_count =
     (case function_at s callback of
        None \<Rightarrow> (VUndefined, s)
      | Some fn \<Rightarrow>
          (case fn_callee fn of
             None \<Rightarrow> (VUndefined, s)
           | Some c \<Rightarrow>
               (let s1 = jayess_push_this s (chosen_this fn this_value);
                    args = env_args fn @ (if argument_count \<le> 0 then [] else [value_or_undefined argument]);
                    (r, s2) = code c args s1
                in (value_or_undefined r, jayess_pop_this s2))))"

definition jayess_value_call_two_with_this ::
  "native_code \<Rightarrow> jayess_state \<Rightarrow> jayess_value option \<Rightarrow> jayess_value option \<Rightarrow> jayess_value option \<Rightarrow> jayess_value option
   \<Rightarrow> jayess_value \<times> jayess_state" where
  "jayess_value_call_two_with_this code s callback this_value first second =
     (case function_at s callback of
        None \<Rightarrow> (VUndefined, s)
      | Some fn \<Rightarrow>
          (case fn_callee fn of
             None \<Rightarrow> (VUndefined, s)
           | Some c \<Rightarrow>
               (let s1 = jayess_push_this s (chosen_this fn this_value);
                    args = env_args fn @ take (nat (fn_param_count fn))
                             [value_or_undefined first, value_or_undefined second];
                    (r, s2) = code c args s1
                in (value_or_undefined r, jayess_pop_this s2))))"

section \<open>Operators on values\<close>

definition mix_message :: string where
  "mix_message = ''cannot mix number and bigint in bitwise expressions''"

definition shift_message :: string where
  "shift_message = ''bigint shift count must be a non-negative bigint within runtime limits''"

definition ushr_message :: string where
  "ushr_message = ''operator >>> does not support bigint operands''"

definition jayess_bitwise_type_error :: "jayess_state \<Rightarrow> string \<Rightarrow> jayess_value \<times> jayess_state" where
  "jayess_bitwise_type_error s message = (VUndefined, jayess_throw_type_error s message)"

definition bigint_text :: "jayess_value option \<Rightarrow> string option" where
  "bigint_text v = (case v of Some (VBigint t) \<Rightarrow> Some t | _ \<Rightarrow> None)"

text \<open>
  The operators answer \<open>None\<close> when the big-integer routine does not return, \<open>Inl\<close> a fault when it
  reads out of bounds.
\<close>

type_synonym operator_result = "(fault + jayess_value \<times> jayess_state) option"

definition bigint_result :: "jayess_state \<Rightarrow> (fault + string) option \<Rightarrow> operator_result" where
  "bigint_result s r = map_option (map_sum id (\<lambda>t. (VBigint t, s))) r"

definition jayess_value_bitwise_not :: "jayess_state \<Rightarrow> jayess_value option \<Rightarrow> operator_result" where
  "jayess_value_bitwise_not s v =
     (case bigint_text v of
        Some t \<Rightarrow> bigint_result s (jayess_bigint_bitwise_unary_not t)
      | None \<Rightarrow> Some (Inr (jayess_value_from_number
                  (dbl_of_int (NOT (jayess_number_to_int32 (jayess_value_to_number v)))), s)))"

definition jayess_value_bitwise_binary ::
  "jayess_state \<Rightarrow> jayess_value option \<Rightarrow> jayess_value option \<Rightarrow> char \<Rightarrow> operator_result" where
  "jayess_value_bitwise_binary s left right opr =
     (case (bigint_text left, bigint_text right) of
        (Some l, Some r) \<Rightarrow> bigint_result s (jayess_bigint_bitwise_binary l r opr)
      | (None, None) \<Rightarrow> Some (Inr (jayess_value_bitwise_number_binary left right opr, s))
      | _ \<Rightarrow> Some (Inr (jayess_bitwise_type_error s mix_message)))"

definition bigint_shift_result :: "jayess_state \<Rightarrow> (fault + string) option option \<Rightarrow> operator_result" where
  "bigint_shift_result s r =
     (case r of None \<Rightarrow> Some (Inr (jayess_bitwise_type_error s shift_message)) | Some t \<Rightarrow> bigint_result s t)"

definition jayess_value_bitwise_shl :: "jayess_state \<Rightarrow> jayess_value option \<Rightarrow> jayess_value option \<Rightarrow> operator_result" where
  "jayess_value_bitwise_shl s left right =
     (case (bigint_text left, bigint_text right) of
        (Some l, Some r) \<Rightarrow> bigint_shift_result s (jayess_bigint_shift_left_text l r)
      | (None, None) \<Rightarrow> Some (Inr (jayess_value_bitwise_number_binary left right (CHR ''<''), s))
      | _ \<Rightarrow> Some (Inr (jayess_bitwise_type_error s mix_message)))"

definition jayess_value_bitwise_shr :: "jayess_state \<Rightarrow> jayess_value option \<Rightarrow> jayess_value option \<Rightarrow> operator_result" where
  "jayess_value_bitwise_shr s left right =
     (case (bigint_text left, bigint_text right) of
        (Some l, Some r) \<Rightarrow> bigint_shift_result s (jayess_bigint_shift_right_text l r)
      | (None, None) \<Rightarrow> Some (Inr (jayess_value_bitwise_number_binary left right (CHR ''>''), s))
      | _ \<Rightarrow> Some (Inr (jayess_bitwise_type_error s mix_message)))"

definition jayess_value_bitwise_ushr :: "jayess_state \<Rightarrow> jayess_value option \<Rightarrow> jayess_value option \<Rightarrow> operator_result" where
  "jayess_value_bitwise_ushr s left right =
     (if bigint_text left \<noteq> None \<or> bigint_text right \<noteq> None
      then Some (Inr (jayess_bitwise_type_error s ushr_message))
      else Some (Inr (jayess_value_bitwise_number_binary left right (CHR ''u''), s)))"

end
