(* ===== verification/State_Correct.thy ===== *)
theory State_Correct
  imports Runtime_State
begin

text \<open>
  What the operations on the runtime state establish: properties of objects read back, a thrown
  error is the object the code describes and can be taken once, calls leave the \<open>this\<close> stack as it
  was, binding accumulates arguments, and the bitwise operators compute on 32-bit integers or
  throw.
\<close>

section \<open>The heap\<close>

lemma entries_at_object_set_key [simp]:
  "entries_at (object_set_key s a key v) b
   = (if b = a then snd (jayess_object_set_key_value (accounting s) (entries_at s a) key v) else entries_at s b)"
  by (simp add: object_set_key_def entries_at_def split: prod.split)

lemma object_set_key_frame [simp]:
  "arrays (object_set_key s a key v) = arrays s" "funcs (object_set_key s a key v) = funcs s"
  "this_stack (object_set_key s a key v) = this_stack s" "call_stack (object_set_key s a key v) = call_stack s"
  "current_exception (object_set_key s a key v) = current_exception s"
  "next_address (object_set_key s a key v) = next_address s"
  "next_symbol_id (object_set_key s a key v) = next_symbol_id s"
  by (simp_all add: object_set_key_def split: prod.split)

lemma object_set_frame [simp]:
  "arrays (object_set s a k v) = arrays s" "funcs (object_set s a k v) = funcs s"
  "this_stack (object_set s a k v) = this_stack s" "call_stack (object_set s a k v) = call_stack s"
  "current_exception (object_set s a k v) = current_exception s"
  "next_address (object_set s a k v) = next_address s" "next_symbol_id (object_set s a k v) = next_symbol_id s"
  by (simp_all add: object_set_def)

lemma is_property_key_string [simp]: "is_property_key (VString k)"
  by (simp add: is_property_key_def)

lemma object_get_set:
  "object_get (object_set s a k v) b j = (if b = a \<and> j = k then Some v else object_get s b j)"
  by (simp add: object_get_def jayess_object_get_def object_set_def set_key_value_entries get_set_entry same_key_def)

lemma object_set_other: "b \<noteq> a \<Longrightarrow> objects (object_set s a k v) b = objects s b"
  by (simp add: object_set_def object_set_key_def split: prod.split)

lemma object_new_simps [simp]:
  "fst (jayess_object_new s) = next_address s"
  "entries_at (snd (jayess_object_new s)) b = (if b = next_address s then [] else entries_at s b)"
  "arrays (snd (jayess_object_new s)) = arrays s" "funcs (snd (jayess_object_new s)) = funcs s"
  "this_stack (snd (jayess_object_new s)) = this_stack s" "call_stack (snd (jayess_object_new s)) = call_stack s"
  "current_exception (snd (jayess_object_new s)) = current_exception s"
  "next_address (snd (jayess_object_new s)) = Suc (next_address s)"
  "next_symbol_id (snd (jayess_object_new s)) = next_symbol_id s"
  by (simp_all add: jayess_object_new_def entries_at_def)

lemma object_new_other: "b \<noteq> next_address s \<Longrightarrow> objects (snd (jayess_object_new s)) b = objects s b"
  by (simp add: jayess_object_new_def)

lemma set_entry_absent:
  "\<forall>e \<in> set es. entry_key e \<noteq> Some k \<Longrightarrow> set_entry es (VString k) v = es @ [new_entry (VString k) v]"
  by (induction es) (auto simp: jayess_object_entry_matches_string_def)

lemma member_set:
  "next_address (object_set st a k v) = next_address st"
  "slots_at (object_set st a k v) b = slots_at st b"
  "\<forall>e \<in> set (entries_at st a). entry_key e \<noteq> Some k \<Longrightarrow>
   entries_at (object_set st a k v) b = (if b = a then entries_at st a @ [new_entry (VString k) v] else entries_at st b)"
  by (simp_all add: object_set_def object_set_key_def set_key_value_entries jayess_object_set_key_value_def
      set_entry_absent slots_at_def entries_at_def)

section \<open>Throwing and taking\<close>

lemma throw_frame [simp]:
  "this_stack (jayess_throw s v) = this_stack s" "call_stack (jayess_throw s v) = call_stack s"
  "current_exception (jayess_throw s v) = Some (value_or_undefined v)"
  by (simp_all add: jayess_throw_def jayess_attach_exception_stack_def Let_def split: jayess_value.split)

text \<open>
  After a TypeError with a message is thrown, the pending exception is a new object whose
  name is TypeError, whose message is that message and whose stack lists the call frames, the
  innermost first; no other object of the heap changes, and taking the exception clears it.
\<close>

theorem throw_type_error:
  fixes s :: jayess_state and message :: string
  defines "t \<equiv> jayess_throw_type_error s message"
  shows "jayess_take_exception t = (VObject (next_address s), t\<lparr>current_exception := None\<rparr>)
    \<and> object_get t (next_address s) ''name'' = Some (VString ''TypeError'')
    \<and> object_get t (next_address s) ''message'' = Some (VString message)
    \<and> object_get t (next_address s) ''stack'' = Some (VString (concat (map frame_line (call_stack s))))
    \<and> (\<forall>b. b = next_address s \<or> objects t b = objects s b)
    \<and> jayess_has_exception t \<and> \<not> jayess_has_exception (snd (jayess_take_exception t))"
proof -
  define s1 where "s1 = snd (jayess_object_new s)"
  define a where "a = next_address s"
  have new: "jayess_object_new s = (a, s1)" by (simp add: a_def s1_def prod_eq_iff)
  define s4 where "s4 = object_set (object_set (object_set s1 a ''__jayess_std_kind'' (VString ''TypeError''))
    a ''name'' (VString ''TypeError'')) a ''message'' (VString message)"
  have err: "jayess_type_error_value s message = (VObject a, s4)"
    by (simp add: jayess_type_error_value_def jayess_std_error_new_text_def new s4_def Let_def)
  have t: "t = object_set (s4\<lparr>current_exception := Some (VObject a)\<rparr>) a ''stack''
      (VString (concat (map frame_line (call_stack s))))"
    by (simp add: t_def jayess_throw_type_error_def err jayess_throw_def value_or_undefined_def
        jayess_attach_exception_stack_def jayess_capture_stack_trace_text_def s4_def s1_def)
  have upd: "object_get (s4\<lparr>current_exception := x\<rparr>) b k = object_get s4 b k" for x b k
    by (simp add: object_get_def entries_at_def)
  have exc: "current_exception t = Some (VObject a)" by (simp add: t)
  have get: "object_get t a ''name'' = Some (VString ''TypeError'')" "object_get t a ''message'' = Some (VString message)"
    "object_get t a ''stack'' = Some (VString (concat (map frame_line (call_stack s))))"
    by (simp_all add: t object_get_set upd) (simp_all add: s4_def object_get_set)
  have other: "objects t b = objects s b" if "b \<noteq> a" for b
    using that by (simp add: t object_set_other s4_def s1_def a_def object_new_other)
  show ?thesis using exc get other
    by (auto simp: jayess_take_exception_def jayess_has_exception_def value_or_undefined_def a_def [symmetric])
qed

section \<open>Calls\<close>

text \<open>
  Calling a function from the runtime runs its code with the bound receiver of the function,
  or the receiver given when none is bound, on top of the this stack, with the environment and
  the argument as parameters; the this stack is afterwards as it was, for code that balances its
  own pushes and pops.
\<close>

theorem call_with_this:
  assumes "function_at s callback = Some fn" and "fn_callee fn = Some c"
    and "\<And>args t. this_stack (snd (code c args t)) = this_stack t"
  shows "this_stack (snd (jayess_value_call_with_this code s callback this_value argument n)) = this_stack s
    \<and> fst (jayess_value_call_with_this code s callback this_value argument n)
      = value_or_undefined (fst (code c
          ((case fn_env fn of None \<Rightarrow> [] | Some e \<Rightarrow> [e]) @ (if n \<le> 0 then [] else [value_or_undefined argument]))
          (s\<lparr>this_stack := value_or_undefined (chosen_this fn this_value) # this_stack s\<rparr>)))"
proof -
  let ?t = "s\<lparr>this_stack := value_or_undefined (chosen_this fn this_value) # this_stack s\<rparr>"
  let ?args = "env_args fn @ (if n \<le> 0 then [] else [value_or_undefined argument])"
  have r: "jayess_value_call_with_this code s callback this_value argument n
      = (value_or_undefined (fst (code c ?args ?t)), jayess_pop_this (snd (code c ?args ?t)))"
    using assms(1,2) by (simp add: jayess_value_call_with_this_def jayess_push_this_def Let_def split: prod.split)
  have "this_stack (snd (code c ?args ?t)) = value_or_undefined (chosen_this fn this_value) # this_stack s"
    by (simp only: assms(3)) simp
  then show ?thesis unfolding r by (simp add: jayess_pop_this_def env_args_def)
qed

definition example_function :: jayess_function where
  "example_function =
     \<lparr>fn_callee = Some 7, fn_env = None, fn_name = ''f'', fn_class_name = [], fn_param_count = 1,
      fn_has_rest = False, fn_properties = 0, fn_bound_this = Some (VBool True), fn_bound_args = 0\<rparr>"

definition example_state :: jayess_state where
  "example_state = initial_state\<lparr>funcs := [1 \<mapsto> example_function], next_address := 3,
     arrays := [0 \<mapsto> [Some VNull], 2 \<mapsto> [Some (VString ''x'')]]\<rparr>"

theorem call_with_this_witness:
  "fst (jayess_value_call_with_this (\<lambda>c args t. (Some (jayess_current_this t), t)) example_state
      (Some (VFunction 1)) (Some VNull) None 1) = VBool True"
proof -
  have "function_at example_state (Some (VFunction 1)) = Some example_function" and "fn_callee example_function = Some 7"
    by (simp_all add: function_at_def example_function_def example_state_def)
  from conjunct2 [OF call_with_this [OF this, where code = "\<lambda>c args t. (Some (jayess_current_this t), t)"]]
  show ?thesis by (simp add: jayess_current_this_def chosen_this_def example_function_def value_or_undefined_def)
qed

section \<open>Binding\<close>

text \<open>A value that is copied to an equal one when it is bound.\<close>

definition plain_arg :: "jayess_value option \<Rightarrow> bool" where
  "plain_arg v \<longleftrightarrow> (case v of
     Some (VNumber x) \<Rightarrow> jayess_value_from_number x = VNumber x
   | Some (VSymbol i d) \<Rightarrow> False
   | _ \<Rightarrow> True)"

lemma clone_plain: "plain_arg v \<Longrightarrow> jayess_value_clone_bound_arg s v = (v, s)"
  by (auto simp: plain_arg_def jayess_value_clone_bound_arg_def split: option.splits jayess_value.splits)

lemma array_write_simps [simp]:
  "slots_at (array_write s a r) b = (if b = a then snd r else slots_at s b)"
  "objects (array_write s a r) = objects s" "funcs (array_write s a r) = funcs s"
  "next_address (array_write s a r) = next_address s"
  by (simp_all add: array_write_def slots_at_def)

lemma clone_bound_loop_plain:
  "list_all plain_arg vs \<Longrightarrow> slots_at (clone_bound_loop s a vs) b = (if b = a then slots_at s a @ vs else slots_at s b)
   \<and> objects (clone_bound_loop s a vs) = objects s \<and> funcs (clone_bound_loop s a vs) = funcs s
   \<and> next_address (clone_bound_loop s a vs) = next_address s"
  by (induction vs arbitrary: s) (auto simp: clone_plain array_set_beyond)

lemma array_new_simps [simp]:
  "fst (jayess_array_new s) = next_address s"
  "slots_at (snd (jayess_array_new s)) b = (if b = next_address s then [] else slots_at s b)"
  "objects (snd (jayess_array_new s)) = objects s" "funcs (snd (jayess_array_new s)) = funcs s"
  "next_address (snd (jayess_array_new s)) = Suc (next_address s)"
  by (simp_all add: jayess_array_new_def slots_at_def)

lemma concat_bound_plain:
  assumes "list_all plain_arg left" and "list_all plain_arg right"
    and "jayess_array_concat_bound_args_owned s left right = (a, t)"
  shows "a = next_address s" and "slots_at t b = (if b = a then left @ right else slots_at s b)"
    and "funcs t = funcs s" and "objects t = objects s" and "next_address t = Suc (next_address s)"
proof -
  from assms(3) have a: "a = next_address s"
    and t: "t = clone_bound_loop (clone_bound_loop (snd (jayess_array_new s)) a left) a right"
    by (auto simp: jayess_array_concat_bound_args_owned_def Let_def jayess_array_new_def)
  show "a = next_address s" by (rule a)
  show "slots_at t b = (if b = a then left @ right else slots_at s b)" "funcs t = funcs s" "objects t = objects s"
    "next_address t = Suc (next_address s)"
    using clone_bound_loop_plain [OF assms(1), of "snd (jayess_array_new s)" a]
      clone_bound_loop_plain [OF assms(2), of "clone_bound_loop (snd (jayess_array_new s)) a left" a]
    by (simp_all add: t a)
qed

text \<open>
  Binding a function to a receiver and an array of arguments that are no symbols and no
  negative zeros gives a new function with the same code, the receiver given, and as bound
  arguments those of the original followed by the new ones; the original function and its bound
  arguments are as before.
\<close>

theorem bind_accumulates:
  assumes "function_at s v = Some fn" and "v = Some (VFunction f)" and "f < next_address s"
    and "fn_bound_args fn < next_address s"
    and "list_all plain_arg (slots_at s (fn_bound_args fn))" and "list_all plain_arg (slots_at s a)"
    and "jayess_value_bind s v (Some r) (Some (VArray a)) = (b, t)"
  shows "\<exists>fn'. function_at t (Some b) = Some fn' \<and> fn_callee fn' = fn_callee fn \<and> fn_env fn' = fn_env fn
    \<and> jayess_value_function_bound_this t (Some b) = r
    \<and> slots_at t (fn_bound_args fn') = slots_at s (fn_bound_args fn) @ slots_at s a
    \<and> function_at t v = Some fn \<and> slots_at t (fn_bound_args fn) = slots_at s (fn_bound_args fn)"
proof -
  define s1 where "s1 = snd (jayess_object_new s)"
  define left where "left = slots_at s (fn_bound_args fn)"
  have new: "jayess_object_new s = (next_address s, s1)" by (simp add: s1_def prod_eq_iff)
  have s1: "slots_at s1 x = slots_at s x" "funcs s1 = funcs s" "next_address s1 = Suc (next_address s)" for x
    by (simp_all add: s1_def slots_at_def)
  obtain args s2 where conc: "jayess_array_concat_bound_args_owned s1 left (slots_at s a) = (args, s2)" by fastforce
  note c = concat_bound_plain [OF assms(5) [folded left_def] assms(6) this]
  define fn' where "fn' = fn\<lparr>fn_properties := next_address s, fn_bound_this := Some r, fn_bound_args := args\<rparr>"
  have bt: "b = VFunction (next_address s2)" "t = s2\<lparr>funcs := (funcs s2)(next_address s2 \<mapsto> fn'), next_address := next_address s2 + 1\<rparr>"
    using assms(1,7) conc
    by (auto simp: jayess_value_bind_def tail_slots_def new s1 left_def new_function_def fn'_def Let_def)
  have slots: "slots_at t x = slots_at s2 x" for x by (simp add: bt slots_at_def)
  have "function_at t (Some b) = Some fn'" by (simp add: function_at_def bt)
  moreover have "function_at t v = Some fn"
    using assms(1-3) by (simp add: function_at_def bt c(3,5) s1)
  moreover have "jayess_value_function_bound_this t (Some b) = r"
    by (simp add: jayess_value_function_bound_this_def calculation(1) fn'_def value_or_undefined_def)
  moreover have "slots_at t (fn_bound_args fn') = left @ slots_at s a"
    by (simp add: slots c(2) fn'_def)
  moreover have "slots_at t (fn_bound_args fn) = left"
    using assms(4) by (simp add: slots c(1,2) s1 left_def)
  ultimately show ?thesis by (auto simp: fn'_def left_def)
qed

theorem bind_accumulates_witness:
  "\<exists>fn b t. jayess_value_bind example_state (Some (VFunction 1)) (Some VNull) (Some (VArray 2)) = (b, t)
    \<and> function_at t (Some b) = Some fn \<and> slots_at t (fn_bound_args fn) = [Some VNull, Some (VString ''x'')]"
proof -
  obtain b t where bt: "jayess_value_bind example_state (Some (VFunction 1)) (Some VNull) (Some (VArray 2)) = (b, t)"
    by fastforce
  have fn: "function_at example_state (Some (VFunction 1)) = Some example_function"
    by (simp add: function_at_def example_state_def)
  have "list_all plain_arg (slots_at example_state (fn_bound_args example_function))"
    and "list_all plain_arg (slots_at example_state 2)"
    by (simp_all add: slots_at_def example_state_def example_function_def plain_arg_def)
  from bind_accumulates [OF fn refl _ _ this bt] bt show ?thesis
    by (auto simp: example_state_def example_function_def slots_at_def)
qed

text \<open>A bound symbol reaches the function as another symbol.\<close>

lemma bind_symbol_changes:
  "fst (jayess_value_clone_bound_arg s (Some (VSymbol i d))) = Some (VSymbol (next_symbol_id s) d)"
  by (simp add: jayess_value_clone_bound_arg_def)

section \<open>Bitwise operators\<close>

definition bitwise_spec :: "char \<Rightarrow> int \<Rightarrow> int \<Rightarrow> int" where
  "bitwise_spec opr i j =
     (let l = (word_of_int i :: u32); r = word_of_int j; n = unat (r AND 31)
      in if opr = CHR ''&'' then sint (l AND r) else if opr = CHR ''|'' then sint (l OR r)
         else if opr = CHR ''^'' then sint (l XOR r) else if opr = CHR ''<'' then sint (push_bit n l)
         else if opr = CHR ''>'' then sint (signed_drop_bit n l) else uint (drop_bit n l))"

lemma number_binary:
  assumes "dbl_isfinite (jayess_value_to_number left)" and "dbl_isfinite (jayess_value_to_number right)"
  shows "jayess_value_bitwise_number_binary left right opr
    = jayess_value_from_number (dbl_of_int (bitwise_spec opr
        (dbl_trunc (jayess_value_to_number left)) (dbl_trunc (jayess_value_to_number right))))"
  using assms
  by (simp add: jayess_value_bitwise_number_binary_def bitwise_spec_def Let_def number_to_uint32 number_to_int32)

lemma bitwise_spec_range: "\<bar>bitwise_spec opr i j\<bar> < 2 ^ 53"
proof -
  have s: "\<bar>sint (w :: u32)\<bar> < 2 ^ 53" for w
    using sint_lt [of w] sint_ge [of w] by simp
  have u: "\<bar>uint (w :: u32)\<bar> < 2 ^ 53" for w
    using uint_bounded [of w] by simp
  show ?thesis by (simp only: bitwise_spec_def Let_def s u split: if_split) simp
qed

text \<open>
  On two operands that are not big integers and read as finite numbers, the bitwise and
  shift operators compute on the integer parts reduced to 32 bits, with the shift count taken
  modulo 32, and answer the resulting integer exactly; the state is unchanged.
\<close>

theorem bitwise_numbers:
  assumes "bigint_text l = None" and "bigint_text r = None"
    and "dbl_isfinite (jayess_value_to_number l)" and "dbl_isfinite (jayess_value_to_number r)"
    and "opr = CHR ''&'' \<or> opr = CHR ''|'' \<or> opr = CHR ''^''"
  defines "i \<equiv> dbl_trunc (jayess_value_to_number l)" and "j \<equiv> dbl_trunc (jayess_value_to_number r)"
  shows "jayess_value_bitwise_binary s l r opr = Some (Inr (jayess_value_from_number (dbl_of_int (bitwise_spec opr i j)), s))
    \<and> jayess_value_bitwise_shl s l r = Some (Inr (jayess_value_from_number (dbl_of_int (bitwise_spec (CHR ''<'') i j)), s))
    \<and> jayess_value_bitwise_shr s l r = Some (Inr (jayess_value_from_number (dbl_of_int (bitwise_spec (CHR ''>'') i j)), s))
    \<and> jayess_value_bitwise_ushr s l r = Some (Inr (jayess_value_from_number (dbl_of_int (bitwise_spec (CHR ''u'') i j)), s))
    \<and> dbl_trunc (dbl_of_int (bitwise_spec opr i j)) = bitwise_spec opr i j"
  using assms(1-4) number_binary [OF assms(3,4)]
  by (simp add: jayess_value_bitwise_binary_def jayess_value_bitwise_shl_def jayess_value_bitwise_shr_def
      jayess_value_bitwise_ushr_def i_def j_def dbl_trunc_of_int [OF bitwise_spec_range])

theorem bitwise_numbers_witness:
  "jayess_value_bitwise_binary initial_state (Some (VNumber (dbl_of_int (- 2)))) (Some (VNumber (dbl_of_int 4294967301))) (CHR ''&'')
   = Some (Inr (jayess_value_from_number (dbl_of_int 4), initial_state))"
  using bitwise_numbers [of "Some (VNumber (dbl_of_int (- 2)))" "Some (VNumber (dbl_of_int 4294967301))" "CHR ''&''" initial_state]
  by (simp add: bigint_text_def dbl_of_int_exact dbl_trunc_of_int bitwise_spec_def)

text \<open>
  A bitwise operator or a shift applied to one big integer and one other value, and an
  unsigned shift with a big integer on either side, answers undefined and leaves a TypeError with
  the documented message pending.
\<close>

theorem bitwise_mixed_throws:
  assumes "(bigint_text l = None) \<noteq> (bigint_text r = None)"
  shows "jayess_value_bitwise_binary s l r opr = Some (Inr (VUndefined, jayess_throw_type_error s mix_message))
    \<and> jayess_value_bitwise_shl s l r = Some (Inr (VUndefined, jayess_throw_type_error s mix_message))
    \<and> jayess_value_bitwise_shr s l r = Some (Inr (VUndefined, jayess_throw_type_error s mix_message))
    \<and> jayess_value_bitwise_ushr s l r = Some (Inr (VUndefined, jayess_throw_type_error s ushr_message))"
  using assms
  by (auto simp: jayess_value_bitwise_binary_def jayess_value_bitwise_shl_def jayess_value_bitwise_shr_def
      jayess_value_bitwise_ushr_def jayess_bitwise_type_error_def split: option.split)

theorem bitwise_mixed_throws_witness:
  "jayess_value_bitwise_shl initial_state (Some (VBigint ''1'')) (Some (VBool True))
   = Some (Inr (VUndefined, jayess_throw_type_error initial_state mix_message))"
  using bitwise_mixed_throws [of "Some (VBigint ''1'')" "Some (VBool True)"] by (simp add: bigint_text_def)

end
