(* ===== verification/Scheduler.thy ===== *)
theory Scheduler
  imports State_Correct
begin

text \<open>
  Promises, timers and the task scheduler of \<open>jayess_runtime.c\<close>. Tasks are heap cells addressed by
  numbers, \<open>None\<close> being a freed cell; \<open>faulted\<close> records that a freed task was used. A promise is an
  object address with a status and a value (the two internal properties the code keeps on the
  object). The dependents lists of all promises are kept as one list of pairs (promise, task),
  the most recent first, which is the order in which the code links them. Time is an integer.

  Three things enter as parameters: \<open>call\<close>, the effect of calling a compiled function on one
  argument; \<open>items\<close>, the elements of an iterable that is not an array; and \<open>env\<close>, what happens
  around one turn of the loop (time passing, workers completing tasks, signal handlers).
\<close>

section \<open>Data\<close>

datatype task_kind =
    Task_Promise_Callback | Task_Fs_Read | Task_Timer | Task_Fs_Write | Task_Socket_Read
  | Task_Socket_Write | Task_Server_Accept | Task_Http_Request | Task_Http_Get | Task_Https_Request
  | Task_Https_Get | Task_Http_Request_Stream | Task_Http_Get_Stream | Task_Https_Request_Stream
  | Task_Https_Get_Stream

datatype promise_action = Act_Then | Act_All | Act_Race | Act_All_Settled | Act_Any | Act_Finally

datatype promise_status = Pending | Fulfilled | Rejected

record microtask =
  tk_kind :: task_kind
  tk_action :: promise_action
  tk_completed :: bool
  tk_source :: "jayess_value option"
  tk_result :: "jayess_value option"
  tk_on_fulfilled :: "jayess_value option"
  tk_on_rejected :: "jayess_value option"
  tk_path :: "jayess_value option"
  tk_encoding :: "jayess_value option"
  tk_content :: "jayess_value option"
  tk_worker_result :: "jayess_value option"
  tk_due :: int
  tk_timer_id :: int
  tk_dependency_count :: nat
  tk_queued :: bool
  tk_finished :: bool

record sched =
  rt :: jayess_state
  promise_at :: "nat \<Rightarrow> (promise_status \<times> jayess_value) option"
  waiting :: "(nat \<times> nat) list"
  task_at :: "nat \<Rightarrow> microtask option"
  next_task :: nat
  callbacks :: "nat list"
  timers :: "nat list"
  io_pending :: "nat list"
  io_completions :: "nat list"
  io_pool :: "nat list"
  time_now :: int
  next_timer_id :: int
  faulted :: bool

section \<open>Promises\<close>

definition promise_id :: "sched \<Rightarrow> jayess_value option \<Rightarrow> nat option" where
  "promise_id s v = (case v of Some (VObject a) \<Rightarrow> if promise_at s a \<noteq> None then Some a else None | _ \<Rightarrow> None)"

definition jayess_promise_is_state :: "sched \<Rightarrow> jayess_value option \<Rightarrow> promise_status \<Rightarrow> bool" where
  "jayess_promise_is_state s v st \<longleftrightarrow>
     (case promise_id s v of None \<Rightarrow> False | Some a \<Rightarrow> map_option fst (promise_at s a) = Some st)"

definition jayess_promise_value :: "sched \<Rightarrow> jayess_value option \<Rightarrow> jayess_value" where
  "jayess_promise_value s v =
     (case promise_id s v of None \<Rightarrow> VUndefined
      | Some a \<Rightarrow> (case promise_at s a of None \<Rightarrow> VUndefined | Some (_, w) \<Rightarrow> w))"

definition new_promise :: "sched \<Rightarrow> promise_status \<Rightarrow> jayess_value \<Rightarrow> jayess_value \<times> sched" where
  "new_promise s st v =
     (let (a, r) = jayess_object_new (rt s)
      in (VObject a, s\<lparr>rt := r, promise_at := (promise_at s)(a \<mapsto> (st, v))\<rparr>))"

definition jayess_std_promise_pending :: "sched \<Rightarrow> jayess_value \<times> sched" where
  "jayess_std_promise_pending s = new_promise s Pending VUndefined"

definition jayess_std_promise_resolve :: "sched \<Rightarrow> jayess_value option \<Rightarrow> jayess_value \<times> sched" where
  "jayess_std_promise_resolve s v =
     (if promise_id s v \<noteq> None then (value_or_undefined v, s\<lparr>rt := snd (jayess_object_new (rt s))\<rparr>)
      else new_promise s Fulfilled (value_or_undefined v))"

definition jayess_std_promise_reject :: "sched \<Rightarrow> jayess_value option \<Rightarrow> jayess_value \<times> sched" where
  "jayess_std_promise_reject s v = new_promise s Rejected (value_or_undefined v)"

section \<open>Queues\<close>

definition update_task :: "sched \<Rightarrow> nat \<Rightarrow> (microtask \<Rightarrow> microtask) \<Rightarrow> sched" where
  "update_task s t f =
     (case task_at s t of None \<Rightarrow> s\<lparr>faulted := True\<rparr> | Some k \<Rightarrow> s\<lparr>task_at := (task_at s)(t \<mapsto> f k)\<rparr>)"

definition free_task :: "sched \<Rightarrow> nat \<Rightarrow> sched" where
  "free_task s t =
     (case task_at s t of None \<Rightarrow> s\<lparr>faulted := True\<rparr> | Some k \<Rightarrow> s\<lparr>task_at := (task_at s)(t := None)\<rparr>)"

definition jayess_queue_append :: "nat list \<Rightarrow> nat \<Rightarrow> nat list" where
  "jayess_queue_append q t = q @ [t]"

definition jayess_append_microtask :: "sched \<Rightarrow> nat \<Rightarrow> sched" where
  "jayess_append_microtask s t =
     (case task_at s t of
        None \<Rightarrow> s\<lparr>faulted := True\<rparr>
      | Some k \<Rightarrow>
          (let s1 = update_task s t (\<lambda>k. k\<lparr>tk_queued := True\<rparr>)
           in if tk_kind k = Task_Promise_Callback then s1\<lparr>callbacks := jayess_queue_append (callbacks s1) t\<rparr>
              else if tk_kind k = Task_Timer then s1\<lparr>timers := jayess_queue_append (timers s1) t\<rparr>
              else s1\<lparr>io_pending := jayess_queue_append (io_pending s1) t\<rparr>))"

definition jayess_scheduler_has_tasks :: "sched \<Rightarrow> bool" where
  "jayess_scheduler_has_tasks s \<longleftrightarrow>
     callbacks s \<noteq> [] \<or> timers s \<noteq> [] \<or> io_pending s \<noteq> [] \<or> io_completions s \<noteq> []"

text \<open>One dependent of a settled promise.\<close>

definition wake_dependent :: "sched \<Rightarrow> nat \<Rightarrow> sched" where
  "wake_dependent s t =
     (let s1 = update_task s t (\<lambda>k. k\<lparr>tk_dependency_count := tk_dependency_count k - 1\<rparr>)
      in case task_at s1 t of
           None \<Rightarrow> s1
         | Some k \<Rightarrow>
             if tk_finished k then if tk_dependency_count k = 0 then free_task s1 t else s1
             else if \<not> tk_queued k then jayess_append_microtask s1 t
             else s1)"

definition dependents :: "sched \<Rightarrow> nat \<Rightarrow> nat list" where
  "dependents s a = map snd (filter (\<lambda>d. fst d = a) (waiting s))"

definition jayess_promise_settle ::
  "sched \<Rightarrow> jayess_value option \<Rightarrow> promise_status \<Rightarrow> jayess_value option \<Rightarrow> sched" where
  "jayess_promise_settle s p st v =
     (case promise_id s p of
        None \<Rightarrow> s
      | Some a \<Rightarrow>
          foldl wake_dependent
            (s\<lparr>promise_at := (promise_at s)(a \<mapsto> (st, value_or_undefined v)),
               waiting := filter (\<lambda>d. fst d \<noteq> a) (waiting s)\<rparr>)
            (dependents s a))"

text \<open>Rejecting with a new TypeError.\<close>

definition reject_type_error :: "sched \<Rightarrow> jayess_value option \<Rightarrow> string \<Rightarrow> sched" where
  "reject_type_error s p message =
     (let (e, r) = jayess_type_error_value (rt s) message
      in jayess_promise_settle (s\<lparr>rt := r\<rparr>) p Rejected (Some e))"

section \<open>Combinators\<close>

type_synonym items_of = "sched \<Rightarrow> jayess_value \<Rightarrow> jayess_slots"

definition jayess_value_iterable_values :: "items_of \<Rightarrow> sched \<Rightarrow> jayess_value option \<Rightarrow> jayess_slots" where
  "jayess_value_iterable_values items s v =
     (case v of None \<Rightarrow> [] | Some (VArray a) \<Rightarrow> slots_at (rt s) a | Some w \<Rightarrow> items s w)"

fun race_ready :: "sched \<Rightarrow> jayess_slots \<Rightarrow> bool" where
  "race_ready s [] = False"
| "race_ready s (item # rest) =
     (if promise_id s item = None then True
      else if \<not> jayess_promise_is_state s item Pending then True
      else race_ready s rest)"

fun any_ready :: "sched \<Rightarrow> bool \<Rightarrow> jayess_slots \<Rightarrow> bool" where
  "any_ready s saw_pending [] = (\<not> saw_pending)"
| "any_ready s saw_pending (item # rest) =
     (if promise_id s item = None then True
      else if jayess_promise_is_state s item Fulfilled then True
      else any_ready s (saw_pending \<or> jayess_promise_is_state s item Pending) rest)"

fun all_ready :: "sched \<Rightarrow> promise_action \<Rightarrow> jayess_slots \<Rightarrow> bool" where
  "all_ready s action [] = True"
| "all_ready s action (item # rest) =
     (if promise_id s item \<noteq> None
      then if jayess_promise_is_state s item Rejected \<and> action = Act_All then True
           else if jayess_promise_is_state s item Pending then False
           else all_ready s action rest
      else all_ready s action rest)"

definition jayess_promise_combinator_ready :: "items_of \<Rightarrow> sched \<Rightarrow> microtask \<Rightarrow> bool" where
  "jayess_promise_combinator_ready items s k =
     (if tk_action k = Act_Then \<or> tk_action k = Act_Finally
      then \<not> jayess_promise_is_state s (tk_source k) Pending
      else (let its = jayess_value_iterable_values items s (tk_source k)
            in case tk_action k of
                 Act_Race \<Rightarrow> its = [] \<or> race_ready s its
               | Act_Any \<Rightarrow> its = [] \<or> any_ready s False its
               | action \<Rightarrow> all_ready s action its))"

definition jayess_promise_add_dependent :: "sched \<Rightarrow> jayess_value option \<Rightarrow> nat \<Rightarrow> bool \<times> sched" where
  "jayess_promise_add_dependent s p t =
     (case promise_id s p of
        None \<Rightarrow> (False, s)
      | Some a \<Rightarrow>
          if \<not> jayess_promise_is_state s p Pending then (False, s)
          else (True, update_task (s\<lparr>waiting := (a, t) # waiting s\<rparr>) t
                  (\<lambda>k. k\<lparr>tk_dependency_count := tk_dependency_count k + 1, tk_queued := False\<rparr>)))"

fun add_dependents_loop :: "sched \<Rightarrow> nat \<Rightarrow> bool \<Rightarrow> jayess_slots \<Rightarrow> bool \<times> sched" where
  "add_dependents_loop s t added [] = (added, s)"
| "add_dependents_loop s t added (item # rest) =
     (let (ok, s1) = jayess_promise_add_dependent s item t in add_dependents_loop s1 t (added \<or> ok) rest)"

definition jayess_promise_add_combinator_dependents :: "items_of \<Rightarrow> sched \<Rightarrow> nat \<Rightarrow> bool \<times> sched" where
  "jayess_promise_add_combinator_dependents items s t =
     (case task_at s t of
        None \<Rightarrow> (False, s\<lparr>faulted := True\<rparr>)
      | Some k \<Rightarrow>
          if jayess_promise_combinator_ready items s k then (False, s)
          else add_dependents_loop s t False (jayess_value_iterable_values items s (tk_source k)))"

section \<open>Enqueueing\<close>

definition blank_task :: "task_kind \<Rightarrow> microtask" where
  "blank_task kind =
     \<lparr>tk_kind = kind, tk_action = Act_Then, tk_completed = False, tk_source = None, tk_result = None,
      tk_on_fulfilled = None, tk_on_rejected = None, tk_path = None, tk_encoding = None, tk_content = None,
      tk_worker_result = None, tk_due = 0, tk_timer_id = 0, tk_dependency_count = 0, tk_queued = False,
      tk_finished = False\<rparr>"

definition new_task :: "sched \<Rightarrow> microtask \<Rightarrow> nat \<times> sched" where
  "new_task s k = (next_task s, s\<lparr>task_at := (task_at s)(next_task s \<mapsto> k), next_task := next_task s + 1\<rparr>)"

definition jayess_enqueue_promise_task ::
  "items_of \<Rightarrow> sched \<Rightarrow> jayess_value option \<Rightarrow> jayess_value option \<Rightarrow> jayess_value option
   \<Rightarrow> jayess_value option \<Rightarrow> promise_action \<Rightarrow> sched" where
  "jayess_enqueue_promise_task items s source result on_fulfilled on_rejected action =
     (let (t, s1) = new_task s ((blank_task Task_Promise_Callback)
            \<lparr>tk_action := action, tk_source := source, tk_result := result,
             tk_on_fulfilled := on_fulfilled, tk_on_rejected := on_rejected\<rparr>);
          (added, s2) = (if action = Act_Then \<or> action = Act_Finally
                         then jayess_promise_add_dependent s1 source t
                         else jayess_promise_add_combinator_dependents items s1 t)
      in if added then s2 else jayess_append_microtask s2 t)"

definition jayess_enqueue_microtask ::
  "items_of \<Rightarrow> sched \<Rightarrow> jayess_value option \<Rightarrow> jayess_value option \<Rightarrow> jayess_value option
   \<Rightarrow> jayess_value option \<Rightarrow> sched" where
  "jayess_enqueue_microtask items s source result on_fulfilled on_rejected =
     jayess_enqueue_promise_task items s source result on_fulfilled on_rejected Act_Then"

text \<open>
  An I/O task: handed to the worker pool, or completed at once with a default result when the pool
  cannot be started.
\<close>

definition enqueue_io_task :: "bool \<Rightarrow> sched \<Rightarrow> microtask \<Rightarrow> jayess_value \<Rightarrow> sched" where
  "enqueue_io_task pool_started s k default_result =
     (let (t, s1) = new_task s (if pool_started then k
            else k\<lparr>tk_worker_result := Some default_result, tk_completed := True\<rparr>);
          s2 = (if pool_started then s1\<lparr>io_pool := jayess_queue_append (io_pool s1) t\<rparr> else s1)
      in jayess_append_microtask s2 t)"

definition jayess_enqueue_fs_read_file_task ::
  "bool \<Rightarrow> sched \<Rightarrow> jayess_value option \<Rightarrow> jayess_value option \<Rightarrow> jayess_value option \<Rightarrow> sched" where
  "jayess_enqueue_fs_read_file_task started s result path encoding =
     enqueue_io_task started s ((blank_task Task_Fs_Read)
       \<lparr>tk_result := result, tk_path := path, tk_encoding := encoding\<rparr>) VUndefined"

definition jayess_enqueue_fs_write_file_task ::
  "bool \<Rightarrow> sched \<Rightarrow> jayess_value option \<Rightarrow> jayess_value option \<Rightarrow> jayess_value option \<Rightarrow> sched" where
  "jayess_enqueue_fs_write_file_task started s result path content =
     enqueue_io_task started s ((blank_task Task_Fs_Write)
       \<lparr>tk_result := result, tk_path := path, tk_content := content\<rparr>) (VBool False)"

definition jayess_enqueue_socket_read_task ::
  "bool \<Rightarrow> sched \<Rightarrow> jayess_value option \<Rightarrow> jayess_value option \<Rightarrow> jayess_value option \<Rightarrow> sched" where
  "jayess_enqueue_socket_read_task started s result socket wanted =
     enqueue_io_task started s ((blank_task Task_Socket_Read)
       \<lparr>tk_source := socket, tk_result := result, tk_path := wanted\<rparr>) VUndefined"

definition jayess_enqueue_socket_write_task ::
  "bool \<Rightarrow> sched \<Rightarrow> jayess_value option \<Rightarrow> jayess_value option \<Rightarrow> jayess_value option \<Rightarrow> sched" where
  "jayess_enqueue_socket_write_task started s result socket v =
     enqueue_io_task started s ((blank_task Task_Socket_Write)
       \<lparr>tk_source := socket, tk_result := result, tk_content := v\<rparr>) (VBool False)"

definition jayess_enqueue_server_accept_task ::
  "bool \<Rightarrow> sched \<Rightarrow> jayess_value option \<Rightarrow> jayess_value option \<Rightarrow> sched" where
  "jayess_enqueue_server_accept_task started s result server =
     enqueue_io_task started s ((blank_task Task_Server_Accept)
       \<lparr>tk_source := server, tk_result := result\<rparr>) VUndefined"

definition http_task_kind :: "bool \<Rightarrow> bool \<Rightarrow> bool \<Rightarrow> task_kind" where
  "http_task_kind is_get is_https is_stream =
     (if is_https
      then if is_stream then if is_get then Task_Https_Get_Stream else Task_Https_Request_Stream
           else if is_get then Task_Https_Get else Task_Https_Request
      else if is_stream then if is_get then Task_Http_Get_Stream else Task_Http_Request_Stream
           else if is_get then Task_Http_Get else Task_Http_Request)"

definition jayess_enqueue_http_request_task ::
  "bool \<Rightarrow> sched \<Rightarrow> jayess_value option \<Rightarrow> jayess_value option \<Rightarrow> bool \<Rightarrow> bool \<Rightarrow> bool \<Rightarrow> sched" where
  "jayess_enqueue_http_request_task started s result options is_get is_https is_stream =
     enqueue_io_task started s ((blank_task (http_task_kind is_get is_https is_stream))
       \<lparr>tk_result := result, tk_content := options\<rparr>) VUndefined"

definition jayess_enqueue_timer_task :: "sched \<Rightarrow> jayess_value option \<Rightarrow> int \<Rightarrow> sched" where
  "jayess_enqueue_timer_task s callback delay_ms =
     (let (t, s1) = new_task s ((blank_task Task_Timer)
            \<lparr>tk_on_fulfilled := callback, tk_due := time_now s + (if delay_ms > 0 then delay_ms else 0),
             tk_timer_id := next_timer_id s\<rparr>)
      in jayess_append_microtask (s1\<lparr>next_timer_id := next_timer_id s + 1\<rparr>) t)"

definition jayess_enqueue_sleep_async_task ::
  "sched \<Rightarrow> jayess_value option \<Rightarrow> int \<Rightarrow> jayess_value option \<Rightarrow> sched" where
  "jayess_enqueue_sleep_async_task s result delay_ms v =
     (let (t, s1) = new_task s ((blank_task Task_Timer)
            \<lparr>tk_result := result, tk_worker_result := Some (value_or_undefined v),
             tk_due := time_now s + (if delay_ms > 0 then delay_ms else 0)\<rparr>)
      in jayess_append_microtask s1 t)"

section \<open>Dequeueing\<close>

fun remove_first :: "(nat \<Rightarrow> bool) \<Rightarrow> nat list \<Rightarrow> (nat \<times> nat list) option" where
  "remove_first P [] = None"
| "remove_first P (t # ts) =
     (if P t then Some (t, ts) else map_option (\<lambda>(u, us). (u, t # us)) (remove_first P ts))"

definition task_holds :: "sched \<Rightarrow> (microtask \<Rightarrow> bool) \<Rightarrow> nat \<Rightarrow> bool" where
  "task_holds s P t \<longleftrightarrow> (case task_at s t of None \<Rightarrow> False | Some k \<Rightarrow> P k)"

definition unqueue :: "sched \<Rightarrow> nat \<Rightarrow> sched" where
  "unqueue s t = update_task s t (\<lambda>k. k\<lparr>tk_queued := False\<rparr>)"

definition jayess_scheduler_promote_completed_io :: "sched \<Rightarrow> sched" where
  "jayess_scheduler_promote_completed_io s =
     s\<lparr>io_pending := filter (\<lambda>t. \<not> task_holds s tk_completed t) (io_pending s),
       io_completions := io_completions s @ filter (task_holds s tk_completed) (io_pending s)\<rparr>"

definition jayess_queue_remove_ready_promise_callback :: "items_of \<Rightarrow> sched \<Rightarrow> nat list \<Rightarrow> (nat \<times> nat list) option" where
  "jayess_queue_remove_ready_promise_callback items s q =
     remove_first (task_holds s (jayess_promise_combinator_ready items s)) q"

definition jayess_queue_remove_due_timer :: "sched \<Rightarrow> nat list \<Rightarrow> int \<Rightarrow> (nat \<times> nat list) option" where
  "jayess_queue_remove_due_timer s q now_ms = remove_first (task_holds s (\<lambda>k. tk_due k \<le> now_ms)) q"

definition jayess_queue_pop_head :: "nat list \<Rightarrow> (nat \<times> nat list) option" where
  "jayess_queue_pop_head q = (case q of [] \<Rightarrow> None | t # rest \<Rightarrow> Some (t, rest))"

lemmas queue_removal = jayess_queue_remove_ready_promise_callback_def jayess_queue_remove_due_timer_def
  jayess_queue_pop_head_def

text \<open>
  A ready promise callback first, then a completed I/O task, then the first due timer in the order
  the timers were set, and at last a promise callback that is not ready.
\<close>

definition jayess_dequeue_microtask :: "items_of \<Rightarrow> sched \<Rightarrow> nat option \<times> sched" where
  "jayess_dequeue_microtask items s =
     (case jayess_queue_remove_ready_promise_callback items s (callbacks s) of
        Some (t, q) \<Rightarrow> (Some t, unqueue (s\<lparr>callbacks := q\<rparr>) t)
      | None \<Rightarrow>
          (let s1 = jayess_scheduler_promote_completed_io s
           in case jayess_queue_pop_head (io_completions s1) of
                Some (t, q) \<Rightarrow> (Some t, unqueue (s1\<lparr>io_completions := q\<rparr>) t)
              | None \<Rightarrow>
                  (case jayess_queue_remove_due_timer s1 (timers s1) (time_now s1) of
                     Some (t, q) \<Rightarrow> (Some t, unqueue (s1\<lparr>timers := q\<rparr>) t)
                   | None \<Rightarrow>
                       (case jayess_queue_pop_head (callbacks s1) of
                          Some (t, q) \<Rightarrow> (Some t, unqueue (s1\<lparr>callbacks := q\<rparr>) t)
                        | None \<Rightarrow> (None, s1)))))"

text \<open>How long the loop sleeps when nothing can run.\<close>

fun earliest_due :: "sched \<Rightarrow> int \<Rightarrow> nat list \<Rightarrow> int" where
  "earliest_due s best [] = best"
| "earliest_due s best (t # ts) =
     (case task_at s t of None \<Rightarrow> earliest_due s best ts
      | Some k \<Rightarrow> earliest_due s (if best < 0 \<or> tk_due k < best then tk_due k else best) ts)"

definition jayess_scheduler_next_timer_delay_ms :: "sched \<Rightarrow> int" where
  "jayess_scheduler_next_timer_delay_ms s =
     (let best = earliest_due s (-1) (timers s)
      in if best < 0 then 1
         else if best \<le> time_now s then 0
         else (let delay = best - time_now s in if delay < 1 then 1 else if 50 < delay then 50 else delay))"

section \<open>Running the combinators\<close>

datatype outcome =
    Wait
  | Settle promise_status jayess_value sched

text \<open>A new array with the given values.\<close>

definition new_array :: "sched \<Rightarrow> jayess_value list \<Rightarrow> jayess_value \<times> sched" where
  "new_array s vs =
     (let (a, r) = jayess_array_new (rt s)
      in (VArray a, s\<lparr>rt := array_write r a (append_loop (accounting r) (slots_at r a) (map Some vs))\<rparr>))"

fun all_loop :: "sched \<Rightarrow> jayess_slots \<Rightarrow> jayess_value list \<Rightarrow> outcome" where
  "all_loop s [] resolved = (let (v, s1) = new_array s resolved in Settle Fulfilled v s1)"
| "all_loop s (item # rest) resolved =
     (if promise_id s item \<noteq> None
      then if jayess_promise_is_state s item Pending then Wait
           else if jayess_promise_is_state s item Rejected then Settle Rejected (jayess_promise_value s item) s
           else all_loop s rest (resolved @ [jayess_promise_value s item])
      else all_loop s rest (resolved @ [value_or_undefined item]))"

fun race_loop :: "sched \<Rightarrow> bool \<Rightarrow> jayess_slots \<Rightarrow> outcome" where
  "race_loop s saw_pending [] = (if saw_pending then Wait else Settle Fulfilled VUndefined s)"
| "race_loop s saw_pending (item # rest) =
     (if promise_id s item \<noteq> None
      then if jayess_promise_is_state s item Pending then race_loop s True rest
           else Settle (if jayess_promise_is_state s item Rejected then Rejected else Fulfilled)
                  (jayess_promise_value s item) s
      else Settle Fulfilled (value_or_undefined item) s)"

definition jayess_promise_settled_record :: "sched \<Rightarrow> string \<Rightarrow> string \<Rightarrow> jayess_value \<Rightarrow> jayess_value \<times> sched" where
  "jayess_promise_settled_record s status slot v =
     (let (a, r) = jayess_object_new (rt s);
          r1 = object_set r a ''status'' (VString status)
      in (VObject a, s\<lparr>rt := object_set r1 a slot v\<rparr>))"

fun all_settled_loop :: "sched \<Rightarrow> jayess_slots \<Rightarrow> jayess_value list \<Rightarrow> outcome" where
  "all_settled_loop s [] settled = (let (v, s1) = new_array s settled in Settle Fulfilled v s1)"
| "all_settled_loop s (item # rest) settled =
     (if promise_id s item \<noteq> None
      then if jayess_promise_is_state s item Pending then Wait
           else if jayess_promise_is_state s item Rejected
           then (let (r, s1) = jayess_promise_settled_record s ''rejected'' ''reason'' (jayess_promise_value s item)
                 in all_settled_loop s1 rest (settled @ [r]))
           else (let (r, s1) = jayess_promise_settled_record s ''fulfilled'' ''value'' (jayess_promise_value s item)
                 in all_settled_loop s1 rest (settled @ [r]))
      else (let (r, s1) = jayess_promise_settled_record s ''fulfilled'' ''value'' (value_or_undefined item)
            in all_settled_loop s1 rest (settled @ [r])))"

text \<open>The aggregate error carries an array that is a copy of the errors.\<close>

definition jayess_std_aggregate_error_new :: "sched \<Rightarrow> jayess_value list \<Rightarrow> string \<Rightarrow> jayess_value \<times> sched" where
  "jayess_std_aggregate_error_new s errors message =
     (let (a, r) = jayess_object_new (rt s);
          (copy, s1) = new_array (s\<lparr>rt := r\<rparr>) errors;
          r1 = object_set (rt s1) a ''__jayess_std_kind'' (VString ''AggregateError'');
          r2 = object_set r1 a ''name'' (VString ''AggregateError'');
          r3 = object_set r2 a ''message'' (VString message)
      in (VObject a, s1\<lparr>rt := object_set r3 a ''errors'' copy\<rparr>))"

fun any_loop :: "sched \<Rightarrow> jayess_slots \<Rightarrow> jayess_value list \<Rightarrow> outcome" where
  "any_loop s [] errors =
     (let (e, s1) = jayess_std_aggregate_error_new s errors ''All promises were rejected'' in Settle Rejected e s1)"
| "any_loop s (item # rest) errors =
     (if promise_id s item \<noteq> None
      then if jayess_promise_is_state s item Pending then Wait
           else if jayess_promise_is_state s item Fulfilled then Settle Fulfilled (jayess_promise_value s item) s
           else any_loop s rest (errors @ [jayess_promise_value s item])
      else Settle Fulfilled (value_or_undefined item) s)"

definition combinator_outcome :: "items_of \<Rightarrow> sched \<Rightarrow> microtask \<Rightarrow> outcome" where
  "combinator_outcome items s k =
     (let its = jayess_value_iterable_values items s (tk_source k)
      in case tk_action k of
           Act_Race \<Rightarrow> race_loop s False its
         | Act_All_Settled \<Rightarrow> all_settled_loop s its []
         | Act_Any \<Rightarrow> any_loop s its []
         | _ \<Rightarrow> all_loop s its [])"

text \<open>Whether the task is done, and the state.\<close>

definition jayess_requeue_microtask :: "sched \<Rightarrow> nat \<Rightarrow> sched" where
  "jayess_requeue_microtask s t = jayess_append_microtask s t"

definition run_combinator_task :: "items_of \<Rightarrow> sched \<Rightarrow> nat \<Rightarrow> microtask \<Rightarrow> bool \<times> sched" where
  "run_combinator_task items s t k =
     (case combinator_outcome items s k of
        Settle st v s1 \<Rightarrow> (True, jayess_promise_settle s1 (tk_result k) st (Some v))
      | Wait \<Rightarrow>
          (let (added, s1) = jayess_promise_add_combinator_dependents items s t
           in (False, if added then s1 else jayess_requeue_microtask s1 t)))"

section \<open>Running a task\<close>

type_synonym caller = "sched \<Rightarrow> jayess_value option \<Rightarrow> jayess_value option \<Rightarrow> jayess_value option \<times> sched"

definition is_function :: "jayess_value option \<Rightarrow> bool" where
  "is_function v \<longleftrightarrow> (case v of Some (VFunction _) \<Rightarrow> True | _ \<Rightarrow> False)"

definition sched_throw_type_error :: "sched \<Rightarrow> string \<Rightarrow> sched" where
  "sched_throw_type_error s message = s\<lparr>rt := jayess_throw_type_error (rt s) message\<rparr>"

text \<open>Rejecting with the pending exception, which is thereby taken.\<close>

definition reject_exception :: "sched \<Rightarrow> jayess_value option \<Rightarrow> sched" where
  "reject_exception s p =
     (let (e, r) = jayess_take_exception (rt s) in jayess_promise_settle (s\<lparr>rt := r\<rparr>) p Rejected (Some e))"

definition jayess_run_async_worker_task :: "(sched \<Rightarrow> microtask \<Rightarrow> sched) \<Rightarrow> sched \<Rightarrow> microtask \<Rightarrow> bool \<times> sched" where
  "jayess_run_async_worker_task socket_effects s k =
     (if \<not> tk_completed k
      then (True, reject_type_error s (tk_result k) ''internal async I/O task ran before completion'')
      else (let s1 = socket_effects s k
            in if jayess_has_exception (rt s1) then (True, reject_exception s1 (tk_result k))
               else (True, jayess_promise_settle s1 (tk_result k) Fulfilled (tk_worker_result k))))"

definition run_timer_task :: "caller \<Rightarrow> sched \<Rightarrow> microtask \<Rightarrow> bool \<times> sched" where
  "run_timer_task call s k =
     (if tk_result k \<noteq> None
      then (True, jayess_promise_settle s (tk_result k) Fulfilled (tk_worker_result k))
      else if \<not> is_function (tk_on_fulfilled k)
      then (True, sched_throw_type_error s ''setTimeout callback must be a function'')
      else (True, snd (call s (tk_on_fulfilled k) (Some VUndefined))))"

definition guard_limit :: nat where
  "guard_limit = 100000"

definition is_nullish :: "jayess_value option \<Rightarrow> bool" where
  "is_nullish v \<longleftrightarrow> v = None \<or> v = Some VUndefined \<or> v = Some VNull"

text \<open>What becomes of a task that is done: it is kept while promises still point to it.\<close>

definition release_task :: "sched \<Rightarrow> nat \<Rightarrow> sched" where
  "release_task s t =
     (case task_at s t of
        None \<Rightarrow> s\<lparr>faulted := True\<rparr>
      | Some k \<Rightarrow> if 0 < tk_dependency_count k then update_task s t (\<lambda>k. k\<lparr>tk_finished := True\<rparr>) else free_task s t)"

text \<open>What the loop depends on besides the scheduler itself.\<close>

record hooks =
  hk_items :: items_of
  hk_call :: caller
  hk_socket_effects :: "sched \<Rightarrow> microtask \<Rightarrow> sched"
  hk_env :: "sched \<Rightarrow> sched"

text \<open>
  \<open>jayess_run_microtask\<close> and \<open>jayess_run_microtasks\<close> call each other: a callback that answers a
  promise starts a nested loop. \<open>d\<close> bounds the nesting, \<open>None\<close> is deeper nesting; \<open>g\<close> is the
  number of turns the loop has left. After a callback, the functions below say how the task goes
  on.
\<close>

definition finish_then :: "hooks \<Rightarrow> microtask \<Rightarrow> jayess_value option \<Rightarrow> sched \<Rightarrow> bool \<times> sched" where
  "finish_then h k r s =
     (if jayess_promise_is_state s r Pending
      then (True, jayess_enqueue_microtask (hk_items h) s r (tk_result k) (Some VUndefined) (Some VUndefined))
      else (True, jayess_promise_settle s (tk_result k)
                    (if jayess_promise_is_state s r Rejected then Rejected else Fulfilled)
                    (Some (jayess_promise_value s r))))"

definition finish_finally ::
  "hooks \<Rightarrow> nat \<Rightarrow> microtask \<Rightarrow> bool \<Rightarrow> jayess_value \<Rightarrow> jayess_value option \<Rightarrow> sched \<Rightarrow> bool \<times> sched" where
  "finish_finally h t k rejected stored r s =
     (if jayess_promise_is_state s r Pending
      then (let (added, s1) = jayess_promise_add_dependent s r t
            in (False, hk_env h (if added then s1 else jayess_requeue_microtask s1 t)))
      else if jayess_promise_is_state s r Rejected
      then (True, jayess_promise_settle s (tk_result k) Rejected (Some (jayess_promise_value s r)))
      else (True, jayess_promise_settle s (tk_result k) (if rejected then Rejected else Fulfilled) (Some stored)))"

function jayess_run_microtask :: "hooks \<Rightarrow> nat \<Rightarrow> nat \<Rightarrow> sched \<Rightarrow> (bool \<times> sched) option"
  and run_microtasks_loop :: "hooks \<Rightarrow> nat \<Rightarrow> nat \<Rightarrow> sched \<Rightarrow> sched option" where
  "jayess_run_microtask h d t s =
     (case task_at s t of
        None \<Rightarrow> Some (True, s\<lparr>faulted := True\<rparr>)
      | Some k \<Rightarrow>
          if tk_kind k = Task_Timer then Some (run_timer_task (hk_call h) s k)
          else if tk_kind k \<noteq> Task_Promise_Callback then Some (jayess_run_async_worker_task (hk_socket_effects h) s k)
          else if tk_action k \<noteq> Act_Then \<and> tk_action k \<noteq> Act_Finally then Some (run_combinator_task (hk_items h) s t k)
          else if jayess_promise_is_state s (tk_source k) Pending
          then (let (added, s1) = jayess_promise_add_dependent s (tk_source k) t
                in if added then Some (False, s1)
                   else Some (True, jayess_enqueue_microtask (hk_items h) s1 (tk_source k) (tk_result k)
                                      (tk_on_fulfilled k) (tk_on_rejected k)))
          else
            (let stored = jayess_promise_value s (tk_source k);
                 rejected = jayess_promise_is_state s (tk_source k) Rejected;
                 callback = (if tk_action k = Act_Finally then tk_on_fulfilled k
                             else if rejected then tk_on_rejected k else tk_on_fulfilled k);
                 argument = (if tk_action k = Act_Finally then VUndefined else stored)
             in if is_nullish callback
                then Some (True, jayess_promise_settle s (tk_result k) (if rejected then Rejected else Fulfilled) (Some stored))
                else if \<not> is_function callback
                then Some (True, reject_type_error s (tk_result k)
                       (if tk_action k = Act_Finally then ''Promise.finally callback must be a function''
                        else ''Promise callback must be a function''))
                else
                  (let (r, s1) = hk_call h s callback (Some argument)
                   in if jayess_has_exception (rt s1) then Some (True, reject_exception s1 (tk_result k))
                      else if promise_id s1 r = None
                      then Some (True, if tk_action k = Act_Finally
                             then jayess_promise_settle s1 (tk_result k) (if rejected then Rejected else Fulfilled) (Some stored)
                             else jayess_promise_settle s1 (tk_result k) Fulfilled r)
                      else if d = 0 then None
                      else (case run_microtasks_loop h (d - 1) guard_limit s1 of
                              None \<Rightarrow> None
                            | Some s2 \<Rightarrow> Some (if tk_action k = Act_Finally then finish_finally h t k rejected stored r s2
                                             else finish_then h k r s2)))))"
| "run_microtasks_loop h d g s =
     (if g = 0 then Some (sched_throw_type_error s ''microtask queue did not settle'')
      else if \<not> jayess_scheduler_has_tasks s then Some s
      else
        (let s1 = hk_env h s
         in if jayess_has_exception (rt s1) then Some s1
            else (case jayess_dequeue_microtask (hk_items h) s1 of
                    (None, s2) \<Rightarrow> run_microtasks_loop h d (g - 1) (hk_env h s2)
                  | (Some t, s2) \<Rightarrow>
                      (case jayess_run_microtask h d t s2 of
                         None \<Rightarrow> None
                       | Some (finished, s3) \<Rightarrow>
                           (let s4 = (if finished then release_task s3 t else s3)
                            in if jayess_has_exception (rt s4) then Some s4
                               else run_microtasks_loop h d (g - 1) s4)))))"
  by pat_completeness auto
termination
  by (relation "inv_image (less_than <*lex*> less_than)
        (case_sum (\<lambda>(h, d, t, s). (2 * d, 0)) (\<lambda>(h, d, g, s). (2 * d + 1, g)))") auto

declare jayess_run_microtask.simps [simp del] run_microtasks_loop.simps [simp del]

definition jayess_run_microtasks :: "hooks \<Rightarrow> nat \<Rightarrow> sched \<Rightarrow> sched option" where
  "jayess_run_microtasks h d s = run_microtasks_loop h d guard_limit s"

section \<open>The interface to programs\<close>

definition jayess_std_promise_combinator :: "items_of \<Rightarrow> promise_action \<Rightarrow> sched \<Rightarrow> jayess_value option \<Rightarrow> jayess_value \<times> sched" where
  "jayess_std_promise_combinator items action s vs =
     (let (p, s1) = jayess_std_promise_pending s
      in (p, jayess_enqueue_promise_task items s1 vs (Some p) (Some VUndefined) (Some VUndefined) action))"

definition jayess_std_promise_all :: "items_of \<Rightarrow> sched \<Rightarrow> jayess_value option \<Rightarrow> jayess_value \<times> sched" where
  "jayess_std_promise_all items s vs = jayess_std_promise_combinator items Act_All s vs"

definition jayess_std_promise_race :: "items_of \<Rightarrow> sched \<Rightarrow> jayess_value option \<Rightarrow> jayess_value \<times> sched" where
  "jayess_std_promise_race items s vs = jayess_std_promise_combinator items Act_Race s vs"

definition jayess_std_promise_all_settled :: "items_of \<Rightarrow> sched \<Rightarrow> jayess_value option \<Rightarrow> jayess_value \<times> sched" where
  "jayess_std_promise_all_settled items s vs = jayess_std_promise_combinator items Act_All_Settled s vs"

definition jayess_std_promise_any :: "items_of \<Rightarrow> sched \<Rightarrow> jayess_value option \<Rightarrow> jayess_value \<times> sched" where
  "jayess_std_promise_any items s vs = jayess_std_promise_combinator items Act_Any s vs"

definition reject_non_promise :: "sched \<Rightarrow> string \<Rightarrow> jayess_value \<times> sched" where
  "reject_non_promise s message =
     (let (e, r) = jayess_type_error_value (rt s) message in jayess_std_promise_reject (s\<lparr>rt := r\<rparr>) (Some e))"

definition jayess_std_promise_then_method ::
  "items_of \<Rightarrow> sched \<Rightarrow> jayess_value option \<Rightarrow> jayess_value option \<Rightarrow> jayess_value option \<Rightarrow> jayess_value \<times> sched" where
  "jayess_std_promise_then_method items s p on_fulfilled on_rejected =
     (if promise_id s p = None then reject_non_promise s ''Promise.then called on non-promise value''
      else (let (result, s1) = jayess_std_promise_pending s
            in (result, jayess_enqueue_microtask items s1 p (Some result) on_fulfilled on_rejected)))"

definition jayess_std_promise_catch_method ::
  "items_of \<Rightarrow> sched \<Rightarrow> jayess_value option \<Rightarrow> jayess_value option \<Rightarrow> jayess_value \<times> sched" where
  "jayess_std_promise_catch_method items s p on_rejected =
     jayess_std_promise_then_method items s p (Some VUndefined) on_rejected"

definition jayess_std_promise_finally_method ::
  "items_of \<Rightarrow> sched \<Rightarrow> jayess_value option \<Rightarrow> jayess_value option \<Rightarrow> jayess_value \<times> sched" where
  "jayess_std_promise_finally_method items s p on_finally =
     (if promise_id s p = None then reject_non_promise s ''Promise.finally called on non-promise value''
      else (let (result, s1) = jayess_std_promise_pending s
            in (result, jayess_enqueue_promise_task items s1 p (Some result) on_finally (Some VUndefined) Act_Finally)))"

text \<open>\<open>delay_ms\<close> and the identifier are the integer parts of numbers, which the caller has read.\<close>

definition jayess_set_timeout :: "sched \<Rightarrow> jayess_value option \<Rightarrow> int \<Rightarrow> jayess_value \<times> sched" where
  "jayess_set_timeout s callback delay_ms =
     (if \<not> is_function callback
      then (VUndefined, sched_throw_type_error s ''setTimeout callback must be a function'')
      else (jayess_value_from_number (dbl_of_int (next_timer_id s)), jayess_enqueue_timer_task s callback delay_ms))"

definition jayess_clear_timeout :: "sched \<Rightarrow> int \<Rightarrow> sched" where
  "jayess_clear_timeout s timer_id =
     (case remove_first (task_holds s (\<lambda>k. tk_kind k = Task_Timer \<and> tk_timer_id k = timer_id)) (timers s) of
        None \<Rightarrow> s
      | Some (t, q) \<Rightarrow> free_task (s\<lparr>timers := q\<rparr>) t)"

definition jayess_sleep_async :: "sched \<Rightarrow> int \<Rightarrow> jayess_value option \<Rightarrow> jayess_value \<times> sched" where
  "jayess_sleep_async s delay_ms v =
     (let (p, s1) = jayess_std_promise_pending s
      in (p, jayess_enqueue_sleep_async_task s1 (Some p) delay_ms v))"

definition jayess_await :: "hooks \<Rightarrow> nat \<Rightarrow> sched \<Rightarrow> jayess_value option \<Rightarrow> (jayess_value \<times> sched) option" where
  "jayess_await h d s v =
     (if promise_id s v = None then Some (value_or_undefined v, s)
      else (case jayess_run_microtasks h d s of
              None \<Rightarrow> None
            | Some s1 \<Rightarrow>
                if jayess_promise_is_state s1 v Pending
                then Some (VUndefined, sched_throw_type_error s1 ''awaited promise did not settle'')
                else if jayess_promise_is_state s1 v Rejected
                then Some (VUndefined, s1\<lparr>rt := jayess_throw (rt s1) (Some (jayess_promise_value s1 v))\<rparr>)
                else Some (jayess_promise_value s1 v, s1)))"

end
