(* ===== verification/Scheduler_Invariant.thy ===== *)
theory Scheduler_Invariant
  imports Scheduler
begin

text \<open>
  The memory-safety invariant of the scheduler. Every task in a queue or waiting for a promise is
  allocated; a task is in at most one queue, at most once, exactly when it is marked as queued; its
  dependency count is the number of promises it waits for; and no task is lost: a task that is not
  queued and not being run waits for a pending promise. \<open>R\<close> is the set of tasks being run, \<open>ds\<close>
  the dependents of a promise that is being settled which have still to be woken.
\<close>

definition queues :: "sched \<Rightarrow> nat list" where
  "queues s = callbacks s @ timers s @ io_pending s @ io_completions s"

definition wait_count :: "sched \<Rightarrow> nat \<Rightarrow> nat" where
  "wait_count s t = count_list (map snd (waiting s)) t"

definition task_ok :: "nat set \<Rightarrow> nat list \<Rightarrow> sched \<Rightarrow> nat \<Rightarrow> microtask \<Rightarrow> bool" where
  "task_ok R ds s t k \<longleftrightarrow>
     tk_dependency_count k = wait_count s t + count_list ds t
     \<and> (tk_queued k \<longleftrightarrow> t \<in> set (queues s))
     \<and> (tk_finished k \<longrightarrow> \<not> tk_queued k)
     \<and> (t \<in> R \<longrightarrow> \<not> tk_queued k \<and> \<not> tk_finished k)
     \<and> (\<not> tk_queued k \<longrightarrow> t \<notin> R \<longrightarrow> 0 < tk_dependency_count k)"

definition sched_inv :: "nat set \<Rightarrow> nat list \<Rightarrow> sched \<Rightarrow> bool" where
  "sched_inv R ds s \<longleftrightarrow>
     \<not> faulted s \<and> distinct (queues s)
     \<and> (\<forall>t \<in> set (queues s) \<union> R \<union> set ds \<union> snd ` set (waiting s). task_at s t \<noteq> None)
     \<and> (\<forall>t k. task_at s t = Some k \<longrightarrow> task_ok R ds s t k)
     \<and> (\<forall>a \<in> fst ` set (waiting s). map_option fst (promise_at s a) = Some Pending)
     \<and> (\<forall>t. next_task s \<le> t \<longrightarrow> task_at s t = None)"

abbreviation sched_ok :: "nat set \<Rightarrow> sched \<Rightarrow> bool" where
  "sched_ok R s \<equiv> sched_inv R [] s"

lemma sched_inv_task: "sched_inv R ds s \<Longrightarrow> task_at s t = Some k \<Longrightarrow> task_ok R ds s t k"
  by (simp add: sched_inv_def)

lemma sched_inv_alloc:
  "sched_inv R ds s \<Longrightarrow> t \<in> set (queues s) \<union> R \<union> set ds \<union> snd ` set (waiting s) \<Longrightarrow> \<exists>k. task_at s t = Some k"
  unfolding sched_inv_def by blast

section \<open>Updating one task\<close>

lemma update_task_Some:
  "task_at s t = Some k \<Longrightarrow> update_task s t f = s\<lparr>task_at := (task_at s)(t \<mapsto> f k)\<rparr>"
  by (simp add: update_task_def)

lemma wait_count_0_iff: "wait_count s t = 0 \<longleftrightarrow> t \<notin> snd ` set (waiting s)"
  by (simp add: wait_count_def count_list_0_iff)

text \<open>
  The general step: a task is changed and moved between the places that may hold it, all other
  tasks stay where they are.
\<close>

lemma sched_inv_change:
  assumes inv: "sched_inv R ds s"
    and k': "task_at s' = (task_at s)(t \<mapsto> k')" and ok: "task_ok R' ds' s' t k'"
    and same: "\<And>u. u \<noteq> t \<Longrightarrow> wait_count s' u + count_list ds' u = wait_count s u + count_list ds u"
      "\<And>u. u \<noteq> t \<Longrightarrow> u \<in> set (queues s') \<longleftrightarrow> u \<in> set (queues s)" "\<And>u. u \<noteq> t \<Longrightarrow> u \<in> R' \<longleftrightarrow> u \<in> R"
    and "distinct (queues s')" and "faulted s' = faulted s" and nxt: "next_task s \<le> next_task s'" "t < next_task s'"
    and pend: "\<And>a. a \<in> fst ` set (waiting s') \<Longrightarrow> map_option fst (promise_at s' a) = Some Pending"
  shows "sched_inv R' ds' s'"
proof -
  have alloc: "task_at s' u \<noteq> None" if u: "u \<in> set (queues s') \<union> R' \<union> set ds' \<union> snd ` set (waiting s')" for u
  proof (cases "u = t")
    case False
    have "u \<in> set ds' \<union> snd ` set (waiting s') \<longleftrightarrow> wait_count s' u + count_list ds' u \<noteq> 0"
      by (simp add: wait_count_0_iff count_list_0_iff disj_commute)
    moreover have "u \<in> set ds \<union> snd ` set (waiting s) \<longleftrightarrow> wait_count s u + count_list ds u \<noteq> 0"
      by (simp add: wait_count_0_iff count_list_0_iff disj_commute)
    ultimately have "u \<in> set (queues s) \<union> R \<union> set ds \<union> snd ` set (waiting s)"
      using u same [OF False] by auto
    with inv False show ?thesis by (auto simp: sched_inv_def k')
  qed (simp add: k')
  have "task_ok R' ds' s' u k" if "task_at s' u = Some k" for u k
  proof (cases "u = t")
    case True
    with that ok show ?thesis by (simp add: k')
  next
    case False
    then have "task_ok R ds s u k" using inv that by (simp add: k' sched_inv_def)
    with same [OF False] show ?thesis unfolding task_ok_def by auto
  qed
  with alloc assms(7,8) pend show ?thesis
    using inv nxt by (auto simp: sched_inv_def k')
qed

text \<open>A task leaves the heap when nothing refers to it any more.\<close>

lemma sched_inv_drop:
  assumes inv: "sched_inv R ds0 s" and ds0: "ds0 = ds \<or> ds0 = t # ds" and gone: "t \<notin> set (queues s)" "t \<notin> set ds" "t \<notin> snd ` set (waiting s)"
  shows "sched_inv (R - {t}) ds (s\<lparr>task_at := (task_at s)(t := None)\<rparr>)"
proof -
  let ?s = "s\<lparr>task_at := (task_at s)(t := None)\<rparr>"
  have q: "queues ?s = queues s" and w: "wait_count ?s u = wait_count s u" for u
    by (simp_all add: queues_def wait_count_def)
  have "task_ok (R - {t}) ds ?s u k" if u: "u \<noteq> t" "task_at s u = Some k" for u k
    using sched_inv_task [OF inv u(2)] u(1) ds0 by (auto simp: task_ok_def q w)
  moreover have "task_at s u \<noteq> None" if "u \<in> set (queues s) \<union> (R - {t}) \<union> set ds \<union> snd ` set (waiting s)" for u
    using inv that ds0 by (auto simp: sched_inv_def)
  ultimately show ?thesis
    using inv gone by (auto simp: sched_inv_def q)
qed

lemma free_task_Some: "task_at s t = Some k \<Longrightarrow> free_task s t = s\<lparr>task_at := (task_at s)(t := None)\<rparr>"
  by (simp add: free_task_def)

section \<open>The queue operations\<close>

lemma append_queues:
  assumes "task_at s t = Some k"
  shows "\<exists>q1 q2. queues s = q1 @ q2 \<and> queues (jayess_append_microtask s t) = q1 @ t # q2"
proof -
  consider "tk_kind k = Task_Promise_Callback" | "tk_kind k = Task_Timer"
    | "tk_kind k \<noteq> Task_Promise_Callback" "tk_kind k \<noteq> Task_Timer" by blast
  then show ?thesis
  proof cases
    case 1
    then show ?thesis using assms
      by (intro exI [of _ "callbacks s"] exI [of _ "timers s @ io_pending s @ io_completions s"])
        (simp add: jayess_append_microtask_def update_task_def queues_def jayess_queue_append_def)
  next
    case 2
    then show ?thesis using assms
      by (intro exI [of _ "callbacks s @ timers s"] exI [of _ "io_pending s @ io_completions s"])
        (simp add: jayess_append_microtask_def update_task_def queues_def jayess_queue_append_def)
  next
    case 3
    then show ?thesis using assms
      by (intro exI [of _ "callbacks s @ timers s @ io_pending s"] exI [of _ "io_completions s"])
        (simp add: jayess_append_microtask_def update_task_def queues_def jayess_queue_append_def)
  qed
qed

lemma append_frame:
  assumes "task_at s t = Some k"
  shows "task_at (jayess_append_microtask s t) = (task_at s)(t \<mapsto> k\<lparr>tk_queued := True\<rparr>)"
    and "waiting (jayess_append_microtask s t) = waiting s"
    and "promise_at (jayess_append_microtask s t) = promise_at s"
    and "faulted (jayess_append_microtask s t) = faulted s"
    and "next_task (jayess_append_microtask s t) = next_task s" and "rt (jayess_append_microtask s t) = rt s"
  using assms by (simp_all add: jayess_append_microtask_def update_task_def Let_def)

lemma next_task_less: "sched_inv R ds s \<Longrightarrow> task_at s t = Some k \<Longrightarrow> t < next_task s"
  unfolding sched_inv_def by (metis not_less option.distinct(1))

lemma sched_inv_append:
  assumes inv: "sched_inv R ds s" and k: "task_at s t = Some k" and "\<not> tk_queued k" and "\<not> tk_finished k"
  shows "sched_inv (R - {t}) ds (jayess_append_microtask s t)"
proof -
  obtain q1 q2 where q: "queues s = q1 @ q2" "queues (jayess_append_microtask s t) = q1 @ t # q2"
    using append_queues [OF k] by blast
  note frame = append_frame [OF k]
  have ok: "task_ok R ds s t k" by (rule sched_inv_task [OF inv k])
  then have "t \<notin> set (queues s)" using assms(3) by (simp add: task_ok_def)
  with inv q have "distinct (queues (jayess_append_microtask s t))" by (simp add: sched_inv_def)
  moreover have "task_ok (R - {t}) ds (jayess_append_microtask s t) t (k\<lparr>tk_queued := True\<rparr>)"
    using ok assms(4) by (simp add: task_ok_def q wait_count_def frame)
  ultimately show ?thesis
    using inv frame(1) q next_task_less [OF inv k]
    by (intro sched_inv_change [OF inv frame(1)]) (auto simp: frame wait_count_def sched_inv_def)
qed

lemma wake_cases:
  assumes inv: "sched_inv R (t # ds) s" and "t \<notin> R"
  obtains k k' s1 where "task_at s t = Some k" and "k' = k\<lparr>tk_dependency_count := tk_dependency_count k - 1\<rparr>"
    and "s1 = s\<lparr>task_at := (task_at s)(t \<mapsto> k')\<rparr>"
    and "wake_dependent s t = (if tk_finished k then if tk_dependency_count k' = 0 then free_task s1 t else s1
           else if \<not> tk_queued k then jayess_append_microtask s1 t else s1)"
    and "tk_dependency_count k' = wait_count s t + count_list ds t"
proof -
  obtain k where k: "task_at s t = Some k" using sched_inv_alloc [OF inv, of t] by auto
  have "task_ok R (t # ds) s t k" by (rule sched_inv_task [OF inv k])
  then have "tk_dependency_count k = Suc (wait_count s t + count_list ds t)" by (simp add: task_ok_def)
  with k show ?thesis
    by (intro that [OF k refl refl]) (simp_all add: wake_dependent_def update_task_def Let_def)
qed

lemma sched_inv_wake:
  assumes inv: "sched_inv R (t # ds) s" and t: "t \<notin> R"
  shows "sched_inv R ds (wake_dependent s t)"
proof -
  from wake_cases [OF assms] obtain k k' s1 where k: "task_at s t = Some k"
    and k': "k' = k\<lparr>tk_dependency_count := tk_dependency_count k - 1\<rparr>"
    and s1: "s1 = s\<lparr>task_at := (task_at s)(t \<mapsto> k')\<rparr>"
    and wake: "wake_dependent s t = (if tk_finished k then if tk_dependency_count k' = 0 then free_task s1 t else s1
           else if \<not> tk_queued k then jayess_append_microtask s1 t else s1)"
    and cnt: "tk_dependency_count k' = wait_count s t + count_list ds t" .
  have ok: "task_ok R (t # ds) s t k" by (rule sched_inv_task [OF inv k])
  have fields: "task_at s1 = (task_at s)(t \<mapsto> k')" "queues s1 = queues s" "wait_count s1 = wait_count s"
    "waiting s1 = waiting s" "promise_at s1 = promise_at s" "faulted s1 = faulted s" "next_task s1 = next_task s"
    by (simp_all add: s1 queues_def wait_count_def fun_eq_iff)
  have inv1: "sched_inv R' ds s1" if R': "R' = (if tk_queued k then R else insert t R)"
    and free: "\<not> tk_finished k" for R'
  proof (rule sched_inv_change [OF inv fields(1)])
    show "task_ok R' ds s1 t k'"
      using ok cnt t free R' by (auto simp: task_ok_def fields k')
  qed (use inv R' next_task_less [OF inv k] in \<open>auto simp: fields sched_inv_def\<close>)
  show ?thesis
  proof (cases "tk_finished k")
    case True
    then have q: "\<not> tk_queued k" using ok unfolding task_ok_def by blast
    show ?thesis
    proof (cases "tk_dependency_count k' = 0")
      case False
      have "sched_inv R ds s1"
      proof (rule sched_inv_change [OF inv fields(1)])
        show "task_ok R ds s1 t k'"
          using ok cnt t False True by (auto simp: task_ok_def fields k')
      qed (use inv next_task_less [OF inv k] in \<open>auto simp: fields sched_inv_def\<close>)
      with True False show ?thesis by (simp add: wake)
    next
      case zero: True
      have "t \<notin> set (queues s)" using ok q unfolding task_ok_def by blast
      moreover have "t \<notin> set ds" "t \<notin> snd ` set (waiting s)"
        using cnt zero by (simp_all add: wait_count_0_iff count_list_0_iff)
      ultimately have "sched_inv (R - {t}) ds (s\<lparr>task_at := (task_at s)(t := None)\<rparr>)"
        by (intro sched_inv_drop [OF inv disjI2 [OF refl]])
      then show ?thesis using True zero t
        by (simp add: wake s1 free_task_def)
    qed
  next
    case False
    show ?thesis
    proof (cases "tk_queued k")
      case True
      with False inv1 show ?thesis by (simp add: wake)
    next
      case nq: False
      have "sched_inv (insert t R) ds s1" using inv1 False nq by simp
      then have "sched_inv (insert t R - {t}) ds (jayess_append_microtask s1 t)"
        using False nq by (intro sched_inv_append [where k = k']) (simp_all add: fields k')
      moreover have "insert t R - {t} = R" using t by blast
      ultimately show ?thesis using False nq by (simp add: wake)
    qed
  qed
qed

section \<open>Settling\<close>

lemma wake_frame:
  assumes "sched_inv R (t # ds) s" and "t \<notin> R"
  shows "waiting (wake_dependent s t) = waiting s" and "promise_at (wake_dependent s t) = promise_at s"
    and "next_task (wake_dependent s t) = next_task s" and "rt (wake_dependent s t) = rt s"
proof -
  from wake_cases [OF assms] obtain k k' s1 where "task_at s t = Some k"
    and "k' = k\<lparr>tk_dependency_count := tk_dependency_count k - 1\<rparr>"
    and s1: "s1 = s\<lparr>task_at := (task_at s)(t \<mapsto> k')\<rparr>"
    and wake: "wake_dependent s t = (if tk_finished k then if tk_dependency_count k' = 0 then free_task s1 t else s1
           else if \<not> tk_queued k then jayess_append_microtask s1 t else s1)"
    and "tk_dependency_count k' = wait_count s t + count_list ds t" .
  have at: "task_at s1 t = Some k'" by (simp add: s1)
  have same: "waiting s1 = waiting s" "promise_at s1 = promise_at s" "next_task s1 = next_task s" "rt s1 = rt s"
    by (simp_all add: s1)
  note frame = append_frame [OF at] free_task_Some [OF at]
  show "waiting (wake_dependent s t) = waiting s" by (simp add: wake frame same)
  show "promise_at (wake_dependent s t) = promise_at s" by (simp add: wake frame same)
  show "next_task (wake_dependent s t) = next_task s" by (simp add: wake frame same)
  show "rt (wake_dependent s t) = rt s" by (simp add: wake frame same)
qed

text \<open>Waking leaves the queued tasks queued.\<close>

lemma wake_queued:
  assumes inv: "sched_inv R (t # ds) s" and t: "t \<notin> R"
  shows "set (queues s) \<subseteq> set (queues (wake_dependent s t))"
    and "\<forall>k. task_at s t = Some k \<longrightarrow> \<not> tk_finished k \<longrightarrow> t \<in> set (queues (wake_dependent s t))"
    and "\<forall>u k. u \<noteq> t \<longrightarrow> task_at (wake_dependent s t) u = task_at s u"
proof -
  from wake_cases [OF assms] obtain k k' s1 where k: "task_at s t = Some k"
    and k': "k' = k\<lparr>tk_dependency_count := tk_dependency_count k - 1\<rparr>"
    and s1: "s1 = s\<lparr>task_at := (task_at s)(t \<mapsto> k')\<rparr>"
    and wake: "wake_dependent s t = (if tk_finished k then if tk_dependency_count k' = 0 then free_task s1 t else s1
           else if \<not> tk_queued k then jayess_append_microtask s1 t else s1)" .
  have at: "task_at s1 t = Some k'" by (simp add: s1)
  obtain q1 q2 where q: "queues s1 = q1 @ q2" "queues (jayess_append_microtask s1 t) = q1 @ t # q2"
    using append_queues [OF at] by blast
  have s1q: "queues s1 = queues s" by (simp add: s1 queues_def)
  have fq: "queues (free_task s1 t) = queues s" by (simp add: free_task_Some [OF at] s1q [symmetric]) (simp add: queues_def)
  show "set (queues s) \<subseteq> set (queues (wake_dependent s t))"
    using q s1q fq by (auto simp: wake)
  have "tk_queued k \<Longrightarrow> t \<in> set (queues s)" using sched_inv_task [OF inv k] by (simp add: task_ok_def)
  then show "\<forall>k. task_at s t = Some k \<longrightarrow> \<not> tk_finished k \<longrightarrow> t \<in> set (queues (wake_dependent s t))"
    using k q s1q by (auto simp: wake)
  show "\<forall>u k. u \<noteq> t \<longrightarrow> task_at (wake_dependent s t) u = task_at s u"
    by (simp add: wake free_task_Some [OF at] append_frame(1) [OF at]) (simp add: s1)
qed

lemma wake_all:
  assumes "sched_inv R ds s" and "set ds \<inter> R = {}"
  shows "sched_inv R [] (foldl wake_dependent s ds)
    \<and> waiting (foldl wake_dependent s ds) = waiting s \<and> promise_at (foldl wake_dependent s ds) = promise_at s
    \<and> next_task (foldl wake_dependent s ds) = next_task s \<and> rt (foldl wake_dependent s ds) = rt s
    \<and> set (queues s) \<subseteq> set (queues (foldl wake_dependent s ds))
    \<and> (\<forall>t k. t \<in> set ds \<longrightarrow> task_at s t = Some k \<longrightarrow> \<not> tk_finished k \<longrightarrow>
        t \<in> set (queues (foldl wake_dependent s ds)))"
  using assms
proof (induction ds arbitrary: s)
  case (Cons t ds)
  then have inv: "sched_inv R (t # ds) s" and t: "t \<notin> R" and ds: "set ds \<inter> R = {}" by auto
  note IH = Cons.IH [OF sched_inv_wake [OF inv t] ds]
  have "u \<in> set (queues (foldl wake_dependent s (t # ds)))"
    if u: "u \<in> set (t # ds)" "task_at s u = Some k" "\<not> tk_finished k" for u k
  proof (cases "u = t")
    case True
    then have "u \<in> set (queues (wake_dependent s t))" using wake_queued(2) [OF inv t] u by blast
    with IH show ?thesis by auto
  next
    case False
    then have "task_at (wake_dependent s t) u = Some k" using wake_queued(3) [OF inv t] u by simp
    with IH False u show ?thesis by auto
  qed
  then show ?case using IH wake_frame [OF inv t] wake_queued(1) [OF inv t] by auto
qed simp

lemma dependents_count:
  "count_list (map snd (filter (\<lambda>d. fst d \<noteq> a) ws)) t + count_list (map snd (filter (\<lambda>d. fst d = a) ws)) t
   = count_list (map snd ws) t"
  by (induction ws) auto

text \<open>The state in which the dependents of a promise are detached from it.\<close>

lemma sched_inv_detach:
  fixes a :: nat and pv :: "promise_status \<times> jayess_value"
  assumes inv: "sched_ok R s"
  defines "s1 \<equiv> s\<lparr>promise_at := (promise_at s)(a \<mapsto> pv), waiting := filter (\<lambda>d. fst d \<noteq> a) (waiting s)\<rparr>"
  shows "sched_inv R (dependents s a) s1"
proof -
  have q: "queues s1 = queues s" by (simp add: s1_def queues_def)
  have cnt: "wait_count s1 t + count_list (dependents s a) t = wait_count s t" for t
    using dependents_count [of a "waiting s" t] by (simp add: s1_def wait_count_def dependents_def)
  have tasks: "\<forall>t k. task_at s t = Some k \<longrightarrow> task_ok R (dependents s a) s1 t k"
  proof (intro allI impI)
    fix t k assume "task_at s t = Some k"
    from sched_inv_task [OF inv this] cnt [of t] show "task_ok R (dependents s a) s1 t k"
      unfolding task_ok_def q by auto
  qed
  have sub: "set (dependents s a) \<union> snd ` set (waiting s1) \<subseteq> snd ` set (waiting s)"
    by (auto simp: s1_def dependents_def)
  have pend: "\<forall>b \<in> fst ` set (waiting s1). map_option fst (promise_at s1 b) = Some Pending"
  proof
    fix b assume "b \<in> fst ` set (waiting s1)"
    then have "b \<noteq> a" and "b \<in> fst ` set (waiting s)" by (auto simp: s1_def)
    with inv show "map_option fst (promise_at s1 b) = Some Pending" by (auto simp: sched_inv_def s1_def)
  qed
  have same: "task_at s1 = task_at s" "faulted s1 = faulted s" "next_task s1 = next_task s" by (simp_all add: s1_def)
  have alloc: "\<forall>u \<in> set (queues s) \<union> R \<union> set (dependents s a) \<union> snd ` set (waiting s1). task_at s u \<noteq> None"
  proof
    fix u assume "u \<in> set (queues s) \<union> R \<union> set (dependents s a) \<union> snd ` set (waiting s1)"
    with sub have "u \<in> set (queues s) \<union> R \<union> set [] \<union> snd ` set (waiting s)" by blast
    from sched_inv_alloc [OF inv this] show "task_at s u \<noteq> None" by simp
  qed
  show ?thesis
    unfolding sched_inv_def q same using inv tasks pend alloc by (simp add: sched_inv_def)
qed

lemma settle_ok:
  fixes st :: promise_status and v :: "jayess_value option"
  assumes inv: "sched_ok R s" and p: "promise_id s p = Some a" and R: "set (dependents s a) \<inter> R = {}"
  defines "s' \<equiv> jayess_promise_settle s p st v"
  shows "sched_ok R s'" and "promise_at s' = (promise_at s)(a \<mapsto> (st, value_or_undefined v))"
    and "waiting s' = filter (\<lambda>d. fst d \<noteq> a) (waiting s)" and "next_task s' = next_task s" and "rt s' = rt s"
    and "set (queues s) \<subseteq> set (queues s')"
    and "\<And>t k. t \<in> set (dependents s a) \<Longrightarrow> task_at s t = Some k \<Longrightarrow> \<not> tk_finished k \<Longrightarrow> t \<in> set (queues s')"
proof -
  define s1 where "s1 = s\<lparr>promise_at := (promise_at s)(a \<mapsto> (st, value_or_undefined v)),
    waiting := filter (\<lambda>d. fst d \<noteq> a) (waiting s)\<rparr>"
  have s': "s' = foldl wake_dependent s1 (dependents s a)"
    by (simp add: s'_def jayess_promise_settle_def p s1_def)
  have "sched_inv R (dependents s a) s1" unfolding s1_def by (rule sched_inv_detach [OF inv])
  note all = wake_all [OF this R]
  have q: "queues s1 = queues s" "task_at s1 = task_at s" by (simp_all add: s1_def queues_def)
  show "sched_ok R s'" "promise_at s' = (promise_at s)(a \<mapsto> (st, value_or_undefined v))"
    "waiting s' = filter (\<lambda>d. fst d \<noteq> a) (waiting s)" "next_task s' = next_task s" "rt s' = rt s"
    "set (queues s) \<subseteq> set (queues s')"
    "\<And>t k. t \<in> set (dependents s a) \<Longrightarrow> task_at s t = Some k \<Longrightarrow> \<not> tk_finished k \<Longrightarrow> t \<in> set (queues s')"
    using all unfolding s' q by (auto simp: s1_def)
qed

end
