(* ===== verification/Scheduler_Steps.thy ===== *)
theory Scheduler_Steps
  imports Scheduler_Invariant
begin

text \<open>
  Every operation of the scheduler keeps the invariant of \<open>Scheduler_Invariant\<close>; the step relation
  \<open>sched_step\<close> puts the operations together in any order, with programs and workers running in
  between, and the invariant holds in every reachable state.
\<close>

section \<open>Frames\<close>

text \<open>Changes outside the task structure keep the invariant.\<close>

lemma sched_inv_frame:
  assumes "sched_inv R ds s" and "queues s' = queues s" and "waiting s' = waiting s" and "task_at s' = task_at s"
    and "next_task s' = next_task s" and "faulted s' = faulted s"
    and "\<And>a. a \<in> fst ` set (waiting s) \<Longrightarrow> promise_at s' a = promise_at s a"
  shows "sched_inv R ds s'"
proof -
  have "task_ok R ds s' = task_ok R ds s"
    by (intro ext) (simp add: task_ok_def wait_count_def assms(2,3))
  with assms(1,7) show ?thesis
    unfolding sched_inv_def assms(2-6) by simp
qed

lemma sched_ok_not_faulted: "sched_inv R ds s \<Longrightarrow> \<not> faulted s"
  by (simp add: sched_inv_def)

section \<open>New tasks and their dependencies\<close>

lemma new_task_ok:
  assumes inv: "sched_ok R s" and k: "tk_dependency_count k = 0" "\<not> tk_queued k" "\<not> tk_finished k"
  shows "sched_ok (insert (next_task s) R) (snd (new_task s k))"
proof -
  let ?t = "next_task s"
  let ?s = "snd (new_task s k)"
  have fields: "task_at ?s = (task_at s)(?t \<mapsto> k)" "queues ?s = queues s" "waiting ?s = waiting s"
    "promise_at ?s = promise_at s" "faulted ?s = faulted s" "next_task ?s = next_task s + 1"
    by (simp_all add: new_task_def queues_def)
  have "task_at s ?t = None" using inv by (simp add: sched_inv_def)
  then have free: "?t \<notin> set (queues s) \<union> R \<union> set [] \<union> snd ` set (waiting s)"
    using sched_inv_alloc [OF inv, of ?t] by auto
  show ?thesis
  proof (rule sched_inv_change [OF inv fields(1)])
    show "task_ok (insert ?t R) [] ?s ?t k"
      using k free by (simp add: task_ok_def fields wait_count_def count_list_0_iff)
  qed (use inv in \<open>auto simp: fields wait_count_def sched_inv_def\<close>)
qed

lemma add_dependent_ok:
  assumes inv: "sched_ok R s" and t: "t \<in> R"
  shows "sched_ok R (snd (jayess_promise_add_dependent s p t))"
    and "fst (jayess_promise_add_dependent s p t) \<Longrightarrow>
      wait_count (snd (jayess_promise_add_dependent s p t)) t = wait_count s t + 1"
    and "wait_count s t \<le> wait_count (snd (jayess_promise_add_dependent s p t)) t"
proof -
  let ?s = "snd (jayess_promise_add_dependent s p t)"
  show "sched_ok R ?s"
  proof (cases "promise_id s p = None \<or> \<not> jayess_promise_is_state s p Pending")
    case True
    then show ?thesis using inv by (auto simp: jayess_promise_add_dependent_def split: option.split)
  next
    case False
    then obtain a where a: "promise_id s p = Some a" and pend: "map_option fst (promise_at s a) = Some Pending"
      by (auto simp: jayess_promise_is_state_def)
    obtain k where k: "task_at s t = Some k" using sched_inv_alloc [OF inv, of t] t by auto
    let ?k = "k\<lparr>tk_dependency_count := tk_dependency_count k + 1, tk_queued := False\<rparr>"
    have s': "?s = s\<lparr>waiting := (a, t) # waiting s, task_at := (task_at s)(t \<mapsto> ?k)\<rparr>"
      using False by (simp add: jayess_promise_add_dependent_def a k update_task_def)
    have fields: "task_at ?s = (task_at s)(t \<mapsto> ?k)" "queues ?s = queues s" "waiting ?s = (a, t) # waiting s"
      "promise_at ?s = promise_at s" "faulted ?s = faulted s" "next_task ?s = next_task s"
      by (simp_all add: s' queues_def)
    have ok: "task_ok R [] s t k" by (rule sched_inv_task [OF inv k])
    show ?thesis
    proof (rule sched_inv_change [OF inv fields(1)])
      show "task_ok R [] ?s t ?k" using ok t by (auto simp: task_ok_def fields wait_count_def)
    qed (use inv pend next_task_less [OF inv k] in \<open>auto simp: fields wait_count_def sched_inv_def\<close>)
  qed
  obtain k where "task_at s t = Some k" using sched_inv_alloc [OF inv, of t] t by auto
  then show "fst (jayess_promise_add_dependent s p t) \<Longrightarrow> wait_count ?s t = wait_count s t + 1"
    and "wait_count s t \<le> wait_count ?s t"
    by (auto simp: jayess_promise_add_dependent_def update_task_def wait_count_def split: option.splits if_splits)
qed

lemma add_dependents_loop_ok:
  assumes "sched_ok R s" and "t \<in> R"
  shows "sched_ok R (snd (add_dependents_loop s t added its))
    \<and> wait_count s t \<le> wait_count (snd (add_dependents_loop s t added its)) t
    \<and> (fst (add_dependents_loop s t added its) \<longrightarrow> added \<or> 0 < wait_count (snd (add_dependents_loop s t added its)) t)"
  using assms(1)
proof (induction its arbitrary: s added)
  case (Cons item its)
  let ?r = "jayess_promise_add_dependent s item t"
  note step = add_dependent_ok [OF Cons.prems assms(2), of item]
  from Cons.IH [OF step(1), of "added \<or> fst ?r"] step(2,3) show ?case
    by (cases "fst ?r") (auto simp: case_prod_unfold)
qed simp

lemma add_combinator_ok:
  assumes inv: "sched_ok R s" and "t \<in> R"
  shows "sched_ok R (snd (jayess_promise_add_combinator_dependents items s t))"
    and "fst (jayess_promise_add_combinator_dependents items s t) \<Longrightarrow>
      0 < wait_count (snd (jayess_promise_add_combinator_dependents items s t)) t"
  using add_dependents_loop_ok [OF assms, of False] sched_inv_alloc [OF inv, of t] assms
  by (auto simp: jayess_promise_add_combinator_dependents_def split: option.split)

text \<open>A running task may stop running: it is queued again, or it waits.\<close>

lemma leave_waiting:
  assumes inv: "sched_ok R s" and "0 < wait_count s t"
  shows "sched_ok (R - {t}) s"
proof -
  have "task_ok (R - {t}) [] s u k" if "task_at s u = Some k" for u k
    using sched_inv_task [OF inv that] assms(2) by (auto simp: task_ok_def)
  with inv show ?thesis by (auto simp: sched_inv_def)
qed

lemma running_task:
  assumes inv: "sched_ok R s" and "t \<in> R"
  obtains k where "task_at s t = Some k" and "\<not> tk_queued k" and "\<not> tk_finished k"
  using sched_inv_alloc [OF inv, of t] sched_inv_task [OF inv] assms(2) by (fastforce simp: task_ok_def)

lemma append_running_ok:
  assumes inv: "sched_ok R s" and "t \<in> R"
  shows "sched_ok (R - {t}) (jayess_append_microtask s t)"
  by (rule running_task [OF assms]) (rule sched_inv_append [OF inv])

text \<open>A new task of any kind, once it is queued or waits.\<close>

lemma new_append_ok:
  assumes inv: "sched_ok R s" and "tk_dependency_count k = 0" "\<not> tk_queued k" "\<not> tk_finished k"
    and same: "queues s' = queues s" "waiting s' = waiting s" "task_at s' = task_at (snd (new_task s k))"
      "next_task s' = next_task s + 1" "faulted s' = faulted s" "promise_at s' = promise_at s"
  shows "sched_ok R (jayess_append_microtask s' (next_task s))"
proof -
  have "sched_ok (insert (next_task s) R) s'"
    by (rule sched_inv_frame [OF new_task_ok [OF inv assms(2-4)]]) (use same in \<open>simp_all add: new_task_def queues_def\<close>)
  from append_running_ok [OF this, of "next_task s"] have "sched_ok (R - {next_task s}) (jayess_append_microtask s' (next_task s))"
    by simp
  moreover have "next_task s \<notin> R"
    using inv sched_inv_alloc [OF inv, of "next_task s"] by (auto simp: sched_inv_def)
  ultimately show ?thesis by simp
qed

lemma enqueue_promise_ok:
  assumes inv: "sched_ok R s"
  shows "sched_ok R (jayess_enqueue_promise_task items s source result f r action)"
proof -
  let ?t = "next_task s"
  define k where "k = (blank_task Task_Promise_Callback)\<lparr>tk_action := action, tk_source := source,
    tk_result := result, tk_on_fulfilled := f, tk_on_rejected := r\<rparr>"
  define s1 where "s1 = snd (new_task s k)"
  define add where "add = (if action = Act_Then \<or> action = Act_Finally then jayess_promise_add_dependent s1 source ?t
    else jayess_promise_add_combinator_dependents items s1 ?t)"
  have s1: "sched_ok (insert ?t R) s1"
    unfolding s1_def by (rule new_task_ok [OF inv]) (simp_all add: k_def blank_task_def)
  have ok: "sched_ok (insert ?t R) (snd add)" and w: "fst add \<Longrightarrow> 0 < wait_count (snd add) ?t"
    using add_dependent_ok [OF s1, of ?t source] add_combinator_ok [OF s1, of ?t items] by (auto simp: add_def)
  have "?t \<notin> R" using inv sched_inv_alloc [OF inv, of ?t] by (auto simp: sched_inv_def)
  then have R: "insert ?t R - {?t} = R" by simp
  have "sched_ok R (if fst add then snd add else jayess_append_microtask (snd add) ?t)"
    using leave_waiting [OF ok w] append_running_ok [OF ok, of ?t] R by simp
  moreover have "new_task s k = (?t, s1)" by (simp add: s1_def new_task_def)
  then have "jayess_enqueue_promise_task items s source result f r action
      = (if fst add then snd add else jayess_append_microtask (snd add) ?t)"
    unfolding jayess_enqueue_promise_task_def Let_def k_def by (simp add: add_def case_prod_unfold)
  ultimately show ?thesis by simp
qed

lemma enqueue_timer_ok: "sched_ok R s \<Longrightarrow> sched_ok R (jayess_enqueue_timer_task s callback ms)"
  by (simp only: jayess_enqueue_timer_task_def new_task_def Let_def prod.case)
    (erule new_append_ok [where k = "(blank_task Task_Timer)\<lparr>tk_on_fulfilled := callback,
        tk_due := time_now s + (if ms > 0 then ms else 0), tk_timer_id := next_timer_id s\<rparr>"],
      simp_all add: blank_task_def new_task_def queues_def)

lemma enqueue_sleep_ok: "sched_ok R s \<Longrightarrow> sched_ok R (jayess_enqueue_sleep_async_task s result ms v)"
  by (simp only: jayess_enqueue_sleep_async_task_def new_task_def Let_def prod.case)
    (erule new_append_ok [where k = "(blank_task Task_Timer)\<lparr>tk_result := result,
        tk_worker_result := Some (value_or_undefined v), tk_due := time_now s + (if ms > 0 then ms else 0)\<rparr>"],
      simp_all add: blank_task_def new_task_def queues_def)

lemma enqueue_io_ok:
  assumes "sched_ok R s" and "tk_dependency_count k = 0" "\<not> tk_queued k" "\<not> tk_finished k"
  shows "sched_ok R (enqueue_io_task started s k v)"
  using assms
  by (simp only: enqueue_io_task_def new_task_def Let_def prod.case)
    (erule new_append_ok [where k = "if started then k else k\<lparr>tk_worker_result := Some v, tk_completed := True\<rparr>"],
      simp_all add: new_task_def queues_def)

section \<open>Taking a task from a queue\<close>

lemma remove_first_Some:
  "remove_first P q = Some (t, q') \<Longrightarrow> \<exists>a b. q = a @ t # b \<and> q' = a @ b \<and> P t \<and> (\<forall>u \<in> set a. \<not> P u)"
proof (induction q arbitrary: q')
  case (Cons u q)
  show ?case
  proof (cases "P u")
    case True
    with Cons.prems show ?thesis by (intro exI [of _ "[]"] exI [of _ q]) auto
  next
    case False
    with Cons.prems obtain us where us: "remove_first P q = Some (t, us)" "q' = u # us" by auto
    from Cons.IH [OF us(1)] obtain a b where "q = a @ t # b \<and> us = a @ b \<and> P t \<and> (\<forall>u \<in> set a. \<not> P u)" by blast
    with us(2) False show ?thesis by (intro exI [of _ "u # a"] exI [of _ b]) auto
  qed
qed simp

lemma remove_first_None: "remove_first P q = None \<longleftrightarrow> (\<forall>t \<in> set q. \<not> P t)"
  by (induction q) auto

lemma remove_first_in: "remove_first P q = Some (t, q') \<Longrightarrow> u \<in> set q' \<Longrightarrow> u \<in> set q"
  using remove_first_Some [of P q t q'] by auto

text \<open>The task leaves its queue and is run.\<close>

lemma unqueue_ok:
  assumes inv: "sched_ok R s" and q: "queues s = q1 @ t # q2"
    and s': "queues s' = q1 @ q2" "waiting s' = waiting s" "task_at s' = task_at s" "promise_at s' = promise_at s"
      "next_task s' = next_task s" "faulted s' = faulted s"
  shows "sched_ok (insert t R) (unqueue s' t)"
proof -
  obtain k where k: "task_at s t = Some k" using sched_inv_alloc [OF inv, of t] q by auto
  let ?k = "k\<lparr>tk_queued := False\<rparr>"
  have fields: "task_at (unqueue s' t) = (task_at s)(t \<mapsto> ?k)" "queues (unqueue s' t) = q1 @ q2"
    "waiting (unqueue s' t) = waiting s" "promise_at (unqueue s' t) = promise_at s"
    "faulted (unqueue s' t) = faulted s" "next_task (unqueue s' t) = next_task s"
    using s' k by (simp_all add: unqueue_def update_task_def queues_def)
  have dist: "distinct (q1 @ t # q2)" using inv q by (simp add: sched_inv_def)
  have ok: "task_ok R [] s t k" by (rule sched_inv_task [OF inv k])
  show ?thesis
  proof (rule sched_inv_change [OF inv fields(1)])
    show "task_ok (insert t R) [] (unqueue s' t) t ?k"
      using ok dist q by (auto simp: task_ok_def fields wait_count_def)
  qed (use inv q dist next_task_less [OF inv k] in \<open>auto simp: fields wait_count_def sched_inv_def\<close>)
qed

lemma promote_ok: "sched_ok R s \<Longrightarrow> sched_ok R (jayess_scheduler_promote_completed_io s)"
proof -
  assume inv: "sched_ok R s"
  let ?s = "jayess_scheduler_promote_completed_io s"
  have same: "waiting ?s = waiting s" "task_at ?s = task_at s" "promise_at ?s = promise_at s"
    "next_task ?s = next_task s" "faulted ?s = faulted s"
    by (simp_all add: jayess_scheduler_promote_completed_io_def)
  have set: "set (queues ?s) = set (queues s)" and "distinct (queues s) \<Longrightarrow> distinct (queues ?s)"
    by (auto simp: jayess_scheduler_promote_completed_io_def queues_def)
  moreover have "task_ok R [] ?s = task_ok R [] s"
    by (intro ext) (simp add: task_ok_def set wait_count_def same)
  ultimately show ?thesis
    using inv unfolding sched_inv_def same by simp
qed

lemma dequeue_ok:
  assumes inv: "sched_ok R s" and "jayess_dequeue_microtask items s = (r, s')"
  shows "sched_ok (set_option r \<union> R) s'"
proof -
  let ?ready = "task_holds s (jayess_promise_combinator_ready items s)"
  define s1 where "s1 = jayess_scheduler_promote_completed_io s"
  have inv1: "sched_ok R s1" unfolding s1_def by (rule promote_ok [OF inv])
  let ?due = "task_holds s1 (\<lambda>k. tk_due k \<le> time_now s1)"
  consider (ready) t q where "remove_first ?ready (callbacks s) = Some (t, q)" "r = Some t" "s' = unqueue (s\<lparr>callbacks := q\<rparr>) t"
    | (io) t q where "io_completions s1 = t # q" "r = Some t" "s' = unqueue (s1\<lparr>io_completions := q\<rparr>) t"
    | (timer) t q where "remove_first ?due (timers s1) = Some (t, q)" "r = Some t" "s' = unqueue (s1\<lparr>timers := q\<rparr>) t"
    | (other) t q where "callbacks s1 = t # q" "r = Some t" "s' = unqueue (s1\<lparr>callbacks := q\<rparr>) t"
    | (none) "r = None" "s' = s1"
  proof (cases "remove_first ?ready (callbacks s)")
    case (Some p)
    then show ?thesis using assms(2) ready by (cases p) (simp add: jayess_dequeue_microtask_def queue_removal)
  next
    case r: None
    note deq = assms(2) [unfolded jayess_dequeue_microtask_def, folded s1_def] r
    show ?thesis
    proof (cases "io_completions s1")
      case (Cons t q)
      then show ?thesis using deq io by (simp add: queue_removal s1_def)
    next
      case c: Nil
      show ?thesis
      proof (cases "remove_first ?due (timers s1)")
        case (Some p)
        then show ?thesis using deq c timer by (cases p) (simp add: queue_removal s1_def)
      next
        case d: None
        show ?thesis
        proof (cases "callbacks s1")
          case Nil
          then show ?thesis using deq c d none by (simp add: queue_removal s1_def)
        next
          case (Cons t q)
          then show ?thesis using deq c d other by (simp add: queue_removal s1_def)
        qed
      qed
    qed
  qed
  then show ?thesis
  proof cases
    case ready
    from remove_first_Some [OF ready(1)] obtain a b where "callbacks s = a @ t # b" "q = a @ b" by blast
    then show ?thesis using ready
      by simp (rule unqueue_ok [OF inv, of a t "b @ timers s @ io_pending s @ io_completions s"], simp_all add: queues_def)
  next
    case io
    then show ?thesis
      by simp (rule unqueue_ok [OF inv1, of "callbacks s1 @ timers s1 @ io_pending s1" t q], simp_all add: queues_def)
  next
    case timer
    from remove_first_Some [OF timer(1)] obtain a b where "timers s1 = a @ t # b" "q = a @ b" by blast
    then show ?thesis using timer
      by simp (rule unqueue_ok [OF inv1, of "callbacks s1 @ a" t "b @ io_pending s1 @ io_completions s1"],
          simp_all add: queues_def)
  next
    case other
    then show ?thesis
      by simp (rule unqueue_ok [OF inv1, of "[]" t "q @ timers s1 @ io_pending s1 @ io_completions s1"],
          simp_all add: queues_def)
  next
    case none
    with inv1 show ?thesis by simp
  qed
qed

text \<open>A task that is done is freed, or kept for the promises that still name it.\<close>

lemma release_ok:
  assumes inv: "sched_ok R s" and t: "t \<in> R"
  shows "sched_ok (R - {t}) (release_task s t)"
proof (rule running_task [OF assms])
  fix k assume k: "task_at s t = Some k" and nq: "\<not> tk_queued k" and nf: "\<not> tk_finished k"
  have ok: "task_ok R [] s t k" by (rule sched_inv_task [OF inv k])
  show ?thesis
  proof (cases "tk_dependency_count k = 0")
    case True
    with ok nq have "t \<notin> set (queues s)" "t \<notin> snd ` set (waiting s)"
      by (auto simp: task_ok_def wait_count_def count_list_0_iff)
    then have "sched_ok (R - {t}) (s\<lparr>task_at := (task_at s)(t := None)\<rparr>)"
      by (intro sched_inv_drop [OF inv disjI1 [OF refl]]) simp_all
    with True k show ?thesis by (simp add: release_task_def free_task_Some)
  next
    case False
    let ?k = "k\<lparr>tk_finished := True\<rparr>"
    have fields: "task_at (release_task s t) = (task_at s)(t \<mapsto> ?k)" "queues (release_task s t) = queues s"
      "waiting (release_task s t) = waiting s" "promise_at (release_task s t) = promise_at s"
      "faulted (release_task s t) = faulted s" "next_task (release_task s t) = next_task s"
      using k False by (simp_all add: release_task_def update_task_def queues_def)
    show ?thesis
    proof (rule sched_inv_change [OF inv fields(1)])
      show "task_ok (R - {t}) [] (release_task s t) t ?k"
        using ok nq t False by (auto simp: task_ok_def fields wait_count_def)
    qed (use inv next_task_less [OF inv k] in \<open>auto simp: fields wait_count_def sched_inv_def\<close>)
  qed
qed

text \<open>A timer waits for no promise, so it can be freed once it has left its queue.\<close>

lemma clear_timeout_ok:
  assumes inv: "sched_ok R s" and "\<forall>t \<in> set (timers s). wait_count s t = 0"
  shows "sched_ok R (jayess_clear_timeout s timer_id)"
proof (cases "remove_first (task_holds s (\<lambda>k. tk_kind k = Task_Timer \<and> tk_timer_id k = timer_id)) (timers s)")
  case None
  with inv show ?thesis by (simp add: jayess_clear_timeout_def)
next
  case (Some tq)
  then obtain t q where tq: "remove_first (task_holds s (\<lambda>k. tk_kind k = Task_Timer \<and> tk_timer_id k = timer_id)) (timers s) = Some (t, q)"
    by (cases tq) auto
  from remove_first_Some [OF tq] obtain a b where ab: "timers s = a @ t # b" "q = a @ b" by blast
  let ?s = "s\<lparr>timers := q\<rparr>"
  have run: "sched_ok (insert t R) (unqueue ?s t)"
    by (rule unqueue_ok [OF inv, of "callbacks s @ a" t "b @ io_pending s @ io_completions s"])
      (simp_all add: queues_def ab)
  obtain k where k: "task_at s t = Some k" using sched_inv_alloc [OF inv, of t] ab by (auto simp: queues_def)
  have w: "wait_count (unqueue ?s t) t = 0"
    using assms(2) ab k by (simp add: unqueue_def update_task_def wait_count_def)
  have "t \<notin> set (queues (unqueue ?s t))"
    using run sched_inv_task [OF run, of t] k by (simp add: unqueue_def update_task_def task_ok_def)
  moreover have "t \<notin> snd ` set (waiting (unqueue ?s t))" using w by (simp add: wait_count_0_iff)
  ultimately have "sched_ok (insert t R - {t}) ((unqueue ?s t)\<lparr>task_at := (task_at (unqueue ?s t))(t := None)\<rparr>)"
    by (intro sched_inv_drop [OF run disjI1 [OF refl]]) simp_all
  moreover have "(unqueue ?s t)\<lparr>task_at := (task_at (unqueue ?s t))(t := None)\<rparr> = jayess_clear_timeout s timer_id"
    by (simp add: jayess_clear_timeout_def tq unqueue_def update_task_def free_task_def k)
  moreover have "t \<notin> R" using inv sched_inv_task [OF inv k] ab by (auto simp: task_ok_def queues_def)
  ultimately show ?thesis by simp
qed

section \<open>Kinds of tasks\<close>

text \<open>Only timers are in the timer queue, and only promise callbacks wait for promises.\<close>

definition kind_of :: "sched \<Rightarrow> nat \<Rightarrow> task_kind option" where
  "kind_of s t = map_option tk_kind (task_at s t)"

definition kinds_ok :: "sched \<Rightarrow> bool" where
  "kinds_ok s \<longleftrightarrow>
     (\<forall>t \<in> set (timers s). kind_of s t \<in> {None, Some Task_Timer})
     \<and> (\<forall>t \<in> snd ` set (waiting s). kind_of s t \<in> {None, Some Task_Promise_Callback})"

lemma kinds_mono:
  assumes "kinds_ok s" and "\<And>t. kind_of s' t \<in> {None, kind_of s t}"
    and "set (timers s') \<subseteq> set (timers s)" and "set (waiting s') \<subseteq> set (waiting s)"
  shows "kinds_ok s'"
proof -
  have "kind_of s' t \<in> {None, Some c}" if "kind_of s t \<in> {None, Some c}" for t c
    using assms(2) [of t] that by auto
  with assms(1,3,4) show ?thesis unfolding kinds_ok_def by (meson image_mono subset_iff)
qed

lemma kind_of_update: "(\<And>k. tk_kind (f k) = tk_kind k) \<Longrightarrow> kind_of (update_task s t f) u = kind_of s u"
  by (simp add: kind_of_def update_task_def split: option.split)

lemma kind_of_free: "kind_of (free_task s t) u \<in> {None, kind_of s u}"
  by (simp add: kind_of_def free_task_def split: option.split)

lemma update_task_places [simp]:
  "timers (update_task s t f) = timers s" "waiting (update_task s t f) = waiting s"
  "timers (free_task s t) = timers s" "waiting (free_task s t) = waiting s"
  "rt (update_task s t f) = rt s" "rt (free_task s t) = rt s"
  "promise_at (update_task s t f) = promise_at s" "promise_at (free_task s t) = promise_at s"
  by (simp_all add: update_task_def free_task_def split: option.split)

lemma kinds_append:
  assumes "kinds_ok s"
  shows "kinds_ok (jayess_append_microtask s t)" and "kind_of (jayess_append_microtask s t) u = kind_of s u"
  using assms by (auto simp: jayess_append_microtask_def Let_def kinds_ok_def kind_of_def update_task_def
      jayess_queue_append_def split: option.splits if_splits)

lemma kinds_wake: "kinds_ok s \<Longrightarrow> kinds_ok (wake_dependent s t)"
proof -
  assume ok: "kinds_ok s"
  let ?s = "update_task s t (\<lambda>k. k\<lparr>tk_dependency_count := tk_dependency_count k - 1\<rparr>)"
  have "kinds_ok ?s" by (rule kinds_mono [OF ok]) (simp_all add: kind_of_update)
  moreover have "kinds_ok (free_task ?s t)"
    by (rule kinds_mono [OF \<open>kinds_ok ?s\<close> kind_of_free]) simp_all
  ultimately show ?thesis
    using kinds_append(1) [of ?s t] by (simp add: wake_dependent_def Let_def split: option.split)
qed

lemma kinds_settle: "kinds_ok s \<Longrightarrow> kinds_ok (jayess_promise_settle s p st v)"
proof -
  assume ok: "kinds_ok s"
  have "kinds_ok (foldl wake_dependent s1 ts)" if "kinds_ok s1" for s1 ts
    using that by (induction ts arbitrary: s1) (simp_all add: kinds_wake)
  moreover have "kinds_ok (s\<lparr>promise_at := f, waiting := filter P (waiting s)\<rparr>)" for f P
    by (rule kinds_mono [OF ok]) (auto simp: kind_of_def)
  ultimately show ?thesis using ok by (simp add: jayess_promise_settle_def split: option.split)
qed

lemma kinds_new:
  assumes inv: "sched_ok R s" and "kinds_ok s"
  shows "kinds_ok (snd (new_task s k))" and "kind_of (snd (new_task s k)) (next_task s) = Some (tk_kind k)"
proof -
  have "next_task s \<notin> set (timers s)" "next_task s \<notin> snd ` set (waiting s)"
    using inv sched_inv_alloc [OF inv, of "next_task s"] by (auto simp: sched_inv_def queues_def)
  then have "kind_of (snd (new_task s k)) t = kind_of s t" if "t \<in> set (timers s) \<union> snd ` set (waiting s)" for t
    using that by (auto simp: new_task_def kind_of_def)
  with assms(2) show "kinds_ok (snd (new_task s k))" by (auto simp: kinds_ok_def new_task_def)
qed (simp add: new_task_def kind_of_def)

lemma kinds_add_dependent:
  assumes ok: "kinds_ok s" and "kind_of s t = Some Task_Promise_Callback"
  shows "kinds_ok (snd (jayess_promise_add_dependent s p t))"
    and "kind_of (snd (jayess_promise_add_dependent s p t)) u = kind_of s u"
  using assms by (auto simp: jayess_promise_add_dependent_def kinds_ok_def kind_of_def update_task_def
      split: option.splits if_splits)

lemma kinds_add_loop:
  "kinds_ok s \<Longrightarrow> kind_of s t = Some Task_Promise_Callback \<Longrightarrow> kinds_ok (snd (add_dependents_loop s t added its))"
proof (induction its arbitrary: s added)
  case (Cons item its)
  with kinds_add_dependent [of s t item] show ?case by (simp add: case_prod_unfold Let_def)
qed simp

lemma kinds_add_combinator:
  assumes "kinds_ok s" and "kind_of s t = Some Task_Promise_Callback"
  shows "kinds_ok (snd (jayess_promise_add_combinator_dependents items s t))"
  using kinds_add_loop [OF assms] assms
  by (auto simp: jayess_promise_add_combinator_dependents_def kind_of_def split: option.split)

lemma kinds_enqueue_promise:
  assumes "sched_ok R s" and "kinds_ok s"
  shows "kinds_ok (jayess_enqueue_promise_task items s source result f r action)"
proof -
  define k where "k = (blank_task Task_Promise_Callback)\<lparr>tk_action := action, tk_source := source,
    tk_result := result, tk_on_fulfilled := f, tk_on_rejected := r\<rparr>"
  have k: "tk_kind k = Task_Promise_Callback" by (simp add: k_def blank_task_def)
  note new = kinds_new [OF assms, of k, unfolded k]
  have "fst (new_task s k) = next_task s" by (simp add: new_task_def)
  then show ?thesis
    unfolding jayess_enqueue_promise_task_def Let_def k_def [symmetric]
    using kinds_add_dependent(1) [OF new] kinds_add_combinator [OF new] kinds_append(1)
    by (simp add: case_prod_unfold)
qed

lemma kinds_enqueue_other:
  assumes "sched_ok R s" and "kinds_ok s"
  shows "kinds_ok (jayess_enqueue_timer_task s callback ms)"
    and "kinds_ok (jayess_enqueue_sleep_async_task s result ms v)"
    and "kinds_ok (enqueue_io_task started s k w)"
proof -
  have frame: "kinds_ok (f s1)" if "kinds_ok s1" "\<And>s. timers (f s) = timers s" "\<And>s. waiting (f s) = waiting s"
    "\<And>s. task_at (f s) = task_at s" for f :: "sched \<Rightarrow> sched" and s1
    by (rule kinds_mono [OF that(1)]) (simp_all add: kind_of_def that)
  have add: "kinds_ok (jayess_append_microtask (f (snd (new_task s k))) t)"
    if "\<And>s. timers (f s) = timers s" "\<And>s. waiting (f s) = waiting s" "\<And>s. task_at (f s) = task_at s"
    for f :: "sched \<Rightarrow> sched" and k t
    by (rule kinds_append(1) [OF frame [OF kinds_new(1) [OF assms] that]])
  show "kinds_ok (jayess_enqueue_timer_task s callback ms)"
    unfolding jayess_enqueue_timer_task_def Let_def case_prod_unfold
    by (rule add [of "\<lambda>u. u\<lparr>next_timer_id := next_timer_id s + 1\<rparr>"]) simp_all
  show "kinds_ok (jayess_enqueue_sleep_async_task s result ms v)"
    unfolding jayess_enqueue_sleep_async_task_def Let_def case_prod_unfold
    by (rule add [of "\<lambda>u. u"]) simp_all
  show "kinds_ok (enqueue_io_task started s k w)"
    unfolding enqueue_io_task_def Let_def case_prod_unfold
    using add [of "\<lambda>u. u"] add [of "\<lambda>u. u\<lparr>io_pool := jayess_queue_append (io_pool u) (fst (new_task s k))\<rparr>"]
    by simp
qed

lemma kinds_dequeue:
  assumes ok: "kinds_ok s" and "jayess_dequeue_microtask items s = (r, s')"
  shows "kinds_ok s'"
proof -
  have unq: "kinds_ok (unqueue s1 t)" if "kinds_ok s1" for s1 t
    by (rule kinds_mono [OF that]) (simp_all add: unqueue_def kind_of_update)
  have q: "kinds_ok (s1\<lparr>callbacks := q\<rparr>)" "kinds_ok (s1\<lparr>io_completions := q\<rparr>)"
    "set q \<subseteq> set (timers s1) \<Longrightarrow> kinds_ok (s1\<lparr>timers := q\<rparr>)" if "kinds_ok s1" for s1 q
    by (rule kinds_mono [OF that]; simp add: kind_of_def)+
  have "kinds_ok (jayess_scheduler_promote_completed_io s)"
    by (rule kinds_mono [OF ok]) (simp_all add: jayess_scheduler_promote_completed_io_def kind_of_def)
  then show ?thesis
    using assms(2) ok unfolding jayess_dequeue_microtask_def queue_removal Let_def
    by (auto split: option.splits list.splits prod.splits intro!: unq q elim: remove_first_in)
qed

lemma kinds_release: "kinds_ok s \<Longrightarrow> kinds_ok (release_task s t)"
  by (erule kinds_mono)
    (auto simp: release_task_def kind_of_def update_task_def free_task_def split: option.splits)

lemma kinds_clear: "kinds_ok s \<Longrightarrow> kinds_ok (jayess_clear_timeout s i)"
proof -
  assume ok: "kinds_ok s"
  have q: "kinds_ok (s\<lparr>timers := q\<rparr>)" if "set q \<subseteq> set (timers s)" for q
    by (rule kinds_mono [OF ok]) (use that in \<open>simp_all add: kind_of_def\<close>)
  have "kinds_ok (free_task (s\<lparr>timers := q\<rparr>) t)" if "set q \<subseteq> set (timers s)" for q t
    by (rule kinds_mono [OF q [OF that] kind_of_free]) simp_all
  moreover have "set q \<subseteq> set (timers s)" if "remove_first P (timers s) = Some (t, q)" for P t q
    using remove_first_in [OF that] by blast
  ultimately show ?thesis
    using ok by (simp add: jayess_clear_timeout_def split: option.split)
qed

section \<open>Steps\<close>

text \<open>Promises live at addresses that have been handed out.\<close>

definition promises_ok :: "sched \<Rightarrow> bool" where
  "promises_ok s \<longleftrightarrow> (\<forall>a. promise_at s a \<noteq> None \<longrightarrow> a < next_address (rt s))"

definition sched_safe :: "nat set \<Rightarrow> sched \<Rightarrow> bool" where
  "sched_safe R s \<longleftrightarrow> sched_ok R s \<and> kinds_ok s \<and> promises_ok s"

definition initial_sched :: sched where
  "initial_sched =
     \<lparr>rt = initial_state, promise_at = (\<lambda>_. None), waiting = [], task_at = (\<lambda>_. None), next_task = 0,
      callbacks = [], timers = [], io_pending = [], io_completions = [], io_pool = [], time_now = 0,
      next_timer_id = 1, faulted = False\<rparr>"

text \<open>
  One operation, in a state in which the tasks of the set are being run. A program may change the
  objects as it likes; a worker marks a task as completed; time passes. A promise is settled at a
  moment when none of its dependents is being run.
\<close>

inductive sched_step :: "items_of \<Rightarrow> nat set \<times> sched \<Rightarrow> nat set \<times> sched \<Rightarrow> bool" for items where
  step_program: "next_address (rt s) \<le> next_address r \<Longrightarrow> sched_step items (R, s) (R, s\<lparr>rt := r\<rparr>)"
| step_time: "sched_step items (R, s) (R, s\<lparr>time_now := now\<rparr>)"
| step_new_promise: "sched_step items (R, s) (R, snd (new_promise s st v))"
| step_enqueue: "sched_step items (R, s) (R, jayess_enqueue_promise_task items s source result f r action)"
| step_timer: "sched_step items (R, s) (R, jayess_enqueue_timer_task s callback ms)"
| step_sleep: "sched_step items (R, s) (R, jayess_enqueue_sleep_async_task s result ms v)"
| step_io: "sched_step items (R, s) (R, enqueue_io_task started s ((blank_task kind)\<lparr>tk_source := a, tk_result := b,
      tk_path := c, tk_encoding := d, tk_content := e\<rparr>) v)"
| step_worker: "t \<in> set (io_pending s) \<Longrightarrow>
    sched_step items (R, s) (R, update_task s t (\<lambda>k. k\<lparr>tk_worker_result := w, tk_completed := True\<rparr>))"
| step_clear: "sched_step items (R, s) (R, jayess_clear_timeout s timer_id)"
| step_settle: "(\<forall>a. promise_id s p = Some a \<longrightarrow> set (dependents s a) \<inter> R = {}) \<Longrightarrow>
    sched_step items (R, s) (R, jayess_promise_settle s p st v)"
| step_dequeue: "jayess_dequeue_microtask items s = (r, s') \<Longrightarrow> sched_step items (R, s) (set_option r \<union> R, s')"
| step_wait: "t \<in> R \<Longrightarrow> kind_of s t = Some Task_Promise_Callback \<Longrightarrow>
    jayess_promise_add_dependent s p t = (True, s') \<Longrightarrow> sched_step items (R, s) (R - {t}, s')"
| step_wait_all: "t \<in> R \<Longrightarrow> kind_of s t = Some Task_Promise_Callback \<Longrightarrow>
    jayess_promise_add_combinator_dependents items s t = (True, s') \<Longrightarrow> sched_step items (R, s) (R - {t}, s')"
| step_requeue: "t \<in> R \<Longrightarrow> sched_step items (R, s) (R - {t}, jayess_requeue_microtask s t)"
| step_release: "t \<in> R \<Longrightarrow> sched_step items (R, s) (R - {t}, release_task s t)"

inductive sched_reachable :: "items_of \<Rightarrow> nat set \<times> sched \<Rightarrow> bool" for items where
  reach_init: "sched_reachable items ({}, initial_sched)"
| reach_step: "sched_reachable items c \<Longrightarrow> sched_step items c c' \<Longrightarrow> sched_reachable items c'"

inductive_cases sched_stepE: "sched_step items (R, s) c"

section \<open>The invariant in every reachable state\<close>

lemma settle_frame:
  assumes inv: "sched_ok R s" and R: "\<forall>a. promise_id s p = Some a \<longrightarrow> set (dependents s a) \<inter> R = {}"
  shows "sched_ok R (jayess_promise_settle s p st v)" and "rt (jayess_promise_settle s p st v) = rt s"
    and "promise_at (jayess_promise_settle s p st v) b = None \<longleftrightarrow> promise_at s b = None"
proof -
  show "sched_ok R (jayess_promise_settle s p st v)"
    using settle_ok(1) [OF inv] R inv by (cases "promise_id s p") (auto simp: jayess_promise_settle_def)
  show "rt (jayess_promise_settle s p st v) = rt s"
    using settle_ok(5) [OF inv] R by (cases "promise_id s p") (auto simp: jayess_promise_settle_def)
  have "promise_at s a \<noteq> None" if "promise_id s p = Some a" for a
    using that by (auto simp: promise_id_def split: option.splits jayess_value.splits if_splits)
  then show "promise_at (jayess_promise_settle s p st v) b = None \<longleftrightarrow> promise_at s b = None"
    using settle_ok(2) [OF inv] R by (cases "promise_id s p") (auto simp: jayess_promise_settle_def)
qed

lemma new_promise_ok:
  assumes "sched_safe R s"
  shows "sched_safe R (snd (new_promise s st v))"
proof -
  let ?s = "snd (new_promise s st v)"
  have inv: "sched_ok R s" and "kinds_ok s" and p: "promises_ok s" using assms by (auto simp: sched_safe_def)
  have s': "?s = s\<lparr>rt := snd (jayess_object_new (rt s)), promise_at := (promise_at s)(next_address (rt s) \<mapsto> (st, v))\<rparr>"
    by (simp add: new_promise_def jayess_object_new_def)
  have fresh: "promise_at s (next_address (rt s)) = None" using p unfolding promises_ok_def by blast
  have "sched_ok R ?s"
  proof (rule sched_inv_frame [OF inv])
    fix a assume "a \<in> fst ` set (waiting s)"
    with inv have "promise_at s a \<noteq> None" by (auto simp: sched_inv_def)
    with fresh show "promise_at ?s a = promise_at s a" by (auto simp: s')
  qed (simp_all add: s' queues_def)
  moreover have "kinds_ok ?s" by (rule kinds_mono [OF \<open>kinds_ok s\<close>]) (simp_all add: s' kind_of_def)
  moreover have "promises_ok ?s" using p by (auto simp: promises_ok_def s' jayess_object_new_def less_SucI)
  ultimately show ?thesis by (simp add: sched_safe_def)
qed

text \<open>Operations that leave the promises and the objects alone.\<close>

lemma promises_same:
  "promises_ok s \<Longrightarrow> promise_at s' = promise_at s \<Longrightarrow> next_address (rt s) \<le> next_address (rt s') \<Longrightarrow> promises_ok s'"
  unfolding promises_ok_def by (metis less_le_trans)

lemma append_same [simp]:
  "promise_at (jayess_append_microtask s t) = promise_at s" "rt (jayess_append_microtask s t) = rt s"
  by (simp_all add: jayess_append_microtask_def Let_def split: option.split)

lemma new_task_same [simp]: "promise_at (snd (new_task s k)) = promise_at s" "rt (snd (new_task s k)) = rt s"
  by (simp_all add: new_task_def)

lemma add_same [simp]:
  "promise_at (snd (jayess_promise_add_dependent s p t)) = promise_at s"
  "rt (snd (jayess_promise_add_dependent s p t)) = rt s"
  by (simp_all add: jayess_promise_add_dependent_def split: option.split)

lemma add_loop_same [simp]:
  "promise_at (snd (add_dependents_loop s t added its)) = promise_at s \<and> rt (snd (add_dependents_loop s t added its)) = rt s"
proof (induction its arbitrary: s added)
  case (Cons item its)
  show ?case by (simp add: case_prod_unfold Let_def Cons.IH)
qed simp

lemma add_combinator_same [simp]:
  "promise_at (snd (jayess_promise_add_combinator_dependents items s t)) = promise_at s"
  "rt (snd (jayess_promise_add_combinator_dependents items s t)) = rt s"
  by (simp_all add: jayess_promise_add_combinator_dependents_def split: option.split)

lemma enqueue_same [simp]:
  "promise_at (jayess_enqueue_promise_task items s source result f r action) = promise_at s"
  "rt (jayess_enqueue_promise_task items s source result f r action) = rt s"
  "promise_at (jayess_enqueue_timer_task s c ms) = promise_at s" "rt (jayess_enqueue_timer_task s c ms) = rt s"
  "promise_at (jayess_enqueue_sleep_async_task s p ms v) = promise_at s" "rt (jayess_enqueue_sleep_async_task s p ms v) = rt s"
  "promise_at (enqueue_io_task started s k w) = promise_at s" "rt (enqueue_io_task started s k w) = rt s"
  by (simp_all add: jayess_enqueue_promise_task_def jayess_enqueue_timer_task_def jayess_enqueue_sleep_async_task_def
      enqueue_io_task_def Let_def case_prod_unfold)

lemma dequeue_same:
  "jayess_dequeue_microtask items s = (r, s') \<Longrightarrow> promise_at s' = promise_at s \<and> rt s' = rt s"
  by (auto simp: jayess_dequeue_microtask_def queue_removal Let_def unqueue_def jayess_scheduler_promote_completed_io_def
      split: option.splits list.splits prod.splits)

lemma release_same [simp]:
  "promise_at (release_task s t) = promise_at s" "rt (release_task s t) = rt s"
  "promise_at (jayess_clear_timeout s i) = promise_at s" "rt (jayess_clear_timeout s i) = rt s"
  by (simp_all add: release_task_def jayess_clear_timeout_def split: option.split)

text \<open>A worker writes into a task that is still in the pending queue.\<close>

lemma worker_ok:
  assumes inv: "sched_ok R s" and t: "t \<in> set (queues s)"
    and f: "\<And>k. tk_dependency_count (f k) = tk_dependency_count k" "\<And>k. tk_queued (f k) = tk_queued k"
      "\<And>k. tk_finished (f k) = tk_finished k"
  shows "sched_ok R (update_task s t f)"
proof -
  obtain k where k: "task_at s t = Some k" using sched_inv_alloc [OF inv, of t] t by auto
  let ?s = "s\<lparr>task_at := (task_at s)(t \<mapsto> f k)\<rparr>"
  have "sched_ok R ?s"
  proof (rule sched_inv_change [OF inv])
    show "task_at ?s = (task_at s)(t \<mapsto> f k)" by simp
    show "task_ok R [] ?s t (f k)"
      using sched_inv_task [OF inv k] f by (auto simp: task_ok_def wait_count_def queues_def)
  qed (use inv next_task_less [OF inv k] in \<open>auto simp: queues_def wait_count_def sched_inv_def\<close>)
  then show ?thesis by (simp add: update_task_def k)
qed

lemma timers_no_wait:
  assumes "sched_ok R s" and "kinds_ok s"
  shows "\<forall>t \<in> set (timers s). wait_count s t = 0"
proof
  fix t assume t: "t \<in> set (timers s)"
  then obtain k where k: "task_at s t = Some k" using sched_inv_alloc [OF assms(1), of t] by (auto simp: queues_def)
  with t assms(2) have "kind_of s t = Some Task_Timer" by (force simp: kinds_ok_def kind_of_def)
  with assms(2) have "t \<notin> snd ` set (waiting s)" by (auto simp: kinds_ok_def)
  then show "wait_count s t = 0" by (simp add: wait_count_0_iff)
qed

lemma sched_safeI: "sched_ok R s \<Longrightarrow> kinds_ok s \<Longrightarrow> promises_ok s \<Longrightarrow> sched_safe R s"
  by (simp add: sched_safe_def)

lemma sched_step_safe:
  assumes "sched_step items c c'" and "sched_safe (fst c) (snd c)"
  shows "sched_safe (fst c') (snd c')"
  using assms
proof (induction rule: sched_step.induct)
  case (step_program s r R)
  then show ?case
    by (auto simp: sched_safe_def kind_of_def queues_def intro: sched_inv_frame kinds_mono promises_same)
next
  case (step_time R s now)
  then show ?case
    by (auto simp: sched_safe_def kind_of_def queues_def intro: sched_inv_frame kinds_mono promises_same)
next
  case (step_new_promise R s st v)
  then show ?case by (simp add: new_promise_ok)
next
  case (step_enqueue R s source result f r action)
  then show ?case
    by (auto simp: sched_safe_def intro: enqueue_promise_ok kinds_enqueue_promise promises_same)
next
  case (step_timer R s callback ms)
  then show ?case
    by (auto simp: sched_safe_def intro: enqueue_timer_ok kinds_enqueue_other promises_same)
next
  case (step_sleep R s result ms v)
  then show ?case
    by (auto simp: sched_safe_def intro: enqueue_sleep_ok kinds_enqueue_other promises_same)
next
  case (step_io R s started kind a b c d e v)
  then show ?case
    by (auto simp: sched_safe_def blank_task_def intro: enqueue_io_ok kinds_enqueue_other promises_same)
next
  case (step_worker t s R w)
  then show ?case
    by (auto simp: sched_safe_def kind_of_update queues_def intro: worker_ok kinds_mono promises_same)
next
  case (step_clear R s timer_id)
  then show ?case
    by (auto simp: sched_safe_def timers_no_wait intro: clear_timeout_ok kinds_clear promises_same)
next
  case (step_settle s p R st v)
  then show ?case
    by (auto simp: sched_safe_def settle_frame(1) kinds_settle)
      (auto simp: promises_ok_def settle_frame(2,3))
next
  case (step_dequeue s r s' R)
  with dequeue_same [OF step_dequeue(1)] show ?case
    by (auto simp: sched_safe_def intro: dequeue_ok kinds_dequeue promises_same)
next
  case (step_wait t R s p s')
  let ?s = "snd (jayess_promise_add_dependent s p t)"
  have s': "s' = ?s" "fst (jayess_promise_add_dependent s p t)" using step_wait(3) by simp_all
  have inv: "sched_ok R s" and k: "kinds_ok s" and pr: "promises_ok s" using step_wait(4) by (auto simp: sched_safe_def)
  have "sched_ok (R - {t}) ?s"
    using add_dependent_ok [OF inv step_wait(1), of p] s'(2) by (intro leave_waiting) simp_all
  moreover have "kinds_ok ?s" by (rule kinds_add_dependent(1) [OF k step_wait(2)])
  moreover have "promises_ok ?s" by (rule promises_same [OF pr]) simp_all
  ultimately show ?case by (simp add: sched_safe_def s'(1))
next
  case (step_wait_all t R s s')
  let ?s = "snd (jayess_promise_add_combinator_dependents items s t)"
  have s': "s' = ?s" "fst (jayess_promise_add_combinator_dependents items s t)" using step_wait_all(3) by simp_all
  have inv: "sched_ok R s" and k: "kinds_ok s" and pr: "promises_ok s" using step_wait_all(4) by (auto simp: sched_safe_def)
  have "sched_ok (R - {t}) ?s"
    using add_combinator_ok [OF inv step_wait_all(1), of items] s'(2) by (intro leave_waiting) simp_all
  moreover have "kinds_ok ?s" by (rule kinds_add_combinator [OF k step_wait_all(2)])
  moreover have "promises_ok ?s" by (rule promises_same [OF pr]) simp_all
  ultimately show ?case by (simp add: sched_safe_def s'(1))
next
  case (step_requeue t R s)
  then show ?case
    by (auto simp: sched_safe_def jayess_requeue_microtask_def intro: append_running_ok kinds_append promises_same)
next
  case (step_release t R s)
  then show ?case
    by (auto simp: sched_safe_def intro: release_ok kinds_release promises_same)
qed

lemma initial_safe: "sched_safe {} initial_sched"
  by (simp add: sched_safe_def initial_sched_def sched_inv_def queues_def kinds_ok_def promises_ok_def)

lemma reachable_safe: "sched_reachable items c \<Longrightarrow> sched_safe (fst c) (snd c)"
  by (induction rule: sched_reachable.induct) (simp_all add: initial_safe sched_step_safe)

text \<open>A state with a timer and a reaction on a pending promise.\<close>

definition example_sched :: sched where
  "example_sched =
     jayess_enqueue_timer_task
       (jayess_enqueue_promise_task (\<lambda>_ _. []) (snd (new_promise initial_sched Pending VUndefined))
          (Some (VObject 0)) None None None Act_Then) None 5"

lemma example_reachable: "sched_reachable (\<lambda>_ _. []) ({}, example_sched)"
  unfolding example_sched_def
  by (intro reach_step [OF reach_step [OF reach_step [OF reach_init step_new_promise] step_enqueue] step_timer])

text \<open>
  C6. Memory safety of the task queues. In every state the scheduler can reach, in whatever order
  programs, workers, timers and the loop act, no freed task has been used, no task is in two queues
  or twice in one, every queued task and every task a pending promise names is still allocated, and a
  task is marked as queued exactly when it is in a queue, its dependency count being the number of
  promises that name it. Settling is assumed to happen when no dependent of the promise is being run.
\<close>

theorem scheduler_safe:
  assumes "sched_reachable items (R, s)" and "task_at s t = Some k"
  shows "\<not> faulted s \<and> distinct (queues s)
    \<and> set (queues s) \<union> snd ` set (waiting s) \<subseteq> dom (task_at s)
    \<and> (tk_queued k \<longleftrightarrow> t \<in> set (queues s)) \<and> tk_dependency_count k = wait_count s t"
proof -
  have inv: "sched_ok R s" using reachable_safe [OF assms(1)] by (simp add: sched_safe_def)
  moreover have "(tk_queued k \<longleftrightarrow> t \<in> set (queues s)) \<and> tk_dependency_count k = wait_count s t"
    using sched_inv_task [OF inv assms(2)] by (simp add: task_ok_def)
  moreover have "set (queues s) \<union> snd ` set (waiting s) \<subseteq> dom (task_at s)"
    using sched_inv_alloc [OF inv] by (auto simp: domIff)
  ultimately show ?thesis by (simp add: sched_inv_def)
qed

text \<open>The reaction waits for the promise.\<close>

lemma example_task: "map_option (\<lambda>k. (tk_queued k, tk_dependency_count k)) (task_at example_sched 0) = Some (False, 1)"
  by (simp add: example_sched_def jayess_enqueue_timer_task_def jayess_enqueue_promise_task_def new_task_def
      jayess_promise_add_dependent_def promise_id_def jayess_promise_is_state_def new_promise_def
      jayess_object_new_def initial_sched_def initial_state_def update_task_def jayess_append_microtask_def blank_task_def)

theorem scheduler_safe_witness:
  "\<not> faulted example_sched \<and> distinct (queues example_sched)
    \<and> set (queues example_sched) \<union> snd ` set (waiting example_sched) \<subseteq> dom (task_at example_sched)
    \<and> 0 \<notin> set (queues example_sched) \<and> wait_count example_sched 0 = 1"
proof -
  obtain k where "task_at example_sched 0 = Some k" "\<not> tk_queued k" "tk_dependency_count k = 1"
    using example_task by auto
  then show ?thesis using scheduler_safe [OF example_reachable] by force
qed

end
