(* ===== verification/Scheduler_Correct.thy ===== *)
theory Scheduler_Correct
  imports Scheduler_Steps
begin

text \<open>
  What the scheduler does for programs: settling wakes the waiting reactions, a combinator runs
  exactly when it can finish, the queue served first, the outcome of a combinator, and the places
  where the order or the progress of the code is not the one programs expect.
\<close>

section \<open>Promises are read from the status alone\<close>

lemma promise_id_cong: "promise_at s' = promise_at s \<Longrightarrow> promise_id s' = promise_id s"
  by (intro ext) (simp only: promise_id_def)

lemma promise_state_cong: "promise_at s' = promise_at s \<Longrightarrow> jayess_promise_is_state s' = jayess_promise_is_state s"
  by (intro ext) (simp only: jayess_promise_is_state_def promise_id_def)

lemma promise_value_cong: "promise_at s' = promise_at s \<Longrightarrow> jayess_promise_value s' = jayess_promise_value s"
  by (intro ext) (simp only: jayess_promise_value_def promise_id_def)

lemmas promise_cong = promise_id_cong promise_state_cong promise_value_cong

lemma settled_record_frame [simp]:
  "promise_at (snd (jayess_promise_settled_record s a b v)) = promise_at s"
  by (simp add: jayess_promise_settled_record_def case_prod_unfold Let_def)

lemma is_state_cases:
  assumes "promise_id s v \<noteq> None"
  obtains "jayess_promise_is_state s v Pending" "\<not> jayess_promise_is_state s v Fulfilled" "\<not> jayess_promise_is_state s v Rejected"
  | "jayess_promise_is_state s v Fulfilled" "\<not> jayess_promise_is_state s v Pending" "\<not> jayess_promise_is_state s v Rejected"
  | "jayess_promise_is_state s v Rejected" "\<not> jayess_promise_is_state s v Pending" "\<not> jayess_promise_is_state s v Fulfilled"
proof -
  obtain a where a: "promise_id s v = Some a" using assms by blast
  then obtain st w where "promise_at s a = Some (st, w)"
    by (auto simp: promise_id_def split: option.splits jayess_value.splits if_splits)
  with a that show thesis by (cases st) (simp_all add: jayess_promise_is_state_def)
qed

lemma is_state_unique:
  "jayess_promise_is_state s v st \<Longrightarrow> jayess_promise_is_state s v st' \<longleftrightarrow> st' = st"
  by (auto simp: jayess_promise_is_state_def split: option.splits)

lemma is_state_promise: "jayess_promise_is_state s v st \<Longrightarrow> promise_id s v \<noteq> None"
  by (auto simp: jayess_promise_is_state_def split: option.splits)

section \<open>Settling\<close>

text \<open>
  C8. Settling a promise wakes everyone who waits for it: in a reachable state with no dependent
  of the promise being run, afterwards the promise has the given status and value, no task waits for
  it any more, every dependent that is not finished is queued, and the invariant of the queues still
  holds.
\<close>

theorem settle_wakes:
  assumes "sched_reachable items (R, s)" and "promise_id s p = Some a" and "set (dependents s a) \<inter> R = {}"
  shows "(let s' = jayess_promise_settle s p st v
     in sched_ok R s' \<and> promise_at s' a = Some (st, value_or_undefined v) \<and> dependents s' a = []
        \<and> (\<forall>t \<in> set (dependents s a). \<forall>k. task_at s t = Some k \<longrightarrow> \<not> tk_finished k \<longrightarrow> t \<in> set (queues s')))"
proof -
  have inv: "sched_ok R s" using reachable_safe [OF assms(1)] by (simp add: sched_safe_def)
  note ok = settle_ok [OF inv assms(2,3), where st = st and v = v]
  from ok(7) have "\<forall>t \<in> set (dependents s a). \<forall>k. task_at s t = Some k \<longrightarrow> \<not> tk_finished k \<longrightarrow>
      t \<in> set (queues (jayess_promise_settle s p st v))" by blast
  moreover have "dependents (jayess_promise_settle s p st v) a = []"
    by (simp add: dependents_def ok(3) filter_empty_conv)
  ultimately show ?thesis
    using ok(1,2) by (simp add: Let_def)
qed

theorem settle_wakes_witness:
  "(let s' = jayess_promise_settle example_sched (Some (VObject 0)) Fulfilled (Some VNull)
     in sched_ok {} s' \<and> promise_at s' 0 = Some (Fulfilled, value_or_undefined (Some VNull)) \<and> dependents s' 0 = []
        \<and> (\<forall>t \<in> set (dependents example_sched 0). \<forall>k. task_at example_sched t = Some k \<longrightarrow> \<not> tk_finished k \<longrightarrow>
             t \<in> set (queues s')))"
proof -
  have "promise_id example_sched (Some (VObject 0)) = Some 0"
    by (simp add: promise_id_def example_sched_def new_promise_def jayess_object_new_def initial_sched_def initial_state_def)
  from settle_wakes [OF example_reachable this] show ?thesis by simp
qed

text \<open>
  The list of dependents has the newest first, and waking follows it: two reactions on one promise
  run in the reverse of the order in which they were registered.
\<close>

definition two_reactions :: sched where
  "two_reactions =
     jayess_enqueue_promise_task (\<lambda>_ _. [])
       (jayess_enqueue_promise_task (\<lambda>_ _. []) (snd (new_promise initial_sched Pending VUndefined))
          (Some (VObject 0)) None None None Act_Then)
       (Some (VObject 0)) None None None Act_Then"

lemmas sched_eval = new_promise_def jayess_object_new_def initial_sched_def initial_state_def
  jayess_enqueue_promise_task_def new_task_def jayess_promise_add_dependent_def promise_id_def
  jayess_promise_is_state_def update_task_def blank_task_def jayess_promise_settle_def dependents_def
  wake_dependent_def jayess_append_microtask_def jayess_queue_append_def Let_def

lemma reactions_reversed:
  "callbacks (jayess_promise_settle two_reactions (Some (VObject 0)) Fulfilled (Some VNull)) = [1, 0]"
  by (simp add: two_reactions_def sched_eval)

section \<open>When a combinator is run\<close>

lemma all_ready_iff: "all_ready s Act_All its \<longleftrightarrow> all_loop s its resolved \<noteq> Wait"
proof (induction its arbitrary: resolved)
  case Nil
  then show ?case by (simp add: case_prod_unfold Let_def)
next
  case (Cons item its)
  show ?case
  proof (cases "promise_id s item = None")
    case True
    then show ?thesis by (simp add: Cons.IH)
  next
    case False
    then show ?thesis by (rule is_state_cases) (use False in \<open>simp_all add: Cons.IH\<close>)
  qed
qed

lemma all_settled_ready_iff:
  "promise_at s' = promise_at s \<Longrightarrow> all_ready s Act_All_Settled its \<longleftrightarrow> all_settled_loop s' its settled \<noteq> Wait"
proof (induction its arbitrary: s' settled)
  case Nil
  then show ?case by (simp add: case_prod_unfold Let_def)
next
  case (Cons item its)
  have step: "all_settled_loop (snd r) its ss \<noteq> Wait \<longleftrightarrow> all_ready s Act_All_Settled its"
    if "r = jayess_promise_settled_record s' a b v" for r a b v ss
    using Cons.IH [of "snd r" ss] Cons.prems that by simp
  show ?case
    using Cons.prems step by (simp add: promise_cong [OF Cons.prems] case_prod_unfold Let_def)
qed

lemma race_ready_iff: "sp \<or> its \<noteq> [] \<Longrightarrow> race_ready s its \<longleftrightarrow> race_loop s sp its \<noteq> Wait"
proof (induction its arbitrary: sp)
  case (Cons item its)
  then show ?case by auto
qed simp

text \<open>
  C9. The readiness test of \<open>Promise.all\<close>, \<open>Promise.race\<close> and \<open>Promise.allSettled\<close> agrees with the
  code that runs them: the test succeeds exactly for the states in which running the task settles the
  result instead of waiting. So such a task is never run in vain, and never left waiting when it could
  finish. (For \<open>Promise.any\<close> this fails, as the section on it shows.)
\<close>

theorem combinator_ready_iff:
  "(jayess_promise_combinator_ready items s (k\<lparr>tk_action := Act_All\<rparr>)
      \<longleftrightarrow> combinator_outcome items s (k\<lparr>tk_action := Act_All\<rparr>) \<noteq> Wait)
   \<and> (jayess_promise_combinator_ready items s (k\<lparr>tk_action := Act_Race\<rparr>)
      \<longleftrightarrow> combinator_outcome items s (k\<lparr>tk_action := Act_Race\<rparr>) \<noteq> Wait)
   \<and> (jayess_promise_combinator_ready items s (k\<lparr>tk_action := Act_All_Settled\<rparr>)
      \<longleftrightarrow> combinator_outcome items s (k\<lparr>tk_action := Act_All_Settled\<rparr>) \<noteq> Wait)"
proof -
  let ?its = "jayess_value_iterable_values items s (tk_source k)"
  have "(?its = [] \<or> race_ready s ?its) \<longleftrightarrow> race_loop s False ?its \<noteq> Wait"
    by (cases "?its = []") (simp_all add: race_ready_iff [of False ?its s])
  moreover have "all_ready s Act_All ?its \<longleftrightarrow> all_loop s ?its [] \<noteq> Wait" by (rule all_ready_iff)
  moreover have "all_ready s Act_All_Settled ?its \<longleftrightarrow> all_settled_loop s ?its [] \<noteq> Wait"
    by (rule all_settled_ready_iff) simp
  ultimately show ?thesis
    by (simp add: jayess_promise_combinator_ready_def combinator_outcome_def Let_def)
qed

section \<open>What a combinator answers\<close>

definition settled_with :: "sched \<Rightarrow> promise_status \<Rightarrow> jayess_value option \<Rightarrow> bool" where
  "settled_with s st v \<longleftrightarrow> promise_id s v \<noteq> None \<and> jayess_promise_is_state s v st"

text \<open>The value an item counts for: what its promise holds, or the item itself.\<close>

definition item_value :: "sched \<Rightarrow> jayess_value option \<Rightarrow> jayess_value" where
  "item_value s v = (if promise_id s v \<noteq> None then jayess_promise_value s v else value_or_undefined v)"

lemma all_loop_skip:
  "\<forall>item \<in> set its. promise_id s item \<noteq> None \<longrightarrow> jayess_promise_is_state s item Fulfilled \<Longrightarrow>
   all_loop s (its @ rest) resolved = all_loop s rest (resolved @ map (item_value s) its)"
proof (induction its arbitrary: resolved)
  case (Cons item its)
  then have "promise_id s item \<noteq> None \<Longrightarrow>
      \<not> jayess_promise_is_state s item Pending \<and> \<not> jayess_promise_is_state s item Rejected"
    using is_state_unique [of s item Fulfilled] by (metis list.set_intros(1) promise_status.distinct(1,5))
  with Cons.IH Cons.prems show ?case by (simp add: item_value_def)
qed simp

lemma all_loop_rejected:
  "settled_with s Rejected item \<Longrightarrow> all_loop s (item # rest) resolved = Settle Rejected (jayess_promise_value s item) s"
  by (simp add: settled_with_def is_state_unique [of s item Rejected])

lemma all_loop_pending: "settled_with s Pending item \<Longrightarrow> all_loop s (item # rest) resolved = Wait"
  by (simp add: settled_with_def)

text \<open>
  C10. \<open>Promise.all\<close> answers as its contract says, whatever the order in which the promises were
  settled: when every item is fulfilled or no promise, a new array of their values in the order of
  the items; when the items before the first rejected one are fulfilled, the reason of that one,
  without looking at the rest. A pending item before that makes it wait.
\<close>

theorem promise_all_outcome:
  fixes its rest :: jayess_slots
  assumes "\<forall>item \<in> set its. promise_id s item \<noteq> None \<longrightarrow> jayess_promise_is_state s item Fulfilled"
  shows "all_loop s its [] = (let (v, s1) = new_array s (map (item_value s) its) in Settle Fulfilled v s1)
    \<and> (settled_with s Rejected item \<longrightarrow>
         all_loop s (its @ item # rest) [] = Settle Rejected (jayess_promise_value s item) s)
    \<and> (settled_with s Pending item \<longrightarrow> all_loop s (its @ item # rest) [] = Wait)"
proof -
  have skip: "all_loop s (its @ r) [] = all_loop s r (map (item_value s) its)" for r
    using all_loop_skip [OF assms, of r "[]"] by simp
  show ?thesis
    unfolding skip using skip [of "[]"]
    by (intro conjI impI) (simp, erule all_loop_rejected, erule all_loop_pending)
qed

definition two_promises :: sched where
  "two_promises = snd (new_promise (snd (new_promise initial_sched Fulfilled VNull)) Rejected (VBool True))"

theorem promise_all_outcome_witness:
  "all_loop two_promises [Some (VObject 0), None] []
     = (let (v, s1) = new_array two_promises (map (item_value two_promises) [Some (VObject 0), None]) in Settle Fulfilled v s1)
   \<and> all_loop two_promises [Some (VObject 0), None, Some (VObject 1), None] [] = Settle Rejected (VBool True) two_promises"
proof -
  have ok: "\<forall>item \<in> set [Some (VObject 0), None].
      promise_id two_promises item \<noteq> None \<longrightarrow> jayess_promise_is_state two_promises item Fulfilled"
    by (simp add: two_promises_def sched_eval)
  have "settled_with two_promises Rejected (Some (VObject 1))" "jayess_promise_value two_promises (Some (VObject 1)) = VBool True"
    by (simp_all add: two_promises_def sched_eval settled_with_def jayess_promise_value_def)
  with promise_all_outcome [OF ok, of "Some (VObject 1)" "[None]"] show ?thesis by simp
qed

section \<open>The order of the queues\<close>

text \<open>
  The loop serves a ready promise callback before everything else: if some queued callback is
  ready, the task that is taken is the first ready one, nothing else is dequeued, and the callbacks
  before it keep their places.
\<close>

theorem dequeue_ready_first:
  assumes "callbacks s = front @ t # rest" and "task_holds s (jayess_promise_combinator_ready items s) t"
    and "\<forall>u \<in> set front. \<not> task_holds s (jayess_promise_combinator_ready items s) u"
  shows "jayess_dequeue_microtask items s = (Some t, unqueue (s\<lparr>callbacks := front @ rest\<rparr>) t)"
proof -
  have "remove_first P (front @ t # rest) = Some (t, front @ rest)" if "P t" "\<forall>u \<in> set front. \<not> P u" for P
    using that by (induction front) auto
  with assms show ?thesis by (simp add: jayess_dequeue_microtask_def queue_removal)
qed

definition settled_reaction :: sched where
  "settled_reaction =
     jayess_enqueue_promise_task (\<lambda>_ _. []) (snd (new_promise initial_sched Fulfilled VNull))
       (Some (VObject 0)) None None None Act_Then"

theorem dequeue_ready_first_witness:
  "jayess_dequeue_microtask (\<lambda>_ _. []) settled_reaction
   = (Some 0, unqueue (settled_reaction\<lparr>callbacks := [] @ []\<rparr>) 0)"
  by (rule dequeue_ready_first)
    (simp_all add: settled_reaction_def sched_eval task_holds_def jayess_promise_combinator_ready_def)

section \<open>\<open>Promise.any\<close> that never settles\<close>

text \<open>A state whose only task is a combinator that is ready and yet waits.\<close>

definition spinning :: "items_of \<Rightarrow> sched \<Rightarrow> nat \<Rightarrow> microtask \<Rightarrow> bool" where
  "spinning items s t k \<longleftrightarrow>
     callbacks s = [t] \<and> io_completions s = [] \<and> io_pending s = [] \<and> task_at s t = Some k
     \<and> tk_kind k = Task_Promise_Callback \<and> tk_action k = Act_Any \<and> tk_queued k
     \<and> jayess_promise_combinator_ready items s k \<and> combinator_outcome items s k = Wait"

lemma any_loop_cong:
  assumes same: "promise_at s' = promise_at s"
  shows "any_loop s' its es = Wait \<longleftrightarrow> any_loop s its es = Wait"
  by (induction its arbitrary: es) (simp_all add: promise_cong [OF same] case_prod_unfold Let_def)

lemma any_ready_cong:
  assumes same: "promise_at s' = promise_at s"
  shows "any_ready s' p its = any_ready s p its"
  by (induction its arbitrary: p) (simp_all add: promise_cong [OF same])

lemma spinning_turn:
  assumes "spinning items s t k" and frame: "\<And>s v. \<forall>t c. items (s\<lparr>task_at := t, callbacks := c\<rparr>) v = items s v"
  shows "\<exists>s1. jayess_dequeue_microtask items s = (Some t, s1)
    \<and> task_at s1 t = Some (k\<lparr>tk_queued := False\<rparr>) \<and> rt s1 = rt s
    \<and> run_combinator_task items s1 t (k\<lparr>tk_queued := False\<rparr>) = (False, s)"
proof -
  let ?k = "k\<lparr>tk_queued := False\<rparr>"
  define s1 where "s1 = s\<lparr>task_at := (task_at s)(t \<mapsto> ?k), callbacks := []\<rparr>"
  have s: "callbacks s = [t]" "task_at s t = Some k" "tk_kind k = Task_Promise_Callback" "tk_action k = Act_Any"
    "tk_queued k" "jayess_promise_combinator_ready items s k" "combinator_outcome items s k = Wait"
    using assms(1) by (simp_all add: spinning_def)
  have k: "k\<lparr>tk_queued := True\<rparr> = k" using s(5) by simp
  have deq: "jayess_dequeue_microtask items s = (Some t, s1)"
    using s by (simp add: jayess_dequeue_microtask_def queue_removal task_holds_def unqueue_def update_task_def s1_def)
  have its: "jayess_value_iterable_values items s1 v = jayess_value_iterable_values items s v" for v
    using frame [of s] by (simp add: jayess_value_iterable_values_def s1_def split: option.split jayess_value.split)
  have same: "promise_at s1 = promise_at s" by (simp add: s1_def)
  have ready: "jayess_promise_combinator_ready items s1 ?k"
    using s(4,6) by (simp add: jayess_promise_combinator_ready_def its any_ready_cong [OF same] Let_def)
  have wait: "combinator_outcome items s1 ?k = Wait"
    using s(4,7) by (simp add: combinator_outcome_def its any_loop_cong [OF same] Let_def)
  have "jayess_append_microtask s1 t = s"
    using s(1,2,3) k by (simp add: jayess_append_microtask_def update_task_def s1_def jayess_queue_append_def Let_def fun_upd_idem)
  moreover have "jayess_promise_add_combinator_dependents items s1 t = (False, s1)"
    using ready by (simp add: jayess_promise_add_combinator_dependents_def) (simp add: s1_def)
  ultimately have "run_combinator_task items s1 t ?k = (False, s)"
    by (simp add: run_combinator_task_def wait jayess_requeue_microtask_def)
  with deq show ?thesis by (intro exI [of _ s1]) (simp add: s1_def)
qed

text \<open>
  \<open>Promise.any\<close> can make a program fail: when it is the only task and an item before a
  fulfilled one is pending, the readiness test succeeds but running the task waits, so the loop takes
  it and puts it back until its guard of 100000 turns is used up, and throws the TypeError ''microtask
  queue did not settle'', although the combinator could answer. (Nothing else happens in the meantime;
  reading the items does not depend on the queues.)
\<close>

theorem any_never_settles:
  assumes "spinning items s t k" and "timers s = []" and "\<not> jayess_has_exception (rt s)"
    and "\<And>s v. \<forall>t c. items (s\<lparr>task_at := t, callbacks := c\<rparr>) v = items s v"
    and h: "hk_items h = items" "hk_env h s = s"
  shows "jayess_run_microtasks h d s = Some (sched_throw_type_error s ''microtask queue did not settle'')"
proof -
  from spinning_turn [OF assms(1,4)] obtain s1 where deq: "jayess_dequeue_microtask items s = (Some t, s1)"
    and k: "task_at s1 t = Some (k\<lparr>tk_queued := False\<rparr>)"
    and run: "run_combinator_task items s1 t (k\<lparr>tk_queued := False\<rparr>) = (False, s)" by blast
  have kind: "tk_kind k = Task_Promise_Callback" "tk_action k = Act_Any" "callbacks s = [t]"
    using assms(1) by (simp_all add: spinning_def)
  have turn: "jayess_run_microtask h d t s1 = Some (False, s)"
    by (simp add: jayess_run_microtask.simps k kind run h)
  have tasks: "jayess_scheduler_has_tasks s" by (simp add: jayess_scheduler_has_tasks_def kind)
  have "run_microtasks_loop h d g s = Some (sched_throw_type_error s ''microtask queue did not settle'')" for g
  proof (induction g)
    case 0
    show ?case by (simp add: run_microtasks_loop.simps)
  next
    case (Suc g)
    show ?case
      by (subst run_microtasks_loop.simps) (simp add: tasks h deq turn assms(3) Suc)
  qed
  then show ?thesis by (simp add: jayess_run_microtasks_def)
qed

text \<open>A pending and a fulfilled promise given to \<open>Promise.any\<close>.\<close>

definition any_items :: "sched \<Rightarrow> jayess_value \<Rightarrow> jayess_slots" where
  "any_items s v = [Some (VObject 0), Some (VObject 1)]"

definition any_sched :: sched where
  "any_sched =
     jayess_enqueue_promise_task any_items
       (snd (new_promise (snd (new_promise initial_sched Pending VUndefined)) Fulfilled VNull))
       (Some VNull) None None None Act_Any"

definition any_hooks :: hooks where
  "any_hooks = \<lparr>hk_items = any_items, hk_call = (\<lambda>s f v. (None, s)), hk_socket_effects = (\<lambda>s k. s), hk_env = (\<lambda>s. s)\<rparr>"

lemma any_sched_spins:
  "spinning any_items any_sched 0 ((blank_task Task_Promise_Callback)\<lparr>tk_action := Act_Any, tk_source := Some VNull,
     tk_queued := True\<rparr>)"
  by (simp add: any_sched_def sched_eval spinning_def jayess_promise_add_combinator_dependents_def
      jayess_promise_combinator_ready_def jayess_value_iterable_values_def any_items_def combinator_outcome_def)

theorem any_never_settles_witness:
  "jayess_run_microtasks any_hooks 0 any_sched = Some (sched_throw_type_error any_sched ''microtask queue did not settle'')"
  by (rule any_never_settles [OF any_sched_spins])
    (simp_all add: any_hooks_def any_items_def any_sched_def sched_eval jayess_promise_add_combinator_dependents_def
      jayess_promise_combinator_ready_def jayess_value_iterable_values_def jayess_has_exception_def)

section \<open>Sleeps and self-dependent combinators\<close>

text \<open>
  \<open>clearTimeout(0)\<close> cancels a pending sleep: a sleep task is created with timer identifier 0,
  so when no other timer has that identifier the first sleep in the queue is removed and freed, and
  no task is left that could settle its promise. (Identifiers given to programs start at 1; a missing
  or non-numeric argument reads as 0.)
\<close>

theorem clear_zero_drops_sleep:
  assumes "timers s = []" and "next_task s = t"
  shows "(let s' = jayess_clear_timeout (jayess_enqueue_sleep_async_task s result ms v) 0
     in timers s' = [] \<and> task_at s' t = None \<and> callbacks s' = callbacks s \<and> promise_at s' = promise_at s)"
  using assms
  by (simp add: jayess_enqueue_sleep_async_task_def new_task_def jayess_append_microtask_def update_task_def
      blank_task_def jayess_queue_append_def jayess_clear_timeout_def task_holds_def free_task_def Let_def)

theorem clear_zero_drops_sleep_witness:
  "timers (jayess_clear_timeout (jayess_enqueue_sleep_async_task initial_sched (Some (VObject 0)) 50 None) 0) = []"
  using clear_zero_drops_sleep [of initial_sched 0 "Some (VObject 0)" 50 None]
  by (simp add: initial_sched_def Let_def)

text \<open>
  A combinator whose source array has been given its own result promise: when it settles, it wakes
  itself while it is being run, is queued again, and is then freed by the loop, so that the queue
  holds a freed task.
\<close>

definition self_items :: "sched \<Rightarrow> jayess_value \<Rightarrow> jayess_slots" where
  "self_items s v = [Some (VObject 0), Some (VObject 1)]"

definition self_waiting :: sched where
  "self_waiting =
     jayess_enqueue_promise_task self_items
       (snd (new_promise (snd (new_promise initial_sched Pending VUndefined)) Pending VUndefined))
       (Some VNull) (Some (VObject 0)) None None Act_Race"

lemma self_waiting_freed:
  "(let s1 = jayess_promise_settle self_waiting (Some (VObject 1)) Fulfilled (Some VNull);
        (r, s2) = jayess_dequeue_microtask self_items s1;
        k = the (task_at s2 0);
        (finished, s3) = run_combinator_task self_items s2 0 k;
        s4 = release_task s3 0
    in r = Some 0 \<and> finished \<and> callbacks s4 = [0] \<and> task_at s4 0 = None)"
  by (simp add: self_waiting_def sched_eval jayess_promise_add_combinator_dependents_def
      jayess_promise_combinator_ready_def jayess_value_iterable_values_def self_items_def
      jayess_dequeue_microtask_def queue_removal task_holds_def unqueue_def run_combinator_task_def combinator_outcome_def
      jayess_promise_value_def release_task_def free_task_def)

end
