(* ===== verification/Map_Set.thy ===== *)
theory Map_Set
  imports State_Correct
begin

text \<open>
  The Map and Set objects of \<open>jayess_runtime.c\<close>: an object whose internal properties hold arrays,
  the keys and the values of a Map, the values of a Set. Keys are found by a linear search with the
  equality of values. The weak variants search for the same box and accept objects and functions
  only; boxes have no identity in the model, so \<open>same_box\<close> is a parameter there.

  A Map with its two arrays is an ordered store of the contract in \<open>Key_Store\<close>, and so is a Set.
\<close>

section \<open>The arrays of the object\<close>

definition jayess_std_array_slot :: "jayess_state \<Rightarrow> jayess_value option \<Rightarrow> string \<Rightarrow> nat option" where
  "jayess_std_array_slot s target key =
     (case target of
        Some (VObject a) \<Rightarrow> (case object_get s a key of Some (VArray b) \<Rightarrow> Some b | _ \<Rightarrow> None)
      | _ \<Rightarrow> None)"

text \<open>Functions are equal when they have the same code and environment.\<close>

definition function_eq :: "(nat \<Rightarrow> jayess_function option) \<Rightarrow> nat \<Rightarrow> nat \<Rightarrow> bool" where
  "function_eq fs f g \<longleftrightarrow>
     (case (fs f, fs g) of
        (Some x, Some y) \<Rightarrow> fn_callee x = fn_callee y \<and> fn_env x = fn_env y
      | _ \<Rightarrow> False)"

definition value_eq :: "jayess_state \<Rightarrow> jayess_value option \<Rightarrow> jayess_value option \<Rightarrow> bool" where
  "value_eq s = jayess_value_eq (function_eq (funcs s))"

fun index_loop :: "(jayess_value option \<Rightarrow> bool) \<Rightarrow> int \<Rightarrow> jayess_slots \<Rightarrow> int" where
  "index_loop P i [] = -1"
| "index_loop P i (v # vs) = (if P v then i else index_loop P (i + 1) vs)"

definition jayess_std_map_index_of :: "jayess_state \<Rightarrow> jayess_value option \<Rightarrow> jayess_value option \<Rightarrow> int" where
  "jayess_std_map_index_of s target key =
     (case jayess_std_array_slot s target ''__jayess_map_keys'' of
        None \<Rightarrow> -1 | Some b \<Rightarrow> index_loop (\<lambda>v. value_eq s v key) 0 (slots_at s b))"

definition jayess_std_set_index_of :: "jayess_state \<Rightarrow> jayess_value option \<Rightarrow> jayess_value option \<Rightarrow> int" where
  "jayess_std_set_index_of s target v =
     (case jayess_std_array_slot s target ''__jayess_set_values'' of
        None \<Rightarrow> -1 | Some b \<Rightarrow> index_loop (\<lambda>w. value_eq s w v) 0 (slots_at s b))"

definition jayess_std_weak_key_valid :: "jayess_value option \<Rightarrow> bool" where
  "jayess_std_weak_key_valid key \<longleftrightarrow> (case key of Some (VObject _) \<Rightarrow> True | Some (VFunction _) \<Rightarrow> True | _ \<Rightarrow> False)"

type_synonym box_eq = "jayess_value option \<Rightarrow> jayess_value option \<Rightarrow> bool"

definition jayess_std_weak_map_index_of ::
  "box_eq \<Rightarrow> jayess_state \<Rightarrow> jayess_value option \<Rightarrow> jayess_value option \<Rightarrow> int" where
  "jayess_std_weak_map_index_of same_box s target key =
     (case jayess_std_array_slot s target ''__jayess_weak_map_keys'' of
        None \<Rightarrow> -1
      | Some b \<Rightarrow> if \<not> jayess_std_weak_key_valid key then -1 else index_loop (\<lambda>v. same_box v key) 0 (slots_at s b))"

definition jayess_std_weak_set_index_of ::
  "box_eq \<Rightarrow> jayess_state \<Rightarrow> jayess_value option \<Rightarrow> jayess_value option \<Rightarrow> int" where
  "jayess_std_weak_set_index_of same_box s target v =
     (case jayess_std_array_slot s target ''__jayess_weak_set_values'' of
        None \<Rightarrow> -1
      | Some b \<Rightarrow> if \<not> jayess_std_weak_key_valid v then -1 else index_loop (\<lambda>w. same_box w v) 0 (slots_at s b))"

text \<open>Removal from the arrays of a Map or Set leaves the accounting as it is.\<close>

definition jayess_array_remove_at :: "jayess_slots \<Rightarrow> int \<Rightarrow> jayess_slots" where
  "jayess_array_remove_at vs index =
     (if index < 0 \<or> int (length vs) \<le> index then vs
      else take (length vs - 1) (remove_loop vs (nat index + 1) (length vs - (nat index + 1))))"

definition set_slots :: "jayess_state \<Rightarrow> nat \<Rightarrow> jayess_slots \<Rightarrow> jayess_state" where
  "set_slots s b vs = s\<lparr>arrays := (arrays s)(b \<mapsto> vs)\<rparr>"

definition push_slot :: "jayess_state \<Rightarrow> nat \<Rightarrow> jayess_value option \<Rightarrow> jayess_state" where
  "push_slot s b v = (let (acc, vs, _) = jayess_array_push_value (accounting s) (slots_at s b) v in array_write s b (acc, vs))"

definition jayess_array_clone :: "jayess_state \<Rightarrow> jayess_slots \<Rightarrow> nat \<times> jayess_state" where
  "jayess_array_clone s vs =
     (let (c, s1) = jayess_array_new s in (c, array_write s1 c (append_loop (accounting s1) [] vs)))"

section \<open>Construction\<close>

definition jayess_std_map_new :: "jayess_state \<Rightarrow> jayess_value \<times> jayess_state" where
  "jayess_std_map_new s =
     (let (a, s1) = jayess_object_new s;
          s2 = object_set s1 a ''__jayess_std_kind'' (VString ''Map'');
          (ks, s3) = jayess_array_new s2;
          s4 = object_set s3 a ''__jayess_map_keys'' (VArray ks);
          (vs, s5) = jayess_array_new s4
      in (VObject a, object_set s5 a ''__jayess_map_values'' (VArray vs)))"

definition jayess_std_set_new :: "jayess_state \<Rightarrow> jayess_value \<times> jayess_state" where
  "jayess_std_set_new s =
     (let (a, s1) = jayess_object_new s;
          s2 = object_set s1 a ''__jayess_std_kind'' (VString ''Set'');
          (vs, s3) = jayess_array_new s2
      in (VObject a, object_set s3 a ''__jayess_set_values'' (VArray vs)))"

definition jayess_std_weak_map_new :: "jayess_state \<Rightarrow> jayess_value \<times> jayess_state" where
  "jayess_std_weak_map_new s =
     (let (a, s1) = jayess_object_new s;
          s2 = object_set s1 a ''__jayess_std_kind'' (VString ''WeakMap'');
          (ks, s3) = jayess_array_new s2;
          s4 = object_set s3 a ''__jayess_weak_map_keys'' (VArray ks);
          (vs, s5) = jayess_array_new s4
      in (VObject a, object_set s5 a ''__jayess_weak_map_values'' (VArray vs)))"

definition jayess_std_weak_set_new :: "jayess_state \<Rightarrow> jayess_value \<times> jayess_state" where
  "jayess_std_weak_set_new s =
     (let (a, s1) = jayess_object_new s;
          s2 = object_set s1 a ''__jayess_std_kind'' (VString ''WeakSet'');
          (vs, s3) = jayess_array_new s2
      in (VObject a, object_set s3 a ''__jayess_weak_set_values'' (VArray vs)))"

section \<open>The methods of Map\<close>

definition jayess_std_map_get_method :: "jayess_state \<Rightarrow> jayess_value option \<Rightarrow> jayess_value option \<Rightarrow> jayess_value" where
  "jayess_std_map_get_method s env key =
     (let index = jayess_std_map_index_of s env key
      in case jayess_std_array_slot s env ''__jayess_map_values'' of
           None \<Rightarrow> VUndefined
         | Some b \<Rightarrow> if index < 0 \<or> int (length (slots_at s b)) \<le> index then VUndefined
                     else value_or_undefined (slots_at s b ! nat index))"

definition jayess_std_map_has_method :: "jayess_state \<Rightarrow> jayess_value option \<Rightarrow> jayess_value option \<Rightarrow> jayess_value" where
  "jayess_std_map_has_method s env key = VBool (0 \<le> jayess_std_map_index_of s env key)"

text \<open>
  The value is written without a check of the length of the values array; a write past its end is
  \<open>None\<close>.
\<close>

definition jayess_std_map_set_method ::
  "jayess_state \<Rightarrow> jayess_value option \<Rightarrow> jayess_value option \<Rightarrow> jayess_value option \<Rightarrow> (jayess_value \<times> jayess_state) option" where
  "jayess_std_map_set_method s env key v =
     (let index = jayess_std_map_index_of s env key
      in case (jayess_std_array_slot s env ''__jayess_map_keys'', jayess_std_array_slot s env ''__jayess_map_values'') of
           (Some ks, Some vs) \<Rightarrow>
             if index < 0 then Some (value_or_undefined env, push_slot (push_slot s ks key) vs v)
             else if int (length (slots_at s vs)) \<le> index then None
             else Some (value_or_undefined env, set_slots s vs ((slots_at s vs)[nat index := v]))
         | _ \<Rightarrow> Some (value_or_undefined env, s))"

definition jayess_std_map_clear_method :: "jayess_state \<Rightarrow> jayess_value option \<Rightarrow> jayess_value \<times> jayess_state" where
  "jayess_std_map_clear_method s env =
     (let clear = (\<lambda>s slot. case slot of None \<Rightarrow> s | Some b \<Rightarrow> set_slots s b [])
      in (VUndefined, clear (clear s (jayess_std_array_slot s env ''__jayess_map_keys''))
                        (jayess_std_array_slot s env ''__jayess_map_values'')))"

definition jayess_std_map_delete_method ::
  "jayess_state \<Rightarrow> jayess_value option \<Rightarrow> jayess_value option \<Rightarrow> jayess_value \<times> jayess_state" where
  "jayess_std_map_delete_method s env key =
     (let index = jayess_std_map_index_of s env key
      in case (jayess_std_array_slot s env ''__jayess_map_keys'', jayess_std_array_slot s env ''__jayess_map_values'') of
           (Some ks, Some vs) \<Rightarrow>
             if index < 0 then (VBool False, s)
             else (let s1 = set_slots s ks (jayess_array_remove_at (slots_at s ks) index)
                   in (VBool True, set_slots s1 vs (jayess_array_remove_at (slots_at s1 vs) index)))
         | _ \<Rightarrow> (VBool False, s))"

definition cloned_slot :: "jayess_state \<Rightarrow> nat option \<Rightarrow> jayess_value \<times> jayess_state" where
  "cloned_slot s slot = (let (c, s1) = jayess_array_clone s (case slot of None \<Rightarrow> [] | Some b \<Rightarrow> slots_at s b) in (VArray c, s1))"

definition jayess_std_map_keys_method :: "jayess_state \<Rightarrow> jayess_value option \<Rightarrow> jayess_value \<times> jayess_state" where
  "jayess_std_map_keys_method s env = cloned_slot s (jayess_std_array_slot s env ''__jayess_map_keys'')"

definition jayess_std_map_values_method :: "jayess_state \<Rightarrow> jayess_value option \<Rightarrow> jayess_value \<times> jayess_state" where
  "jayess_std_map_values_method s env = cloned_slot s (jayess_std_array_slot s env ''__jayess_map_values'')"

text \<open>Pairs are new arrays, pushed one after the other.\<close>

fun pairs_loop :: "jayess_state \<Rightarrow> nat \<Rightarrow> (jayess_value option \<times> jayess_value option) list \<Rightarrow> jayess_state" where
  "pairs_loop s entries [] = s"
| "pairs_loop s entries ((k, v) # kvs) =
     (let (p, s1) = jayess_array_new s
      in pairs_loop (push_slot (push_slot (push_slot s1 p k) p v) entries (Some (VArray p))) entries kvs)"

definition jayess_std_map_entries_method :: "jayess_state \<Rightarrow> jayess_value option \<Rightarrow> jayess_value \<times> jayess_state" where
  "jayess_std_map_entries_method s env =
     (let (entries, s1) = jayess_array_new s
      in (VArray entries,
          case (jayess_std_array_slot s env ''__jayess_map_keys'', jayess_std_array_slot s env ''__jayess_map_values'') of
            (Some ks, Some vs) \<Rightarrow> pairs_loop s1 entries (zip (slots_at s ks) (slots_at s vs))
          | _ \<Rightarrow> s1))"

section \<open>The methods of Set\<close>

definition jayess_std_set_has_method :: "jayess_state \<Rightarrow> jayess_value option \<Rightarrow> jayess_value option \<Rightarrow> jayess_value" where
  "jayess_std_set_has_method s env v = VBool (0 \<le> jayess_std_set_index_of s env v)"

definition jayess_std_set_add_method ::
  "jayess_state \<Rightarrow> jayess_value option \<Rightarrow> jayess_value option \<Rightarrow> jayess_value \<times> jayess_state" where
  "jayess_std_set_add_method s env v =
     (value_or_undefined env,
      case jayess_std_array_slot s env ''__jayess_set_values'' of
        None \<Rightarrow> s
      | Some b \<Rightarrow> if jayess_std_set_index_of s env v < 0 then push_slot s b v else s)"

definition jayess_std_set_clear_method :: "jayess_state \<Rightarrow> jayess_value option \<Rightarrow> jayess_value \<times> jayess_state" where
  "jayess_std_set_clear_method s env =
     (VUndefined, case jayess_std_array_slot s env ''__jayess_set_values'' of None \<Rightarrow> s | Some b \<Rightarrow> set_slots s b [])"

definition jayess_std_set_delete_method ::
  "jayess_state \<Rightarrow> jayess_value option \<Rightarrow> jayess_value option \<Rightarrow> jayess_value \<times> jayess_state" where
  "jayess_std_set_delete_method s env v =
     (let index = jayess_std_set_index_of s env v
      in case jayess_std_array_slot s env ''__jayess_set_values'' of
           None \<Rightarrow> (VBool False, s)
         | Some b \<Rightarrow> if index < 0 then (VBool False, s)
                     else (VBool True, set_slots s b (jayess_array_remove_at (slots_at s b) index)))"

definition jayess_std_set_values_method :: "jayess_state \<Rightarrow> jayess_value option \<Rightarrow> jayess_value \<times> jayess_state" where
  "jayess_std_set_values_method s env = cloned_slot s (jayess_std_array_slot s env ''__jayess_set_values'')"

definition jayess_std_set_entries_method :: "jayess_state \<Rightarrow> jayess_value option \<Rightarrow> jayess_value \<times> jayess_state" where
  "jayess_std_set_entries_method s env =
     (let (entries, s1) = jayess_array_new s
      in (VArray entries,
          case jayess_std_array_slot s env ''__jayess_set_values'' of
            None \<Rightarrow> s1
          | Some b \<Rightarrow> pairs_loop s1 entries (map (\<lambda>v. (v, v)) (slots_at s b))))"

section \<open>The weak variants\<close>

text \<open>A key that is no object or function makes every method throw a TypeError and answer \<open>undefined\<close>.\<close>

definition weak_error :: "jayess_state \<Rightarrow> string \<Rightarrow> jayess_value \<times> jayess_state" where
  "weak_error s message = (VUndefined, jayess_throw_type_error s message)"

definition weak_map_message :: string where
  "weak_map_message = ''WeakMap keys must be objects or functions''"

definition weak_set_message :: string where
  "weak_set_message = ''WeakSet values must be objects or functions''"

definition jayess_std_weak_map_get_method ::
  "box_eq \<Rightarrow> jayess_state \<Rightarrow> jayess_value option \<Rightarrow> jayess_value option \<Rightarrow> jayess_value \<times> jayess_state" where
  "jayess_std_weak_map_get_method same_box s env key =
     (if \<not> jayess_std_weak_key_valid key then weak_error s weak_map_message
      else (let index = jayess_std_weak_map_index_of same_box s env key
            in (case jayess_std_array_slot s env ''__jayess_weak_map_values'' of
                  None \<Rightarrow> VUndefined
                | Some b \<Rightarrow> if index < 0 \<or> int (length (slots_at s b)) \<le> index then VUndefined
                            else value_or_undefined (slots_at s b ! nat index), s)))"

definition jayess_std_weak_map_set_method ::
  "box_eq \<Rightarrow> jayess_state \<Rightarrow> jayess_value option \<Rightarrow> jayess_value option \<Rightarrow> jayess_value option
   \<Rightarrow> (jayess_value \<times> jayess_state) option" where
  "jayess_std_weak_map_set_method same_box s env key v =
     (if \<not> jayess_std_weak_key_valid key then Some (weak_error s weak_map_message)
      else (let index = jayess_std_weak_map_index_of same_box s env key
            in case (jayess_std_array_slot s env ''__jayess_weak_map_keys'',
                     jayess_std_array_slot s env ''__jayess_weak_map_values'') of
                 (Some ks, Some vs) \<Rightarrow>
                   if index < 0 then Some (value_or_undefined env, push_slot (push_slot s ks key) vs v)
                   else if int (length (slots_at s vs)) \<le> index then None
                   else Some (value_or_undefined env, set_slots s vs ((slots_at s vs)[nat index := v]))
               | _ \<Rightarrow> Some (value_or_undefined env, s)))"

definition jayess_std_weak_map_has_method ::
  "box_eq \<Rightarrow> jayess_state \<Rightarrow> jayess_value option \<Rightarrow> jayess_value option \<Rightarrow> jayess_value \<times> jayess_state" where
  "jayess_std_weak_map_has_method same_box s env key =
     (if \<not> jayess_std_weak_key_valid key then weak_error s weak_map_message
      else (VBool (0 \<le> jayess_std_weak_map_index_of same_box s env key), s))"

definition jayess_std_weak_map_delete_method ::
  "box_eq \<Rightarrow> jayess_state \<Rightarrow> jayess_value option \<Rightarrow> jayess_value option \<Rightarrow> jayess_value \<times> jayess_state" where
  "jayess_std_weak_map_delete_method same_box s env key =
     (if \<not> jayess_std_weak_key_valid key then weak_error s weak_map_message
      else (let index = jayess_std_weak_map_index_of same_box s env key
            in case (jayess_std_array_slot s env ''__jayess_weak_map_keys'',
                     jayess_std_array_slot s env ''__jayess_weak_map_values'') of
                 (Some ks, Some vs) \<Rightarrow>
                   if index < 0 then (VBool False, s)
                   else (let s1 = set_slots s ks (jayess_array_remove_at (slots_at s ks) index)
                         in (VBool True, set_slots s1 vs (jayess_array_remove_at (slots_at s1 vs) index)))
               | _ \<Rightarrow> (VBool False, s)))"

definition jayess_std_weak_set_add_method ::
  "box_eq \<Rightarrow> jayess_state \<Rightarrow> jayess_value option \<Rightarrow> jayess_value option \<Rightarrow> jayess_value \<times> jayess_state" where
  "jayess_std_weak_set_add_method same_box s env v =
     (if \<not> jayess_std_weak_key_valid v then weak_error s weak_set_message
      else (value_or_undefined env,
            case jayess_std_array_slot s env ''__jayess_weak_set_values'' of
              None \<Rightarrow> s
            | Some b \<Rightarrow> if jayess_std_weak_set_index_of same_box s env v < 0 then push_slot s b v else s))"

definition jayess_std_weak_set_has_method ::
  "box_eq \<Rightarrow> jayess_state \<Rightarrow> jayess_value option \<Rightarrow> jayess_value option \<Rightarrow> jayess_value \<times> jayess_state" where
  "jayess_std_weak_set_has_method same_box s env v =
     (if \<not> jayess_std_weak_key_valid v then weak_error s weak_set_message
      else (VBool (0 \<le> jayess_std_weak_set_index_of same_box s env v), s))"

definition jayess_std_weak_set_delete_method ::
  "box_eq \<Rightarrow> jayess_state \<Rightarrow> jayess_value option \<Rightarrow> jayess_value option \<Rightarrow> jayess_value \<times> jayess_state" where
  "jayess_std_weak_set_delete_method same_box s env v =
     (if \<not> jayess_std_weak_key_valid v then weak_error s weak_set_message
      else (let index = jayess_std_weak_set_index_of same_box s env v
            in case jayess_std_array_slot s env ''__jayess_weak_set_values'' of
                 None \<Rightarrow> (VBool False, s)
               | Some b \<Rightarrow> if index < 0 then (VBool False, s)
                           else (VBool True, set_slots s b (jayess_array_remove_at (slots_at s b) index))))"

end
