(* ===== verification/Map_Correct.thy ===== *)
theory Map_Correct
  imports Map_Set
begin

text \<open>
  A Map is an ordered store: the search by value equality over two parallel arrays meets the
  contract of \<open>Key_Store\<close>, for the keys that are equal to themselves.
\<close>

section \<open>Searching parallel lists\<close>

lemma index_loop_none: "\<forall>v \<in> set vs. \<not> P v \<Longrightarrow> index_loop P i vs = -1"
  by (induction vs arbitrary: i) auto

lemma index_loop_some: "\<forall>v \<in> set us. \<not> P v \<Longrightarrow> P v \<Longrightarrow> index_loop P i (us @ v # vs) = i + int (length us)"
  by (induction us arbitrary: i) auto

lemma first_match:
  obtains (none) "\<forall>v \<in> set vs. \<not> P v" "index_loop P 0 vs = -1"
  | (found) us v ws where "vs = us @ v # ws" "\<forall>v \<in> set us. \<not> P v" "P v" "index_loop P 0 vs = int (length us)"
proof (cases "\<exists>v \<in> set vs. P v")
  case True
  from split_list_first_prop [OF this] obtain us v ws where d: "vs = us @ v # ws" "P v" "\<forall>v \<in> set us. \<not> P v"
    by blast
  from d(1,3,2) show thesis
  proof (rule found)
    show "index_loop P 0 vs = int (length us)" unfolding d(1) using index_loop_some [of us P v 0 ws] d(2,3) by simp
  qed
next
  case False
  then show thesis by (intro none) (simp_all add: index_loop_none)
qed

text \<open>The slot of the second list at the position of the first match in the first list.\<close>

fun pair_lookup :: "(jayess_value option \<Rightarrow> bool) \<Rightarrow> jayess_slots \<Rightarrow> jayess_slots \<Rightarrow> jayess_value option option" where
  "pair_lookup P (k # ks) (v # vs) = (if P k then Some v else pair_lookup P ks vs)"
| "pair_lookup P _ _ = None"

lemma pair_lookup_append:
  "length us = length xs \<Longrightarrow>
   pair_lookup P (us @ ks) (xs @ vs) = (case pair_lookup P us xs of None \<Rightarrow> pair_lookup P ks vs | Some v \<Rightarrow> Some v)"
  by (induction us xs rule: list_induct2) auto

lemma pair_lookup_none: "\<forall>k \<in> set ks. \<not> P k \<Longrightarrow> pair_lookup P ks vs = None"
  by (induction P ks vs rule: pair_lookup.induct) auto

lemma pair_lookup_iff: "length ks = length vs \<Longrightarrow> pair_lookup P ks vs \<noteq> None \<longleftrightarrow> (\<exists>k \<in> set ks. P k)"
  by (induction ks vs rule: list_induct2) auto

lemma pair_lookup_index:
  assumes "length ks = length vs"
  shows "pair_lookup P ks vs
    = (let i = index_loop P 0 ks in if i < 0 then None else Some (vs ! nat i))"
proof (cases P ks rule: first_match)
  case none
  then show ?thesis by (simp add: pair_lookup_none)
next
  case (found us k ws)
  define xs ys where "xs = take (length us) vs" and "ys = drop (Suc (length us)) vs"
  have n: "length us < length vs" using assms found(1) by simp
  then have vs: "vs = xs @ vs ! length us # ys" by (simp add: xs_def ys_def id_take_nth_drop)
  have len: "length us = length xs" using n by (simp add: xs_def)
  have "pair_lookup P ks vs = Some (vs ! length us)"
    using found(1,2,3) by (subst vs) (simp add: pair_lookup_append [OF len] pair_lookup_none)
  with found(4) show ?thesis by simp
qed

text \<open>Splitting parallel lists at a match.\<close>

lemma split_parallel:
  assumes "length (us @ k # ws) = length vs"
  obtains xs v ys where "vs = xs @ v # ys" and "length us = length xs" and "length ws = length ys"
proof
  let ?n = "length us"
  show "vs = take ?n vs @ vs ! ?n # drop (Suc ?n) vs" using assms by (simp add: id_take_nth_drop)
  show "length us = length (take ?n vs)" "length ws = length (drop (Suc ?n) vs)" using assms by simp_all
qed

lemma remove_at_middle: "jayess_array_remove_at (xs @ v # ys) (int (length xs)) = xs @ ys"
  using remove_loop [of "length xs + 1" "length ys" "xs @ v # ys"]
  by (simp add: jayess_array_remove_at_def)

section \<open>Equality of keys\<close>

definition key_same :: "(nat \<Rightarrow> jayess_function option) \<Rightarrow> jayess_value option \<Rightarrow> jayess_value option \<Rightarrow> bool" where
  "key_same fs j k \<longleftrightarrow> jayess_value_eq (function_eq fs) j k"

text \<open>Keys that are equal to themselves: everything but NaN and a function that does not exist.\<close>

definition key_fine :: "(nat \<Rightarrow> jayess_function option) \<Rightarrow> jayess_value option \<Rightarrow> bool" where
  "key_fine fs k \<longleftrightarrow> key_same fs k k"

lemma function_eq_equiv:
  "function_eq fs f g \<Longrightarrow> function_eq fs g f" "function_eq fs f g \<Longrightarrow> function_eq fs g h \<Longrightarrow> function_eq fs f h"
  by (auto simp: function_eq_def split: option.splits)

lemma value_eq_box_equiv:
  "value_eq_box (function_eq fs) v w \<Longrightarrow> value_eq_box (function_eq fs) w v"
  "value_eq_box (function_eq fs) v w \<Longrightarrow> value_eq_box (function_eq fs) w u \<Longrightarrow> value_eq_box (function_eq fs) v u"
  by (cases v; cases w; cases u; auto simp: dbl_eq_def dest: function_eq_equiv)+

lemma key_same_sym: "key_same fs j k \<Longrightarrow> key_same fs k j"
  by (auto simp: key_same_def jayess_value_eq_def dest: value_eq_box_equiv(1) split: option.splits)

lemma key_same_trans: "key_same fs i j \<Longrightarrow> key_same fs j k \<Longrightarrow> key_same fs i k"
  by (auto simp: key_same_def jayess_value_eq_def dest: value_eq_box_equiv(2) split: option.splits)

definition keys_distinct :: "(nat \<Rightarrow> jayess_function option) \<Rightarrow> jayess_slots \<Rightarrow> bool" where
  "keys_distinct fs ks \<longleftrightarrow> list_all (key_fine fs) ks \<and> sorted_wrt (\<lambda>j k. \<not> key_same fs j k) ks"

lemma keys_distinct_middle:
  "keys_distinct fs (us @ k # ws) \<longleftrightarrow>
     keys_distinct fs (us @ ws) \<and> key_fine fs k \<and> (\<forall>j \<in> set us \<union> set ws. \<not> key_same fs j k)"
  by (auto simp: keys_distinct_def sorted_wrt_append dest: key_same_sym)

section \<open>Parallel key and value lists\<close>

definition pairs_update :: "(nat \<Rightarrow> jayess_function option) \<Rightarrow> jayess_slots \<times> jayess_slots \<Rightarrow> jayess_value option
    \<Rightarrow> jayess_value option \<Rightarrow> jayess_slots \<times> jayess_slots" where
  "pairs_update fs kvs k v =
     (let i = index_loop (\<lambda>j. key_same fs j k) 0 (fst kvs)
      in if i < 0 then (fst kvs @ [k], snd kvs @ [v]) else (fst kvs, (snd kvs)[nat i := v]))"

definition pairs_delete :: "(nat \<Rightarrow> jayess_function option) \<Rightarrow> jayess_slots \<times> jayess_slots \<Rightarrow> jayess_value option
    \<Rightarrow> jayess_slots \<times> jayess_slots" where
  "pairs_delete fs kvs k =
     (let i = index_loop (\<lambda>j. key_same fs j k) 0 (fst kvs)
      in if i < 0 then kvs else (jayess_array_remove_at (fst kvs) i, jayess_array_remove_at (snd kvs) i))"

definition pairs_lookup :: "(nat \<Rightarrow> jayess_function option) \<Rightarrow> jayess_slots \<times> jayess_slots \<Rightarrow> jayess_value option
    \<Rightarrow> jayess_value option option" where
  "pairs_lookup fs kvs k = pair_lookup (\<lambda>j. key_same fs j k) (fst kvs) (snd kvs)"

definition pairs_inv :: "(nat \<Rightarrow> jayess_function option) \<Rightarrow> jayess_slots \<times> jayess_slots \<Rightarrow> bool" where
  "pairs_inv fs kvs \<longleftrightarrow> length (fst kvs) = length (snd kvs) \<and> keys_distinct fs (fst kvs)"

lemma pairs_update_cases:
  assumes inv: "pairs_inv fs kvs" and k: "key_fine fs k"
  obtains (new) "\<forall>j \<in> set (fst kvs). \<not> key_same fs j k" "pairs_update fs kvs k v = (fst kvs @ [k], snd kvs @ [v])"
      "pairs_delete fs kvs k = kvs"
  | (old) us j ws xs w ys where "kvs = (us @ j # ws, xs @ w # ys)" "length us = length xs" "length ws = length ys"
      "key_same fs j k" "\<forall>i \<in> set us \<union> set ws. \<not> key_same fs i k"
      "pairs_update fs kvs k v = (us @ j # ws, xs @ v # ys)" "pairs_delete fs kvs k = (us @ ws, xs @ ys)"
proof (cases "\<lambda>j. key_same fs j k" "fst kvs" rule: first_match)
  case none
  then show ?thesis by (intro new) (simp_all add: pairs_update_def pairs_delete_def)
next
  case (found us j ws)
  with inv have "length (us @ j # ws) = length (snd kvs)" by (simp add: pairs_inv_def)
  then obtain xs w ys where vs: "snd kvs = xs @ w # ys" "length us = length xs" "length ws = length ys"
    by (rule split_parallel)
  have kvs: "kvs = (us @ j # ws, xs @ w # ys)" using found(1) vs(1) by (simp add: prod_eq_iff)
  have "\<forall>i \<in> set us \<union> set ws. \<not> key_same fs i j"
    using inv found(1) by (auto simp: pairs_inv_def keys_distinct_middle)
  then have other: "\<forall>i \<in> set us \<union> set ws. \<not> key_same fs i k"
    using found(3) key_same_sym key_same_trans by blast
  have i: "index_loop (\<lambda>j. key_same fs j k) 0 (us @ j # ws) = int (length us)" using found(1,4) by simp
  show ?thesis
  proof (rule old [OF kvs vs(2,3) found(3) other])
    show "pairs_update fs kvs k v = (us @ j # ws, xs @ v # ys)"
      using vs(2) by (simp add: pairs_update_def kvs i)
    show "pairs_delete fs kvs k = (us @ ws, xs @ ys)"
      using remove_at_middle [of us j ws] remove_at_middle [of xs w ys] vs(2)
      by (simp add: pairs_delete_def kvs i)
  qed
qed

interpretation parallel: ordered_store "pairs_lookup fs" "pairs_update fs" "pairs_delete fs" "key_same fs" "key_fine fs"
  "pairs_inv fs" fst for fs
proof unfold_locales
  fix kvs k v
  assume inv: "pairs_inv fs kvs" and k: "key_fine fs k"
  have len: "length (fst kvs) = length (snd kvs)" and dist: "keys_distinct fs (fst kvs)"
    using inv by (auto simp: pairs_inv_def)
  show "pairs_inv fs (pairs_update fs kvs k v)"
    using inv k by (cases rule: pairs_update_cases [OF inv k, of v])
      (auto simp: pairs_inv_def keys_distinct_middle [where ws = "[]", simplified])
  show "pairs_inv fs (pairs_delete fs kvs k)"
    using inv by (cases rule: pairs_update_cases [OF inv k, of v]) (auto simp: pairs_inv_def keys_distinct_middle)
  show "pairs_lookup fs kvs k \<noteq> None \<longleftrightarrow> (\<exists>j \<in> set (fst kvs). key_same fs j k)"
    using pair_lookup_iff [OF len] by (simp add: pairs_lookup_def)
  show "fst (pairs_update fs kvs k v) = (if \<exists>j \<in> set (fst kvs). key_same fs j k then fst kvs else fst kvs @ [k])"
    by (cases rule: pairs_update_cases [OF inv k, of v]) auto
  fix j assume j: "key_fine fs j"
  have same: "(\<lambda>i. key_same fs i j) = (\<lambda>i. key_same fs i k)" if "key_same fs j k"
    using that key_same_sym key_same_trans by blast
  have other: "\<not> key_same fs i j" if "key_same fs i k" "\<not> key_same fs j k" for i
    using that key_same_sym key_same_trans by blast
  note lookup = pairs_lookup_def pair_lookup_append pair_lookup_none
  show "pairs_lookup fs (pairs_update fs kvs k v) j = (if key_same fs j k then Some v else pairs_lookup fs kvs j)"
  using inv k proof (cases rule: pairs_update_cases [where v = v])
    case new
    then show ?thesis using len k other [of k] by (auto simp: lookup same key_fine_def split: option.split)
  next
    case old
    then show ?thesis using other [of j] by (auto simp: lookup same split: option.split dest: other)
  qed
  show "pairs_lookup fs (pairs_delete fs kvs k) j = (if key_same fs j k then None else pairs_lookup fs kvs j)"
  using inv k proof (cases rule: pairs_update_cases [where v = v])
    case new
    then show ?thesis by (auto simp: lookup same)
  next
    case old
    then show ?thesis by (auto simp: lookup same split: option.split dest: other)
  qed
qed (auto simp: key_fine_def pairs_inv_def keys_distinct_def dest: key_same_sym key_same_trans)

section \<open>The methods on the state\<close>

text \<open>The object at \<open>a\<close> is a Map with the key array \<open>ks\<close> and the value array \<open>vs\<close>.\<close>

definition map_arrays :: "jayess_state \<Rightarrow> nat \<Rightarrow> nat \<Rightarrow> nat \<Rightarrow> bool" where
  "map_arrays s a ks vs \<longleftrightarrow>
     jayess_std_array_slot s (Some (VObject a)) ''__jayess_map_keys'' = Some ks
     \<and> jayess_std_array_slot s (Some (VObject a)) ''__jayess_map_values'' = Some vs \<and> ks \<noteq> vs"

definition map_pairs :: "jayess_state \<Rightarrow> nat \<Rightarrow> nat \<Rightarrow> jayess_slots \<times> jayess_slots" where
  "map_pairs s ks vs = (slots_at s ks, slots_at s vs)"

definition good_map :: "jayess_state \<Rightarrow> nat \<Rightarrow> nat \<Rightarrow> nat \<Rightarrow> bool" where
  "good_map s a ks vs \<longleftrightarrow> map_arrays s a ks vs \<and> pairs_inv (funcs s) (map_pairs s ks vs)"

lemma array_slot_cong: "objects s' = objects s \<Longrightarrow> jayess_std_array_slot s' target key = jayess_std_array_slot s target key"
proof -
  assume "objects s' = objects s"
  then have "object_get s' a k = object_get s a k" for a k by (simp add: object_get_def entries_at_def)
  then show ?thesis by (simp only: jayess_std_array_slot_def)
qed

lemma set_slots_simps [simp]:
  "slots_at (set_slots s b vs) c = (if c = b then vs else slots_at s c)" "objects (set_slots s b vs) = objects s"
  "funcs (set_slots s b vs) = funcs s" "next_address (set_slots s b vs) = next_address s"
  by (simp_all add: set_slots_def slots_at_def)

lemma push_slot_simps [simp]:
  "slots_at (push_slot s b v) c = (if c = b then slots_at s b @ [v] else slots_at s c)"
  "objects (push_slot s b v) = objects s" "funcs (push_slot s b v) = funcs s"
  "next_address (push_slot s b v) = next_address s"
  by (simp_all add: push_slot_def array_push)

lemma map_index_of:
  "map_arrays s a ks vs \<Longrightarrow>
   jayess_std_map_index_of s (Some (VObject a)) k = index_loop (\<lambda>j. key_same (funcs s) j k) 0 (slots_at s ks)"
  by (simp add: jayess_std_map_index_of_def map_arrays_def value_eq_def key_same_def)

lemma index_less: "index_loop P 0 xs < int (length xs)" "-1 \<le> index_loop P 0 xs"
  by (cases P xs rule: first_match; simp)+

lemma map_set_method:
  assumes good: "good_map s a ks vs" and k: "key_fine (funcs s) k"
  obtains s' where "jayess_std_map_set_method s (Some (VObject a)) k v = Some (VObject a, s')"
    and "map_pairs s' ks vs = pairs_update (funcs s) (map_pairs s ks vs) k v"
    and "good_map s' a ks vs" and "funcs s' = funcs s" and "objects s' = objects s"
proof -
  let ?i = "jayess_std_map_index_of s (Some (VObject a)) k"
  define s' where "s' = (if ?i < 0 then push_slot (push_slot s ks k) vs v
    else set_slots s vs ((slots_at s vs)[nat ?i := v]))"
  have arr: "map_arrays s a ks vs" and inv: "pairs_inv (funcs s) (map_pairs s ks vs)"
    using good by (auto simp: good_map_def)
  have len: "length (slots_at s ks) = length (slots_at s vs)" using inv by (simp add: pairs_inv_def map_pairs_def)
  have i: "?i < int (length (slots_at s vs))" using index_less(1) [of _ "slots_at s ks"] len by (simp add: map_index_of [OF arr])
  have frame: "objects s' = objects s" "funcs s' = funcs s" by (simp_all add: s'_def)
  have "jayess_std_map_set_method s (Some (VObject a)) k v = Some (VObject a, s')"
    using arr i by (simp add: jayess_std_map_set_method_def map_arrays_def Let_def s'_def value_or_undefined_def)
  moreover have upd: "map_pairs s' ks vs = pairs_update (funcs s) (map_pairs s ks vs) k v"
    using arr by (simp add: map_pairs_def pairs_update_def s'_def map_index_of [OF arr] Let_def) (simp add: map_arrays_def)
  moreover have "good_map s' a ks vs"
    using arr parallel.inv_update [OF inv k] upd
    by (simp add: good_map_def map_arrays_def array_slot_cong [OF frame(1)] frame(2))
  ultimately show ?thesis using that frame by blast
qed

lemma map_delete_method:
  assumes good: "good_map s a ks vs" and k: "key_fine (funcs s) k"
  obtains s' where "jayess_std_map_delete_method s (Some (VObject a)) k
      = (VBool (pairs_lookup (funcs s) (map_pairs s ks vs) k \<noteq> None), s')"
    and "map_pairs s' ks vs = pairs_delete (funcs s) (map_pairs s ks vs) k"
    and "good_map s' a ks vs" and "funcs s' = funcs s"
proof -
  let ?i = "jayess_std_map_index_of s (Some (VObject a)) k"
  define s' where "s' = snd (jayess_std_map_delete_method s (Some (VObject a)) k)"
  have arr: "map_arrays s a ks vs" and inv: "pairs_inv (funcs s) (map_pairs s ks vs)"
    using good by (auto simp: good_map_def)
  have len: "length (slots_at s ks) = length (slots_at s vs)" using inv by (simp add: pairs_inv_def map_pairs_def)
  have s': "s' = (if ?i < 0 then s else set_slots (set_slots s ks (jayess_array_remove_at (slots_at s ks) ?i)) vs
      (jayess_array_remove_at (slots_at s vs) ?i))"
    using arr by (simp add: s'_def jayess_std_map_delete_method_def map_arrays_def Let_def)
  have frame: "objects s' = objects s" "funcs s' = funcs s" by (simp_all add: s')
  have "jayess_std_map_delete_method s (Some (VObject a)) k
      = (VBool (pairs_lookup (funcs s) (map_pairs s ks vs) k \<noteq> None), s')"
    using arr pair_lookup_index [OF len, of "\<lambda>j. key_same (funcs s) j k"]
    by (simp add: jayess_std_map_delete_method_def map_arrays_def Let_def s' pairs_lookup_def map_pairs_def map_index_of [OF arr])
  moreover have del: "map_pairs s' ks vs = pairs_delete (funcs s) (map_pairs s ks vs) k"
    using arr by (simp add: map_pairs_def pairs_delete_def s' map_index_of [OF arr] Let_def map_arrays_def)
  moreover have "good_map s' a ks vs"
    using arr parallel.inv_delete [OF inv k] del
    by (simp add: good_map_def map_arrays_def array_slot_cong [OF frame(1)] frame(2))
  ultimately show ?thesis using that frame by blast
qed

lemma map_get_method:
  assumes good: "good_map s a ks vs"
  shows "jayess_std_map_get_method s (Some (VObject a)) k
    = (case pairs_lookup (funcs s) (map_pairs s ks vs) k of None \<Rightarrow> VUndefined | Some v \<Rightarrow> value_or_undefined v)"
    and "jayess_std_map_has_method s (Some (VObject a)) k
    = VBool (pairs_lookup (funcs s) (map_pairs s ks vs) k \<noteq> None)"
proof -
  have arr: "map_arrays s a ks vs" and inv: "pairs_inv (funcs s) (map_pairs s ks vs)"
    using good by (auto simp: good_map_def)
  have len: "length (slots_at s ks) = length (slots_at s vs)" using inv by (simp add: pairs_inv_def map_pairs_def)
  note lookup = pair_lookup_index [OF len, of "\<lambda>j. key_same (funcs s) j k"]
  show "jayess_std_map_get_method s (Some (VObject a)) k
    = (case pairs_lookup (funcs s) (map_pairs s ks vs) k of None \<Rightarrow> VUndefined | Some v \<Rightarrow> value_or_undefined v)"
    using arr index_less(1) [of "\<lambda>j. key_same (funcs s) j k" "slots_at s ks"] len
    by (simp add: jayess_std_map_get_method_def map_index_of [OF arr] pairs_lookup_def map_pairs_def lookup Let_def map_arrays_def)
  show "jayess_std_map_has_method s (Some (VObject a)) k = VBool (pairs_lookup (funcs s) (map_pairs s ks vs) k \<noteq> None)"
    by (simp add: jayess_std_map_has_method_def map_index_of [OF arr] pairs_lookup_def map_pairs_def lookup Let_def)
qed

section \<open>Properties\<close>

text \<open>A series of calls of \<open>set\<close> on one Map.\<close>

fun map_sets :: "jayess_state \<Rightarrow> nat \<Rightarrow> (jayess_value option \<times> jayess_value option) list \<Rightarrow> jayess_state option" where
  "map_sets s a [] = Some s"
| "map_sets s a ((k, v) # kvs) =
     (case jayess_std_map_set_method s (Some (VObject a)) k v of None \<Rightarrow> None | Some (_, s1) \<Rightarrow> map_sets s1 a kvs)"

lemma map_sets_updates:
  "good_map s a ks vs \<Longrightarrow> list_all (\<lambda>kv. key_fine (funcs s) (fst kv)) kvs \<Longrightarrow>
   \<exists>s'. map_sets s a kvs = Some s' \<and> good_map s' a ks vs \<and> funcs s' = funcs s
     \<and> map_pairs s' ks vs = parallel.updates (funcs s) (map_pairs s ks vs) kvs"
proof (induction kvs arbitrary: s)
  case (Cons kv kvs)
  obtain k v where kv: "kv = (k, v)" by fastforce
  with Cons.prems have k: "key_fine (funcs s) k" by simp
  from map_set_method [OF Cons.prems(1) k, of v] obtain s1 where
    s1: "jayess_std_map_set_method s (Some (VObject a)) k v = Some (VObject a, s1)"
    "map_pairs s1 ks vs = pairs_update (funcs s) (map_pairs s ks vs) k v" "good_map s1 a ks vs" "funcs s1 = funcs s" by metis
  from Cons.IH [OF s1(3)] Cons.prems(2) s1 kv show ?case by simp
qed simp

text \<open>
  C14. Map keeps its promises: after any series of \<open>set\<close> calls with keys that are equal to themselves,
  on any well-formed Map, no write has left the value array, \<open>get\<close> answers the value of the last
  call with an equal key (or what the Map held before, or \<open>undefined\<close>), and the keys are listed in
  the order of their first insertion, without duplicates.
\<close>

theorem map_sets_get:
  assumes "good_map s a ks vs" and "list_all (\<lambda>kv. key_fine (funcs s) (fst kv)) kvs" and "key_fine (funcs s) k"
  shows "\<exists>s'. map_sets s a kvs = Some s'
    \<and> jayess_std_map_get_method s' (Some (VObject a)) k
      = (case parallel.last_binding (funcs s) kvs k of
           Some v \<Rightarrow> value_or_undefined v | None \<Rightarrow> jayess_std_map_get_method s (Some (VObject a)) k)
    \<and> slots_at s' ks = foldl (parallel.insert_key (funcs s)) (slots_at s ks) (map fst kvs)"
proof -
  from map_sets_updates [OF assms(1,2)] obtain s' where s': "map_sets s a kvs = Some s'" "good_map s' a ks vs"
    "funcs s' = funcs s" "map_pairs s' ks vs = parallel.updates (funcs s) (map_pairs s ks vs) kvs" by blast
  have inv: "pairs_inv (funcs s) (map_pairs s ks vs)" using assms(1) by (simp add: good_map_def)
  have "slots_at s' ks = fst (map_pairs s' ks vs)" "slots_at s ks = fst (map_pairs s ks vs)"
    by (simp_all add: map_pairs_def)
  then have "slots_at s' ks = foldl (parallel.insert_key (funcs s)) (slots_at s ks) (map fst kvs)"
    using parallel.keys_updates [OF inv assms(2)] s'(4) by simp
  moreover have "jayess_std_map_get_method s' (Some (VObject a)) k
      = (case parallel.last_binding (funcs s) kvs k of
           Some v \<Rightarrow> value_or_undefined v | None \<Rightarrow> jayess_std_map_get_method s (Some (VObject a)) k)"
    using parallel.lookup_updates [OF inv assms(2,3)]
    by (simp add: map_get_method(1) [OF s'(2)] map_get_method(1) [OF assms(1)] s'(3,4) split: option.split)
  ultimately show ?thesis using s'(1) by blast
qed

text \<open>A new Map is well-formed and empty.\<close>

lemma map_object_set [simp]:
  "entries_at (object_set s a k v) b = (if b = a then snd (jayess_object_set_key_value (accounting s) (entries_at s a) (VString k) (Some v))
     else entries_at s b)"
  "arrays (object_set s a k v) = arrays s" "funcs (object_set s a k v) = funcs s"
  "next_address (object_set s a k v) = next_address s"
  by (simp_all add: object_set_def object_set_key_def entries_at_def case_prod_unfold Let_def)

lemma map_array_new [simp]:
  "fst (jayess_array_new s) = next_address s" "objects (snd (jayess_array_new s)) = objects s"
  "arrays (snd (jayess_array_new s)) = (arrays s)(next_address s \<mapsto> [])"
  "next_address (snd (jayess_array_new s)) = next_address s + 1" "funcs (snd (jayess_array_new s)) = funcs s"
  by (simp_all add: jayess_array_new_def)

lemma map_object_new [simp]:
  "fst (jayess_object_new s) = next_address s" "arrays (snd (jayess_object_new s)) = arrays s"
  "entries_at (snd (jayess_object_new s)) b = (if b = next_address s then [] else entries_at s b)"
  "next_address (snd (jayess_object_new s)) = next_address s + 1" "funcs (snd (jayess_object_new s)) = funcs s"
  by (simp_all add: jayess_object_new_def entries_at_def)

lemma entries_array_new [simp]: "entries_at (snd (jayess_array_new s)) b = entries_at s b"
  by (simp add: entries_at_def)

lemma map_new:
  fixes s :: jayess_state
  defines "s' \<equiv> snd (jayess_std_map_new s)" and "a \<equiv> next_address s"
  shows "good_map s' a (a + 1) (a + 2)" and "map_pairs s' (a + 1) (a + 2) = ([], [])" and "funcs s' = funcs s"
    and "fst (jayess_std_map_new s) = VObject a"
proof -
  have "jayess_object_get (entries_at s' a) ''__jayess_map_keys'' = Some (VArray (a + 1))"
    "jayess_object_get (entries_at s' a) ''__jayess_map_values'' = Some (VArray (a + 2))"
    by (simp_all add: s'_def a_def jayess_std_map_new_def case_prod_unfold Let_def set_key_value_entries jayess_object_get_def
        is_property_key_def new_entry_def jayess_object_entry_matches_string_def jayess_object_get_key_value_def)
  then have "map_arrays s' a (a + 1) (a + 2)"
    by (simp add: map_arrays_def jayess_std_array_slot_def object_get_def)
  moreover show empty: "map_pairs s' (a + 1) (a + 2) = ([], [])"
    by (simp add: map_pairs_def s'_def a_def jayess_std_map_new_def case_prod_unfold Let_def slots_at_def)
  ultimately show "good_map s' a (a + 1) (a + 2)"
    by (simp add: good_map_def pairs_inv_def keys_distinct_def)
qed (simp_all add: s'_def a_def jayess_std_map_new_def case_prod_unfold Let_def)

text \<open>
  The Map that the constructor makes is well-formed and empty: its two arrays are new and
  distinct, every \<open>get\<close> answers \<open>undefined\<close> and every \<open>has\<close> answers false.
\<close>

theorem map_new_good:
  "(let (v, s') = jayess_std_map_new s
    in v = VObject (next_address s) \<and> good_map s' (next_address s) (next_address s + 1) (next_address s + 2)
       \<and> jayess_std_map_get_method s' (Some v) k = VUndefined \<and> jayess_std_map_has_method s' (Some v) k = VBool False)"
  using map_get_method [OF map_new(1), of s k] map_new [of s]
  by (simp add: case_prod_unfold Let_def pairs_lookup_def del: add_2_eq_Suc')

definition example_map :: jayess_state where
  "example_map = snd (jayess_std_map_new initial_state)"

lemma initial_address: "next_address initial_state = 0" and initial_funcs: "funcs initial_state = (\<lambda>_. None)"
  by (simp_all add: initial_state_def)

lemma example_map_good: "good_map example_map 0 1 2" and example_map_pairs: "map_pairs example_map 1 2 = ([], [])"
  and example_map_funcs: "funcs example_map = (\<lambda>_. None)"
  using map_new(1-3) [of initial_state] unfolding initial_address initial_funcs add_0 example_map_def [symmetric]
  by blast+

lemma fine_keys: "key_fine fs (Some (VString t))" "key_fine fs (Some (VBool b))"
  by (simp_all add: key_fine_def key_same_def jayess_value_eq_def)

theorem map_sets_get_witness:
  "\<exists>s'. map_sets example_map 0 [(Some (VString ''a''), Some VNull), (Some (VBool True), None), (Some (VString ''a''), Some (VBool True))] = Some s'
    \<and> jayess_std_map_get_method s' (Some (VObject 0)) (Some (VString ''a'')) = VBool True
    \<and> slots_at s' 1 = [Some (VString ''a''), Some (VBool True)]"
proof -
  have "slots_at example_map 1 = []" using example_map_pairs by (simp add: map_pairs_def)
  then show ?thesis
    using map_sets_get [OF example_map_good, of "[(Some (VString ''a''), Some VNull), (Some (VBool True), None),
        (Some (VString ''a''), Some (VBool True))]" "Some (VString ''a'')"]
    by (simp add: fine_keys parallel.last_binding.simps parallel.insert_key_def key_same_def jayess_value_eq_def
        value_or_undefined_def)
qed

text \<open>
  C15. \<open>delete\<close> removes exactly the given key: it answers whether the Map had the key, afterwards the
  key is gone and every key that is not equal to it still finds its value, and the Map is well-formed
  again.
\<close>

theorem map_delete_get:
  assumes "good_map s a ks vs" and "key_fine (funcs s) k" and "key_fine (funcs s) j"
  shows "(let (r, s') = jayess_std_map_delete_method s (Some (VObject a)) k
    in r = jayess_std_map_has_method s (Some (VObject a)) k \<and> good_map s' a ks vs
       \<and> jayess_std_map_get_method s' (Some (VObject a)) j
         = (if key_same (funcs s) j k then VUndefined else jayess_std_map_get_method s (Some (VObject a)) j))"
proof -
  have inv: "pairs_inv (funcs s) (map_pairs s ks vs)" using assms(1) by (simp add: good_map_def)
  from map_delete_method [OF assms(1,2)] obtain s' where s': "jayess_std_map_delete_method s (Some (VObject a)) k
      = (VBool (pairs_lookup (funcs s) (map_pairs s ks vs) k \<noteq> None), s')"
    "map_pairs s' ks vs = pairs_delete (funcs s) (map_pairs s ks vs) k" "good_map s' a ks vs" "funcs s' = funcs s" by metis
  then show ?thesis
    using parallel.lookup_delete [OF inv assms(2,3)]
    by (simp add: map_get_method [OF s'(3)] map_get_method [OF assms(1)])
qed

theorem map_delete_get_witness:
  "(let (r, s') = jayess_std_map_delete_method example_map (Some (VObject 0)) (Some (VString ''a''))
    in r = jayess_std_map_has_method example_map (Some (VObject 0)) (Some (VString ''a'')) \<and> good_map s' 0 1 2
       \<and> jayess_std_map_get_method s' (Some (VObject 0)) (Some (VBool True))
         = jayess_std_map_get_method example_map (Some (VObject 0)) (Some (VBool True)))"
  using map_delete_get [OF example_map_good fine_keys(1) fine_keys(2), of "''a''" True]
  by (simp add: key_same_def jayess_value_eq_def case_prod_unfold Let_def)

text \<open>A key that is NaN is never found again: a second \<open>set\<close> adds a second entry.\<close>

lemma nan_key_not_fine: "dbl_isnan x \<Longrightarrow> \<not> key_fine fs (Some (VNumber x))"
  by (simp add: key_fine_def key_same_def jayess_value_eq_def dbl_eq_def)

section \<open>Sets\<close>

definition good_set :: "jayess_state \<Rightarrow> nat \<Rightarrow> nat \<Rightarrow> bool" where
  "good_set s a vs \<longleftrightarrow>
     jayess_std_array_slot s (Some (VObject a)) ''__jayess_set_values'' = Some vs \<and> keys_distinct (funcs s) (slots_at s vs)"

lemma set_index_of:
  "good_set s a vs \<Longrightarrow>
   jayess_std_set_index_of s (Some (VObject a)) v = index_loop (\<lambda>w. key_same (funcs s) w v) 0 (slots_at s vs)"
  by (simp add: jayess_std_set_index_of_def good_set_def value_eq_def key_same_def)

lemma set_has_method:
  "good_set s a vs \<Longrightarrow> jayess_std_set_has_method s (Some (VObject a)) v
   = VBool (\<exists>w \<in> set (slots_at s vs). key_same (funcs s) w v)"
  by (simp add: jayess_std_set_has_method_def set_index_of)
    (rule first_match [of "slots_at s vs" "\<lambda>w. key_same (funcs s) w v"]; auto)

text \<open>
  Set behaves as a set that remembers the order of insertion: \<open>add\<close> appends the value unless an
  equal one is there, \<open>delete\<close> removes the equal one and answers whether there was one, both leave
  the members pairwise different, and \<open>has\<close> answers membership up to equality in the new state.
\<close>

theorem set_add_delete:
  assumes good: "good_set s a vs" and v: "key_fine (funcs s) v"
  shows "(let (r, s') = jayess_std_set_add_method s (Some (VObject a)) v
     in r = VObject a \<and> good_set s' a vs
        \<and> slots_at s' vs = (if jayess_std_set_has_method s (Some (VObject a)) v = VBool True then slots_at s vs
                            else slots_at s vs @ [v])
        \<and> jayess_std_set_has_method s' (Some (VObject a)) v = VBool True)
   \<and> (let (r, s') = jayess_std_set_delete_method s (Some (VObject a)) v
     in r = jayess_std_set_has_method s (Some (VObject a)) v \<and> good_set s' a vs
        \<and> slots_at s' vs = filter (\<lambda>w. \<not> key_same (funcs s) w v) (slots_at s vs)
        \<and> jayess_std_set_has_method s' (Some (VObject a)) v = VBool False)"
proof -
  let ?xs = "slots_at s vs"
  let ?P = "\<lambda>w. key_same (funcs s) w v"
  have slot: "jayess_std_array_slot s (Some (VObject a)) ''__jayess_set_values'' = Some vs"
    and dist: "keys_distinct (funcs s) ?xs" using good by (auto simp: good_set_def)
  have add: "jayess_std_set_add_method s (Some (VObject a)) v
      = (VObject a, if index_loop ?P 0 ?xs < 0 then push_slot s vs v else s)"
    by (simp add: jayess_std_set_add_method_def slot set_index_of [OF good] value_or_undefined_def)
  have del: "jayess_std_set_delete_method s (Some (VObject a)) v
      = (if index_loop ?P 0 ?xs < 0 then (VBool False, s)
         else (VBool True, set_slots s vs (jayess_array_remove_at ?xs (index_loop ?P 0 ?xs))))"
    by (simp add: jayess_std_set_delete_method_def slot set_index_of [OF good] Let_def)
  have goodI: "good_set s' a vs" if "objects s' = objects s" "funcs s' = funcs s" "keys_distinct (funcs s) (slots_at s' vs)" for s'
    using that slot by (simp add: good_set_def array_slot_cong [OF that(1)])
  show ?thesis
  proof (cases ?P ?xs rule: first_match)
    case none
    have "keys_distinct (funcs s) (?xs @ [v])"
      using dist v none(1) by (simp add: keys_distinct_middle [where ws = "[]", simplified])
    then have g: "good_set (push_slot s vs v) a vs" by (intro goodI) simp_all
    have "filter (\<lambda>w. \<not> ?P w) ?xs = ?xs" using none(1) by (simp add: filter_id_conv)
    then show ?thesis
      using none v good by (auto simp: add del set_has_method [OF good] set_has_method [OF g] g key_fine_def)
  next
    case (found us w ws)
    have "\<forall>i \<in> set us \<union> set ws. \<not> key_same (funcs s) i w"
      using dist found(1) by (auto simp: keys_distinct_middle)
    then have other: "\<forall>i \<in> set us \<union> set ws. \<not> ?P i"
      using found(3) key_same_sym key_same_trans by blast
    then have filter: "filter (\<lambda>w. \<not> ?P w) ?xs = us @ ws" using found(1,3) by (auto simp: filter_id_conv)
    have rem: "jayess_array_remove_at ?xs (int (length us)) = us @ ws" by (simp add: found(1) remove_at_middle)
    have "keys_distinct (funcs s) (us @ ws)" using dist found(1) by (simp add: keys_distinct_middle)
    then have g: "good_set (set_slots s vs (us @ ws)) a vs" by (intro goodI) simp_all
    have mem: "\<exists>w \<in> set ?xs. ?P w" using found(1,3) by auto
    show ?thesis
      using other good mem
      by (simp add: add del found(4) rem filter set_has_method [OF good] set_has_method [OF g] g)
  qed
qed

definition example_set :: jayess_state where
  "example_set = snd (jayess_std_set_new initial_state)"

lemma example_set_good: "good_set example_set 0 1" and example_set_slots: "slots_at example_set 1 = []"
proof -
  have "jayess_object_get (entries_at example_set 0) ''__jayess_set_values'' = Some (VArray 1)"
    by (simp add: example_set_def initial_address jayess_std_set_new_def case_prod_unfold Let_def set_key_value_entries
        jayess_object_get_def is_property_key_def new_entry_def jayess_object_entry_matches_string_def
        jayess_object_get_key_value_def)
  moreover show "slots_at example_set 1 = []"
    by (simp add: example_set_def initial_address jayess_std_set_new_def case_prod_unfold Let_def slots_at_def)
  ultimately show "good_set example_set 0 1"
    by (simp add: good_set_def jayess_std_array_slot_def object_get_def keys_distinct_def)
qed

theorem set_add_delete_witness:
  "slots_at (snd (jayess_std_set_add_method example_set (Some (VObject 0)) (Some (VBool True)))) 1 = [Some (VBool True)]
   \<and> fst (jayess_std_set_delete_method example_set (Some (VObject 0)) (Some (VBool True))) = VBool False"
  using set_add_delete [OF example_set_good fine_keys(2), of True] set_has_method [OF example_set_good, of "Some (VBool True)"]
  by (simp add: case_prod_unfold Let_def example_set_slots del: One_nat_def)

end
