(* ===== verification/Value_Text.thy ===== *)
theory Value_Text
  imports State_Correct
begin

text \<open>
  The text of values: \<open>jayess_value_stringify\<close>, concatenation, template strings, printing
  (\<open>jayess_runtime_strings.c\<close>), and property keys and \<open>join\<close> of \<open>jayess_runtime.c\<close>. What is printed is
  the string that reaches the stream. \<open>d\<close> bounds the nesting; \<open>None\<close> is deeper nesting, so a value
  that is \<open>None\<close> for every bound makes the C code recurse without end. Names of functions are
  not NULL.
\<close>

section \<open>Joining texts\<close>

fun join :: "string \<Rightarrow> string list \<Rightarrow> string" where
  "join sep [] = []"
| "join sep [t] = t"
| "join sep (t # ts) = t @ sep @ join sep ts"

lemma join_Cons: "join sep (t # ts) = t @ (if ts = [] then [] else sep @ join sep ts)"
  by (cases ts) simp_all

fun those_map :: "('a \<Rightarrow> 'b option) \<Rightarrow> 'a list \<Rightarrow> 'b list option" where
  "those_map f [] = Some []"
| "those_map f (x # xs) =
     (case f x of None \<Rightarrow> None | Some y \<Rightarrow> (case those_map f xs of None \<Rightarrow> None | Some ys \<Rightarrow> Some (y # ys)))"

lemma those_map_cong [fundef_cong]:
  assumes "xs = ys" and "\<And>x. x \<in> set ys \<Longrightarrow> f x = g x"
  shows "those_map f xs = those_map g ys"
  unfolding assms(1) using assms(2) by (induction ys) (simp_all split: option.split)

lemma those_map_total: "(\<And>x. x \<in> set xs \<Longrightarrow> f x = Some (g x)) \<Longrightarrow> those_map f xs = Some (map g xs)"
  by (induction xs) auto

lemma those_map_None: "x \<in> set xs \<Longrightarrow> f x = None \<Longrightarrow> those_map f xs = None"
  by (induction xs) (auto split: option.splits)

section \<open>stringify\<close>

definition symbol_text :: "string option \<Rightarrow> string" where
  "symbol_text description = ''Symbol('' @ (case description of None \<Rightarrow> [] | Some t \<Rightarrow> t) @ '')''"

definition function_text :: "jayess_state \<Rightarrow> nat \<Rightarrow> string" where
  "function_text s f = (case funcs s f of None \<Rightarrow> ''[Function]'' | Some fn \<Rightarrow> ''[Function '' @ fn_name fn @ '']'')"

fun jayess_value_stringify :: "nat \<Rightarrow> jayess_state \<Rightarrow> jayess_value option \<Rightarrow> string option" where
  "jayess_value_stringify 0 s v = None"
| "jayess_value_stringify (Suc d) s v =
     (case v of
        None \<Rightarrow> Some ''null''
      | Some VNull \<Rightarrow> Some ''null''
      | Some VUndefined \<Rightarrow> Some ''undefined''
      | Some (VString t) \<Rightarrow> Some t
      | Some (VNumber x) \<Rightarrow> Some (jayess_number_to_string x)
      | Some (VBigint t) \<Rightarrow> Some t
      | Some (VBool b) \<Rightarrow> Some (if b then ''true'' else ''false'')
      | Some (VSymbol i t) \<Rightarrow> Some (symbol_text t)
      | Some (VFunction f) \<Rightarrow> Some (function_text s f)
      | Some (VObject a) \<Rightarrow> Some ''[object Object]''
      | Some (VArray a) \<Rightarrow>
          map_option (\<lambda>ts. ''['' @ join '', '' ts @ '']'') (those_map (jayess_value_stringify d s) (slots_at s a)))"

definition jayess_value_to_property_key :: "nat \<Rightarrow> jayess_state \<Rightarrow> jayess_value option \<Rightarrow> jayess_value option option" where
  "jayess_value_to_property_key d s key =
     (case key of
        None \<Rightarrow> Some None
      | Some (VSymbol i t) \<Rightarrow> Some key
      | _ \<Rightarrow> map_option (\<lambda>t. Some (VString t)) (jayess_value_stringify d s key))"

definition jayess_concat_values ::
  "nat \<Rightarrow> jayess_state \<Rightarrow> jayess_value option \<Rightarrow> jayess_value option \<Rightarrow> string option" where
  "jayess_concat_values d s left right =
     (case (jayess_value_stringify d s left, jayess_value_stringify d s right) of
        (Some l, Some r) \<Rightarrow> Some (l @ r) | _ \<Rightarrow> None)"

definition is_string :: "jayess_value option \<Rightarrow> bool" where
  "is_string v \<longleftrightarrow> (case v of Some (VString _) \<Rightarrow> True | _ \<Rightarrow> False)"

definition jayess_value_add ::
  "nat \<Rightarrow> jayess_state \<Rightarrow> jayess_value option \<Rightarrow> jayess_value option \<Rightarrow> jayess_value option" where
  "jayess_value_add d s left right =
     (if is_string left \<or> is_string right then map_option VString (jayess_concat_values d s left right)
      else Some (jayess_value_from_number (dbl_add (jayess_value_to_number left) (jayess_value_to_number right))))"

text \<open>The texts of the parts, each followed by the text of the value at the same position, if any.\<close>

fun template_texts :: "nat \<Rightarrow> jayess_state \<Rightarrow> jayess_slots \<Rightarrow> jayess_slots \<Rightarrow> string option" where
  "template_texts d s [] vs = Some []"
| "template_texts d s (p # ps) [] =
     (case (jayess_value_stringify d s p, template_texts d s ps []) of (Some t, Some r) \<Rightarrow> Some (t @ r) | _ \<Rightarrow> None)"
| "template_texts d s (p # ps) (v # vs) =
     (case (jayess_concat_values d s p v, template_texts d s ps vs) of (Some t, Some r) \<Rightarrow> Some (t @ r) | _ \<Rightarrow> None)"

definition jayess_template_string ::
  "nat \<Rightarrow> jayess_state \<Rightarrow> jayess_value option \<Rightarrow> jayess_value option \<Rightarrow> string option" where
  "jayess_template_string d s parts values = template_texts d s (tail_slots s parts) (tail_slots s values)"

definition jayess_value_array_join ::
  "nat \<Rightarrow> jayess_state \<Rightarrow> jayess_value option \<Rightarrow> jayess_value option \<Rightarrow> jayess_value option" where
  "jayess_value_array_join d s target separator =
     (let sep = (case separator of Some (VString t) \<Rightarrow> t | _ \<Rightarrow> '','')
      in case target of
           Some (VArray a) \<Rightarrow> map_option (\<lambda>ts. VString (join sep ts)) (those_map (jayess_value_stringify d s) (slots_at s a))
         | _ \<Rightarrow> Some (VString []))"

section \<open>Printing\<close>

fun jayess_print_value_inline :: "nat \<Rightarrow> jayess_state \<Rightarrow> jayess_value option \<Rightarrow> string option" where
  "jayess_print_value_inline 0 s v = None"
| "jayess_print_value_inline (Suc d) s v =
     (case v of
        None \<Rightarrow> Some ''null''
      | Some VNull \<Rightarrow> Some ''null''
      | Some (VString t) \<Rightarrow> Some t
      | Some (VNumber x) \<Rightarrow> Some (format_g x)
      | Some (VBigint t) \<Rightarrow> Some (t @ ''n'')
      | Some (VBool b) \<Rightarrow> Some (if b then ''true'' else ''false'')
      | Some (VSymbol i t) \<Rightarrow> Some (symbol_text t)
      | Some (VObject a) \<Rightarrow>
          map_option (\<lambda>ts. ''{'' @ join '', '' ts @ ''}'')
            (those_map (\<lambda>e.
               (case (case entry_key e of
                        Some t \<Rightarrow> Some t
                      | None \<Rightarrow> (case entry_key_value e of
                                   None \<Rightarrow> Some []
                                 | Some k \<Rightarrow> map_option (\<lambda>t. ''['' @ t @ '']'') (jayess_print_value_inline d s (Some k))),
                      jayess_print_value_inline d s (entry_value e)) of
                  (Some k, Some t) \<Rightarrow> Some (k @ '': '' @ t) | _ \<Rightarrow> None)) (entries_at s a))
      | Some (VArray a) \<Rightarrow>
          map_option (\<lambda>ts. ''['' @ join '', '' ts @ '']'') (those_map (jayess_print_value_inline d s) (slots_at s a))
      | Some VUndefined \<Rightarrow> Some ''undefined''
      | Some (VFunction f) \<Rightarrow> Some (function_text s f))"

definition jayess_print_value :: "nat \<Rightarrow> jayess_state \<Rightarrow> jayess_value option \<Rightarrow> string option" where
  "jayess_print_value d s v = map_option (\<lambda>t. t @ ''\<newline>'') (jayess_print_value_inline d s v)"

definition jayess_print_many :: "nat \<Rightarrow> jayess_state \<Rightarrow> jayess_value option \<Rightarrow> string option" where
  "jayess_print_many d s values =
     map_option (\<lambda>ts. join '' '' ts @ ''\<newline>'') (those_map (jayess_print_value_inline d s) (tail_slots s values))"

definition jayess_print_array :: "nat \<Rightarrow> jayess_state \<Rightarrow> nat \<Rightarrow> string option" where
  "jayess_print_array d s a =
     map_option (\<lambda>ts. ''['' @ join '', '' ts @ '']'' @ ''\<newline>'') (those_map (jayess_print_value_inline d s) (slots_at s a))"

definition jayess_console_write :: "nat \<Rightarrow> jayess_state \<Rightarrow> jayess_value option \<Rightarrow> string option" where
  "jayess_console_write d s values =
     map_option (\<lambda>ts. join '' '' ts @ ''\<newline>'') (those_map (jayess_value_stringify d s) (tail_slots s values))"

section \<open>Termination and divergence\<close>

lemmas stringify_Suc_simp = jayess_value_stringify.simps(2)

declare jayess_value_stringify.simps(2) [simp del]

lemma stringify_Suc: "jayess_value_stringify d s v = Some t \<Longrightarrow> jayess_value_stringify (Suc d) s v = Some t"
proof (induction d s v arbitrary: t rule: jayess_value_stringify.induct)
  case (2 d s v)
  have map: "those_map (jayess_value_stringify d s) vs = Some ts \<Longrightarrow> those_map (jayess_value_stringify (Suc d) s) vs = Some ts"
    if "\<And>w u. w \<in> set vs \<Longrightarrow> jayess_value_stringify d s w = Some u \<Longrightarrow> jayess_value_stringify (Suc d) s w = Some u" for vs ts
    using that by (induction vs arbitrary: ts) (auto split: option.splits)
  show ?case
  proof (cases "\<exists>a. v = Some (VArray a)")
    case True
    then obtain a where v: "v = Some (VArray a)" by blast
    from 2(2) obtain ts where ts: "those_map (jayess_value_stringify d s) (slots_at s a) = Some ts"
      "t = ''['' @ join '', '' ts @ '']''" by (auto simp: v stringify_Suc_simp)
    have "those_map (jayess_value_stringify (Suc d) s) (slots_at s a) = Some ts"
      by (rule map [OF _ ts(1)]) (use 2(1) v in auto)
    then show ?thesis using ts(2) by (subst stringify_Suc_simp) (simp add: v)
  next
    case False
    with 2(2) show ?thesis
      by (cases v) (auto simp: stringify_Suc_simp split: jayess_value.splits)
  qed
qed simp

lemma stringify_mono:
  assumes "jayess_value_stringify d s v = Some t" and "d \<le> d'"
  shows "jayess_value_stringify d' s v = Some t"
  using assms(2,1) by (induction rule: dec_induct) (auto intro: stringify_Suc)

text \<open>The arrays are well-founded: every array inside another has a smaller rank.\<close>

definition array_rank :: "(nat \<Rightarrow> nat) \<Rightarrow> jayess_state \<Rightarrow> bool" where
  "array_rank rank s \<longleftrightarrow> (\<forall>a b. Some (VArray b) \<in> set (slots_at s a) \<longrightarrow> rank b < rank a)"

lemma stringify_ranked:
  assumes "array_rank rank s"
  shows "(\<And>a. v = Some (VArray a) \<Longrightarrow> rank a < d) \<Longrightarrow> \<exists>t. jayess_value_stringify (Suc d) s v = Some t"
proof (induction d arbitrary: v)
  case 0
  then show ?case by (cases v) (auto simp: stringify_Suc_simp split: jayess_value.split)
next
  case (Suc d)
  show ?case
  proof (cases "\<exists>a. v = Some (VArray a)")
    case True
    then obtain a where v: "v = Some (VArray a)" by blast
    have "\<exists>t. jayess_value_stringify (Suc d) s w = Some t" if "w \<in> set (slots_at s a)" for w
    proof (rule Suc.IH)
      fix b assume "w = Some (VArray b)"
      with that assms have "rank b < rank a" by (auto simp: array_rank_def)
      with Suc.prems v show "rank b < d" by fastforce
    qed
    then have "those_map (jayess_value_stringify (Suc d) s) (slots_at s a)
        = Some (map (\<lambda>w. the (jayess_value_stringify (Suc d) s w)) (slots_at s a))"
      by (intro those_map_total) (metis option.sel)
    then show ?thesis by (subst stringify_Suc_simp) (simp add: v)
  next
    case False
    then show ?thesis by (cases v) (auto simp: stringify_Suc_simp split: jayess_value.split)
  qed
qed

text \<open>
  C16. The text of a value is computed, and does not depend on the bound: when arrays are nested
  without a cycle (every array inside another has a smaller rank), \<open>stringify\<close> returns for every
  bound above the rank of the value, always with the same text.
\<close>

theorem stringify_terminates:
  assumes "array_rank rank s" and "\<forall>a. v = Some (VArray a) \<longrightarrow> rank a < d" and "d < e"
  shows "\<exists>t. jayess_value_stringify (Suc d) s v = Some t \<and> jayess_value_stringify e s v = Some t"
proof -
  from stringify_ranked [OF assms(1), of v d] assms(2) obtain t where "jayess_value_stringify (Suc d) s v = Some t" by auto
  then show ?thesis using stringify_mono assms(3) by (metis Suc_leI)
qed

text \<open>An array holding an empty array and a number.\<close>

definition nested_arrays :: jayess_state where
  "nested_arrays = initial_state\<lparr>arrays := [0 \<mapsto> [Some (VArray 1), Some (VBool True)], 1 \<mapsto> []]\<rparr>"

theorem stringify_terminates_witness:
  "\<exists>t. jayess_value_stringify (Suc 2) nested_arrays (Some (VArray 0)) = Some t
    \<and> jayess_value_stringify 9 nested_arrays (Some (VArray 0)) = Some t"
  by (rule stringify_terminates [where rank = "\<lambda>a. 1 - a"])
    (auto simp: array_rank_def nested_arrays_def slots_at_def split: option.splits if_splits)

text \<open>On an array that contains itself \<open>stringify\<close> never returns, whatever the bound.\<close>

lemma stringify_cyclic:
  assumes "Some (VArray a) \<in> set (slots_at s a)"
  shows "jayess_value_stringify d s (Some (VArray a)) = None"
proof (induction d)
  case (Suc d)
  with those_map_None [OF assms, of "jayess_value_stringify d s"] show ?case by (simp add: stringify_Suc_simp)
qed simp

lemma template_diverges:
  "i < length ps \<Longrightarrow> i < length vs \<Longrightarrow> jayess_value_stringify d s (vs ! i) = None \<Longrightarrow> template_texts d s ps vs = None"
proof (induction d s ps vs arbitrary: i rule: template_texts.induct)
  case (3 d s p ps v vs)
  then show ?case by (cases i) (auto simp: jayess_concat_values_def split: option.split)
qed simp_all

text \<open>
  Adding two values of which one is a text concatenates their texts, in order; adding two
  integers whose sum is below \<open>2 ^ 53\<close> in size gives exactly the integer sum.
\<close>

theorem value_add:
  assumes "jayess_value_stringify d s v = Some t" and "\<bar>i\<bar> < 2 ^ 52" and "\<bar>j\<bar> < 2 ^ 52"
  shows "jayess_value_add d s (Some (VString l)) v = Some (VString (l @ t))
    \<and> jayess_value_add d s v (Some (VString l)) = Some (VString (t @ l))
    \<and> jayess_value_add d s (Some (VNumber (dbl_of_int i))) (Some (VNumber (dbl_of_int j)))
      = Some (jayess_value_from_number (dbl_of_int (i + j)))"
proof -
  have "jayess_value_stringify d s (Some (VString l)) = Some l"
    using assms(1) by (cases d) (simp_all add: stringify_Suc_simp)
  moreover have "\<bar>i + j\<bar> < 2 ^ 53" "\<bar>i\<bar> < 2 ^ 53" "\<bar>j\<bar> < 2 ^ 53" using assms(2,3) by simp_all
  ultimately show ?thesis
    using assms(1) by (simp add: jayess_value_add_def is_string_def jayess_concat_values_def
        dbl_add_of_int)
qed

theorem value_add_witness:
  "jayess_value_add 1 initial_state (Some (VString ''n = '')) (Some (VBool True)) = Some (VString ''n = true'')
   \<and> jayess_value_add 1 initial_state (Some (VNumber (dbl_of_int 40))) (Some (VNumber (dbl_of_int 2)))
     = Some (jayess_value_from_number (dbl_of_int 42))"
  using value_add [of 1 initial_state "Some (VBool True)" "''true''" 40 2 "''n = ''"]
  by (simp add: stringify_Suc_simp)

end
