(* ===== verification/Paths.thy ===== *)
theory Paths
  imports Value_Text
begin

text \<open>
  The path functions: the helpers of \<open>jayess_runtime_fs.c\<close> and the methods of the \<open>path\<close> module in
  \<open>jayess_runtime_network.c\<close>, on a POSIX system. The arrays of segments the functions work with are
  lists of texts here, they are never seen by the program; a write past an allocated buffer is a
  \<open>fault\<close>. The working directory is a parameter.
\<close>

section \<open>Separators and roots\<close>

definition jayess_path_is_separator :: "char \<Rightarrow> bool" where
  "jayess_path_is_separator ch \<longleftrightarrow> ch = CHR 0x5C \<or> ch = CHR ''/''"

text \<open>The index of the last separator.\<close>

fun last_separator_loop :: "nat \<Rightarrow> nat option \<Rightarrow> string \<Rightarrow> nat option" where
  "last_separator_loop i found [] = found"
| "last_separator_loop i found (c # s) =
     last_separator_loop (Suc i) (if jayess_path_is_separator c then Some i else found) s"

definition jayess_path_last_separator :: "string \<Rightarrow> nat option" where
  "jayess_path_last_separator s = last_separator_loop 0 None s"

definition jayess_path_is_absolute :: "string \<Rightarrow> bool" where
  "jayess_path_is_absolute s \<longleftrightarrow>
     (case s of [] \<Rightarrow> False | c # r \<Rightarrow> c = CHR 0x5C \<or> c = CHR ''/'' \<or> (c_isalpha c \<and> prefix '':'' r))"

definition jayess_path_separator_char :: char where
  "jayess_path_separator_char = CHR ''/''"

definition jayess_path_separator_string :: string where
  "jayess_path_separator_string = ''/''"

definition jayess_path_delimiter_string :: string where
  "jayess_path_delimiter_string = '':''"

definition jayess_path_root_length :: "string \<Rightarrow> nat" where
  "jayess_path_root_length s =
     (case s of
        [] \<Rightarrow> 0
      | c # r \<Rightarrow>
          if c_isalpha c \<and> prefix '':'' r
          then (case tl r of d # _ \<Rightarrow> if jayess_path_is_separator d then 3 else 2 | [] \<Rightarrow> 2)
          else if jayess_path_is_separator c then 1 else 0)"

definition jayess_path_preferred_separator_char :: "string \<Rightarrow> char" where
  "jayess_path_preferred_separator_char s =
     (if CHR 0x5C \<in> set s \<and> CHR ''/'' \<notin> set s then CHR 0x5C else jayess_path_separator_char)"

section \<open>Segments\<close>

text \<open>What one segment does to the segments before it.\<close>

definition push_segment :: "string list \<Rightarrow> string \<Rightarrow> string list" where
  "push_segment segments segment =
     (if segment = [] \<or> segment = ''.'' then segments
      else if segment = ''..'' then butlast segments
      else segments @ [segment])"

function segment_loop :: "string list \<Rightarrow> string \<Rightarrow> string list" where
  "segment_loop segments cursor =
     (if cursor = [] then segments
      else segment_loop (push_segment segments (takeWhile (Not \<circ> jayess_path_is_separator) cursor))
             (dropWhile jayess_path_is_separator (dropWhile (Not \<circ> jayess_path_is_separator) cursor)))"
  by auto

lemma skip_segment_shorter:
  assumes "cursor \<noteq> []"
  shows "length (dropWhile P (dropWhile (Not \<circ> P) cursor)) < length cursor"
proof -
  obtain c s where c: "cursor = c # s" using assms by (cases cursor) auto
  have "length (dropWhile P (dropWhile Q xs)) \<le> length xs" for Q and xs :: "'a list"
    by (meson le_trans length_dropWhile_le)
  then show ?thesis by (cases "P c") (auto simp: c less_Suc_eq_le length_dropWhile_le)
qed

termination segment_loop
  by (relation "measure (length \<circ> snd)") (auto simp: skip_segment_shorter)

declare segment_loop.simps [simp del]

definition jayess_path_split_segments :: "string \<Rightarrow> string list" where
  "jayess_path_split_segments s = segment_loop [] (drop (jayess_path_root_length s) s)"

text \<open>The size of the buffer the pieces are written to, and the text written.\<close>

fun pieces_size :: "bool \<Rightarrow> string list \<Rightarrow> nat" where
  "pieces_size sep [] = 0"
| "pieces_size sep (p # ps) = length p + (if sep \<and> p \<noteq> [] then 1 else 0) + pieces_size True ps"

fun append_pieces :: "char \<Rightarrow> string \<Rightarrow> string list \<Rightarrow> string" where
  "append_pieces sep out [] = out"
| "append_pieces sep out (p # ps) =
     (if p = [] then append_pieces sep out ps
      else append_pieces sep ((if out \<noteq> [] \<and> \<not> jayess_path_is_separator (last out) then out @ [sep] else out) @ p) ps)"

definition jayess_path_join_segments_with_root :: "string \<Rightarrow> string list \<Rightarrow> char \<Rightarrow> fault + string" where
  "jayess_path_join_segments_with_root root segments sep =
     (let total = 1 + length root + pieces_size (root \<noteq> []) segments;
          out = append_pieces sep root segments;
          out' = (if out = [] then ''.'' else out)
      in if length out' + 1 \<le> total then Inr out' else Inl Out_of_bounds)"

section \<open>The methods on texts\<close>

definition path_join_texts :: "string list \<Rightarrow> string" where
  "path_join_texts pieces =
     join [if \<exists>p \<in> set pieces. jayess_path_preferred_separator_char p = CHR 0x5C
           then CHR 0x5C else jayess_path_separator_char] pieces"

text \<open>The root with the separator of the path: a drive is followed by one.\<close>

definition normalized_root :: "string \<Rightarrow> char \<Rightarrow> string" where
  "normalized_root root sep =
     (if 2 \<le> length root \<and> c_isalpha (root ! 0) \<and> root ! 1 = CHR '':''
      then (if length root = 2 then root @ [sep] else butlast root @ [sep])
      else root)"

definition path_normalize_text :: "string \<Rightarrow> fault + string" where
  "path_normalize_text s =
     (let root_length = jayess_path_root_length s;
          sep = jayess_path_preferred_separator_char s;
          root = normalized_root (take root_length s) sep;
          segments = segment_loop [] (drop root_length s);
          joined = path_join_texts segments
      in if jayess_path_is_absolute s then jayess_path_join_segments_with_root root segments sep
         else Inr (if joined = [] then ''.'' else joined))"

text \<open>The index of the last absolute part.\<close>

fun resolve_start :: "string list \<Rightarrow> nat \<Rightarrow> nat option" where
  "resolve_start parts 0 = None"
| "resolve_start parts (Suc i) =
     (if parts ! i \<noteq> [] \<and> jayess_path_is_absolute (parts ! i) then Some i else resolve_start parts i)"

definition path_resolve_texts :: "string \<Rightarrow> string list \<Rightarrow> fault + string" where
  "path_resolve_texts cwd parts =
     (if parts = [] then Inr cwd
      else (let start = resolve_start parts (length parts);
                front = (if start = None then [cwd] else []);
                rest = filter (\<lambda>t. t \<noteq> []) (drop (case start of None \<Rightarrow> 0 | Some i \<Rightarrow> i) parts)
            in path_normalize_text (path_join_texts (front @ rest))))"

fun common_loop :: "string list \<Rightarrow> string list \<Rightarrow> nat" where
  "common_loop (x # xs) (y # ys) = (if x = y then Suc (common_loop xs ys) else 0)"
| "common_loop _ _ = 0"

definition path_relative_texts :: "string \<Rightarrow> string \<Rightarrow> string \<Rightarrow> fault + string" where
  "path_relative_texts cwd from_text to_text =
     (case (path_resolve_texts cwd [from_text], path_resolve_texts cwd [to_text]) of
        (Inr f, Inr t) \<Rightarrow>
          (let from_segments = jayess_path_split_segments f;
               to_segments = jayess_path_split_segments t;
               root_length = jayess_path_root_length f;
               common = common_loop from_segments to_segments
           in if root_length \<noteq> jayess_path_root_length t \<or> take root_length f \<noteq> take root_length t then Inr t
              else jayess_path_join_segments_with_root []
                     (replicate (length from_segments - common) ''..'' @ drop common to_segments)
                     (jayess_path_preferred_separator_char t))
      | (Inl e, _) \<Rightarrow> Inl e
      | (_, Inl e) \<Rightarrow> Inl e)"

definition path_basename_text :: "string \<Rightarrow> string" where
  "path_basename_text s = (case jayess_path_last_separator s of None \<Rightarrow> s | Some i \<Rightarrow> drop (Suc i) s)"

definition path_dirname_text :: "string \<Rightarrow> string" where
  "path_dirname_text s =
     (if s = [] then ''.''
      else (case jayess_path_last_separator s of
              None \<Rightarrow> ''.'' | Some i \<Rightarrow> if i = 0 then take 1 s else take i s))"

text \<open>\<open>strrchr\<close>: the index of the last occurrence.\<close>

fun strrchr_loop :: "char \<Rightarrow> nat \<Rightarrow> nat option \<Rightarrow> string \<Rightarrow> nat option" where
  "strrchr_loop c i found [] = found"
| "strrchr_loop c i found (d # s) = strrchr_loop c (Suc i) (if d = c then Some i else found) s"

definition path_extname_text :: "string \<Rightarrow> string" where
  "path_extname_text s =
     (case strrchr_loop (CHR ''.'') 0 None s of
        None \<Rightarrow> []
      | Some dot \<Rightarrow> (case jayess_path_last_separator s of
                       Some i \<Rightarrow> if dot < i + 1 then [] else drop dot s
                     | None \<Rightarrow> drop dot s))"

definition path_name_text :: "string \<Rightarrow> string" where
  "path_name_text s =
     (let base = path_basename_text s; ext = path_extname_text s
      in if ext \<noteq> [] \<and> length ext \<le> length base then take (length base - length ext) base else base)"

definition path_format_texts :: "string \<Rightarrow> string \<Rightarrow> string \<Rightarrow> string \<Rightarrow> string \<Rightarrow> string" where
  "path_format_texts dir root base name ext =
     (let sep = (if dir \<noteq> [] then jayess_path_preferred_separator_char dir
                 else if root \<noteq> [] then jayess_path_preferred_separator_char root
                 else jayess_path_separator_char);
          base' = (if base = [] then name @ ext else base)
      in (if dir \<noteq> []
          then dir @ (if \<not> jayess_path_is_separator (last dir) \<and> base' \<noteq> [] then [sep] else [])
          else root) @ base')"

section \<open>The methods on values\<close>

text \<open>Every argument is converted to text first; \<open>d\<close> bounds the depth of that conversion.\<close>

definition jayess_std_path_join :: "nat \<Rightarrow> jayess_state \<Rightarrow> jayess_value option \<Rightarrow> string option" where
  "jayess_std_path_join d s parts =
     (case parts of
        Some (VArray a) \<Rightarrow> map_option path_join_texts (those_map (jayess_value_stringify d s) (slots_at s a))
      | _ \<Rightarrow> Some [])"

definition jayess_std_path_normalize :: "nat \<Rightarrow> jayess_state \<Rightarrow> jayess_value option \<Rightarrow> (fault + string) option" where
  "jayess_std_path_normalize d s path = map_option path_normalize_text (jayess_value_stringify d s path)"

definition jayess_std_path_resolve ::
  "string \<Rightarrow> nat \<Rightarrow> jayess_state \<Rightarrow> jayess_value option \<Rightarrow> (fault + string) option" where
  "jayess_std_path_resolve cwd d s parts =
     (case parts of
        Some (VArray a) \<Rightarrow> map_option (path_resolve_texts cwd) (those_map (jayess_value_stringify d s) (slots_at s a))
      | _ \<Rightarrow> Some (Inr cwd))"

definition jayess_std_path_relative ::
  "string \<Rightarrow> nat \<Rightarrow> jayess_state \<Rightarrow> jayess_value option \<Rightarrow> jayess_value option \<Rightarrow> (fault + string) option" where
  "jayess_std_path_relative cwd d s from_value to_value =
     (case (jayess_value_stringify d s from_value, jayess_value_stringify d s to_value) of
        (Some f, Some t) \<Rightarrow> Some (path_relative_texts cwd f t)
      | _ \<Rightarrow> None)"

definition jayess_std_path_parse ::
  "nat \<Rightarrow> jayess_state \<Rightarrow> jayess_value option \<Rightarrow> (jayess_value \<times> jayess_state) option" where
  "jayess_std_path_parse d s path =
     map_option (\<lambda>t.
       (let (a, s1) = jayess_object_new s;
            s2 = object_set s1 a ''root'' (VString (take (jayess_path_root_length t) t));
            s3 = object_set s2 a ''dir'' (VString (path_dirname_text t));
            s4 = object_set s3 a ''base'' (VString (path_basename_text t));
            s5 = object_set s4 a ''ext'' (VString (path_extname_text t))
        in (VObject a, object_set s5 a ''name'' (VString (path_name_text t)))))
     (jayess_value_stringify d s path)"

definition jayess_std_path_is_absolute :: "nat \<Rightarrow> jayess_state \<Rightarrow> jayess_value option \<Rightarrow> bool option" where
  "jayess_std_path_is_absolute d s path = map_option jayess_path_is_absolute (jayess_value_stringify d s path)"

definition jayess_std_path_format :: "nat \<Rightarrow> jayess_state \<Rightarrow> jayess_value option \<Rightarrow> string option" where
  "jayess_std_path_format d s parts =
     (case parts of
        Some (VObject a) \<Rightarrow>
          (case those_map (\<lambda>k. jayess_value_stringify d s (object_get s a k)) [''dir'', ''root'', ''base'', ''name'', ''ext''] of
             Some [dir, root, base, name, ext] \<Rightarrow> Some (path_format_texts dir root base name ext)
           | _ \<Rightarrow> None)
      | _ \<Rightarrow> Some [])"

definition jayess_std_path_basename :: "nat \<Rightarrow> jayess_state \<Rightarrow> jayess_value option \<Rightarrow> string option" where
  "jayess_std_path_basename d s path = map_option path_basename_text (jayess_value_stringify d s path)"

definition jayess_std_path_dirname :: "nat \<Rightarrow> jayess_state \<Rightarrow> jayess_value option \<Rightarrow> string option" where
  "jayess_std_path_dirname d s path = map_option path_dirname_text (jayess_value_stringify d s path)"

definition jayess_std_path_extname :: "nat \<Rightarrow> jayess_state \<Rightarrow> jayess_value option \<Rightarrow> string option" where
  "jayess_std_path_extname d s path = map_option path_extname_text (jayess_value_stringify d s path)"

end
