(* ===== verification/Path_Correct.thy ===== *)
theory Path_Correct
  imports Paths
begin

text \<open>
  Paths: the size of the joined text, normal forms and idempotence of \<open>normalize\<close>, and the pieces of
  a path.
\<close>

section \<open>The buffer of a joined path\<close>

lemma append_pieces_nonempty: "out \<noteq> [] \<Longrightarrow> append_pieces sep out ps \<noteq> []"
  by (induction ps arbitrary: out) auto

lemma append_pieces_Nil_iff: "append_pieces sep out ps = [] \<longleftrightarrow> out = [] \<and> (\<forall>p \<in> set ps. p = [])"
  by (induction ps arbitrary: out) auto

lemma append_pieces_length: "length (append_pieces sep out ps) \<le> length out + pieces_size (out \<noteq> []) ps"
proof (induction ps arbitrary: out)
  case (Cons p ps)
  have mono: "pieces_size b ps \<le> pieces_size True ps" for b by (cases ps) auto
  show ?case
  proof (cases "p = []")
    case True
    then show ?thesis using Cons.IH [of out] mono [of "out \<noteq> []"] by simp
  next
    case False
    define o1 where "o1 = (if out \<noteq> [] \<and> \<not> jayess_path_is_separator (last out) then out @ [sep] else out)"
    have "o1 @ p \<noteq> []" using False by simp
    then have "length (append_pieces sep (o1 @ p) ps) \<le> length (o1 @ p) + pieces_size True ps"
      using Cons.IH [of "o1 @ p"] by simp
    moreover have "length o1 \<le> length out + (if out \<noteq> [] then 1 else 0)" by (simp add: o1_def)
    moreover have "append_pieces sep out (p # ps) = append_pieces sep (o1 @ p) ps" using False by (simp add: o1_def)
    ultimately show ?thesis using False by (simp split: if_splits)
  qed
qed simp

lemma join_segments_eq:
  "jayess_path_join_segments_with_root root segments sep =
     (if root = [] \<and> concat segments = [] then Inl Out_of_bounds else Inr (append_pieces sep root segments))"
proof (cases "root = [] \<and> (\<forall>p \<in> set segments. p = [])")
  case True
  then have "pieces_size b segments = 0" for b by (induction segments arbitrary: b) auto
  with True show ?thesis by (simp add: jayess_path_join_segments_with_root_def append_pieces_Nil_iff)
next
  case False
  then have "append_pieces sep root segments \<noteq> []" by (simp add: append_pieces_Nil_iff)
  then show ?thesis using append_pieces_length [of sep root segments] False
    by (auto simp: jayess_path_join_segments_with_root_def)
qed

text \<open>
  C19. The buffer for a joined path is always large enough, but for one case: without a root and with
  no non-empty piece the code writes the two bytes of \<open>"."\<close> into a buffer of one byte.
\<close>

theorem join_segments_bounds:
  "jayess_path_join_segments_with_root root segments sep =
     (if root = [] \<and> concat segments = [] then Inl Out_of_bounds else Inr (append_pieces sep root segments))"
  by (rule join_segments_eq)

section \<open>Normal forms\<close>

definition clean_segment :: "string \<Rightarrow> bool" where
  "clean_segment p \<longleftrightarrow> p \<noteq> [] \<and> p \<noteq> ''.'' \<and> p \<noteq> ''..'' \<and> list_all (\<lambda>c. \<not> jayess_path_is_separator c) p"

lemma clean_push:
  assumes "list_all clean_segment segs" and "list_all (\<lambda>c. \<not> jayess_path_is_separator c) p"
  shows "list_all clean_segment (push_segment segs p)"
  using assms by (auto simp: push_segment_def clean_segment_def list_all_iff dest: in_set_butlastD)

lemma clean_segment_loop: "list_all clean_segment segs \<Longrightarrow> list_all clean_segment (segment_loop segs cursor)"
proof (induction segs cursor rule: segment_loop.induct)
  case (1 segs cursor)
  have "list_all (\<lambda>c. \<not> jayess_path_is_separator c) (takeWhile (Not \<circ> jayess_path_is_separator) cursor)"
    by (auto simp: list_all_iff dest: set_takeWhileD)
  with 1 clean_push [OF 1(2)] show ?case by (subst segment_loop.simps) auto
qed

text \<open>The segments of a text put together from clean ones.\<close>

lemma takeWhile_clean:
  assumes "list_all (\<lambda>c. \<not> P c) p" and "s = [] \<or> P (hd s)"
  shows "takeWhile (Not \<circ> P) (p @ s) = p" and "dropWhile (Not \<circ> P) (p @ s) = s"
  using assms by (induction p) (cases s; auto)+

lemma segment_loop_join:
  assumes "jayess_path_is_separator sep" and "list_all clean_segment ps"
  shows "segment_loop acc (join [sep] ps) = acc @ ps"
  using assms(2)
proof (induction ps arbitrary: acc)
  case Nil
  show ?case by (simp add: segment_loop.simps)
next
  case (Cons p ps)
  then have p: "clean_segment p" and ps: "list_all clean_segment ps" by simp_all
  define rest where "rest = (if ps = [] then [] else sep # join [sep] ps)"
  have src: "join [sep] (p # ps) = p @ rest" by (cases ps) (simp_all add: rest_def)
  have "rest = [] \<or> jayess_path_is_separator (hd rest)" using assms(1) by (simp add: rest_def)
  moreover have "list_all (\<lambda>c. \<not> jayess_path_is_separator c) p" using p by (simp add: clean_segment_def)
  ultimately have tw: "takeWhile (Not \<circ> jayess_path_is_separator) (p @ rest) = p"
    "dropWhile (Not \<circ> jayess_path_is_separator) (p @ rest) = rest"
    by (simp_all add: takeWhile_clean [where P = jayess_path_is_separator])
  have drop: "dropWhile jayess_path_is_separator rest = join [sep] ps"
  proof (cases ps)
    case (Cons q qs)
    with ps have "q \<noteq> []" "\<not> jayess_path_is_separator (hd q)" by (auto simp: clean_segment_def list_all_iff)
    then have "join [sep] ps \<noteq> []" "\<not> jayess_path_is_separator (hd (join [sep] ps))" by (cases qs; simp add: Cons)+
    then show ?thesis using assms(1) Cons by (cases "join [sep] ps") (simp_all add: rest_def)
  qed (simp add: rest_def)
  have "push_segment acc p = acc @ [p]" using p by (auto simp: push_segment_def clean_segment_def)
  moreover have "p \<noteq> []" using p by (simp add: clean_segment_def)
  ultimately have "segment_loop acc (p @ rest) = segment_loop (acc @ [p]) (join [sep] ps)"
    by (subst segment_loop.simps) (simp add: tw drop)
  with Cons.IH [OF ps, of "acc @ [p]"] show ?case by (simp add: src)
qed

text \<open>Pieces appended behind a separator, or to nothing.\<close>

lemma append_pieces_clean:
  assumes "list_all clean_segment ps" and "out \<noteq> []" and "\<not> jayess_path_is_separator (last out)"
  shows "append_pieces sep out ps = out @ concat (map (\<lambda>p. sep # p) ps)"
  using assms
proof (induction ps arbitrary: out)
  case (Cons p ps)
  then have "p \<noteq> []" "\<not> jayess_path_is_separator (last p)" by (auto simp: clean_segment_def list_all_iff)
  with Cons.IH [of "out @ [sep] @ p"] Cons.prems show ?case by simp
qed simp

lemma join_concat: "ps \<noteq> [] \<Longrightarrow> join [sep] ps = hd ps @ concat (map (\<lambda>p. sep # p) (tl ps))"
proof (induction ps)
  case (Cons p ps)
  then show ?case by (cases ps) simp_all
qed simp

lemma append_pieces_root:
  assumes "list_all clean_segment ps" and "out = [] \<or> jayess_path_is_separator (last out)"
  shows "append_pieces sep out ps = out @ join [sep] ps"
proof (cases ps)
  case (Cons p qs)
  with assms have p: "p \<noteq> []" "\<not> jayess_path_is_separator (last p)" by (auto simp: clean_segment_def list_all_iff)
  then have "append_pieces sep out ps = append_pieces sep (out @ p) qs" using assms(2) by (auto simp: Cons)
  also have "\<dots> = out @ p @ concat (map (\<lambda>p. sep # p) qs)"
    using append_pieces_clean [of qs "out @ p" sep] assms(1) Cons p by simp
  finally show ?thesis by (simp add: Cons join_concat)
qed simp


section \<open>Normalizing twice\<close>

lemma segment_loop_chars:
  "q \<in> set (segment_loop segs cursor) \<Longrightarrow> x \<in> set q \<Longrightarrow> x \<in> set cursor \<or> (\<exists>p \<in> set segs. x \<in> set p)"
proof (induction segs cursor rule: segment_loop.induct)
  case (1 segs cursor)
  define p where "p = takeWhile (Not \<circ> jayess_path_is_separator) cursor"
  define r where "r = dropWhile jayess_path_is_separator (dropWhile (Not \<circ> jayess_path_is_separator) cursor)"
  show ?case
  proof (cases "cursor = []")
    case True
    then show ?thesis using 1(2,3) by (auto simp: segment_loop.simps)
  next
    case False
    have "segment_loop segs cursor = segment_loop (push_segment segs p) r"
      using False unfolding p_def r_def by (subst segment_loop.simps) simp
    then have "x \<in> set r \<or> (\<exists>p \<in> set (push_segment segs p). x \<in> set p)"
      using 1(1) [OF False] 1(2,3) unfolding p_def r_def by metis
    moreover have "x \<in> set r \<Longrightarrow> x \<in> set cursor" "x \<in> set p \<Longrightarrow> x \<in> set cursor"
      unfolding p_def r_def by (meson set_takeWhileD set_dropWhileD)+
    moreover have "q' \<in> set (push_segment segs p) \<Longrightarrow> q' \<in> set segs \<or> q' = p" for q'
      by (auto simp: push_segment_def dest: in_set_butlastD split: if_splits)
    ultimately show ?thesis by blast
  qed
qed

lemma separators_not_alpha: "jayess_path_is_separator c \<Longrightarrow> \<not> c_isalpha c"
  by (auto simp: jayess_path_is_separator_def c_class_defs)

lemma preferred_cases: "jayess_path_preferred_separator_char s \<in> {CHR 0x5C, CHR ''/''}"
  by (simp add: jayess_path_preferred_separator_char_def jayess_path_separator_char_def)

lemma preferred_is_separator [simp]: "jayess_path_is_separator (jayess_path_preferred_separator_char s)"
  using preferred_cases [of s] by (auto simp: jayess_path_is_separator_def)

text \<open>An absolute path is a root of one to three characters before its segments.\<close>

lemma absolute_root:
  assumes "jayess_path_is_absolute s"
  defines "sep \<equiv> jayess_path_preferred_separator_char s"
    and "root \<equiv> normalized_root (take (jayess_path_root_length s) s) (jayess_path_preferred_separator_char s)"
  obtains c where "root = [c]" and "jayess_path_is_separator c" and "c \<in> set s"
  | c where "root = [c, CHR '':'', sep]" and "c_isalpha c"
proof -
  from assms(1) obtain c r where s: "s = c # r" by (cases s) (auto simp: jayess_path_is_absolute_def)
  consider (drive) "c_isalpha c" "prefix '':'' r" | (sep) "jayess_path_is_separator c" "\<not> (c_isalpha c \<and> prefix '':'' r)"
    using assms(1) by (auto simp: s jayess_path_is_absolute_def jayess_path_is_separator_def)
  then show ?thesis
  proof cases
    case drive
    then obtain r' where r: "r = CHR '':'' # r'" by (cases r) auto
    have "root = [c, CHR '':'', sep]"
      using drive by (cases r') (simp_all add: root_def sep_def s r jayess_path_root_length_def normalized_root_def)
    with drive that(2) show ?thesis by blast
  next
    case sep
    have "root = [c]" using sep separators_not_alpha [of c] by (simp add: root_def s jayess_path_root_length_def normalized_root_def)
    with sep that(1) s show ?thesis by simp
  qed
qed

lemma root_facts:
  assumes "jayess_path_is_separator d" and "t = root @ w"
    and "(\<exists>c. root = [c] \<and> jayess_path_is_separator c) \<or> (\<exists>c. root = [c, CHR '':'', d] \<and> c_isalpha c)"
  shows "jayess_path_is_absolute t" and "jayess_path_root_length t = length root"
proof -
  consider c where "root = [c]" "jayess_path_is_separator c" "\<not> c_isalpha c"
    | c where "root = [c, CHR '':'', d]" "c_isalpha c"
    using assms(3) separators_not_alpha by blast
  then have "jayess_path_is_absolute t \<and> jayess_path_root_length t = length root"
  proof cases
    case (1 c)
    then show ?thesis using assms(2)
      by (simp add: jayess_path_is_absolute_def jayess_path_root_length_def) (simp add: jayess_path_is_separator_def)
  next
    case (2 c)
    then show ?thesis using assms(1,2) by (simp add: jayess_path_is_absolute_def jayess_path_root_length_def)
  qed
  then show "jayess_path_is_absolute t" and "jayess_path_root_length t = length root" by simp_all
qed

lemma preferred_same:
  assumes "jayess_path_preferred_separator_char s = sep" and "sep \<in> set t"
    and "\<And>c. c \<in> set t \<Longrightarrow> jayess_path_is_separator c \<Longrightarrow> c = sep \<or> c \<in> set s"
  shows "jayess_path_preferred_separator_char t = sep"
  using assms(1,2) assms(3) [of "CHR ''/''"]
  by (auto simp: jayess_path_preferred_separator_char_def jayess_path_separator_char_def jayess_path_is_separator_def
      split: if_splits)

lemma join_chars: "c \<in> set (join [sep] ps) \<Longrightarrow> c = sep \<or> (\<exists>p \<in> set ps. c \<in> set p)"
proof (induction ps)
  case (Cons p ps)
  then show ?case by (cases ps) auto
qed simp

lemma join_short: "length ps \<le> 1 \<Longrightarrow> join sep ps = join sep' ps"
  by (cases ps; cases "tl ps") auto

lemma join_long: "1 < length ps \<Longrightarrow> sep \<in> set (join [sep] ps)"
  by (cases ps; cases "tl ps") auto

text \<open>The normal form of an absolute path.\<close>

lemma normalize_absolute:
  assumes "jayess_path_is_absolute s"
  defines "sep \<equiv> jayess_path_preferred_separator_char s"
    and "root \<equiv> normalized_root (take (jayess_path_root_length s) s) (jayess_path_preferred_separator_char s)"
    and "segs \<equiv> segment_loop [] (drop (jayess_path_root_length s) s)"
  shows "path_normalize_text s = Inr (root @ join [sep] segs)" and "list_all clean_segment segs"
proof -
  show clean: "list_all clean_segment segs" unfolding segs_def by (rule clean_segment_loop) simp
  have "root \<noteq> []" "jayess_path_is_separator (last root)"
    using absolute_root [OF assms(1)] unfolding root_def sep_def by (metis last.simps list.distinct(1) preferred_is_separator)+
  moreover have "path_normalize_text s = jayess_path_join_segments_with_root root segs sep"
    using assms(1) by (simp add: path_normalize_text_def Let_def root_def sep_def segs_def)
  ultimately show "path_normalize_text s = Inr (root @ join [sep] segs)"
    using append_pieces_root [OF clean, of root sep] by (simp add: join_segments_eq)
qed

lemma normalize_absolute_again:
  assumes "jayess_path_is_absolute s" and "path_normalize_text s = Inr t"
  shows "jayess_path_is_absolute t" and "path_normalize_text t = Inr t"
proof -
  define sep where "sep = jayess_path_preferred_separator_char s"
  define root where "root = normalized_root (take (jayess_path_root_length s) s) sep"
  define segs where "segs = segment_loop [] (drop (jayess_path_root_length s) s)"
  note norm = normalize_absolute [OF assms(1), folded sep_def, folded root_def segs_def]
  have t: "t = root @ join [sep] segs" using norm(1) assms(2) by simp
  have sep: "jayess_path_is_separator sep" by (simp add: sep_def)
  have root: "(\<exists>c. root = [c] \<and> jayess_path_is_separator c \<and> c \<in> set s) \<or> (\<exists>c. root = [c, CHR '':'', sep] \<and> c_isalpha c)"
    using absolute_root [OF assms(1)] unfolding root_def sep_def by metis
  then have root': "(\<exists>c. root = [c] \<and> jayess_path_is_separator c) \<or> (\<exists>c. root = [c, CHR '':'', sep] \<and> c_isalpha c)" by blast
  note t_root = root_facts [OF sep t root']
  show abs_t: "jayess_path_is_absolute t" by (rule t_root(1))
  define sep' where "sep' = jayess_path_preferred_separator_char t"
  have chars: "c = sep \<or> c \<in> set s" if "c \<in> set t" and "jayess_path_is_separator c" for c
  proof -
    have "c \<notin> set p" if "p \<in> set segs" for p
      using norm(2) that \<open>jayess_path_is_separator c\<close> by (auto simp: list_all_iff clean_segment_def)
    then have "c \<in> set (join [sep] segs) \<Longrightarrow> c = sep" using join_chars by blast
    moreover have "c = sep \<or> c \<in> set s" if "c \<in> set root"
    proof -
      have "c \<noteq> CHR '':''" "\<not> c_isalpha c"
        using \<open>jayess_path_is_separator c\<close> separators_not_alpha by (auto simp: jayess_path_is_separator_def)
      then show ?thesis using root that by force
    qed
    moreover have "c \<in> set root \<or> c \<in> set (join [sep] segs)" using that(1) by (simp add: t)
    ultimately show ?thesis by blast
  qed
  have same: "sep' = sep" if "sep \<in> set t"
    unfolding sep'_def using preferred_same [OF sep_def [symmetric] that] chars by blast
  have "join [sep'] segs = join [sep] segs"
  proof (cases "1 < length segs")
    case True
    then have "sep \<in> set t" using join_long by (simp add: t)
    then show ?thesis using same by simp
  qed (simp add: join_short [of segs "[sep']" "[sep]"])
  moreover have "normalized_root root sep' = root"
  proof -
    consider c where "root = [c]" | c where "root = [c, CHR '':'', sep]" "c_isalpha c" using root by blast
    then show ?thesis
    proof cases
      case (2 c)
      then have "sep' = sep" by (intro same) (simp add: t)
      with 2 show ?thesis by (simp add: normalized_root_def)
    qed (simp add: normalized_root_def)
  qed
  moreover have "take (jayess_path_root_length t) t = root" "drop (jayess_path_root_length t) t = join [sep] segs"
    by (simp_all add: t_root(2)) (simp_all add: t)
  moreover have "segment_loop [] (join [sep] segs) = segs" using segment_loop_join [OF sep norm(2), of "[]"] by simp
  ultimately show "path_normalize_text t = Inr t"
    using normalize_absolute(1) [OF abs_t, folded sep'_def] by (simp add: t)
qed

text \<open>A relative path.\<close>

lemma clean_join:
  assumes "list_all clean_segment segs"
  shows "path_join_texts segs = join ''/'' segs" and "join ''/'' segs = [] \<longleftrightarrow> segs = []"
proof -
  have "jayess_path_preferred_separator_char p \<noteq> CHR 0x5C" if "p \<in> set segs" for p
    using assms that by (auto simp: list_all_iff clean_segment_def jayess_path_preferred_separator_char_def
        jayess_path_separator_char_def jayess_path_is_separator_def)
  then show "path_join_texts segs = join ''/'' segs" by (auto simp: path_join_texts_def jayess_path_separator_char_def)
  show "join ''/'' segs = [] \<longleftrightarrow> segs = []"
    using assms by (cases segs; cases "tl segs") (auto simp: clean_segment_def)
qed

lemma no_root:
  assumes "s = [] \<or> \<not> jayess_path_is_separator (hd s)" and "CHR '':'' \<notin> set s"
  shows "\<not> jayess_path_is_absolute s" and "jayess_path_root_length s = 0"
  using assms by (cases s; cases "tl s"; auto simp: jayess_path_is_absolute_def jayess_path_root_length_def jayess_path_is_separator_def)+

lemma normalize_relative_again:
  assumes "\<not> jayess_path_is_absolute s" and "CHR '':'' \<notin> set s" and "path_normalize_text s = Inr t"
  shows "path_normalize_text t = Inr t"
proof -
  define segs where "segs = segment_loop [] s"
  have clean: "list_all clean_segment segs" unfolding segs_def by (rule clean_segment_loop) simp
  have "s = [] \<or> \<not> jayess_path_is_separator (hd s)"
    using assms(1) by (cases s) (auto simp: jayess_path_is_absolute_def jayess_path_is_separator_def)
  note root = no_root [OF this assms(2)]
  have t: "t = (if segs = [] then ''.'' else join ''/'' segs)"
    using assms(3) root clean_join [OF clean] by (simp add: path_normalize_text_def segs_def split: if_splits)
  show ?thesis
  proof (cases "segs = []")
    case True
    have "path_normalize_text ''.'' = Inr ''.''" by code_simp
    with True show ?thesis by (simp add: t)
  next
    case False
    then obtain p ps where segs: "segs = p # ps" by (cases segs) auto
    have "hd t = hd p" using clean by (cases ps) (auto simp: t segs clean_segment_def)
    then have "\<not> jayess_path_is_separator (hd t)" using clean by (auto simp: segs clean_segment_def list_all_iff)
    moreover have "CHR '':'' \<notin> set t"
      using join_chars [of "CHR '':''" "CHR ''/''" segs] segment_loop_chars [where segs = "[]" and cursor = s] assms(2) False
      by (auto simp: t segs_def)
    ultimately have t_root: "\<not> jayess_path_is_absolute t" "jayess_path_root_length t = 0" using no_root by blast+
    have "segment_loop [] t = segs"
      using segment_loop_join [of "CHR ''/''" segs "[]"] clean False by (simp add: t jayess_path_is_separator_def)
    then show ?thesis using t_root clean_join [OF clean] False by (simp add: path_normalize_text_def t)
  qed
qed

text \<open>
  C18. Normalizing succeeds and is idempotent: the normal form of an absolute path, or of a path without
  a colon, is its own normal form. (It fails for \<open>./C:\<close>, whose normal form \<open>C:\<close> is a drive and has the
  normal form \<open>C:/\<close>.)
\<close>

theorem normalize_idempotent:
  assumes "jayess_path_is_absolute s \<or> CHR '':'' \<notin> set s"
  shows "\<exists>t. path_normalize_text s = Inr t \<and> path_normalize_text t = Inr t"
proof -
  have "\<exists>t. path_normalize_text s = Inr t"
  proof (cases "jayess_path_is_absolute s")
    case True
    then show ?thesis using normalize_absolute(1) by blast
  qed (simp add: path_normalize_text_def Let_def)
  then show ?thesis using assms normalize_absolute_again(2) normalize_relative_again by blast
qed

theorem normalize_idempotent_witness:
  "path_normalize_text ''/usr//lib/../bin/.'' = Inr ''/usr/bin'' \<and> path_normalize_text ''/usr/bin'' = Inr ''/usr/bin''"
proof -
  have "path_normalize_text ''/usr//lib/../bin/.'' = Inr ''/usr/bin''" by code_simp
  then show ?thesis using normalize_idempotent [of "''/usr//lib/../bin/.''"] by (simp add: jayess_path_is_absolute_def)
qed

text \<open>A drive.\<close>

lemma normalize_drive:
  "path_normalize_text ''./C:'' = Inr ''C:'' \<and> path_normalize_text ''C:'' = Inr ''C:/''"
  by code_simp

text \<open>Parent segments at the start of a relative path are lost.\<close>

lemma normalize_loses_parent: "path_normalize_text ''../a'' = Inr ''a''"
  by code_simp

section \<open>Relative paths\<close>

lemma common_loop_same: "common_loop xs xs = length xs"
  by (induction xs) simp_all

text \<open>
  The relative path from a path to itself writes past its buffer: it puts the two bytes of \<open>"."\<close> into a buffer of one.
\<close>

lemma relative_same_overflows:
  assumes "path_resolve_texts cwd [p] = Inr t"
  shows "path_relative_texts cwd p p = Inl Out_of_bounds"
  using assms by (simp add: path_relative_texts_def Let_def common_loop_same join_segments_eq)

lemma relative_same_example: "path_relative_texts ''/home'' ''src'' ''src'' = Inl Out_of_bounds"
  by (rule relative_same_overflows [where t = "''/home/src''"]) code_simp

end
