(* ===== verification/C_Numbers.thy ===== *)
theory C_Numbers
  imports Number_Text
begin

unbundle bit_operations_syntax

text \<open>
  More of the C library and of C's conversions: casts from \<open>double\<close> to the integer types, the type
  \<open>float\<close>, and \<open>strtoul\<close> and \<open>strtol\<close>. A cast whose value does not fit has no defined result in C; the
  definitions give what the compiled code gives on x86-64. The properties that store numbers assume that the casts are
  defined (\<open>int_fits\<close> and \<open>uint_fits\<close>), and an index that a property takes to be inside an array has a defined cast.
\<close>

section \<open>Casts\<close>

definition cast_to :: "nat \<Rightarrow> double \<Rightarrow> int" where
  "cast_to bits x =
     (if dbl_isfinite x \<and> - (2 ^ (bits - 1)) \<le> dbl_trunc x \<and> dbl_trunc x < 2 ^ (bits - 1) then dbl_trunc x
      else - (2 ^ (bits - 1)))"

text \<open>\<open>(int)x\<close>, \<open>(int64_t)x\<close> and \<open>(unsigned int)x\<close>.\<close>

definition c_int :: "double \<Rightarrow> int" where
  "c_int x = cast_to 32 x"

definition c_int64 :: "double \<Rightarrow> int" where
  "c_int64 x = cast_to 64 x"

definition c_uint :: "double \<Rightarrow> u32" where
  "c_uint x = word_of_int (c_int64 x)"

text \<open>Arithmetic on \<open>int\<close> wraps in the compiled code.\<close>

definition wrap_int :: "int \<Rightarrow> int" where
  "wrap_int i = sint (word_of_int i :: u32)"

section \<open>Single precision\<close>

text \<open>\<open>(float)x\<close>: the 32-bit pattern; a magnitude is counted in units of \<open>2 ^ -149\<close>.\<close>

definition flt_encode :: "nat \<Rightarrow> nat \<Rightarrow> nat" where
  "flt_encode n d = (let s = nbits (n div d) - 24 in min (s * 2 ^ 23 + round_div n (d * 2 ^ s)) (255 * 2 ^ 23))"

definition flt_of_dbl :: "double \<Rightarrow> u32" where
  "flt_of_dbl x =
     word_of_nat ((if dbl_neg x then 2 ^ 31 else 0)
       + (if dbl_isnan x then 255 * 2 ^ 23 + (2 ^ 22 + (dbl_frac x div 2 ^ 29) mod 2 ^ 22)
          else flt_encode (dbl_mag x) (2 ^ 925)))"

definition flt_exp :: "u32 \<Rightarrow> nat" where
  "flt_exp b = (unat b div 2 ^ 23) mod 2 ^ 8"

definition flt_frac :: "u32 \<Rightarrow> nat" where
  "flt_frac b = unat b mod 2 ^ 23"

text \<open>\<open>(double)f\<close>, exact.\<close>

definition dbl_of_flt :: "u32 \<Rightarrow> double" where
  "dbl_of_flt b =
     dbl_signed (2 ^ 31 \<le> unat b)
       (if flt_exp b = 255
        then 2047 * 2 ^ 52 + (if flt_frac b = 0 then 0 else 2 ^ 51 + (flt_frac b mod 2 ^ 22) * 2 ^ 29)
        else dbl_encode ((if flt_exp b = 0 then flt_frac b else (2 ^ 23 + flt_frac b) * 2 ^ (flt_exp b - 1)) * 2 ^ 925) 1)"

section \<open>Integers in texts\<close>

definition digit_in :: "nat \<Rightarrow> char \<Rightarrow> bool" where
  "digit_in base c \<longleftrightarrow> (if base = 16 then c_isxdigit c else c_isdigit c)"

definition digits_val :: "nat \<Rightarrow> string \<Rightarrow> nat" where
  "digits_val base ds = foldl (\<lambda>v c. base * v + hex_digit_val c) 0 ds"

text \<open>The sign, the digits and the rest of a text; no digits leave the cursor at the start.\<close>

definition scan_integer :: "nat \<Rightarrow> string \<Rightarrow> (bool \<times> nat \<times> string) option" where
  "scan_integer base s =
     (let (neg, s1) = strip_sign (dropWhile c_isspace s);
          s2 = (if base = 16 \<and> (prefix ''0x'' s1 \<or> prefix ''0X'' s1) \<and> (\<exists>c r. drop 2 s1 = c # r \<and> c_isxdigit c)
                then drop 2 s1 else s1)
      in if takeWhile (digit_in base) s2 = [] then None
         else Some (neg, digits_val base (takeWhile (digit_in base) s2), dropWhile (digit_in base) s2))"

lemma scan_integer_code [code]:
  "scan_integer base s =
     (let (neg, s1) = strip_sign (dropWhile c_isspace s);
          s2 = (if base = 16 \<and> (prefix ''0x'' s1 \<or> prefix ''0X'' s1)
                   \<and> (case drop 2 s1 of [] \<Rightarrow> False | c # r \<Rightarrow> c_isxdigit c)
                then drop 2 s1 else s1)
      in if takeWhile (digit_in base) s2 = [] then None
         else Some (neg, digits_val base (takeWhile (digit_in base) s2), dropWhile (digit_in base) s2))"
proof -
  have "(\<exists>c r. xs = c # r \<and> c_isxdigit c) \<longleftrightarrow> (case xs of [] \<Rightarrow> False | c # r \<Rightarrow> c_isxdigit c)" for xs
    by (cases xs) auto
  then show ?thesis by (simp add: scan_integer_def)
qed

text \<open>\<open>strtoul(s, &end, base)\<close> saturates at \<open>ULONG_MAX\<close> and negates modulo \<open>2 ^ 64\<close>.\<close>

definition c_strtoul :: "nat \<Rightarrow> string \<Rightarrow> nat \<times> string" where
  "c_strtoul base s =
     (case scan_integer base s of
        None \<Rightarrow> (0, s)
      | Some (neg, v, r) \<Rightarrow> (if 2 ^ 64 \<le> v then 2 ^ 64 - 1 else if neg \<and> v \<noteq> 0 then 2 ^ 64 - v else v, r))"

text \<open>\<open>strtol(s, &end, 10)\<close> saturates at both ends.\<close>

definition c_strtol :: "string \<Rightarrow> int \<times> string" where
  "c_strtol s =
     (case scan_integer 10 s of
        None \<Rightarrow> (0, s)
      | Some (neg, v, r) \<Rightarrow> (if neg then max (- int v) (- (2 ^ 63)) else min (int v) (2 ^ 63 - 1), r))"

section \<open>Facts\<close>

lemma c_int_of_int: "- (2 ^ 31) \<le> i \<Longrightarrow> i < 2 ^ 31 \<Longrightarrow> c_int (dbl_of_int i) = i"
  by (simp add: c_int_def cast_to_def dbl_of_int_exact dbl_trunc_of_int)

lemma c_int64_of_int: "\<bar>i\<bar> < 2 ^ 53 \<Longrightarrow> c_int64 (dbl_of_int i) = i"
  by (auto simp: c_int64_def cast_to_def dbl_of_int_exact dbl_trunc_of_int)

lemma c_int_range: "- (2 ^ 31) \<le> c_int x" "c_int x < 2 ^ 31"
  by (simp_all add: c_int_def cast_to_def)

lemma wrap_int_id: "- (2 ^ 31) \<le> i \<Longrightarrow> i < 2 ^ 31 \<Longrightarrow> wrap_int i = i"
  by (simp add: wrap_int_def signed_of_int signed_take_bit_int_eq_self)

end
