(* ===== verification/Typed_Arrays.thy ===== *)
theory Typed_Arrays
  imports Value_Text Map_Set C_Numbers
begin

unbundle bit_operations_syntax

text \<open>
  Buffers, typed arrays and data views: \<open>jayess_runtime_typed_arrays.c\<close>. A buffer is an array of the
  heap that holds one number per byte; the objects that view it have it as their native handle, with
  the flag of a shared buffer. Locks are not modelled (one operation at a time), nor are reference
  counts and freeing.
\<close>

section \<open>Buffers\<close>

record byte_state =
  js :: jayess_state
  native :: "nat \<Rightarrow> (nat \<times> bool) option"

definition object_kind :: "jayess_state \<Rightarrow> jayess_value option \<Rightarrow> string option" where
  "object_kind s target =
     (case target of
        Some (VObject a) \<Rightarrow> (case object_get s a ''__jayess_std_kind'' of Some (VString k) \<Rightarrow> Some k | _ \<Rightarrow> None)
      | _ \<Rightarrow> None)"

definition jayess_std_kind_is :: "jayess_state \<Rightarrow> jayess_value option \<Rightarrow> string \<Rightarrow> bool" where
  "jayess_std_kind_is s target kind \<longleftrightarrow> object_kind s target = Some kind"

definition jayess_std_is_typed_array_kind :: "string \<Rightarrow> bool" where
  "jayess_std_is_typed_array_kind kind \<longleftrightarrow>
     kind \<in> {''Uint8Array'', ''Int8Array'', ''Uint16Array'', ''Int16Array'', ''Uint32Array'', ''Int32Array'',
             ''Float32Array'', ''Float64Array''}"

definition jayess_std_typed_array_element_size :: "string \<Rightarrow> nat" where
  "jayess_std_typed_array_element_size kind =
     (if kind \<in> {''Uint8Array'', ''Int8Array''} then 1
      else if kind \<in> {''Uint16Array'', ''Int16Array''} then 2
      else if kind \<in> {''Uint32Array'', ''Int32Array'', ''Float32Array''} then 4
      else if kind = ''Float64Array'' then 8 else 0)"

definition jayess_std_typed_array_kind :: "jayess_state \<Rightarrow> jayess_value option \<Rightarrow> string option" where
  "jayess_std_typed_array_kind s target =
     (case object_kind s target of
        Some k \<Rightarrow> if jayess_std_is_typed_array_kind k then Some k else None | None \<Rightarrow> None)"

definition jayess_std_is_typed_array :: "jayess_state \<Rightarrow> jayess_value option \<Rightarrow> bool" where
  "jayess_std_is_typed_array s target \<longleftrightarrow> jayess_std_typed_array_kind s target \<noteq> None"

definition jayess_std_bytes_state :: "byte_state \<Rightarrow> jayess_value option \<Rightarrow> (nat \<times> bool) option" where
  "jayess_std_bytes_state t target =
     (case target of
        Some (VObject a) \<Rightarrow>
          if jayess_std_typed_array_kind (js t) target \<noteq> None \<or> jayess_std_kind_is (js t) target ''DataView''
             \<or> jayess_std_kind_is (js t) target ''ArrayBuffer'' \<or> jayess_std_kind_is (js t) target ''SharedArrayBuffer''
          then native t a else None
      | _ \<Rightarrow> None)"

text \<open>The array with the bytes.\<close>

definition jayess_std_bytes_slot :: "byte_state \<Rightarrow> jayess_value option \<Rightarrow> nat option" where
  "jayess_std_bytes_slot t target =
     (case jayess_std_bytes_state t target of
        Some (b, _) \<Rightarrow> Some b
      | None \<Rightarrow> jayess_std_array_slot (js t) target ''__jayess_bytes'')"

definition bytes_of :: "byte_state \<Rightarrow> jayess_value option \<Rightarrow> jayess_slots" where
  "bytes_of t target = (case jayess_std_bytes_slot t target of None \<Rightarrow> [] | Some b \<Rightarrow> slots_at (js t) b)"

text \<open>One slot as a byte, and as it is stored.\<close>

definition byte_of :: "jayess_value option \<Rightarrow> int" where
  "byte_of v = c_int (jayess_value_to_number v) AND 255"

definition byte_slot :: "int \<Rightarrow> jayess_value option" where
  "byte_slot v = Some (jayess_value_from_number (dbl_of_int (v AND 255)))"

definition jayess_std_bytes_read :: "jayess_slots \<Rightarrow> int \<Rightarrow> int" where
  "jayess_std_bytes_read bytes offset =
     (if offset < 0 \<or> int (length bytes) \<le> offset then 0 else byte_of (bytes ! nat offset))"

definition jayess_std_bytes_write :: "byte_state \<Rightarrow> nat \<Rightarrow> int \<Rightarrow> int \<Rightarrow> byte_state" where
  "jayess_std_bytes_write t b offset v =
     (if offset < 0 \<or> int (length (slots_at (js t) b)) \<le> offset then t
      else t\<lparr>js := array_write (js t) b (jayess_array_set_value (accounting (js t)) (slots_at (js t) b) offset (byte_slot v))\<rparr>)"

definition jayess_std_byte_length :: "byte_state \<Rightarrow> jayess_value option \<Rightarrow> nat" where
  "jayess_std_byte_length t target = length (bytes_of t target)"

definition jayess_std_byte_read :: "byte_state \<Rightarrow> jayess_value option \<Rightarrow> int \<Rightarrow> int" where
  "jayess_std_byte_read t target offset =
     (case jayess_std_bytes_slot t target of
        None \<Rightarrow> 0 | Some b \<Rightarrow> jayess_std_bytes_read (slots_at (js t) b) offset)"

definition jayess_std_byte_write :: "byte_state \<Rightarrow> jayess_value option \<Rightarrow> int \<Rightarrow> int \<Rightarrow> byte_state" where
  "jayess_std_byte_write t target offset v =
     (case jayess_std_bytes_slot t target of
        None \<Rightarrow> t | Some b \<Rightarrow> jayess_std_bytes_write t b offset v)"

section \<open>Words in bytes\<close>

text \<open>\<open>rd\<close> reads, \<open>wr\<close> writes a byte at an offset.\<close>

definition read_u32 :: "(int \<Rightarrow> int) \<Rightarrow> int \<Rightarrow> bool \<Rightarrow> u32" where
  "read_u32 rd offset little_endian =
     (let b0 = word_of_int (rd offset); b1 = word_of_int (rd (offset + 1));
          b2 = word_of_int (rd (offset + 2)); b3 = word_of_int (rd (offset + 3))
      in if little_endian then b0 OR push_bit 8 b1 OR push_bit 16 b2 OR push_bit 24 b3
         else push_bit 24 b0 OR push_bit 16 b1 OR push_bit 8 b2 OR b3)"

definition write_u32 :: "(byte_state \<Rightarrow> int \<Rightarrow> int \<Rightarrow> byte_state) \<Rightarrow> byte_state \<Rightarrow> int \<Rightarrow> u32 \<Rightarrow> bool \<Rightarrow> byte_state" where
  "write_u32 wr t offset number little_endian =
     (let b0 = uint (number AND 255); b1 = uint (drop_bit 8 number AND 255);
          b2 = uint (drop_bit 16 number AND 255); b3 = uint (drop_bit 24 number AND 255)
      in if little_endian then wr (wr (wr (wr t offset b0) (offset + 1) b1) (offset + 2) b2) (offset + 3) b3
         else wr (wr (wr (wr t offset b3) (offset + 1) b2) (offset + 2) b1) (offset + 3) b0)"

fun read_u64_loop :: "(int \<Rightarrow> int) \<Rightarrow> u64 \<Rightarrow> int list \<Rightarrow> u64" where
  "read_u64_loop rd v [] = v"
| "read_u64_loop rd v (i # is) = read_u64_loop rd (push_bit 8 v OR word_of_int (rd i)) is"

definition read_u64 :: "(int \<Rightarrow> int) \<Rightarrow> int \<Rightarrow> bool \<Rightarrow> u64" where
  "read_u64 rd offset little_endian =
     read_u64_loop rd 0 (map (\<lambda>i. offset + i) (if little_endian then rev [0..7] else [0..7]))"

fun write_u64_loop :: "(byte_state \<Rightarrow> int \<Rightarrow> int \<Rightarrow> byte_state) \<Rightarrow> byte_state \<Rightarrow> (int \<times> nat) list \<Rightarrow> u64 \<Rightarrow> byte_state" where
  "write_u64_loop wr t [] number = t"
| "write_u64_loop wr t ((i, shift) # is) number =
     write_u64_loop wr (wr t i (uint (drop_bit shift number AND 255))) is number"

definition write_u64 :: "(byte_state \<Rightarrow> int \<Rightarrow> int \<Rightarrow> byte_state) \<Rightarrow> byte_state \<Rightarrow> int \<Rightarrow> u64 \<Rightarrow> bool \<Rightarrow> byte_state" where
  "write_u64 wr t offset number little_endian =
     write_u64_loop wr t
       (map (\<lambda>i. (offset + int i, if little_endian then i * 8 else (7 - i) * 8)) [0..<8]) number"

definition jayess_std_data_view_read_u32 :: "jayess_slots \<Rightarrow> int \<Rightarrow> bool \<Rightarrow> u32" where
  "jayess_std_data_view_read_u32 bytes = read_u32 (jayess_std_bytes_read bytes)"

definition jayess_std_data_view_write_u32 :: "byte_state \<Rightarrow> nat \<Rightarrow> int \<Rightarrow> u32 \<Rightarrow> bool \<Rightarrow> byte_state" where
  "jayess_std_data_view_write_u32 t b = write_u32 (\<lambda>t. jayess_std_bytes_write t b) t"

definition jayess_std_data_view_read_u32_target :: "byte_state \<Rightarrow> jayess_value option \<Rightarrow> int \<Rightarrow> bool \<Rightarrow> u32" where
  "jayess_std_data_view_read_u32_target t target = read_u32 (jayess_std_byte_read t target)"

definition jayess_std_data_view_write_u32_target ::
  "byte_state \<Rightarrow> jayess_value option \<Rightarrow> int \<Rightarrow> u32 \<Rightarrow> bool \<Rightarrow> byte_state" where
  "jayess_std_data_view_write_u32_target t target = write_u32 (\<lambda>t. jayess_std_byte_write t target) t"

definition jayess_std_data_view_read_u64_target :: "byte_state \<Rightarrow> jayess_value option \<Rightarrow> int \<Rightarrow> bool \<Rightarrow> u64" where
  "jayess_std_data_view_read_u64_target t target = read_u64 (jayess_std_byte_read t target)"

definition jayess_std_data_view_write_u64_target ::
  "byte_state \<Rightarrow> jayess_value option \<Rightarrow> int \<Rightarrow> u64 \<Rightarrow> bool \<Rightarrow> byte_state" where
  "jayess_std_data_view_write_u64_target t target = write_u64 (\<lambda>t. jayess_std_byte_write t target) t"

section \<open>Construction\<close>

fun zero_bytes_loop :: "jayess_state \<Rightarrow> nat \<Rightarrow> nat \<Rightarrow> jayess_state" where
  "zero_bytes_loop s b 0 = s"
| "zero_bytes_loop s b (Suc n) = zero_bytes_loop (push_slot s b (Some (jayess_value_from_number 0))) b n"

definition jayess_std_buffer_state_new :: "jayess_state \<Rightarrow> int \<Rightarrow> nat \<times> jayess_state" where
  "jayess_std_buffer_state_new s len = (let (b, s1) = jayess_array_new s in (b, zero_bytes_loop s1 b (nat len)))"

definition buffer_object :: "byte_state \<Rightarrow> jayess_value option \<Rightarrow> bool \<Rightarrow> string \<Rightarrow> jayess_value \<times> byte_state" where
  "buffer_object t length_value shared kind =
     (let (a, s1) = jayess_object_new (js t);
          (b, s2) = jayess_std_buffer_state_new s1 (c_int (jayess_value_to_number length_value))
      in (VObject a, t\<lparr>js := object_set s2 a ''__jayess_std_kind'' (VString kind), native := (native t)(a \<mapsto> (b, shared))\<rparr>))"

definition jayess_std_array_buffer_new :: "byte_state \<Rightarrow> jayess_value option \<Rightarrow> jayess_value \<times> byte_state" where
  "jayess_std_array_buffer_new t length_value = buffer_object t length_value False ''ArrayBuffer''"

definition jayess_std_shared_array_buffer_new :: "byte_state \<Rightarrow> jayess_value option \<Rightarrow> jayess_value \<times> byte_state" where
  "jayess_std_shared_array_buffer_new t length_value = buffer_object t length_value True ''SharedArrayBuffer''"

definition jayess_std_typed_array_length_from_bytes :: "jayess_slots \<Rightarrow> string \<Rightarrow> nat" where
  "jayess_std_typed_array_length_from_bytes bytes kind =
     (if jayess_std_typed_array_element_size kind = 0 then 0
      else length bytes div jayess_std_typed_array_element_size kind)"

definition jayess_value_array_length :: "byte_state \<Rightarrow> jayess_value option \<Rightarrow> nat" where
  "jayess_value_array_length t target =
     (case target of
        Some (VString s) \<Rightarrow> length s
      | Some (VArray a) \<Rightarrow> length (slots_at (js t) a)
      | Some (VObject a) \<Rightarrow>
          (case jayess_std_typed_array_kind (js t) target of
             None \<Rightarrow> 0 | Some kind \<Rightarrow> jayess_std_typed_array_length_from_bytes (bytes_of t target) kind)
      | _ \<Rightarrow> 0)"

section \<open>Elements\<close>

definition sign_extend :: "nat \<Rightarrow> int \<Rightarrow> int" where
  "sign_extend n v = (if 2 ^ (n - 1) \<le> v then v - 2 ^ n else v)"

definition jayess_std_typed_array_get_number :: "byte_state \<Rightarrow> jayess_value option \<Rightarrow> int \<Rightarrow> double" where
  "jayess_std_typed_array_get_number t target index =
     (case jayess_std_typed_array_kind (js t) target of
        None \<Rightarrow> 0
      | Some kind \<Rightarrow>
          (let offset = index * int (jayess_std_typed_array_element_size kind);
               b = jayess_std_byte_read t target;
               u16 = b offset OR push_bit 8 (b (offset + 1));
               u32 = jayess_std_data_view_read_u32_target t target offset True
           in if index < 0 \<or> int (jayess_value_array_length t target) \<le> index then 0
              else if kind = ''Uint8Array'' then dbl_of_int (b offset)
              else if kind = ''Int8Array'' then dbl_of_int (sign_extend 8 (b offset))
              else if kind = ''Uint16Array'' then dbl_of_int u16
              else if kind = ''Int16Array'' then dbl_of_int (sign_extend 16 u16)
              else if kind = ''Uint32Array'' then dbl_of_int (uint u32)
              else if kind = ''Int32Array'' then dbl_of_int (sign_extend 32 (uint u32))
              else if kind = ''Float32Array'' then dbl_of_flt u32
              else jayess_std_data_view_read_u64_target t target offset True))"

definition jayess_std_typed_array_set_number :: "byte_state \<Rightarrow> jayess_value option \<Rightarrow> int \<Rightarrow> double \<Rightarrow> byte_state" where
  "jayess_std_typed_array_set_number t target index number =
     (case jayess_std_typed_array_kind (js t) target of
        None \<Rightarrow> t
      | Some kind \<Rightarrow>
          (let offset = index * int (jayess_std_typed_array_element_size kind);
               wr = (\<lambda>t. jayess_std_byte_write t target)
           in if index < 0 \<or> int (jayess_value_array_length t target) \<le> index then t
              else if kind = ''Uint8Array'' then wr t offset (c_int number AND 255)
              else if kind = ''Int8Array'' then wr t offset (c_int number)
              else if kind = ''Uint16Array'' \<or> kind = ''Int16Array''
              then wr (wr t offset (c_int number AND 255)) (offset + 1) (drop_bit 8 (c_int number) AND 255)
              else if kind = ''Uint32Array''
              then jayess_std_data_view_write_u32_target t target offset (c_uint number) True
              else if kind = ''Int32Array''
              then jayess_std_data_view_write_u32_target t target offset (word_of_int (c_int number)) True
              else if kind = ''Float32Array''
              then jayess_std_data_view_write_u32_target t target offset (flt_of_dbl number) True
              else jayess_std_data_view_write_u64_target t target offset number True))"

fun fill_loop :: "byte_state \<Rightarrow> jayess_value option \<Rightarrow> int \<Rightarrow> double list \<Rightarrow> byte_state" where
  "fill_loop t target i [] = t"
| "fill_loop t target i (x # xs) = fill_loop (jayess_std_typed_array_set_number t target i x) target (i + 1) xs"

text \<open>
  The source is a buffer (which is then shared), a typed array or an array (whose elements are
  copied one by one, from the state each store leaves), or a length. \<open>kind\<close> is one of the eight.
\<close>

fun copy_loop :: "byte_state \<Rightarrow> jayess_value option \<Rightarrow> int \<Rightarrow> jayess_value option \<Rightarrow> int \<Rightarrow> nat \<Rightarrow> byte_state" where
  "copy_loop t target i source j 0 = t"
| "copy_loop t target i source j (Suc n) =
     copy_loop (jayess_std_typed_array_set_number t target i (jayess_std_typed_array_get_number t source j))
       target (i + 1) source (j + 1) n"

definition jayess_std_typed_array_new :: "byte_state \<Rightarrow> string \<Rightarrow> jayess_value option \<Rightarrow> jayess_value \<times> byte_state" where
  "jayess_std_typed_array_new t kind source =
     (let (a, s1) = jayess_object_new (js t);
          t1 = t\<lparr>js := s1\<rparr>;
          size = int (jayess_std_typed_array_element_size kind);
          target = Some (VObject a);
          view = (\<lambda>(t2, handle). t2\<lparr>js := object_set (js t2) a ''__jayess_std_kind'' (VString kind),
                                    native := (native t2)(a := handle)\<rparr>);
          fresh = (\<lambda>len. let (buffer, t2) = jayess_std_array_buffer_new t1
                                (Some (jayess_value_from_number (dbl_of_int (wrap_int (len * size)))))
                         in (t2, jayess_std_bytes_state t2 (Some buffer)))
      in (VObject a,
          if jayess_std_kind_is s1 source ''ArrayBuffer'' \<or> jayess_std_kind_is s1 source ''SharedArrayBuffer''
          then view (t1, jayess_std_bytes_state t1 source)
          else if jayess_std_is_typed_array s1 source
          then (let len = jayess_value_array_length t1 source
                in copy_loop (view (fresh (int len))) target 0 source 0 len)
          else (case source of
                  Some (VArray b) \<Rightarrow>
                    (let vs = slots_at s1 b
                     in fill_loop (view (fresh (int (length vs)))) target 0 (map jayess_value_to_number vs))
                | _ \<Rightarrow> (let len = c_int (jayess_value_to_number source)
                       in view (fresh (if len < 0 then 0 else len))))))"

end
