(* ===== verification/Byte_Methods.thy ===== *)
theory Byte_Methods
  imports Typed_Arrays
begin

unbundle bit_operations_syntax

text \<open>
  The methods of data views, typed arrays and \<open>Uint8Array\<close>, and the \<open>Atomics\<close> functions
  (\<open>jayess_runtime_typed_arrays.c\<close> and \<open>jayess_runtime.c\<close>).
\<close>

section \<open>Data views\<close>

definition jayess_std_data_view_new :: "byte_state \<Rightarrow> jayess_value option \<Rightarrow> jayess_value \<times> byte_state" where
  "jayess_std_data_view_new t buffer =
     (let (a, s1) = jayess_object_new (js t);
          t1 = t\<lparr>js := s1\<rparr>;
          given = (if jayess_std_kind_is s1 buffer ''ArrayBuffer'' \<or> jayess_std_kind_is s1 buffer ''SharedArrayBuffer''
                   then jayess_std_bytes_state t1 buffer else None);
          (handle, t2) = (case given of
             Some h \<Rightarrow> (given, t1)
           | None \<Rightarrow> (let (v, t2) = jayess_std_array_buffer_new t1 (Some (jayess_value_from_number 0))
                      in (jayess_std_bytes_state t2 (Some v), t2)))
      in (VObject a, t2\<lparr>js := object_set (js t2) a ''__jayess_std_kind'' (VString ''DataView''),
                        native := (native t2)(a := handle)\<rparr>))"

definition as_bool :: "byte_state \<Rightarrow> jayess_value option \<Rightarrow> bool" where
  "as_bool t = jayess_value_as_bool (\<lambda>a. length (slots_at (js t) a))
     (\<lambda>f. case funcs (js t) f of None \<Rightarrow> False | Some fn \<Rightarrow> fn_callee fn \<noteq> None)"

definition int_arg :: "jayess_value option \<Rightarrow> int" where
  "int_arg v = c_int (jayess_value_to_number v)"

definition number_result :: "int \<Rightarrow> jayess_value" where
  "number_result i = jayess_value_from_number (dbl_of_int i)"

definition jayess_std_data_view_get_uint8_method :: "byte_state \<Rightarrow> jayess_value option \<Rightarrow> jayess_value option \<Rightarrow> jayess_value" where
  "jayess_std_data_view_get_uint8_method t env offset = number_result (jayess_std_byte_read t env (int_arg offset))"

definition jayess_std_data_view_set_uint8_method ::
  "byte_state \<Rightarrow> jayess_value option \<Rightarrow> jayess_value option \<Rightarrow> jayess_value option \<Rightarrow> byte_state" where
  "jayess_std_data_view_set_uint8_method t env offset v = jayess_std_byte_write t env (int_arg offset) (int_arg v AND 255)"

definition jayess_std_data_view_get_int8_method :: "byte_state \<Rightarrow> jayess_value option \<Rightarrow> jayess_value option \<Rightarrow> jayess_value" where
  "jayess_std_data_view_get_int8_method t env offset =
     number_result (sign_extend 8 (jayess_std_byte_read t env (int_arg offset)))"

definition jayess_std_data_view_set_int8_method ::
  "byte_state \<Rightarrow> jayess_value option \<Rightarrow> jayess_value option \<Rightarrow> jayess_value option \<Rightarrow> byte_state" where
  "jayess_std_data_view_set_int8_method t env offset v = jayess_std_byte_write t env (int_arg offset) (int_arg v)"

definition read_u16 :: "byte_state \<Rightarrow> jayess_value option \<Rightarrow> int \<Rightarrow> bool \<Rightarrow> int" where
  "read_u16 t env offset little_endian =
     (let b0 = jayess_std_byte_read t env offset; b1 = jayess_std_byte_read t env (offset + 1)
      in if little_endian then b0 OR push_bit 8 b1 else push_bit 8 b0 OR b1)"

definition write_u16 :: "byte_state \<Rightarrow> jayess_value option \<Rightarrow> int \<Rightarrow> int \<Rightarrow> bool \<Rightarrow> byte_state" where
  "write_u16 t env offset number little_endian =
     (let low = number AND 255; high = drop_bit 8 number AND 255; wr = (\<lambda>t. jayess_std_byte_write t env)
      in if little_endian then wr (wr t offset low) (offset + 1) high else wr (wr t offset high) (offset + 1) low)"

type_synonym view_getter = "byte_state \<Rightarrow> jayess_value option \<Rightarrow> jayess_value option \<Rightarrow> jayess_value option \<Rightarrow> jayess_value"

type_synonym view_setter =
  "byte_state \<Rightarrow> jayess_value option \<Rightarrow> jayess_value option \<Rightarrow> jayess_value option \<Rightarrow> jayess_value option \<Rightarrow> byte_state"

definition jayess_std_data_view_get_uint16_method :: view_getter where
  "jayess_std_data_view_get_uint16_method t env offset le = number_result (read_u16 t env (int_arg offset) (as_bool t le))"

definition jayess_std_data_view_set_uint16_method :: view_setter where
  "jayess_std_data_view_set_uint16_method t env offset v le =
     write_u16 t env (int_arg offset) (int_arg v AND 65535) (as_bool t le)"

definition jayess_std_data_view_get_int16_method :: view_getter where
  "jayess_std_data_view_get_int16_method t env offset le =
     number_result (sign_extend 16 (read_u16 t env (int_arg offset) (as_bool t le)))"

definition jayess_std_data_view_set_int16_method :: view_setter where
  "jayess_std_data_view_set_int16_method t env offset v le =
     write_u16 t env (int_arg offset) (int_arg v AND 65535) (as_bool t le)"

definition jayess_std_data_view_get_uint32_method :: view_getter where
  "jayess_std_data_view_get_uint32_method t env offset le =
     number_result (uint (jayess_std_data_view_read_u32_target t env (int_arg offset) (as_bool t le)))"

definition jayess_std_data_view_set_uint32_method :: view_setter where
  "jayess_std_data_view_set_uint32_method t env offset v le =
     jayess_std_data_view_write_u32_target t env (int_arg offset) (c_uint (jayess_value_to_number v)) (as_bool t le)"

definition jayess_std_data_view_get_int32_method :: view_getter where
  "jayess_std_data_view_get_int32_method t env offset le =
     number_result (sign_extend 32 (uint (jayess_std_data_view_read_u32_target t env (int_arg offset) (as_bool t le))))"

definition jayess_std_data_view_set_int32_method :: view_setter where
  "jayess_std_data_view_set_int32_method t env offset v le =
     jayess_std_data_view_write_u32_target t env (int_arg offset) (word_of_int (int_arg v)) (as_bool t le)"

definition jayess_std_data_view_get_float32_method :: view_getter where
  "jayess_std_data_view_get_float32_method t env offset le =
     jayess_value_from_number (dbl_of_flt (jayess_std_data_view_read_u32_target t env (int_arg offset) (as_bool t le)))"

definition jayess_std_data_view_set_float32_method :: view_setter where
  "jayess_std_data_view_set_float32_method t env offset v le =
     jayess_std_data_view_write_u32_target t env (int_arg offset) (flt_of_dbl (jayess_value_to_number v)) (as_bool t le)"

definition jayess_std_data_view_get_float64_method :: view_getter where
  "jayess_std_data_view_get_float64_method t env offset le =
     jayess_value_from_number (jayess_std_data_view_read_u64_target t env (int_arg offset) (as_bool t le))"

definition jayess_std_data_view_set_float64_method :: view_setter where
  "jayess_std_data_view_set_float64_method t env offset v le =
     jayess_std_data_view_write_u64_target t env (int_arg offset) (jayess_value_to_number v) (as_bool t le)"

section \<open>Typed arrays\<close>

definition jayess_std_uint8_clamped_index :: "jayess_value option \<Rightarrow> int \<Rightarrow> int \<Rightarrow> int" where
  "jayess_std_uint8_clamped_index v len default_value =
     (if jayess_value_is_nullish v then default_value
      else (let i = int_arg v; j = (if i < 0 then i + len else i)
            in if j < 0 then 0 else if len < j then len else j))"

definition jayess_std_typed_array_fill_method :: "byte_state \<Rightarrow> jayess_value option \<Rightarrow> jayess_value option \<Rightarrow> byte_state" where
  "jayess_std_typed_array_fill_method t env v =
     fill_loop t env 0 (replicate (jayess_value_array_length t env) (jayess_value_to_number v))"

fun find_number :: "byte_state \<Rightarrow> jayess_value option \<Rightarrow> double \<Rightarrow> int \<Rightarrow> nat \<Rightarrow> int" where
  "find_number t env x i 0 = -1"
| "find_number t env x i (Suc n) =
     (if dbl_eq (jayess_std_typed_array_get_number t env i) x then i else find_number t env x (i + 1) n)"

definition jayess_std_typed_array_includes_method :: "byte_state \<Rightarrow> jayess_value option \<Rightarrow> jayess_value option \<Rightarrow> bool" where
  "jayess_std_typed_array_includes_method t env v \<longleftrightarrow>
     find_number t env (jayess_value_to_number v) 0 (jayess_value_array_length t env) \<noteq> -1"

definition jayess_std_typed_array_index_of_method :: "byte_state \<Rightarrow> jayess_value option \<Rightarrow> jayess_value option \<Rightarrow> jayess_value" where
  "jayess_std_typed_array_index_of_method t env v =
     number_result (find_number t env (jayess_value_to_number v) 0 (jayess_value_array_length t env))"

definition jayess_std_typed_array_set_method ::
  "byte_state \<Rightarrow> jayess_value option \<Rightarrow> jayess_value option \<Rightarrow> jayess_value option \<Rightarrow> byte_state" where
  "jayess_std_typed_array_set_method t env source offset_value =
     (let len = int (jayess_value_array_length t env);
          offset = jayess_std_uint8_clamped_index offset_value len 0
      in if jayess_std_is_typed_array (js t) source
         then copy_loop t env offset source 0 (nat (min (int (jayess_value_array_length t source)) (len - offset)))
         else (case source of
                 Some (VArray b) \<Rightarrow>
                   (let vs = slots_at (js t) b
                    in fill_loop t env offset
                         (map jayess_value_to_number (take (nat (min (int (length vs)) (len - offset))) vs)))
               | _ \<Rightarrow> t))"

definition clamp_range :: "int \<Rightarrow> int \<Rightarrow> int \<Rightarrow> bool \<Rightarrow> int \<times> int" where
  "clamp_range len start finish has_end =
     (let s1 = (if start < 0 then len + start else start);
          s2 = (if s1 < 0 then 0 else s1);
          s3 = (if len < s2 then len else s2);
          e1 = (if \<not> has_end then len else if finish < 0 then len + finish else finish);
          e2 = (if e1 < s3 then s3 else e1)
      in (s3, if len < e2 then len else e2))"

definition jayess_std_typed_array_slice_values ::
  "byte_state \<Rightarrow> jayess_value option \<Rightarrow> int \<Rightarrow> int \<Rightarrow> bool \<Rightarrow> jayess_value \<times> byte_state" where
  "jayess_std_typed_array_slice_values t env start finish has_end =
     (let (a, s1) = jayess_array_new (js t);
          t1 = t\<lparr>js := s1\<rparr>;
          (lo, hi) = clamp_range (int (jayess_value_array_length t env)) start finish has_end;
          s2 = foldl (\<lambda>s i. push_slot s a (Some (jayess_value_from_number (jayess_std_typed_array_get_number t1 env i)))) s1
                 [lo..hi - 1]
      in jayess_std_typed_array_new (t1\<lparr>js := s2\<rparr>)
           (case jayess_std_typed_array_kind (js t) env of Some k \<Rightarrow> k | None \<Rightarrow> ''Uint8Array'')
           (Some (VArray a)))"

definition jayess_std_typed_array_slice_method ::
  "byte_state \<Rightarrow> jayess_value option \<Rightarrow> jayess_value option \<Rightarrow> jayess_value option \<Rightarrow> jayess_value \<times> byte_state" where
  "jayess_std_typed_array_slice_method t env start_value end_value =
     (let len = int (jayess_value_array_length t env)
      in jayess_std_typed_array_slice_values t env (jayess_std_uint8_clamped_index start_value len 0)
           (jayess_std_uint8_clamped_index end_value len len) True)"

section \<open>Atomics\<close>

definition jayess_atomics_is_supported_kind :: "string \<Rightarrow> bool" where
  "jayess_atomics_is_supported_kind kind \<longleftrightarrow>
     kind \<in> {''Int8Array'', ''Uint8Array'', ''Int16Array'', ''Uint16Array'', ''Int32Array'', ''Uint32Array''}"

text \<open>The message of the TypeError, or the array with the bytes and the kind.\<close>

definition jayess_atomics_state :: "byte_state \<Rightarrow> jayess_value option \<Rightarrow> int \<Rightarrow> string + nat \<times> string" where
  "jayess_atomics_state t target index =
     (case jayess_std_typed_array_kind (js t) target of
        None \<Rightarrow> Inl ''Atomics requires an integer typed array''
      | Some kind \<Rightarrow>
          if \<not> jayess_atomics_is_supported_kind kind then Inl ''Atomics requires an integer typed array''
          else (case jayess_std_bytes_state t target of
                  Some (b, True) \<Rightarrow>
                    if index < 0 \<or> int (jayess_value_array_length t target) \<le> index
                    then Inl ''Atomics index out of range'' else Inr (b, kind)
                | _ \<Rightarrow> Inl ''Atomics requires a SharedArrayBuffer-backed typed array''))"

definition atomic_read :: "jayess_slots \<Rightarrow> string \<Rightarrow> int \<Rightarrow> int" where
  "atomic_read bytes kind offset =
     (let b = jayess_std_bytes_read bytes; u16 = b offset OR push_bit 8 (b (offset + 1));
          u32 = jayess_std_data_view_read_u32 bytes offset True
      in if kind = ''Uint8Array'' then b offset
         else if kind = ''Int8Array'' then sign_extend 8 (b offset)
         else if kind = ''Uint16Array'' then u16
         else if kind = ''Int16Array'' then sign_extend 16 u16
         else if kind = ''Uint32Array'' then uint u32
         else sign_extend 32 (uint u32))"

definition atomic_write :: "byte_state \<Rightarrow> nat \<Rightarrow> string \<Rightarrow> int \<Rightarrow> double \<Rightarrow> byte_state" where
  "atomic_write t b kind offset number =
     (let wr = (\<lambda>t. jayess_std_bytes_write t b)
      in if kind = ''Uint8Array'' then wr t offset (c_int number AND 255)
         else if kind = ''Int8Array'' then wr t offset (c_int number)
         else if kind = ''Uint16Array'' \<or> kind = ''Int16Array''
         then wr (wr t offset (c_int number AND 255)) (offset + 1) (drop_bit 8 (c_int number) AND 255)
         else if kind = ''Uint32Array'' then jayess_std_data_view_write_u32 t b offset (c_uint number) True
         else jayess_std_data_view_write_u32 t b offset (word_of_int (c_int number)) True)"

datatype atomic_op = At_Load | At_Store | At_Add | At_Sub | At_And | At_Or | At_Xor | At_Exchange | At_Compare

fun atomic_next :: "atomic_op \<Rightarrow> double \<Rightarrow> double \<Rightarrow> double \<Rightarrow> double" where
  "atomic_next At_Add previous operand expected = dbl_add previous operand"
| "atomic_next At_Sub previous operand expected = dbl_add previous (dbl_minus operand)"
| "atomic_next At_And previous operand expected = dbl_of_int (c_int64 previous AND c_int64 operand)"
| "atomic_next At_Or previous operand expected = dbl_of_int (c_int64 previous OR c_int64 operand)"
| "atomic_next At_Xor previous operand expected = dbl_of_int (c_int64 previous XOR c_int64 operand)"
| "atomic_next At_Compare previous operand expected = (if dbl_eq previous expected then operand else previous)"
| "atomic_next _ previous operand expected = operand"

definition jayess_atomics_apply ::
  "byte_state \<Rightarrow> jayess_value option \<Rightarrow> jayess_value option \<Rightarrow> jayess_value option \<Rightarrow> atomic_op \<Rightarrow> jayess_value option
   \<Rightarrow> double \<times> byte_state" where
  "jayess_atomics_apply t target index_value operand_value op expected =
     (let index = int_arg index_value
      in case jayess_atomics_state t target index of
           Inl message \<Rightarrow> (0, t\<lparr>js := jayess_throw_type_error (js t) message\<rparr>)
         | Inr (b, kind) \<Rightarrow>
             (let offset = index * int (jayess_std_typed_array_element_size kind);
                  previous = dbl_of_int (atomic_read (slots_at (js t) b) kind offset);
                  expected_number = jayess_value_to_number expected;
                  next_number = atomic_next op previous (jayess_value_to_number operand_value) expected_number
              in (previous,
                  if op = At_Load \<or> (op = At_Compare \<and> \<not> dbl_eq previous expected_number) then t
                  else atomic_write t b kind offset next_number)))"

definition jayess_atomics_load :: "byte_state \<Rightarrow> jayess_value option \<Rightarrow> jayess_value option \<Rightarrow> double \<times> byte_state" where
  "jayess_atomics_load t target index = jayess_atomics_apply t target index None At_Load None"

definition jayess_atomics_store ::
  "byte_state \<Rightarrow> jayess_value option \<Rightarrow> jayess_value option \<Rightarrow> jayess_value option \<Rightarrow> double \<times> byte_state" where
  "jayess_atomics_store t target index v =
     (jayess_value_to_number v, snd (jayess_atomics_apply t target index v At_Store None))"

definition jayess_atomics_compareExchange ::
  "byte_state \<Rightarrow> jayess_value option \<Rightarrow> jayess_value option \<Rightarrow> jayess_value option \<Rightarrow> jayess_value option \<Rightarrow> double \<times> byte_state" where
  "jayess_atomics_compareExchange t target index expected replacement =
     jayess_atomics_apply t target index replacement At_Compare expected"

type_synonym atomic_method =
  "byte_state \<Rightarrow> jayess_value option \<Rightarrow> jayess_value option \<Rightarrow> jayess_value option \<Rightarrow> double \<times> byte_state"

definition jayess_atomics_add :: atomic_method where
  "jayess_atomics_add t target index v = jayess_atomics_apply t target index v At_Add None"

definition jayess_atomics_sub :: atomic_method where
  "jayess_atomics_sub t target index v = jayess_atomics_apply t target index v At_Sub None"

definition jayess_atomics_and :: atomic_method where
  "jayess_atomics_and t target index v = jayess_atomics_apply t target index v At_And None"

definition jayess_atomics_or :: atomic_method where
  "jayess_atomics_or t target index v = jayess_atomics_apply t target index v At_Or None"

definition jayess_atomics_xor :: atomic_method where
  "jayess_atomics_xor t target index v = jayess_atomics_apply t target index v At_Xor None"

definition jayess_atomics_exchange :: atomic_method where
  "jayess_atomics_exchange t target index v = jayess_atomics_apply t target index v At_Exchange None"

section \<open>Bytes\<close>

definition jayess_std_uint8_fill_method :: "byte_state \<Rightarrow> jayess_value option \<Rightarrow> jayess_value option \<Rightarrow> byte_state" where
  "jayess_std_uint8_fill_method t env v =
     (case jayess_std_bytes_slot t env of
        None \<Rightarrow> t
      | Some b \<Rightarrow> t\<lparr>js := set_slots (js t) b (map (\<lambda>_. byte_slot (int_arg v)) (slots_at (js t) b))\<rparr>)"

definition jayess_std_uint8_includes_method :: "byte_state \<Rightarrow> jayess_value option \<Rightarrow> jayess_value option \<Rightarrow> bool" where
  "jayess_std_uint8_includes_method t env v \<longleftrightarrow> (\<exists>w \<in> set (bytes_of t env). byte_of w = int_arg v AND 255)"

fun match_at :: "int list \<Rightarrow> int list \<Rightarrow> int \<Rightarrow> int" where
  "match_at [] needle i = (if needle = [] then i else -1)"
| "match_at (b # bs) needle i = (if take (length needle) (b # bs) = needle then i else match_at bs needle (i + 1))"

definition jayess_std_uint8_index_of_value :: "byte_state \<Rightarrow> nat option \<Rightarrow> jayess_value option \<Rightarrow> int" where
  "jayess_std_uint8_index_of_value t bytes needle =
     (case bytes of
        None \<Rightarrow> -1
      | Some b \<Rightarrow>
          (let bs = map byte_of (slots_at (js t) b)
           in case jayess_std_bytes_slot t needle of
                Some n \<Rightarrow> match_at bs (map byte_of (slots_at (js t) n)) 0
              | None \<Rightarrow> match_at bs [int_arg needle AND 255] 0))"

definition jayess_std_uint8_index_of_method :: "byte_state \<Rightarrow> jayess_value option \<Rightarrow> jayess_value option \<Rightarrow> jayess_value" where
  "jayess_std_uint8_index_of_method t env needle =
     number_result (jayess_std_uint8_index_of_value t (jayess_std_bytes_slot t env) needle)"

definition jayess_std_uint8_starts_with_method :: "byte_state \<Rightarrow> jayess_value option \<Rightarrow> jayess_value option \<Rightarrow> bool" where
  "jayess_std_uint8_starts_with_method t env needle \<longleftrightarrow>
     (case jayess_std_bytes_slot t env of
        None \<Rightarrow> False
      | Some b \<Rightarrow>
          (case jayess_std_bytes_slot t needle of
             Some n \<Rightarrow> length (slots_at (js t) n) \<le> length (slots_at (js t) b)
                        \<and> jayess_std_uint8_index_of_value t (Some b) needle = 0
           | None \<Rightarrow> slots_at (js t) b \<noteq> [] \<and> byte_of (hd (slots_at (js t) b)) = int_arg needle AND 255))"

definition jayess_std_uint8_ends_with_method :: "byte_state \<Rightarrow> jayess_value option \<Rightarrow> jayess_value option \<Rightarrow> bool" where
  "jayess_std_uint8_ends_with_method t env needle \<longleftrightarrow>
     (case jayess_std_bytes_slot t env of
        None \<Rightarrow> False
      | Some b \<Rightarrow>
          (let bs = map byte_of (slots_at (js t) b)
           in case jayess_std_bytes_slot t needle of
                Some n \<Rightarrow> (let ns = map byte_of (slots_at (js t) n)
                           in length ns \<le> length bs \<and> drop (length bs - length ns) bs = ns)
              | None \<Rightarrow> bs \<noteq> [] \<and> last bs = int_arg needle AND 255))"

definition jayess_std_uint8_source_array :: "byte_state \<Rightarrow> jayess_value option \<Rightarrow> nat option" where
  "jayess_std_uint8_source_array t source =
     (case jayess_std_bytes_slot t source of
        Some b \<Rightarrow> Some b | None \<Rightarrow> (case source of Some (VArray a) \<Rightarrow> Some a | _ \<Rightarrow> None))"

fun store_loop :: "jayess_slots \<Rightarrow> nat \<Rightarrow> jayess_slots \<Rightarrow> jayess_slots" where
  "store_loop vs i [] = vs"
| "store_loop vs i (w # ws) = store_loop (vs[i := w]) (Suc i) ws"

text \<open>
  The source may be the array that is written: every byte is read after the stores before it.
\<close>

fun move_loop :: "jayess_state \<Rightarrow> nat \<Rightarrow> nat \<Rightarrow> nat \<Rightarrow> nat list \<Rightarrow> (jayess_value option \<Rightarrow> jayess_value option) \<Rightarrow> jayess_state" where
  "move_loop s b target source [] f = s"
| "move_loop s b target source (i # is) f =
     move_loop (set_slots s b ((slots_at s b)[target + i := f (slots_at s source ! i)])) b target source is f"

definition jayess_std_uint8_set_method ::
  "byte_state \<Rightarrow> jayess_value option \<Rightarrow> jayess_value option \<Rightarrow> jayess_value option \<Rightarrow> byte_state" where
  "jayess_std_uint8_set_method t env source offset_value =
     (case (jayess_std_bytes_slot t env, jayess_std_uint8_source_array t source) of
        (Some b, Some a) \<Rightarrow>
          (let len = int (length (slots_at (js t) b));
               offset = jayess_std_uint8_clamped_index offset_value len 0;
               count = min (int (length (slots_at (js t) a))) (len - offset)
           in t\<lparr>js := move_loop (js t) b (nat offset) a [0..<nat count] (\<lambda>v. byte_slot (byte_of v))\<rparr>)
      | _ \<Rightarrow> t)"

fun within_loop :: "jayess_slots \<Rightarrow> nat \<Rightarrow> nat \<Rightarrow> nat list \<Rightarrow> jayess_slots" where
  "within_loop vs target start [] = vs"
| "within_loop vs target start (i # is) = within_loop (vs[target + i := vs ! (start + i)]) target start is"

definition jayess_std_uint8_copy_within_method ::
  "byte_state \<Rightarrow> jayess_value option \<Rightarrow> jayess_value option \<Rightarrow> jayess_value option \<Rightarrow> jayess_value option \<Rightarrow> byte_state" where
  "jayess_std_uint8_copy_within_method t env target_value start_value end_value =
     (case jayess_std_bytes_slot t env of
        None \<Rightarrow> t
      | Some b \<Rightarrow>
          (let vs = slots_at (js t) b; len = int (length vs);
               target = jayess_std_uint8_clamped_index target_value len 0;
               start = jayess_std_uint8_clamped_index start_value len 0;
               finish = jayess_std_uint8_clamped_index end_value len len;
               count = min ((if finish < start then start else finish) - start) (len - target)
           in if count \<le> 0 then t
              else t\<lparr>js := set_slots (js t) b
                      (within_loop vs (nat target) (nat start)
                         (if target < start then [0..<nat count] else rev [0..<nat count]))\<rparr>))"

definition new_bytes :: "byte_state \<Rightarrow> jayess_slots \<Rightarrow> jayess_value \<times> byte_state" where
  "new_bytes t vs =
     (let (buffer, t1) = jayess_std_array_buffer_new t (Some (number_result (int (length vs))));
          (view, t2) = jayess_std_typed_array_new t1 ''Uint8Array'' (Some buffer)
      in (view, case jayess_std_bytes_slot t2 (Some view) of
                  None \<Rightarrow> t2
                | Some b \<Rightarrow> t2\<lparr>js := set_slots (js t2) b (store_loop (slots_at (js t2) b) 0 vs)\<rparr>))"

definition jayess_std_uint8_array_from_bytes :: "byte_state \<Rightarrow> int list \<Rightarrow> jayess_value \<times> byte_state" where
  "jayess_std_uint8_array_from_bytes t bytes = new_bytes t (map (\<lambda>b. Some (number_result b)) bytes)"

definition jayess_std_uint8_slice_values ::
  "byte_state \<Rightarrow> jayess_value option \<Rightarrow> int \<Rightarrow> int \<Rightarrow> bool \<Rightarrow> jayess_value \<times> byte_state" where
  "jayess_std_uint8_slice_values t env start finish has_end =
     (case jayess_std_bytes_slot t env of
        None \<Rightarrow> jayess_std_typed_array_new t ''Uint8Array'' (Some (number_result 0))
      | Some b \<Rightarrow>
          (let vs = slots_at (js t) b; len = int (length vs);
               s1 = (if start < 0 then len + start else start);
               s2 = (if s1 < 0 then 0 else s1); lo = (if len < s2 then len else s2);
               e1 = (if has_end then if finish < 0 then len + finish else finish else len);
               e2 = (if e1 < 0 then 0 else e1); e3 = (if len < e2 then len else e2);
               hi = (if e3 < lo then lo else e3)
           in new_bytes t (take (nat (hi - lo)) (drop (nat lo) vs))))"

definition jayess_std_uint8_slice_method ::
  "byte_state \<Rightarrow> jayess_value option \<Rightarrow> jayess_value option \<Rightarrow> jayess_value option \<Rightarrow> jayess_value \<times> byte_state" where
  "jayess_std_uint8_slice_method t env start_value end_value =
     (let has_end = \<not> jayess_value_is_nullish end_value
      in jayess_std_uint8_slice_values t env (int_arg start_value) (if has_end then int_arg end_value else 0) has_end)"

definition jayess_std_uint8_concat_length :: "byte_state \<Rightarrow> jayess_value option \<Rightarrow> nat" where
  "jayess_std_uint8_concat_length t values = (\<Sum>v \<leftarrow> tail_slots (js t) values. length (bytes_of t v))"

definition jayess_std_uint8_array_concat :: "byte_state \<Rightarrow> jayess_value option \<Rightarrow> jayess_value \<times> byte_state" where
  "jayess_std_uint8_array_concat t values = new_bytes t (concat (map (bytes_of t) (tail_slots (js t) values)))"

definition jayess_std_uint8_array_equals :: "byte_state \<Rightarrow> jayess_value option \<Rightarrow> jayess_value option \<Rightarrow> bool" where
  "jayess_std_uint8_array_equals t left right \<longleftrightarrow>
     (case (jayess_std_bytes_slot t left, jayess_std_bytes_slot t right) of
        (Some l, Some r) \<Rightarrow> map byte_of (slots_at (js t) l) = map byte_of (slots_at (js t) r)
      | _ \<Rightarrow> False)"

fun compare_loop :: "int list \<Rightarrow> int list \<Rightarrow> int" where
  "compare_loop [] [] = 0"
| "compare_loop [] (y # ys) = -1"
| "compare_loop (x # xs) [] = 1"
| "compare_loop (x # xs) (y # ys) = (if x < y then -1 else if y < x then 1 else compare_loop xs ys)"

definition jayess_std_uint8_array_compare :: "byte_state \<Rightarrow> jayess_value option \<Rightarrow> jayess_value option \<Rightarrow> jayess_value" where
  "jayess_std_uint8_array_compare t left right =
     (case (jayess_std_bytes_slot t left, jayess_std_bytes_slot t right) of
        (Some l, Some r) \<Rightarrow> number_result (compare_loop (map byte_of (slots_at (js t) l)) (map byte_of (slots_at (js t) r)))
      | _ \<Rightarrow> number_result 0)"

definition jayess_std_uint8_concat_method ::
  "byte_state \<Rightarrow> jayess_value option \<Rightarrow> jayess_value option \<Rightarrow> jayess_value \<times> byte_state" where
  "jayess_std_uint8_concat_method t env values =
     (let (a, s1) = jayess_array_new (js t);
          s2 = foldl (\<lambda>s v. push_slot s a v) (push_slot s1 a env) (tail_slots s1 values)
      in jayess_std_uint8_array_concat (t\<lparr>js := s2\<rparr>) (Some (VArray a)))"

end
