(* ===== verification/Byte_Text.thy ===== *)
theory Byte_Text
  imports Byte_Methods
begin

unbundle bit_operations_syntax

text \<open>
  Bytes and texts: the encodings \<open>hex\<close>, \<open>base64\<close> and plain text of \<open>Uint8Array\<close>
  (\<open>jayess_std_uint8_to_string_method\<close> of \<open>jayess_runtime.c\<close>, \<open>jayess_std_uint8_array_from_string\<close> of
  \<open>jayess_runtime_typed_arrays.c\<close>, the names of the encodings in \<open>jayess_runtime_crypto.c\<close>), with the
  proof that decoding undoes encoding. A read past the terminating zero of a text is a \<open>fault\<close>.
\<close>

section \<open>Names of encodings\<close>

definition encoding_text :: "nat \<Rightarrow> jayess_state \<Rightarrow> jayess_value option \<Rightarrow> string option option" where
  "encoding_text d s encoding =
     (if jayess_value_is_nullish encoding then Some None else map_option Some (jayess_value_stringify d s encoding))"

definition jayess_std_bytes_encoding_is_hex :: "string option \<Rightarrow> bool" where
  "jayess_std_bytes_encoding_is_hex encoding \<longleftrightarrow> encoding = Some ''hex''"

definition jayess_std_bytes_encoding_is_base64 :: "string option \<Rightarrow> bool" where
  "jayess_std_bytes_encoding_is_base64 encoding \<longleftrightarrow> encoding = Some ''base64'' \<or> encoding = Some ''base-64''"

definition jayess_std_bytes_encoding_is_text :: "string option \<Rightarrow> bool" where
  "jayess_std_bytes_encoding_is_text encoding \<longleftrightarrow>
     (case encoding of None \<Rightarrow> True | Some t \<Rightarrow> t \<in> {''utf8'', ''utf-8'', ''text''})"

section \<open>Encoding\<close>

definition hex_digits :: string where
  "hex_digits = ''0123456789abcdef''"

text \<open>
  The code writes the digits of byte \<open>i\<close> at \<open>text[i * 2]\<close> and \<open>text[i * 2 + 1]\<close> with an \<open>int\<close> \<open>i\<close>: the indices do not
  overflow for fewer than \<open>2 ^ 30\<close> bytes, the bound of the property on encodings.
\<close>

fun hex_encode :: "int list \<Rightarrow> string" where
  "hex_encode [] = []"
| "hex_encode (b # bs) = hex_digits ! nat (drop_bit 4 b AND 15) # hex_digits ! nat (b AND 15) # hex_encode bs"

definition base64_digits :: string where
  "base64_digits = ''ABCDEFGHIJKLMNOPQRSTUVWXYZabcdefghijklmnopqrstuvwxyz0123456789+/''"

text \<open>Three bytes as four digits; \<open>n\<close> of the three bytes are there.\<close>

definition base64_quad :: "int \<Rightarrow> int \<Rightarrow> int \<Rightarrow> nat \<Rightarrow> string" where
  "base64_quad b0 b1 b2 n =
     (let triple = push_bit 16 b0 OR push_bit 8 b1 OR b2
      in [base64_digits ! nat (drop_bit 18 triple AND 63), base64_digits ! nat (drop_bit 12 triple AND 63),
          if 1 < n then base64_digits ! nat (drop_bit 6 triple AND 63) else CHR ''='',
          if 2 < n then base64_digits ! nat (triple AND 63) else CHR ''=''])"

fun base64_encode :: "int list \<Rightarrow> string" where
  "base64_encode [] = []"
| "base64_encode [b0] = base64_quad b0 0 0 1"
| "base64_encode [b0, b1] = base64_quad b0 b1 0 2"
| "base64_encode (b0 # b1 # b2 # bs) = base64_quad b0 b1 b2 3 @ base64_encode bs"

text \<open>A C string ends at its first zero.\<close>

definition c_text :: "string \<Rightarrow> string" where
  "c_text s = takeWhile (\<lambda>c. c \<noteq> CHR 0x00) s"

definition jayess_std_uint8_to_string_method ::
  "nat \<Rightarrow> byte_state \<Rightarrow> jayess_value option \<Rightarrow> jayess_value option \<Rightarrow> jayess_value option" where
  "jayess_std_uint8_to_string_method d t env encoding =
     (case jayess_std_bytes_slot t env of
        None \<Rightarrow> Some (VString [])
      | Some b \<Rightarrow>
          map_option (\<lambda>e.
            (let bytes = map byte_of (slots_at (js t) b)
             in if jayess_std_bytes_encoding_is_hex e then VString (hex_encode bytes)
                else if jayess_std_bytes_encoding_is_base64 e then VString (base64_encode bytes)
                else if jayess_std_bytes_encoding_is_text e
                then VString (c_text (map (\<lambda>b. char_of (nat b)) bytes))
                else VUndefined))
          (encoding_text d (js t) encoding))"

section \<open>Decoding\<close>

text \<open>Pairs of characters, each read by \<open>strtoul\<close>; a last single character is ignored.\<close>

fun hex_decode :: "string \<Rightarrow> int list" where
  "hex_decode (c # d # s) = int (fst (c_strtoul 16 [c, d]) mod 256) # hex_decode s"
| "hex_decode _ = []"

definition jayess_std_base64_decode_char :: "char \<Rightarrow> int" where
  "jayess_std_base64_decode_char ch =
     (if c_isupper ch then int (char_code ch) - 65
      else if c_islower ch then int (char_code ch) - 97 + 26
      else if c_isdigit ch then int (char_code ch) - 48 + 52
      else if ch = CHR ''+'' then 62
      else if ch = CHR ''/'' then 63 else -1)"

text \<open>
  Four digits, white space skipped: the values, whether there was padding, and the rest of the text.
  At the end of the text the terminating zero counts as padding; when more is needed, the code reads
  behind it.
\<close>

fun quad_loop :: "int list \<Rightarrow> bool \<Rightarrow> string \<Rightarrow> fault + (int list \<times> bool \<times> string)" where
  "quad_loop vals pad [] =
     (if 4 \<le> length vals then Inr (vals, pad, [])
      else if length vals = 3 then Inr (vals @ [-2], True, []) else Inl Out_of_bounds)"
| "quad_loop vals pad (ch # r) =
     (if 4 \<le> length vals then Inr (vals, pad, ch # r)
      else if ch = CHR ''='' then quad_loop (vals @ [-2]) True r
      else if ch \<in> {CHR '' '', CHR 0x0A, CHR 0x0D, CHR 0x09} then quad_loop vals pad r
      else quad_loop (vals @ [jayess_std_base64_decode_char ch]) pad r)"

definition quad_bytes :: "int list \<Rightarrow> int list" where
  "quad_bytes vals =
     (push_bit 2 (vals ! 0 AND 63) OR drop_bit 4 (vals ! 1 AND 48))
     # (if 0 \<le> vals ! 2
        then (push_bit 4 (vals ! 1 AND 15) OR drop_bit 2 (vals ! 2 AND 60))
             # (if 0 \<le> vals ! 3 then [push_bit 6 (vals ! 2 AND 3) OR (vals ! 3 AND 63)] else [])
        else [])"

lemma quad_loop_le: "quad_loop vals pad s = Inr (vals', pad', r) \<Longrightarrow> length r \<le> length s"
  by (induction vals pad s rule: quad_loop.induct) (auto split: if_splits)

lemma quad_loop_shorter:
  "quad_loop [] pad s = Inr (vals', pad', r) \<Longrightarrow> s \<noteq> [] \<Longrightarrow> length r < length s"
  by (cases s) (auto simp: less_Suc_eq_le split: if_splits dest!: quad_loop_le)

text \<open>All quads; a quad without two digits makes the result empty, padding ends the text.\<close>

function base64_loop :: "int list \<Rightarrow> string \<Rightarrow> fault + int list" where
  "base64_loop decoded s =
     (if s = [] then Inr decoded
      else (case quad_loop [] False s of
              Inl e \<Rightarrow> Inl e
            | Inr (vals, pad, r) \<Rightarrow>
                if vals ! 0 < 0 \<or> vals ! 1 < 0 then Inr []
                else if pad then Inr (decoded @ quad_bytes vals)
                else base64_loop (decoded @ quad_bytes vals) r))"
  by auto

termination base64_loop
  by (relation "measure (length \<circ> snd)") (auto dest: quad_loop_shorter)

declare base64_loop.simps [simp del]

definition base64_decode :: "string \<Rightarrow> fault + int list" where
  "base64_decode s = base64_loop [] s"

definition jayess_std_uint8_array_from_string ::
  "nat \<Rightarrow> byte_state \<Rightarrow> jayess_value option \<Rightarrow> jayess_value option \<Rightarrow> (fault + jayess_value \<times> byte_state) option" where
  "jayess_std_uint8_array_from_string d t source encoding =
     (case (jayess_value_stringify d (js t) source, encoding_text d (js t) encoding) of
        (Some text, Some e) \<Rightarrow>
          Some (if jayess_std_bytes_encoding_is_hex e then Inr (jayess_std_uint8_array_from_bytes t (hex_decode text))
                else if jayess_std_bytes_encoding_is_base64 e
                then (case base64_decode text of
                        Inl f \<Rightarrow> Inl f | Inr bytes \<Rightarrow> Inr (jayess_std_uint8_array_from_bytes t bytes))
                else Inr (jayess_std_uint8_array_from_bytes t (map (\<lambda>c. int (char_code c)) text)))
      | _ \<Rightarrow> None)"

section \<open>Decoding undoes encoding\<close>

lemma nibble_facts:
  assumes "n < 16"
  shows "c_isxdigit (hex_digits ! n)" and "hex_digit_val (hex_digits ! n) = n" and "\<not> c_isspace (hex_digits ! n)"
    and "hex_digits ! n \<notin> {CHR ''-'', CHR ''+'', CHR ''x'', CHR ''X''}"
proof -
  have "\<forall>n \<in> set [0..<16]. c_isxdigit (hex_digits ! n) \<and> hex_digit_val (hex_digits ! n) = n \<and> \<not> c_isspace (hex_digits ! n)
      \<and> hex_digits ! n \<notin> {CHR ''-'', CHR ''+'', CHR ''x'', CHR ''X''}"
    by code_simp
  then show "c_isxdigit (hex_digits ! n)" "hex_digit_val (hex_digits ! n) = n" "\<not> c_isspace (hex_digits ! n)"
    "hex_digits ! n \<notin> {CHR ''-'', CHR ''+'', CHR ''x'', CHR ''X''}" using assms by simp_all
qed

lemma strtoul_pair:
  assumes "m < 16" and "n < 16"
  shows "fst (c_strtoul 16 [hex_digits ! m, hex_digits ! n]) = 16 * m + n"
proof -
  have x: "c_isxdigit (hex_digits ! m)" "c_isxdigit (hex_digits ! n)" using nibble_facts(1) assms by simp_all
  have "scan_integer 16 [hex_digits ! m, hex_digits ! n] = Some (False, 16 * m + n, [])"
    using nibble_facts [OF assms(1)] nibble_facts [OF assms(2)] x
    by (auto simp: scan_integer_def strip_sign_def digit_in_def digits_val_def)
  with assms show ?thesis by (simp add: c_strtoul_def)
qed

text \<open>Masks and disjoint bits as arithmetic.\<close>

lemma and_mask: "(i :: int) AND 3 = i mod 4" "i AND 15 = i mod 16" "i AND 63 = i mod 64" "i AND 255 = i mod 256"
  using take_bit_eq_mask [of 2 i] take_bit_eq_mask [of 4 i] take_bit_eq_mask [of 6 i] take_bit_eq_mask [of 8 i]
  by (simp_all add: take_bit_eq_mod mask_eq_exp_minus_1)

lemma push_or: "0 \<le> y \<Longrightarrow> y < 2 ^ n \<Longrightarrow> push_bit n x OR y = x * 2 ^ n + (y :: int)"
  using concat_bit_eq [of n y x] concat_bit_def [of n y x]
  by (simp add: take_bit_int_eq_self push_bit_eq_mult or.commute)

lemma byte_nibbles:
  fixes b :: int
  assumes "0 \<le> b" and "b < 256"
  shows "drop_bit 4 b AND 15 = b div 16" and "b AND 15 = b mod 16"
proof -
  show "drop_bit 4 b AND 15 = b div 16" "b AND 15 = b mod 16"
    using assms by (simp_all add: and_mask drop_bit_eq_div)
qed

lemma hex_roundtrip: "list_all (\<lambda>b. 0 \<le> b \<and> b < 256) bs \<Longrightarrow> hex_decode (hex_encode bs) = bs"
proof (induction bs)
  case (Cons b bs)
  then have b: "0 \<le> b" "b < 256" by simp_all
  then have "nat (b div 16) < 16" "nat (b mod 16) < 16" by (simp_all add: nat_less_iff)
  note pair = strtoul_pair [OF this]
  have "16 * nat (b div 16) + nat (b mod 16) = nat b" using b by (simp add: nat_div_distrib nat_mod_distrib)
  moreover have "nat b mod 256 = nat b" using b by (simp add: nat_less_iff)
  ultimately show ?case using pair b Cons by (simp add: byte_nibbles)
qed simp


lemma base64_digit_facts:
  assumes "n < 64"
  shows "jayess_std_base64_decode_char (base64_digits ! n) = int n"
    and "base64_digits ! n \<notin> {CHR ''='', CHR '' '', CHR 0x0A, CHR 0x0D, CHR 0x09}"
proof -
  have "\<forall>n \<in> set [0..<64]. jayess_std_base64_decode_char (base64_digits ! n) = int n
      \<and> base64_digits ! n \<notin> {CHR ''='', CHR '' '', CHR 0x0A, CHR 0x0D, CHR 0x09}"
    by code_simp
  then show "jayess_std_base64_decode_char (base64_digits ! n) = int n"
    "base64_digits ! n \<notin> {CHR ''='', CHR '' '', CHR 0x0A, CHR 0x0D, CHR 0x09}" using assms by simp_all
qed

text \<open>The four values of three bytes.\<close>

lemma triple_digits:
  fixes b0 b1 b2 :: int
  assumes "0 \<le> b0" "b0 < 256" "0 \<le> b1" "b1 < 256" "0 \<le> b2" "b2 < 256"
  defines "triple \<equiv> push_bit 16 b0 OR push_bit 8 b1 OR b2"
  shows "drop_bit 18 triple AND 63 = b0 div 4" and "drop_bit 12 triple AND 63 = b0 mod 4 * 16 + b1 div 16"
    and "drop_bit 6 triple AND 63 = b1 mod 16 * 4 + b2 div 64" and "triple AND 63 = b2 mod 64"
proof -
  have low: "push_bit 8 b1 OR b2 = b1 * 256 + b2" using push_or [of b2 8 b1] assms by simp
  have t: "triple = b0 * 65536 + (b1 * 256 + b2)"
    using push_or [of "b1 * 256 + b2" 16 b0] assms by (simp add: triple_def low or.assoc)
  have 1: "(b0 * 65536 + (b1 * 256 + b2)) div 262144 = b0 div 4"
    and 2: "(b0 * 65536 + (b1 * 256 + b2)) div 4096 = b0 * 16 + b1 div 16"
    and 3: "(b0 * 65536 + (b1 * 256 + b2)) div 64 = b0 * 1024 + b1 * 4 + b2 div 64"
  proof -
    have d: "(b0 * 65536 + (b1 * 256 + b2)) div 256 = b0 * 256 + b1" using assms(5,6) by simp
    have "(b0 * 256 + b1) div 16 = b0 * 16 + b1 div 16" by simp
    with d show 2: "(b0 * 65536 + (b1 * 256 + b2)) div 4096 = b0 * 16 + b1 div 16"
      using zdiv_zmult2_eq [of 16 "b0 * 65536 + (b1 * 256 + b2)" 256] by simp
    have "(b0 * 256 + b1) div 256 = b0" using assms(3,4) by simp
    with d show "(b0 * 65536 + (b1 * 256 + b2)) div 262144 = b0 div 4"
      using zdiv_zmult2_eq [of 4 "b0 * 65536 + (b1 * 256 + b2)" "256 * 256"]
        zdiv_zmult2_eq [of 256 "b0 * 65536 + (b1 * 256 + b2)" 256] by simp
    have "b0 * 65536 + (b1 * 256 + b2) = b2 + (b0 * 1024 + b1 * 4) * 64" by simp
    then show "(b0 * 65536 + (b1 * 256 + b2)) div 64 = b0 * 1024 + b1 * 4 + b2 div 64" by simp
  qed
  show "drop_bit 18 triple AND 63 = b0 div 4"
    using 1 assms(1,2) by (simp add: t and_mask drop_bit_eq_div)
  show "drop_bit 12 triple AND 63 = b0 mod 4 * 16 + b1 div 16"
  proof -
    have "b0 * 16 + b1 div 16 = (b0 mod 4 * 16 + b1 div 16) + (b0 div 4) * 64"
      using div_mult_mod_eq [of b0 4] by linarith
    moreover have "0 \<le> b0 mod 4 * 16 + b1 div 16" "b0 mod 4 * 16 + b1 div 16 < 64"
      using assms(3,4) pos_mod_bound [of 4 b0] by simp_all
    ultimately have "(b0 * 16 + b1 div 16) mod 64 = b0 mod 4 * 16 + b1 div 16" by (metis mod_mult_self1 mod_pos_pos_trivial)
    with 2 show ?thesis by (simp add: t and_mask drop_bit_eq_div)
  qed
  show "drop_bit 6 triple AND 63 = b1 mod 16 * 4 + b2 div 64"
  proof -
    have "b0 * 1024 + b1 * 4 + b2 div 64 = (b1 mod 16 * 4 + b2 div 64) + (b0 * 16 + b1 div 16) * 64"
    proof -
      have "b1 * 4 = b1 mod 16 * 4 + b1 div 16 * 64" by presburger
      then show ?thesis by (simp add: distrib_right)
    qed
    moreover have "0 \<le> b1 mod 16 * 4 + b2 div 64" "b1 mod 16 * 4 + b2 div 64 < 64"
      using assms(5,6) pos_mod_bound [of 16 b1] by simp_all
    ultimately have "(b0 * 1024 + b1 * 4 + b2 div 64) mod 64 = b1 mod 16 * 4 + b2 div 64"
      by (metis mod_mult_self1 mod_pos_pos_trivial)
    with 3 show ?thesis by (simp add: t and_mask drop_bit_eq_div)
  qed
  show "triple AND 63 = b2 mod 64"
  proof -
    have "b0 * 65536 + (b1 * 256 + b2) = b2 + (b0 * 1024 + b1 * 4) * 64" by simp
    then have "(b0 * 65536 + (b1 * 256 + b2)) mod 64 = b2 mod 64" by (simp only: mod_mult_self1)
    then show ?thesis by (simp add: t and_mask)
  qed
qed

lemma quad_bytes_val:
  assumes "0 \<le> v0" "v0 < 64" "0 \<le> v1" "v1 < 64"
  shows "quad_bytes [v0, v1, v2, v3] =
     (v0 * 4 + v1 div 16)
     # (if 0 \<le> v2
        then (v1 mod 16 * 16 + v2 div 4 mod 16) # (if 0 \<le> v3 then [v2 mod 4 * 64 + v3 mod 64] else [])
        else [])"
proof -
  have "drop_bit 4 (v1 AND 48) = drop_bit 4 v1 AND 3" "drop_bit 2 (v2 AND 60) = drop_bit 2 v2 AND 15"
    by (simp_all add: drop_bit_and)
  moreover have "0 \<le> v1 div 16" "v1 div 16 < 4" using assms by simp_all
  ultimately show ?thesis
    using assms push_or [of "v1 div 16" 2 v0] push_or [of "v2 div 4 mod 16" 4 "v1 mod 16"] push_or [of "v3 mod 64" 6 "v2 mod 4"]
    by (simp add: quad_bytes_def and_mask drop_bit_eq_div numeral_eq_Suc)
qed


lemma quad_loop_digits:
  assumes "d0 < 64" "d1 < 64" "d2 < 64" "d3 < 64"
  shows "quad_loop [] False (base64_digits ! d0 # base64_digits ! d1 # base64_digits ! d2 # base64_digits ! d3 # r)
      = Inr ([int d0, int d1, int d2, int d3], False, r)"
    and "quad_loop [] False (base64_digits ! d0 # base64_digits ! d1 # base64_digits ! d2 # CHR ''='' # r)
      = Inr ([int d0, int d1, int d2, -2], True, r)"
    and "quad_loop [] False (base64_digits ! d0 # base64_digits ! d1 # CHR ''='' # CHR ''='' # r)
      = Inr ([int d0, int d1, -2, -2], True, r)"
  using base64_digit_facts [OF assms(1)] base64_digit_facts [OF assms(2)] base64_digit_facts [OF assms(3)]
    base64_digit_facts [OF assms(4)]
  by (cases r; simp)+

declare quad_loop.simps [simp del]

definition is_byte :: "int \<Rightarrow> bool" where
  "is_byte b \<longleftrightarrow> 0 \<le> b \<and> b < 256"

lemma quad_values:
  assumes "is_byte b0" "is_byte b1" "is_byte b2"
  shows "0 \<le> b0 div 4" "b0 div 4 < 64" "0 \<le> b0 mod 4 * 16 + b1 div 16" "b0 mod 4 * 16 + b1 div 16 < 64"
    "0 \<le> b1 mod 16 * 4 + b2 div 64" "b1 mod 16 * 4 + b2 div 64 < 64" "0 \<le> b2 mod 64" "b2 mod 64 < 64"
proof -
  have b: "0 \<le> b0" "b0 < 256" "0 \<le> b1" "b1 < 256" "0 \<le> b2" "b2 < 256" using assms by (auto simp: is_byte_def)
  then show "0 \<le> b0 div 4" "b0 div 4 < 64" "0 \<le> b0 mod 4 * 16 + b1 div 16" "b0 mod 4 * 16 + b1 div 16 < 64"
    "0 \<le> b1 mod 16 * 4 + b2 div 64" "b1 mod 16 * 4 + b2 div 64 < 64" "0 \<le> b2 mod 64" "b2 mod 64 < 64"
    using pos_mod_bound [of 4 b0] pos_mod_bound [of 16 b1] by simp_all
qed

lemma quad_loop_quad:
  assumes "is_byte b0" "is_byte b1" "is_byte b2"
  shows "quad_loop [] False (base64_quad b0 b1 b2 3 @ r)
      = Inr ([b0 div 4, b0 mod 4 * 16 + b1 div 16, b1 mod 16 * 4 + b2 div 64, b2 mod 64], False, r)"
    and "quad_loop [] False (base64_quad b0 b1 b2 2 @ r)
      = Inr ([b0 div 4, b0 mod 4 * 16 + b1 div 16, b1 mod 16 * 4 + b2 div 64, -2], True, r)"
    and "quad_loop [] False (base64_quad b0 b1 b2 1 @ r) = Inr ([b0 div 4, b0 mod 4 * 16 + b1 div 16, -2, -2], True, r)"
proof -
  note v = quad_values [OF assms]
  have small: "nat x < 64" if "0 \<le> x" and "x < 64" for x :: int using that by (simp add: nat_less_iff)
  note n = small [OF v(1,2)] small [OF v(3,4)] small [OF v(5,6)] small [OF v(7,8)]
  have b: "0 \<le> b0" "b0 < 256" "0 \<le> b1" "b1 < 256" "0 \<le> b2" "b2 < 256" using assms by (auto simp: is_byte_def)
  note t = triple_digits [OF b]
  have "base64_quad b0 b1 b2 k = [base64_digits ! nat (b0 div 4), base64_digits ! nat (b0 mod 4 * 16 + b1 div 16),
      if 1 < k then base64_digits ! nat (b1 mod 16 * 4 + b2 div 64) else CHR ''='',
      if 2 < k then base64_digits ! nat (b2 mod 64) else CHR ''='']" for k
    unfolding base64_quad_def Let_def t by (rule refl)
  then have q: "base64_quad b0 b1 b2 3 @ r = base64_digits ! nat (b0 div 4) # base64_digits ! nat (b0 mod 4 * 16 + b1 div 16)
        # base64_digits ! nat (b1 mod 16 * 4 + b2 div 64) # base64_digits ! nat (b2 mod 64) # r"
    "base64_quad b0 b1 b2 2 @ r = base64_digits ! nat (b0 div 4) # base64_digits ! nat (b0 mod 4 * 16 + b1 div 16)
        # base64_digits ! nat (b1 mod 16 * 4 + b2 div 64) # CHR ''='' # r"
    "base64_quad b0 b1 b2 1 @ r = base64_digits ! nat (b0 div 4) # base64_digits ! nat (b0 mod 4 * 16 + b1 div 16)
        # CHR ''='' # CHR ''='' # r" by simp_all
  have i: "int (nat (b0 div 4)) = b0 div 4" "int (nat (b0 mod 4 * 16 + b1 div 16)) = b0 mod 4 * 16 + b1 div 16"
    "int (nat (b1 mod 16 * 4 + b2 div 64)) = b1 mod 16 * 4 + b2 div 64" "int (nat (b2 mod 64)) = b2 mod 64"
    by (rule int_nat_eq [THEN trans, OF if_P], rule v)+
  show "quad_loop [] False (base64_quad b0 b1 b2 3 @ r)
      = Inr ([b0 div 4, b0 mod 4 * 16 + b1 div 16, b1 mod 16 * 4 + b2 div 64, b2 mod 64], False, r)"
    "quad_loop [] False (base64_quad b0 b1 b2 2 @ r)
      = Inr ([b0 div 4, b0 mod 4 * 16 + b1 div 16, b1 mod 16 * 4 + b2 div 64, -2], True, r)"
    "quad_loop [] False (base64_quad b0 b1 b2 1 @ r) = Inr ([b0 div 4, b0 mod 4 * 16 + b1 div 16, -2, -2], True, r)"
    unfolding q quad_loop_digits [OF n] i by (rule refl)+
qed

lemma quad_bytes_quad:
  assumes "is_byte b0" "is_byte b1" "is_byte b2"
  shows "quad_bytes [b0 div 4, b0 mod 4 * 16 + b1 div 16, b1 mod 16 * 4 + b2 div 64, b2 mod 64] = [b0, b1, b2]"
    and "quad_bytes [b0 div 4, b0 mod 4 * 16 + b1 div 16, b1 mod 16 * 4 + b2 div 64, -2] = [b0, b1]"
    and "quad_bytes [b0 div 4, b0 mod 4 * 16 + b1 div 16, -2, -2] = [b0]"
proof -
  note v = quad_values [OF assms]
  note val = quad_bytes_val [OF v(1-4)]
  have b1: "b1 div 16 < 16" "0 \<le> b1 div 16" and b2: "b2 div 64 < 4" "0 \<le> b2 div 64"
    using assms by (auto simp: is_byte_def)
  have part: "(x * n + y) div n = x" "(x * n + y) mod n = y" if "0 \<le> y" and "y < n" for x y n :: int
    using that by simp_all
  have 0: "b0 div 4 * 4 + (b0 mod 4 * 16 + b1 div 16) div 16 = b0"
    unfolding part(1) [OF b1(2,1)] by (rule div_mult_mod_eq)
  have "(b1 mod 16 * 4 + b2 div 64) div 4 mod 16 = b1 mod 16"
    unfolding part(1) [OF b2(2,1)] by (rule mod_mod_trivial)
  then have 1: "(b0 mod 4 * 16 + b1 div 16) mod 16 * 16 + (b1 mod 16 * 4 + b2 div 64) div 4 mod 16 = b1"
    unfolding part(2) [OF b1(2,1)] by (simp only: div_mult_mod_eq)
  have 2: "(b1 mod 16 * 4 + b2 div 64) mod 4 * 64 + b2 mod 64 mod 64 = b2"
    unfolding part(2) [OF b2(2,1)] mod_mod_trivial by (rule div_mult_mod_eq)
  have neg: "(0 \<le> (-2 :: int)) = False" by simp
  show "quad_bytes [b0 div 4, b0 mod 4 * 16 + b1 div 16, b1 mod 16 * 4 + b2 div 64, b2 mod 64] = [b0, b1, b2]"
    "quad_bytes [b0 div 4, b0 mod 4 * 16 + b1 div 16, b1 mod 16 * 4 + b2 div 64, -2] = [b0, b1]"
    "quad_bytes [b0 div 4, b0 mod 4 * 16 + b1 div 16, -2, -2] = [b0]"
    using v(5,7) by (simp_all only: val 0 1 2 neg if_True if_False)
qed

lemma base64_quad_nonempty: "base64_quad b0 b1 b2 n \<noteq> []"
  by (simp add: base64_quad_def Let_def)

lemma base64_loop_encode: "list_all is_byte bs \<Longrightarrow> base64_loop acc (base64_encode bs) = Inr (acc @ bs)"
proof (induction bs arbitrary: acc rule: base64_encode.induct)
  case (2 b0)
  then have b: "is_byte b0" "is_byte 0" by (simp_all add: is_byte_def)
  show ?case
    using quad_loop_quad(3) [OF b b(2), of "[]"] quad_bytes_quad(3) [OF b b(2)] quad_values(1,3) [OF b b(2)]
    by (subst base64_loop.simps) (simp add: base64_quad_nonempty)
next
  case (3 b0 b1)
  then have b: "is_byte b0" "is_byte b1" "is_byte 0" by (simp_all add: is_byte_def)
  show ?case
    using quad_loop_quad(2) [OF b, of "[]"] quad_bytes_quad(2) [OF b] quad_values(1,3) [OF b]
    by (subst base64_loop.simps) (simp add: base64_quad_nonempty)
next
  case (4 b0 b1 b2 bs)
  then have b: "is_byte b0" "is_byte b1" "is_byte b2" by simp_all
  show ?case
    using quad_loop_quad(1) [OF b, of "base64_encode bs"] quad_bytes_quad(1) [OF b] quad_values(1,3) [OF b] 4
    by (subst base64_loop.simps) (simp add: base64_quad_nonempty)
qed (simp add: base64_loop.simps)

end
