(* ===== verification/Url_Text.thy ===== *)
theory Url_Text
  imports Byte_Text
begin

unbundle bit_operations_syntax

text \<open>
  Percent encoding, query strings and URLs (\<open>jayess_runtime_network.c\<close>). A decoded text is a C string:
  it ends at the first zero that decoding produced.
\<close>

section \<open>Percent encoding\<close>

definition jayess_hex_value :: "char \<Rightarrow> int" where
  "jayess_hex_value ch =
     (if c_isdigit ch then int (char_code ch) - 48
      else if in_range 97 102 ch then int (char_code ch) - 97 + 10
      else if in_range 65 70 ch then int (char_code ch) - 65 + 10
      else -1)"

definition plus_as_space :: "char \<Rightarrow> char" where
  "plus_as_space c = (if c = CHR ''+'' then CHR '' '' else c)"

fun percent_decode_loop :: "string \<Rightarrow> string" where
  "percent_decode_loop [] = []"
| "percent_decode_loop (c # h # l # r) =
     (if c = CHR ''%'' \<and> 0 \<le> jayess_hex_value h \<and> 0 \<le> jayess_hex_value l
      then char_of (nat (push_bit 4 (jayess_hex_value h) OR jayess_hex_value l)) # percent_decode_loop r
      else plus_as_space c # percent_decode_loop (h # l # r))"
| "percent_decode_loop (c # r) = plus_as_space c # percent_decode_loop r"

definition jayess_percent_decode :: "string \<Rightarrow> string" where
  "jayess_percent_decode s = c_text (percent_decode_loop s)"

definition jayess_url_should_encode :: "char \<Rightarrow> bool" where
  "jayess_url_should_encode ch \<longleftrightarrow> \<not> (c_isalnum ch \<or> ch \<in> {CHR ''-'', CHR ''_'', CHR ''.'', CHR ''~''})"

definition upper_hex :: string where
  "upper_hex = ''0123456789ABCDEF''"

definition encode_char :: "char \<Rightarrow> string" where
  "encode_char c =
     (if jayess_url_should_encode c
      then [CHR ''%'', upper_hex ! (char_code c div 16), upper_hex ! (char_code c mod 16)] else [c])"

definition jayess_percent_encode :: "string \<Rightarrow> string" where
  "jayess_percent_encode s = concat (map encode_char s)"

section \<open>Query strings\<close>

text \<open>One part of the text, without its separator; a part without a key is dropped.\<close>

definition query_part :: "jayess_state \<Rightarrow> nat \<Rightarrow> string \<Rightarrow> jayess_state" where
  "query_part s a part =
     (let key = jayess_percent_decode (takeWhile (\<lambda>c. c \<noteq> CHR ''='') part);
          val = jayess_percent_decode (tl (dropWhile (\<lambda>c. c \<noteq> CHR ''='') part))
      in if key = [] then s else object_set s a key (VString val))"

function query_parse_loop :: "jayess_state \<Rightarrow> nat \<Rightarrow> string \<Rightarrow> jayess_state" where
  "query_parse_loop s a cursor =
     (if cursor = [] then s
      else query_parse_loop (query_part s a (takeWhile (\<lambda>c. c \<noteq> CHR ''&'') cursor)) a
             (tl (dropWhile (\<lambda>c. c \<noteq> CHR ''&'') cursor)))"
  by auto

lemma length_tl_dropWhile: "s \<noteq> [] \<Longrightarrow> length (tl (dropWhile P s)) < length s"
  using length_dropWhile_le [of P s] length_greater_0_conv [of s] unfolding length_tl by linarith

termination query_parse_loop
  by (relation "measure (\<lambda>(s, a, cursor). length cursor)") (auto simp: length_tl_dropWhile simp del: length_tl)

declare query_parse_loop.simps [simp del]

definition query_parse_text :: "jayess_state \<Rightarrow> string \<Rightarrow> jayess_value \<times> jayess_state" where
  "query_parse_text s t = (let (a, s1) = jayess_object_new s in (VObject a, query_parse_loop s1 a t))"

definition jayess_std_querystring_parse ::
  "nat \<Rightarrow> jayess_state \<Rightarrow> jayess_value option \<Rightarrow> (jayess_value \<times> jayess_state) option" where
  "jayess_std_querystring_parse d s input = map_option (query_parse_text s) (jayess_value_stringify d s input)"

definition query_entry :: "nat \<Rightarrow> jayess_state \<Rightarrow> jayess_object_entry \<Rightarrow> string option" where
  "query_entry d s e =
     map_option (\<lambda>t. jayess_percent_encode (case entry_key e of Some k \<Rightarrow> k | None \<Rightarrow> []) @ ''='' @ jayess_percent_encode t)
       (jayess_value_stringify d s (entry_value e))"

definition jayess_std_querystring_stringify :: "nat \<Rightarrow> jayess_state \<Rightarrow> jayess_value option \<Rightarrow> string option" where
  "jayess_std_querystring_stringify d s parts =
     (case jayess_value_as_object parts of
        None \<Rightarrow> Some []
      | Some a \<Rightarrow> map_option (join ''&'') (those_map (query_entry d s) (entries_at s a)))"

section \<open>URLs\<close>

text \<open>
  The first \<open>n\<close> characters, \<open>n\<close> being a difference of two pointers that is converted to \<open>size_t\<close>. For
  \<open>-1\<close> the size of the copy wraps to zero, nothing is allocated and \<open>memcpy\<close> is asked for \<open>SIZE_MAX\<close> bytes; for
  less the allocation fails and the function answers the empty text.
\<close>

definition jayess_substring :: "string \<Rightarrow> int \<Rightarrow> fault + string" where
  "jayess_substring s n =
     (if n = -1 then Inl Out_of_bounds
      else if n < -1 then Inr []
      else if n \<le> int (length s) then Inr (take (nat n) s)
      else Inl Out_of_bounds)"

record url_parts =
  url_protocol :: string
  url_host :: string
  url_pathname :: string
  url_query :: string
  url_hash :: string

text \<open>The smaller of a position and one that may be missing.\<close>

definition before :: "nat option \<Rightarrow> nat \<Rightarrow> nat" where
  "before p n = (case p of Some k \<Rightarrow> if k < n then k else n | None \<Rightarrow> n)"

text \<open>Host, path, query and fragment of what follows the scheme; all positions count from its start.\<close>

definition url_parse_rest :: "string \<Rightarrow> string \<Rightarrow> fault + url_parts" where
  "url_parse_rest protocol t =
     (let path_start = strchr t (CHR ''/''); query_start = strchr t (CHR ''?''); hash_start = strchr t (CHR ''#'');
          host_end = before hash_start (before query_start (before path_start (length t)));
          path_end = before hash_start (before query_start (length t));
          query_end = (case hash_start of Some n \<Rightarrow> n | None \<Rightarrow> length t);
          sub = (\<lambda>start stop. jayess_substring (drop start t) (int stop - int start))
      in case (case path_start of None \<Rightarrow> Inr [] | Some p \<Rightarrow> sub p path_end) of
           Inl f \<Rightarrow> Inl f
         | Inr pathname \<Rightarrow>
             (case (case query_start of None \<Rightarrow> Inr [] | Some q \<Rightarrow> sub (q + 1) query_end) of
                Inl f \<Rightarrow> Inl f
              | Inr query \<Rightarrow>
                  Inr \<lparr>url_protocol = protocol,
                       url_host = take host_end t, url_pathname = pathname, url_query = query,
                       url_hash = (case hash_start of Some n \<Rightarrow> drop n t | None \<Rightarrow> [])\<rparr>))"

definition url_parse_text :: "string \<Rightarrow> fault + url_parts" where
  "url_parse_text v =
     (case strstr v ''://'' of
        Some n \<Rightarrow> url_parse_rest (take (n + 1) v) (drop (n + 3) v)
      | None \<Rightarrow> url_parse_rest [] v)"

definition jayess_std_url_parse ::
  "nat \<Rightarrow> jayess_state \<Rightarrow> jayess_value option \<Rightarrow> (fault + jayess_value \<times> jayess_state) option" where
  "jayess_std_url_parse d s input =
     map_option (\<lambda>v.
       (case url_parse_text v of
          Inl f \<Rightarrow> Inl f
        | Inr u \<Rightarrow>
            (let (a, s1) = jayess_object_new s;
                 s2 = object_set s1 a ''href'' (VString v);
                 s3 = object_set s2 a ''protocol'' (VString (url_protocol u));
                 s4 = object_set s3 a ''host'' (VString (url_host u));
                 s5 = object_set s4 a ''pathname'' (VString (url_pathname u));
                 s6 = object_set s5 a ''query'' (VString (url_query u));
                 s7 = object_set s6 a ''hash'' (VString (url_hash u));
                 (q, s8) = query_parse_text s7 (url_query u)
             in Inr (VObject a, object_set s8 a ''queryObject'' q))))
     (jayess_value_stringify d s input)"

definition url_format_texts :: "url_parts \<Rightarrow> string" where
  "url_format_texts u =
     (if url_protocol u = [] then []
      else url_protocol u @ (if strstr (url_protocol u) ''://'' = None then ''//'' else []))
     @ url_host u @ url_pathname u
     @ (if url_query u = [] then [] else ''?'' @ url_query u)
     @ (if url_hash u = [] then [] else (if hd (url_hash u) \<noteq> CHR ''#'' then ''#'' else []) @ url_hash u)"

definition jayess_std_url_format :: "jayess_state \<Rightarrow> jayess_value option \<Rightarrow> string" where
  "jayess_std_url_format s parts =
     (let part = (\<lambda>k. case jayess_value_as_object parts of Some a \<Rightarrow> jayess_value_as_string (object_get s a k) | None \<Rightarrow> [])
      in url_format_texts \<lparr>url_protocol = part ''protocol'', url_host = part ''host'', url_pathname = part ''pathname'',
                           url_query = part ''query'', url_hash = part ''hash''\<rparr>)"

text \<open>Host and port of an authority: split at the last colon.\<close>

definition c_atoi :: "string \<Rightarrow> int" where
  "c_atoi s = sint (word_of_int (fst (c_strtol s)) :: u32)"

definition jayess_http_split_host_port :: "string \<Rightarrow> int \<Rightarrow> string \<times> int" where
  "jayess_http_split_host_port v default_port =
     (if CHR '':'' \<in> set v
      then (let after = rev (takeWhile (\<lambda>c. c \<noteq> CHR '':'') (rev v)); port = c_atoi after
            in (take (length v - length after - 1) v, if 0 < port then port else default_port))
      else (v, default_port))"

end
