(* ===== verification/Http_Text.thy ===== *)
theory Http_Text
  imports Url_Text
begin

text \<open>
  HTTP messages as texts (\<open>jayess_runtime_network.c\<close>): lines, headers, the chunked transfer coding, parsing
  and formatting of requests and responses. Reads and writes outside a buffer, and reads of freed memory, are faults.
\<close>

section \<open>Results\<close>

text \<open>
  \<open>None\<close> is a conversion to text that does not return, \<open>Inl\<close> a fault.
\<close>

type_synonym 'a run = "(fault + 'a) option"

definition and_then :: "'a run \<Rightarrow> ('a \<Rightarrow> 'b run) \<Rightarrow> 'b run" where
  "and_then r f = (case r of None \<Rightarrow> None | Some (Inl e) \<Rightarrow> Some (Inl e) | Some (Inr x) \<Rightarrow> f x)"

definition value_text :: "nat \<Rightarrow> jayess_state \<Rightarrow> jayess_value option \<Rightarrow> string run" where
  "value_text d s v = map_option Inr (jayess_value_stringify d s v)"

lemma and_then_simps [simp]: "and_then (Some (Inr x)) f = f x" "and_then (Some (Inl e)) f = Some (Inl e)" "and_then None f = None"
  by (simp_all add: and_then_def)

section \<open>Lines\<close>

definition CRLF :: string where
  "CRLF = [CHR 0x0D, CHR 0x0A]"

definition line_char :: "char \<Rightarrow> bool" where
  "line_char c \<longleftrightarrow> c \<noteq> CHR 0x0D \<and> c \<noteq> CHR 0x0A"

definition jayess_http_trim_copy :: "string \<Rightarrow> string" where
  "jayess_http_trim_copy s = rev (dropWhile c_isspace (rev (dropWhile c_isspace s)))"

text \<open>The text from the end of the first line on, and the text behind a line end.\<close>

definition jayess_http_line_end :: "string \<Rightarrow> string" where
  "jayess_http_line_end s = dropWhile line_char s"

definition jayess_http_next_line :: "string \<Rightarrow> string" where
  "jayess_http_next_line s =
     (case s of
        [] \<Rightarrow> []
      | c # r \<Rightarrow> if prefix CRLF s then drop 2 s else if \<not> line_char c then r else s)"

fun jayess_http_header_boundary :: "string \<Rightarrow> nat option" where
  "jayess_http_header_boundary [] = None"
| "jayess_http_header_boundary (c # r) =
     (if prefix (CRLF @ CRLF) (c # r) \<or> prefix [CHR 0x0A, CHR 0x0A] (c # r) then Some 0
      else map_option Suc (jayess_http_header_boundary r))"

text \<open>The body behind a boundary.\<close>

definition after_boundary :: "string \<Rightarrow> string" where
  "after_boundary s = (if prefix CRLF s then drop 4 s else drop 2 s)"

section \<open>Headers\<close>

definition header_line :: "jayess_state \<Rightarrow> nat \<Rightarrow> string \<Rightarrow> jayess_state" where
  "header_line s a line =
     (if CHR '':'' \<in> set line
      then (let key = jayess_http_trim_copy (takeWhile (\<lambda>c. c \<noteq> CHR '':'') line);
                val = jayess_http_trim_copy (tl (dropWhile (\<lambda>c. c \<noteq> CHR '':'') line))
            in if key = [] then s else object_set s a key (VString val))
      else s)"

function header_loop :: "jayess_state \<Rightarrow> nat \<Rightarrow> string \<Rightarrow> jayess_state" where
  "header_loop s a cursor =
     (if cursor = [] then s
      else header_loop (header_line s a (takeWhile line_char cursor)) a
             (jayess_http_next_line (jayess_http_line_end cursor)))"
  by auto

lemma next_line_shorter:
  assumes "s \<noteq> []"
  shows "length (jayess_http_next_line (jayess_http_line_end s)) < length s"
proof (cases "dropWhile line_char s")
  case Nil
  show ?thesis unfolding jayess_http_line_end_def jayess_http_next_line_def Nil using assms by simp
next
  case (Cons c r)
  then have "\<not> line_char c" using hd_dropWhile [of line_char s] by simp
  then have "length (jayess_http_next_line (c # r)) \<le> length r"
    by (auto simp: jayess_http_next_line_def)
  moreover have "length (c # r) \<le> length s" using length_dropWhile_le [of line_char s] Cons by simp
  ultimately show ?thesis by (simp add: jayess_http_line_end_def Cons)
qed

termination header_loop
  by (relation "measure (\<lambda>(s, a, cursor). length cursor)") (auto simp: next_line_shorter)

declare header_loop.simps [simp del]

definition jayess_http_parse_header_object :: "jayess_state \<Rightarrow> string \<Rightarrow> nat \<times> jayess_state" where
  "jayess_http_parse_header_object s t = (let (a, s1) = jayess_object_new s in (a, header_loop s1 a t))"

definition lower_prefix :: "string \<Rightarrow> string \<Rightarrow> bool" where
  "lower_prefix token s \<longleftrightarrow> prefix (map c_tolower token) (map c_tolower s)"

fun contains_loop :: "string \<Rightarrow> string \<Rightarrow> bool" where
  "contains_loop token [] = False"
| "contains_loop token (c # r) = (lower_prefix token (c # r) \<or> contains_loop token r)"

definition jayess_http_text_contains_ci :: "string \<Rightarrow> string \<Rightarrow> bool" where
  "jayess_http_text_contains_ci s token \<longleftrightarrow> token \<noteq> [] \<and> contains_loop token s"

definition jayess_http_text_eq_ci :: "string \<Rightarrow> string \<Rightarrow> bool" where
  "jayess_http_text_eq_ci l r \<longleftrightarrow> map c_tolower l = map c_tolower r"

definition jayess_http_is_redirect_status :: "int \<Rightarrow> bool" where
  "jayess_http_is_redirect_status status \<longleftrightarrow> status \<in> {301, 302, 303, 307, 308}"

text \<open>The value of the first entry with the key; no object has no entries.\<close>

fun header_find :: "string \<Rightarrow> jayess_entries \<Rightarrow> jayess_value option" where
  "header_find key [] = None"
| "header_find key (e # es) =
     (case entry_key e of
        Some k \<Rightarrow> if jayess_http_text_eq_ci k key then entry_value e else header_find key es
      | None \<Rightarrow> header_find key es)"

definition jayess_http_header_get_ci :: "jayess_state \<Rightarrow> nat option \<Rightarrow> string \<Rightarrow> jayess_value option" where
  "jayess_http_header_get_ci s headers key =
     (case headers of None \<Rightarrow> None | Some a \<Rightarrow> header_find key (entries_at s a))"

definition jayess_http_header_value_contains_ci ::
  "nat \<Rightarrow> jayess_state \<Rightarrow> nat option \<Rightarrow> string \<Rightarrow> string \<Rightarrow> bool option" where
  "jayess_http_header_value_contains_ci d s headers key needle =
     (case jayess_http_header_get_ci s headers key of
        None \<Rightarrow> Some False
      | Some v \<Rightarrow> map_option (\<lambda>t. jayess_http_text_contains_ci t needle) (jayess_value_stringify d s (Some v)))"

definition jayess_http_headers_transfer_chunked :: "nat \<Rightarrow> jayess_state \<Rightarrow> nat option \<Rightarrow> bool option" where
  "jayess_http_headers_transfer_chunked d s headers =
     jayess_http_header_value_contains_ci d s headers ''Transfer-Encoding'' ''chunked''"

definition length_of_text :: "string \<Rightarrow> int" where
  "length_of_text t =
     (let trimmed = jayess_http_trim_copy t; (n, r) = c_strtol trimmed
      in if trimmed = [] \<or> r = trimmed \<or> r \<noteq> [] \<or> n < 0 then -1 else n)"

definition jayess_http_headers_content_length :: "nat \<Rightarrow> jayess_state \<Rightarrow> nat option \<Rightarrow> int option" where
  "jayess_http_headers_content_length d s headers =
     (case jayess_http_header_get_ci s headers ''Content-Length'' of
        None \<Rightarrow> Some (-1)
      | Some v \<Rightarrow> map_option length_of_text (jayess_value_stringify d s (Some v)))"

definition header_text :: "nat \<Rightarrow> jayess_state \<Rightarrow> jayess_object_entry \<Rightarrow> string option" where
  "header_text d s e =
     map_option (\<lambda>t. (case entry_key e of Some k \<Rightarrow> k | None \<Rightarrow> []) @ '': '' @ t @ CRLF) (jayess_value_stringify d s (entry_value e))"

definition jayess_http_format_header_lines :: "nat \<Rightarrow> jayess_state \<Rightarrow> nat option \<Rightarrow> string option" where
  "jayess_http_format_header_lines d s headers =
     (case headers of None \<Rightarrow> Some [] | Some a \<Rightarrow> map_option concat (those_map (header_text d s) (entries_at s a)))"

section \<open>The chunked transfer coding\<close>

text \<open>The size of a chunk, from the text before a semicolon.\<close>

definition chunk_size_text :: "string \<Rightarrow> string" where
  "chunk_size_text line = jayess_http_trim_copy (takeWhile (\<lambda>c. c \<noteq> CHR '';'') line)"

text \<open>The rest behind the line end of a chunk; a text that goes on without one is \<open>None\<close>.\<close>

definition after_chunk :: "string \<Rightarrow> string option" where
  "after_chunk s =
     (if prefix CRLF s then Some (drop 2 s)
      else (case s of [] \<Rightarrow> Some [] | c # r \<Rightarrow> if c = CHR 0x0A then Some r else None))"

text \<open>\<open>None\<close>: the text is not in this coding, and is taken as it is.\<close>

function decode_loop :: "string \<Rightarrow> string \<Rightarrow> string option" where
  "decode_loop out cursor =
     (let line = takeWhile line_char cursor;
          (n, r) = c_strtoul 16 (chunk_size_text line);
          body = jayess_http_next_line (jayess_http_line_end cursor)
      in if cursor = [] \<or> line = [] then Some out
         else if chunk_size_text line = [] \<or> r = chunk_size_text line \<or> r \<noteq> [] then None
         else if n = 0 then Some out
         else if length body < n then None
         else (case after_chunk (drop n body) of
                 None \<Rightarrow> None | Some cursor' \<Rightarrow> decode_loop (out @ take n body) cursor'))"
  by auto

lemma after_chunk_le: "after_chunk s = Some t \<Longrightarrow> length t \<le> length s"
  by (auto simp: after_chunk_def split: if_splits list.splits)

termination decode_loop
proof (relation "measure (\<lambda>(out, cursor). length cursor)", simp)
  fix out cursor :: string and line p n r body cursor'
  assume body: "body = jayess_http_next_line (jayess_http_line_end cursor)"
    and c: "\<not> (cursor = [] \<or> line = [])" and step: "after_chunk (drop n body) = Some cursor'"
  have "length cursor' \<le> length body" using after_chunk_le [OF step] by simp
  also have "\<dots> < length cursor" using c next_line_shorter [of cursor] by (simp add: body)
  finally show "((out @ take n body, cursor'), out, cursor) \<in> measure (\<lambda>(out, cursor). length cursor)" by simp
qed

declare decode_loop.simps [simp del]

definition jayess_http_decode_chunked_body :: "string \<Rightarrow> string" where
  "jayess_http_decode_chunked_body body = (case decode_loop [] body of None \<Rightarrow> body | Some t \<Rightarrow> t)"

text \<open>
  Whether a body received so far is complete. The code frees the text of the first size before it looks at the
  character where the number ends: from there on the answer depends on freed memory.
\<close>

definition jayess_http_chunked_body_complete :: "string \<Rightarrow> fault + bool" where
  "jayess_http_chunked_body_complete body =
     (let line = takeWhile line_char body
      in if line = body then Inr False
         else if jayess_http_trim_copy (c_text (takeWhile (\<lambda>c. c \<noteq> CHR '';'') line)) = [] then Inr False
         else Inl Out_of_bounds)"

section \<open>Messages\<close>

text \<open>The parts behind the first line: header text and body.\<close>

definition split_message :: "string \<Rightarrow> string \<times> string" where
  "split_message v =
     (let start = jayess_http_next_line (jayess_http_line_end v)
      in case jayess_http_header_boundary start of
           None \<Rightarrow> ([], [])
         | Some n \<Rightarrow> (take n start, after_boundary (drop n start)))"

definition not_space :: "char \<Rightarrow> bool" where
  "not_space c \<longleftrightarrow> c \<noteq> CHR '' ''"

definition parse_request_text :: "jayess_state \<Rightarrow> string \<Rightarrow> jayess_value \<times> jayess_state" where
  "parse_request_text s v =
     (let line = takeWhile line_char v;
          r1 = dropWhile not_space line;
          r2 = dropWhile not_space (tl r1)
      in if line = [] \<or> r1 = [] \<or> r2 = [] then (VUndefined, s)
         else (let (headers_text, body) = split_message v;
                   (a, s1) = jayess_object_new s;
                   s2 = object_set s1 a ''method'' (VString (takeWhile not_space line));
                   s3 = object_set s2 a ''path'' (VString (takeWhile not_space (tl r1)));
                   s4 = object_set s3 a ''version'' (VString (tl r2));
                   (h, s5) = jayess_http_parse_header_object s4 headers_text;
                   s6 = object_set s5 a ''headers'' (VObject h)
               in (VObject a, object_set s6 a ''body'' (VString body))))"

definition jayess_std_http_parse_request ::
  "nat \<Rightarrow> jayess_state \<Rightarrow> jayess_value option \<Rightarrow> (jayess_value \<times> jayess_state) option" where
  "jayess_std_http_parse_request d s input = map_option (parse_request_text s) (jayess_value_stringify d s input)"

text \<open>
  A message from its three words, header lines and body. The buffer has room for eight characters more than
  the five texts as they were given; an empty word is replaced by a text that was not counted.
\<close>

definition or_else :: "string \<Rightarrow> string \<Rightarrow> string" where
  "or_else t alternative = (if t = [] then alternative else t)"

definition into_buffer :: "nat \<Rightarrow> string \<Rightarrow> fault + string" where
  "into_buffer room t = (if length t + 1 \<le> room then Inr t else Inl Out_of_bounds)"

definition message_text :: "string \<Rightarrow> string \<Rightarrow> string \<Rightarrow> string \<Rightarrow> string \<Rightarrow> string" where
  "message_text w1 w2 w3 headers_text body = w1 @ '' '' @ w2 @ '' '' @ w3 @ CRLF @ headers_text @ CRLF @ body"

definition format_request_texts :: "string \<Rightarrow> string \<Rightarrow> string \<Rightarrow> string \<Rightarrow> string \<Rightarrow> fault + string" where
  "format_request_texts method path version headers_text body =
     into_buffer (length method + length path + length version + length headers_text + length body + 8)
       (message_text (or_else method ''GET'') (or_else path ''/'') (or_else version ''HTTP/1.1'') headers_text body)"

definition format_response_texts :: "string \<Rightarrow> string \<Rightarrow> string \<Rightarrow> string \<Rightarrow> string \<Rightarrow> fault + string" where
  "format_response_texts version status reason headers_text body =
     into_buffer (length version + length status + length reason + length headers_text + length body + 8)
       (message_text (or_else version ''HTTP/1.1'') (or_else status ''200'') reason headers_text body)"

definition headers_of :: "jayess_state \<Rightarrow> nat \<Rightarrow> nat option" where
  "headers_of s a = jayess_value_as_object (object_get s a ''headers'')"

definition jayess_std_http_format_request :: "nat \<Rightarrow> jayess_state \<Rightarrow> jayess_value option \<Rightarrow> string run" where
  "jayess_std_http_format_request d s parts =
     (case jayess_value_as_object parts of
        None \<Rightarrow> Some (format_request_texts ''GET'' ''/'' ''HTTP/1.1'' [] [])
      | Some a \<Rightarrow>
          (case (those_map (\<lambda>k. jayess_value_stringify d s (object_get s a k)) [''method'', ''path'', ''version'', ''body''],
                 jayess_http_format_header_lines d s (headers_of s a)) of
             (Some [method, path, version, body], Some lines) \<Rightarrow> Some (format_request_texts method path version lines body)
           | _ \<Rightarrow> None))"

definition jayess_std_http_format_response :: "nat \<Rightarrow> jayess_state \<Rightarrow> jayess_value option \<Rightarrow> string run" where
  "jayess_std_http_format_response d s parts =
     (case jayess_value_as_object parts of
        None \<Rightarrow> Some (format_response_texts ''HTTP/1.1'' ''200'' ''OK'' [] [])
      | Some a \<Rightarrow>
          (case (those_map (\<lambda>k. jayess_value_stringify d s (object_get s a k)) [''version'', ''reason'', ''status'', ''body''],
                 jayess_http_format_header_lines d s (headers_of s a)) of
             (Some [version, reason, status, body], Some lines) \<Rightarrow> Some (format_response_texts version status reason lines body)
           | _ \<Rightarrow> None))"

text \<open>\<open>x >= 200.0 && x < 300.0\<close>\<close>

definition status_ok :: "double \<Rightarrow> bool" where
  "status_ok x \<longleftrightarrow> (dbl_less (dbl_of_int 200) x \<or> dbl_eq x (dbl_of_int 200)) \<and> dbl_less x (dbl_of_int 300)"

text \<open>The text is in the state that the body bytes, a \<open>Uint8Array\<close>, are made in.\<close>

definition parse_response_text :: "nat \<Rightarrow> byte_state \<Rightarrow> string \<Rightarrow> (jayess_value \<times> byte_state) option" where
  "parse_response_text d t v =
     (let line = takeWhile line_char v;
          r1 = dropWhile not_space line;
          r2 = dropWhile not_space (tl r1);
          (headers_text, body) = split_message v
      in if line = [] \<or> r1 = [] then Some (VUndefined, t)
         else (let (h, s1) = jayess_http_parse_header_object (js t) headers_text
               in map_option (\<lambda>chunked.
                    (let decoded = (if chunked then jayess_http_decode_chunked_body body else body);
                         status = fst (strtod (takeWhile not_space (tl r1)));
                         (a, s2) = jayess_object_new s1;
                         s3 = object_set s2 a ''version'' (VString (takeWhile not_space line));
                         s4 = object_set s3 a ''status'' (jayess_value_from_number status);
                         s5 = object_set s4 a ''reason'' (VString (tl r2));
                         s6 = object_set s5 a ''statusText'' (VString (tl r2));
                         s7 = object_set s6 a ''ok'' (VBool (status_ok status));
                         s8 = object_set s7 a ''headers'' (VObject h);
                         s9 = object_set s8 a ''body'' (VString decoded);
                         (view, t1) = jayess_std_uint8_array_from_bytes (t\<lparr>js := s9\<rparr>) (map (\<lambda>c. int (char_code c)) decoded)
                     in (VObject a, t1\<lparr>js := object_set (js t1) a ''bodyBytes'' view\<rparr>)))
                  (jayess_http_headers_transfer_chunked d s1 (Some h))))"

definition jayess_std_http_parse_response ::
  "nat \<Rightarrow> byte_state \<Rightarrow> jayess_value option \<Rightarrow> (jayess_value \<times> byte_state) option" where
  "jayess_std_http_parse_response d t input =
     (case jayess_value_stringify d (js t) input of None \<Rightarrow> None | Some v \<Rightarrow> parse_response_text d t v)"

section \<open>Requests of the client\<close>

definition url_text_of :: "string \<Rightarrow> string \<Rightarrow> string \<Rightarrow> int \<Rightarrow> string" where
  "url_text_of scheme host path port =
     (let default_port = (if scheme = ''https'' then 443 else 80)
      in scheme @ ''://'' @ host @ (if 0 < port \<and> port \<noteq> default_port then '':'' @ text_of_int port else [])
         @ or_else path ''/'')"

definition jayess_http_request_current_url :: "nat \<Rightarrow> jayess_state \<Rightarrow> nat \<Rightarrow> string option" where
  "jayess_http_request_current_url d s a =
     map_option (\<lambda>ts.
       (case ts of
          [scheme, host, path] \<Rightarrow>
            if host = [] then []
            else url_text_of (or_else scheme ''http'') host path (c_int (jayess_value_to_number (object_get s a ''port'')))
        | _ \<Rightarrow> []))
     (those_map (\<lambda>k. jayess_value_stringify d s (object_get s a k)) [''scheme'', ''host'', ''path''])"

definition jayess_http_request_object_from_url_value ::
  "nat \<Rightarrow> jayess_state \<Rightarrow> jayess_value option \<Rightarrow> string \<Rightarrow> (nat \<times> jayess_state) run" where
  "jayess_http_request_object_from_url_value d s input default_method =
     and_then (jayess_std_url_parse d s input) (\<lambda>(u, s1).
       (let p = (\<lambda>k. case u of VObject a \<Rightarrow> jayess_value_as_string (object_get s1 a k) | _ \<Rightarrow> []);
            secure = (p ''protocol'' = ''https:'');
            (host, port) = jayess_http_split_host_port (p ''host'') (if secure then 443 else 80);
            (a, s2) = jayess_object_new s1;
            s3 = object_set s2 a ''method'' (VString (or_else default_method ''GET''));
            s4 = object_set s3 a ''path'' (VString (or_else (p ''pathname'') ''/''
                   @ (if p ''query'' = [] then [] else ''?'' @ p ''query'')));
            s5 = object_set s4 a ''scheme'' (VString (if secure then ''https'' else ''http''));
            s6 = object_set s5 a ''version'' (VString ''HTTP/1.1'');
            (h, s7) = jayess_object_new s6;
            s8 = object_set s7 a ''headers'' (VObject h);
            s9 = object_set s8 a ''body'' (VString []);
            s10 = object_set s9 a ''host'' (VString host)
        in Some (Inr (a, object_set s10 a ''port'' (jayess_value_from_number (dbl_of_int port))))))"

definition set_missing :: "jayess_state \<Rightarrow> nat \<Rightarrow> string \<Rightarrow> string \<Rightarrow> jayess_state" where
  "set_missing s h key t = (if jayess_http_header_get_ci s (Some h) key = None then object_set s h key (VString t) else s)"

text \<open>The headers object, made when there is none.\<close>

definition ensure_headers :: "jayess_state \<Rightarrow> nat \<Rightarrow> nat \<times> jayess_state" where
  "ensure_headers s a =
     (case headers_of s a of
        Some h \<Rightarrow> (h, s)
      | None \<Rightarrow> (let (h, s1) = jayess_object_new s in (h, object_set s1 a ''headers'' (VObject h))))"

definition jayess_http_prepare_request_headers :: "nat \<Rightarrow> jayess_state \<Rightarrow> nat \<Rightarrow> string \<Rightarrow> jayess_state option" where
  "jayess_http_prepare_request_headers d s a host =
     (let (h, s1) = ensure_headers s a;
          s2 = set_missing s1 h ''Host'' host;
          s3 = set_missing s2 h ''Connection'' ''close''
      in case jayess_http_headers_transfer_chunked d s3 (Some h) of
           None \<Rightarrow> None
         | Some chunked \<Rightarrow>
             if jayess_http_header_get_ci s3 (Some h) ''Content-Length'' \<noteq> None \<or> chunked then Some s3
             else map_option (\<lambda>body. if body = [] then s3
                    else object_set s3 h ''Content-Length'' (VString (dec (length body mod 2 ^ 32))))
                    (jayess_value_stringify d s3 (object_get s3 a ''body'')))"

definition jayess_http_request_wants_keep_alive :: "nat \<Rightarrow> jayess_state \<Rightarrow> jayess_value option \<Rightarrow> bool option" where
  "jayess_http_request_wants_keep_alive d s request =
     (case jayess_value_as_object request of
        None \<Rightarrow> Some False
      | Some a \<Rightarrow>
          (case jayess_http_header_value_contains_ci d s (headers_of s a) ''Connection'' ''close'' of
             None \<Rightarrow> None
           | Some True \<Rightarrow> Some False
           | Some False \<Rightarrow>
               if jayess_value_as_string (object_get s a ''version'') = ''HTTP/1.1'' then Some True
               else jayess_http_header_value_contains_ci d s (headers_of s a) ''Connection'' ''keep-alive''))"

end
