(* ===== verification/Sockets.thy ===== *)
theory Sockets
  imports Http_Text
begin

text \<open>
  The writing side of a socket (\<open>jayess_runtime_network.c\<close>, \<open>jayess_runtime_streams.c\<close>): the properties of
  the socket object a write changes, what has gone out, and the events that were emitted (what listeners do with them
  is not modelled, nor is TLS). What one call of \<open>send\<close> does is a parameter of the model.
\<close>

datatype socket_event = Ev_Drain | Ev_Error string | Ev_Close

record socket =
  sent :: string
  handle_open :: bool
  closed :: bool
  high_mark :: double
  writable_length :: double
  need_drain :: bool
  bytes_written :: double
  errored :: bool
  close_emitted :: bool
  events :: "socket_event list"

text \<open>
  \<open>send\<close> takes a number of characters, at most those it was given, or times out, or fails. It may depend on what has
  gone out before.
\<close>

datatype send_result = Sent nat | Timed_Out | Failed

type_synonym network = "string \<Rightarrow> string \<Rightarrow> send_result"

section \<open>Backpressure\<close>

definition jayess_std_stream_high_water_mark :: "socket \<Rightarrow> double" where
  "jayess_std_stream_high_water_mark k =
     (if dbl_less (high_mark k) 0 \<or> dbl_eq (high_mark k) 0 then dbl_of_int 4096 else high_mark k)"

definition jayess_std_stream_set_writable_length :: "socket \<Rightarrow> double \<Rightarrow> socket" where
  "jayess_std_stream_set_writable_length k x = k\<lparr>writable_length := (if dbl_less x 0 then 0 else x)\<rparr>"

definition jayess_std_stream_backpressure_note_pending :: "socket \<Rightarrow> double \<Rightarrow> bool \<times> socket" where
  "jayess_std_stream_backpressure_note_pending k pending =
     (let k1 = jayess_std_stream_set_writable_length k pending
      in if dbl_less (jayess_std_stream_high_water_mark k) pending then (False, k1\<lparr>need_drain := True\<rparr>) else (True, k1))"

text \<open>The event is recorded; its listeners are called by \<open>jayess_std_stream_emit\<close> (theory \<open>Listeners\<close>).\<close>

definition note_event :: "socket \<Rightarrow> socket_event \<Rightarrow> socket" where
  "note_event k e = k\<lparr>events := events k @ [e]\<rparr>"

definition jayess_std_stream_backpressure_maybe_drain :: "socket \<Rightarrow> double \<Rightarrow> socket" where
  "jayess_std_stream_backpressure_maybe_drain k pending =
     (let k1 = jayess_std_stream_set_writable_length k pending
      in if need_drain k \<and> (dbl_less pending (jayess_std_stream_high_water_mark k) \<or> dbl_eq pending (jayess_std_stream_high_water_mark k))
         then note_event (k1\<lparr>need_drain := False\<rparr>) Ev_Drain else k1)"

definition jayess_std_stream_emit_error :: "socket \<Rightarrow> string \<Rightarrow> socket" where
  "jayess_std_stream_emit_error k message = note_event (k\<lparr>errored := True\<rparr>) (Ev_Error message)"

section \<open>Writing and closing\<close>

text \<open>
  The loop around \<open>send\<close>, which is given the next characters, at most \<open>limit\<close> of them. The code casts their number to \<open>int\<close>;
  the cast is exact for texts of fewer than \<open>2 ^ 31\<close> characters, the bound of the properties on sending.
\<close>

function write_loop :: "network \<Rightarrow> nat \<Rightarrow> socket \<Rightarrow> string \<Rightarrow> bool \<times> socket" where
  "write_loop net limit k rest =
     (if rest = [] \<or> limit = 0 then (True, k)
      else (case net (sent k) (take limit rest) of
              Sent n \<Rightarrow>
                (let m = min n (length (take limit rest))
                 in if m = 0 then (False, jayess_std_stream_emit_error k ''failed to write to socket'')
                    else write_loop net limit
                           (k\<lparr>sent := sent k @ take m rest, bytes_written := dbl_add (bytes_written k) (dbl_of_int (int m))\<rparr>)
                           (drop m rest))
            | Timed_Out \<Rightarrow> (False, jayess_std_stream_emit_error k ''socket write timed out'')
            | Failed \<Rightarrow> (False, jayess_std_stream_emit_error k ''failed to write to socket'')))"
  by pat_completeness auto

termination write_loop
  by (relation "measure (\<lambda>(net, limit, k, rest). length rest)") auto

declare write_loop.simps [simp del]

definition jayess_std_socket_mark_closed :: "socket \<Rightarrow> socket" where
  "jayess_std_socket_mark_closed k = k\<lparr>closed := True\<rparr>"

definition jayess_std_socket_emit_close :: "socket \<Rightarrow> socket" where
  "jayess_std_socket_emit_close k =
     (if close_emitted k then k else note_event (k\<lparr>close_emitted := True\<rparr>) Ev_Close)"

definition jayess_std_socket_close_method :: "socket \<Rightarrow> socket" where
  "jayess_std_socket_close_method k = jayess_std_socket_emit_close (jayess_std_socket_mark_closed (k\<lparr>handle_open := False\<rparr>))"

text \<open>A write: the answer of the backpressure test, unless something was not sent.\<close>

definition socket_write :: "network \<Rightarrow> nat \<Rightarrow> socket \<Rightarrow> string \<Rightarrow> bool \<times> socket" where
  "socket_write net limit k t =
     (let (write_ok, k1) = jayess_std_stream_backpressure_note_pending k (dbl_of_int (int (length t)));
          (all_sent, k2) = write_loop net limit k1 t
      in if all_sent then (write_ok, jayess_std_stream_backpressure_maybe_drain k2 0) else (False, k2))"

definition jayess_std_socket_write_method ::
  "network \<Rightarrow> nat \<Rightarrow> byte_state \<Rightarrow> socket \<Rightarrow> jayess_value option \<Rightarrow> (bool \<times> socket) option" where
  "jayess_std_socket_write_method net d t k v =
     (if \<not> handle_open k then Some (False, jayess_std_socket_mark_closed k)
      else if jayess_std_kind_is (js t) v ''Uint8Array''
      then Some (case jayess_std_bytes_slot t v of
                   None \<Rightarrow> (False, k)
                 | Some b \<Rightarrow> socket_write net 1024 k (map (\<lambda>w. char_of (nat (byte_of w))) (slots_at (js t) b)))
      else map_option (\<lambda>u. socket_write net (length u) k u) (jayess_value_stringify d (js t) v))"

text \<open>A socket that was just accepted.\<close>

definition jayess_std_socket_value_from_handle :: socket where
  "jayess_std_socket_value_from_handle =
     \<lparr>sent = [], handle_open = True, closed = False, high_mark = dbl_of_int 4096, writable_length = 0, need_drain = False,
      bytes_written = 0, errored = False, close_emitted = False, events = []\<rparr>"

section \<open>What a write does\<close>

text \<open>A network that always takes something.\<close>

definition progress :: "network \<Rightarrow> bool" where
  "progress net \<longleftrightarrow> (\<forall>s t. t = [] \<or> (\<exists>n. net s t = Sent (Suc n)))"

text \<open>What a write leaves as it was.\<close>

definition same_socket :: "socket \<Rightarrow> socket \<Rightarrow> bool" where
  "same_socket k k' \<longleftrightarrow> handle_open k' = handle_open k \<and> high_mark k' = high_mark k \<and> closed k' = closed k
     \<and> errored k' = errored k \<and> close_emitted k' = close_emitted k"

lemma write_loop_sends:
  assumes "progress net" and "0 < limit"
  shows "\<exists>k'. write_loop net limit k t = (True, k') \<and> sent k' = sent k @ t \<and> same_socket k k'"
proof (induction t arbitrary: k rule: length_induct)
  case (1 t)
  show ?case
  proof (cases "t = []")
    case True
    then show ?thesis by (simp add: write_loop.simps same_socket_def)
  next
    case False
    then have "take limit t \<noteq> []" using assms(2) by simp
    then obtain n where n: "net (sent k) (take limit t) = Sent (Suc n)" using assms(1) unfolding progress_def by blast
    define m where "m = min (Suc n) (length (take limit t))"
    have m: "0 < m" using False assms(2) by (simp add: m_def)
    let ?k = "k\<lparr>sent := sent k @ take m t, bytes_written := dbl_add (bytes_written k) (dbl_of_int (int m))\<rparr>"
    have "length (drop m t) < length t" using m False by simp
    then obtain k' where k': "write_loop net limit ?k (drop m t) = (True, k')" "sent k' = sent ?k @ drop m t" "same_socket ?k k'"
      using 1 by blast
    have "write_loop net limit k t = write_loop net limit ?k (drop m t)"
      using False assms(2) m n by (subst write_loop.simps) (simp add: Let_def m_def [symmetric] del: length_take)
    then show ?thesis using k' by (simp add: same_socket_def)
  qed
qed

lemma note_pending_facts:
  "sent (snd (jayess_std_stream_backpressure_note_pending k x)) = sent k"
  "same_socket k (snd (jayess_std_stream_backpressure_note_pending k x))"
  "fst (jayess_std_stream_backpressure_note_pending k x) \<longleftrightarrow> \<not> dbl_less (jayess_std_stream_high_water_mark k) x"
  by (simp_all add: jayess_std_stream_backpressure_note_pending_def jayess_std_stream_set_writable_length_def same_socket_def Let_def)

lemma maybe_drain_facts:
  "sent (jayess_std_stream_backpressure_maybe_drain k x) = sent k"
  "same_socket k (jayess_std_stream_backpressure_maybe_drain k x)"
  by (simp_all add: jayess_std_stream_backpressure_maybe_drain_def jayess_std_stream_set_writable_length_def
      note_event_def same_socket_def Let_def)

lemma same_socket_trans: "same_socket a b \<Longrightarrow> same_socket b c \<Longrightarrow> same_socket a c"
  by (simp add: same_socket_def)

lemma socket_write_sends:
  assumes "progress net" and "t = [] \<or> 0 < limit"
  shows "\<exists>k'. socket_write net limit k t = (\<not> dbl_less (jayess_std_stream_high_water_mark k) (dbl_of_int (int (length t))), k')
    \<and> sent k' = sent k @ t \<and> same_socket k k'"
proof -
  obtain ok k1 where k1: "jayess_std_stream_backpressure_note_pending k (dbl_of_int (int (length t))) = (ok, k1)" by fastforce
  note note_pending_facts [of k "dbl_of_int (int (length t))", unfolded k1 fst_conv snd_conv]
  moreover obtain k2 where k2: "write_loop net limit k1 t = (True, k2)" "sent k2 = sent k1 @ t" "same_socket k1 k2"
  proof (cases "t = []")
    case True
    then show thesis using that [of k1] by (simp add: write_loop.simps same_socket_def)
  next
    case False
    then show thesis using write_loop_sends [OF assms(1), of limit k1 t] assms(2) that by blast
  qed
  ultimately show ?thesis
    using maybe_drain_facts [of k2 0] by (auto simp: socket_write_def k1 dest: same_socket_trans)
qed

end
