(* ===== verification/Http_Server.thy ===== *)
theory Http_Server
  imports Sockets
begin

text \<open>
  The responses of the HTTP server (\<open>jayess_runtime_network.c\<close>): setting headers, writing and ending, on a
  socket. A write of the socket answers false also when everything was sent but the text was longer than the
  high-water mark.
\<close>

record http_response =
  heap :: byte_state
  sock :: socket
  headers_sent :: bool
  finished :: bool
  keep_alive :: bool
  chunked :: bool

definition with_js :: "http_response \<Rightarrow> jayess_state \<Rightarrow> http_response" where
  "with_js r s = r\<lparr>heap := (heap r)\<lparr>js := s\<rparr>\<rparr>"

text \<open>Writing to the socket of the response; texts of the runtime itself are never byte views.\<close>

definition response_socket_write ::
  "network \<Rightarrow> nat \<Rightarrow> http_response \<Rightarrow> jayess_value option \<Rightarrow> (bool \<times> http_response) run" where
  "response_socket_write net d r v =
     map_option (\<lambda>(ok, k). Inr (ok, r\<lparr>sock := k\<rparr>)) (jayess_std_socket_write_method net d (heap r) (sock r) v)"

definition send_text :: "network \<Rightarrow> http_response \<Rightarrow> string \<Rightarrow> bool \<times> http_response" where
  "send_text net r t =
     (if \<not> handle_open (sock r) then (False, r\<lparr>sock := jayess_std_socket_mark_closed (sock r)\<rparr>)
      else (let (ok, k) = socket_write net (length t) (sock r) t in (ok, r\<lparr>sock := k\<rparr>)))"

lemma response_socket_write_text: "response_socket_write net (Suc d) r (Some (VString t)) = Some (Inr (send_text net r t))"
  by (cases "handle_open (sock r)"; cases "socket_write net (length t) (sock r) t")
    (simp_all add: response_socket_write_def send_text_def jayess_std_socket_write_method_def jayess_std_kind_is_def
      object_kind_def stringify_Suc_simp)

section \<open>Headers\<close>

text \<open>The message is cut behind the first empty line.\<close>

definition header_part :: "string \<Rightarrow> string" where
  "header_part t = (case strstr t (CRLF @ CRLF) of Some n \<Rightarrow> take (n + 4) t | None \<Rightarrow> t)"

text \<open>The object that is formatted, at \<open>m\<close>.\<close>

definition header_message :: "jayess_state \<Rightarrow> nat \<Rightarrow> nat \<Rightarrow> jayess_value option \<Rightarrow> jayess_state" where
  "header_message s m h status =
     (let s1 = object_set s m ''version'' (VString ''HTTP/1.1'');
          s2 = object_set s1 m ''status'' (case status of Some v \<Rightarrow> v | None \<Rightarrow> jayess_value_from_number (dbl_of_int 200));
          s3 = object_set s2 m ''reason'' (VString ''OK'');
          s4 = object_set s3 m ''headers'' (VObject h)
      in object_set s4 m ''body'' (VString []))"

definition no_length :: "jayess_state \<Rightarrow> nat \<Rightarrow> bool" where
  "no_length s h \<longleftrightarrow> jayess_http_header_get_ci s (Some h) ''Content-Length'' = None"

definition jayess_std_http_response_send_headers ::
  "network \<Rightarrow> nat \<Rightarrow> nat \<Rightarrow> http_response \<Rightarrow> (bool \<times> http_response) run" where
  "jayess_std_http_response_send_headers net d a r =
     (if headers_sent r then Some (Inr (True, r))
      else
        (let s = js (heap r);
             (m, s1) = jayess_object_new s;
             (h, s2) = ensure_headers s1 a;
             s3 = set_missing s2 h ''Connection'' (if keep_alive r then ''keep-alive'' else ''close'')
         in case jayess_http_headers_transfer_chunked d s3 (Some h) of
              None \<Rightarrow> None
            | Some already \<Rightarrow>
                (let s4 = (if no_length s3 h \<and> \<not> already then object_set s3 h ''Transfer-Encoding'' (VString ''chunked'') else s3)
                 in case jayess_http_headers_transfer_chunked d s4 (Some h) of
                      None \<Rightarrow> None
                    | Some coded \<Rightarrow>
                        (let s5 = header_message s4 m h (object_get s a ''statusCode'')
                         in and_then (jayess_std_http_format_response d s5 (Some (VObject m))) (\<lambda>t.
                              (let (ok, r1) = send_text net ((with_js r s5)\<lparr>chunked := coded\<rparr>) (header_part t)
                               in Some (Inr (ok, if ok then r1\<lparr>headers_sent := True\<rparr> else r1))))))))"

definition jayess_std_http_response_set_header_method ::
  "nat \<Rightarrow> nat \<Rightarrow> http_response \<Rightarrow> jayess_value option \<Rightarrow> jayess_value option \<Rightarrow> http_response option" where
  "jayess_std_http_response_set_header_method d a r name v =
     (let (h, s1) = ensure_headers (js (heap r)) a
      in map_option (\<lambda>key. with_js r (if key = [] then s1 else object_set s1 h key (value_or_undefined v)))
           (jayess_value_stringify d s1 name))"

section \<open>Writing and ending\<close>

text \<open>Texts sent one after the other, up to the first whose write answers false.\<close>

fun write_texts :: "network \<Rightarrow> http_response \<Rightarrow> string list \<Rightarrow> bool \<times> http_response" where
  "write_texts net r [] = (True, r)"
| "write_texts net r (t # ts) =
     (let (ok, r1) = send_text net r t in if ok then write_texts net r1 ts else (False, r1))"

text \<open>\<open>printf("%zx", n)\<close>.\<close>

fun hex_text :: "nat \<Rightarrow> string" where
  "hex_text n = (if n < 16 then [hex_digits ! n] else hex_text (n div 16) @ [hex_digits ! (n mod 16)])"

declare hex_text.simps [simp del]

definition jayess_std_http_response_write_method ::
  "network \<Rightarrow> nat \<Rightarrow> nat \<Rightarrow> http_response \<Rightarrow> jayess_value option \<Rightarrow> (bool \<times> http_response) run" where
  "jayess_std_http_response_write_method net d a r chunk =
     (if finished r then Some (Inr (False, r))
      else and_then (jayess_std_http_response_send_headers net d a r) (\<lambda>(ok, r1).
        (let v = (case chunk of Some w \<Rightarrow> Some w | None \<Rightarrow> Some (VString []))
         in if \<not> ok then Some (Inr (False, r1))
            else if \<not> chunked r1 then response_socket_write net d r1 v
            else and_then (value_text d (js (heap r1)) v) (\<lambda>t.
                   Some (Inr (if t = [] then (True, r1) else write_texts net r1 [hex_text (length t) @ CRLF, t, CRLF]))))))"

definition absent :: "jayess_value option \<Rightarrow> bool" where
  "absent v \<longleftrightarrow> v = None \<or> v = Some VUndefined \<or> v = Some VNull"

text \<open>The length of a single chunk becomes a header.\<close>

definition note_length :: "nat \<Rightarrow> nat \<Rightarrow> http_response \<Rightarrow> jayess_value option \<Rightarrow> http_response option" where
  "note_length d a r chunk =
     (if headers_sent r \<or> absent chunk then Some r
      else (let (h, s1) = ensure_headers (js (heap r)) a
            in if \<not> no_length s1 h then Some (with_js r s1)
               else (case jayess_http_headers_transfer_chunked d s1 (Some h) of
                       None \<Rightarrow> None
                     | Some True \<Rightarrow> Some (with_js r s1)
                     | Some False \<Rightarrow>
                         map_option (\<lambda>t. with_js r (object_set s1 h ''Content-Length'' (VString (dec (length t)))))
                           (jayess_value_stringify d s1 chunk))))"

definition finish_response :: "network \<Rightarrow> nat \<Rightarrow> http_response \<Rightarrow> http_response" where
  "finish_response net a r =
     (let r1 = (with_js r (object_set (js (heap r)) a ''finished'' (VBool True)))\<lparr>finished := True\<rparr>;
          (ok, r2) = (if chunked r1 then send_text net r1 (''0'' @ CRLF @ CRLF) else (True, r1))
      in if ok \<and> \<not> keep_alive r2 then r2\<lparr>sock := jayess_std_socket_close_method (sock r2)\<rparr> else r2)"

definition jayess_std_http_response_end_method ::
  "network \<Rightarrow> nat \<Rightarrow> nat \<Rightarrow> http_response \<Rightarrow> jayess_value option \<Rightarrow> http_response run" where
  "jayess_std_http_response_end_method net d a r chunk =
     (if finished r then Some (Inr r)
      else (case note_length d a r chunk of
              None \<Rightarrow> None
            | Some r1 \<Rightarrow>
                and_then (if absent chunk then jayess_std_http_response_send_headers net d a r1
                          else jayess_std_http_response_write_method net d a r1 chunk)
                  (\<lambda>(ok, r2). Some (Inr (if ok then finish_response net a r2 else r2)))))"

section \<open>One request\<close>

text \<open>What a handler does with its response.\<close>

datatype response_op =
    Op_Set_Header "jayess_value option" "jayess_value option"
  | Op_Write "jayess_value option"
  | Op_End "jayess_value option"

fun response_step :: "network \<Rightarrow> nat \<Rightarrow> nat \<Rightarrow> response_op \<Rightarrow> http_response \<Rightarrow> http_response run" where
  "response_step net d a (Op_Set_Header k v) r = map_option Inr (jayess_std_http_response_set_header_method d a r k v)"
| "response_step net d a (Op_Write v) r =
     and_then (jayess_std_http_response_write_method net d a r v) (\<lambda>(ok, r1). Some (Inr r1))"
| "response_step net d a (Op_End v) r = jayess_std_http_response_end_method net d a r v"

fun response_steps :: "network \<Rightarrow> nat \<Rightarrow> nat \<Rightarrow> response_op list \<Rightarrow> http_response \<Rightarrow> http_response run" where
  "response_steps net d a [] r = Some (Inr r)"
| "response_steps net d a (x # xs) r = and_then (response_step net d a x r) (response_steps net d a xs)"

text \<open>
  The response object of a request on a socket (without its three methods, which are the operations above), and what
  the server does with it around the handler.
\<close>

definition new_response :: "byte_state \<Rightarrow> socket \<Rightarrow> bool \<Rightarrow> nat \<times> http_response" where
  "new_response t k keep =
     (let (a, s1) = jayess_object_new (js t);
          s2 = object_set s1 a ''statusCode'' (jayess_value_from_number (dbl_of_int 200));
          (h, s3) = jayess_object_new s2;
          s4 = object_set s3 a ''headers'' (VObject h);
          s5 = object_set s4 a ''finished'' (VBool False)
      in (a, \<lparr>heap = t\<lparr>js := s5\<rparr>, sock = k, headers_sent = False, finished = False, keep_alive = keep, chunked = False\<rparr>))"

definition serve_request :: "network \<Rightarrow> nat \<Rightarrow> byte_state \<Rightarrow> socket \<Rightarrow> bool \<Rightarrow> response_op list \<Rightarrow> http_response run" where
  "serve_request net d t k keep ops =
     (let (a, r) = new_response t k keep
      in and_then (response_steps net d a ops r) (\<lambda>r1. jayess_std_http_response_end_method net d a r1 (Some VUndefined)))"

end
