(* ===== verification/Url_Correct.thy ===== *)
theory Url_Correct
  imports Url_Text State_Correct
begin

unbundle bit_operations_syntax

text \<open>
  Percent encoding and query strings read back; where parsing a URL leaves its text.
\<close>

section \<open>Texts cut at separators\<close>

text \<open>
  A loop that handles one piece of a text after the other, a piece ending at the next separator, goes through
  the pieces of a text that was put together with that separator.
\<close>

locale split_loop =
  fixes loop :: "'s \<Rightarrow> string \<Rightarrow> 's" and step :: "'s \<Rightarrow> string \<Rightarrow> 's" and sep :: string and clean :: "string \<Rightarrow> bool"
  assumes loop_end: "loop s [] = s"
    and loop_last: "clean t \<Longrightarrow> t \<noteq> [] \<Longrightarrow> loop s t = step s t"
    and loop_more: "clean t \<Longrightarrow> loop s (t @ sep @ r) = loop (step s t) r"
begin

lemma loop_terminated: "list_all clean ts \<Longrightarrow> loop s (concat (map (\<lambda>t. t @ sep) ts)) = foldl step s ts"
  by (induction ts arbitrary: s) (simp_all add: loop_end loop_more)

lemma loop_joined: "list_all clean ts \<Longrightarrow> list_all (\<lambda>t. t \<noteq> []) ts \<Longrightarrow> loop s (join sep ts) = foldl step s ts"
proof (induction ts arbitrary: s)
  case (Cons t ts)
  then show ?case by (cases ts) (simp_all add: loop_more loop_last)
qed (simp add: loop_end)

end

lemma takeWhile_whole: "list_all P t \<Longrightarrow> takeWhile P t = t" "list_all P t \<Longrightarrow> dropWhile P t = []"
  by (simp_all add: list_all_iff takeWhile_eq_all_conv)

lemma takeWhile_stop:
  "list_all P t \<Longrightarrow> \<not> P c \<Longrightarrow> takeWhile P (t @ c # r) = t"
  "list_all P t \<Longrightarrow> \<not> P c \<Longrightarrow> dropWhile P (t @ c # r) = c # r"
  by (simp_all add: list_all_iff takeWhile_append2)

interpretation query_loop: split_loop "\<lambda>s. query_parse_loop s a" "\<lambda>s. query_part s a" "''&''" "list_all (\<lambda>c. c \<noteq> CHR ''&'')"
  for a :: nat
proof
  fix s t r
  show "query_parse_loop s a [] = s" by (simp add: query_parse_loop.simps)
  assume t: "list_all (\<lambda>c. c \<noteq> CHR ''&'') t"
  show "query_parse_loop s a (t @ ''&'' @ r) = query_parse_loop (query_part s a t) a r"
    by (subst query_parse_loop.simps) (simp add: takeWhile_stop [OF t])
  assume "t \<noteq> []"
  then show "query_parse_loop s a t = query_part s a t"
    by (subst query_parse_loop.simps) (simp add: takeWhile_whole [OF t] query_parse_loop.simps [of _ _ "[]"])
qed

section \<open>Percent encoding\<close>

lemma upper_hex_facts:
  assumes "n < 16"
  shows "jayess_hex_value (upper_hex ! n) = int n" and "c_isalnum (upper_hex ! n)"
proof -
  have "\<forall>n \<in> {..<16}. jayess_hex_value (upper_hex ! n) = int n \<and> c_isalnum (upper_hex ! n)" by code_simp
  then show "jayess_hex_value (upper_hex ! n) = int n" "c_isalnum (upper_hex ! n)" using assms by simp_all
qed

lemma percent_decode_other:
  "c \<noteq> CHR ''%'' \<Longrightarrow> percent_decode_loop (c # r) = plus_as_space c # percent_decode_loop r"
  by (cases "c # r" rule: percent_decode_loop.cases) simp_all

lemma percent_decode_encoded: "percent_decode_loop (encode_char c @ r) = c # percent_decode_loop r"
proof (cases "jayess_url_should_encode c")
  case True
  have "nat (push_bit 4 (int (char_code c div 16)) OR int (char_code c mod 16)) = char_code c"
    using push_or [of "int (char_code c mod 16)" 4 "int (char_code c div 16)"]
    by (simp add: nat_add_distrib nat_mult_distrib)
  then show ?thesis by (simp add: encode_char_def True upper_hex_facts(1) div_less_iff_less_mult char_code_def)
next
  case False
  then have "c \<noteq> CHR ''%''" "c \<noteq> CHR ''+''" by (auto simp: jayess_url_should_encode_def c_class_defs)
  then show ?thesis by (simp add: encode_char_def False percent_decode_other plus_as_space_def)
qed

lemma percent_decode_encode: "percent_decode_loop (jayess_percent_encode s @ r) = s @ percent_decode_loop r"
  by (induction s) (simp_all add: jayess_percent_encode_def percent_decode_encoded)

lemma percent_roundtrip: "CHR 0x00 \<notin> set s \<Longrightarrow> jayess_percent_decode (jayess_percent_encode s) = s"
  using percent_decode_encode [of s "[]"] takeWhile_whole(1) [of "\<lambda>c. c \<noteq> CHR 0x00" s]
  by (auto simp: jayess_percent_decode_def c_text_def list_all_iff)

text \<open>The characters of an encoded text.\<close>

lemma encode_char_set: "x \<in> set (encode_char c) \<Longrightarrow> c_isalnum x \<or> x \<in> {CHR ''-'', CHR ''_'', CHR ''.'', CHR ''~'', CHR ''%''}"
  by (auto simp: encode_char_def jayess_url_should_encode_def upper_hex_facts(2) div_less_iff_less_mult char_code_def split: if_splits)

lemma encoded_clean: "\<not> c_isalnum x \<Longrightarrow> x \<notin> {CHR ''-'', CHR ''_'', CHR ''.'', CHR ''~'', CHR ''%''} \<Longrightarrow> list_all (\<lambda>c. c \<noteq> x) (jayess_percent_encode s)"
  using encode_char_set [of x] by (auto simp: list_all_iff jayess_percent_encode_def)


section \<open>Texts stored under several keys\<close>

definition set_texts :: "jayess_state \<Rightarrow> nat \<Rightarrow> (string \<times> string) list \<Rightarrow> jayess_state" where
  "set_texts s a kvs = foldl (\<lambda>s kv. object_set s a (fst kv) (VString (snd kv))) s kvs"

definition text_entry :: "string \<times> string \<Rightarrow> jayess_object_entry" where
  "text_entry kv = new_entry (VString (fst kv)) (VString (snd kv))"

lemma text_entry_simps [simp]:
  "entry_key (text_entry kv) = Some (fst kv)" "entry_value (text_entry kv) = Some (VString (snd kv))"
  by (simp_all add: text_entry_def new_entry_def)

lemma set_texts_entries:
  assumes "distinct (map fst kvs)" and "\<forall>e \<in> set (entries_at s a). \<forall>kv \<in> set kvs. entry_key e \<noteq> Some (fst kv)"
  shows "entries_at (set_texts s a kvs) a = entries_at s a @ map text_entry kvs"
  using assms
proof (induction kvs arbitrary: s)
  case (Cons kv kvs)
  have step: "entries_at (object_set s a (fst kv) (VString (snd kv))) a = entries_at s a @ [text_entry kv]"
    using Cons.prems(2) by (simp add: member_set text_entry_def)
  have "entries_at (set_texts (object_set s a (fst kv) (VString (snd kv))) a kvs) a
      = entries_at (object_set s a (fst kv) (VString (snd kv))) a @ map text_entry kvs"
    using Cons.prems by (intro Cons.IH) (auto simp: step image_iff)
  then show ?case by (simp add: set_texts_def step)
qed (simp add: set_texts_def)

lemma set_texts_frame:
  "next_address (set_texts s a kvs) = next_address s" "b \<noteq> a \<Longrightarrow> objects (set_texts s a kvs) b = objects s b"
  "arrays (set_texts s a kvs) = arrays s"
  by (induction kvs arbitrary: s) (simp_all add: set_texts_def object_set_other)

section \<open>Query strings\<close>

definition pair_text :: "string \<times> string \<Rightarrow> string" where
  "pair_text kv = jayess_percent_encode (fst kv) @ ''='' @ jayess_percent_encode (snd kv)"

definition plain_pair :: "string \<times> string \<Rightarrow> bool" where
  "plain_pair kv \<longleftrightarrow> fst kv \<noteq> [] \<and> CHR 0x00 \<notin> set (fst kv) \<and> CHR 0x00 \<notin> set (snd kv)"

lemma query_part_pair: "plain_pair kv \<Longrightarrow> query_part s a (pair_text kv) = object_set s a (fst kv) (VString (snd kv))"
  by (simp add: query_part_def pair_text_def plain_pair_def percent_roundtrip encoded_clean takeWhile_stop c_class_defs)

lemma pair_text_clean: "list_all (\<lambda>c. c \<noteq> CHR ''&'') (pair_text kv)" "pair_text kv \<noteq> []"
  using encoded_clean [of "CHR ''&''"] by (simp_all add: pair_text_def c_class_defs)

lemma query_parse_pairs:
  "list_all plain_pair kvs \<Longrightarrow> query_parse_loop s a (join ''&'' (map pair_text kvs)) = set_texts s a kvs"
proof -
  assume plain: "list_all plain_pair kvs"
  have "query_parse_loop s a (join ''&'' (map pair_text kvs)) = foldl (\<lambda>s. query_part s a) s (map pair_text kvs)"
    by (rule query_loop.loop_joined) (simp_all add: list_all_iff pair_text_clean [unfolded list_all_iff])
  also have "\<dots> = set_texts s a kvs"
    using plain by (induction kvs arbitrary: s) (simp_all add: set_texts_def query_part_pair)
  finally show ?thesis .
qed

text \<open>
  C25. Parsing the query string made from an object gives a new object with the same entries in the same order, when
  the values are texts, no key is empty and no text has a zero character; whatever else the texts hold (separators,
  percent signs, spaces, plus signs) comes back, and no other object changes.
\<close>

theorem querystring_roundtrip:
  assumes "entries_at s a = map text_entry kvs" and "distinct (map fst kvs)" and "list_all plain_pair kvs"
  shows "\<exists>t s'. jayess_std_querystring_stringify (Suc d) s (Some (VObject a)) = Some t
    \<and> jayess_std_querystring_parse (Suc d) s (Some (VString t)) = Some (VObject (next_address s), s')
    \<and> entries_at s' (next_address s) = entries_at s a
    \<and> (\<forall>b. b = next_address s \<or> objects s' b = objects s b)"
proof -
  define s1 where "s1 = snd (jayess_object_new s)"
  have new: "jayess_object_new s = (next_address s, s1)" by (simp add: s1_def prod_eq_iff)
  have "those_map (query_entry (Suc d) s) (entries_at s a) = Some (map pair_text kvs)"
    unfolding assms(1) by (induction kvs) (simp_all add: query_entry_def pair_text_def stringify_Suc_simp)
  then have "jayess_std_querystring_stringify (Suc d) s (Some (VObject a)) = Some (join ''&'' (map pair_text kvs))"
    by (simp add: jayess_std_querystring_stringify_def jayess_value_as_object_def)
  moreover have "jayess_std_querystring_parse (Suc d) s (Some (VString (join ''&'' (map pair_text kvs))))
      = Some (VObject (next_address s), set_texts s1 (next_address s) kvs)"
    by (simp add: jayess_std_querystring_parse_def stringify_Suc_simp query_parse_text_def new query_parse_pairs [OF assms(3)])
  moreover have "entries_at (set_texts s1 (next_address s) kvs) (next_address s) = entries_at s a"
    using set_texts_entries [OF assms(2), of s1 "next_address s"] by (simp add: s1_def assms(1))
  moreover have "\<forall>b. b = next_address s \<or> objects (set_texts s1 (next_address s) kvs) b = objects s b"
    using set_texts_frame(2) [of _ "next_address s" s1 kvs] object_new_other [of _ s] by (metis s1_def)
  ultimately show ?thesis by blast
qed


definition example_pairs :: "(string \<times> string) list" where
  "example_pairs = [(''a b'', ''1&2=3''), (''rate'', ''100% + 1''), (''&'', [])]"

definition example_query :: jayess_state where
  "example_query = set_texts (snd (jayess_object_new initial_state)) 0 example_pairs"

lemma example_query_entries: "entries_at example_query 0 = map text_entry example_pairs"
  using set_texts_entries [of example_pairs "snd (jayess_object_new initial_state)" 0]
  by (simp add: example_query_def example_pairs_def initial_state_def entries_at_def jayess_object_new_def)

theorem querystring_roundtrip_witness:
  "\<exists>t s'. jayess_std_querystring_stringify 1 example_query (Some (VObject 0)) = Some t
    \<and> jayess_std_querystring_parse 1 example_query (Some (VString t)) = Some (VObject (next_address example_query), s')
    \<and> entries_at s' (next_address example_query) = entries_at example_query 0
    \<and> (\<forall>b. b = next_address example_query \<or> objects s' b = objects example_query b)"
  using querystring_roundtrip [of example_query 0 example_pairs 0, OF example_query_entries]
  by (simp add: example_pairs_def plain_pair_def)

section \<open>URLs\<close>

lemma strstr_first:
  "list_all (\<lambda>c. c \<noteq> d) p \<Longrightarrow> strstr (p @ (d # ds) @ r) (d # ds) = Some (length p)"
  by (induction p) auto

lemma strchr_first: "list_all (\<lambda>c. c \<noteq> d) p \<Longrightarrow> strchr (p @ d # r) d = Some (length p)"
  by (induction p) auto

lemma strchr_append: "list_all (\<lambda>c. c \<noteq> d) p \<Longrightarrow> strchr (p @ r) d = (case strchr r d of None \<Rightarrow> None | Some n \<Rightarrow> Some (length p + n))"
  by (induction p) (auto split: option.split)

lemma substring_prefix: "n = int (length p) \<Longrightarrow> jayess_substring (p @ r) n = Inr p"
  by (simp add: jayess_substring_def)

text \<open>Characters that end a host, a path and a query.\<close>

definition host_char :: "char \<Rightarrow> bool" where
  "host_char c \<longleftrightarrow> c \<notin> {CHR ''/'', CHR ''?'', CHR ''#''}"

definition path_char :: "char \<Rightarrow> bool" where
  "path_char c \<longleftrightarrow> c \<notin> {CHR ''?'', CHR ''#''}"

definition url_fine :: "url_parts \<Rightarrow> bool" where
  "url_fine u \<longleftrightarrow>
     (\<exists>p. url_protocol u = p @ '':'' \<and> list_all (\<lambda>c. c \<noteq> CHR '':'') p)
     \<and> list_all host_char (url_host u)
     \<and> list_all path_char (url_pathname u) \<and> (url_pathname u = [] \<or> hd (url_pathname u) = CHR ''/'')
     \<and> list_all (\<lambda>c. c \<noteq> CHR ''#'') (url_query u)
     \<and> (url_hash u = [] \<or> hd (url_hash u) = CHR ''#'')
     \<and> (url_pathname u \<noteq> [] \<or> list_all (\<lambda>c. c \<noteq> CHR ''/'') (url_query u @ url_hash u))"

lemma url_parse_scheme:
  "list_all (\<lambda>c. c \<noteq> CHR '':'') p \<Longrightarrow> url_parse_text (p @ ''://'' @ t) = url_parse_rest (p @ '':'') t"
  using strstr_first [of "CHR '':''" p "''//''" t] by (simp add: url_parse_text_def)

lemma host_no: "list_all host_char h \<Longrightarrow> list_all (\<lambda>c. c \<noteq> CHR ''/'') h"
  "list_all host_char h \<Longrightarrow> list_all (\<lambda>c. c \<noteq> CHR ''?'') h" "list_all host_char h \<Longrightarrow> list_all (\<lambda>c. c \<noteq> CHR ''#'') h"
  by (auto simp: list_all_iff host_char_def)

lemma path_no: "list_all path_char h \<Longrightarrow> list_all (\<lambda>c. c \<noteq> CHR ''?'') h" "list_all path_char h \<Longrightarrow> list_all (\<lambda>c. c \<noteq> CHR ''#'') h"
  by (auto simp: list_all_iff path_char_def)

lemma slash_after_query_faults:
  assumes "list_all (\<lambda>c. c \<noteq> CHR '':'') p" and "list_all host_char h" and "c = CHR ''?'' \<or> c = CHR ''#''"
  shows "url_parse_text (p @ ''://'' @ h @ c # ''/'' @ r) = Inl Out_of_bounds"
proof -
  let ?t = "h @ c # ''/'' @ r"
  note no = host_no [OF assms(2)]
  have start: "strchr ?t (CHR ''/'') = Some (Suc (length h))"
    using strchr_append [OF no(1), of "c # ''/'' @ r"] assms(3) by auto
  have "before (strchr ?t (CHR ''#'')) (before (strchr ?t (CHR ''?'')) (length ?t)) = length h"
    using assms(3) strchr_append [OF no(2), of "c # ''/'' @ r"] strchr_append [OF no(3), of "c # ''/'' @ r"]
    by (auto simp: before_def split: option.split)
  then show ?thesis
    unfolding url_parse_scheme [OF assms(1)] url_parse_rest_def Let_def start by (simp add: jayess_substring_def)
qed

text \<open>The text behind the scheme, by its parts.\<close>

lemma url_parse_fine:
  assumes "list_all host_char h" and "list_all path_char p" and "p = [] \<or> hd p = CHR ''/''"
    and "list_all (\<lambda>c. c \<noteq> CHR ''#'') q" and "f = [] \<or> hd f = CHR ''#''"
    and "p \<noteq> [] \<or> list_all (\<lambda>c. c \<noteq> CHR ''/'') (q @ f)"
  shows "url_parse_rest protocol (h @ p @ (if q = [] then [] else ''?'' @ q) @ f)
    = Inr \<lparr>url_protocol = protocol, url_host = h, url_pathname = p, url_query = q, url_hash = f\<rparr>"
proof -
  define t where "t = h @ p @ (if q = [] then [] else ''?'' @ q) @ f"
  note no = host_no [OF assms(1)] path_no [OF assms(2)]
  have slash: "strchr t (CHR ''/'') = (if p = [] then None else Some (length h))"
  proof (cases p)
    case Nil
    then show ?thesis using assms(6) no(1) by (auto simp: t_def strchr_None list_all_iff)
  next
    case (Cons c p')
    then show ?thesis using assms(3) strchr_first [OF no(1)] by (simp add: t_def)
  qed
  have hash: "strchr t (CHR ''#'') = (if f = [] then None else Some (length t - length f))"
  proof -
    have clean: "list_all (\<lambda>c. c \<noteq> CHR ''#'') (h @ p @ (if q = [] then [] else ''?'' @ q))"
      using no assms(4) by simp
    show ?thesis using strchr_append [OF clean, of f] assms(5) by (cases f) (simp_all add: t_def)
  qed
  have query: "strchr t (CHR ''?'') = (if q \<noteq> [] then Some (length h + length p)
      else map_option (\<lambda>n. length h + length p + n) (strchr f (CHR ''?'')))"
  proof -
    have clean: "list_all (\<lambda>c. c \<noteq> CHR ''?'') (h @ p)" using no by simp
    show ?thesis using strchr_append [OF clean, of "(if q = [] then [] else ''?'' @ q) @ f"]
      by (simp add: t_def split: option.split)
  qed
  have late: "n > 0 \<and> n < length f" if "strchr f (CHR ''?'') = Some n" for n
    using that assms(5) by (cases f) (auto simp: strchr_Some nth_Cons split: nat.splits)
  show ?thesis
    unfolding t_def [symmetric] url_parse_rest_def Let_def slash hash query
    using late by (auto simp: t_def before_def jayess_substring_def split: option.split)
qed

text \<open>
  C26. Parsing the text of a URL gives back its parts: protocol, host, path, query and fragment are found again when the
  protocol ends in its only colon, the host has none of the three separators, the path is empty or starts with a
  slash and has no question mark or number sign, the query has no number sign, the fragment starts with one, and
  without a path there is no slash behind the host. (With one, the parser can copy from the wrong place.)
\<close>

theorem url_roundtrip:
  assumes "url_fine u"
  shows "url_parse_text (url_format_texts u) = Inr u"
proof -
  obtain p where p: "url_protocol u = p @ '':''" "list_all (\<lambda>c. c \<noteq> CHR '':'') p"
    using assms unfolding url_fine_def by blast
  have "strstr (p @ '':'') ''://'' = None"
    using p(2) by (auto simp: strstr_None append_eq_append_conv2 append_eq_Cons_conv Cons_eq_append_conv)
  moreover have "url_hash u = [] \<or> hd (url_hash u) = CHR ''#''" using assms by (simp add: url_fine_def)
  ultimately have "url_format_texts u = p @ ''://'' @ url_host u @ url_pathname u
      @ (if url_query u = [] then [] else ''?'' @ url_query u) @ url_hash u"
    by (auto simp: url_format_texts_def p(1))
  then show ?thesis
    using url_parse_fine [of "url_host u" "url_pathname u" "url_query u" "url_hash u" "p @ '':''"] assms
    by (simp add: url_parse_scheme [OF p(2), simplified] url_fine_def p(1) [symmetric])
qed

theorem url_roundtrip_witness:
  "url_parse_text (url_format_texts \<lparr>url_protocol = ''https:'', url_host = ''example.org:8080'', url_pathname = ''/a/b'',
     url_query = ''x=1&y=/2'', url_hash = ''#top?''\<rparr>)
   = Inr \<lparr>url_protocol = ''https:'', url_host = ''example.org:8080'', url_pathname = ''/a/b'',
     url_query = ''x=1&y=/2'', url_hash = ''#top?''\<rparr>"
  by (rule url_roundtrip) (simp add: url_fine_def host_char_def path_char_def exI [of _ "''https''"])

end
