(* ===== verification/Http_Correct.thy ===== *)
theory Http_Correct
  imports Http_Server Url_Correct
begin

text \<open>
  HTTP messages read back what was formatted: lines, headers and bodies, first as texts, then through the objects;
  and what a client makes of the chunks a server response sends.
\<close>

section \<open>Lines and headers\<close>

lemma line_char_CRLF: "\<not> line_char (CHR 0x0D)" "\<not> line_char (CHR 0x0A)"
  by (simp_all add: line_char_def)

lemma CRLF_simps [simp]: "length CRLF = 2" "CRLF \<noteq> []"
  by (simp_all add: CRLF_def)

lemma line_then_CRLF:
  assumes "list_all line_char t"
  shows "takeWhile line_char (t @ CRLF @ r) = t" and "jayess_http_next_line (jayess_http_line_end (t @ CRLF @ r)) = r"
proof -
  note stop = takeWhile_stop [OF assms line_char_CRLF(1), of "CHR 0x0A # r"]
  show "takeWhile line_char (t @ CRLF @ r) = t" using stop by (simp add: CRLF_def)
  show "jayess_http_next_line (jayess_http_line_end (t @ CRLF @ r)) = r"
    using stop by (simp add: CRLF_def jayess_http_line_end_def jayess_http_next_line_def)
qed

interpretation header_lines: split_loop "\<lambda>s. header_loop s a" "\<lambda>s. header_line s a" CRLF "list_all line_char"
  for a :: nat
proof
  fix s t r
  show "header_loop s a [] = s" by (simp add: header_loop.simps)
  assume t: "list_all line_char t"
  show "header_loop s a (t @ CRLF @ r) = header_loop (header_line s a t) a r"
    by (subst header_loop.simps) (simp add: line_then_CRLF [OF t])
  assume "t \<noteq> []"
  then show "header_loop s a t = header_line s a t"
    by (subst header_loop.simps) (simp add: takeWhile_whole [OF t] jayess_http_line_end_def jayess_http_next_line_def header_loop.simps [of _ _ "[]"])
qed

definition header_pair_text :: "string \<times> string \<Rightarrow> string" where
  "header_pair_text kv = fst kv @ '': '' @ snd kv"

definition header_fine :: "string \<times> string \<Rightarrow> bool" where
  "header_fine kv \<longleftrightarrow> fst kv \<noteq> [] \<and> list_all (\<lambda>c. line_char c \<and> c \<noteq> CHR '':'') (fst kv) \<and> list_all line_char (snd kv)
     \<and> jayess_http_trim_copy (fst kv) = fst kv \<and> jayess_http_trim_copy (snd kv) = snd kv"

lemma trim_space: "jayess_http_trim_copy (CHR '' '' # t) = jayess_http_trim_copy t"
  by (simp add: jayess_http_trim_copy_def c_class_defs)

lemma header_line_pair:
  assumes "header_fine kv"
  shows "header_line s a (header_pair_text kv) = object_set s a (fst kv) (VString (snd kv))"
proof -
  have "list_all (\<lambda>c. c \<noteq> CHR '':'') (fst kv)" using assms by (auto simp: header_fine_def list_all_iff)
  note takeWhile_stop [OF this, of "CHR '':''" "'' '' @ snd kv"]
  then show ?thesis using assms by (simp add: header_line_def header_pair_text_def header_fine_def trim_space)
qed

lemma header_pair_clean: "header_fine kv \<Longrightarrow> list_all line_char (header_pair_text kv)" "header_pair_text kv \<noteq> []"
  by (auto simp: header_fine_def header_pair_text_def list_all_iff line_char_def)

lemma header_loop_pairs:
  "list_all header_fine hs \<Longrightarrow> header_loop s a (join CRLF (map header_pair_text hs)) = set_texts s a hs"
proof -
  assume fine: "list_all header_fine hs"
  then have "header_loop s a (join CRLF (map header_pair_text hs)) = foldl (\<lambda>s. header_line s a) s (map header_pair_text hs)"
    by (intro header_lines.loop_joined) (use header_pair_clean in \<open>auto simp: list_all_iff\<close>)
  also have "\<dots> = set_texts s a hs"
    using fine by (induction hs arbitrary: s) (simp_all add: set_texts_def header_line_pair)
  finally show ?thesis .
qed

text \<open>Where the headers end.\<close>

lemma boundary_line:
  "list_all line_char t \<Longrightarrow> jayess_http_header_boundary (t @ r) = map_option (\<lambda>n. length t + n) (jayess_http_header_boundary r)"
proof (induction t)
  case Nil
  then show ?case by (cases "jayess_http_header_boundary r") simp_all
next
  case (Cons c t)
  then show ?case by (cases "jayess_http_header_boundary r") (auto simp: CRLF_def line_char_def)
qed

lemma boundary_CRLF: "line_char c \<Longrightarrow> jayess_http_header_boundary (CRLF @ c # r) = map_option (\<lambda>n. 2 + n) (jayess_http_header_boundary (c # r))"
  by (cases "jayess_http_header_boundary (c # r)") (auto simp: CRLF_def line_char_def simp del: jayess_http_header_boundary.simps(2) simp: jayess_http_header_boundary.simps(2) [of "CHR 0x0D"] jayess_http_header_boundary.simps(2) [of "CHR 0x0A"])

lemma boundary_end: "jayess_http_header_boundary (CRLF @ CRLF @ b) = Some 0"
  by (simp add: CRLF_def)

lemma header_boundary_lines:
  assumes "ls \<noteq> []" and "list_all (\<lambda>l. list_all line_char l \<and> l \<noteq> []) ls"
  shows "jayess_http_header_boundary (join CRLF ls @ CRLF @ CRLF @ b) = Some (length (join CRLF ls))"
  using assms
proof (induction ls)
  case (Cons l ls)
  have l: "list_all line_char l" using Cons.prems by simp
  show ?case
  proof (cases ls)
    case Nil
    then show ?thesis by (simp add: boundary_line [OF l] boundary_end)
  next
    case (Cons l' ls')
    then obtain c t where c: "l' = c # t" "line_char c" using Cons.prems by (cases l') auto
    have "join CRLF ls @ CRLF @ CRLF @ b = c # (t @ (if ls' = [] then [] else CRLF @ join CRLF ls') @ CRLF @ CRLF @ b)"
      by (simp add: Cons c(1) join_Cons)
    then show ?thesis
      using Cons.IH Cons.prems boundary_CRLF [OF c(2)] by (simp add: Cons c(1) boundary_line [OF l] join_Cons)
  qed
qed simp


section \<open>Requests\<close>

lemma concat_terminated: "ls \<noteq> [] \<Longrightarrow> concat (map (\<lambda>l. l @ sep) ls) = join sep ls @ sep"
proof (induction ls)
  case (Cons l ls)
  then show ?case by (cases ls) (simp_all add: join_Cons)
qed simp

lemma after_boundary_CRLF: "after_boundary (CRLF @ CRLF @ b) = b"
  by (simp add: after_boundary_def CRLF_def)

lemma split_message_lines:
  assumes "list_all line_char first" and "ls \<noteq> []" and "list_all (\<lambda>l. list_all line_char l \<and> l \<noteq> []) ls"
  shows "split_message (first @ CRLF @ join CRLF ls @ CRLF @ CRLF @ b) = (join CRLF ls, b)"
  using header_boundary_lines [OF assms(2,3), of b]
  by (simp add: split_message_def line_then_CRLF(2) [OF assms(1)] after_boundary_CRLF)

lemma format_header_pairs:
  "entries_at s h = map text_entry hs \<Longrightarrow>
   jayess_http_format_header_lines (Suc d) s (Some h) = Some (concat (map (\<lambda>l. l @ CRLF) (map header_pair_text hs)))"
proof -
  assume e: "entries_at s h = map text_entry hs"
  have "those_map (header_text (Suc d) s) (map text_entry hs) = Some (map (\<lambda>l. l @ CRLF) (map header_pair_text hs))"
    by (induction hs) (simp_all add: header_text_def header_pair_text_def stringify_Suc_simp)
  then show ?thesis by (simp add: jayess_http_format_header_lines_def e)
qed

text \<open>A word of the first line.\<close>

definition word_fine :: "string \<Rightarrow> bool" where
  "word_fine w \<longleftrightarrow> w \<noteq> [] \<and> list_all (\<lambda>c. line_char c \<and> not_space c) w"

lemma word_simps:
  assumes "word_fine w"
  shows "list_all line_char w" and "takeWhile not_space (w @ CHR '' '' # r) = w"
    and "dropWhile not_space (w @ CHR '' '' # r) = CHR '' '' # r" and "w \<noteq> []"
proof -
  have w: "list_all not_space w" using assms by (auto simp: word_fine_def list_all_iff)
  show "takeWhile not_space (w @ CHR '' '' # r) = w" "dropWhile not_space (w @ CHR '' '' # r) = CHR '' '' # r"
    using takeWhile_stop [OF w] by (simp_all add: not_space_def)
  show "list_all line_char w" "w \<noteq> []" using assms by (auto simp: word_fine_def list_all_iff)
qed

lemma space_in_line: "line_char (CHR '' '')"
  by (simp add: line_char_def)

lemma parse_header_object:
  assumes "list_all header_fine hs" and "distinct (map fst hs)"
  shows "jayess_http_parse_header_object s (join CRLF (map header_pair_text hs))
      = (next_address s, set_texts (snd (jayess_object_new s)) (next_address s) hs)"
    and "entries_at (set_texts (snd (jayess_object_new s)) (next_address s) hs) (next_address s) = map text_entry hs"
  using set_texts_entries [OF assms(2), of "snd (jayess_object_new s)" "next_address s"]
  by (simp_all add: jayess_http_parse_header_object_def header_loop_pairs [OF assms(1)] jayess_object_new_def entries_at_def)

text \<open>
  C27. Parsing the text of a request gives back its parts, in a new object: method, path, version, body, and in another new
  object the headers in their order, when method and path are words, the version is not empty, there is at least one header, the names
  of the headers are different and have no colon, no part before the body has a line break and no header starts or
  ends with a blank. The body may be any text.
\<close>

theorem http_request_roundtrip:
  assumes parts: "object_get s a ''method'' = Some (VString m)" "object_get s a ''path'' = Some (VString p)"
      "object_get s a ''version'' = Some (VString v)" "object_get s a ''body'' = Some (VString b)"
      "object_get s a ''headers'' = Some (VObject h)" "entries_at s h = map text_entry hs"
    and words: "word_fine m" "word_fine p" "v \<noteq> []" "list_all line_char v"
    and hs: "hs \<noteq> []" "list_all header_fine hs" "distinct (map fst hs)"
  shows "\<exists>t n s' h'. jayess_std_http_format_request (Suc d) s (Some (VObject a)) = Some (Inr t)
    \<and> jayess_std_http_parse_request (Suc d) s (Some (VString t)) = Some (VObject n, s')
    \<and> object_get s' n ''method'' = Some (VString m) \<and> object_get s' n ''path'' = Some (VString p)
    \<and> object_get s' n ''version'' = Some (VString v) \<and> object_get s' n ''body'' = Some (VString b)
    \<and> object_get s' n ''headers'' = Some (VObject h') \<and> entries_at s' h' = entries_at s h
    \<and> next_address s \<le> n \<and> next_address s \<le> h'"
proof -
  define ls where "ls = map header_pair_text hs"
  define first where "first = m @ '' '' @ p @ '' '' @ v"
  define t where "t = first @ CRLF @ join CRLF ls @ CRLF @ CRLF @ b"
  have ls: "ls \<noteq> []" "list_all (\<lambda>l. list_all line_char l \<and> l \<noteq> []) ls"
    using hs(1,2) header_pair_clean by (auto simp: ls_def list_all_iff)
  have first: "list_all line_char first"
    using word_simps(1) [OF words(1)] word_simps(1) [OF words(2)] words(4) by (simp add: first_def space_in_line)
  have "jayess_http_format_header_lines (Suc d) s (Some h) = Some (join CRLF ls @ CRLF)"
    using format_header_pairs [OF parts(6)] concat_terminated [OF ls(1), of CRLF] by (simp add: ls_def)
  then have format: "jayess_std_http_format_request (Suc d) s (Some (VObject a)) = Some (Inr t)"
    using words(3) word_simps(4) [OF words(1)] word_simps(4) [OF words(2)]
    by (simp add: jayess_std_http_format_request_def jayess_value_as_object_def parts headers_of_def stringify_Suc_simp
        format_request_texts_def into_buffer_def message_text_def or_else_def t_def first_def)
  define n where "n = next_address s"
  define s1 where "s1 = snd (jayess_object_new s)"
  define s4 where "s4 = object_set (object_set (object_set s1 n ''method'' (VString m)) n ''path'' (VString p)) n ''version'' (VString v)"
  define s5 where "s5 = set_texts (snd (jayess_object_new s4)) (next_address s4) hs"
  define s7 where "s7 = object_set (object_set s5 n ''headers'' (VObject (next_address s4))) n ''body'' (VString b)"
  have new: "jayess_object_new s = (n, s1)" "next_address s4 = Suc n" by (simp_all add: n_def s1_def s4_def prod_eq_iff)
  have line: "takeWhile line_char t = first" unfolding t_def by (rule line_then_CRLF(1) [OF first])
  have split: "split_message t = (join CRLF ls, b)" unfolding t_def by (rule split_message_lines [OF first ls])
  have "dropWhile not_space first = CHR '' '' # p @ '' '' @ v" "takeWhile not_space first = m" "first \<noteq> []"
    using word_simps(2,3) [OF words(1), of "p @ '' '' @ v"] by (simp_all add: first_def)
  then have "parse_request_text s t = (VObject n, s7)"
    using split word_simps(2,3) [OF words(2), of v] parse_header_object(1) [OF hs(2,3), of s4]
    by (simp add: parse_request_text_def line t_def [symmetric] new ls_def Let_def s4_def [symmetric] s5_def s7_def
        del: dropWhile_eq_Nil_conv)
  then have parse: "jayess_std_http_parse_request (Suc d) s (Some (VString t)) = Some (VObject n, s7)"
    by (simp add: jayess_std_http_parse_request_def stringify_Suc_simp)
  have kept: "object_get s5 n k = object_get s4 n k" for k
    using set_texts_frame(2) [where b = n and a = "next_address s4" and s = "snd (jayess_object_new s4)" and kvs = hs]
      object_new_other [of n s4]
    by (simp add: s5_def new(2) object_get_def entries_at_def)
  have "entries_at s7 (Suc n) = entries_at s h"
    using parse_header_object(2) [OF hs(2,3), of s4] by (simp add: s7_def new(2) s5_def parts(6) object_set_def)
  moreover have "object_get s7 n ''headers'' = Some (VObject (Suc n))" by (simp add: s7_def object_get_set new(2))
  moreover have "object_get s7 n ''method'' = Some (VString m)" "object_get s7 n ''path'' = Some (VString p)"
    "object_get s7 n ''version'' = Some (VString v)" "object_get s7 n ''body'' = Some (VString b)"
    by (simp_all add: s7_def object_get_set kept s4_def)
  moreover have "next_address s \<le> n" "next_address s \<le> Suc n" by (simp_all add: n_def)
  ultimately show ?thesis using format parse by blast
qed

definition example_headers :: "(string \<times> string) list" where
  "example_headers = [(''Host'', ''example.org:80''), (''Accept'', ''text/html, */*''), (''X-Empty'', [])]"

definition example_parts :: jayess_state where
  "example_parts =
     object_set (set_texts initial_state 0
         [(''method'', ''POST''), (''path'', ''/a?b=c''), (''version'', ''HTTP/1.1''), (''body'', CRLF @ CRLF @ ''text'')])
       0 ''headers'' (VObject 2)"

definition example_request :: jayess_state where
  "example_request = set_texts example_parts 2 example_headers"

lemma example_request_headers: "entries_at example_request 2 = map text_entry example_headers"
proof -
  have "objects example_parts 2 = objects initial_state 2"
    unfolding example_parts_def by (simp add: object_set_other set_texts_frame(2))
  then have "entries_at example_parts 2 = []" by (simp add: entries_at_def initial_state_def)
  then show ?thesis
    using set_texts_entries [of example_headers example_parts 2] by (simp add: example_request_def example_headers_def)
qed

theorem http_request_roundtrip_witness:
  "\<exists>t n s' h'. jayess_std_http_format_request 1 example_request (Some (VObject 0)) = Some (Inr t)
    \<and> jayess_std_http_parse_request 1 example_request (Some (VString t)) = Some (VObject n, s')
    \<and> object_get s' n ''method'' = Some (VString ''POST'') \<and> object_get s' n ''path'' = Some (VString ''/a?b=c'')
    \<and> object_get s' n ''version'' = Some (VString ''HTTP/1.1'') \<and> object_get s' n ''body'' = Some (VString (CRLF @ CRLF @ ''text''))
    \<and> object_get s' n ''headers'' = Some (VObject h') \<and> entries_at s' h' = entries_at example_request 2"
  using http_request_roundtrip [where d = 0 and a = 0 and s = example_request, OF _ _ _ _ _ example_request_headers,
      of "''POST''" "''/a?b=c''" "''HTTP/1.1''" "CRLF @ CRLF @ ''text''"]
  by (force simp: example_request_def example_parts_def set_texts_def object_get_set example_headers_def header_fine_def word_fine_def
      line_char_def not_space_def jayess_http_trim_copy_def c_class_defs)

end
