(* ===== verification/Byte_Correct.thy ===== *)
theory Byte_Correct
  imports Byte_Text
begin

unbundle bit_operations_syntax

text \<open>
  Buffers: the contract of a byte store (a locale), what words written to one read back as, its
  interpretation by the views of an object and by one byte array, and from it the round trips of data views, the
  wrapping of typed arrays and that buffers hold bytes.
\<close>

section \<open>The bytes of a word\<close>

lemma and_255: "(w :: u32) AND 255 = take_bit 8 w" "(v :: u64) AND 255 = take_bit 8 v" "(i :: int) AND 255 = take_bit 8 i"
  using take_bit_eq_mask [of 8 w] take_bit_eq_mask [of 8 v] take_bit_eq_mask [of 8 i] by (simp_all add: mask_eq_exp_minus_1)

lemma u32_of_bytes:
  "take_bit 8 n OR push_bit 8 (take_bit 8 (drop_bit 8 n)) OR push_bit 16 (take_bit 8 (drop_bit 16 n))
     OR push_bit 24 (take_bit 8 (drop_bit 24 n)) = (n :: u32)"
proof (rule bit_word_eqI)
  fix k assume "k < LENGTH(32)"
  then show "bit (take_bit 8 n OR push_bit 8 (take_bit 8 (drop_bit 8 n)) OR push_bit 16 (take_bit 8 (drop_bit 16 n))
     OR push_bit 24 (take_bit 8 (drop_bit 24 n))) k = bit n k"
    by (cases "k < 8"; cases "k < 16"; cases "k < 24") (auto simp: bit_simps not_less)
qed

lemma byte_of_word:
  fixes w :: "'a :: len word"
  shows "word_of_int (uint (take_bit 8 w) AND 255) = take_bit 8 w"
proof -
  have "uint (take_bit 8 w) AND 255 = uint (take_bit 8 w)"
    by (simp add: and_255 unsigned_take_bit_eq)
  then show ?thesis by simp
qed

lemma next_byte: "push_bit 8 (drop_bit (k + 8) n) OR take_bit 8 (drop_bit k n) = drop_bit k (n :: u64)"
proof (rule bit_word_eqI)
  fix j assume "j < LENGTH(64)"
  then show "bit (push_bit 8 (drop_bit (k + 8) n) OR take_bit 8 (drop_bit k n)) j = bit (drop_bit k n) j"
    by (cases "j < 8") (auto simp: bit_simps not_less add.assoc bit_imp_le_length)
qed

lemma u64_of_bytes:
  fixes n :: u64
  assumes "\<And>i. i < 8 \<Longrightarrow> rd (off + int i) = uint (take_bit 8 (drop_bit (if le then i * 8 else (7 - i) * 8) n))"
  shows "read_u64 rd off le = n"
proof -
  have top: "drop_bit 64 n = 0"
    by (rule bit_word_eqI) (auto simp: bit_simps bit_imp_le_length dest: bit_imp_le_length)
  note b = assms [of 0] assms [of 1] assms [of 2] assms [of 3] assms [of 4] assms [of 5] assms [of 6] assms [of 7]
  note step = next_byte [of 56 n, simplified, unfolded top, simplified] next_byte [of 48 n, simplified]
    next_byte [of 40 n, simplified] next_byte [of 32 n, simplified] next_byte [of 24 n, simplified]
    next_byte [of 16 n, simplified] next_byte [of 8 n, simplified] next_byte [of 0 n, simplified]
  show ?thesis
    by (cases le) (simp_all add: read_u64_def upto_rec1 b [simplified] step)
qed

section \<open>A store of bytes\<close>

locale byte_store =
  fixes rd :: "byte_state \<Rightarrow> int \<Rightarrow> int" and wr :: "byte_state \<Rightarrow> int \<Rightarrow> int \<Rightarrow> byte_state"
    and inv :: "byte_state \<Rightarrow> bool" and room :: "byte_state \<Rightarrow> int"
  assumes inv_wr: "inv t \<Longrightarrow> inv (wr t i v)"
    and room_wr: "inv t \<Longrightarrow> room (wr t i v) = room t"
    and rd_wr: "inv t \<Longrightarrow> 0 \<le> i \<Longrightarrow> i < room t \<Longrightarrow> rd (wr t i v) j = (if j = i then v AND 255 else rd t j)"
    and wr_outside: "inv t \<Longrightarrow> i < 0 \<or> room t \<le> i \<Longrightarrow> wr t i v = t"
begin

lemma four_writes:
  fixes x0 x1 x2 x3 off j :: int and t :: byte_state
  defines "t' \<equiv> wr (wr (wr (wr t off x0) (off + 1) x1) (off + 2) x2) (off + 3) x3"
  assumes "inv t" and "0 \<le> off" and "off + 4 \<le> room t"
  shows "rd t' off = x0 AND 255" and "rd t' (off + 1) = x1 AND 255" and "rd t' (off + 2) = x2 AND 255"
    and "rd t' (off + 3) = x3 AND 255" and "j < off \<or> off + 4 \<le> j \<Longrightarrow> rd t' j = rd t j"
    and "inv t'" and "room t' = room t"
  using assms(2-4) by (auto simp: t'_def inv_wr room_wr rd_wr)

lemma u32_roundtrip:
  assumes "inv t" and "0 \<le> off" and "off + 4 \<le> room t"
  shows "read_u32 (rd (write_u32 wr t off n le)) off le = n"
    and "j < off \<or> off + 4 \<le> j \<Longrightarrow> rd (write_u32 wr t off n le) j = rd t j"
    and "inv (write_u32 wr t off n le)" and "room (write_u32 wr t off n le) = room t"
proof -
  note w = four_writes [OF assms]
  have be: "push_bit 24 (take_bit 8 (drop_bit 24 n)) OR push_bit 16 (take_bit 8 (drop_bit 16 n))
      OR push_bit 8 (take_bit 8 (drop_bit 8 n)) OR take_bit 8 n = n"
    using u32_of_bytes [of n] by (simp only: ac_simps)
  show "read_u32 (rd (write_u32 wr t off n le)) off le = n"
  proof (cases le)
    case True
    then show ?thesis
      by (simp add: read_u32_def write_u32_def Let_def w(1-4) and_255(1) byte_of_word u32_of_bytes [simplified or.assoc])
  next
    case False
    then show ?thesis
      by (simp add: read_u32_def write_u32_def Let_def w(1-4) and_255(1) byte_of_word be)
  qed
  show "j < off \<or> off + 4 \<le> j \<Longrightarrow> rd (write_u32 wr t off n le) j = rd t j" "inv (write_u32 wr t off n le)"
    "room (write_u32 wr t off n le) = room t"
    using w(5-7) by (simp_all add: write_u32_def Let_def)
qed

lemma u64_frame:
  assumes "inv t" and "0 \<le> off" and "off + 8 \<le> room t"
  shows "j < off \<or> off + 8 \<le> j \<Longrightarrow> rd (write_u64 wr t off n le) j = rd t j"
    and "inv (write_u64 wr t off n le)" and "room (write_u64 wr t off n le) = room t"
  using assms by (auto simp: write_u64_def upt_rec inv_wr room_wr rd_wr)

lemma u64_bytes:
  assumes "inv t" and "0 \<le> off" and "off + 8 \<le> room t" and "i < 8"
  shows "rd (write_u64 wr t off n le) (off + int i)
    = uint (take_bit 8 (drop_bit (if le then i * 8 else (7 - i) * 8) n))"
proof -
  have "uint (take_bit 8 w) AND 255 = uint (take_bit 8 w)" for w :: u64
    by (simp add: and_255 unsigned_take_bit_eq)
  moreover have "i = 0 \<or> i = 1 \<or> i = 2 \<or> i = 3 \<or> i = 4 \<or> i = 5 \<or> i = 6 \<or> i = 7" using assms(4) by auto
  ultimately show ?thesis
    using assms(1-3) by (elim disjE) (simp_all add: write_u64_def upt_rec inv_wr room_wr rd_wr and_255(2))
qed

lemma u64_roundtrip:
  "inv t \<Longrightarrow> 0 \<le> off \<Longrightarrow> off + 8 \<le> room t \<Longrightarrow> read_u64 (rd (write_u64 wr t off n le)) off le = n"
  by (rule u64_of_bytes) (rule u64_bytes)

end

section \<open>The arrays of the heap\<close>

lemma byte_of_slot [simp]: "byte_of (byte_slot v) = v AND 255"
proof -
  have "v AND 255 = v mod 256" by (simp add: and_255 take_bit_eq_mod)
  then have "0 \<le> v AND 255" "v AND 255 < 2 ^ 31" by (simp_all add: order_less_trans [OF pos_mod_bound])
  moreover from this have "c_int (dbl_of_int (v AND 255)) = v AND 255" by (intro c_int_of_int) linarith+
  moreover from calculation(1,2) have "dbl_eq (dbl_of_int (v AND 255)) 0 \<Longrightarrow> dbl_of_int (v AND 255) = 0"
    using dbl_eq_of_int [of "v AND 255" 0] by (simp add: dbl_of_int_0)
  ultimately show ?thesis
    by (auto simp: byte_of_def byte_slot_def value_from_number and.assoc)
qed

lemma bytes_write_eq:
  "jayess_std_bytes_write t b i v =
     (if 0 \<le> i \<and> i < int (length (slots_at (js t) b))
      then t\<lparr>js := array_write (js t) b (accounting (js t), (slots_at (js t) b)[nat i := byte_slot v])\<rparr> else t)"
  by (simp add: jayess_std_bytes_write_def array_set_inside)

lemma bytes_write_view [simp]:
  "slots_at (js (jayess_std_bytes_write t b i v)) b' =
     (if b' = b \<and> 0 \<le> i \<and> i < int (length (slots_at (js t) b)) then (slots_at (js t) b)[nat i := byte_slot v]
      else slots_at (js t) b')"
  "objects (js (jayess_std_bytes_write t b i v)) = objects (js t)"
  "native (jayess_std_bytes_write t b i v) = native t"
  by (simp_all add: bytes_write_eq)

lemma bytes_slot_cong:
  assumes "objects (js t') = objects (js t)" and "native t' = native t"
  shows "jayess_std_bytes_slot t' target = jayess_std_bytes_slot t target"
    and "jayess_std_typed_array_kind (js t') target = jayess_std_typed_array_kind (js t) target"
proof -
  have get: "object_get (js t') a k = object_get (js t) a k" for a k
    using assms(1) by (simp add: object_get_def entries_at_def)
  then have kind: "object_kind (js t') = object_kind (js t)" by (simp add: fun_eq_iff object_kind_def split: option.split jayess_value.split)
  then show "jayess_std_typed_array_kind (js t') target = jayess_std_typed_array_kind (js t) target"
    by (simp add: jayess_std_typed_array_kind_def)
  show "jayess_std_bytes_slot t' target = jayess_std_bytes_slot t target"
    unfolding jayess_std_bytes_slot_def jayess_std_bytes_state_def jayess_std_typed_array_kind_def
      jayess_std_kind_is_def kind assms(2) jayess_std_array_slot_def get by (rule refl)
qed

interpretation slot_store: byte_store "\<lambda>t. jayess_std_bytes_read (slots_at (js t) b)" "\<lambda>t. jayess_std_bytes_write t b"
  "\<lambda>t. True" "\<lambda>t. int (length (slots_at (js t) b))" for b
  by unfold_locales (auto simp: jayess_std_bytes_read_def nth_list_update bytes_write_eq nat_eq_iff)

interpretation view_store: byte_store "\<lambda>t. jayess_std_byte_read t target" "\<lambda>t. jayess_std_byte_write t target"
  "\<lambda>t. jayess_std_bytes_slot t target = Some b" "\<lambda>t. int (length (slots_at (js t) b))" for target b
proof unfold_locales
  fix t i v j
  assume b: "jayess_std_bytes_slot t target = Some b"
  then have wr: "jayess_std_byte_write t target i v = jayess_std_bytes_write t b i v"
    by (simp add: jayess_std_byte_write_def)
  show inv: "jayess_std_bytes_slot (jayess_std_byte_write t target i v) target = Some b"
    using b by (simp add: wr bytes_slot_cong(1) [of "jayess_std_bytes_write t b i v" t])
  show "int (length (slots_at (js (jayess_std_byte_write t target i v)) b)) = int (length (slots_at (js t) b))"
    by (simp add: wr)
  show "0 \<le> i \<Longrightarrow> i < int (length (slots_at (js t) b)) \<Longrightarrow>
    jayess_std_byte_read (jayess_std_byte_write t target i v) target j
      = (if j = i then v AND 255 else jayess_std_byte_read t target j)"
    using inv b slot_store.rd_wr [of i t b v j] by (simp add: jayess_std_byte_read_def wr)
  show "i < 0 \<or> int (length (slots_at (js t) b)) \<le> i \<Longrightarrow> jayess_std_byte_write t target i v = t"
    using slot_store.wr_outside [of i t b v] by (simp add: wr)
qed

section \<open>Every store is a sequence of byte writes\<close>

inductive byte_writes :: "byte_state \<Rightarrow> byte_state \<Rightarrow> bool" where
  no_write [intro]: "byte_writes t t"
| one_write: "byte_writes t t' \<Longrightarrow> byte_writes t (jayess_std_bytes_write t' b i v)"

definition same_shape :: "byte_state \<Rightarrow> byte_state \<Rightarrow> bool" where
  "same_shape t t' \<longleftrightarrow>
     objects (js t') = objects (js t) \<and> funcs (js t') = funcs (js t) \<and> native t' = native t
     \<and> (\<forall>a. length (slots_at (js t') a) = length (slots_at (js t) a))"

definition holds_bytes :: "jayess_state \<Rightarrow> nat \<Rightarrow> bool" where
  "holds_bytes s b \<longleftrightarrow> list_all (\<lambda>v. v = byte_slot (byte_of v)) (slots_at s b)"

lemma byte_slot_mask: "byte_slot (v AND 255) = byte_slot v"
  by (simp add: byte_slot_def and.assoc)

lemma byte_writes_same_shape: "byte_writes t t' \<Longrightarrow> same_shape t t'"
  by (induction rule: byte_writes.induct) (auto simp: same_shape_def bytes_write_eq)

lemma byte_writes_hold: "byte_writes t t' \<Longrightarrow> holds_bytes (js t) b \<Longrightarrow> holds_bytes (js t') b"
proof (induction rule: byte_writes.induct)
  case (one_write t t' b' i v)
  then show ?case
    by (auto simp: holds_bytes_def list_all_length nth_list_update byte_slot_mask)
qed

lemma view_write: "byte_writes t t' \<Longrightarrow> byte_writes t (jayess_std_byte_write t' target i v)"
  by (auto simp: jayess_std_byte_write_def intro: one_write split: option.split)

lemma u32_keeps:
  assumes "\<And>t i v. P t \<Longrightarrow> P (wr t i v)" and "P t"
  shows "P (write_u32 wr t off n le)"
  using assms(2) by (auto simp: write_u32_def Let_def intro!: assms(1))

lemma u64_keeps:
  assumes "\<And>t i v. P t \<Longrightarrow> P (wr t i v)" and "P t"
  shows "P (write_u64 wr t off n le)"
proof -
  have "P (write_u64_loop wr t is n)" for "is"
    using assms(2) by (induction "is" arbitrary: t n rule: list.induct) (auto simp: assms(1))
  then show ?thesis by (simp add: write_u64_def)
qed

lemmas u32_writes = u32_keeps [of "byte_writes t" wr t' off n le for t wr t' off n le]
lemmas u64_writes = u64_keeps [of "byte_writes t" wr t' off n le for t wr t' off n le]

lemmas store_writes = view_write one_write u32_writes [OF view_write] u64_writes [OF view_write] u32_writes [OF one_write]

lemma set_number_writes:
  "byte_writes t t' \<Longrightarrow> byte_writes t (jayess_std_typed_array_set_number t' target i x)"
  by (auto simp: jayess_std_typed_array_set_number_def Let_def jayess_std_data_view_write_u32_target_def
      jayess_std_data_view_write_u64_target_def intro!: store_writes split: option.split)

lemma fill_loop_writes: "byte_writes t t' \<Longrightarrow> byte_writes t (fill_loop t' target i xs)"
  by (induction xs arbitrary: t' i) (auto intro: set_number_writes)

lemma copy_loop_writes: "byte_writes t t' \<Longrightarrow> byte_writes t (copy_loop t' target i source j n)"
  by (induction n arbitrary: t' i j) (auto intro: set_number_writes)

lemma atomic_write_writes: "byte_writes t t' \<Longrightarrow> byte_writes t (atomic_write t' b kind off x)"
  by (auto simp: atomic_write_def Let_def jayess_std_data_view_write_u32_def intro!: store_writes)

lemma u16_writes: "byte_writes t t' \<Longrightarrow> byte_writes t (write_u16 t' target off n le)"
  by (auto simp: write_u16_def Let_def intro!: store_writes)

lemma as_bool_cong: "same_shape t t' \<Longrightarrow> as_bool t' = as_bool t"
  by (simp add: same_shape_def as_bool_def)

text \<open>Nothing but the slots of one array changes, and not their number.\<close>

definition writes_only :: "nat \<Rightarrow> byte_state \<Rightarrow> byte_state \<Rightarrow> bool" where
  "writes_only b t t' \<longleftrightarrow> same_shape t t' \<and> (\<forall>a. a \<noteq> b \<longrightarrow> slots_at (js t') a = slots_at (js t) a)"

lemma writes_only_refl: "writes_only b t t"
  by (simp add: writes_only_def same_shape_def)

lemma writes_only_slot: "writes_only b t t' \<Longrightarrow> jayess_std_bytes_slot t' target = jayess_std_bytes_slot t target"
  by (simp add: writes_only_def same_shape_def bytes_slot_cong(1) [of t' t])

lemma view_writes_only:
  assumes "jayess_std_bytes_slot t target = Some b" and "writes_only b t t'"
  shows "writes_only b t (jayess_std_byte_write t' target i v)"
  using assms writes_only_slot [OF assms(2), of target]
  by (auto simp: writes_only_def same_shape_def jayess_std_byte_write_def bytes_write_eq)

lemma u16_only:
  assumes "jayess_std_bytes_slot t target = Some b"
  shows "writes_only b t (write_u16 t target off n le)"
  by (simp add: write_u16_def Let_def view_writes_only [OF assms] writes_only_refl)

lemma u32_only:
  "jayess_std_bytes_slot t target = Some b \<Longrightarrow> writes_only b t (jayess_std_data_view_write_u32_target t target off n le)"
  unfolding jayess_std_data_view_write_u32_target_def
  by (rule u32_keeps [of "writes_only b t"]) (auto intro: view_writes_only writes_only_refl)

lemma u64_only:
  "jayess_std_bytes_slot t target = Some b \<Longrightarrow> writes_only b t (jayess_std_data_view_write_u64_target t target off x le)"
  unfolding jayess_std_data_view_write_u64_target_def
  by (rule u64_keeps [of "writes_only b t"]) (auto intro: view_writes_only writes_only_refl)

lemma set_number_only:
  assumes "jayess_std_bytes_slot t target = Some b"
  shows "writes_only b t (jayess_std_typed_array_set_number t target i x)"
  by (simp add: jayess_std_typed_array_set_number_def Let_def view_writes_only [OF assms] writes_only_refl
      u32_only [OF assms] u64_only [OF assms] split: option.split)

section \<open>Casts that are defined\<close>

text \<open>The numbers that \<open>(int)x\<close> and \<open>(unsigned int)x\<close> are defined for, and what the casts then give.\<close>

definition int_fits :: "double \<Rightarrow> bool" where
  "int_fits x \<longleftrightarrow> dbl_isfinite x \<and> - (2 ^ 31) \<le> dbl_trunc x \<and> dbl_trunc x < 2 ^ 31"

definition uint_fits :: "double \<Rightarrow> bool" where
  "uint_fits x \<longleftrightarrow> dbl_isfinite x \<and> 0 \<le> dbl_trunc x \<and> dbl_trunc x < 2 ^ 32"

lemma c_int_fits: "int_fits x \<Longrightarrow> c_int x = dbl_trunc x"
  by (simp add: int_fits_def c_int_def cast_to_def)

lemma c_uint_fits: "uint_fits x \<Longrightarrow> uint (c_uint x) = dbl_trunc x"
  by (auto simp: uint_fits_def c_uint_def c_int64_def cast_to_def uint_word_of_int)

lemma int_fits_of_int: "- (2 ^ 31) \<le> i \<Longrightarrow> i < 2 ^ 31 \<Longrightarrow> int_fits (dbl_of_int i)"
  by (simp add: int_fits_def dbl_of_int_exact dbl_trunc_of_int)

lemma uint_fits_of_int: "0 \<le> i \<Longrightarrow> i < 2 ^ 32 \<Longrightarrow> uint_fits (dbl_of_int i)"
  by (simp add: uint_fits_def dbl_of_int_exact dbl_trunc_of_int)

text \<open>The integer of \<open>n\<close> bits in two's complement that is congruent to \<open>i\<close>.\<close>

definition signed_part :: "nat \<Rightarrow> int \<Rightarrow> int" where
  "signed_part n i = (i + 2 ^ (n - 1)) mod 2 ^ n - 2 ^ (n - 1)"

section \<open>Integers of 16 and 32 bits\<close>

lemma sign_extend_word:
  assumes "0 < n" and "- (2 ^ (n - 1)) \<le> i" and "i < 2 ^ (n - 1)"
  shows "sign_extend n (i mod 2 ^ n) = i"
proof (cases "0 \<le> i")
  case True
  moreover have "(2::int) ^ (n - 1) \<le> 2 ^ n" by (intro power_increasing) simp_all
  ultimately have "i mod 2 ^ n = i" using assms(3) by (intro mod_pos_pos_trivial) linarith+
  with assms(3) show ?thesis by (simp add: sign_extend_def)
next
  case False
  have p: "(2::int) ^ n = 2 * 2 ^ (n - 1)" using assms(1) by (cases n) simp_all
  have "i mod 2 ^ n = (i + 2 ^ n) mod 2 ^ n" by simp
  also have "\<dots> = i + 2 ^ n" using False assms(2) p by (intro mod_pos_pos_trivial) simp_all
  finally show ?thesis using False assms(2) p by (simp add: sign_extend_def)
qed

lemma sign_extend_part:
  assumes "0 < n"
  shows "sign_extend n (i mod 2 ^ n) = signed_part n i"
proof -
  have p: "(2::int) ^ n = 2 * 2 ^ (n - 1)" using assms by (cases n) simp_all
  have "signed_part n i mod 2 ^ n = i mod 2 ^ n"
    by (simp add: signed_part_def mod_diff_left_eq)
  moreover have "- (2 ^ (n - 1)) \<le> signed_part n i" "signed_part n i < 2 ^ (n - 1)"
    using pos_mod_bound [of "2 ^ n" "i + 2 ^ (n - 1)"] by (simp_all add: signed_part_def p)
  ultimately show ?thesis using sign_extend_word [OF assms, of "signed_part n i"] by simp
qed

lemma sign_extend_u32: "- (2 ^ 31) \<le> i \<Longrightarrow> i < 2 ^ 31 \<Longrightarrow> sign_extend 32 (uint (word_of_int i :: u32)) = i"
  using sign_extend_word [of 32 i] by (simp add: uint_word_of_int)

lemma int_arg_range: "- (2 ^ 31) \<le> int_arg v" "int_arg v < 2 ^ 31"
  unfolding int_arg_def by (rule c_int_range)+

lemma two_bytes: "(i AND 255) OR push_bit 8 (drop_bit 8 i AND 255) = i mod (2 ^ 16 :: int)"
proof -
  have "take_bit 8 i OR push_bit 8 (take_bit 8 (drop_bit 8 i)) = take_bit 16 i"
  proof (rule bit_eqI)
    fix k show "bit (take_bit 8 i OR push_bit 8 (take_bit 8 (drop_bit 8 i))) k = bit (take_bit 16 i) k"
      by (cases "k < 8") (auto simp: bit_simps not_less)
  qed
  then show ?thesis by (simp add: and_255 take_bit_eq_mod)
qed

lemma and_65535: "i AND 65535 = i mod (2 ^ 16 :: int)"
  using take_bit_eq_mask [of 16 i] by (simp add: mask_eq_exp_minus_1 take_bit_eq_mod)

lemma u16_roundtrip:
  assumes "jayess_std_bytes_slot t view = Some b" and "0 \<le> off" and "off + 2 \<le> int (length (slots_at (js t) b))"
  shows "read_u16 (write_u16 t view off i le) view off le = i mod 2 ^ 16"
  using assms two_bytes [of i]
  by (simp add: read_u16_def write_u16_def Let_def view_store.rd_wr view_store.inv_wr view_store.room_wr and.assoc ac_simps)

section \<open>Elements of typed arrays\<close>

text \<open>
  What an element holds after a number is stored: the integer part of the number, modulo two to the width of the
  element (and in two's complement where the element is signed), the number in single precision, or the number itself.
  The integer kinds need a number that the cast of the code is defined for.
\<close>

definition number_fits :: "string \<Rightarrow> double \<Rightarrow> bool" where
  "number_fits kind x \<longleftrightarrow>
     (if kind = ''Float32Array'' \<or> kind = ''Float64Array'' then True
      else if kind = ''Uint32Array'' then uint_fits x else int_fits x)"

definition stored_number :: "string \<Rightarrow> double \<Rightarrow> double" where
  "stored_number kind x =
     (if kind = ''Uint8Array'' then dbl_of_int (dbl_trunc x mod 2 ^ 8)
      else if kind = ''Int8Array'' then dbl_of_int (signed_part 8 (dbl_trunc x))
      else if kind = ''Uint16Array'' then dbl_of_int (dbl_trunc x mod 2 ^ 16)
      else if kind = ''Int16Array'' then dbl_of_int (signed_part 16 (dbl_trunc x))
      else if kind = ''Uint32Array'' then dbl_of_int (dbl_trunc x mod 2 ^ 32)
      else if kind = ''Int32Array'' then dbl_of_int (signed_part 32 (dbl_trunc x))
      else if kind = ''Float32Array'' then dbl_of_flt (flt_of_dbl x) else x)"

lemma signed_part_id: "0 < n \<Longrightarrow> - (2 ^ (n - 1)) \<le> i \<Longrightarrow> i < 2 ^ (n - 1) \<Longrightarrow> signed_part n i = i"
  using sign_extend_part [of n i] sign_extend_word [of n i] by simp

lemma stored_casts:
  assumes "number_fits kind x"
  shows "stored_number kind x =
     (if kind = ''Uint8Array'' then dbl_of_int (c_int x mod 2 ^ 8)
      else if kind = ''Int8Array'' then dbl_of_int (sign_extend 8 (c_int x mod 2 ^ 8))
      else if kind = ''Uint16Array'' then dbl_of_int (c_int x mod 2 ^ 16)
      else if kind = ''Int16Array'' then dbl_of_int (sign_extend 16 (c_int x mod 2 ^ 16))
      else if kind = ''Uint32Array'' then dbl_of_int (uint (c_uint x))
      else if kind = ''Int32Array'' then dbl_of_int (c_int x)
      else if kind = ''Float32Array'' then dbl_of_flt (flt_of_dbl x) else x)"
proof -
  have "int_fits x \<Longrightarrow> signed_part 32 (dbl_trunc x) = dbl_trunc x" "uint_fits x \<Longrightarrow> dbl_trunc x mod 2 ^ 32 = dbl_trunc x"
    using signed_part_id [of 32 "dbl_trunc x"] by (simp_all add: int_fits_def uint_fits_def)
  with assms sign_extend_part [of 8 "dbl_trunc x"] sign_extend_part [of 16 "dbl_trunc x"] show ?thesis
    by (auto simp: stored_number_def number_fits_def c_int_fits c_uint_fits split: if_splits)
qed

lemma typed_array_kinds:
  assumes "jayess_std_typed_array_kind s target = Some kind"
  shows "kind \<in> {''Uint8Array'', ''Int8Array'', ''Uint16Array'', ''Int16Array'', ''Uint32Array'', ''Int32Array'',
    ''Float32Array'', ''Float64Array''}"
  using assms by (auto simp: jayess_std_typed_array_kind_def jayess_std_is_typed_array_kind_def split: option.splits if_splits)

lemma element_inside:
  assumes "jayess_std_typed_array_kind (js t) target = Some kind" and "jayess_std_bytes_slot t target = Some b"
    and "i < int (jayess_value_array_length t target)"
  shows "i * int (jayess_std_typed_array_element_size kind) + int (jayess_std_typed_array_element_size kind)
    \<le> int (length (slots_at (js t) b))"
proof -
  let ?n = "jayess_std_typed_array_element_size kind" and ?len = "length (slots_at (js t) b)"
  obtain a where a: "target = Some (VObject a)"
    using assms(1) by (auto simp: jayess_std_typed_array_kind_def object_kind_def split: option.splits jayess_value.splits)
  have "jayess_value_array_length t target = (if ?n = 0 then 0 else ?len div ?n)"
    using assms(1,2) by (simp add: a jayess_value_array_length_def bytes_of_def jayess_std_typed_array_length_from_bytes_def)
  moreover have "?n \<noteq> 0"
    using typed_array_kinds [OF assms(1)] by (auto simp: jayess_std_typed_array_element_size_def)
  ultimately have "(i + 1) * int ?n \<le> int (?len div ?n) * int ?n"
    using assms(3) by (intro mult_right_mono) simp_all
  also have "\<dots> \<le> int ?len" using div_times_less_eq_dividend [of ?len ?n] by (simp flip: of_nat_mult)
  finally show ?thesis by (simp add: algebra_simps)
qed

lemma array_length_cong:
  assumes "same_shape t t'"
  shows "jayess_value_array_length t' target = jayess_value_array_length t target"
proof -
  have "jayess_std_bytes_slot t' = jayess_std_bytes_slot t"
    "jayess_std_typed_array_kind (js t') = jayess_std_typed_array_kind (js t)"
    using assms bytes_slot_cong [of t' t] by (auto simp: same_shape_def)
  with assms show ?thesis
    by (simp add: same_shape_def jayess_value_array_length_def bytes_of_def jayess_std_typed_array_length_from_bytes_def
        split: option.split jayess_value.split)
qed

lemma set_number_shape: "same_shape t (jayess_std_typed_array_set_number t target i x)"
  by (intro byte_writes_same_shape set_number_writes no_write)

lemma set_number_frame:
  assumes kind: "jayess_std_typed_array_kind (js t) target = Some kind" and slot: "jayess_std_bytes_slot t target = Some b"
    and outside: "k < i * int (jayess_std_typed_array_element_size kind)
      \<or> i * int (jayess_std_typed_array_element_size kind) + int (jayess_std_typed_array_element_size kind) \<le> k"
  shows "jayess_std_byte_read (jayess_std_typed_array_set_number t target i x) target k = jayess_std_byte_read t target k"
proof (cases "i < 0 \<or> int (jayess_value_array_length t target) \<le> i")
  case True
  then show ?thesis by (auto simp: jayess_std_typed_array_set_number_def kind Let_def)
next
  case False
  then have off: "0 \<le> i * int (jayess_std_typed_array_element_size kind)" and i: "i < int (jayess_value_array_length t target)"
    by simp_all
  note inside = element_inside [OF kind slot i]
  show ?thesis
    using typed_array_kinds [OF kind] False outside off inside
    by (elim insertE emptyE)
      (simp_all add: jayess_std_typed_array_set_number_def kind Let_def jayess_std_typed_array_element_size_def
        jayess_std_data_view_write_u32_target_def jayess_std_data_view_write_u64_target_def slot
        view_store.rd_wr view_store.inv_wr view_store.room_wr view_store.u32_roundtrip(2) view_store.u64_frame(1), auto)
qed

lemma get_number_cong:
  assumes "same_shape t t'"
    and "\<And>kind k. jayess_std_typed_array_kind (js t) target = Some kind \<Longrightarrow> j * int (jayess_std_typed_array_element_size kind) \<le> k
      \<Longrightarrow> k < j * int (jayess_std_typed_array_element_size kind) + int (jayess_std_typed_array_element_size kind)
      \<Longrightarrow> jayess_std_byte_read t' target k = jayess_std_byte_read t target k"
  shows "jayess_std_typed_array_get_number t' target j = jayess_std_typed_array_get_number t target j"
proof -
  have kinds: "jayess_std_typed_array_kind (js t') target = jayess_std_typed_array_kind (js t) target"
    using assms(1) bytes_slot_cong(2) [of t' t] by (simp add: same_shape_def)
  show ?thesis
  proof (cases "jayess_std_typed_array_kind (js t) target")
    case None
    then show ?thesis by (simp add: jayess_std_typed_array_get_number_def kinds)
  next
    case (Some kind)
    show ?thesis
      using typed_array_kinds [OF Some] assms(2) [OF Some]
      by (elim insertE emptyE)
        (simp_all add: jayess_std_typed_array_get_number_def kinds Some Let_def jayess_std_typed_array_element_size_def
          array_length_cong [OF assms(1)] jayess_std_data_view_read_u32_target_def jayess_std_data_view_read_u64_target_def
          read_u32_def read_u64_def upto_rec1)
  qed
qed

lemma get_stored:
  assumes kind: "jayess_std_typed_array_kind (js t) target = Some kind" and slot: "jayess_std_bytes_slot t target = Some b"
    and range: "0 \<le> i" "i < int (jayess_value_array_length t target)" and fits: "number_fits kind x"
  shows "jayess_std_typed_array_get_number (jayess_std_typed_array_set_number t target i x) target i = stored_number kind x"
proof -
  let ?t' = "jayess_std_typed_array_set_number t target i x"
  have shape: "same_shape t ?t'" by (rule set_number_shape)
  then have kinds: "jayess_std_typed_array_kind (js ?t') target = Some kind"
    using bytes_slot_cong(2) [of ?t' t] kind by (simp add: same_shape_def)
  have byte: "(c_int x AND 255) = c_int x mod 2 ^ 8" by (simp add: and_255 take_bit_eq_mod)
  have again: "c_int x mod 256 AND 255 = c_int x mod 256" by (simp add: and_255 take_bit_eq_mod)
  have inside: "0 \<le> i * int (jayess_std_typed_array_element_size kind)" using range(1) by simp
  note stored = element_inside [OF kind slot range(2)]
  have get: "jayess_std_typed_array_get_number ?t' target i =
    (let offset = i * int (jayess_std_typed_array_element_size kind); b = jayess_std_byte_read ?t' target;
         u16 = b offset OR push_bit 8 (b (offset + 1)); u32 = jayess_std_data_view_read_u32_target ?t' target offset True
     in if kind = ''Uint8Array'' then dbl_of_int (b offset)
        else if kind = ''Int8Array'' then dbl_of_int (sign_extend 8 (b offset))
        else if kind = ''Uint16Array'' then dbl_of_int u16
        else if kind = ''Int16Array'' then dbl_of_int (sign_extend 16 u16)
        else if kind = ''Uint32Array'' then dbl_of_int (uint u32)
        else if kind = ''Int32Array'' then dbl_of_int (sign_extend 32 (uint u32))
        else if kind = ''Float32Array'' then dbl_of_flt u32
        else jayess_std_data_view_read_u64_target ?t' target offset True)"
    using range by (simp add: jayess_std_typed_array_get_number_def kinds array_length_cong [OF shape] Let_def)
  show ?thesis
    unfolding get stored_casts [OF fits]
    using typed_array_kinds [OF kind] range inside stored two_bytes [of "c_int x"]
    by (elim insertE emptyE)
      (simp_all add: jayess_std_typed_array_set_number_def kind Let_def jayess_std_typed_array_element_size_def
        jayess_std_data_view_write_u32_target_def jayess_std_data_view_write_u64_target_def
        jayess_std_data_view_read_u32_target_def jayess_std_data_view_read_u64_target_def slot
        view_store.rd_wr view_store.inv_wr view_store.room_wr view_store.u32_roundtrip(1) view_store.u64_roundtrip
        sign_extend_u32 [OF c_int_range] byte [simplified] again and.assoc)
qed

section \<open>Bytes in the slots\<close>

lemma zero_slot: "Some (jayess_value_from_number 0) = byte_slot 0"
  by (simp add: byte_slot_def dbl_of_int_0)

lemma zero_bytes: "holds_bytes s b \<Longrightarrow> holds_bytes (zero_bytes_loop s b n) b"
proof (induction n arbitrary: s)
  case (Suc n)
  then show ?case
    by (simp add: zero_slot holds_bytes_def push_slot_def array_push Let_def byte_slot_mask)
qed simp

lemma new_buffer_holds:
  "holds_bytes (snd (jayess_std_buffer_state_new s len)) (fst (jayess_std_buffer_state_new s len))"
  using zero_bytes [of "snd (jayess_array_new s)" "fst (jayess_array_new s)" "nat len"]
  by (simp add: jayess_std_buffer_state_new_def jayess_array_new_def holds_bytes_def slots_at_def)

lemma slots_of_set: "slots_at (set_slots s c vs) b = (if b = c then vs else slots_at s b)"
  by (simp add: set_slots_def slots_at_def)

lemma holds_set_slots:
  assumes "holds_bytes s b" and "\<And>v. v \<in> set vs \<Longrightarrow> v = byte_slot (byte_of v)"
  shows "holds_bytes (set_slots s c vs) b"
  using assms by (auto simp: holds_bytes_def list_all_iff slots_of_set)

lemma holds_slot: "holds_bytes s b \<Longrightarrow> v \<in> set (slots_at s b) \<Longrightarrow> v = byte_slot (byte_of v)"
  by (auto simp: holds_bytes_def list_all_iff)

lemma byte_slot_byte_of: "byte_slot (byte_of (byte_slot i)) = byte_slot i"
  by (simp add: byte_slot_mask)

lemma uint8_fill_holds: "holds_bytes (js t) b \<Longrightarrow> holds_bytes (js (jayess_std_uint8_fill_method t env v)) b"
  by (auto simp: jayess_std_uint8_fill_method_def byte_slot_mask intro!: holds_set_slots split: option.split)

lemma move_holds: "holds_bytes s b \<Longrightarrow> holds_bytes (move_loop s c target source is (\<lambda>v. byte_slot (byte_of v))) b"
proof (induction "is" arbitrary: s)
  case (Cons i "is")
  have "holds_bytes (set_slots s c ((slots_at s c)[target + i := byte_slot (byte_of (slots_at s source ! i))])) b"
  proof (cases "b = c")
    case True
    have "x = byte_slot (byte_of x)"
      if "x \<in> set ((slots_at s c)[target + i := byte_slot (byte_of (slots_at s source ! i))])" for x
      using set_mp [OF set_update_subset_insert that] Cons.prems True byte_slot_byte_of
      by (auto simp: holds_bytes_def list_all_iff)
    then show ?thesis using holds_set_slots [OF Cons.prems] by blast
  qed (use Cons.prems in \<open>simp add: holds_bytes_def slots_of_set\<close>)
  then show ?case using Cons.IH by simp
qed simp

lemma within_holds:
  assumes "\<And>v. v \<in> set vs \<Longrightarrow> P v" and "\<And>i. i \<in> set is \<Longrightarrow> start + i < length vs"
  shows "v \<in> set (within_loop vs target start is) \<Longrightarrow> P v"
  using assms
proof (induction "is" arbitrary: vs)
  case (Cons i "is")
  have "P w" if "w \<in> set (vs[target + i := vs ! (start + i)])" for w
    using that set_update_subset_insert [of vs "target + i" "vs ! (start + i)"] Cons.prems(2) Cons.prems(3) [of i] by auto
  then show ?case using Cons.IH [of "vs[target + i := vs ! (start + i)]"] Cons.prems(1,3) by simp
qed simp

lemma clamped_range:
  assumes "0 \<le> len" and "0 \<le> default_value" and "default_value \<le> len"
  shows "0 \<le> jayess_std_uint8_clamped_index v len default_value" "jayess_std_uint8_clamped_index v len default_value \<le> len"
  using assms by (auto simp: jayess_std_uint8_clamped_index_def Let_def)

lemma within_method_holds:
  assumes "holds_bytes (js t) b"
  shows "holds_bytes (js (jayess_std_uint8_copy_within_method t env v w u)) b"
proof (cases "jayess_std_bytes_slot t env")
  case None
  with assms show ?thesis by (simp add: jayess_std_uint8_copy_within_method_def)
next
  case (Some c)
  define vs where "vs = slots_at (js t) c"
  define start where "start = jayess_std_uint8_clamped_index w (int (length vs)) 0"
  define finish where "finish = jayess_std_uint8_clamped_index u (int (length vs)) (int (length vs))"
  define target where "target = jayess_std_uint8_clamped_index v (int (length vs)) 0"
  define n where "n = min ((if finish < start then start else finish) - start) (int (length vs) - target)"
  define idx where "idx = (if target < start then [0..<nat n] else rev [0..<nat n])"
  have kept: "jayess_std_uint8_copy_within_method t env v w u
      = (if n \<le> 0 then t else t\<lparr>js := set_slots (js t) c (within_loop vs (nat target) (nat start) idx)\<rparr>)"
    by (simp add: jayess_std_uint8_copy_within_method_def Some Let_def vs_def start_def finish_def target_def n_def idx_def)
  have range: "0 \<le> start" "finish \<le> int (length vs)"
    using clamped_range [of "int (length vs)"] by (simp_all add: start_def finish_def)
  have inside: "nat start + i < length vs" if "i \<in> set idx" "\<not> n \<le> 0" for i
    using that range by (auto simp: idx_def n_def split: if_splits)
  show ?thesis
  proof (cases "b = c")
    case False
    with assms show ?thesis by (simp add: kept holds_bytes_def slots_of_set)
  next
    case True
    have "x = byte_slot (byte_of x)" if "x \<in> set (within_loop vs (nat target) (nat start) idx)" "\<not> n \<le> 0" for x
      by (rule within_holds [OF _ inside that(1)]) (use holds_slot [OF assms] True that(2) in \<open>simp_all add: vs_def\<close>)
    with assms show ?thesis by (auto simp: kept intro: holds_set_slots)
  qed
qed

lemma throw_arrays: "arrays (jayess_throw_type_error s message) = arrays s"
  by (auto simp: jayess_throw_type_error_def jayess_type_error_value_def jayess_std_error_new_text_def jayess_throw_def
      jayess_attach_exception_stack_def jayess_object_new_def Let_def split: jayess_value.split)

lemma atomics_hold:
  assumes "holds_bytes (js t) b"
  shows "holds_bytes (js (snd (jayess_atomics_apply t target v w op e))) b"
proof (cases "jayess_atomics_state t target (int_arg v)")
  case (Inl message)
  with assms show ?thesis by (simp add: jayess_atomics_apply_def throw_arrays holds_bytes_def slots_at_def)
next
  case (Inr r)
  then show ?thesis
    using assms byte_writes_hold [OF atomic_write_writes [OF no_write] assms]
    by (simp add: jayess_atomics_apply_def Let_def split: prod.split)
qed

section \<open>Properties\<close>

text \<open>
  The setters and getters of a data view: the bytes they take, the two methods, the numbers that the cast of the setter
  is defined for and what the getter is to read.
\<close>

type_synonym view_access = "nat \<times> view_setter \<times> view_getter \<times> (double \<Rightarrow> bool) \<times> (double \<Rightarrow> double)"

definition view_accesses :: "view_access list" where
  "view_accesses =
     [(1, \<lambda>t view off v le. jayess_std_data_view_set_int8_method t view off v,
       \<lambda>t view off le. jayess_std_data_view_get_int8_method t view off, int_fits, \<lambda>x. dbl_of_int (signed_part 8 (dbl_trunc x))),
      (1, \<lambda>t view off v le. jayess_std_data_view_set_uint8_method t view off v,
       \<lambda>t view off le. jayess_std_data_view_get_uint8_method t view off, int_fits, \<lambda>x. dbl_of_int (dbl_trunc x mod 2 ^ 8)),
      (2, jayess_std_data_view_set_int16_method, jayess_std_data_view_get_int16_method, int_fits,
       \<lambda>x. dbl_of_int (signed_part 16 (dbl_trunc x))),
      (2, jayess_std_data_view_set_uint16_method, jayess_std_data_view_get_uint16_method, int_fits,
       \<lambda>x. dbl_of_int (dbl_trunc x mod 2 ^ 16)),
      (4, jayess_std_data_view_set_int32_method, jayess_std_data_view_get_int32_method, int_fits, \<lambda>x. dbl_of_int (dbl_trunc x)),
      (4, jayess_std_data_view_set_uint32_method, jayess_std_data_view_get_uint32_method, uint_fits,
       \<lambda>x. dbl_of_int (dbl_trunc x)),
      (4, jayess_std_data_view_set_float32_method, jayess_std_data_view_get_float32_method, \<lambda>x. True,
       \<lambda>x. dbl_of_flt (flt_of_dbl x)),
      (8, jayess_std_data_view_set_float64_method, jayess_std_data_view_get_float64_method, \<lambda>x. True, \<lambda>x. x)]"

lemmas setter_defs = jayess_std_data_view_set_int8_method_def jayess_std_data_view_set_uint8_method_def
  jayess_std_data_view_set_int16_method_def jayess_std_data_view_set_uint16_method_def
  jayess_std_data_view_set_int32_method_def jayess_std_data_view_set_uint32_method_def
  jayess_std_data_view_set_float32_method_def jayess_std_data_view_set_float64_method_def

lemmas getter_defs = jayess_std_data_view_get_int8_method_def jayess_std_data_view_get_uint8_method_def
  jayess_std_data_view_get_int16_method_def jayess_std_data_view_get_uint16_method_def
  jayess_std_data_view_get_int32_method_def jayess_std_data_view_get_uint32_method_def
  jayess_std_data_view_get_float32_method_def jayess_std_data_view_get_float64_method_def

lemma view_set_only:
  assumes "(n, setter, getter, fits, result) \<in> set view_accesses" and "jayess_std_bytes_slot t view = Some b"
  shows "writes_only b t (setter t view off v le)"
  using assms(1) u16_only [OF assms(2)] u32_only [OF assms(2)] u64_only [OF assms(2)]
    view_writes_only [OF assms(2) writes_only_refl]
  by (auto simp: view_accesses_def setter_defs)

lemma view_set_frame:
  assumes "(n, setter, getter, fits, result) \<in> set view_accesses" and slot: "jayess_std_bytes_slot t view = Some b"
    and off: "0 \<le> int_arg off" and room: "int_arg off + int n \<le> int (length (slots_at (js t) b))"
    and j: "j < int_arg off \<or> int_arg off + int n \<le> j"
  shows "jayess_std_byte_read (setter t view off v le) view j = jayess_std_byte_read t view j"
  using assms(1) off room j view_store.u32_roundtrip(2) [OF slot off] view_store.u64_frame(1) [OF slot off]
  by (auto simp: view_accesses_def setter_defs jayess_std_data_view_write_u32_target_def
      jayess_std_data_view_write_u64_target_def write_u16_def Let_def slot view_store.rd_wr view_store.inv_wr view_store.room_wr)

lemma view_get_set:
  assumes "(n, setter, getter, fits, result) \<in> set view_accesses" and slot: "jayess_std_bytes_slot t view = Some b"
    and off: "0 \<le> int_arg off" and room: "int_arg off + int n \<le> int (length (slots_at (js t) b))"
    and fits: "fits (jayess_value_to_number v)"
  shows "getter (setter t view off v le) view off le = jayess_value_from_number (result (jayess_value_to_number v))"
proof -
  have le: "as_bool (setter t view off v le) le = as_bool t le"
    using view_set_only [OF assms(1,2), of off v le] as_bool_cong unfolding writes_only_def by metis
  have masks: "i AND 255 = i mod 2 ^ 8" "i AND 65535 = i mod 2 ^ 16" for i :: int
    by (simp_all add: and_255 take_bit_eq_mod and_65535)
  have again: "i mod 256 AND 255 = i mod 256" for i :: int
    by (simp add: and_255 take_bit_eq_mod)
  note parts = sign_extend_part [of 8, simplified] sign_extend_part [of 16, simplified]
  show ?thesis
    using assms(1) fits off room le
    by (auto simp: view_accesses_def setter_defs getter_defs jayess_std_data_view_write_u32_target_def
        jayess_std_data_view_read_u32_target_def jayess_std_data_view_write_u64_target_def
        jayess_std_data_view_read_u64_target_def number_result_def int_arg_def [of v] c_int_fits c_uint_fits slot
        view_store.rd_wr view_store.u32_roundtrip(1) view_store.u64_roundtrip u16_roundtrip masks again parts int_fits_def
        sign_extend_u32)
qed

text \<open>
  C20. Data views. For each of the eight pairs of a setter and a getter (\<open>Int8\<close>, \<open>Uint8\<close>, \<open>Int16\<close>, \<open>Uint16\<close>, \<open>Int32\<close>,
  \<open>Uint32\<close>, \<open>Float32\<close>, \<open>Float64\<close>) and either byte order: a number that is stored at an offset where the bytes of the
  element fit in the buffer reads back at the same offset in the same byte order as the integer part modulo two to the
  width (in two's complement for the signed ones), as the number rounded to single precision, or as the number itself.
  All other bytes of the buffer stay, and so do every other array, the objects and all lengths. For the integer setters
  the number must be one that the cast of the C code is defined for: its integer part is in the range of \<open>int\<close>, or of
  \<open>unsigned int\<close> for \<open>setUint32\<close>.
\<close>

theorem data_view_roundtrip:
  assumes "(n, setter, getter, fits, result) \<in> set view_accesses" and "jayess_std_bytes_slot t view = Some b"
    and "0 \<le> int_arg off" and "int_arg off + int n \<le> int (length (slots_at (js t) b))"
    and "fits (jayess_value_to_number v)"
  shows "getter (setter t view off v le) view off le = jayess_value_from_number (result (jayess_value_to_number v))
    \<and> (\<forall>j. j < int_arg off \<or> int_arg off + int n \<le> j
        \<longrightarrow> jayess_std_byte_read (setter t view off v le) view j = jayess_std_byte_read t view j)
    \<and> writes_only b t (setter t view off v le)"
  using view_get_set [OF assms] view_set_frame [OF assms(1-4)] view_set_only [OF assms(1,2)] by blast

text \<open>The kind of the object at address 0, whose eight bytes are the array at address 2.\<close>

definition example_bytes :: "string \<Rightarrow> bool \<Rightarrow> byte_state" where
  "example_bytes kind shared =
     \<lparr>js = set_slots (object_set initial_state 0 ''__jayess_std_kind'' (VString kind)) 2 (replicate 8 (byte_slot 0)),
      native = [0 \<mapsto> (2, shared)]\<rparr>"

lemma example_bytes_facts:
  "object_kind (js (example_bytes kind shared)) (Some (VObject 0)) = Some kind"
  "slots_at (js (example_bytes kind shared)) 2 = replicate 8 (byte_slot 0)"
  "native (example_bytes kind shared) 0 = Some (2, shared)"
proof -
  have "object_get (set_slots (object_set initial_state 0 ''__jayess_std_kind'' (VString kind)) 2 vs) 0 ''__jayess_std_kind''
    = object_get (object_set initial_state 0 ''__jayess_std_kind'' (VString kind)) 0 ''__jayess_std_kind''" for vs
    by (simp add: set_slots_def object_get_def entries_at_def)
  then show "object_kind (js (example_bytes kind shared)) (Some (VObject 0)) = Some kind"
    by (simp add: example_bytes_def object_kind_def object_get_set)
qed (simp_all add: example_bytes_def set_slots_def slots_at_def)

lemma int_arg_None [simp]: "int_arg None = 0"
  using c_int_of_int [of 0] by (simp add: int_arg_def dbl_of_int_0)

lemma example_bytes_slot:
  "kind = ''DataView'' \<or> jayess_std_is_typed_array_kind kind
    \<Longrightarrow> jayess_std_bytes_slot (example_bytes kind shared) (Some (VObject 0)) = Some 2"
  by (auto simp: jayess_std_bytes_slot_def jayess_std_bytes_state_def jayess_std_kind_is_def jayess_std_typed_array_kind_def
      example_bytes_facts)

theorem data_view_roundtrip_witness:
  "jayess_std_data_view_get_int32_method
     (jayess_std_data_view_set_int32_method (example_bytes ''DataView'' False) (Some (VObject 0)) None
        (Some (VNumber (dbl_of_int (-7)))) None)
     (Some (VObject 0)) None None = jayess_value_from_number (dbl_of_int (-7))"
  using data_view_roundtrip [of 4 jayess_std_data_view_set_int32_method jayess_std_data_view_get_int32_method int_fits
      "\<lambda>x. dbl_of_int (dbl_trunc x)" "example_bytes ''DataView'' False" "Some (VObject 0)" 2 None
      "Some (VNumber (dbl_of_int (-7)))" None] int_fits_of_int [of "-7"] dbl_trunc_of_int [of "-7"]
  by (simp add: example_bytes_slot example_bytes_facts view_accesses_def)

lemma other_elements:
  assumes kind: "jayess_std_typed_array_kind (js t) target = Some kind" and slot: "jayess_std_bytes_slot t target = Some b"
    and "j \<noteq> i"
  shows "jayess_std_typed_array_get_number (jayess_std_typed_array_set_number t target i x) target j
    = jayess_std_typed_array_get_number t target j"
proof (rule get_number_cong [OF set_number_shape])
  let ?n = "int (jayess_std_typed_array_element_size kind)"
  fix kind' k
  assume "jayess_std_typed_array_kind (js t) target = Some kind'"
    and "j * int (jayess_std_typed_array_element_size kind') \<le> k"
    and "k < j * int (jayess_std_typed_array_element_size kind') + int (jayess_std_typed_array_element_size kind')"
  with kind have k: "j * ?n \<le> k" "k < j * ?n + ?n" by simp_all
  have "k < i * ?n \<or> i * ?n + ?n \<le> k"
  proof (cases "j < i")
    case True
    then have "(j + 1) * ?n \<le> i * ?n" by (intro mult_right_mono) simp_all
    with k show ?thesis by (simp add: algebra_simps)
  next
    case False
    with \<open>j \<noteq> i\<close> have "(i + 1) * ?n \<le> j * ?n" by (intro mult_right_mono) simp_all
    with k show ?thesis by (simp add: algebra_simps)
  qed
  then show "jayess_std_byte_read (jayess_std_typed_array_set_number t target i x) target k
      = jayess_std_byte_read t target k"
    by (rule set_number_frame [OF kind slot])
qed

text \<open>
  C21. Elements of a typed array. An element inside the array reads back as the number that was stored, converted to the
  element type: the integer part modulo two to the width (in two's complement for the signed kinds), single precision
  for \<open>Float32Array\<close>, the number itself for \<open>Float64Array\<close>. No other element changes, the length of the array stays, and
  in the heap nothing but the bytes of this buffer: not the objects, not the functions, no other array and no length.
  For the integer kinds the number must be one that the cast of the C code is defined for: its integer part is in the
  range of \<open>int\<close>, or of \<open>unsigned int\<close> for \<open>Uint32Array\<close>.
\<close>

theorem typed_array_set_get:
  assumes "jayess_std_typed_array_kind (js t) target = Some kind" and "jayess_std_bytes_slot t target = Some b"
    and "0 \<le> i" and "i < int (jayess_value_array_length t target)" and "number_fits kind x"
  shows "jayess_std_typed_array_get_number (jayess_std_typed_array_set_number t target i x) target j
      = (if j = i then stored_number kind x else jayess_std_typed_array_get_number t target j)
    \<and> jayess_value_array_length (jayess_std_typed_array_set_number t target i x) target = jayess_value_array_length t target
    \<and> writes_only b t (jayess_std_typed_array_set_number t target i x)"
  using get_stored [OF assms] other_elements [OF assms(1,2)] array_length_cong [OF set_number_shape] set_number_only [OF assms(2)]
  by auto

text \<open>The number 200 in an \<open>Int8Array\<close>.\<close>

theorem typed_array_set_get_witness:
  "jayess_std_typed_array_get_number
     (jayess_std_typed_array_set_number (example_bytes ''Int8Array'' False) (Some (VObject 0)) 3 (dbl_of_int 200))
     (Some (VObject 0)) 3 = dbl_of_int (-56)"
proof -
  have "jayess_std_typed_array_kind (js (example_bytes ''Int8Array'' False)) (Some (VObject 0)) = Some ''Int8Array''"
    by (simp add: jayess_std_typed_array_kind_def example_bytes_facts jayess_std_is_typed_array_kind_def)
  moreover from this have "jayess_value_array_length (example_bytes ''Int8Array'' False) (Some (VObject 0)) = 8"
    by (simp add: jayess_value_array_length_def bytes_of_def example_bytes_slot jayess_std_is_typed_array_kind_def
        example_bytes_facts jayess_std_typed_array_length_from_bytes_def jayess_std_typed_array_element_size_def)
  moreover have "number_fits ''Int8Array'' (dbl_of_int 200)" by (simp add: number_fits_def int_fits_of_int)
  ultimately show ?thesis
    using typed_array_set_get [of "example_bytes ''Int8Array'' False" "Some (VObject 0)" "''Int8Array''" 2 3 "dbl_of_int 200" 3]
      dbl_trunc_of_int [of 200]
    by (simp add: example_bytes_slot jayess_std_is_typed_array_kind_def stored_number_def signed_part_def)
qed

text \<open>
  C22. Buffers hold bytes. A new buffer holds one byte per slot, and every operation that stores to a view (the eight
  setters of data views, the store of an element, \<open>fill\<close> and \<open>set\<close> of typed arrays, \<open>fill\<close>, \<open>set\<close> and \<open>copyWithin\<close> of
  \<open>Uint8Array\<close>, and the nine functions of \<open>Atomics\<close>, which all run \<open>jayess_atomics_apply\<close>) keeps every array of the heap
  that holds bytes one that holds bytes.
\<close>

theorem buffers_hold_bytes:
  assumes h: "holds_bytes (js t) b"
  shows "holds_bytes (snd (jayess_std_buffer_state_new s len)) (fst (jayess_std_buffer_state_new s len))
    \<and> holds_bytes (js (jayess_std_data_view_set_int8_method t view off v)) b
    \<and> holds_bytes (js (jayess_std_data_view_set_uint8_method t view off v)) b
    \<and> holds_bytes (js (jayess_std_data_view_set_int16_method t view off v le)) b
    \<and> holds_bytes (js (jayess_std_data_view_set_uint16_method t view off v le)) b
    \<and> holds_bytes (js (jayess_std_data_view_set_int32_method t view off v le)) b
    \<and> holds_bytes (js (jayess_std_data_view_set_uint32_method t view off v le)) b
    \<and> holds_bytes (js (jayess_std_data_view_set_float32_method t view off v le)) b
    \<and> holds_bytes (js (jayess_std_data_view_set_float64_method t view off v le)) b
    \<and> holds_bytes (js (jayess_std_typed_array_set_number t target i x)) b
    \<and> holds_bytes (js (jayess_std_typed_array_fill_method t target v)) b
    \<and> holds_bytes (js (jayess_std_typed_array_set_method t target v w)) b
    \<and> holds_bytes (js (jayess_std_uint8_fill_method t target v)) b
    \<and> holds_bytes (js (jayess_std_uint8_set_method t target v w)) b
    \<and> holds_bytes (js (jayess_std_uint8_copy_within_method t target v w u)) b
    \<and> holds_bytes (js (snd (jayess_atomics_apply t target v w op e))) b"
proof -
  note kept = byte_writes_hold [OF _ h]
  have r2: "holds_bytes (js (jayess_std_data_view_set_int8_method t view off v)) b"
    "holds_bytes (js (jayess_std_data_view_set_uint8_method t view off v)) b"
    "holds_bytes (js (jayess_std_data_view_set_int16_method t view off v le)) b"
    "holds_bytes (js (jayess_std_data_view_set_uint16_method t view off v le)) b"
    "holds_bytes (js (jayess_std_data_view_set_int32_method t view off v le)) b"
    "holds_bytes (js (jayess_std_data_view_set_uint32_method t view off v le)) b"
    "holds_bytes (js (jayess_std_data_view_set_float32_method t view off v le)) b"
    "holds_bytes (js (jayess_std_data_view_set_float64_method t view off v le)) b"
    "holds_bytes (js (jayess_std_typed_array_set_number t target i x)) b"
    "holds_bytes (js (jayess_std_typed_array_fill_method t target v)) b"
    unfolding setter_defs jayess_std_data_view_write_u32_target_def jayess_std_data_view_write_u64_target_def
      jayess_std_typed_array_fill_method_def
    by (rule kept, (assumption | intro u16_writes u32_writes u64_writes view_write set_number_writes fill_loop_writes no_write)+)+
  have r3: "holds_bytes (js (jayess_std_typed_array_set_method t target v w)) b"
    by (rule kept) (auto simp: jayess_std_typed_array_set_method_def Let_def
        intro: no_write fill_loop_writes copy_loop_writes split: option.split jayess_value.split)
  have r4: "holds_bytes (js (jayess_std_uint8_set_method t target v w)) b"
    using h by (auto simp: jayess_std_uint8_set_method_def Let_def move_holds split: option.split)
  show ?thesis
    by (intro conjI r2 r3 r4 new_buffer_holds uint8_fill_holds [OF h] within_method_holds [OF h] atomics_hold [OF h])
qed

theorem buffers_hold_bytes_witness:
  "holds_bytes (js (jayess_std_typed_array_set_number (example_bytes ''Int8Array'' False) (Some (VObject 0)) 3 (dbl_of_int 200))) 2"
  using buffers_hold_bytes [of "example_bytes ''Int8Array'' False" 2] by (simp add: holds_bytes_def example_bytes_facts list_all_length)

end
