(* ===== verification/Encoding_Correct.thy ===== *)
theory Encoding_Correct
  imports Byte_Correct
begin

text \<open>
  New byte views and the encodings: what \<open>new_bytes\<close> leaves in the heap, and with it that decoding a text
  gives back the bytes it was encoded from; what \<open>base64\<close> decoding does with unpadded texts.
\<close>

section \<open>New views\<close>

lemma store_loop_eq: "i + length ws \<le> length vs \<Longrightarrow> store_loop vs i ws = take i vs @ ws @ drop (i + length ws) vs"
proof (induction ws arbitrary: vs i)
  case (Cons w ws)
  then show ?case by (simp add: take_Suc_conv_app_nth)
qed simp

lemma zero_bytes_slots:
  "slots_at (zero_bytes_loop s b n) a = (if a = b then slots_at s b @ replicate n (byte_slot 0) else slots_at s a)"
  "objects (zero_bytes_loop s b n) = objects s" "next_address (zero_bytes_loop s b n) = next_address s"
  by (induction n arbitrary: s) (simp_all add: zero_slot push_slot_def array_push)

lemma int_arg_number: "- (2 ^ 31) \<le> i \<Longrightarrow> i < 2 ^ 31 \<Longrightarrow> int_arg (Some (number_result i)) = i"
  using c_int_of_int [of i] dbl_eq_of_int [of i 0] c_int_of_int [of 0]
  by (auto simp: int_arg_def number_result_def value_from_number dbl_of_int_0)

lemma object_kind_set:
  "object_kind (object_set s a ''__jayess_std_kind'' (VString k)) (Some (VObject b)) =
     (if b = a then Some k else object_kind s (Some (VObject b)))"
  by (simp add: object_kind_def object_get_set)

lemma object_kind_objects: "objects s' b = objects s b \<Longrightarrow> object_kind s' (Some (VObject b)) = object_kind s (Some (VObject b))"
  by (simp add: object_kind_def object_get_def entries_at_def)

lemma new_buffer_view:
  fixes t :: byte_state
  assumes "n < 2 ^ 31"
  defines "r \<equiv> jayess_std_array_buffer_new t (Some (number_result (int n)))"
  shows "fst r = VObject (next_address (js t))"
    and "object_kind (js (snd r)) (Some (VObject (next_address (js t)))) = Some ''ArrayBuffer''"
    and "native (snd r) (next_address (js t)) = Some (Suc (next_address (js t)), False)"
    and "slots_at (js (snd r)) (Suc (next_address (js t))) = replicate n (byte_slot 0)"
    and "next_address (js (snd r)) = Suc (Suc (next_address (js t)))"
    and "\<forall>b < next_address (js t). objects (js (snd r)) b = objects (js t) b"
proof -
  define s1 where "s1 = snd (jayess_object_new (js t))"
  define s2 where "s2 = snd (jayess_array_new s1)"
  have new: "jayess_object_new (js t) = (next_address (js t), s1)" "next_address s1 = Suc (next_address (js t))"
    "jayess_array_new s1 = (Suc (next_address (js t)), s2)" "next_address s2 = Suc (Suc (next_address (js t)))"
    "slots_at s2 (Suc (next_address (js t))) = []"
    by (simp_all add: s1_def s2_def jayess_object_new_def jayess_array_new_def slots_at_def)
  have n: "c_int (jayess_value_to_number (Some (number_result (int n)))) = int n"
    using int_arg_number [of "int n"] assms(1) by (simp add: int_arg_def)
  have r: "r = (VObject (next_address (js t)),
      t\<lparr>js := object_set (zero_bytes_loop s2 (Suc (next_address (js t))) n) (next_address (js t)) ''__jayess_std_kind''
                (VString ''ArrayBuffer''),
        native := (native t)(next_address (js t) \<mapsto> (Suc (next_address (js t)), False))\<rparr>)"
    by (simp add: r_def jayess_std_array_buffer_new_def buffer_object_def new n jayess_std_buffer_state_new_def)
  show "fst r = VObject (next_address (js t))"
    "object_kind (js (snd r)) (Some (VObject (next_address (js t)))) = Some ''ArrayBuffer''"
    "native (snd r) (next_address (js t)) = Some (Suc (next_address (js t)), False)"
    "slots_at (js (snd r)) (Suc (next_address (js t))) = replicate n (byte_slot 0)"
    "next_address (js (snd r)) = Suc (Suc (next_address (js t)))"
    by (simp_all add: r object_kind_set zero_bytes_slots new slots_at_def [of "object_set _ _ _ _"])
      (simp_all add: slots_at_def [symmetric] zero_bytes_slots new)
  show "\<forall>b < next_address (js t). objects (js (snd r)) b = objects (js t) b"
    by (simp add: r object_set_other zero_bytes_slots s2_def s1_def jayess_array_new_def object_new_other)
qed

lemma typed_array_of_buffer:
  fixes t :: byte_state
  assumes "object_kind (js t) (Some (VObject a)) = Some ''ArrayBuffer''" and "native t a = Some (b, shared)"
    and "a < next_address (js t)"
  defines "r \<equiv> jayess_std_typed_array_new t ''Uint8Array'' (Some (VObject a))"
  shows "jayess_std_bytes_slot (snd r) (Some (fst r)) = Some b" and "slots_at (js (snd r)) = slots_at (js t)"
    and "\<forall>c < next_address (js t). objects (js (snd r)) c = objects (js t) c"
proof -
  let ?n = "next_address (js t)"
  define s1 where "s1 = snd (jayess_object_new (js t))"
  have new: "jayess_object_new (js t) = (?n, s1)" "objects s1 a = objects (js t) a" "arrays s1 = arrays (js t)"
    using assms(3) by (simp_all add: s1_def jayess_object_new_def)
  have kind: "object_kind s1 (Some (VObject a)) = Some ''ArrayBuffer''"
    using assms(1) object_kind_objects [of s1 a "js t"] new(2) by simp
  have r: "r = (VObject ?n, t\<lparr>js := object_set s1 ?n ''__jayess_std_kind'' (VString ''Uint8Array''),
      native := (native t)(?n \<mapsto> (b, shared))\<rparr>)"
    by (simp add: r_def jayess_std_typed_array_new_def new(1) jayess_std_kind_is_def kind jayess_std_bytes_state_def assms(2))
  show "jayess_std_bytes_slot (snd r) (Some (fst r)) = Some b" "slots_at (js (snd r)) = slots_at (js t)"
    by (simp_all add: r jayess_std_bytes_slot_def jayess_std_bytes_state_def jayess_std_typed_array_kind_def object_kind_set
        jayess_std_is_typed_array_kind_def fun_eq_iff slots_at_def new(3))
  show "\<forall>c < next_address (js t). objects (js (snd r)) c = objects (js t) c"
    by (simp add: r object_set_other s1_def object_new_other)
qed

lemma new_bytes_view:
  assumes "length vs < 2 ^ 31"
  shows "bytes_of (snd (new_bytes t vs)) (Some (fst (new_bytes t vs))) = vs"
    and "b < next_address (js t) \<Longrightarrow> objects (js (snd (new_bytes t vs))) b = objects (js t) b"
proof -
  let ?b = "Suc (next_address (js t))"
  obtain buffer t1 where b: "jayess_std_array_buffer_new t (Some (number_result (int (length vs)))) = (buffer, t1)"
    by fastforce
  obtain view t2 where v: "jayess_std_typed_array_new t1 ''Uint8Array'' (Some buffer) = (view, t2)" by fastforce
  note buf = new_buffer_view [OF assms, of t, unfolded b fst_conv snd_conv]
  have view: "jayess_std_bytes_slot t2 (Some view) = Some ?b" "slots_at (js t2) = slots_at (js t1)"
    using typed_array_of_buffer [OF buf(2,3)] v buf(1,5) by simp_all
  have kept: "jayess_std_bytes_slot (t2\<lparr>js := set_slots (js t2) ?b ws\<rparr>) (Some view) = Some ?b" for ws
    using view(1) bytes_slot_cong(1) [of "t2\<lparr>js := set_slots (js t2) ?b ws\<rparr>" t2] by (simp add: set_slots_def)
  have "store_loop (slots_at (js t2) ?b) 0 vs = vs"
    using store_loop_eq [of 0 vs "slots_at (js t2) ?b"] by (simp add: view(2) buf(4))
  then show "bytes_of (snd (new_bytes t vs)) (Some (fst (new_bytes t vs))) = vs"
    by (simp add: new_bytes_def b v view(1) bytes_of_def kept)
      (simp add: set_slots_def slots_at_def)
  assume "b < next_address (js t)"
  then show "objects (js (snd (new_bytes t vs))) b = objects (js t) b"
    using typed_array_of_buffer(3) [OF buf(2,3)] v buf(1,5,6) by (simp add: new_bytes_def b v view(1) set_slots_def)
qed

lemma byte_of_range: "0 \<le> byte_of v" "byte_of v < 256"
  by (simp_all add: byte_of_def and_mask)

lemma byte_of_number: "is_byte b \<Longrightarrow> byte_of (Some (number_result b)) = b"
  by (simp add: byte_of_def is_byte_def and_mask flip: int_arg_def) (simp add: int_arg_number)

lemma from_bytes_view:
  assumes "length bs < 2 ^ 31" and "list_all is_byte bs"
  shows "map byte_of (bytes_of (snd (jayess_std_uint8_array_from_bytes t bs)) (Some (fst (jayess_std_uint8_array_from_bytes t bs)))) = bs"
proof -
  have "map (byte_of \<circ> (\<lambda>b. Some (number_result b))) bs = bs"
    using assms(2) by (induction bs) (simp_all add: byte_of_number)
  then show ?thesis using assms(1) by (simp add: jayess_std_uint8_array_from_bytes_def new_bytes_view)
qed

section \<open>Digits without padding\<close>

definition base64_digit :: "char \<Rightarrow> bool" where
  "base64_digit c \<longleftrightarrow> 0 \<le> jayess_std_base64_decode_char c"

lemma base64_digit_plain:
  "base64_digit c \<Longrightarrow> c \<noteq> CHR ''='' \<and> c \<notin> {CHR '' '', CHR 0x0A, CHR 0x0D, CHR 0x09}"
proof -
  have "list_all (\<lambda>c. \<not> base64_digit c) [CHR ''='', CHR '' '', CHR 0x0A, CHR 0x0D, CHR 0x09]" by code_simp
  then show "base64_digit c \<Longrightarrow> ?thesis" by auto
qed

lemma quad_loop_plain:
  "base64_digit c \<Longrightarrow> length vals < 4 \<Longrightarrow>
   quad_loop vals pad (c # r) = quad_loop (vals @ [jayess_std_base64_decode_char c]) pad r"
  using base64_digit_plain [of c] by (simp add: quad_loop.simps)

lemma quad_loop_full: "length vals = 4 \<Longrightarrow> quad_loop vals pad r = Inr (vals, pad, r)"
  by (cases r) (simp_all add: quad_loop.simps)

lemma unpadded_loop:
  assumes "list_all base64_digit s" and "length s mod 4 \<in> {1, 2}"
  shows "base64_loop decoded s = Inl Out_of_bounds"
  using assms
proof (induction "length s" arbitrary: s decoded rule: less_induct)
  case less
  consider a where "s = [a]" | a b where "s = [a, b]" | a b c where "s = [a, b, c]"
    | a b c d r where "s = a # b # c # d # r" | "s = []"
    by (metis (no_types, opaque_lifting) list.exhaust)
  then show ?case
  proof cases
    case 4
    have digits: "0 \<le> jayess_std_base64_decode_char a" "0 \<le> jayess_std_base64_decode_char b"
      using less.prems(1) by (simp_all add: 4 base64_digit_def)
    have quad: "quad_loop [] False s = Inr (map jayess_std_base64_decode_char [a, b, c, d], False, r)"
      using less.prems(1) by (simp add: 4 quad_loop_plain quad_loop_full )
    have "base64_loop (decoded @ quad_bytes (map jayess_std_base64_decode_char [a, b, c, d])) r = Inl Out_of_bounds"
      using less.prems by (intro less.hyps) (simp_all add: 4)
    then show ?thesis using digits quad by (subst base64_loop.simps) (simp add: 4)
  qed (use less.prems in \<open>simp_all add: base64_loop.simps [of decoded "_ # _"] quad_loop_plain quad_loop.simps(1)\<close>)
qed

section \<open>Properties\<close>

text \<open>
  C24. Encodings. The text that \<open>toString\<close> of a \<open>Uint8Array\<close> of fewer than \<open>2 ^ 30\<close> bytes answers for \<open>hex\<close> or
  \<open>base64\<close>, given to \<open>fromString\<close> with the same encoding, makes a new array with the same bytes, and the decoder reads
  nothing outside the text. (From \<open>2 ^ 30\<close> bytes on the index of the \<open>hex\<close> encoder overflows its \<open>int\<close>.)
\<close>

theorem encodings_roundtrip:
  assumes "jayess_std_bytes_slot t env = Some b" and "length (slots_at (js t) b) < 2 ^ 30"
    and "encoding = ''hex'' \<or> encoding = ''base64''"
    and "jayess_std_uint8_to_string_method (Suc d) t env (Some (VString encoding)) = Some text"
  shows "\<exists>view t'. jayess_std_uint8_array_from_string (Suc d) t (Some text) (Some (VString encoding)) = Some (Inr (view, t'))
    \<and> map byte_of (bytes_of t' (Some view)) = map byte_of (bytes_of t env)"
proof -
  let ?bs = "map byte_of (slots_at (js t) b)"
  have bytes: "list_all is_byte ?bs" by (simp add: list_all_length is_byte_def byte_of_range)
  then have hex: "hex_decode (hex_encode ?bs) = ?bs" by (intro hex_roundtrip) (simp add: is_byte_def cong: list.pred_cong)
  have base64: "base64_decode (base64_encode ?bs) = Inr ?bs"
    using base64_loop_encode [OF bytes, of "[]"] by (simp add: base64_decode_def)
  have name: "encoding_text (Suc d) (js t) (Some (VString encoding)) = Some (Some encoding)"
    by (simp add: encoding_text_def jayess_value_is_nullish_def stringify_Suc_simp)
  have "jayess_std_uint8_array_from_string (Suc d) t (Some text) (Some (VString encoding))
      = Some (Inr (jayess_std_uint8_array_from_bytes t ?bs))"
    using assms(1,3,4) hex base64 name
    by (elim disjE) (auto simp: jayess_std_uint8_to_string_method_def jayess_std_uint8_array_from_string_def
        jayess_std_bytes_encoding_is_hex_def jayess_std_bytes_encoding_is_base64_def stringify_Suc_simp)
  moreover have "map byte_of (bytes_of (snd (jayess_std_uint8_array_from_bytes t ?bs))
      (Some (fst (jayess_std_uint8_array_from_bytes t ?bs)))) = ?bs"
    using assms(2) bytes by (intro from_bytes_view) simp_all
  ultimately show ?thesis using assms(1) by (auto simp: bytes_of_def prod_eq_iff)
qed

theorem encodings_roundtrip_witness:
  "\<exists>text view t'. jayess_std_uint8_to_string_method 1 (example_bytes ''Uint8Array'' False) (Some (VObject 0))
      (Some (VString ''hex'')) = Some text
    \<and> jayess_std_uint8_array_from_string 1 (example_bytes ''Uint8Array'' False) (Some text) (Some (VString ''hex''))
      = Some (Inr (view, t'))"
proof -
  have slot: "jayess_std_bytes_slot (example_bytes ''Uint8Array'' False) (Some (VObject 0)) = Some 2"
    by (simp add: example_bytes_slot jayess_std_is_typed_array_kind_def)
  obtain shown where shown: "jayess_std_uint8_to_string_method (Suc 0) (example_bytes ''Uint8Array'' False) (Some (VObject 0))
      (Some (VString ''hex'')) = Some shown"
    by (simp add: jayess_std_uint8_to_string_method_def slot encoding_text_def jayess_value_is_nullish_def stringify_Suc_simp)
  show ?thesis
    using encodings_roundtrip [OF slot _ _ shown] shown by (auto simp: example_bytes_facts)
qed

text \<open>
  Unpadded \<open>base64\<close>. A text of digits only whose length is one or two more than a multiple of four makes
  \<open>fromString\<close> read behind the terminating zero of the text.
\<close>

theorem unpadded_base64_overreads:
  assumes "list_all base64_digit text" and "length text mod 4 \<in> {1, 2}"
  shows "jayess_std_uint8_array_from_string (Suc d) t (Some (VString text)) (Some (VString ''base64''))
    = Some (Inl Out_of_bounds)"
  using unpadded_loop [OF assms, of "[]"]
  by (simp add: jayess_std_uint8_array_from_string_def encoding_text_def jayess_value_is_nullish_def
      jayess_std_bytes_encoding_is_hex_def jayess_std_bytes_encoding_is_base64_def base64_decode_def stringify_Suc_simp)

theorem unpadded_base64_overreads_witness:
  "jayess_std_uint8_array_from_string 1 (example_bytes ''Uint8Array'' False) (Some (VString ''QQ'')) (Some (VString ''base64''))
    = Some (Inl Out_of_bounds)"
proof -
  have "list_all base64_digit ''QQ''"
    by code_simp
  then show ?thesis using unpadded_base64_overreads [of "''QQ''" 0] by simp
qed

end
