(* ===== verification/Json_Parse.thy ===== *)
theory Json_Parse
  imports Value_Text
begin

text \<open>
  \<open>JSON.parse\<close> and \<open>JSON.stringify\<close> of \<open>jayess_runtime.c\<close>. The cursor of the parser is the rest of the
  text, the end of the text is the terminating zero of the C string. Every function answers the
  value, the cursor where it stopped, also after an error, and the state with the objects and arrays
  it has built. \<open>f\<close> is fuel: the number of nested or repeated steps; \<open>json_fuel\<close> is enough for a
  text.
\<close>

section \<open>Tokens\<close>

definition jayess_json_skip_ws :: "string \<Rightarrow> string" where
  "jayess_json_skip_ws s = dropWhile c_isspace s"

text \<open>The character an escape stands for.\<close>

definition json_escape :: "char \<Rightarrow> char option" where
  "json_escape ch =
     (if ch = CHR 0x22 \<or> ch = CHR 0x5C \<or> ch = CHR ''/'' then Some ch
      else if ch = CHR ''b'' then Some (CHR 0x08)
      else if ch = CHR ''f'' then Some (CHR 0x0C)
      else if ch = CHR ''n'' then Some (CHR 0x0A)
      else if ch = CHR ''r'' then Some (CHR 0x0D)
      else if ch = CHR ''t'' then Some (CHR 0x09)
      else None)"

text \<open>
  The characters up to the closing quote and the cursor behind it; \<open>None\<close> with the cursor where an
  unknown escape or the end of the text was met. When the text ends in a backslash the code moves its
  cursor one past the terminating zero, here it stays at the end; what an array or object around it
  would read there is not modelled, and the properties exclude such texts.
\<close>

fun json_string_loop :: "string \<Rightarrow> string \<Rightarrow> string option \<times> string" where
  "json_string_loop out [] = (None, [])"
| "json_string_loop out (ch # s) =
     (if ch = CHR 0x22 then (Some out, s)
      else if ch = CHR 0x5C
      then (case s of
              [] \<Rightarrow> (None, [])
            | e # s' \<Rightarrow> (case json_escape e of None \<Rightarrow> (None, s') | Some c \<Rightarrow> json_string_loop (out @ [c]) s'))
      else json_string_loop (out @ [ch]) s)"

definition jayess_json_parse_string_raw :: "string \<Rightarrow> string option \<times> string" where
  "jayess_json_parse_string_raw s =
     (case s of [] \<Rightarrow> (None, s) | c # s' \<Rightarrow> if c \<noteq> CHR 0x22 then (None, s) else json_string_loop [] s')"

definition jayess_json_parse_string :: "string \<Rightarrow> jayess_value \<times> string" where
  "jayess_json_parse_string s =
     (case jayess_json_parse_string_raw s of (None, r) \<Rightarrow> (VUndefined, r) | (Some t, r) \<Rightarrow> (VString t, r))"

text \<open>\<open>strtod\<close> leaves the cursor where it is when there is nothing to convert.\<close>

definition jayess_json_parse_number :: "string \<Rightarrow> jayess_value \<times> string" where
  "jayess_json_parse_number s =
     (let (x, r) = strtod s in if r = s then (VUndefined, s) else (jayess_value_from_number x, r))"

section \<open>Values\<close>

definition push_value :: "jayess_state \<Rightarrow> nat \<Rightarrow> jayess_value \<Rightarrow> jayess_state" where
  "push_value s a v = (let (acc, vs, _) = jayess_array_push_value (accounting s) (slots_at s a) (Some v) in array_write s a (acc, vs))"

type_synonym json_result = "(jayess_value \<times> string \<times> jayess_state) option"

text \<open>
  The bodies of the loops and of the functions, with the functions they call as arguments; the
  recursion is tied below.
\<close>

definition json_array_body ::
  "(jayess_state \<Rightarrow> string \<Rightarrow> json_result) \<Rightarrow> (jayess_state \<Rightarrow> nat \<Rightarrow> string \<Rightarrow> json_result)
   \<Rightarrow> jayess_state \<Rightarrow> nat \<Rightarrow> string \<Rightarrow> json_result" where
  "json_array_body parse_value loop st a s =
     (if s = [] then Some (VUndefined, s, st)
      else (case parse_value st s of
              None \<Rightarrow> None
            | Some (v, r, st1) \<Rightarrow>
                (let st2 = push_value st1 a v; t = jayess_json_skip_ws r
                 in if prefix '']'' t then Some (VArray a, tl t, st2)
                    else if prefix '','' t then loop st2 a (jayess_json_skip_ws (tl t))
                    else Some (VUndefined, t, st2))))"

definition jayess_json_parse_array ::
  "(jayess_state \<Rightarrow> nat \<Rightarrow> string \<Rightarrow> json_result) \<Rightarrow> jayess_state \<Rightarrow> string \<Rightarrow> json_result" where
  "jayess_json_parse_array loop st s =
     (let (a, st1) = jayess_array_new st
      in if \<not> prefix ''['' s then Some (VUndefined, s, st1)
         else (let t = jayess_json_skip_ws (tl s)
               in if prefix '']'' t then Some (VArray a, tl t, st1) else loop st1 a t))"

definition json_object_body ::
  "(jayess_state \<Rightarrow> string \<Rightarrow> json_result) \<Rightarrow> (jayess_state \<Rightarrow> nat \<Rightarrow> string \<Rightarrow> json_result)
   \<Rightarrow> jayess_state \<Rightarrow> nat \<Rightarrow> string \<Rightarrow> json_result" where
  "json_object_body parse_value loop st a s =
     (case jayess_json_parse_string_raw s of
        (None, r) \<Rightarrow> Some (VUndefined, r, st)
      | (Some key, r) \<Rightarrow>
          (let t = jayess_json_skip_ws r
           in if \<not> prefix '':'' t then Some (VUndefined, t, st)
              else (case parse_value st (jayess_json_skip_ws (tl t)) of
                      None \<Rightarrow> None
                    | Some (v, r', st1) \<Rightarrow>
                        (let st2 = object_set st1 a key v; u = jayess_json_skip_ws r'
                         in if prefix ''}'' u then Some (VObject a, tl u, st2)
                            else if prefix '','' u then loop st2 a (jayess_json_skip_ws (tl u))
                            else Some (VUndefined, u, st2)))))"

definition jayess_json_parse_object ::
  "(jayess_state \<Rightarrow> nat \<Rightarrow> string \<Rightarrow> json_result) \<Rightarrow> jayess_state \<Rightarrow> string \<Rightarrow> json_result" where
  "jayess_json_parse_object loop st s =
     (let (a, st1) = jayess_object_new st
      in if \<not> prefix ''{'' s then Some (VUndefined, s, st1)
         else (let t = jayess_json_skip_ws (tl s)
               in if prefix ''}'' t then Some (VObject a, tl t, st1) else loop st1 a t))"

definition json_value_body ::
  "(jayess_state \<Rightarrow> nat \<Rightarrow> string \<Rightarrow> json_result) \<Rightarrow> (jayess_state \<Rightarrow> nat \<Rightarrow> string \<Rightarrow> json_result)
   \<Rightarrow> jayess_state \<Rightarrow> string \<Rightarrow> json_result" where
  "json_value_body array_loop object_loop st s =
     (let t = jayess_json_skip_ws s
      in case t of
           [] \<Rightarrow> Some (VUndefined, t, st)
         | c # r \<Rightarrow>
             if c = CHR 0x22 then (let (v, r') = jayess_json_parse_string t in Some (v, r', st))
             else if c = CHR ''{'' then jayess_json_parse_object object_loop st t
             else if c = CHR ''['' then jayess_json_parse_array array_loop st t
             else if prefix ''true'' t then Some (VBool True, drop 4 t, st)
             else if prefix ''false'' t then Some (VBool False, drop 5 t, st)
             else if prefix ''null'' t then Some (VNull, drop 4 t, st)
             else if c = CHR ''-'' \<or> c_isdigit c then (let (v, r') = jayess_json_parse_number t in Some (v, r', st))
             else Some (VUndefined, t, st))"

fun jayess_json_parse_value :: "nat \<Rightarrow> jayess_state \<Rightarrow> string \<Rightarrow> json_result"
  and json_array_loop :: "nat \<Rightarrow> jayess_state \<Rightarrow> nat \<Rightarrow> string \<Rightarrow> json_result"
  and json_object_loop :: "nat \<Rightarrow> jayess_state \<Rightarrow> nat \<Rightarrow> string \<Rightarrow> json_result" where
  "jayess_json_parse_value 0 st s = None"
| "jayess_json_parse_value (Suc f) st s =
     json_value_body (\<lambda>st a s. json_array_loop f st a s) (\<lambda>st a s. json_object_loop f st a s) st s"
| "json_array_loop 0 st a s = None"
| "json_array_loop (Suc f) st a s =
     json_array_body (\<lambda>st s. jayess_json_parse_value f st s) (\<lambda>st a s. json_array_loop f st a s) st a s"
| "json_object_loop 0 st a s = None"
| "json_object_loop (Suc f) st a s =
     json_object_body (\<lambda>st s. jayess_json_parse_value f st s) (\<lambda>st a s. json_object_loop f st a s) st a s"

definition json_fuel :: "string \<Rightarrow> nat" where
  "json_fuel s = 2 * length s + 1"

definition jayess_std_json_parse :: "nat \<Rightarrow> jayess_state \<Rightarrow> jayess_value option \<Rightarrow> (jayess_value \<times> jayess_state) option" where
  "jayess_std_json_parse f st v =
     (case v of
        Some (VString s) \<Rightarrow> map_option (\<lambda>(w, _, st'). (w, st')) (jayess_json_parse_value f st s)
      | _ \<Rightarrow> Some (VUndefined, st))"

definition jayess_std_json_stringify :: "nat \<Rightarrow> jayess_state \<Rightarrow> jayess_value option \<Rightarrow> jayess_value option" where
  "jayess_std_json_stringify d st v = map_option VString (jayess_value_stringify d st v)"

end
