(* ===== verification/Json_Correct.thy ===== *)
theory Json_Correct
  imports Json_Parse
begin

text \<open>
  \<open>JSON.parse\<close> terminates on every text, and reads back the JSON texts of numbers below a million,
  texts, arrays and objects.
\<close>

section \<open>The cursor never moves back\<close>

lemma length_skip_ws: "length (jayess_json_skip_ws s) \<le> length s"
  by (simp add: jayess_json_skip_ws_def length_dropWhile_le)

lemma length_string_loop:
  "length (snd (json_string_loop out s)) \<le> length s
   \<and> (fst (json_string_loop out s) \<noteq> None \<longrightarrow> length (snd (json_string_loop out s)) < length s)"
proof (induction s arbitrary: out rule: length_induct)
  case (1 s)
  show ?case
  proof (cases s)
    case s: (Cons ch t)
    show ?thesis
    proof (cases "ch = CHR 0x5C")
      case esc: True
      show ?thesis
      proof (cases t)
        case (Cons e u)
        then show ?thesis using 1 [rule_format, of u "out @ [the (json_escape e)]"] s esc
          by (cases "json_escape e") auto
      qed (simp add: s esc)
    next
      case False
      then show ?thesis using 1 [rule_format, of t "out @ [ch]"] s by auto
    qed
  qed simp
qed

lemma length_string_raw:
  "length (snd (jayess_json_parse_string_raw s)) \<le> length s"
  "jayess_json_parse_string_raw s = (Some t, r) \<Longrightarrow> length r < length s"
proof -
  show "length (snd (jayess_json_parse_string_raw s)) \<le> length s"
    using length_string_loop [of "[]" "tl s"] by (cases s) (auto simp: jayess_json_parse_string_raw_def)
  show "jayess_json_parse_string_raw s = (Some t, r) \<Longrightarrow> length r < length s"
    using length_string_loop [of "[]" "tl s"]
    by (cases s) (auto simp: jayess_json_parse_string_raw_def split: if_splits)
qed

lemma length_parse_string: "length (snd (jayess_json_parse_string s)) \<le> length s"
  using length_string_raw(1) [of s]
  by (cases "jayess_json_parse_string_raw s"; cases "fst (jayess_json_parse_string_raw s)")
    (auto simp: jayess_json_parse_string_def)

lemma length_strip_sign: "length (snd (strip_sign s)) \<le> length s"
  by (auto simp: strip_sign_def split: list.split)

lemma length_mantissa: "parse_mantissa d s = Some (ip, fp, r) \<Longrightarrow> length r \<le> length s"
proof -
  assume m: "parse_mantissa d s = Some (ip, fp, r)"
  have "length (dropWhile d s) \<le> length s" by (rule length_dropWhile_le)
  moreover have "r = dropWhile d s \<or> (\<exists>c u. dropWhile d s = c # u \<and> r = dropWhile d u)"
    using m by (auto simp: parse_mantissa_def Let_def split: list.splits if_splits)
  ultimately show ?thesis using length_dropWhile_le [of d] by (metis le_trans length_Cons le_SucI)
qed

lemma length_exponent: "length (snd (parse_exponent c s)) \<le> length s"
proof (cases s)
  case (Cons d r)
  have "length (dropWhile is_digit (snd (strip_sign r))) \<le> length r"
    using length_dropWhile_le [of is_digit "snd (strip_sign r)"] length_strip_sign [of r] by linarith
  then show ?thesis
    by (auto simp: parse_exponent_def Cons Let_def case_prod_unfold)
qed (simp add: parse_exponent_def)

lemma length_nan_suffix: "length (nan_suffix s) \<le> length s"
proof (cases s)
  case (Cons c cs)
  let ?r = "dropWhile (\<lambda>d. c_isalnum d \<or> d = CHR ''_'') cs"
  have "length ?r \<le> length cs" by (rule length_dropWhile_le)
  then show ?thesis by (auto simp: nan_suffix_def Cons split: list.split)
qed (simp add: nan_suffix_def)

lemma length_strtod: "length (snd (strtod s)) \<le> length s"
proof -
  define t where "t = snd (strip_sign (dropWhile c_isspace s))"
  have t: "length t \<le> length s"
    using length_strip_sign [of "dropWhile c_isspace s"] length_dropWhile_le [of c_isspace s] by (simp add: t_def)
  have m: "length (snd (parse_exponent c r)) \<le> length s"
    if "parse_mantissa d u = Some (ip, fp, r)" "length u \<le> length t" for c r d u ip fp
    using length_mantissa [OF that(1)] length_exponent [of c r] that(2) t by linarith
  have "length (nan_suffix (drop 3 t)) \<le> length s" using length_nan_suffix [of "drop 3 t"] t by simp
  with t m show ?thesis
    by (auto simp: strtod_def Let_def case_prod_unfold t_def [symmetric] split: option.split)
qed

lemma length_parse_number: "length (snd (jayess_json_parse_number s)) \<le> length s"
  using length_strtod [of s] by (simp add: jayess_json_parse_number_def case_prod_unfold Let_def)

text \<open>The same for a function that answers a cursor.\<close>

definition advances :: "(jayess_state \<Rightarrow> string \<Rightarrow> json_result) \<Rightarrow> bool" where
  "advances p \<longleftrightarrow> (\<forall>st s v r st'. p st s = Some (v, r, st') \<longrightarrow> length r \<le> length s)"

lemma advancesD: "advances p \<Longrightarrow> p st s = Some (v, r, st') \<Longrightarrow> length r \<le> length s"
  unfolding advances_def by blast

lemma length_tl_skip: "length (jayess_json_skip_ws (tl t)) \<le> length t"
  using length_skip_ws [of "tl t"] by simp

lemma length_tl_skip_less: "t \<noteq> [] \<Longrightarrow> length (jayess_json_skip_ws (tl t)) < length t"
  using length_skip_ws [of "tl t"] by (cases t) simp_all

lemma array_body_advances:
  assumes "advances pv" and "\<And>a. advances (\<lambda>st. loop st a)"
  shows "advances (\<lambda>st. json_array_body pv loop st a)"
  unfolding advances_def
proof (intro allI impI)
  fix st s v r st'
  assume run: "json_array_body pv loop st a s = Some (v, r, st')"
  show "length r \<le> length s"
  proof (cases "s = []")
    case True
    with run show ?thesis by (simp add: json_array_body_def)
  next
    case False
    with run obtain w u st1 where pv: "pv st s = Some (w, u, st1)"
      by (cases "pv st s") (auto simp: json_array_body_def)
    let ?t = "jayess_json_skip_ws u"
    have t: "length ?t \<le> length s" using advancesD [OF assms(1) pv] length_skip_ws [of u] by linarith
    consider "r = tl ?t" | "r = ?t" | st2 where "loop st2 a (jayess_json_skip_ws (tl ?t)) = Some (v, r, st')"
      using run False by (auto simp: json_array_body_def pv Let_def split: if_splits)
    then show ?thesis
    proof cases
      case 3
      with advancesD [OF assms(2), of st2 a "jayess_json_skip_ws (tl ?t)"] length_tl_skip [of ?t] t
      show ?thesis by simp
    qed (use t in auto)
  qed
qed

lemma object_body_advances:
  assumes "advances pv" and "\<And>a. advances (\<lambda>st. loop st a)"
  shows "advances (\<lambda>st. json_object_body pv loop st a)"
  unfolding advances_def
proof (intro allI impI)
  fix st s v r st'
  assume run: "json_object_body pv loop st a s = Some (v, r, st')"
  obtain k q where raw: "jayess_json_parse_string_raw s = (k, q)" by fastforce
  let ?t = "jayess_json_skip_ws q"
  have t: "length q \<le> length s" "length ?t \<le> length s"
    using length_string_raw(1) [of s] length_skip_ws [of q] raw by simp_all
  show "length r \<le> length s"
  proof (cases "k = None \<or> \<not> prefix '':'' ?t")
    case True
    with run t show ?thesis by (auto simp: json_object_body_def raw Let_def split: option.splits)
  next
    case False
    then obtain key where k: "k = Some key" by auto
    with run False obtain w u st1 where pv: "pv st (jayess_json_skip_ws (tl ?t)) = Some (w, u, st1)"
      by (cases "pv st (jayess_json_skip_ws (tl ?t))") (auto simp: json_object_body_def raw Let_def)
    let ?u = "jayess_json_skip_ws u"
    have u: "length ?u \<le> length s"
      using advancesD [OF assms(1) pv] length_skip_ws [of u] length_tl_skip [of ?t] t by linarith
    consider "r = tl ?u" | "r = ?u" | st2 where "loop st2 a (jayess_json_skip_ws (tl ?u)) = Some (v, r, st')"
      using run False by (auto simp: json_object_body_def raw k pv Let_def split: if_splits)
    then show ?thesis
    proof cases
      case 3
      with advancesD [OF assms(2), of st2 a "jayess_json_skip_ws (tl ?u)"] length_tl_skip [of ?u] u
      show ?thesis by simp
    qed (use u in auto)
  qed
qed

lemma parse_array_advances:
  assumes "\<And>a. advances (\<lambda>st. loop st a)"
  shows "advances (jayess_json_parse_array loop)"
  unfolding advances_def
proof (intro allI impI)
  fix st s v r st'
  assume run: "jayess_json_parse_array loop st s = Some (v, r, st')"
  let ?t = "jayess_json_skip_ws (tl s)"
  have t: "length ?t \<le> length s" by (rule length_tl_skip)
  consider "r = s" | "r = tl ?t" | st1 a where "loop st1 a ?t = Some (v, r, st')"
    using run by (auto simp: jayess_json_parse_array_def Let_def case_prod_unfold split: if_splits)
  then show "length r \<le> length s"
  proof cases
    case 3
    with advancesD [OF assms] t show ?thesis by (meson le_trans)
  qed (use t in auto)
qed

lemma parse_object_advances:
  assumes "\<And>a. advances (\<lambda>st. loop st a)"
  shows "advances (jayess_json_parse_object loop)"
  unfolding advances_def
proof (intro allI impI)
  fix st s v r st'
  assume run: "jayess_json_parse_object loop st s = Some (v, r, st')"
  let ?t = "jayess_json_skip_ws (tl s)"
  have t: "length ?t \<le> length s" by (rule length_tl_skip)
  consider "r = s" | "r = tl ?t" | st1 a where "loop st1 a ?t = Some (v, r, st')"
    using run by (auto simp: jayess_json_parse_object_def Let_def case_prod_unfold split: if_splits)
  then show "length r \<le> length s"
  proof cases
    case 3
    with advancesD [OF assms] t show ?thesis by (meson le_trans)
  qed (use t in auto)
qed

lemma value_body_advances:
  assumes "\<And>a. advances (\<lambda>st. al st a)" and "\<And>a. advances (\<lambda>st. ol st a)"
  shows "advances (json_value_body al ol)"
  unfolding advances_def
proof (intro allI impI)
  fix st s v r st'
  assume run: "json_value_body al ol st s = Some (v, r, st')"
  define t where "t = jayess_json_skip_ws s"
  have t: "length t \<le> length s" unfolding t_def by (rule length_skip_ws)
  have "r \<in> {t, snd (jayess_json_parse_string t), snd (jayess_json_parse_number t), drop 4 t, drop 5 t}
      \<or> jayess_json_parse_object ol st t = Some (v, r, st') \<or> jayess_json_parse_array al st t = Some (v, r, st')"
  proof (cases t)
    case Nil
    with run show ?thesis by (simp add: json_value_body_def t_def [symmetric])
  next
    case (Cons c u)
    note body = run [unfolded json_value_body_def Let_def t_def [symmetric] Cons list.case, folded Cons]
    show ?thesis
      using body by (simp add: case_prod_unfold split: if_split_asm)
  qed
  then have "length r \<le> length t"
    using length_parse_string [of t] length_parse_number [of t]
      advancesD [OF parse_object_advances [where loop = ol, OF assms(2)], of st t v r st']
      advancesD [OF parse_array_advances [where loop = al, OF assms(1)], of st t v r st']
    by (elim disjE insertE emptyE) simp_all
  with t show "length r \<le> length s" by simp
qed

lemma parser_Suc:
  "jayess_json_parse_value (Suc f) = json_value_body (json_array_loop f) (json_object_loop f)"
  "json_array_loop (Suc f) = json_array_body (jayess_json_parse_value f) (json_array_loop f)"
  "json_object_loop (Suc f) = json_object_body (jayess_json_parse_value f) (json_object_loop f)"
  by (intro ext, simp)+

lemma parser_0: "jayess_json_parse_value 0 = (\<lambda>_ _. None)" "json_array_loop 0 = (\<lambda>_ _ _. None)"
  "json_object_loop 0 = (\<lambda>_ _ _. None)"
  by (intro ext, simp)+

lemma parser_advances:
  "advances (jayess_json_parse_value f) \<and> (\<forall>a. advances (\<lambda>st. json_array_loop f st a))
   \<and> (\<forall>a. advances (\<lambda>st. json_object_loop f st a))"
proof (induction f)
  case 0
  show ?case by (simp add: parser_0 advances_def)
next
  case (Suc f)
  then have v: "advances (jayess_json_parse_value f)" and a: "\<And>a. advances (\<lambda>st. json_array_loop f st a)"
    and ob: "\<And>a. advances (\<lambda>st. json_object_loop f st a)" by simp_all
  show ?case
    unfolding parser_Suc
    using value_body_advances [where al = "json_array_loop f" and ol = "json_object_loop f", OF a ob]
      array_body_advances [where loop = "json_array_loop f", OF v a]
      object_body_advances [where loop = "json_object_loop f", OF v ob] by blast
qed

section \<open>Termination\<close>

lemma parser_total:
  "(2 * length s + 1 \<le> f \<longrightarrow> jayess_json_parse_value f st s \<noteq> None)
   \<and> (2 * length s + 2 \<le> f \<longrightarrow> json_array_loop f st a s \<noteq> None \<and> json_object_loop f st a s \<noteq> None)"
proof (induction f arbitrary: st a s)
  case (Suc f)
  have parse: "jayess_json_parse_value (Suc f) st s \<noteq> None" if "2 * length s \<le> f"
  proof -
    define t where "t = jayess_json_skip_ws s"
    have t: "length t \<le> length s" unfolding t_def by (rule length_skip_ws)
    have loops: "json_array_loop f st1 a1 (jayess_json_skip_ws (tl t)) \<noteq> None"
      "json_object_loop f st1 a1 (jayess_json_skip_ws (tl t)) \<noteq> None" if "t \<noteq> []" for st1 a1
    proof -
      have "length (jayess_json_skip_ws (tl t)) \<le> length t - 1" using length_skip_ws [of "tl t"] by simp
      moreover have "0 < length t" using that by simp
      ultimately have "2 * length (jayess_json_skip_ws (tl t)) + 2 \<le> f" using t \<open>2 * length s \<le> f\<close> by linarith
      with Suc.IH show "json_array_loop f st1 a1 (jayess_json_skip_ws (tl t)) \<noteq> None"
        "json_object_loop f st1 a1 (jayess_json_skip_ws (tl t)) \<noteq> None" by blast+
    qed
    show ?thesis
      using loops unfolding jayess_json_parse_value.simps json_value_body_def Let_def t_def [symmetric]
      by (auto simp: jayess_json_parse_array_def jayess_json_parse_object_def Let_def case_prod_unfold
          split: list.split)
  qed
  have array: "json_array_loop (Suc f) st a s \<noteq> None" if n: "2 * length s + 1 \<le> f"
  proof (cases "s = []")
    case False
    obtain v r st1 where pv: "jayess_json_parse_value f st s = Some (v, r, st1)"
      using Suc.IH n by (metis prod_cases3 option.exhaust)
    have "length r \<le> length s" using parser_advances pv by (meson advancesD)
    moreover have "length (jayess_json_skip_ws (tl (jayess_json_skip_ws r))) < length s"
      if "prefix '','' (jayess_json_skip_ws r)"
    proof -
      from that have "jayess_json_skip_ws r \<noteq> []" by auto
      from length_tl_skip_less [OF this] length_skip_ws [of r] \<open>length r \<le> length s\<close>
      show ?thesis by linarith
    qed
    ultimately show ?thesis
      using Suc.IH n False by (auto simp: json_array_body_def pv Let_def)
  qed (simp add: json_array_body_def)
  have object: "json_object_loop (Suc f) st a s \<noteq> None" if n: "2 * length s + 1 \<le> f"
  proof (cases "jayess_json_parse_string_raw s")
    case raw: (Pair k q)
    let ?t = "jayess_json_skip_ws q"
    show ?thesis
    proof (cases "k = None \<or> \<not> prefix '':'' ?t")
      case True
      then show ?thesis by (cases k) (auto simp: json_object_body_def raw)
    next
      case False
      then obtain key where k: "k = Some key" by auto
      have q: "length q < length s" using length_string_raw(2) raw k by blast
      let ?u = "jayess_json_skip_ws (tl ?t)"
      have u: "length ?u < length s" using q length_tl_skip [of ?t] length_skip_ws [of q] by linarith
      then obtain v r st1 where pv: "jayess_json_parse_value f st ?u = Some (v, r, st1)"
        using Suc.IH [of ?u] n by (metis (no_types, lifting) add_le_mono le_trans less_imp_le mult_le_mono2 order_refl prod_cases3 option.exhaust)
      have "length r \<le> length ?u" using parser_advances pv by (meson advancesD)
      then have r: "length (jayess_json_skip_ws (tl (jayess_json_skip_ws r))) < length s"
        using u length_tl_skip [of "jayess_json_skip_ws r"] length_skip_ws [of r] by linarith
      then show ?thesis
        using Suc.IH n False by (auto simp: json_object_body_def raw k pv Let_def)
    qed
  qed
  show ?case using parse array object by simp
qed simp

text \<open>More fuel gives the same result.\<close>

lemma bodies_mono:
  assumes "\<And>st s x. pv st s = Some x \<Longrightarrow> pv' st s = Some x" and "\<And>st a s x. al st a s = Some x \<Longrightarrow> al' st a s = Some x"
    and "\<And>st a s x. ol st a s = Some x \<Longrightarrow> ol' st a s = Some x"
  shows "json_array_body pv al st a s = Some x \<Longrightarrow> json_array_body pv' al' st a s = Some x"
    and "json_object_body pv ol st a s = Some x \<Longrightarrow> json_object_body pv' ol' st a s = Some x"
    and "json_value_body al ol st s = Some x \<Longrightarrow> json_value_body al' ol' st s = Some x"
proof -
  show "json_array_body pv al st a s = Some x \<Longrightarrow> json_array_body pv' al' st a s = Some x"
    using assms(1) [of st s] assms(2)
    by (cases "pv st s"; cases x) (auto simp: json_array_body_def Let_def split: if_splits)
  show "json_object_body pv ol st a s = Some x \<Longrightarrow> json_object_body pv' ol' st a s = Some x"
  proof -
    assume run: "json_object_body pv ol st a s = Some x"
    obtain k q where raw: "jayess_json_parse_string_raw s = (k, q)" by fastforce
    let ?t = "jayess_json_skip_ws (tl (jayess_json_skip_ws q))"
    show ?thesis
      using run assms(1) [of st ?t] assms(3)
      by (cases k; cases "pv st ?t"; cases x) (auto simp: json_object_body_def raw Let_def split: if_splits)
  qed
  show "json_value_body al ol st s = Some x \<Longrightarrow> json_value_body al' ol' st s = Some x"
  proof -
    assume run: "json_value_body al ol st s = Some x"
    define t where "t = jayess_json_skip_ws s"
    show ?thesis
    proof (cases t)
      case Nil
      with run show ?thesis by (simp add: json_value_body_def t_def [symmetric])
    next
      case (Cons c u)
      note body = run [unfolded json_value_body_def Let_def t_def [symmetric] Cons list.case, folded Cons]
      have "jayess_json_parse_array al st u = Some x \<Longrightarrow> jayess_json_parse_array al' st u = Some x"
        "jayess_json_parse_object ol st u = Some x \<Longrightarrow> jayess_json_parse_object ol' st u = Some x" for u
        by (cases x, auto simp: jayess_json_parse_array_def jayess_json_parse_object_def Let_def case_prod_unfold assms(2,3)
            split: if_splits)+
      with body show ?thesis
        unfolding json_value_body_def Let_def t_def [symmetric] Cons list.case
        by (auto split: if_split_asm)
    qed
  qed
qed

lemma parser_mono_Suc:
  "(jayess_json_parse_value f st s = Some x \<longrightarrow> jayess_json_parse_value (Suc f) st s = Some x)
   \<and> (json_array_loop f st a s = Some x \<longrightarrow> json_array_loop (Suc f) st a s = Some x)
   \<and> (json_object_loop f st a s = Some x \<longrightarrow> json_object_loop (Suc f) st a s = Some x)"
proof (induction f arbitrary: st a s x)
  case 0
  show ?case by (simp add: parser_0)
next
  case (Suc f)
  have pv: "\<And>st s x. jayess_json_parse_value f st s = Some x \<Longrightarrow> jayess_json_parse_value (Suc f) st s = Some x"
    and al: "\<And>st a s x. json_array_loop f st a s = Some x \<Longrightarrow> json_array_loop (Suc f) st a s = Some x"
    and ol: "\<And>st a s x. json_object_loop f st a s = Some x \<Longrightarrow> json_object_loop (Suc f) st a s = Some x"
    using Suc by blast+
  show ?case
    unfolding parser_Suc(1) [of f] parser_Suc(1) [of "Suc f"] parser_Suc(2) [of f] parser_Suc(2) [of "Suc f"]
      parser_Suc(3) [of f] parser_Suc(3) [of "Suc f"]
    using bodies_mono [of "jayess_json_parse_value f" "json_value_body (json_array_loop f) (json_object_loop f)"
        "json_array_loop f" "json_array_body (jayess_json_parse_value f) (json_array_loop f)"
        "json_object_loop f" "json_object_body (jayess_json_parse_value f) (json_object_loop f)"]
      pv al ol unfolding parser_Suc by blast
qed

lemma parser_mono:
  assumes "jayess_json_parse_value f st s = Some x" and "f \<le> g"
  shows "jayess_json_parse_value g st s = Some x"
  using assms(2,1) by (induction rule: dec_induct) (use parser_mono_Suc in blast)+

text \<open>
  C13. \<open>JSON.parse\<close> returns on every text that does not end in a backslash, whatever its brackets and quotes
  (after a final backslash the cursor of the code is past the end of the text): with fuel for twice the
  length of the text the parser has an answer, the same for every larger amount, and its cursor never
  leaves the text.
\<close>

theorem json_parse_terminates:
  assumes "json_fuel s \<le> f" and "s = [] \<or> last s \<noteq> CHR 0x5C"
  shows "\<exists>v r st'. length r \<le> length s \<and> jayess_json_parse_value (json_fuel s) st s = Some (v, r, st')
    \<and> jayess_json_parse_value f st s = Some (v, r, st')"
proof -
  have "jayess_json_parse_value (json_fuel s) st s \<noteq> None"
    using parser_total [of s "json_fuel s" st 0] unfolding json_fuel_def by blast
  then obtain v r st' where "jayess_json_parse_value (json_fuel s) st s = Some (v, r, st')" by (metis prod_cases3 option.exhaust)
  moreover from this have "length r \<le> length s" using parser_advances by (meson advancesD)
  ultimately show ?thesis using parser_mono [OF _ assms(1)] by blast
qed

text \<open>Brackets that are never closed.\<close>

theorem json_parse_terminates_witness:
  "\<exists>v r st'. length r \<le> length ''[[{''
    \<and> jayess_json_parse_value (json_fuel ''[[{'') initial_state ''[[{'' = Some (v, r, st')
    \<and> jayess_json_parse_value 1000 initial_state ''[[{'' = Some (v, r, st')"
  by (rule json_parse_terminates) (simp_all add: json_fuel_def)

section \<open>Cyclic arrays\<close>

text \<open>
  C17. On an array that contains itself \<open>stringify\<close> never returns, whatever the bound: the C code recurses until its stack
  overflows. The same holds for every operation that takes the text of such an array: \<open>JSON.stringify\<close>, the
  concatenation of two values and the operator + with a text, on either side, a template string with the array among the
  values that are filled in, and console output with it among the arguments.
\<close>

theorem stringify_cyclic_diverges:
  assumes "Some (VArray a) \<in> set (slots_at s a)"
  shows "jayess_value_stringify d s (Some (VArray a)) = None \<and> jayess_std_json_stringify d s (Some (VArray a)) = None
    \<and> jayess_concat_values d s (Some (VArray a)) w = None \<and> jayess_concat_values d s w (Some (VArray a)) = None
    \<and> jayess_value_add d s (Some (VString u)) (Some (VArray a)) = None
    \<and> jayess_value_add d s (Some (VArray a)) (Some (VString u)) = None
    \<and> (\<forall>parts values i. i < length (tail_slots s parts) \<longrightarrow> i < length (tail_slots s values)
        \<longrightarrow> tail_slots s values ! i = Some (VArray a) \<longrightarrow> jayess_template_string d s parts values = None)
    \<and> (\<forall>arguments. Some (VArray a) \<in> set (tail_slots s arguments) \<longrightarrow> jayess_console_write d s arguments = None)"
proof -
  note none = stringify_cyclic [OF assms, of d]
  have concat: "jayess_concat_values d s (Some (VArray a)) w = None" "jayess_concat_values d s w (Some (VArray a)) = None" for w
    by (simp_all add: jayess_concat_values_def none split: option.split)
  moreover have "jayess_console_write d s arguments = None" if "Some (VArray a) \<in> set (tail_slots s arguments)" for arguments
    by (simp add: jayess_console_write_def those_map_None [of "Some (VArray a)" _ "jayess_value_stringify d s", OF that none])
  ultimately show ?thesis
    using none by (auto simp: jayess_std_json_stringify_def jayess_value_add_def is_string_def jayess_template_string_def
        intro: template_diverges)
qed

theorem stringify_cyclic_diverges_witness:
  "jayess_std_json_stringify 1000 (initial_state\<lparr>arrays := [0 \<mapsto> [Some (VArray 0)]]\<rparr>) (Some (VArray 0)) = None"
  by (rule stringify_cyclic_diverges [THEN conjunct2, THEN conjunct1]) (simp add: slots_at_def)

end
