(* ===== verification/Json_Roundtrip.thy ===== *)
theory Json_Roundtrip
  imports Json_Correct
begin

text \<open>
  Reading back: a reference datatype of JSON values with a printer, and the proof that
  \<open>JSON.parse\<close> gives for the text of a JSON value the value in the heap that stands for it.
\<close>

section \<open>JSON texts\<close>

text \<open>JSON values and their texts: a reference printer that escapes quotes and backslashes.\<close>

datatype json =
    JNull
  | JBool bool
  | JInt int
  | JText string
  | JArray "json list"
  | JObject "(string \<times> json) list"

fun escape_text :: "string \<Rightarrow> string" where
  "escape_text [] = []"
| "escape_text (c # s) = (if c = CHR 0x22 \<or> c = CHR 0x5C then [CHR 0x5C, c] else [c]) @ escape_text s"

definition quoted :: "string \<Rightarrow> string" where
  "quoted s = CHR 0x22 # escape_text s @ [CHR 0x22]"

fun json_text :: "json \<Rightarrow> string" where
  "json_text JNull = ''null''"
| "json_text (JBool b) = (if b then ''true'' else ''false'')"
| "json_text (JInt i) = text_of_int i"
| "json_text (JText s) = quoted s"
| "json_text (JArray js) = CHR ''['' # join '','' (map json_text js) @ '']''"
| "json_text (JObject kvs) = CHR ''{'' # join '','' (map (\<lambda>(k, j). quoted k @ CHR '':'' # json_text j) kvs) @ ''}''"

text \<open>The keys of an object are different.\<close>

fun json_ok :: "json \<Rightarrow> bool" where
  "json_ok (JArray js) \<longleftrightarrow> (\<forall>j \<in> set js. json_ok j)"
| "json_ok (JObject kvs) \<longleftrightarrow> distinct (map fst kvs) \<and> (\<forall>kv \<in> set kvs. json_ok (snd kv))"
| "json_ok _ \<longleftrightarrow> True"

text \<open>
  The value in the heap that stands for a JSON value, at addresses from \<open>lo\<close> on; the members of an
  array or object are behind it, so that the value is a tree.
\<close>

inductive stands_for :: "jayess_state \<Rightarrow> nat \<Rightarrow> jayess_value \<Rightarrow> json \<Rightarrow> bool" for st where
  "stands_for st lo VNull JNull"
| "stands_for st lo (VBool b) (JBool b)"
| "stands_for st lo (jayess_value_from_number (dbl_of_int i)) (JInt i)"
| "stands_for st lo (VString s) (JText s)"
| "lo \<le> a \<Longrightarrow> a < next_address st
   \<Longrightarrow> list_all2 (\<lambda>w j. \<exists>v. w = Some v \<and> stands_for st (Suc a) v j) (slots_at st a) js
   \<Longrightarrow> stands_for st lo (VArray a) (JArray js)"
| "lo \<le> a \<Longrightarrow> a < next_address st
   \<Longrightarrow> list_all2 (\<lambda>e kv. \<exists>v. e = new_entry (VString (fst kv)) v \<and> stands_for st (Suc a) v (snd kv)) (entries_at st a) kvs
   \<Longrightarrow> stands_for st lo (VObject a) (JObject kvs)"

text \<open>A later state that has kept what was at the addresses of \<open>A\<close>.\<close>

definition kept :: "nat set \<Rightarrow> jayess_state \<Rightarrow> jayess_state \<Rightarrow> bool" where
  "kept A st st' \<longleftrightarrow> next_address st \<le> next_address st'
     \<and> (\<forall>a < next_address st. a \<in> A \<longrightarrow> slots_at st' a = slots_at st a \<and> entries_at st' a = entries_at st a)"

lemma kept_refl: "kept A st st"
  by (simp add: kept_def)

lemma kept_trans: "kept A st st1 \<Longrightarrow> kept A st1 st2 \<Longrightarrow> kept A st st2"
  by (auto simp: kept_def)

lemma kept_sub: "kept B st st' \<Longrightarrow> A \<subseteq> B \<Longrightarrow> kept A st st'"
  by (auto simp: kept_def)

lemma stands_for_kept: "stands_for st lo v j \<Longrightarrow> kept {lo..} st st' \<Longrightarrow> stands_for st' lo v j"
proof (induction rule: stands_for.induct)
  case (5 lo a js)
  have k: "kept {Suc a..} st st'" by (rule kept_sub [OF 5(4)]) (use 5(1) in auto)
  have "list_all2 (\<lambda>w j. \<exists>v. w = Some v \<and> stands_for st' (Suc a) v j) (slots_at st a) js"
    using 5(3) by (rule list_all2_mono) (use k in blast)
  with 5 show ?case by (intro stands_for.intros(5)) (auto simp: kept_def)
next
  case (6 lo a kvs)
  have k: "kept {Suc a..} st st'" by (rule kept_sub [OF 6(4)]) (use 6(1) in auto)
  have "list_all2 (\<lambda>e kv. \<exists>v. e = new_entry (VString (fst kv)) v \<and> stands_for st' (Suc a) v (snd kv)) (entries_at st a) kvs"
    using 6(3) by (rule list_all2_mono) (use k in blast)
  with 6 show ?case by (intro stands_for.intros(6)) (auto simp: kept_def)
qed (auto intro: stands_for.intros)

lemma stands_for_from: "stands_for st lo v j \<Longrightarrow> lo' \<le> lo \<Longrightarrow> stands_for st lo' v j"
  by (cases rule: stands_for.cases) (auto intro: stands_for.intros)

section \<open>Reading tokens\<close>

lemma string_loop_quoted:
  "json_string_loop out (escape_text t @ CHR 0x22 # rest) = (Some (out @ t), rest)"
  by (induction t arbitrary: out) (auto simp: json_escape_def)

lemma parse_string_quoted: "jayess_json_parse_string_raw (quoted t @ rest) = (Some t, rest)"
  using string_loop_quoted [of "[]" t rest] by (simp add: quoted_def jayess_json_parse_string_raw_def)

text \<open>The texts that may follow a JSON value.\<close>

definition json_end :: "string \<Rightarrow> bool" where
  "json_end s \<longleftrightarrow> s = [] \<or> hd s \<in> {CHR '','', CHR '']'', CHR ''}''}"

lemma json_end_facts:
  assumes "json_end s"
  shows "takeWhile is_digit s = []" and "dropWhile is_digit s = s" and "jayess_json_skip_ws s = s"
    and "parse_exponent (CHR ''e'') s = (0, s)"
  using assms by (cases s; auto simp: json_end_def jayess_json_skip_ws_def parse_exponent_def is_digit_def c_class_defs)+

lemma dec_first: obtains c cs where "dec n = c # cs" and "is_digit c" and "\<forall>d \<in> set cs. is_digit d"
  using dec_digits [of n] by (cases "dec n") (auto simp: list_all_iff)

lemma strtod_digits:
  assumes rest: "json_end rest" and u: "u = dec n @ rest" and s: "s = (if neg then CHR ''-'' # u else u)"
  shows "strtod s = (dbl_of_ratio neg n 1, rest)"
proof -
  obtain c cs where dec: "dec n = c # cs" and c: "is_digit c" and cs: "\<forall>d \<in> set cs. is_digit d" by (rule dec_first)
  note not = is_digit_not_special [OF c]
  have "\<not> c_isspace CHR ''-''" by (simp add: c_class_defs)
  then have ws: "dropWhile c_isspace s = s" using not by (simp add: s u dec)
  have sign: "strip_sign s = (neg, u)" using not by (simp add: strip_sign_def s u dec)
  have tail: "\<not> prefix ''x'' (map c_tolower (cs @ rest))"
  proof (cases cs)
    case Nil
    then show ?thesis using rest by (cases rest) (auto simp: json_end_def c_class_defs)
  next
    case (Cons d ds)
    then have "CHR ''x'' \<noteq> c_tolower d" using is_digit_not_special [of d] cs by fastforce
    then show ?thesis by (simp add: Cons)
  qed
  have low: "\<not> prefix ''infinity'' (map c_tolower u)" "\<not> prefix ''inf'' (map c_tolower u)"
    "\<not> prefix ''nan'' (map c_tolower u)" "\<not> prefix ''0x'' (map c_tolower u)"
    using not not [THEN conjunct2, THEN conjunct2, THEN conjunct2, THEN conjunct2, THEN conjunct1, THEN not_sym]
      not [THEN conjunct2, THEN conjunct2, THEN conjunct2, THEN conjunct2, THEN conjunct2, THEN conjunct1, THEN not_sym] tail
    by (simp_all add: u dec)
  have tw: "takeWhile is_digit u = dec n" "dropWhile is_digit u = rest"
    using json_end_facts(1,2) [OF rest] dec_digits [of n]
    by (simp_all add: u takeWhile_append dropWhile_append list_all_iff)
  have "parse_mantissa is_digit u = Some (dec n, [], rest)"
    using rest by (cases rest) (auto simp: parse_mantissa_def tw json_end_def)
  then show ?thesis
    by (simp add: strtod_def ws sign low json_end_facts(4) [OF rest] scale_ratio_def)
qed

lemma parse_number_int:
  assumes "json_end rest"
  shows "jayess_json_parse_number (text_of_int i @ rest) = (jayess_value_from_number (dbl_of_int i), rest)"
proof -
  have "strtod (text_of_int i @ rest) = (dbl_of_int i, rest)"
    using strtod_digits [OF assms refl refl, where n = "nat \<bar>i\<bar>" and neg = "i < 0"]
    by (cases "i < 0") (simp_all add: text_of_int_def dbl_of_int_def)
  then show ?thesis by (simp add: jayess_json_parse_number_def text_of_int_def)
qed

text \<open>What a JSON text begins with is not blank and not a closing bracket.\<close>

lemma json_text_first:
  obtains c cs where "json_text j = c # cs" and "\<not> c_isspace c" and "c \<noteq> CHR '']''" and "c \<noteq> CHR ''}''"
proof (cases j)
  case (JInt i)
  obtain c cs where dec: "dec (nat \<bar>i\<bar>) = c # cs" and c: "is_digit c" by (rule dec_first)
  note not = is_digit_not_special [OF c]
  show ?thesis
  proof (cases "i < 0")
    case True
    then show ?thesis using that [of "CHR ''-''" "dec (nat (- i))"] JInt by (simp add: text_of_int_def c_class_defs)
  next
    case False
    then have "json_text j = c # cs" using dec JInt by (simp add: text_of_int_def)
    moreover have "c \<noteq> CHR '']''" "c \<noteq> CHR ''}''" using c by (auto simp: is_digit_def)
    ultimately show ?thesis using that not by blast
  qed
next
  case (JBool b)
  then show ?thesis using that [of "CHR ''t''" "''rue''"] that [of "CHR ''f''" "''alse''"] by (cases b) (simp_all add: c_class_defs)
qed (use that in \<open>auto simp: quoted_def c_class_defs split: if_splits\<close>)

lemma skip_json_text: "jayess_json_skip_ws (json_text j @ rest) = json_text j @ rest"
  by (rule json_text_first [of j]) (simp add: jayess_json_skip_ws_def)

section \<open>Reading a text back\<close>

lemma push_value_simps [simp]:
  "next_address (push_value st a v) = next_address st"
  "slots_at (push_value st a v) b = (if b = a then slots_at st a @ [Some v] else slots_at st b)"
  "entries_at (push_value st a v) b = entries_at st b"
  by (simp_all add: push_value_def array_push Let_def array_write_def slots_at_def entries_at_def)

text \<open>What the parser does on the text of \<open>j\<close>, whatever the fuel it answers with.\<close>

definition reads_back :: "json \<Rightarrow> bool" where
  "reads_back j \<longleftrightarrow> (\<forall>f st rest v r st'. json_end rest \<longrightarrow>
     jayess_json_parse_value f st (json_text j @ rest) = Some (v, r, st') \<longrightarrow>
     r = rest \<and> stands_for st' (next_address st) v j \<and> kept UNIV st st')"

lemma reads_backD:
  assumes "reads_back j" and "json_end rest"
    and "jayess_json_parse_value f st (json_text j @ rest) = Some (v, r, st')"
  shows "r = rest" and "stands_for st' (next_address st) v j" and "kept UNIV st st'"
  using assms unfolding reads_back_def by blast+

lemma skip_elements: "js \<noteq> [] \<Longrightarrow> jayess_json_skip_ws (join sep (map json_text js) @ rest) = join sep (map json_text js) @ rest"
  by (cases js) (auto simp: join_Cons skip_json_text)

lemma array_elements:
  assumes "js \<noteq> []" and "list_all reads_back js" and "a < next_address st"
    and "json_array_loop f st a (join '','' (map json_text js) @ '']'' @ rest) = Some (v, r, st')"
  shows "v = VArray a \<and> r = rest \<and> kept (- {a}) st st' \<and> entries_at st' a = entries_at st a
    \<and> (\<exists>vs. slots_at st' a = slots_at st a @ vs \<and> list_all2 (\<lambda>w j. \<exists>v. w = Some v \<and> stands_for st' (Suc a) v j) vs js)"
  using assms
proof (induction js arbitrary: f st)
  case (Cons j js)
  define u where "u = (if js = [] then '']'' @ rest else '','' @ join '','' (map json_text js) @ '']'' @ rest)"
  have end_u: "json_end u" by (simp add: u_def json_end_def)
  have src: "join '','' (map json_text (j # js)) @ '']'' @ rest = json_text j @ u"
    by (simp add: join_Cons u_def)
  obtain f' where f: "f = Suc f'" using Cons.prems(4) by (cases f) auto
  have ne: "json_text j @ u \<noteq> []" by (rule json_text_first [of j]) simp
  have run: "json_array_loop (Suc f') st a (json_text j @ u) = Some (v, r, st')"
    using Cons.prems(4) unfolding src f .
  then obtain v0 r0 st1 where p: "jayess_json_parse_value f' st (json_text j @ u) = Some (v0, r0, st1)"
    by (cases "jayess_json_parse_value f' st (json_text j @ u)") (auto simp: json_array_body_def ne simp del: append_is_Nil_conv)
  have j: "reads_back j" and js: "list_all reads_back js" using Cons.prems(2) by simp_all
  note one = reads_backD [OF j end_u p]
  define st2 where "st2 = push_value st1 a v0"
  have next1: "next_address st \<le> next_address st1" using one(3) by (simp add: kept_def)
  have st2: "kept (- {a}) st st2" "entries_at st2 a = entries_at st a" "slots_at st2 a = slots_at st a @ [Some v0]"
    "a < next_address st2"
    using one(3) Cons.prems(3) by (auto simp: st2_def kept_def)
  have v0: "stands_for st2 (Suc a) v0 j"
    by (rule stands_for_kept [OF stands_for_from [OF one(2)]]) (use Cons.prems(3) in \<open>auto simp: st2_def kept_def\<close>)
  have skip: "jayess_json_skip_ws u = u" using json_end_facts(3) [OF end_u] .
  have after: "(if prefix '']'' u then Some (VArray a, tl u, st2)
      else if prefix '','' u then json_array_loop f' st2 a (jayess_json_skip_ws (tl u))
      else Some (VUndefined, u, st2)) = Some (v, r, st')"
    using run by (simp add: json_array_body_def ne p one(1) skip Let_def st2_def cong: if_cong del: append_is_Nil_conv)
  show ?case
  proof (cases "js = []")
    case True
    then have "v = VArray a" "r = rest" "st' = st2" using after by (simp_all add: u_def)
    with st2 v0 True show ?thesis by auto
  next
    case False
    have loop: "json_array_loop f' st2 a (join '','' (map json_text js) @ '']'' @ rest) = Some (v, r, st')"
      using after False skip_elements [OF False] by (simp add: u_def)
    from Cons.IH [OF False js st2(4) loop] obtain vs where
      ih: "v = VArray a" "r = rest" "kept (- {a}) st2 st'" "entries_at st' a = entries_at st2 a"
        "slots_at st' a = slots_at st2 a @ vs" "list_all2 (\<lambda>w j. \<exists>v. w = Some v \<and> stands_for st' (Suc a) v j) vs js"
      by blast
    have "stands_for st' (Suc a) v0 j" by (rule stands_for_kept [OF v0 kept_sub [OF ih(3)]]) auto
    then have "list_all2 (\<lambda>w j. \<exists>v. w = Some v \<and> stands_for st' (Suc a) v j) (Some v0 # vs) (j # js)"
      using ih(6) by simp
    moreover have "slots_at st' a = slots_at st a @ (Some v0 # vs)" using ih(5) st2(3) by simp
    moreover have "entries_at st' a = entries_at st a" using ih(4) st2(2) by simp
    ultimately show ?thesis using ih(1,2) kept_trans [OF st2(1) ih(3)] by blast
  qed
qed simp

definition member_text :: "string \<times> json \<Rightarrow> string" where
  "member_text kv = quoted (fst kv) @ '':'' @ json_text (snd kv)"

lemma json_text_object: "json_text (JObject kvs) = ''{'' @ join '','' (map member_text kvs) @ ''}''"
proof -
  have "member_text = (\<lambda>(k, j). quoted k @ CHR '':'' # json_text j)" by (auto simp: member_text_def)
  then show ?thesis by simp
qed

lemma join_member:
  "join sep (map member_text ((k, j) # kvs)) =
   quoted k @ '':'' @ json_text j @ (if kvs = [] then [] else sep @ join sep (map member_text kvs))"
  by (simp add: join_Cons member_text_def)

lemma skip_members: "kvs \<noteq> [] \<Longrightarrow> jayess_json_skip_ws (join sep (map member_text kvs) @ rest) = join sep (map member_text kvs) @ rest"
  by (cases kvs) (auto simp: join_Cons member_text_def quoted_def jayess_json_skip_ws_def c_class_defs)

lemma object_members:
  assumes "kvs \<noteq> []" and "list_all (\<lambda>kv. reads_back (snd kv)) kvs" and "a < next_address st"
    and "distinct (map fst kvs)" and "\<forall>e \<in> set (entries_at st a). \<forall>kv \<in> set kvs. entry_key e \<noteq> Some (fst kv)"
    and "json_object_loop f st a (join '','' (map member_text kvs) @ ''}'' @ rest) = Some (v, r, st')"
  shows "v = VObject a \<and> r = rest \<and> kept (- {a}) st st' \<and> slots_at st' a = slots_at st a
    \<and> (\<exists>es. entries_at st' a = entries_at st a @ es
      \<and> list_all2 (\<lambda>e kv. \<exists>v. e = new_entry (VString (fst kv)) v \<and> stands_for st' (Suc a) v (snd kv)) es kvs)"
  using assms
proof (induction kvs arbitrary: f st)
  case (Cons kv kvs)
  obtain k j where kv: "kv = (k, j)" by (cases kv)
  define u where "u = (if kvs = [] then ''}'' @ rest else '','' @ join '','' (map member_text kvs) @ ''}'' @ rest)"
  have end_u: "json_end u" by (simp add: u_def json_end_def)
  have src: "join '','' (map member_text (kv # kvs)) @ ''}'' @ rest = quoted k @ '':'' @ json_text j @ u"
    unfolding kv join_member by (simp add: u_def)
  obtain f' where f: "f = Suc f'" using Cons.prems(6) by (cases f) auto
  have run: "json_object_loop (Suc f') st a (quoted k @ '':'' @ json_text j @ u) = Some (v, r, st')"
    using Cons.prems(6) unfolding src f .
  have colon: "jayess_json_skip_ws ('':'' @ json_text j @ u) = '':'' @ json_text j @ u"
    by (simp add: jayess_json_skip_ws_def c_class_defs)
  have skip_j: "jayess_json_skip_ws (json_text j @ u) = json_text j @ u" by (rule skip_json_text)
  have step: "(case jayess_json_parse_value f' st (json_text j @ u) of
           None \<Rightarrow> None
         | Some (v, r', st1) \<Rightarrow>
             (let st2 = object_set st1 a k v; u = jayess_json_skip_ws r'
              in if prefix ''}'' u then Some (VObject a, tl u, st2)
                 else if prefix '','' u then json_object_loop f' st2 a (jayess_json_skip_ws (tl u))
                 else Some (VUndefined, u, st2))) = Some (v, r, st')"
    using run parse_string_quoted [of k "'':'' @ json_text j @ u"] colon skip_j
    by (simp add: json_object_body_def)
  then obtain v0 r0 st1 where p: "jayess_json_parse_value f' st (json_text j @ u) = Some (v0, r0, st1)"
    by (cases "jayess_json_parse_value f' st (json_text j @ u)") auto
  have j: "reads_back j" and kvs: "list_all (\<lambda>kv. reads_back (snd kv)) kvs" using Cons.prems(2) by (simp_all add: kv)
  note one = reads_backD [OF j end_u p]
  have same: "slots_at st1 a = slots_at st a" "entries_at st1 a = entries_at st a"
    using one(3) Cons.prems(3) by (auto simp: kept_def)
  have absent: "\<forall>e \<in> set (entries_at st1 a). entry_key e \<noteq> Some k" using Cons.prems(5) by (auto simp: same kv)
  define st2 where "st2 = object_set st1 a k v0"
  note st2_simps = member_set(1,2) [of st1 a k v0] member_set(3) [OF absent, of v0]
  have st2: "kept (- {a}) st st2" "slots_at st2 a = slots_at st a"
    "entries_at st2 a = entries_at st a @ [new_entry (VString k) v0]" "a < next_address st2"
    using one(3) Cons.prems(3) by (auto simp: st2_def kept_def st2_simps same)
  have v0: "stands_for st2 (Suc a) v0 j"
    by (rule stands_for_kept [OF stands_for_from [OF one(2)]]) (use Cons.prems(3) in \<open>auto simp: st2_def kept_def st2_simps\<close>)
  have skip: "jayess_json_skip_ws u = u" using json_end_facts(3) [OF end_u] .
  have after: "(if prefix ''}'' u then Some (VObject a, tl u, st2)
      else if prefix '','' u then json_object_loop f' st2 a (jayess_json_skip_ws (tl u))
      else Some (VUndefined, u, st2)) = Some (v, r, st')"
    using step by (simp add: p one(1) skip Let_def st2_def cong: if_cong)
  show ?case
  proof (cases "kvs = []")
    case True
    then have "v = VObject a" "r = rest" "st' = st2" using after by (simp_all add: u_def)
    with st2 v0 True kv show ?thesis by auto
  next
    case False
    have loop: "json_object_loop f' st2 a (join '','' (map member_text kvs) @ ''}'' @ rest) = Some (v, r, st')"
      using after False skip_members [OF False] by (simp add: u_def)
    have dist: "distinct (map fst kvs)" and k: "\<forall>kv' \<in> set kvs. fst kv' \<noteq> k"
      using Cons.prems(4) by (auto simp: kv)
    have new: "\<forall>e \<in> set (entries_at st2 a). \<forall>kv \<in> set kvs. entry_key e \<noteq> Some (fst kv)"
      using Cons.prems(5) k by (auto simp: st2(3) new_entry_def)
    from Cons.IH [OF False kvs st2(4) dist new loop] obtain es where
      ih: "v = VObject a" "r = rest" "kept (- {a}) st2 st'" "slots_at st' a = slots_at st2 a"
        "entries_at st' a = entries_at st2 a @ es"
        "list_all2 (\<lambda>e kv. \<exists>v. e = new_entry (VString (fst kv)) v \<and> stands_for st' (Suc a) v (snd kv)) es kvs"
      by blast
    have "stands_for st' (Suc a) v0 j" by (rule stands_for_kept [OF v0 kept_sub [OF ih(3)]]) auto
    then have "list_all2 (\<lambda>e kv. \<exists>v. e = new_entry (VString (fst kv)) v \<and> stands_for st' (Suc a) v (snd kv))
        (new_entry (VString k) v0 # es) (kv # kvs)"
      using ih(6) by (auto simp: kv)
    moreover have "entries_at st' a = entries_at st a @ (new_entry (VString k) v0 # es)" using ih(5) st2(3) by simp
    moreover have "slots_at st' a = slots_at st a" using ih(4) st2(2) by simp
    ultimately show ?thesis using ih(1,2) kept_trans [OF st2(1) ih(3)] by blast
  qed
qed simp

lemma skip_bracket: "c \<in> {CHR ''['', CHR '']'', CHR ''{'', CHR ''}''} \<Longrightarrow> jayess_json_skip_ws (c # s) = c # s"
  by (auto simp: jayess_json_skip_ws_def c_class_defs)

lemma array_text:
  assumes js: "list_all reads_back js"
    and run: "jayess_json_parse_value f st (json_text (JArray js) @ rest) = Some (v, r, st')"
  shows "r = rest \<and> stands_for st' (next_address st) v (JArray js) \<and> kept UNIV st st'"
proof -
  obtain f' where f: "f = Suc f'" using run by (cases f) auto
  define a where "a = next_address st"
  define st1 where "st1 = snd (jayess_array_new st)"
  have new: "jayess_array_new st = (a, st1)" by (simp add: a_def st1_def prod_eq_iff)
  have st1: "slots_at st1 a = []" "a < next_address st1" "kept UNIV st st1"
    by (auto simp: st1_def a_def kept_def entries_at_def)
  show ?thesis
  proof (cases "js = []")
    case True
    then have "v = VArray a" "r = rest" "st' = st1"
      using run by (simp_all add: f json_value_body_def skip_bracket jayess_json_parse_array_def new)
    with True st1 show ?thesis by (auto intro!: stands_for.intros(5) simp: a_def)
  next
    case False
    have "json_array_loop f' st1 a (join '','' (map json_text js) @ '']'' @ rest) = Some (v, r, st')"
    proof -
      obtain c cs where c: "join '','' (map json_text js) = c # cs" "c \<noteq> CHR '']''"
      proof (cases js)
        case (Cons j js')
        then show ?thesis using that by (rule_tac json_text_first [of j]) (simp add: join_Cons)
      qed (use False in simp)
      show ?thesis using run skip_elements [OF False, of "'',''" "'']'' @ rest"] c
        by (simp add: f json_value_body_def skip_bracket jayess_json_parse_array_def new)
    qed
    from array_elements [OF False js st1(2) this] st1(1) have
      post: "v = VArray a" "r = rest" "kept (- {a}) st1 st'"
      "list_all2 (\<lambda>w j. \<exists>v. w = Some v \<and> stands_for st' (Suc a) v j) (slots_at st' a) js"
      by auto
    have "kept UNIV st st'" using st1(3) post(3) by (auto simp: kept_def a_def)
    moreover have "stands_for st' (next_address st) v (JArray js)"
      unfolding post(1) by (rule stands_for.intros(5) [OF _ _ post(4)]) (use post(3) st1(2) in \<open>auto simp: a_def kept_def\<close>)
    ultimately show ?thesis using post(2) by blast
  qed
qed

lemma object_text:
  assumes kvs: "list_all (\<lambda>kv. reads_back (snd kv)) kvs" and dist: "distinct (map fst kvs)"
    and run: "jayess_json_parse_value f st (json_text (JObject kvs) @ rest) = Some (v, r, st')"
  shows "r = rest \<and> stands_for st' (next_address st) v (JObject kvs) \<and> kept UNIV st st'"
proof -
  obtain f' where f: "f = Suc f'" using run by (cases f) auto
  define a where "a = next_address st"
  define st1 where "st1 = snd (jayess_object_new st)"
  have new: "jayess_object_new st = (a, st1)" by (simp add: a_def st1_def prod_eq_iff)
  have st1: "entries_at st1 a = []" "a < next_address st1" "kept UNIV st st1"
    by (auto simp: st1_def a_def kept_def slots_at_def)
  note run' = run [unfolded json_text_object]
  show ?thesis
  proof (cases "kvs = []")
    case True
    then have "v = VObject a" "r = rest" "st' = st1"
      using run' by (simp_all add: f json_value_body_def skip_bracket jayess_json_parse_object_def new)
    with True st1 show ?thesis by (auto intro!: stands_for.intros(6) simp: a_def)
  next
    case False
    have "json_object_loop f' st1 a (join '','' (map member_text kvs) @ ''}'' @ rest) = Some (v, r, st')"
    proof -
      obtain cs where c: "join '','' (map member_text kvs) = CHR 0x22 # cs"
        using False by (cases kvs) (auto simp: join_Cons member_text_def quoted_def)
      show ?thesis using run' skip_members [OF False, of "'',''" "''}'' @ rest"] c
        by (simp add: f json_value_body_def skip_bracket jayess_json_parse_object_def new)
    qed
    from object_members [OF False kvs st1(2) dist _ this] st1(1) have
      post: "v = VObject a" "r = rest" "kept (- {a}) st1 st'"
      "list_all2 (\<lambda>e kv. \<exists>v. e = new_entry (VString (fst kv)) v \<and> stands_for st' (Suc a) v (snd kv)) (entries_at st' a) kvs"
      by auto
    have "kept UNIV st st'" using st1(3) post(3) by (auto simp: kept_def a_def)
    moreover have "stands_for st' (next_address st) v (JObject kvs)"
      unfolding post(1) by (rule stands_for.intros(6) [OF _ _ post(4)]) (use post(3) st1(2) in \<open>auto simp: a_def kept_def\<close>)
    ultimately show ?thesis using post(2) by blast
  qed
qed

text \<open>A scalar is one token.\<close>

lemma number_first: obtains c cs where "text_of_int i = c # cs" and "c = CHR ''-'' \<or> is_digit c"
proof (cases "i < 0")
  case True
  then show ?thesis using that by (simp add: text_of_int_def)
next
  case False
  obtain c cs where "dec (nat \<bar>i\<bar>) = c # cs" "is_digit c" by (rule dec_first)
  with False that show ?thesis by (simp add: text_of_int_def)
qed

lemma scalar_text:
  assumes e: "json_end rest"
    and run: "jayess_json_parse_value (Suc f) st (json_text j @ rest) = Some (v, r, st')"
  shows "j = JNull \<Longrightarrow> (v, r, st') = (VNull, rest, st)"
    and "j = JBool b \<Longrightarrow> (v, r, st') = (VBool b, rest, st)"
    and "j = JText t \<Longrightarrow> (v, r, st') = (VString t, rest, st)"
    and "j = JInt i \<Longrightarrow> (v, r, st') = (jayess_value_from_number (dbl_of_int i), rest, st)"
proof -
  show "j = JNull \<Longrightarrow> (v, r, st') = (VNull, rest, st)"
    using run skip_json_text [of JNull rest] by (simp add: json_value_body_def)
  show "j = JBool b \<Longrightarrow> (v, r, st') = (VBool b, rest, st)"
    using run skip_json_text [of "JBool b" rest] by (cases b) (simp_all add: json_value_body_def)
  show "j = JText t \<Longrightarrow> (v, r, st') = (VString t, rest, st)"
    using run skip_json_text [of "JText t" rest] parse_string_quoted [of t rest]
    by (simp add: json_value_body_def jayess_json_parse_string_def quoted_def)
  assume j: "j = JInt i"
  obtain c cs where c: "text_of_int i = c # cs" "c = CHR ''-'' \<or> is_digit c" by (rule number_first)
  have num: "c_isdigit c \<or> c = CHR ''-''" and c': "c \<notin> {CHR 0x22, CHR ''['', CHR ''{'', CHR ''t'', CHR ''f'', CHR ''n''}"
    using c(2) by (auto simp: is_digit_def c_class_defs)
  have skip: "jayess_json_skip_ws (c # cs @ rest) = c # cs @ rest" using skip_json_text [of "JInt i" rest] c(1) by simp
  have "jayess_json_parse_number (c # cs @ rest) = (jayess_value_from_number (dbl_of_int i), rest)"
    using parse_number_int [OF e, of i] c(1) by simp
  then have "jayess_json_parse_value (Suc f) st (c # cs @ rest) = Some (jayess_value_from_number (dbl_of_int i), rest, st)"
  proof -
    have "CHR ''t'' \<noteq> c" "CHR ''f'' \<noteq> c" "CHR ''n'' \<noteq> c" using c' by auto
    moreover assume "jayess_json_parse_number (c # cs @ rest) = (jayess_value_from_number (dbl_of_int i), rest)"
    ultimately show ?thesis using num c' by (auto simp: json_value_body_def skip Let_def)
  qed
  with run j c(1) show "(v, r, st') = (jayess_value_from_number (dbl_of_int i), rest, st)" by simp
qed

lemma reads_back_scalar:
  assumes "\<And>f st rest v r st'. json_end rest \<Longrightarrow> jayess_json_parse_value (Suc f) st (json_text j @ rest) = Some (v, r, st')
    \<Longrightarrow> (v, r, st') = (w, rest, st)" and "\<And>st lo. stands_for st lo w j"
  shows "reads_back j"
  unfolding reads_back_def
proof (intro allI impI)
  fix f st rest v r st'
  assume e: "json_end rest" and run: "jayess_json_parse_value f st (json_text j @ rest) = Some (v, r, st')"
  obtain f' where f: "f = Suc f'" using run by (cases f) auto
  from assms(1) [OF e run [unfolded f]] assms(2)
  show "r = rest \<and> stands_for st' (next_address st) v j \<and> kept UNIV st st'" by (simp add: kept_refl)
qed

lemma reads_back: "json_ok j \<Longrightarrow> reads_back j"
proof (induction j)
  case (JArray js)
  then have "list_all reads_back js" by (simp add: list_all_iff)
  from array_text [OF this] show ?case by (simp add: reads_back_def)
next
  case (JObject kvs)
  then have "list_all (\<lambda>kv. reads_back (snd kv)) kvs" by (auto simp: list_all_iff snds.simps)
  from object_text [OF this] JObject.prems show ?case by (simp add: reads_back_def del: json_text.simps)
next
  case JNull
  show ?case by (rule reads_back_scalar) (use scalar_text(1) in blast, rule stands_for.intros)
next
  case (JBool b)
  show ?case by (rule reads_back_scalar) (use scalar_text(2) in blast, rule stands_for.intros)
next
  case (JText t)
  show ?case by (rule reads_back_scalar) (use scalar_text(3) in blast, rule stands_for.intros)
next
  case (JInt i)
  show ?case by (rule reads_back_scalar) (use scalar_text(4) in blast, rule stands_for.intros)
qed

text \<open>
  C12. Printing and parsing are inverse: for every JSON value with whole numbers, strings of any
  characters, nested arrays, and objects with different keys, \<open>JSON.parse\<close> of its text gives, in the
  final heap, the value that stands for it, with members in the order of the text, as a tree of
  new addresses; nothing that was in the heap before has changed.
\<close>

theorem json_roundtrip:
  assumes "json_ok j" and "json_fuel (json_text j) \<le> f"
  shows "\<exists>v st'. jayess_std_json_parse f st (Some (VString (json_text j))) = Some (v, st')
    \<and> stands_for st' (next_address st) v j \<and> kept UNIV st st'"
proof -
  from parser_total [of "json_text j" f st 0] assms(2) obtain v r st' where
    run: "jayess_json_parse_value f st (json_text j @ []) = Some (v, r, st')"
    unfolding json_fuel_def by (metis append_Nil2 option.exhaust prod_cases3)
  have "json_end []" by (simp add: json_end_def)
  from reads_backD [OF reads_back [OF assms(1)] this run] run show ?thesis
    by (auto simp: jayess_std_json_parse_def)
qed

text \<open>An object with an array of numbers and a text with a quote in it.\<close>

definition example_json :: json where
  "example_json = JObject [(''a'', JArray [JInt 1, JNull, JBool True]), (''b'', JText [CHR 0x22, CHR ''c''])]"

theorem json_roundtrip_witness:
  "\<exists>v st'. jayess_std_json_parse 100 initial_state (Some (VString (json_text example_json))) = Some (v, st')
    \<and> stands_for st' (next_address initial_state) v example_json \<and> kept UNIV initial_state st'"
  by (rule json_roundtrip) (simp_all add: example_json_def json_fuel_def quoted_def text_of_int_def dec.simps)

end
