(* ===== verification/Server_Correct.thy ===== *)
theory Server_Correct
  imports Http_Correct Encoding_Correct Json_Roundtrip
begin

text \<open>
  What a client makes of the chunks of a server response: the chunked coding decodes what it encoded, a response
  written in chunks that fit the socket arrives complete, and one larger chunk breaks it.
\<close>

section \<open>The chunked coding\<close>

lemma hex_digit_char: "n < 16 \<Longrightarrow> line_char (hex_digits ! n) \<and> hex_digits ! n \<noteq> CHR '';''"
proof -
  have "\<forall>n \<in> {..<16}. line_char (hex_digits ! n) \<and> hex_digits ! n \<noteq> CHR '';''" by code_simp
  then show "n < 16 \<Longrightarrow> line_char (hex_digits ! n) \<and> hex_digits ! n \<noteq> CHR '';''" by simp
qed

lemma hex_text_chars:
  "c \<in> set (hex_text n) \<Longrightarrow> c_isxdigit c \<and> \<not> c_isspace c \<and> c \<notin> {CHR ''-'', CHR ''+'', CHR ''x'', CHR ''X''} \<and> line_char c \<and> c \<noteq> CHR '';''"
proof (induction n rule: hex_text.induct)
  case (1 n)
  show ?case
  proof (cases "n < 16")
    case True
    then show ?thesis using 1(2) nibble_facts [of n] hex_digit_char [of n] by (simp add: hex_text.simps)
  next
    case False
    have m: "n mod 16 < 16" by simp
    have "c \<in> set (hex_text (n div 16)) \<or> c = hex_digits ! (n mod 16)" using 1(2) False by (auto simp: hex_text.simps [of n])
    then show ?thesis using 1(1) [OF False] nibble_facts [OF m] hex_digit_char [OF m] by auto
  qed
qed

lemma hex_text_nonempty: "hex_text n \<noteq> []"
  by (subst hex_text.simps) simp

lemma hex_text_val: "digits_val 16 (hex_text n) = n"
proof (induction n rule: hex_text.induct)
  case (1 n)
  then show ?case using nibble_facts(2) by (simp add: hex_text.simps [of n] digits_val_def)
qed

lemma dropWhile_none: "list_all (\<lambda>c. \<not> P c) t \<Longrightarrow> dropWhile P t = t"
  by (cases t) simp_all

lemma strtoul_hex_text: "n < 2 ^ 64 \<Longrightarrow> c_strtoul 16 (hex_text n) = (n, [])"
proof -
  assume n: "n < 2 ^ 64"
  note chars = hex_text_chars [of _ n]
  have ws: "dropWhile c_isspace (hex_text n) = hex_text n" using chars by (intro dropWhile_none) (auto simp: list_all_iff)
  have sign: "strip_sign (hex_text n) = (False, hex_text n)" using chars by (cases "hex_text n") (auto simp: strip_sign_def)
  have no_x: "\<not> prefix ''0x'' (hex_text n)" "\<not> prefix ''0X'' (hex_text n)"
    using chars [of "CHR ''x''"] chars [of "CHR ''X''"] by (auto dest: set_mono_prefix)
  have "list_all (digit_in 16) (hex_text n)" using chars by (auto simp: list_all_iff digit_in_def)
  then have "scan_integer 16 (hex_text n) = Some (False, n, [])"
    by (simp add: scan_integer_def ws sign no_x takeWhile_whole hex_text_nonempty hex_text_val)
  then show ?thesis using n by (simp add: c_strtoul_def)
qed

definition chunk_text :: "string \<Rightarrow> string" where
  "chunk_text t = hex_text (length t) @ CRLF @ t @ CRLF"

lemma trim_none: "list_all (\<lambda>c. \<not> c_isspace c) t \<Longrightarrow> jayess_http_trim_copy t = t"
  by (simp add: jayess_http_trim_copy_def dropWhile_none)

lemma chunk_size_hex: "chunk_size_text (hex_text n) = hex_text n"
proof -
  have "chunk_size_text (hex_text n) = jayess_http_trim_copy (hex_text n)"
    unfolding chunk_size_text_def
    using hex_text_chars [of _ n] by (intro arg_cong [where f = jayess_http_trim_copy] takeWhile_whole) (auto simp: list_all_iff)
  moreover have "jayess_http_trim_copy (hex_text n) = hex_text n"
    using hex_text_chars [of _ n] by (intro trim_none) (auto simp: list_all_iff)
  ultimately show ?thesis by simp
qed

lemma decode_chunk:
  assumes "t \<noteq> []" and "length t < 2 ^ 64"
  shows "decode_loop out (chunk_text t @ r) = decode_loop (out @ t) r"
proof -
  have clean: "list_all line_char (hex_text (length t))"
    using hex_text_chars [of _ "length t"] by (auto simp: list_all_iff)
  have split: "chunk_text t @ r = hex_text (length t) @ CRLF @ t @ CRLF @ r" by (simp add: chunk_text_def)
  have behind: "after_chunk (CRLF @ r) = Some r" by (simp add: after_chunk_def CRLF_def)
  show ?thesis
    unfolding split decode_loop.simps [of out "hex_text (length t) @ _"]
    using assms by (simp add: line_then_CRLF [OF clean] chunk_size_hex strtoul_hex_text hex_text_nonempty hex_text_nonempty [symmetric] behind)
qed

lemma decode_chunks:
  "list_all (\<lambda>t. t \<noteq> [] \<and> length t < 2 ^ 64) ts \<Longrightarrow>
   decode_loop out (concat (map chunk_text ts) @ ''0'' @ CRLF @ CRLF) = Some (out @ concat ts)"
proof (induction ts arbitrary: out)
  case Nil
  have "list_all line_char ''0''" by (simp add: line_char_def)
  note line_then_CRLF [OF this, of CRLF]
  moreover have "chunk_size_text ''0'' = ''0''" "c_strtoul 16 ''0'' = (0, [])"
    using chunk_size_hex [of 0] strtoul_hex_text [of 0] by (simp_all add: hex_text.simps hex_digits_def)
  ultimately show ?case unfolding decode_loop.simps [of out "_ @ _"] by simp
qed (simp add: decode_chunk)

section \<open>Sending\<close>

lemma hex_text_short: "n < 16 ^ Suc k \<Longrightarrow> length (hex_text n) \<le> Suc k"
proof (induction k arbitrary: n)
  case 0
  then show ?case by (simp add: hex_text.simps [of n])
next
  case (Suc k)
  have "n div 16 < 16 ^ Suc k" using Suc.prems by (simp add: div_less_iff_less_mult)
  then show ?case using Suc.IH [of "n div 16"] by (simp add: hex_text.simps [of n])
qed

text \<open>The socket is open, takes texts of up to \<open>M\<close> characters at once, and the network makes progress.\<close>

definition roomy :: "network \<Rightarrow> socket \<Rightarrow> nat \<Rightarrow> bool" where
  "roomy net k M \<longleftrightarrow> progress net \<and> handle_open k
     \<and> jayess_std_stream_high_water_mark k = dbl_of_int (int M) \<and> 128 \<le> M \<and> M < 2 ^ 53"

text \<open>The rest of a response, and a socket that differs in what went out.\<close>

definition went_out :: "http_response \<Rightarrow> string \<Rightarrow> http_response \<Rightarrow> bool" where
  "went_out r t r' \<longleftrightarrow> same_socket (sock r) (sock r') \<and> sent (sock r') = sent (sock r) @ t \<and> r'\<lparr>sock := sock r\<rparr> = r"

lemma went_out_trans: "went_out r t r1 \<Longrightarrow> went_out r1 u r2 \<Longrightarrow> went_out r (t @ u) r2"
  by (cases r; cases r1; cases r2) (auto simp: went_out_def intro: same_socket_trans)

lemma roomy_same: "roomy net k M \<Longrightarrow> same_socket k k' \<Longrightarrow> roomy net k' M"
  by (auto simp: roomy_def same_socket_def jayess_std_stream_high_water_mark_def split: if_splits)

lemma send_text_sends:
  assumes "roomy net (sock r) M" and "length t < 2 ^ 53"
  shows "\<exists>r'. send_text net r t = (length t \<le> M, r') \<and> went_out r t r'"
proof -
  obtain k' where k: "socket_write net (length t) (sock r) t
      = (\<not> dbl_less (jayess_std_stream_high_water_mark (sock r)) (dbl_of_int (int (length t))), k')"
    "sent k' = sent (sock r) @ t" "same_socket (sock r) k'"
    using socket_write_sends [of net t "length t" "sock r"] assms(1) unfolding roomy_def by auto
  have "(\<not> dbl_less (jayess_std_stream_high_water_mark (sock r)) (dbl_of_int (int (length t)))) = (length t \<le> M)"
    using assms by (simp add: roomy_def dbl_less_of_int not_less)
  then show ?thesis using k assms(1) by (simp add: send_text_def roomy_def went_out_def)
qed

lemma send_fitting:
  assumes "roomy net (sock r) M" and "length t \<le> M"
  shows "\<exists>r'. send_text net r t = (True, r') \<and> went_out r t r' \<and> roomy net (sock r') M"
proof -
  have "length t < 2 ^ 53" using assms by (simp add: roomy_def)
  from send_text_sends [OF assms(1) this] show ?thesis using assms roomy_same by (auto simp: went_out_def)
qed

lemma write_fitting:
  assumes "roomy net (sock r) M" and "list_all (\<lambda>t. length t \<le> M) ts"
  shows "\<exists>r'. write_texts net r ts = (True, r') \<and> went_out r (concat ts) r' \<and> roomy net (sock r') M"
  using assms
proof (induction ts arbitrary: r)
  case Nil
  then show ?case by (simp add: went_out_def same_socket_def)
next
  case (Cons t ts)
  then obtain r1 where r1: "send_text net r t = (True, r1)" "went_out r t r1" "roomy net (sock r1) M"
    using send_fitting [of net r M t] by auto
  then obtain r2 where "write_texts net r1 ts = (True, r2)" "went_out r1 (concat ts) r2" "roomy net (sock r2) M"
    using Cons by auto
  then show ?case using r1 went_out_trans by auto
qed

definition head_pairs :: "bool \<Rightarrow> (string \<times> string) list" where
  "head_pairs keep = [(''Connection'', if keep then ''keep-alive'' else ''close''), (''Transfer-Encoding'', ''chunked'')]"

definition response_head :: "bool \<Rightarrow> string" where
  "response_head keep = ''HTTP/1.1 200 OK'' @ CRLF @ join CRLF (map header_pair_text (head_pairs keep)) @ CRLF @ CRLF"

lemma response_head_facts: "length (response_head keep) \<le> 128" "header_part (response_head keep) = response_head keep"
proof -
  have "\<forall>keep \<in> {True, False}. length (response_head keep) \<le> 128 \<and> header_part (response_head keep) = response_head keep"
    by code_simp
  then show "length (response_head keep) \<le> 128" "header_part (response_head keep) = response_head keep"
    by (cases keep; simp)+
qed

text \<open>A response whose head has been sent after what went out \<open>earlier\<close>, and was followed by \<open>out\<close>.\<close>

definition streaming :: "network \<Rightarrow> nat \<Rightarrow> bool \<Rightarrow> string \<Rightarrow> string \<Rightarrow> http_response \<Rightarrow> bool" where
  "streaming net M keep earlier out r \<longleftrightarrow> headers_sent r \<and> chunked r \<and> \<not> finished r \<and> keep_alive r = keep
     \<and> roomy net (sock r) M \<and> sent (sock r) = earlier @ response_head keep @ out"

lemma streaming_went_out:
  assumes "streaming net M keep earlier out r" and "went_out r t r'"
  shows "streaming net M keep earlier (out @ t) r'"
  using assms roomy_same [of net "sock r" M "sock r'"] by (cases r; cases r') (auto simp: streaming_def went_out_def)

definition chunk_or_none :: "string \<Rightarrow> string" where
  "chunk_or_none t = (if t = [] then [] else chunk_text t)"

lemma hex_line_short: "length t < 2 ^ 53 \<Longrightarrow> length (hex_text (length t) @ CRLF) \<le> 128"
  using hex_text_short [of "length t" 15] by simp

lemma write_streaming:
  assumes send: "jayess_std_http_response_send_headers net (Suc d) a r = Some (Inr (True, r1))"
    and r: "\<not> finished r" and r1: "streaming net M keep earlier out r1" and t: "length t \<le> M"
  shows "\<exists>r2. jayess_std_http_response_write_method net (Suc d) a r (Some (VString t)) = Some (Inr (True, r2))
    \<and> streaming net M keep earlier (out @ chunk_or_none t) r2"
proof (cases "t = []")
  case True
  then show ?thesis using assms
    by (simp add: jayess_std_http_response_write_method_def streaming_def value_text_def stringify_Suc_simp chunk_or_none_def)
next
  case False
  have M: "roomy net (sock r1) M" using r1 by (simp add: streaming_def)
  have "length (hex_text (length t) @ CRLF) \<le> M" using hex_line_short [of t] t M by (simp add: roomy_def)
  then have "list_all (\<lambda>t. length t \<le> M) [hex_text (length t) @ CRLF, t, CRLF]" using t M by (simp add: roomy_def)
  from write_fitting [OF M this] obtain r2
    where w: "write_texts net r1 [hex_text (length t) @ CRLF, t, CRLF] = (True, r2)" and out: "went_out r1 (chunk_text t) r2"
    by (auto simp: chunk_text_def)
  then have "jayess_std_http_response_write_method net (Suc d) a r (Some (VString t)) = Some (Inr (True, r2))"
    using assms False by (simp add: jayess_std_http_response_write_method_def streaming_def value_text_def stringify_Suc_simp)
  moreover have "streaming net M keep earlier (out @ chunk_or_none t) r2"
    using streaming_went_out [OF r1 out] False by (simp add: chunk_or_none_def)
  ultimately show ?thesis by blast
qed

lemma send_again: "headers_sent r \<Longrightarrow> jayess_std_http_response_send_headers net d a r = Some (Inr (True, r))"
  by (simp add: jayess_std_http_response_send_headers_def)

lemma write_all:
  assumes "jayess_std_http_response_send_headers net (Suc d) a r = Some (Inr (True, r1))"
    and "\<not> finished r" and "streaming net M keep earlier out r1" and "list_all (\<lambda>t. length t \<le> M) ts"
  shows "\<exists>r2 r3. response_steps net (Suc d) a (map (\<lambda>t. Op_Write (Some (VString t))) ts) r = Some (Inr r2)
    \<and> jayess_std_http_response_send_headers net (Suc d) a r2 = Some (Inr (True, r3)) \<and> \<not> finished r2
    \<and> streaming net M keep earlier (out @ concat (map chunk_or_none ts)) r3"
  using assms
proof (induction ts arbitrary: r r1 out)
  case (Cons t ts)
  obtain r2 where r2: "jayess_std_http_response_write_method net (Suc d) a r (Some (VString t)) = Some (Inr (True, r2))"
    "streaming net M keep earlier (out @ chunk_or_none t) r2"
    using write_streaming [OF Cons.prems(1-3)] Cons.prems(4) by auto
  then have "jayess_std_http_response_send_headers net (Suc d) a r2 = Some (Inr (True, r2))" "\<not> finished r2"
    by (simp_all add: streaming_def send_again)
  from Cons.IH [OF this r2(2)] show ?case using Cons.prems(4) r2(1) by auto
qed simp

section \<open>The head of a new response\<close>

lemma new_response_facts:
  assumes "new_response t k keep = (a, r)"
  shows "object_get (js (heap r)) a ''statusCode'' = Some (jayess_value_from_number (dbl_of_int 200))"
    and "object_get (js (heap r)) a ''headers'' = Some (VObject (Suc a))" and "entries_at (js (heap r)) (Suc a) = []"
    and "next_address (js (heap r)) = Suc (Suc a)"
    and "\<not> headers_sent r" "\<not> finished r" "sock r = k" "keep_alive r = keep"
proof -
  define s1 where "s1 = snd (jayess_object_new (js t))"
  define s2 where "s2 = object_set s1 (next_address (js t)) ''statusCode'' (jayess_value_from_number (dbl_of_int 200))"
  define s3 where "s3 = snd (jayess_object_new s2)"
  have new: "jayess_object_new (js t) = (next_address (js t), s1)" "jayess_object_new s2 = (Suc (next_address (js t)), s3)"
    by (simp_all add: s1_def s2_def s3_def prod_eq_iff)
  have a: "a = next_address (js t)" and r: "r = \<lparr>heap = t\<lparr>js := object_set (object_set s3 a ''headers'' (VObject (Suc a))) a ''finished'' (VBool False)\<rparr>,
      sock = k, headers_sent = False, finished = False, keep_alive = keep, chunked = False\<rparr>"
    using assms by (auto simp: new_response_def new s2_def [symmetric])
  have "object_get s3 a k = object_get s2 a k" for k
    using object_new_other [of a s2] by (simp add: s3_def object_get_def entries_at_def s2_def a s1_def)
  then show "object_get (js (heap r)) a ''statusCode'' = Some (jayess_value_from_number (dbl_of_int 200))"
    "object_get (js (heap r)) a ''headers'' = Some (VObject (Suc a))"
    by (simp_all add: r object_get_set s2_def a)
  show "entries_at (js (heap r)) (Suc a) = []" by (simp add: r object_set_def s3_def s2_def s1_def a)
  show "next_address (js (heap r)) = Suc (Suc a)" by (simp add: r s3_def s2_def s1_def a)
  show "\<not> headers_sent r" "\<not> finished r" "sock r = k" "keep_alive r = keep"
    by (simp_all add: r)
qed

lemma string_text: "jayess_value_stringify (Suc d) s (Some (VString t)) = Some t"
  by (simp add: stringify_Suc_simp)

lemma status_text: "jayess_value_stringify (Suc d) s (Some (jayess_value_from_number (dbl_of_int 200))) = Some ''200''"
proof -
  have "\<not> dbl_eq (dbl_of_int 200) 0" using dbl_eq_of_int [of 200 0] by (simp add: dbl_of_int_0)
  moreover have "text_of_int 200 = ''200''" by (simp add: text_of_int_def dec.simps digit_chars)
  ultimately show ?thesis using number_to_string_int [of 200] by (simp add: value_from_number stringify_Suc_simp)
qed

lemma names_differ:
  "\<not> jayess_http_text_eq_ci ''Connection'' ''Transfer-Encoding''" "\<not> jayess_http_text_eq_ci ''Connection'' ''Content-Length''"
  "jayess_http_text_eq_ci ''Transfer-Encoding'' ''Transfer-Encoding''" "jayess_http_text_contains_ci ''chunked'' ''chunked''"
  by code_simp+

lemma head_chunked:
  "entries_at s h = map text_entry (head_pairs keep) \<Longrightarrow> jayess_http_headers_transfer_chunked (Suc d) s (Some h) = Some True"
  using names_differ by (simp add: jayess_http_headers_transfer_chunked_def jayess_http_header_value_contains_ci_def
      jayess_http_header_get_ci_def head_pairs_def string_text)

lemma send_head:
  assumes new: "new_response t k keep = (a, r)" and room: "roomy net k M"
  shows "\<exists>r1. jayess_std_http_response_send_headers net (Suc d) a r = Some (Inr (True, r1)) \<and> streaming net M keep (sent k) [] r1"
proof -
  note facts = new_response_facts [OF new]
  let ?s = "js (heap r)" and ?h = "Suc a" and ?m = "Suc (Suc a)" and ?c = "if keep then ''keep-alive'' else ''close''"
  define s1 where "s1 = snd (jayess_object_new ?s)"
  define s3 where "s3 = object_set s1 ?h ''Connection'' (VString ?c)"
  define s4 where "s4 = object_set s3 ?h ''Transfer-Encoding'' (VString ''chunked'')"
  define s5 where "s5 = header_message s4 ?m ?h (object_get ?s a ''statusCode'')"
  have m: "jayess_object_new ?s = (?m, s1)" by (simp add: s1_def facts(4) prod_eq_iff)
  have e1: "entries_at s1 ?h = []" by (simp add: s1_def facts(3,4))
  then have e3: "entries_at s3 ?h = [text_entry (''Connection'', ?c)]"
    by (simp add: s3_def member_set text_entry_def)
  then have "\<forall>e \<in> set (entries_at s3 ?h). entry_key e \<noteq> Some ''Transfer-Encoding''" by simp
  from member_set(3) [OF this] have e4: "entries_at s4 ?h = map text_entry (head_pairs keep)"
    by (simp add: s4_def e3 head_pairs_def) (simp add: text_entry_def)
  have "object_get s1 a ''headers'' = Some (VObject ?h)"
    using facts(2) object_new_other [of a ?s] by (simp add: s1_def facts(4) object_get_def entries_at_def)
  then have h: "ensure_headers s1 a = (?h, s1)" by (simp add: ensure_headers_def headers_of_def jayess_value_as_object_def)
  have connection: "set_missing s1 ?h ''Connection'' ?c = s3"
    by (simp add: set_missing_def jayess_http_header_get_ci_def e1 s3_def)
  have no_te: "jayess_http_headers_transfer_chunked (Suc d) s3 (Some ?h) = Some False" and no_cl: "no_length s3 ?h"
    using names_differ by (simp_all add: jayess_http_headers_transfer_chunked_def jayess_http_header_value_contains_ci_def
        jayess_http_header_get_ci_def e3 no_length_def)
  note te = head_chunked [OF e4, of d]
  have get: "object_get s5 ?m ''version'' = Some (VString ''HTTP/1.1'')" "object_get s5 ?m ''reason'' = Some (VString ''OK'')"
    "object_get s5 ?m ''status'' = Some (jayess_value_from_number (dbl_of_int 200))" "object_get s5 ?m ''body'' = Some (VString [])"
    "object_get s5 ?m ''headers'' = Some (VObject ?h)"
    by (simp_all add: s5_def header_message_def object_get_set facts(1))
  have e5: "entries_at s5 ?h = map text_entry (head_pairs keep)" by (simp add: s5_def header_message_def e4 object_set_def)
  have "jayess_std_http_format_response (Suc d) s5 (Some (VObject ?m)) = Some (Inr (response_head keep))"
    using format_header_pairs [OF e5, of d] concat_terminated [of "map header_pair_text (head_pairs keep)" CRLF]
    by (simp add: jayess_std_http_format_response_def jayess_value_as_object_def get status_text string_text headers_of_def
        format_response_texts_def into_buffer_def message_text_def or_else_def response_head_def head_pairs_def)
  moreover define r0 where "r0 = (with_js r s5)\<lparr>chunked := True\<rparr>"
  moreover obtain r1 where r1: "send_text net r0 (header_part (response_head keep)) = (True, r1)"
    "went_out r0 (response_head keep) r1" "roomy net (sock r1) M"
  proof -
    have "roomy net (sock r0) M" "length (response_head keep) \<le> M"
      using room response_head_facts(1) [of keep] facts(7) by (simp_all add: r0_def with_js_def roomy_def)
    from send_fitting [OF this] show thesis using that response_head_facts(2) [of keep] by auto
  qed
  ultimately have "jayess_std_http_response_send_headers net (Suc d) a r = Some (Inr (True, r1\<lparr>headers_sent := True\<rparr>))"
    using facts(5,8)
    by (simp add: jayess_std_http_response_send_headers_def m h connection no_te no_cl s4_def [symmetric] te s5_def [symmetric] Let_def)
  moreover have "streaming net M keep (sent k) [] (r1\<lparr>headers_sent := True\<rparr>)"
    using facts r1(2,3) by (cases r; cases r1) (auto simp: streaming_def r0_def with_js_def went_out_def)
  ultimately show ?thesis by blast
qed

section \<open>The client\<close>

lemma head_pairs_fine: "list_all header_fine (head_pairs keep)" "distinct (map fst (head_pairs keep))"
proof -
  have "\<forall>keep \<in> {True, False}. list_all header_fine (head_pairs keep)" by code_simp
  then show "list_all header_fine (head_pairs keep)" by (cases keep) simp_all
  show "distinct (map fst (head_pairs keep))" by (simp add: head_pairs_def)
qed

lemma strtod_status: "strtod ''200'' = (dbl_of_int 200, [])"
proof -
  have "''200'' = dec 200 @ []" by (simp add: dec.simps digit_chars)
  then show ?thesis using strtod_digits [of "[]" "''200''" 200 "''200''" False] by (simp add: json_end_def dbl_of_int_def)
qed

lemma client_reads:
  assumes "decode_loop [] body = Some u" and "length u < 2 ^ 31"
  shows "\<exists>n t2. jayess_std_http_parse_response (Suc d) t1 (Some (VString (response_head keep @ body))) = Some (VObject n, t2)
    \<and> object_get (js t2) n ''status'' = Some (jayess_value_from_number (dbl_of_int 200))
    \<and> object_get (js t2) n ''body'' = Some (VString u)"
proof -
  let ?v = "response_head keep @ body" and ?hs = "head_pairs keep" and ?first = "''HTTP/1.1 200 OK''"
  have first: "list_all line_char ?first" by code_simp
  have ls: "map header_pair_text ?hs \<noteq> []" "list_all (\<lambda>l. list_all line_char l \<and> l \<noteq> []) (map header_pair_text ?hs)"
    using head_pairs_fine(1) [of keep] header_pair_clean by (auto simp: list_all_iff head_pairs_def)
  have v: "?v = ?first @ CRLF @ join CRLF (map header_pair_text ?hs) @ CRLF @ CRLF @ body" by (simp add: response_head_def)
  have line: "takeWhile line_char ?v = ?first" unfolding v by (rule line_then_CRLF(1) [OF first])
  have split: "split_message ?v = (join CRLF (map header_pair_text ?hs), body)"
    unfolding v by (rule split_message_lines [OF first ls])
  define s1 where "s1 = set_texts (snd (jayess_object_new (js t1))) (next_address (js t1)) ?hs"
  note headers = parse_header_object [OF head_pairs_fine(1) [of keep] head_pairs_fine(2) [of keep], of "js t1", folded s1_def]
  have decoded: "jayess_http_decode_chunked_body body = u" by (simp add: jayess_http_decode_chunked_body_def assms(1))
  obtain n s2 where n: "jayess_object_new s1 = (n, s2)" by fastforce
  define s9 where "s9 = object_set (object_set (object_set (object_set (object_set (object_set (object_set s2
    n ''version'' (VString ''HTTP/1.1'')) n ''status'' (jayess_value_from_number (dbl_of_int 200)))
    n ''reason'' (VString ''OK'')) n ''statusText'' (VString ''OK'')) n ''ok'' (VBool (status_ok (dbl_of_int 200))))
    n ''headers'' (VObject (next_address (js t1)))) n ''body'' (VString u)"
  obtain view t9 where made: "jayess_std_uint8_array_from_bytes (t1\<lparr>js := s9\<rparr>) (map (\<lambda>c. int (char_code c)) u) = (view, t9)"
    by fastforce
  have below: "n < next_address s9" using n object_new_simps(1,8) [of s1] by (auto simp: s9_def prod_eq_iff)
  have "jayess_std_http_parse_response (Suc d) t1 (Some (VString ?v))
      = Some (VObject n, t9\<lparr>js := object_set (js t9) n ''bodyBytes'' view\<rparr>)"
    by (simp add: jayess_std_http_parse_response_def string_text parse_response_text_def line split headers(1) not_space_def
        head_chunked [OF headers(2)] decoded strtod_status n s9_def [symmetric] made Let_def)
  moreover have "object_get (js t9) n k = object_get s9 n k" for k
    using new_bytes_view(2) [of "map (\<lambda>b. Some (number_result b)) (map (\<lambda>c. int (char_code c)) u)" n "t1\<lparr>js := s9\<rparr>"] below assms(2)
    made
    by (simp add: jayess_std_uint8_array_from_bytes_def object_get_def entries_at_def)
  ultimately show ?thesis by (simp add: object_get_set s9_def)
qed

section \<open>A whole response\<close>

lemma concat_chunks: "concat (map chunk_or_none ts) = concat (map chunk_text (filter (\<lambda>t. t \<noteq> []) ts))"
  by (induction ts) (simp_all add: chunk_or_none_def)

lemma concat_nonempty: "concat (filter (\<lambda>t. t \<noteq> []) ts) = concat ts"
  by (induction ts) simp_all

lemma finish_streaming:
  assumes "streaming net M keep earlier out r"
  shows "finished (finish_response net a r) \<and> handle_open (sock (finish_response net a r)) = keep
    \<and> sent (sock (finish_response net a r)) = earlier @ response_head keep @ out @ ''0'' @ CRLF @ CRLF"
proof -
  define r1 where "r1 = (with_js r (object_set (js (heap r)) a ''finished'' (VBool True)))\<lparr>finished := True\<rparr>"
  have room: "roomy net (sock r1) M" using assms by (simp add: r1_def with_js_def streaming_def)
  then have "length (''0'' @ CRLF @ CRLF) \<le> M" by (simp add: roomy_def)
  from send_fitting [OF room this] obtain r2
    where r2: "send_text net r1 (''0'' @ CRLF @ CRLF) = (True, r2)" "went_out r1 (''0'' @ CRLF @ CRLF) r2" "roomy net (sock r2) M"
    by blast
  have "chunked r1" using assms by (simp add: r1_def with_js_def streaming_def)
  then have "finish_response net a r = (if \<not> keep_alive r2 then r2\<lparr>sock := jayess_std_socket_close_method (sock r2)\<rparr> else r2)"
    using r2(1) by (simp add: finish_response_def Let_def r1_def [symmetric])
  then show ?thesis using r2(2,3) assms
    by (cases r; cases r2) (auto simp: went_out_def r1_def with_js_def streaming_def roomy_def jayess_std_socket_close_method_def
        jayess_std_socket_mark_closed_def jayess_std_socket_emit_close_def note_event_def)
qed

lemma served_response:
  assumes room: "roomy net k M" and ts: "list_all (\<lambda>t. length t \<le> M) ts"
  shows "\<exists>r. serve_request net (Suc d) t k keep (map (\<lambda>t. Op_Write (Some (VString t))) ts) = Some (Inr r)
    \<and> finished r \<and> handle_open (sock r) = keep
    \<and> sent (sock r) = sent k @ response_head keep @ concat (map chunk_text (filter (\<lambda>t. t \<noteq> []) ts)) @ ''0'' @ CRLF @ CRLF"
proof -
  obtain a r where new: "new_response t k keep = (a, r)" by fastforce
  obtain r1 where "jayess_std_http_response_send_headers net (Suc d) a r = Some (Inr (True, r1))" "streaming net M keep (sent k) [] r1"
    using send_head [OF new room] by blast
  from write_all [OF this(1) new_response_facts(6) [OF new] this(2) ts]
  obtain r2 r3 where r2: "response_steps net (Suc d) a (map (\<lambda>t. Op_Write (Some (VString t))) ts) r = Some (Inr r2)"
    "jayess_std_http_response_send_headers net (Suc d) a r2 = Some (Inr (True, r3))" "\<not> finished r2"
    and r3: "streaming net M keep (sent k) (concat (map chunk_or_none ts)) r3" by auto
  have "serve_request net (Suc d) t k keep (map (\<lambda>t. Op_Write (Some (VString t))) ts) = Some (Inr (finish_response net a r3))"
    using r2 by (simp add: serve_request_def new jayess_std_http_response_end_method_def note_length_def absent_def)
  then show ?thesis using finish_streaming [OF r3, of a] by (simp add: concat_chunks)
qed

text \<open>
  C28. A response written piece by piece arrives complete. The handler of a request writes texts and returns; each text
  fits the high-water mark of the socket (at least 128 characters, and exact as a number), all texts together have fewer
  than \<open>2 ^ 31\<close> characters (send takes an \<open>int\<close> length), and every call of send takes at least one character, perhaps
  fewer than it was given. Then the response is finished, the socket is closed unless
  the connection is kept alive, and what went out for it, parsed the way the client of this runtime does, is a response
  with status 200 and as its body the texts one after the other.
\<close>

theorem chunked_response_delivered:
  assumes room: "roomy net k M" and ts: "list_all (\<lambda>t. length t \<le> M) ts" and small: "length (concat ts) < 2 ^ 31"
  shows "\<exists>r out n t2. serve_request net (Suc d) t k keep (map (\<lambda>t. Op_Write (Some (VString t))) ts) = Some (Inr r)
    \<and> finished r \<and> handle_open (sock r) = keep \<and> sent (sock r) = sent k @ out
    \<and> jayess_std_http_parse_response (Suc d) t1 (Some (VString out)) = Some (VObject n, t2)
    \<and> object_get (js t2) n ''status'' = Some (jayess_value_from_number (dbl_of_int 200))
    \<and> object_get (js t2) n ''body'' = Some (VString (concat ts))"
proof -
  let ?body = "concat (map chunk_text (filter (\<lambda>t. t \<noteq> []) ts)) @ ''0'' @ CRLF @ CRLF"
  have "length t < 2 ^ 64" if "t \<in> set ts" for t
  proof -
    have "length t \<le> M" "M < 2 ^ 53" using that ts room by (auto simp: list_all_iff roomy_def)
    then show ?thesis by simp
  qed
  then have "decode_loop [] ?body = Some (concat ts)"
    using decode_chunks [of "filter (\<lambda>t. t \<noteq> []) ts" "[]"] by (auto simp: concat_nonempty list_all_iff)
  from client_reads [OF this small, of d t1 keep] show ?thesis using served_response [OF room ts, of d t keep] by blast
qed

text \<open>A network that takes at most seven characters at a time.\<close>

definition example_net :: network where
  "example_net s t = Sent (min 7 (length t))"

lemma roomy_example_net: "roomy example_net jayess_std_socket_value_from_handle 4096"
proof -
  have "min 7 (length t) = Suc (min 6 (length t - 1))" if "t \<noteq> []" for t :: string
    using that by (cases t) simp_all
  then have "progress example_net" unfolding progress_def example_net_def by metis
  moreover have "\<not> dbl_less (dbl_of_int 4096) 0" "\<not> dbl_eq (dbl_of_int 4096) 0"
    using dbl_less_of_int [of 4096 0] dbl_eq_of_int [of 4096 0] by (simp_all add: dbl_of_int_0)
  ultimately show ?thesis
    by (simp add: roomy_def jayess_std_stream_high_water_mark_def jayess_std_socket_value_from_handle_def)
qed

theorem chunked_response_delivered_witness:
  "\<exists>r out n t2. serve_request example_net 1 \<lparr>js = initial_state, native = \<lambda>a. None\<rparr> jayess_std_socket_value_from_handle False
       (map (\<lambda>t. Op_Write (Some (VString t))) [''hello'', [], '', world'']) = Some (Inr r)
    \<and> finished r \<and> handle_open (sock r) = False \<and> sent (sock r) = sent jayess_std_socket_value_from_handle @ out
    \<and> jayess_std_http_parse_response 1 \<lparr>js = initial_state, native = \<lambda>a. None\<rparr> (Some (VString out)) = Some (VObject n, t2)
    \<and> object_get (js t2) n ''status'' = Some (jayess_value_from_number (dbl_of_int 200))
    \<and> object_get (js t2) n ''body'' = Some (VString (concat [''hello'', [], '', world'']))"
  using chunked_response_delivered [OF roomy_example_net, of "[''hello'', [], '', world'']" 0 "\<lparr>js = initial_state, native = \<lambda>a. None\<rparr>" False
      "\<lparr>js = initial_state, native = \<lambda>a. None\<rparr>"]
  by simp

section \<open>A chunk that is too long\<close>

text \<open>
  A text longer than the high-water mark is sent, but the write answers false, so the line break behind the chunk is
  left out; when the response is ended, a client takes the framing for part of the body.
\<close>

lemma decode_unterminated:
  assumes "t \<noteq> []" and "length t < 2 ^ 64"
  shows "decode_loop out (hex_text (length t) @ CRLF @ t @ ''0'' @ r) = None"
proof -
  have clean: "list_all line_char (hex_text (length t))"
    using hex_text_chars [of _ "length t"] by (auto simp: list_all_iff)
  have stuck: "after_chunk (''0'' @ r) = None" by (simp add: after_chunk_def CRLF_def)
  show ?thesis
    unfolding decode_loop.simps [of out "hex_text (length t) @ _"]
    using assms stuck by (simp add: line_then_CRLF [OF clean] chunk_size_hex strtoul_hex_text hex_text_nonempty hex_text_nonempty [symmetric])
qed

lemma large_chunk_misread:
  assumes room: "roomy net k M" and t: "M < length t" "length t < 2 ^ 53"
  shows "\<exists>r. serve_request net (Suc d) s k keep [Op_Write (Some (VString t))] = Some (Inr r) \<and> finished r
    \<and> sent (sock r) = sent k @ response_head keep @ hex_text (length t) @ CRLF @ t @ ''0'' @ CRLF @ CRLF
    \<and> jayess_http_decode_chunked_body (hex_text (length t) @ CRLF @ t @ ''0'' @ CRLF @ CRLF)
      = hex_text (length t) @ CRLF @ t @ ''0'' @ CRLF @ CRLF"
proof -
  obtain a r where new: "new_response s k keep = (a, r)" by fastforce
  obtain r1 where r1: "jayess_std_http_response_send_headers net (Suc d) a r = Some (Inr (True, r1))" "streaming net M keep (sent k) [] r1"
    using send_head [OF new room] by blast
  have M: "roomy net (sock r1) M" "chunked r1" using r1(2) by (simp_all add: streaming_def)
  have "t \<noteq> []" using t(1) by auto
  have "length (hex_text (length t) @ CRLF) \<le> M" using hex_line_short [OF t(2)] M(1) by (simp add: roomy_def)
  from send_fitting [OF M(1) this] obtain r2 where r2: "send_text net r1 (hex_text (length t) @ CRLF) = (True, r2)"
    "went_out r1 (hex_text (length t) @ CRLF) r2" "roomy net (sock r2) M" by blast
  from send_text_sends [OF r2(3) t(2)] obtain r3 where r3: "send_text net r2 t = (False, r3)" "went_out r2 t r3"
    using t(1) by auto
  have r3_out: "streaming net M keep (sent k) (hex_text (length t) @ CRLF @ t) r3"
    using streaming_went_out [OF r1(2) went_out_trans [OF r2(2) r3(2)]] by simp
  have wrote: "jayess_std_http_response_write_method net (Suc d) a r (Some (VString t)) = Some (Inr (False, r3))"
    using r1(1) M(2) r2(1) r3(1) new_response_facts(6) [OF new] \<open>t \<noteq> []\<close>
    by (simp add: jayess_std_http_response_write_method_def value_text_def string_text)
  have "serve_request net (Suc d) s k keep [Op_Write (Some (VString t))] = Some (Inr (finish_response net a r3))"
    using r3_out by (simp add: serve_request_def new wrote jayess_std_http_response_end_method_def note_length_def absent_def
        streaming_def send_again)
  moreover have "length t < 2 ^ 64" using t(2) by simp
  ultimately show ?thesis
    using finish_streaming [OF r3_out, of a] decode_unterminated [OF \<open>t \<noteq> []\<close>, of "[]" "CRLF @ CRLF"]
    by (simp add: jayess_http_decode_chunked_body_def)
qed

end
