(* ===== verification/Regex.thy ===== *)
theory Regex
  imports C_Strings
begin

text \<open>
  The regular expressions of strings (\<open>jayess_runtime.c\<close>): single characters, the dot, escapes, the quantifiers
  \<open>*\<close>, \<open>+\<close> and \<open>?\<close>, and the two anchors. The matcher tries the fewest repetitions first.
\<close>

section \<open>The matcher\<close>

definition jayess_regex_atom_length :: "string \<Rightarrow> nat" where
  "jayess_regex_atom_length pattern =
     (case pattern of [] \<Rightarrow> 0 | c # r \<Rightarrow> if c = CHR 0x5C \<and> r \<noteq> [] then 2 else 1)"

definition jayess_regex_atom_matches :: "string \<Rightarrow> char \<Rightarrow> bool" where
  "jayess_regex_atom_matches pattern v =
     (case pattern of
        [] \<Rightarrow> False
      | c # r \<Rightarrow> if c = CHR 0x5C \<and> r \<noteq> [] then v = hd r else c = CHR ''.'' \<or> c = v)"

text \<open>The loop over the repetitions of an atom: \<open>m\<close> tries the rest of the pattern.\<close>

fun repeat_loop :: "(string \<Rightarrow> string option) \<Rightarrow> (char \<Rightarrow> bool) \<Rightarrow> string \<Rightarrow> string option" where
  "repeat_loop m ok [] = m []"
| "repeat_loop m ok (c # u) =
     (case m (c # u) of Some e \<Rightarrow> Some e | None \<Rightarrow> if ok c then repeat_loop m ok u else None)"

text \<open>The text behind a match that starts at the beginning of the text.\<close>

function jayess_regex_match_here :: "string \<Rightarrow> string \<Rightarrow> string option" where
  "jayess_regex_match_here pattern t =
     (if pattern = [] then Some t
      else if pattern = ''$'' then (if t = [] then Some t else None)
      else
        (let ok = jayess_regex_atom_matches pattern; q = drop (jayess_regex_atom_length pattern) pattern
         in if prefix ''*'' q then repeat_loop (\<lambda>u. jayess_regex_match_here (tl q) u) ok t
            else if prefix ''+'' q
            then (case t of [] \<Rightarrow> None | c # u \<Rightarrow> if ok c then repeat_loop (\<lambda>u. jayess_regex_match_here (tl q) u) ok u else None)
            else if prefix ''?'' q
            then (case jayess_regex_match_here (tl q) t of
                    Some e \<Rightarrow> Some e
                  | None \<Rightarrow> (case t of [] \<Rightarrow> None | c # u \<Rightarrow> if ok c then jayess_regex_match_here (tl q) u else None))
            else (case t of [] \<Rightarrow> None | c # u \<Rightarrow> if ok c then jayess_regex_match_here q u else None)))"
  by pat_completeness auto

lemma atom_length_pos: "pattern \<noteq> [] \<Longrightarrow> 0 < jayess_regex_atom_length pattern"
  by (cases pattern) (simp_all add: jayess_regex_atom_length_def)

termination jayess_regex_match_here
proof (relation "measure (\<lambda>(pattern, t). length pattern)", goal_cases)
  case 1
  show ?case by simp
qed (use atom_length_pos in \<open>fastforce simp: length_tl intro: diff_less\<close>)+

declare jayess_regex_match_here.simps [simp del]

section \<open>Searching\<close>

text \<open>
  The first position from which the pattern matches, and the position behind the match. The code casts both to \<open>int\<close>;
  the casts are exact for texts of fewer than \<open>2 ^ 31\<close> characters, the bound of the property on searching.
\<close>

function search_loop :: "string \<Rightarrow> nat \<Rightarrow> string \<Rightarrow> (nat \<times> nat) option" where
  "search_loop pattern i cursor =
     (case jayess_regex_match_here pattern cursor of
        Some e \<Rightarrow> Some (i, i + (length cursor - length e))
      | None \<Rightarrow> if cursor = [] then None else search_loop pattern (Suc i) (tl cursor))"
  by pat_completeness auto

termination search_loop
  by (relation "measure (\<lambda>(pattern, i, cursor). length cursor)") auto

declare search_loop.simps [simp del]

definition jayess_regex_search :: "string \<Rightarrow> string \<Rightarrow> (nat \<times> nat) option" where
  "jayess_regex_search pattern t =
     (if prefix ''^'' pattern
      then map_option (\<lambda>e. (0, length t - length e)) (jayess_regex_match_here (tl pattern) t)
      else search_loop pattern 0 t)"

end
