(* ===== verification/String_Methods.thy ===== *)
theory String_Methods
  imports Url_Text Json_Parse Regex
begin

text \<open>
  The methods of strings (\<open>jayess_runtime.c\<close>): searching, slicing, trimming, splitting, and those that take a
  regular expression. A method on a value that is no string works on the empty text.
\<close>

definition jayess_string_env :: "jayess_value option \<Rightarrow> string" where
  "jayess_string_env env = (case env of Some (VString t) \<Rightarrow> t | _ \<Rightarrow> [])"

section \<open>Searching and slicing\<close>

definition jayess_std_string_includes_method ::
  "nat \<Rightarrow> jayess_state \<Rightarrow> jayess_value option \<Rightarrow> jayess_value option \<Rightarrow> bool option" where
  "jayess_std_string_includes_method d s env needle =
     map_option (\<lambda>t. strstr (jayess_string_env env) t \<noteq> None) (jayess_value_stringify d s needle)"

definition jayess_std_string_starts_with_method ::
  "nat \<Rightarrow> jayess_state \<Rightarrow> jayess_value option \<Rightarrow> jayess_value option \<Rightarrow> bool option" where
  "jayess_std_string_starts_with_method d s env start =
     map_option (\<lambda>t. strncmp_eq (jayess_string_env env) t (length t)) (jayess_value_stringify d s start)"

definition jayess_std_string_ends_with_method ::
  "nat \<Rightarrow> jayess_state \<Rightarrow> jayess_value option \<Rightarrow> jayess_value option \<Rightarrow> bool option" where
  "jayess_std_string_ends_with_method d s env finish =
     map_option (\<lambda>t. length t \<le> length (jayess_string_env env)
                     \<and> drop (length (jayess_string_env env) - length t) (jayess_string_env env) = t)
       (jayess_value_stringify d s finish)"

text \<open>
  The end is clamped to the length after it was raised to the start, so it can be below the start; then the size of
  the copy is negative, as in \<open>jayess_substring\<close>.
\<close>

definition slice_text :: "string \<Rightarrow> int \<Rightarrow> int \<Rightarrow> fault + string" where
  "slice_text v start stop =
     (let len = wrap_int (int (length v));
          s1 = (if start < 0 then 0 else start);
          e1 = (if stop < s1 then s1 else stop);
          e2 = (if len < e1 then len else e1)
      in jayess_substring (drop (nat s1) v) (e2 - s1))"

definition jayess_std_string_slice_method ::
  "jayess_value option \<Rightarrow> jayess_value option \<Rightarrow> jayess_value option \<Rightarrow> fault + string" where
  "jayess_std_string_slice_method env start_value end_value =
     (let v = jayess_string_env env
      in slice_text v (int_arg start_value)
           (if jayess_value_is_nullish end_value then wrap_int (int (length v)) else int_arg end_value))"

definition jayess_std_string_trim_method :: "jayess_value option \<Rightarrow> string" where
  "jayess_std_string_trim_method env =
     rev (dropWhile c_isspace (rev (dropWhile c_isspace (jayess_string_env env))))"

definition jayess_std_string_upper_method :: "jayess_value option \<Rightarrow> string" where
  "jayess_std_string_upper_method env = map c_toupper (jayess_string_env env)"

definition jayess_std_string_lower_method :: "jayess_value option \<Rightarrow> string" where
  "jayess_std_string_lower_method env = map c_tolower (jayess_string_env env)"

definition jayess_std_string_from_char_code :: "jayess_state \<Rightarrow> jayess_value option \<Rightarrow> string" where
  "jayess_std_string_from_char_code s codes =
     (case codes of
        Some (VArray a) \<Rightarrow>
          c_text (map (\<lambda>v. char_of (nat (c_int (jayess_value_to_number v) AND 255))) (slots_at s a))
      | _ \<Rightarrow> [])"

section \<open>Splitting\<close>

definition text_array :: "jayess_state \<Rightarrow> string list \<Rightarrow> jayess_value \<times> jayess_state" where
  "text_array s ts =
     (let (a, s1) = jayess_array_new s in (VArray a, foldl (\<lambda>s t. push_value s a (VString t)) s1 ts))"

function split_pieces :: "string \<Rightarrow> string \<Rightarrow> string list" where
  "split_pieces sep cursor =
     (case strstr cursor sep of
        None \<Rightarrow> [cursor]
      | Some n \<Rightarrow> if sep = [] then [cursor] else take n cursor # split_pieces sep (drop (n + length sep) cursor))"
  by pat_completeness auto

termination split_pieces
proof (relation "measure (\<lambda>(sep, cursor). length cursor)", simp)
  fix sep cursor :: string and n
  assume "strstr cursor sep = Some n" "sep \<noteq> []"
  then have "cursor \<noteq> []" "0 < n + length sep" by auto
  then show "((sep, drop (n + length sep) cursor), sep, cursor) \<in> measure (\<lambda>(sep, cursor). length cursor)" by simp
qed

declare split_pieces.simps [simp del]

definition split_text :: "string \<Rightarrow> string \<Rightarrow> string list" where
  "split_text v sep = (if sep = [] then map (\<lambda>c. [c]) v else split_pieces sep v)"

definition jayess_std_string_split_method ::
  "nat \<Rightarrow> jayess_state \<Rightarrow> jayess_value option \<Rightarrow> jayess_value option \<Rightarrow> (jayess_value \<times> jayess_state) option" where
  "jayess_std_string_split_method d s env separator =
     map_option (\<lambda>sep. text_array s (split_text (jayess_string_env env) sep))
       (case separator of None \<Rightarrow> Some [] | Some v \<Rightarrow> jayess_value_stringify d s (Some v))"

section \<open>Regular expressions\<close>

definition jayess_std_regexp_new ::
  "jayess_state \<Rightarrow> jayess_value option \<Rightarrow> jayess_value option \<Rightarrow> jayess_value \<times> jayess_state" where
  "jayess_std_regexp_new s pattern flags =
     (let (a, s1) = jayess_object_new s;
          s2 = object_set s1 a ''__jayess_std_kind'' (VString ''RegExp'');
          s3 = object_set s2 a ''__jayess_regexp_pattern'' (VString (jayess_string_env pattern))
      in (VObject a, object_set s3 a ''__jayess_regexp_flags'' (VString (jayess_string_env flags))))"

definition jayess_regex_pattern_from_value :: "jayess_state \<Rightarrow> jayess_value option \<Rightarrow> string" where
  "jayess_regex_pattern_from_value s v =
     (case v of
        Some (VString t) \<Rightarrow> t
      | Some (VObject a) \<Rightarrow>
          if jayess_std_kind_is s v ''RegExp'' then jayess_string_env (object_get s a ''__jayess_regexp_pattern'') else []
      | _ \<Rightarrow> [])"

definition jayess_std_string_match_method ::
  "jayess_state \<Rightarrow> jayess_value option \<Rightarrow> jayess_value option \<Rightarrow> jayess_value \<times> jayess_state" where
  "jayess_std_string_match_method s env pattern_value =
     (let v = jayess_string_env env
      in case jayess_regex_search (jayess_regex_pattern_from_value s pattern_value) v of
           None \<Rightarrow> (VUndefined, s)
         | Some (start, stop) \<Rightarrow> text_array s [take (stop - start) (drop start v)])"

definition jayess_std_string_search_method :: "jayess_state \<Rightarrow> jayess_value option \<Rightarrow> jayess_value option \<Rightarrow> jayess_value" where
  "jayess_std_string_search_method s env pattern_value =
     number_result (case jayess_regex_search (jayess_regex_pattern_from_value s pattern_value) (jayess_string_env env) of
                      None \<Rightarrow> -1 | Some (start, stop) \<Rightarrow> int start)"

definition replace_text :: "string \<Rightarrow> string \<Rightarrow> string \<Rightarrow> string" where
  "replace_text v pattern replacement =
     (case jayess_regex_search pattern v of
        None \<Rightarrow> v | Some (start, stop) \<Rightarrow> take start v @ replacement @ drop stop v)"

definition jayess_std_string_replace_method ::
  "nat \<Rightarrow> jayess_state \<Rightarrow> jayess_value option \<Rightarrow> jayess_value option \<Rightarrow> jayess_value option \<Rightarrow> string option" where
  "jayess_std_string_replace_method d s env pattern_value replacement_value =
     map_option (replace_text (jayess_string_env env) (jayess_regex_pattern_from_value s pattern_value))
       (jayess_value_stringify d s replacement_value)"

text \<open>An empty match at the start of the rest is passed together with the character behind it.\<close>

function regex_pieces :: "string \<Rightarrow> string \<Rightarrow> string list" where
  "regex_pieces pattern cursor =
     (case jayess_regex_search pattern cursor of
        None \<Rightarrow> [cursor]
      | Some (start, stop) \<Rightarrow>
          (let n = (if stop = 0 then 1 else stop)
           in take start cursor # (if length cursor < n then [[]] else regex_pieces pattern (drop n cursor))))"
  by pat_completeness auto

termination regex_pieces
  by (relation "measure (\<lambda>(pattern, cursor). length cursor)") auto

declare regex_pieces.simps [simp del]

definition jayess_std_string_regex_split_method ::
  "jayess_state \<Rightarrow> jayess_value option \<Rightarrow> jayess_value option \<Rightarrow> jayess_value \<times> jayess_state" where
  "jayess_std_string_regex_split_method s env pattern_value =
     text_array s (regex_pieces (jayess_regex_pattern_from_value s pattern_value) (jayess_string_env env))"

end
