(* ===== verification/Regex_Correct.thy ===== *)
theory Regex_Correct
  imports Regex
begin

text \<open>
  The matcher against a language: patterns as lists of quantified atoms, the texts such a list describes, and the
  order in which the matcher tries them.
\<close>

section \<open>Patterns as syntax\<close>

datatype atom = Any | Lit char

datatype quantifier = Once | Star | Plus | Opt

definition atom_ok :: "atom \<Rightarrow> char \<Rightarrow> bool" where
  "atom_ok a c = (case a of Any \<Rightarrow> True | Lit d \<Rightarrow> c = d)"

definition allowed :: "quantifier \<Rightarrow> nat \<Rightarrow> bool" where
  "allowed q n = (case q of Once \<Rightarrow> n = 1 | Star \<Rightarrow> True | Plus \<Rightarrow> 0 < n | Opt \<Rightarrow> n \<le> 1)"

definition atom_of :: "string \<Rightarrow> atom" where
  "atom_of pattern =
     (case pattern of
        [] \<Rightarrow> Any
      | c # r \<Rightarrow> if c = CHR 0x5C \<and> r \<noteq> [] then Lit (hd r) else if c = CHR ''.'' then Any else Lit c)"

text \<open>The parts of a pattern, and whether it ends in the anchor.\<close>

function regex_syntax :: "string \<Rightarrow> (atom \<times> quantifier) list \<times> bool" where
  "regex_syntax pattern =
     (if pattern = [] then ([], False)
      else if pattern = ''$'' then ([], True)
      else
        (let q = drop (jayess_regex_atom_length pattern) pattern;
             (k, r) = (if prefix ''*'' q then (Star, tl q) else if prefix ''+'' q then (Plus, tl q)
                       else if prefix ''?'' q then (Opt, tl q) else (Once, q));
             (ps, anchored) = regex_syntax r
         in ((atom_of pattern, k) # ps, anchored)))"
  by pat_completeness auto

termination regex_syntax
proof (relation "measure length", simp)
  fix pattern q k r and x :: "quantifier \<times> string"
  assume "pattern \<noteq> []" "q = drop (jayess_regex_atom_length pattern) pattern"
    "x = (if prefix ''*'' q then (Star, tl q) else if prefix ''+'' q then (Plus, tl q)
          else if prefix ''?'' q then (Opt, tl q) else (Once, q))" "(k, r) = x"
  then have "length r \<le> length q" "length q < length pattern"
    using atom_length_pos [of pattern] by (auto split: if_splits)
  then show "(r, pattern) \<in> measure length" by simp
qed

declare regex_syntax.simps [simp del]

text \<open>The texts a list of parts describes.\<close>

inductive regex_lang :: "(atom \<times> quantifier) list \<Rightarrow> string \<Rightarrow> bool" where
  lang_Nil: "regex_lang [] []"
| lang_Cons: "allowed k (length u) \<Longrightarrow> list_all (atom_ok a) u \<Longrightarrow> regex_lang ps v \<Longrightarrow> regex_lang ((a, k) # ps) (u @ v)"

inductive_cases lang_NilE: "regex_lang [] v"

inductive_cases lang_ConsE: "regex_lang ((a, k) # ps) v"

text \<open>The pattern, without an anchor at its start, matches \<open>v\<close> in front of \<open>e\<close>.\<close>

definition regex_matches :: "string \<Rightarrow> string \<Rightarrow> string \<Rightarrow> bool" where
  "regex_matches pattern v e \<longleftrightarrow> regex_lang (fst (regex_syntax pattern)) v \<and> (snd (regex_syntax pattern) \<longrightarrow> e = [])"

section \<open>The order of the matches\<close>

fun after_star :: "(char \<Rightarrow> bool) \<Rightarrow> string \<Rightarrow> string list" where
  "after_star ok [] = [[]]"
| "after_star ok (c # u) = (c # u) # (if ok c then after_star ok u else [])"

text \<open>The texts behind one quantified atom, fewest repetitions first.\<close>

fun after_part :: "(char \<Rightarrow> bool) \<Rightarrow> quantifier \<Rightarrow> string \<Rightarrow> string list" where
  "after_part ok Star t = after_star ok t"
| "after_part ok k [] = (if k = Opt then [[]] else [])"
| "after_part ok Once (c # u) = (if ok c then [u] else [])"
| "after_part ok Plus (c # u) = (if ok c then after_star ok u else [])"
| "after_part ok Opt (c # u) = (c # u) # (if ok c then [u] else [])"

fun after_parts :: "(atom \<times> quantifier) list \<Rightarrow> string \<Rightarrow> string list" where
  "after_parts [] t = [t]"
| "after_parts ((a, k) # ps) t = concat (map (after_parts ps) (after_part (atom_ok a) k t))"

fun first_some :: "('a \<Rightarrow> 'b option) \<Rightarrow> 'a list \<Rightarrow> 'b option" where
  "first_some f [] = None"
| "first_some f (x # xs) = (case f x of Some y \<Rightarrow> Some y | None \<Rightarrow> first_some f xs)"

lemma repeat_loop_first: "repeat_loop m ok t = first_some m (after_star ok t)"
  by (induction m ok t rule: repeat_loop.induct) (auto split: option.split)

lemma find_append: "find P (xs @ ys) = (case find P xs of Some y \<Rightarrow> Some y | None \<Rightarrow> find P ys)"
  by (induction xs) simp_all

lemma find_concat: "find P (concat (map g xs)) = first_some (\<lambda>x. find P (g x)) xs"
  by (induction xs) (simp_all add: find_append split: option.split)

lemma atom_matches_of: "pattern \<noteq> [] \<Longrightarrow> jayess_regex_atom_matches pattern = atom_ok (atom_of pattern)"
  by (cases pattern) (auto simp: jayess_regex_atom_matches_def atom_of_def atom_ok_def fun_eq_iff)

text \<open>The first of these that the anchor allows, one part at a time.\<close>

definition first_match :: "string \<Rightarrow> string \<Rightarrow> string option" where
  "first_match pattern t =
     find (\<lambda>e. snd (regex_syntax pattern) \<longrightarrow> e = []) (after_parts (fst (regex_syntax pattern)) t)"

lemma first_match_end: "first_match [] t = Some t" "first_match ''$'' t = (if t = [] then Some t else None)"
  by (simp_all add: first_match_def regex_syntax.simps)

lemma first_match_part:
  assumes "pattern \<noteq> []" and "pattern \<noteq> ''$''"
    and "(k, r) = (let q = drop (jayess_regex_atom_length pattern) pattern
       in if prefix ''*'' q then (Star, tl q) else if prefix ''+'' q then (Plus, tl q) else if prefix ''?'' q then (Opt, tl q) else (Once, q))"
  shows "first_match pattern t = first_some (first_match r) (after_part (jayess_regex_atom_matches pattern) k t)"
proof -
  have "regex_syntax pattern = ((atom_of pattern, k) # fst (regex_syntax r), snd (regex_syntax r))"
    using assms by (subst regex_syntax.simps) (auto simp: Let_def split: prod.split)
  then show ?thesis by (simp add: first_match_def [abs_def] find_concat atom_matches_of [OF assms(1)])
qed

lemma match_here_first: "jayess_regex_match_here pattern t = first_match pattern t"
proof (induction pattern t rule: jayess_regex_match_here.induct)
  case (1 pattern t)
  consider "pattern = []" | "pattern = ''$''" | (more) "pattern \<noteq> []" "pattern \<noteq> ''$''" by blast
  then show ?case
  proof cases
    case more
    define q where "q = drop (jayess_regex_atom_length pattern) pattern"
    note IH = 1 [OF more refl q_def]
    note step = first_match_part [OF more, unfolded Let_def, folded q_def]
    note unfold = jayess_regex_match_here.simps [of pattern, unfolded Let_def, folded q_def]
    consider (star) "prefix ''*'' q" | (plus) "\<not> prefix ''*'' q" "prefix ''+'' q"
      | (opt) "\<not> prefix ''*'' q" "\<not> prefix ''+'' q" "prefix ''?'' q"
      | (once) "\<not> prefix ''*'' q" "\<not> prefix ''+'' q" "\<not> prefix ''?'' q" by blast
    then show ?thesis
    proof cases
      case star
      then have "(\<lambda>u. jayess_regex_match_here (tl q) u) = first_match (tl q)" using IH(1) by blast
      then show ?thesis using more star step [of Star "tl q" t] by (simp add: unfold repeat_loop_first)
    next
      case plus
      then have "(\<lambda>u. jayess_regex_match_here (tl q) u) = first_match (tl q)" if "t = c # v" "jayess_regex_atom_matches pattern c" for c v
        using IH(2) that by blast
      then show ?thesis using more plus step [of Plus "tl q" t] by (cases t) (simp_all add: unfold repeat_loop_first)
    next
      case opt
      have "jayess_regex_match_here (tl q) t = first_match (tl q) t" using IH(3) opt by blast
      moreover have "jayess_regex_match_here (tl q) v = first_match (tl q) v"
        if "jayess_regex_match_here (tl q) t = None" "t = c # v" "jayess_regex_atom_matches pattern c" for c v
        using IH(4) opt that by blast
      ultimately show ?thesis using more opt step [of Opt "tl q" t] by (cases t) (auto simp: unfold split: option.split)
    next
      case once
      then have "jayess_regex_match_here q v = first_match q v" if "t = c # v" "jayess_regex_atom_matches pattern c" for c v
        using IH(5) that by blast
      then show ?thesis using more once step [of Once q t] by (cases t) (auto simp: unfold split: option.split)
    qed
  qed (simp_all add: jayess_regex_match_here.simps first_match_end)
qed


section \<open>What is matched\<close>

lemma after_star_iff: "e \<in> set (after_star ok t) \<longleftrightarrow> (\<exists>u. t = u @ e \<and> list_all ok u)"
proof (induction ok t rule: after_star.induct)
  case (2 ok c r)
  show ?case
  proof
    assume "e \<in> set (after_star ok (c # r))"
    then consider "e = c # r" | "ok c" "e \<in> set (after_star ok r)" by (auto split: if_splits)
    then show "\<exists>u. c # r = u @ e \<and> list_all ok u"
    proof cases
      case 2
      then obtain u where "r = u @ e" "list_all ok u" using "2.IH" by blast
      then show ?thesis using 2(1) by (intro exI [of _ "c # u"]) simp
    qed simp
  next
    assume "\<exists>u. c # r = u @ e \<and> list_all ok u"
    then obtain u where u: "c # r = u @ e" "list_all ok u" by blast
    show "e \<in> set (after_star ok (c # r))"
    proof (cases u)
      case (Cons d v)
      then show ?thesis using u 2 by auto
    next
      case Nil
      then have "e = c # r" using u by simp
      then show ?thesis by simp
    qed
  qed
qed auto

lemma one_char: "(\<exists>u. t = u @ e \<and> length u = 1 \<and> list_all ok u) \<longleftrightarrow> (\<exists>c. t = c # e \<and> ok c)"
proof (intro iffI; elim exE conjE)
  fix u assume "t = u @ e" "length u = 1" "list_all ok u"
  then show "\<exists>c. t = c # e \<and> ok c" by (cases u) auto
next
  fix c assume "t = c # e" "ok c"
  then show "\<exists>u. t = u @ e \<and> length u = 1 \<and> list_all ok u" by (intro exI [of _ "[c]"]) simp
qed

lemma after_part_iff:
  "e \<in> set (after_part ok k t) \<longleftrightarrow> (\<exists>u. t = u @ e \<and> allowed k (length u) \<and> list_all ok u)"
proof (cases k)
  case Star
  then show ?thesis by (simp add: after_star_iff allowed_def)
next
  case Once
  have "(\<exists>u. t = u @ e \<and> length u = 1 \<and> list_all ok u) \<longleftrightarrow> (\<exists>c. t = c # e \<and> ok c)"
    by (rule one_char)
  then show ?thesis by (cases t) (auto simp: Once allowed_def)
next
  case Opt
  have "(\<exists>u. t = u @ e \<and> length u \<le> 1 \<and> list_all ok u) \<longleftrightarrow> t = e \<or> (\<exists>u. t = u @ e \<and> length u = 1 \<and> list_all ok u)"
    by (auto simp: le_Suc_eq)
  also have "\<dots> \<longleftrightarrow> t = e \<or> (\<exists>c. t = c # e \<and> ok c)" unfolding one_char ..
  finally have "(\<exists>u. t = u @ e \<and> length u \<le> 1 \<and> list_all ok u) \<longleftrightarrow> t = e \<or> (\<exists>c. t = c # e \<and> ok c)" .
  then show ?thesis by (cases t) (auto simp: Opt allowed_def)
next
  case Plus
  show ?thesis
  proof (cases t)
    case (Cons c r)
    have "(\<exists>u. c # r = u @ e \<and> 0 < length u \<and> list_all ok u) \<longleftrightarrow> (\<exists>v. r = v @ e \<and> ok c \<and> list_all ok v)"
      by (auto simp: Cons_eq_append_conv)
    then show ?thesis by (auto simp: Plus Cons allowed_def after_star_iff)
  qed (simp add: Plus allowed_def)
qed

lemma after_parts_iff: "e \<in> set (after_parts ps t) \<longleftrightarrow> (\<exists>v. t = v @ e \<and> regex_lang ps v)"
proof (induction ps t rule: after_parts.induct)
  case (1 t)
  then show ?case by (auto elim: lang_NilE intro: lang_Nil)
next
  case (2 a k ps t)
  have "e \<in> set (after_parts ((a, k) # ps) t) \<longleftrightarrow> (\<exists>r \<in> set (after_part (atom_ok a) k t). \<exists>v. r = v @ e \<and> regex_lang ps v)"
    using 2 by auto
  also have "\<dots> \<longleftrightarrow> (\<exists>v. t = v @ e \<and> regex_lang ((a, k) # ps) v)"
    unfolding after_part_iff Bex_def by (auto elim!: lang_ConsE intro: lang_Cons) (metis append.assoc lang_Cons)+
  finally show ?case .
qed

lemma find_SomeD: "find P xs = Some x \<Longrightarrow> x \<in> set xs \<and> P x"
  by (induction xs) (auto split: if_splits)

lemma match_here_None: "jayess_regex_match_here p t = None \<longleftrightarrow> (\<nexists>v e. t = v @ e \<and> regex_matches p v e)"
  by (auto simp: match_here_first first_match_def find_None_iff after_parts_iff regex_matches_def)

lemma match_here_Some: "jayess_regex_match_here p t = Some e \<Longrightarrow> \<exists>v. t = v @ e \<and> regex_matches p v e"
proof -
  assume "jayess_regex_match_here p t = Some e"
  then have "e \<in> set (after_parts (fst (regex_syntax p)) t)" "snd (regex_syntax p) \<longrightarrow> e = []"
    unfolding match_here_first first_match_def by (auto dest: find_SomeD)
  then show ?thesis by (auto simp: after_parts_iff regex_matches_def)
qed

section \<open>Searching\<close>

text \<open>The pattern occurs in \<open>u @ v @ e\<close>, at \<open>v\<close>.\<close>

definition occurs :: "string \<Rightarrow> string \<Rightarrow> string \<Rightarrow> string \<Rightarrow> bool" where
  "occurs p u v e = (if prefix ''^'' p then u = [] \<and> regex_matches (tl p) v e else regex_matches p v e)"

lemma search_loop_None: "search_loop p i t = None \<longleftrightarrow> (\<nexists>u v e. t = u @ v @ e \<and> regex_matches p v e)"
proof (induction p i t rule: search_loop.induct)
  case (1 p i t)
  show ?case
  proof (cases "jayess_regex_match_here p t")
    case None
    then have none: "\<nexists>v e. t = v @ e \<and> regex_matches p v e" by (simp add: match_here_None)
    show ?thesis
    proof (cases t)
      case Nil
      then show ?thesis using None none by (simp add: search_loop.simps)
    next
      case (Cons c r)
      have "(\<exists>u v e. t = u @ v @ e \<and> regex_matches p v e) \<longleftrightarrow> (\<exists>u v e. r = u @ v @ e \<and> regex_matches p v e)"
        using none unfolding Cons by (metis append_Cons append_Nil list.sel(3) tl_append2 neq_Nil_conv)
      then show ?thesis using 1 [OF None] Cons None by (simp add: search_loop.simps [of p i])
    qed
  next
    case (Some e)
    then show ?thesis using match_here_Some [OF Some] by (subst search_loop.simps) (auto, metis append_Nil)
  qed
qed

lemma search_loop_Some:
  "search_loop p i t = Some (a, b) \<Longrightarrow>
   \<exists>u v e. t = u @ v @ e \<and> a = i + length u \<and> b = a + length v \<and> regex_matches p v e
     \<and> (\<forall>u' v' e'. t = u' @ v' @ e' \<longrightarrow> regex_matches p v' e' \<longrightarrow> length u \<le> length u')"
proof (induction p i t rule: search_loop.induct)
  case (1 p i t)
  show ?case
  proof (cases "jayess_regex_match_here p t")
    case None
    then have none: "\<nexists>v e. t = v @ e \<and> regex_matches p v e" by (simp add: match_here_None)
    obtain c r where t: "t = c # r" and r: "search_loop p (Suc i) r = Some (a, b)"
      using 1(2) None by (cases t) (auto simp: search_loop.simps [of p i])
    obtain u v e where u: "r = u @ v @ e" "a = Suc i + length u" "b = a + length v" "regex_matches p v e"
      and least: "\<And>u' v' e'. r = u' @ v' @ e' \<Longrightarrow> regex_matches p v' e' \<Longrightarrow> length u \<le> length u'"
      using 1(1) [OF None] r t by auto
    have "length (c # u) \<le> length u'" if "t = u' @ v' @ e'" "regex_matches p v' e'" for u' v' e'
      using that none least [of "tl u'" v' e'] by (cases u') (auto simp: t)
    then show ?thesis using u t by (intro exI [of _ "c # u"] exI [of _ v] exI [of _ e]) auto
  next
    case (Some e)
    then obtain v where v: "t = v @ e" "regex_matches p v e" using match_here_Some by blast
    have "a = i" "b = i + length v" using 1(2) Some v(1) by (simp_all add: search_loop.simps [of p i])
    then show ?thesis using v by (intro exI [of _ "[]"] exI [of _ v] exI [of _ e]) simp
  qed
qed

text \<open>
  C29. Searching with a regular expression is right: the answer is none exactly when the pattern occurs nowhere in the
  text, and otherwise the place of an occurrence before which no other starts. The texts a pattern describes are
  defined from its parts, without the matcher. The text has fewer than \<open>2 ^ 31\<close> characters: the code answers positions
  cast to \<open>int\<close>.
\<close>

theorem regex_search_spec:
  assumes "length t < 2 ^ 31"
  shows "(jayess_regex_search p t = None \<longleftrightarrow> (\<nexists>u v e. t = u @ v @ e \<and> occurs p u v e))
   \<and> (\<forall>i j. jayess_regex_search p t = Some (i, j) \<longrightarrow>
        (\<exists>u v e. t = u @ v @ e \<and> length u = i \<and> length (u @ v) = j \<and> occurs p u v e
          \<and> (\<forall>u' v' e'. t = u' @ v' @ e' \<longrightarrow> occurs p u' v' e' \<longrightarrow> i \<le> length u')))"
proof (cases "prefix ''^'' p")
  case True
  show ?thesis
  proof (cases "jayess_regex_match_here (tl p) t")
    case None
    have "\<nexists>v e. t = v @ e \<and> regex_matches (tl p) v e" using None by (simp only: match_here_None not_False_eq_True)
    then show ?thesis using True None by (auto simp: jayess_regex_search_def occurs_def)
  next
    case (Some e)
    then obtain v where v: "t = v @ e" "regex_matches (tl p) v e" using match_here_Some by blast
    then have "occurs p [] v e" using True by (simp add: occurs_def)
    moreover have "jayess_regex_search p t = Some (0, length v)" using True Some v(1) by (simp add: jayess_regex_search_def)
    ultimately show ?thesis using v(1) by fastforce
  qed
next
  case False
  have "jayess_regex_search p t = search_loop p 0 t" using False by (simp add: jayess_regex_search_def)
  moreover have "occurs p u v e = regex_matches p v e" for u v e using False by (simp add: occurs_def)
  ultimately show ?thesis using search_loop_None [of p 0 t] search_loop_Some [of p 0 t] by fastforce
qed

theorem regex_search_spec_witness:
  "\<exists>u v e. ''xaab'' = u @ v @ e \<and> length u = 1 \<and> length (u @ v) = 2 \<and> occurs ''a+'' u v e"
proof -
  have none: "jayess_regex_match_here ''a+'' ''xaab'' = None"
    by (subst jayess_regex_match_here.simps) (simp add: jayess_regex_atom_length_def jayess_regex_atom_matches_def)
  have empty: "jayess_regex_match_here [] u = Some u" for u by (subst jayess_regex_match_here.simps) simp
  have "jayess_regex_match_here ''a+'' ''aab'' = Some ''ab''"
    by (subst jayess_regex_match_here.simps) (simp add: jayess_regex_atom_length_def jayess_regex_atom_matches_def empty)
  then have "search_loop ''a+'' (Suc 0) ''aab'' = Some (1, 2)" by (subst search_loop.simps) simp
  then have "search_loop ''a+'' 0 ''xaab'' = Some (1, 2)" using none by (subst search_loop.simps) simp
  then have "jayess_regex_search ''a+'' ''xaab'' = Some (1, 2)" by (simp add: jayess_regex_search_def)
  from regex_search_spec [of "''xaab''", THEN conjunct2, rule_format, OF _ this] show ?thesis by force
qed

end
