(* ===== verification/String_Correct.thy ===== *)
theory String_Correct
  imports String_Methods Regex_Correct Json_Roundtrip
begin

text \<open>
  The string methods: splitting cuts a text at the occurrences of the separator and loses nothing, and slicing reads
  a part of the text for every start but one.
\<close>

section \<open>The array of the parts\<close>

lemma text_array_result:
  "text_array s ts = (VArray (next_address s), snd (text_array s ts))"
  "slots_at (snd (text_array s ts)) b = (if b = next_address s then map (Some \<circ> VString) ts else slots_at s b)"
  "entries_at (snd (text_array s ts)) b = entries_at s b"
proof -
  have fold: "slots_at (foldl (\<lambda>s t. push_value s a (VString t)) st ts) b
      = (if b = a then slots_at st a @ map (Some \<circ> VString) ts else slots_at st b)"
    "entries_at (foldl (\<lambda>s t. push_value s a (VString t)) st ts) b = entries_at st b" for a st b
    by (induction ts arbitrary: st) simp_all
  show "text_array s ts = (VArray (next_address s), snd (text_array s ts))"
    by (simp add: text_array_def jayess_array_new_def Let_def)
  show "slots_at (snd (text_array s ts)) b = (if b = next_address s then map (Some \<circ> VString) ts else slots_at s b)"
    "entries_at (snd (text_array s ts)) b = entries_at s b"
    by (simp_all add: text_array_def jayess_array_new_def fold) (simp_all add: slots_at_def entries_at_def)
qed

section \<open>Splitting\<close>

lemma strstr_cut: "strstr v sep = Some n \<Longrightarrow> take n v @ sep @ drop (n + length sep) v = v"
proof -
  assume "strstr v sep = Some n"
  then obtain r where r: "drop n v = sep @ r" using strstr_SomeD by blast
  then have "drop (n + length sep) v = r" by (metis add.commute append_eq_conv_conj drop_drop)
  then show ?thesis using append_take_drop_id [of n v] r by simp
qed

lemma strstr_before: "strstr v sep = Some n \<Longrightarrow> sep \<noteq> [] \<Longrightarrow> strstr (take n v) sep = None"
proof (induction v sep arbitrary: n rule: strstr.induct)
  case (2 c cs needle)
  show ?case
  proof (cases "prefix needle (c # cs)")
    case False
    then obtain m where m: "strstr cs needle = Some m" "n = Suc m" using 2(2) by auto
    have "\<not> prefix needle (c # take m cs)"
      using False by (metis prefix_order.trans take_Suc_Cons take_is_prefix)
    then show ?thesis using 2(1) [OF False m(1) 2(3)] m(2) by simp
  qed (use 2 in simp)
qed simp

lemma split_pieces_ne: "split_pieces sep v \<noteq> []"
  by (subst split_pieces.simps) (simp split: option.split)

lemma split_pieces_join: "sep \<noteq> [] \<Longrightarrow> join sep (split_pieces sep v) = v \<and> (\<forall>p \<in> set (split_pieces sep v). strstr p sep = None)"
proof (induction sep v rule: split_pieces.induct)
  case (1 sep v)
  show ?case
  proof (cases "strstr v sep")
    case (Some n)
    have rest: "split_pieces sep v = take n v # split_pieces sep (drop (n + length sep) v)"
      using Some 1(2) by (simp add: split_pieces.simps [of sep v])
    show ?thesis using 1(1) [OF Some 1(2) 1(2)] strstr_cut [OF Some] strstr_before [OF Some 1(2)]
      by (simp add: rest join_Cons split_pieces_ne)
  qed (simp add: split_pieces.simps)
qed

text \<open>
  C30. Splitting a text at a separator with at least one character gives a new array of texts; joined with the
  separator they are the text again, none of them contains the separator, and every other array and object is as it was.
\<close>

theorem string_split_join:
  assumes "sep \<noteq> []"
  shows "\<exists>s' parts. jayess_std_string_split_method (Suc d) s (Some (VString v)) (Some (VString sep)) = Some (VArray (next_address s), s')
    \<and> slots_at s' (next_address s) = map (Some \<circ> VString) parts \<and> join sep parts = v
    \<and> (\<forall>p \<in> set parts. strstr p sep = None)
    \<and> (\<forall>b. b \<noteq> next_address s \<longrightarrow> slots_at s' b = slots_at s b) \<and> (\<forall>b. entries_at s' b = entries_at s b)"
proof (intro exI conjI)
  let ?s' = "snd (text_array s (split_pieces sep v))"
  note cut = split_pieces_join [OF assms, of v]
  have "jayess_std_string_split_method (Suc d) s (Some (VString v)) (Some (VString sep)) = Some (text_array s (split_pieces sep v))"
    using assms by (simp add: jayess_std_string_split_method_def stringify_Suc_simp split_text_def jayess_string_env_def)
  then show "jayess_std_string_split_method (Suc d) s (Some (VString v)) (Some (VString sep)) = Some (VArray (next_address s), ?s')"
    by (rule trans [OF _ arg_cong [where f = Some, OF text_array_result(1)]])
  show "slots_at ?s' (next_address s) = map (Some \<circ> VString) (split_pieces sep v)"
    by (simp add: text_array_result(2))
  show "join sep (split_pieces sep v) = v" "\<forall>p \<in> set (split_pieces sep v). strstr p sep = None"
    using cut by blast+
qed (simp_all add: text_array_result(2,3))

theorem string_split_join_witness:
  "\<exists>s' parts. jayess_std_string_split_method 1 initial_state (Some (VString ''a,b'')) (Some (VString '','')) = Some (VArray 0, s')
    \<and> slots_at s' 0 = map (Some \<circ> VString) parts \<and> join '','' parts = ''a,b''"
  using string_split_join [of "'',''" 0 initial_state "''a,b''"]
  by (auto simp: initial_state_def)

section \<open>Slicing\<close>

text \<open>
  A slice from one behind the length fails: the end is lowered to the length, the size to copy is minus one, which as
  a size is the largest one, and the allocation of that size plus one succeeds with no bytes.
\<close>

lemma string_slice:
  assumes "length v < 2 ^ 31" and "0 \<le> i"
  shows "slice_text v i j =
    (if i = int (length v) + 1 then Inl Out_of_bounds
     else if int (length v) < i then Inr []
     else Inr (take (nat j - nat i) (drop (nat i) v)))"
proof -
  have len: "wrap_int (int (length v)) = int (length v)" using assms(1) by (simp add: wrap_int_id)
  have i: "\<not> i < 0" using assms(2) by simp
  consider "i = int (length v) + 1" | "int (length v) + 1 < i" | "i \<le> int (length v)" by linarith
  then show ?thesis
  proof cases
    case 1
    then have "slice_text v i j = jayess_substring (drop (nat i) v) (- 1)"
      using i by (simp only: slice_text_def len Let_def if_False) (simp split: if_splits)
    then show ?thesis using 1 by (simp add: jayess_substring_def)
  next
    case 2
    define n where "n = int (length v) - i"
    have "slice_text v i j = jayess_substring (drop (nat i) v) n"
      using i 2 by (simp only: slice_text_def len Let_def if_False n_def) (simp split: if_splits)
    then show ?thesis using 2 by (simp add: jayess_substring_def n_def)
  next
    case 3
    define n where "n = min (max i j) (int (length v)) - i"
    have n: "0 \<le> n" "n \<le> int (length (drop (nat i) v))" "nat n = min (nat j - nat i) (length v - nat i)"
      using 3 assms(2) unfolding n_def by (simp, simp, linarith)
    have "slice_text v i j = jayess_substring (drop (nat i) v) n"
      using i 3 by (simp only: slice_text_def len Let_def if_False n_def) (simp split: if_splits)
    also have "\<dots> = Inr (take (nat n) (drop (nat i) v))" using n(1,2) by (simp only: jayess_substring_def) simp
    also have "\<dots> = Inr (take (nat j - nat i) (drop (nat i) v))" by (simp add: n(3) min_def)
    finally show ?thesis using 3 by simp
  qed
qed

section \<open>Methods with a pattern\<close>

text \<open>The pattern of a new regular expression object is the text it was made from.\<close>

lemma regexp_new_pattern:
  "(v, s') = jayess_std_regexp_new s (Some (VString p)) flags \<Longrightarrow> jayess_regex_pattern_from_value s' (Some v) = p"
  by (auto simp: jayess_std_regexp_new_def jayess_regex_pattern_from_value_def Let_def jayess_std_kind_is_def object_kind_def
      object_get_set jayess_string_env_def split: prod.splits)

text \<open>Fewest repetitions first: a starred pattern at the start of a text is replaced where it is empty.\<close>

lemma replace_star_empty: "replace_text v ''a*'' r = r @ v"
proof -
  have "jayess_regex_match_here [] u = Some u" for u by (subst jayess_regex_match_here.simps) simp
  then have "jayess_regex_match_here ''a*'' v = Some v"
    by (subst jayess_regex_match_here.simps) (cases v; simp add: jayess_regex_atom_length_def)
  then show ?thesis by (simp add: replace_text_def jayess_regex_search_def search_loop.simps [of "''a*''"])
qed

text \<open>Splitting with a pattern that matches the empty text drops the characters it steps over.\<close>

lemma regex_split_empty: "regex_pieces [] v = replicate (length v + 2) []"
proof (induction v)
  have found: "jayess_regex_search [] u = Some (0, 0)" for u
    by (simp add: jayess_regex_search_def search_loop.simps [of "[]"] jayess_regex_match_here.simps [of "[]"])
  case Nil
  show ?case by (subst regex_pieces.simps) (simp add: found)
  case (Cons c v)
  show ?case by (subst regex_pieces.simps) (simp add: found Cons)
qed

end
