(* ===== verification/Listeners.thy ===== *)
theory Listeners
  imports String_Methods
begin

text \<open>
  The listeners of streams and sockets (\<open>jayess_runtime_streams.c\<close>). An object keeps the listeners of an event in an
  array under a key made from the name of the event, those to be called once under another key. The keys are put
  together in a buffer of 128 characters; an event whose key does not fit has no listeners. The code behind a function
  is the parameter \<open>code\<close> of \<open>Runtime_State\<close>, so a listener can change the arrays while they are gone through.
\<close>

section \<open>Keys\<close>

definition event_prefix :: string where
  "event_prefix = ''__jayess_stream_event_''"

definition once_prefix :: string where
  "once_prefix = ''__jayess_stream_once_''"

definition jayess_std_stream_event_key :: "string \<Rightarrow> string option" where
  "jayess_std_stream_event_key event =
     (let key = event_prefix @ event in if length key < 128 then Some key else None)"

definition jayess_std_stream_once_key :: "string \<Rightarrow> string option" where
  "jayess_std_stream_once_key event =
     (let key = once_prefix @ event in if length key < 128 then Some key else None)"

section \<open>Adding and removing\<close>

definition object_delete :: "jayess_state \<Rightarrow> nat \<Rightarrow> string \<Rightarrow> jayess_state" where
  "object_delete s a key =
     (let (acc, es) = jayess_object_delete (accounting s) (entries_at s a) key
      in s\<lparr>objects := (objects s)(a \<mapsto> es), accounting := acc\<rparr>)"

definition jayess_stream_array_remove_at :: "jayess_slots \<Rightarrow> nat \<Rightarrow> jayess_slots" where
  "jayess_stream_array_remove_at vs index =
     (if length vs \<le> index then vs else take (length vs - 1) (remove_loop vs (index + 1) (length vs - (index + 1))))"

definition is_callback :: "jayess_value option \<Rightarrow> bool" where
  "is_callback v \<longleftrightarrow> (case v of Some (VFunction _) \<Rightarrow> True | _ \<Rightarrow> False)"

definition jayess_std_stream_listeners_for_key :: "jayess_state \<Rightarrow> jayess_value option \<Rightarrow> string \<Rightarrow> nat option" where
  "jayess_std_stream_listeners_for_key s env key =
     (case env of
        Some (VObject a) \<Rightarrow> (case object_get s a key of Some (VArray b) \<Rightarrow> Some b | _ \<Rightarrow> None)
      | _ \<Rightarrow> None)"

definition jayess_std_stream_add_listener ::
  "jayess_state \<Rightarrow> jayess_value option \<Rightarrow> string \<Rightarrow> jayess_value option \<Rightarrow> bool \<Rightarrow> jayess_state" where
  "jayess_std_stream_add_listener s env event callback once =
     (case (env, if once then jayess_std_stream_once_key event else jayess_std_stream_event_key event) of
        (Some (VObject a), Some key) \<Rightarrow>
          if \<not> is_callback callback then s
          else (case jayess_std_stream_listeners_for_key s env key of
                  Some b \<Rightarrow> push_slot s b callback
                | None \<Rightarrow>
                    (let (b, s1) = jayess_array_new s
                     in push_slot (object_set s1 a key (VArray b)) b callback))
      | _ \<Rightarrow> s)"

definition jayess_std_stream_on :: "jayess_state \<Rightarrow> jayess_value option \<Rightarrow> string \<Rightarrow> jayess_value option \<Rightarrow> jayess_state" where
  "jayess_std_stream_on s env event callback = jayess_std_stream_add_listener s env event callback False"

definition jayess_std_stream_once :: "jayess_state \<Rightarrow> jayess_value option \<Rightarrow> string \<Rightarrow> jayess_value option \<Rightarrow> jayess_state" where
  "jayess_std_stream_once s env event callback = jayess_std_stream_add_listener s env event callback True"

text \<open>The first listener that is the callback goes; without a callback all go, and an empty list goes too.\<close>

fun off_loop :: "(jayess_value option \<Rightarrow> bool) \<Rightarrow> nat \<Rightarrow> jayess_slots \<Rightarrow> nat option" where
  "off_loop P i [] = None"
| "off_loop P i (v # vs) = (if P v then Some i else off_loop P (Suc i) vs)"

definition jayess_std_stream_off_key :: "jayess_state \<Rightarrow> jayess_value option \<Rightarrow> string \<Rightarrow> jayess_value option \<Rightarrow> jayess_state" where
  "jayess_std_stream_off_key s env key callback =
     (case env of
        Some (VObject a) \<Rightarrow>
          if jayess_value_is_nullish callback then object_delete s a key
          else (case jayess_std_stream_listeners_for_key s env key of
                  None \<Rightarrow> s
                | Some b \<Rightarrow>
                    (let s1 = (case off_loop (\<lambda>v. v = callback \<or> value_eq s v callback) 0 (slots_at s b) of
                                 None \<Rightarrow> s
                               | Some i \<Rightarrow> set_slots s b (jayess_stream_array_remove_at (slots_at s b) i))
                     in if slots_at s1 b = [] then object_delete s1 a key else s1))
      | _ \<Rightarrow> s)"

definition jayess_std_stream_off :: "jayess_state \<Rightarrow> jayess_value option \<Rightarrow> string \<Rightarrow> jayess_value option \<Rightarrow> jayess_state" where
  "jayess_std_stream_off s env event callback =
     (let s1 = (case jayess_std_stream_event_key event of
                  None \<Rightarrow> s | Some key \<Rightarrow> jayess_std_stream_off_key s env key callback)
      in case jayess_std_stream_once_key event of
           None \<Rightarrow> s1 | Some key \<Rightarrow> jayess_std_stream_off_key s1 env key callback)"

definition jayess_std_stream_off_method ::
  "nat \<Rightarrow> jayess_state \<Rightarrow> jayess_value option \<Rightarrow> jayess_value option \<Rightarrow> jayess_value option \<Rightarrow> (jayess_value \<times> jayess_state) option" where
  "jayess_std_stream_off_method d s env event callback =
     map_option (\<lambda>t. (value_or_undefined env, jayess_std_stream_off s env t callback)) (jayess_value_stringify d s event)"

section \<open>Counting and naming\<close>

definition jayess_std_stream_listeners :: "jayess_state \<Rightarrow> jayess_value option \<Rightarrow> string \<Rightarrow> bool \<Rightarrow> nat option" where
  "jayess_std_stream_listeners s env event once =
     (case (if once then jayess_std_stream_once_key event else jayess_std_stream_event_key event) of
        None \<Rightarrow> None | Some key \<Rightarrow> jayess_std_stream_listeners_for_key s env key)"

definition listener_slots :: "jayess_state \<Rightarrow> nat option \<Rightarrow> jayess_slots" where
  "listener_slots s b = (case b of None \<Rightarrow> [] | Some b \<Rightarrow> slots_at s b)"

definition jayess_std_stream_listener_count :: "jayess_state \<Rightarrow> jayess_value option \<Rightarrow> string \<Rightarrow> nat" where
  "jayess_std_stream_listener_count s env event =
     length (listener_slots s (jayess_std_stream_listeners s env event False))
     + length (listener_slots s (jayess_std_stream_listeners s env event True))"

definition jayess_std_stream_listener_count_method ::
  "nat \<Rightarrow> jayess_state \<Rightarrow> jayess_value option \<Rightarrow> jayess_value option \<Rightarrow> jayess_value option" where
  "jayess_std_stream_listener_count_method d s env event =
     map_option (\<lambda>t. number_result (int (jayess_std_stream_listener_count s env t))) (jayess_value_stringify d s event)"

fun event_names_loop :: "string list \<Rightarrow> jayess_entries \<Rightarrow> string list" where
  "event_names_loop names [] = names"
| "event_names_loop names (e # es) =
     (let name = (case entry_key e of
                    None \<Rightarrow> []
                  | Some k \<Rightarrow> if prefix event_prefix k then drop (length event_prefix) k
                              else if prefix once_prefix k then drop (length once_prefix) k else [])
      in event_names_loop (if name \<noteq> [] \<and> name \<notin> set names then names @ [name] else names) es)"

definition jayess_std_stream_event_names_method :: "jayess_state \<Rightarrow> jayess_value option \<Rightarrow> jayess_value \<times> jayess_state" where
  "jayess_std_stream_event_names_method s env =
     text_array s (case env of Some (VObject a) \<Rightarrow> event_names_loop [] (entries_at s a) | _ \<Rightarrow> [])"

section \<open>Calling\<close>

definition jayess_value_call_one ::
  "native_code \<Rightarrow> jayess_state \<Rightarrow> jayess_value option \<Rightarrow> jayess_value option \<Rightarrow> jayess_value \<times> jayess_state" where
  "jayess_value_call_one code s callback argument =
     (case function_at s callback of
        None \<Rightarrow> (VUndefined, s)
      | Some fn \<Rightarrow>
          (case fn_callee fn of
             None \<Rightarrow> (VUndefined, s)
           | Some c \<Rightarrow>
               (let s1 = jayess_push_this s (fn_bound_this fn);
                    args = env_args fn @ (if fn_param_count fn \<le> 0 then [] else [value_or_undefined argument]);
                    (r, s2) = code c args s1
                in (value_or_undefined r, jayess_pop_this s2))))"

text \<open>
  The loop reads the length and the slots of the array anew for every listener. It answers whether it went through
  without an exception; \<open>None\<close> is a loop without end.
\<close>

partial_function (option) emit_loop ::
  "native_code \<Rightarrow> jayess_value option \<Rightarrow> nat \<Rightarrow> nat \<Rightarrow> jayess_state \<Rightarrow> (bool \<times> jayess_state) option" where
  "emit_loop code argument b i s =
     (if length (slots_at s b) \<le> i then Some (True, s)
      else if \<not> is_callback (slots_at s b ! i) then emit_loop code argument b (Suc i) s
      else (let s1 = snd (jayess_value_call_one code s (slots_at s b ! i) argument)
            in if jayess_has_exception s1 then Some (False, s1) else emit_loop code argument b (Suc i) s1))"

definition emit_once :: "native_code \<Rightarrow> jayess_state \<Rightarrow> jayess_value option \<Rightarrow> string \<Rightarrow> jayess_value option \<Rightarrow> jayess_state option" where
  "emit_once code s env event argument =
     (case (env, jayess_std_stream_once_key event) of
        (Some (VObject a), Some key) \<Rightarrow>
          (case jayess_std_stream_listeners_for_key s env key of
             None \<Rightarrow> Some s
           | Some b \<Rightarrow> map_option snd (emit_loop code argument b 0 (object_delete s a key)))
      | _ \<Rightarrow> Some s)"

definition jayess_std_stream_emit ::
  "native_code \<Rightarrow> jayess_state \<Rightarrow> jayess_value option \<Rightarrow> string \<Rightarrow> jayess_value option \<Rightarrow> jayess_state option" where
  "jayess_std_stream_emit code s env event argument =
     (let arg = Some (value_or_undefined argument)
      in case (case jayess_std_stream_listeners s env event False of
                 None \<Rightarrow> Some (True, s) | Some b \<Rightarrow> emit_loop code arg b 0 s) of
           None \<Rightarrow> None
         | Some (whole, s1) \<Rightarrow> if whole then emit_once code s1 env event arg else Some s1)"

section \<open>Errors and the end of a stream\<close>

definition state_bool :: "jayess_state \<Rightarrow> jayess_value option \<Rightarrow> bool" where
  "state_bool s = jayess_value_as_bool (\<lambda>a. length (slots_at s a))
     (\<lambda>f. case funcs s f of None \<Rightarrow> False | Some fn \<Rightarrow> fn_callee fn \<noteq> None)"

text \<open>The error that a stream emits is also kept in its properties.\<close>

definition stream_emit_error :: "native_code \<Rightarrow> jayess_state \<Rightarrow> jayess_value option \<Rightarrow> string option \<Rightarrow> jayess_state option" where
  "stream_emit_error code s env message =
     (case env of
        Some (VObject a) \<Rightarrow>
          (let (error, s1) = jayess_std_error_new_text s ''Error'' (case message of None \<Rightarrow> ''stream error'' | Some t \<Rightarrow> t);
               s2 = object_set (object_set s1 a ''errored'' (VBool True)) a ''error'' error
           in jayess_std_stream_emit code s2 env ''error'' (Some error))
      | _ \<Rightarrow> Some s)"

definition jayess_std_stream_register_error_handler ::
  "native_code \<Rightarrow> jayess_state \<Rightarrow> jayess_value option \<Rightarrow> jayess_value option \<Rightarrow> jayess_state" where
  "jayess_std_stream_register_error_handler code s env callback =
     (case env of
        Some (VObject a) \<Rightarrow>
          if \<not> is_callback callback then s
          else (let s1 = jayess_std_stream_on s env ''error'' callback
                in if state_bool s1 (object_get s1 a ''errored'')
                   then snd (jayess_value_call_one code s1 callback (object_get s1 a ''error'')) else s1)
      | _ \<Rightarrow> s)"

definition jayess_std_stream_register_error_once ::
  "native_code \<Rightarrow> jayess_state \<Rightarrow> jayess_value option \<Rightarrow> jayess_value option \<Rightarrow> jayess_state" where
  "jayess_std_stream_register_error_once code s env callback =
     (case env of
        Some (VObject a) \<Rightarrow>
          if \<not> is_callback callback then s
          else if state_bool s (object_get s a ''errored'')
          then snd (jayess_value_call_one code s callback (object_get s a ''error''))
          else jayess_std_stream_once s env ''error'' callback
      | _ \<Rightarrow> s)"

definition finished :: "jayess_state \<Rightarrow> nat \<Rightarrow> bool" where
  "finished s a \<longleftrightarrow> state_bool s (object_get s a ''writableEnded'') \<and> \<not> state_bool s (object_get s a ''errored'')"

definition jayess_std_write_stream_register_finish_handler ::
  "native_code \<Rightarrow> jayess_state \<Rightarrow> jayess_value option \<Rightarrow> jayess_value option \<Rightarrow> jayess_state" where
  "jayess_std_write_stream_register_finish_handler code s env callback =
     (case env of
        Some (VObject a) \<Rightarrow>
          if \<not> is_callback callback then s
          else (let s1 = jayess_std_stream_on s env ''finish'' callback
                in if finished s1 a then snd (jayess_value_call_one code s1 callback (Some VUndefined)) else s1)
      | _ \<Rightarrow> s)"

definition jayess_std_write_stream_register_finish_once ::
  "native_code \<Rightarrow> jayess_state \<Rightarrow> jayess_value option \<Rightarrow> jayess_value option \<Rightarrow> jayess_state" where
  "jayess_std_write_stream_register_finish_once code s env callback =
     (case env of
        Some (VObject a) \<Rightarrow>
          if \<not> is_callback callback then s
          else if finished s a then snd (jayess_value_call_one code s callback (Some VUndefined))
          else jayess_std_stream_once s env ''finish'' callback
      | _ \<Rightarrow> s)"

definition jayess_std_write_stream_emit_finish :: "native_code \<Rightarrow> jayess_state \<Rightarrow> jayess_value option \<Rightarrow> jayess_state option" where
  "jayess_std_write_stream_emit_finish code s env =
     (case env of
        Some (VObject a) \<Rightarrow>
          if state_bool s (object_get s a ''errored'') then Some s
          else jayess_std_stream_emit code s env ''finish'' (Some VUndefined)
      | _ \<Rightarrow> Some s)"

definition stream_answer :: "jayess_value option \<Rightarrow> jayess_value option \<Rightarrow> jayess_value" where
  "stream_answer env callback =
     (if is_callback callback \<and> jayess_value_as_object env = None then VUndefined else value_or_undefined env)"

definition jayess_std_write_stream_on_method ::
  "nat \<Rightarrow> native_code \<Rightarrow> jayess_state \<Rightarrow> jayess_value option \<Rightarrow> jayess_value option \<Rightarrow> jayess_value option
   \<Rightarrow> (jayess_value \<times> jayess_state) option" where
  "jayess_std_write_stream_on_method d code s env event callback =
     map_option (\<lambda>t. (stream_answer env callback,
         (case env of
            Some (VObject a) \<Rightarrow>
              if \<not> is_callback callback then s
              else if t = ''error'' then jayess_std_stream_register_error_handler code s env callback
              else if t = ''finish'' then jayess_std_write_stream_register_finish_handler code s env callback
              else if t = ''drain'' then jayess_std_stream_on s env ''drain'' callback else s
          | _ \<Rightarrow> s)))
       (jayess_value_stringify d s event)"

definition jayess_std_write_stream_once_method ::
  "nat \<Rightarrow> native_code \<Rightarrow> jayess_state \<Rightarrow> jayess_value option \<Rightarrow> jayess_value option \<Rightarrow> jayess_value option
   \<Rightarrow> (jayess_value \<times> jayess_state) option" where
  "jayess_std_write_stream_once_method d code s env event callback =
     map_option (\<lambda>t. (stream_answer env callback,
         (case env of
            Some (VObject a) \<Rightarrow>
              if \<not> is_callback callback then s
              else if t = ''error'' then jayess_std_stream_register_error_once code s env callback
              else if t = ''finish'' then jayess_std_write_stream_register_finish_once code s env callback
              else if t = ''drain'' then
                (if state_bool s (object_get s a ''writableNeedDrain'') then jayess_std_stream_once s env ''drain'' callback
                 else snd (jayess_value_call_one code s callback (Some VUndefined)))
              else s
          | _ \<Rightarrow> s)))
       (jayess_value_stringify d s event)"

text \<open>How much a reader asks for: at least one byte, at most 1048576.\<close>

definition jayess_std_stream_requested_size :: "jayess_value option \<Rightarrow> int \<Rightarrow> int" where
  "jayess_std_stream_requested_size size_value default_size =
     (if jayess_value_is_nullish size_value then default_size
      else (let requested = int_arg size_value
            in if requested \<le> 0 then 1 else if requested > 1048576 then 1048576 else requested))"

end
