(* ===== verification/Listener_Correct.thy ===== *)
theory Listener_Correct
  imports Listeners Map_Correct
begin

text \<open>
  What emitting an event does: with listeners that leave the lists alone, all of them are called in the order they were
  added, the ones to be called once last and for the last time; a listener that adds itself is called without end.
\<close>

section \<open>Calling a list of listeners\<close>

text \<open>Until one leaves an exception; whether none did.\<close>

fun call_all :: "native_code \<Rightarrow> jayess_value option \<Rightarrow> jayess_slots \<Rightarrow> jayess_state \<Rightarrow> bool \<times> jayess_state" where
  "call_all code argument [] s = (True, s)"
| "call_all code argument (v # vs) s =
     (if \<not> is_callback v then call_all code argument vs s
      else (let s1 = snd (jayess_value_call_one code s v argument)
            in if jayess_has_exception s1 then (False, s1) else call_all code argument vs s1))"

lemma push_pop_this [simp]:
  "slots_at (jayess_push_this s v) b = slots_at s b" "slots_at (jayess_pop_this s) b = slots_at s b"
  "entries_at (jayess_push_this s v) b = entries_at s b" "entries_at (jayess_pop_this s) b = entries_at s b"
  "funcs (jayess_push_this s v) = funcs s" "funcs (jayess_pop_this s) = funcs s"
  "current_exception (jayess_push_this s v) = current_exception s"
  "current_exception (jayess_pop_this s) = current_exception s"
  by (simp_all add: jayess_push_this_def jayess_pop_this_def slots_at_def entries_at_def split: list.split)

lemma call_one_keeps:
  assumes "\<And>c args s. P (snd (code c args s)) = P s" and "\<And>s v. P (jayess_push_this s v) = P s" and "\<And>s. P (jayess_pop_this s) = P s"
  shows "P (snd (jayess_value_call_one code s f argument)) = P s"
  using assms by (simp add: jayess_value_call_one_def Let_def split_beta split: option.split)

lemma call_all_keeps:
  assumes "\<And>s f. P (snd (jayess_value_call_one code s f argument)) = P s"
  shows "P (snd (call_all code argument vs s)) = P s"
  using assms by (induction vs arbitrary: s) (simp_all add: Let_def)

lemma emit_loop_call_all:
  assumes keeps: "\<And>s f. slots_at (snd (jayess_value_call_one code s f argument)) b = slots_at s b"
  shows "emit_loop code argument b i s = Some (call_all code argument (drop i (slots_at s b)) s)"
proof (induction "length (slots_at s b) - i" arbitrary: i s)
  case 0
  then show ?case by (simp add: emit_loop.simps)
next
  case (Suc n)
  then have i: "i < length (slots_at s b)" by simp
  let ?s1 = "snd (jayess_value_call_one code s (slots_at s b ! i) argument)"
  have rest: "emit_loop code argument b (Suc i) s = Some (call_all code argument (drop (Suc i) (slots_at s b)) s)"
    "emit_loop code argument b (Suc i) ?s1 = Some (call_all code argument (drop (Suc i) (slots_at s b)) ?s1)"
    using Suc(1) [where i = "Suc i" and s = s] Suc(1) [where i = "Suc i" and s = ?s1] Suc(2) by (simp_all add: keeps)
  have split: "drop i (slots_at s b) = slots_at s b ! i # drop (Suc i) (slots_at s b)"
    using i by (rule Cons_nth_drop_Suc [symmetric])
  show ?case using i rest by (subst emit_loop.simps) (simp add: split Let_def)
qed

section \<open>Emitting\<close>

lemma keys_fit:
  "length event \<le> 105 \<Longrightarrow> jayess_std_stream_event_key event = Some (event_prefix @ event)"
  "length event \<le> 105 \<Longrightarrow> jayess_std_stream_once_key event = Some (once_prefix @ event)"
  by (simp_all add: jayess_std_stream_event_key_def jayess_std_stream_once_key_def event_prefix_def once_prefix_def)

lemma object_delete_simps [simp]:
  "slots_at (object_delete s a k) b = slots_at s b" "funcs (object_delete s a k) = funcs s"
  "current_exception (object_delete s a k) = current_exception s"
  "entries_at (object_delete s a k) b = (if b = a then delete_entry (entries_at s a) (VString k) else entries_at s b)"
  by (simp_all add: object_delete_def split_beta slots_at_def entries_at_def jayess_object_delete_def delete_key_value_entries)

lemma object_get_delete:
  "wf_entries (entries_at s a) \<Longrightarrow> object_get (object_delete s a k) a k = None"
  by (simp add: object_get_def jayess_object_get_def get_delete_entry same_key_def)

section \<open>Registering\<close>

text \<open>Listeners are added with \<open>on\<close> and \<open>once\<close> (the flag), in the order of the list.\<close>

fun register :: "jayess_state \<Rightarrow> jayess_value option \<Rightarrow> string \<Rightarrow> (bool \<times> jayess_value option) list \<Rightarrow> jayess_state" where
  "register s env event [] = s"
| "register s env event ((once, f) # rs) =
     register (if once then jayess_std_stream_once s env event f else jayess_std_stream_on s env event f) env event rs"

definition added :: "bool \<Rightarrow> (bool \<times> jayess_value option) list \<Rightarrow> jayess_slots" where
  "added once rs = map snd (filter (\<lambda>(flag, f). flag = once \<and> is_callback f) rs)"

text \<open>The listeners of an event, in the order they are called, and their two lists, which are different arrays of the heap.\<close>

definition listeners_of :: "jayess_state \<Rightarrow> nat \<Rightarrow> string \<Rightarrow> bool \<Rightarrow> jayess_slots" where
  "listeners_of s a event once = listener_slots s (jayess_std_stream_listeners s (Some (VObject a)) event once)"

definition lists_apart :: "jayess_state \<Rightarrow> nat \<Rightarrow> string \<Rightarrow> bool" where
  "lists_apart s a event \<longleftrightarrow>
     (\<forall>once b. jayess_std_stream_listeners s (Some (VObject a)) event once = Some b \<longrightarrow> b < next_address s
        \<and> jayess_std_stream_listeners s (Some (VObject a)) event (\<not> once) \<noteq> Some b)"

definition listener_key :: "string \<Rightarrow> bool \<Rightarrow> string" where
  "listener_key event once = (if once then once_prefix else event_prefix) @ event"

lemma listener_key_eq [simp]: "listener_key event once = listener_key event once' \<longleftrightarrow> once = once'"
  by (simp add: listener_key_def event_prefix_def once_prefix_def)

lemma listeners_key:
  "length event \<le> 105 \<Longrightarrow> jayess_std_stream_listeners s (Some (VObject a)) event once =
    (case object_get s a (listener_key event once) of Some (VArray b) \<Rightarrow> Some b | _ \<Rightarrow> None)"
  by (simp add: jayess_std_stream_listeners_def keys_fit jayess_std_stream_listeners_for_key_def listener_key_def)

lemma push_slot_frame [simp]:
  "entries_at (push_slot s b v) a = entries_at s a" "current_exception (push_slot s b v) = current_exception s"
  by (simp_all add: entries_at_def) (simp add: push_slot_def array_write_def split_beta Let_def)

lemma push_slot_get: "object_get (push_slot s b v) a k = object_get s a k"
  by (simp add: object_get_def)

lemma object_set_wf: "wf_entries (entries_at s a) \<Longrightarrow> wf_entries (entries_at (object_set s b k v) a)"
proof (cases "b = a")
  case True
  assume "wf_entries (entries_at s a)"
  then have "wf_entries (snd (jayess_object_set_key_value (accounting s) (entries_at s a) (VString k) (Some v)))"
    by (simp add: set_key_value_entries wf_set_entry del: set_entry.simps)
  with True show ?thesis by (simp only: object_set_def entries_at_object_set_key if_P)
qed (simp add: object_set_def entries_at_object_set_key)

lemma add_listener:
  fixes s a event once f
  defines "t \<equiv> jayess_std_stream_add_listener s (Some (VObject a)) event f once"
  assumes "length event \<le> 105" and "wf_entries (entries_at s a)" and "lists_apart s a event"
  shows "wf_entries (entries_at t a)" and "lists_apart t a event"
    and "listeners_of t a event other = listeners_of s a event other @ (if other = once \<and> is_callback f then [f] else [])"
proof -
  note len = assms(2)
  have key: "(if once then jayess_std_stream_once_key event else jayess_std_stream_event_key event) = Some (listener_key event once)"
    by (simp add: keys_fit [OF len] listener_key_def)
  have "wf_entries (entries_at t a) \<and> lists_apart t a event
    \<and> listeners_of t a event other = listeners_of s a event other @ (if other = once \<and> is_callback f then [f] else [])"
  proof (cases "is_callback f")
    case False
    then have "t = s" by (simp add: t_def jayess_std_stream_add_listener_def key)
    with False assms(3,4) show ?thesis by simp
  next
    case True
    show ?thesis
    proof (cases "jayess_std_stream_listeners s (Some (VObject a)) event once")
      case (Some b)
      then have "jayess_std_stream_listeners_for_key s (Some (VObject a)) (listener_key event once) = Some b"
        by (simp add: jayess_std_stream_listeners_def key)
      with True have t: "t = push_slot s b f" by (simp add: t_def jayess_std_stream_add_listener_def key)
      have same: "jayess_std_stream_listeners t (Some (VObject a)) event = jayess_std_stream_listeners s (Some (VObject a)) event"
        by (rule ext) (simp add: listeners_key [OF len] t object_get_def)
      have slots: "slots_at t c = (if c = b then slots_at s b @ [f] else slots_at s c)" for c by (simp add: t)
      have "jayess_std_stream_listeners s (Some (VObject a)) event other \<noteq> Some b" if "other \<noteq> once"
        using assms(4) [unfolded lists_apart_def, rule_format, OF Some] that by (cases other; cases once) simp_all
      then have "listeners_of t a event other = listeners_of s a event other @ (if other = once then [f] else [])"
        using Some by (cases "other = once"; cases "jayess_std_stream_listeners s (Some (VObject a)) event other")
          (simp_all add: listeners_of_def listener_slots_def same slots)
      moreover have "lists_apart t a event" using assms(4) unfolding lists_apart_def same by (simp add: t)
      ultimately show ?thesis using assms(3) True by (simp add: t)
    next
      case None
      then have "jayess_std_stream_listeners_for_key s (Some (VObject a)) (listener_key event once) = None"
        by (simp add: jayess_std_stream_listeners_def key)
      with True have t: "t = push_slot (object_set (snd (jayess_array_new s)) a (listener_key event once) (VArray (fst (jayess_array_new s))))
          (fst (jayess_array_new s)) f"
        by (simp add: t_def jayess_std_stream_add_listener_def key split_beta)
      let ?n = "next_address s"
      have fresh: "fst (jayess_array_new s) = ?n" "slots_at (snd (jayess_array_new s)) b = (if b = ?n then [] else slots_at s b)"
        "entries_at (snd (jayess_array_new s)) b = entries_at s b" "object_get (snd (jayess_array_new s)) b k = object_get s b k"
        "next_address (snd (jayess_array_new s)) = Suc ?n" for b k
        by (simp_all add: jayess_array_new_def slots_at_def entries_at_def object_get_def)
      have slots: "slots_at t b = (if b = ?n then [f] else slots_at s b)" for b
        by (simp add: t fresh member_set)
      have get: "object_get t a k = (if k = listener_key event once then Some (VArray ?n) else object_get s a k)" for k
        by (simp add: t push_slot_get object_get_set fresh)
      have lists: "jayess_std_stream_listeners t (Some (VObject a)) event flag
          = (if flag = once then Some ?n else jayess_std_stream_listeners s (Some (VObject a)) event flag)" for flag
        by (simp add: listeners_key [OF len] get)
      have old: "b < ?n" if "jayess_std_stream_listeners s (Some (VObject a)) event flag = Some b" for flag b
        using assms(4) that by (simp add: lists_apart_def)
      have "wf_entries (entries_at t a)"
        unfolding t push_slot_frame by (rule object_set_wf) (simp only: fresh assms(3))
      moreover have "next_address t = Suc ?n" by (simp add: t fresh member_set)
      then have "lists_apart t a event"
        unfolding lists_apart_def lists
        by (intro allI impI, rename_tac flag b, case_tac "flag = once")
          (auto simp: less_Suc_eq split: if_splits dest: old)
      moreover have "listeners_of t a event other = listeners_of s a event other @ (if other = once then [f] else [])"
        using None old [of other] by (auto simp: listeners_of_def listener_slots_def lists slots split: option.split)
      ultimately show ?thesis using True by simp
    qed
  qed
  then show "wf_entries (entries_at t a)" "lists_apart t a event"
    "listeners_of t a event other = listeners_of s a event other @ (if other = once \<and> is_callback f then [f] else [])" by blast+
qed

lemma register_listeners:
  assumes "length event \<le> 105" and "wf_entries (entries_at s a)" and "lists_apart s a event"
  shows "wf_entries (entries_at (register s (Some (VObject a)) event rs) a)
    \<and> lists_apart (register s (Some (VObject a)) event rs) a event
    \<and> (\<forall>once. listeners_of (register s (Some (VObject a)) event rs) a event once = listeners_of s a event once @ added once rs)"
  using assms(2,3)
proof (induction rs arbitrary: s)
  case (Cons r rs)
  obtain flag f where r: "r = (flag, f)" by fastforce
  note t = add_listener [OF assms(1) Cons.prems, of f flag]
  have "register s (Some (VObject a)) event (r # rs)
      = register (jayess_std_stream_add_listener s (Some (VObject a)) event f flag) (Some (VObject a)) event rs"
    by (simp add: r jayess_std_stream_once_def jayess_std_stream_on_def)
  with Cons.IH [OF t(1,2)] t(3) show ?case by (auto simp: added_def r)
qed (simp add: added_def)

section \<open>Emitting after registering\<close>

text \<open>The functions leave the lists of the event and the properties of the emitter as they are.\<close>

definition leaves_lists :: "native_code \<Rightarrow> jayess_state \<Rightarrow> nat \<Rightarrow> string \<Rightarrow> bool" where
  "leaves_lists code s a event \<longleftrightarrow>
     (\<forall>f args t. entries_at (snd (code f args t)) a = entries_at t a
       \<and> (\<forall>once b. jayess_std_stream_listeners s (Some (VObject a)) event once = Some b
            \<longrightarrow> slots_at (snd (code f args t)) b = slots_at t b))"

text \<open>The call of the listeners of both lists: those to be called once leave the emitter before they are called.\<close>

definition emission :: "native_code \<Rightarrow> jayess_state \<Rightarrow> nat \<Rightarrow> string \<Rightarrow> jayess_value option \<Rightarrow> jayess_slots \<Rightarrow> jayess_slots \<Rightarrow> bool \<times> jayess_state" where
  "emission code s a event arg always onces =
     (let (whole, s1) = call_all code arg always s
      in if \<not> whole then (False, s1)
         else (True, if jayess_std_stream_listeners s (Some (VObject a)) event True = None then s1
               else snd (call_all code arg onces (object_delete s1 a (listener_key event True)))))"

lemma emit_lists:
  fixes argument :: "jayess_value option"
  assumes "length event \<le> 105" and "wf_entries (entries_at s a)" and keeps: "leaves_lists code s a event"
  defines "arg \<equiv> Some (value_or_undefined argument)"
  defines "run \<equiv> emission code s a event arg (listeners_of s a event False) (listeners_of s a event True)"
  shows "jayess_std_stream_emit code s (Some (VObject a)) event argument = Some (snd run)"
    and "fst run \<Longrightarrow> jayess_std_stream_listeners (snd run) (Some (VObject a)) event True = None"
proof -
  note key = listeners_key [OF assms(1)]
  have code: "slots_at (snd (code f args t)) b = slots_at t b"
    if "jayess_std_stream_listeners s (Some (VObject a)) event once = Some b" for f args t once b
    using keeps that unfolding leaves_lists_def by blast
  have one: "slots_at (snd (jayess_value_call_one code t f arg)) b = slots_at t b"
    if "jayess_std_stream_listeners s (Some (VObject a)) event once = Some b" for t f once b
    by (rule call_one_keeps [where P = "\<lambda>t. slots_at t b"]) (simp_all add: code [OF that])
  have entries: "entries_at (snd (jayess_value_call_one code t f arg)) a = entries_at t a" for t f
    by (rule call_one_keeps [where P = "\<lambda>t. entries_at t a"]) (use keeps in \<open>simp_all add: leaves_lists_def\<close>)
  have slots_all: "slots_at (snd (call_all code arg vs t)) b = slots_at t b"
    if "jayess_std_stream_listeners s (Some (VObject a)) event once = Some b" for vs t once b
    by (rule call_all_keeps [where P = "\<lambda>t. slots_at t b"]) (rule one [OF that])
  have entries_all: "entries_at (snd (call_all code arg vs t)) a = entries_at t a" for vs t
    by (rule call_all_keeps [where P = "\<lambda>t. entries_at t a"]) (rule entries)
  have loop: "emit_loop code arg b 0 t = Some (call_all code arg (slots_at t b) t)"
    if "jayess_std_stream_listeners s (Some (VObject a)) event once = Some b" for t once b
    using emit_loop_call_all [OF one [OF that], of 0 t] by simp
  obtain whole s1 where first: "call_all code arg (listeners_of s a event False) s = (whole, s1)" by fastforce
  then have start: "(case jayess_std_stream_listeners s (Some (VObject a)) event False of
      None \<Rightarrow> Some (True, s) | Some b \<Rightarrow> emit_loop code arg b 0 s) = Some (whole, s1)"
    by (auto simp: listeners_of_def listener_slots_def loop split: option.splits)
  have s1: "entries_at s1 a = entries_at s a"
    using entries_all [of "listeners_of s a event False" s] by (simp add: first)
  then have same: "jayess_std_stream_listeners s1 (Some (VObject a)) event once = jayess_std_stream_listeners s (Some (VObject a)) event once"
    for once by (simp add: key object_get_def)
  have once_key: "jayess_std_stream_once_key event = Some (listener_key event True)" by (simp add: keys_fit [OF assms(1)] listener_key_def)
  have for_key: "jayess_std_stream_listeners_for_key s1 (Some (VObject a)) (listener_key event True)
      = jayess_std_stream_listeners s (Some (VObject a)) event True"
    using same [of True] by (simp add: jayess_std_stream_listeners_def once_key)
  have slots1: "slots_at s1 b = slots_at s b" if "jayess_std_stream_listeners s (Some (VObject a)) event once = Some b" for once b
    using slots_all [OF that, of "listeners_of s a event False" s] by (simp add: first)
  show "jayess_std_stream_emit code s (Some (VObject a)) event argument = Some (snd run)"
    using start slots1
    by (auto simp: jayess_std_stream_emit_def arg_def [symmetric] Let_def run_def emission_def first emit_once_def once_key for_key
        loop listeners_of_def listener_slots_def split: option.split)
  assume "fst run"
  then show "jayess_std_stream_listeners (snd run) (Some (VObject a)) event True = None"
    using object_get_delete [of s1 a "listener_key event True"] assms(2)
      entries_all [of "listeners_of s a event True" "object_delete s1 a (listener_key event True)"] same [of True]
    by (auto simp: run_def emission_def first key object_get_def s1 split: if_splits)
qed

text \<open>
  C31. Emitting an event. Listeners are added to an event with \<open>on\<close> and \<open>once\<close>, in any order, behind those it already has;
  then the event is emitted. All the functions for \<open>on\<close> are called in the order they were added, then all those for \<open>once\<close>
  in the order they were added, up to the first call that leaves an exception; the list of those to be called once
  is taken away from the emitter before the first of them is called, and when the functions for \<open>on\<close> leave no exception it
  is gone afterwards. The name of the event has at most 105 characters (the code builds the property names in 128 bytes and
  ignores longer names), the two lists are different arrays of the heap, and the functions leave the lists of the event
  and the properties of the emitter as they are.
\<close>

theorem emit_in_order:
  fixes argument :: "jayess_value option"
  assumes "length event \<le> 105" and "wf_entries (entries_at s a)" and "lists_apart s a event"
    and "leaves_lists code (register s (Some (VObject a)) event rs) a event"
  defines "run \<equiv> emission code (register s (Some (VObject a)) event rs) a event (Some (value_or_undefined argument))
    (listeners_of s a event False @ added False rs) (listeners_of s a event True @ added True rs)"
  shows "jayess_std_stream_emit code (register s (Some (VObject a)) event rs) (Some (VObject a)) event argument = Some (snd run)
    \<and> (fst run \<longrightarrow> jayess_std_stream_listeners (snd run) (Some (VObject a)) event True = None)"
proof -
  note registered = register_listeners [OF assms(1-3), of rs]
  show ?thesis
    using emit_lists [OF assms(1) _ assms(4), of argument] registered by (simp add: run_def)
qed

section \<open>Listeners that add listeners\<close>

text \<open>
  An event all of whose listeners are one function that, when it is called, adds itself as a listener of the event
  again is emitted without end: the loop reads the growing length of the list before every call.
\<close>

theorem emit_adding_diverges:
  assumes "length event \<le> 105" and "object_get s a (event_prefix @ event) = Some (VArray b)"
    and "slots_at s b \<noteq> []" and "\<forall>v \<in> set (slots_at s b). v = Some (VFunction f)"
    and "funcs s f = Some fn" and "fn_callee fn = Some c"
    and "current_exception s = None"
    and adds: "\<And>args t. code c args t = (None, jayess_std_stream_on t (Some (VObject a)) event (Some (VFunction f)))"
  shows "jayess_std_stream_emit code s (Some (VObject a)) event argument = None"
proof -
  define good where "good t i \<longleftrightarrow> object_get t a (event_prefix @ event) = Some (VArray b) \<and> i < length (slots_at t b)
    \<and> (\<forall>v \<in> set (slots_at t b). v = Some (VFunction f)) \<and> funcs t f = Some fn \<and> current_exception t = None" for t i
  have called: "good (snd (jayess_value_call_one code t (Some (VFunction f)) arg)) (Suc i)" if "good t i" for t i arg
  proof -
    have "good (snd (jayess_value_call_one code t (Some (VFunction f)) arg)) (Suc i)
      = good (jayess_std_stream_on (jayess_push_this t (fn_bound_this fn)) (Some (VObject a)) event (Some (VFunction f))) (Suc i)"
      using that assms(6) by (simp add: good_def jayess_value_call_one_def function_at_def adds object_get_def)
    also have "\<dots>" using that unfolding good_def
      by (simp add: jayess_std_stream_on_def jayess_std_stream_add_listener_def keys_fit [OF assms(1)] is_callback_def
          jayess_std_stream_listeners_for_key_def object_get_def)
    finally show ?thesis .
  qed
  have "emit_loop code arg b 0 s = None" for arg
  proof (rule ccontr)
    assume "emit_loop code arg b 0 s \<noteq> None"
    then obtain r where r: "emit_loop code arg b 0 s = Some r" by blast
    have "\<not> good s 0"
    proof (rule mp [OF emit_loop.raw_induct [where P = "\<lambda>code' arg b' i t r. code' = code \<and> b' = b \<longrightarrow> \<not> good t i", OF _ r]])
      fix rec and code' :: native_code and arg b' i t r
      assume IH: "\<And>code' arg b' i t r. rec code' arg b' i t = Some r \<Longrightarrow> code' = code \<and> b' = b \<longrightarrow> \<not> good t i"
        and run: "(if length (slots_at t b') \<le> i then Some (True, t)
          else if \<not> is_callback (slots_at t b' ! i) then rec code' arg b' (Suc i) t
          else let s1 = snd (jayess_value_call_one code' t (slots_at t b' ! i) arg)
               in if jayess_has_exception s1 then Some (False, s1) else rec code' arg b' (Suc i) s1) = Some r"
      show "code' = code \<and> b' = b \<longrightarrow> \<not> good t i"
      proof (intro impI notI)
        assume same: "code' = code \<and> b' = b" and good: "good t i"
        let ?t1 = "snd (jayess_value_call_one code t (Some (VFunction f)) arg)"
        have slot: "slots_at t b ! i = Some (VFunction f)" "\<not> length (slots_at t b) \<le> i" using good by (simp_all add: good_def)
        have next_good: "good ?t1 (Suc i)" using called good by blast
        then have "\<not> jayess_has_exception ?t1" by (simp add: good_def jayess_has_exception_def)
        then have "rec code arg b (Suc i) ?t1 = Some r"
          using run slot by (simp add: same is_callback_def Let_def)
        then show False using IH next_good by blast
      qed
    qed simp
    then show False using assms by (simp add: good_def)
  qed
  then show ?thesis using assms(2) by (simp add: jayess_std_stream_emit_def jayess_std_stream_listeners_def
      keys_fit [OF assms(1)] jayess_std_stream_listeners_for_key_def)
qed

text \<open>An emitter with one listener, added to both lists of an event.\<close>

definition one_listener :: jayess_state where
  "one_listener =
     object_set (object_set (initial_state\<lparr>arrays := [2 \<mapsto> [Some (VFunction 4)], 3 \<mapsto> [Some (VFunction 4)]],
         funcs := [4 \<mapsto> example_function], next_address := 5\<rparr>) 0 (event_prefix @ ''e'') (VArray 2)) 0 (once_prefix @ ''e'') (VArray 3)"

lemma one_listener_next: "next_address one_listener = 5"
  by (simp add: one_listener_def member_set)

lemma one_listener_simps:
  "slots_at one_listener 2 = [Some (VFunction 4)]" "slots_at one_listener 3 = [Some (VFunction 4)]"
  "funcs one_listener = [4 \<mapsto> example_function]" "current_exception one_listener = None"
  "object_get one_listener 0 (event_prefix @ ''e'') = Some (VArray 2)"
  "object_get one_listener 0 (once_prefix @ ''e'') = Some (VArray 3)"
  "wf_entries (entries_at one_listener 0)"
proof -
  have set_wf: "wf_entries (snd (jayess_object_set_key_value acc es (VString k) (Some v)))" if "wf_entries es" for acc es k v
    using that by (simp add: set_key_value_entries wf_set_entry del: set_entry.simps)
  have differ: "event_prefix @ ''e'' \<noteq> once_prefix @ ''e''" by (simp add: event_prefix_def once_prefix_def)
  show "slots_at one_listener 2 = [Some (VFunction 4)]" "slots_at one_listener 3 = [Some (VFunction 4)]"
    "funcs one_listener = [4 \<mapsto> example_function]" "current_exception one_listener = None"
    by (simp_all add: one_listener_def member_set slots_at_def initial_state_def)
  show "object_get one_listener 0 (event_prefix @ ''e'') = Some (VArray 2)"
    "object_get one_listener 0 (once_prefix @ ''e'') = Some (VArray 3)"
    using differ by (simp_all add: one_listener_def object_get_set)
  show "wf_entries (entries_at one_listener 0)"
    using set_wf [OF set_wf, of "entries_at initial_state 0"]
    by (simp only: one_listener_def object_set_def entries_at_object_set_key if_P) (simp add: initial_state_def entries_at_def)
qed

text \<open>The function is added once more to either list.\<close>

theorem emit_in_order_witness:
  "\<exists>s1. jayess_std_stream_emit (\<lambda>c args t. (None, t)) (register one_listener (Some (VObject 0)) ''e''
       [(True, Some (VFunction 4)), (False, Some (VFunction 4))]) (Some (VObject 0)) ''e'' None = Some s1"
proof -
  have len: "length ''e'' \<le> 105" by simp
  have "lists_apart one_listener 0 ''e''"
    unfolding lists_apart_def listeners_key [OF len] by (simp add: listener_key_def one_listener_simps all_bool_eq one_listener_next)
  moreover have "leaves_lists (\<lambda>c args t. (None, t)) s 0 ''e''" for s by (simp add: leaves_lists_def)
  ultimately show ?thesis using emit_in_order [OF len one_listener_simps(7)] by blast
qed

theorem emit_adding_diverges_witness:
  "jayess_std_stream_emit (\<lambda>c args t. (None, jayess_std_stream_on t (Some (VObject 0)) ''e'' (Some (VFunction 4))))
     one_listener (Some (VObject 0)) ''e'' None = None"
  by (rule emit_adding_diverges [where b = 2 and fn = example_function and c = 7])
    (simp_all add: one_listener_simps, simp add: example_function_def)

end
