(* ===== verification/Workers.thy ===== *)
theory Workers
  imports Byte_Methods
begin

text \<open>
  Workers (\<open>jayess_runtime_process.c\<close>): the copy of a value that is sent between threads, the two message queues of a
  worker, its thread, and the methods of its owner. The heap is shared; the exception, the \<open>this\<close> stack and the call
  stack belong to a thread. What happens under the lock of a worker is one step.
\<close>

section \<open>Copying a value\<close>

text \<open>A null object pointer is an address at which there is no object.\<close>

definition jayess_std_buffer_value_from_state :: "byte_state \<Rightarrow> (nat \<times> bool) option \<Rightarrow> jayess_value \<times> byte_state" where
  "jayess_std_buffer_value_from_state t state =
     (case state of
        None \<Rightarrow> (VObject (next_address (js t)), t\<lparr>js := (js t)\<lparr>next_address := next_address (js t) + 1\<rparr>\<rparr>)
      | Some (b, shared) \<Rightarrow>
          (let (a, s1) = jayess_object_new (js t)
           in (VObject a,
               t\<lparr>js := object_set s1 a ''__jayess_std_kind'' (VString (if shared then ''SharedArrayBuffer'' else ''ArrayBuffer'')),
                 native := (native t)(a := state)\<rparr>)))"

text \<open>The loops over the slots of an array and the entries of an object; \<open>f\<close> copies one value.\<close>

type_synonym clone_result = "bool \<times> jayess_value \<times> byte_state"

definition put_slot :: "byte_state \<Rightarrow> nat \<Rightarrow> jayess_value \<Rightarrow> byte_state" where
  "put_slot t b w =
     t\<lparr>js := array_write (js t) b
               (jayess_array_set_value (accounting (js t)) (slots_at (js t) b) (int (length (slots_at (js t) b))) (Some w))\<rparr>"

definition put_field :: "byte_state \<Rightarrow> nat \<Rightarrow> jayess_value \<Rightarrow> jayess_value \<Rightarrow> byte_state" where
  "put_field t a key v = t\<lparr>js := object_set_key (js t) a key (Some v)\<rparr>"

fun clone_slots :: "(jayess_value option \<Rightarrow> byte_state \<Rightarrow> clone_result) \<Rightarrow> nat \<Rightarrow> jayess_slots \<Rightarrow> byte_state \<Rightarrow> bool \<times> byte_state" where
  "clone_slots f b [] t = (True, t)"
| "clone_slots f b (v # vs) t =
     (let (ok, w, t1) = f v t; t2 = put_slot t1 b w
      in if ok then clone_slots f b vs t2 else (False, t2))"

fun clone_entries :: "(jayess_value option \<Rightarrow> byte_state \<Rightarrow> clone_result) \<Rightarrow> nat \<Rightarrow> jayess_entries \<Rightarrow> byte_state \<Rightarrow> bool \<times> byte_state" where
  "clone_entries f a [] t = (True, t)"
| "clone_entries f a (e # es) t =
     (let (key_ok, key, t1) = (if entry_key_value e \<noteq> None then f (entry_key_value e) t
                               else (True, VString (case entry_key e of None \<Rightarrow> [] | Some k \<Rightarrow> k), t));
          (value_ok, v, t2) = f (entry_value e) t1
      in if key_ok \<and> value_ok then clone_entries f a es (put_field t2 a key v) else (False, t2))"

text \<open>
  The copy, and whether it was possible. \<open>other\<close> says which objects have a stream, a socket or another native handle
  beside those of the buffers.
\<close>

function jayess_worker_clone_value :: "(nat \<Rightarrow> bool) \<Rightarrow> nat \<Rightarrow> jayess_value option \<Rightarrow> byte_state \<Rightarrow> clone_result" where
  "jayess_worker_clone_value other depth v t =
     (if 64 < depth then (False, VUndefined, t)
      else (case v of
        None \<Rightarrow> (True, VUndefined, t)
      | Some VNull \<Rightarrow> (True, VNull, t)
      | Some VUndefined \<Rightarrow> (True, VUndefined, t)
      | Some (VBool b) \<Rightarrow> (True, VBool b, t)
      | Some (VNumber x) \<Rightarrow> (True, jayess_value_from_number x, t)
      | Some (VString s) \<Rightarrow> (True, VString s, t)
      | Some (VBigint s) \<Rightarrow> (True, VBigint s, t)
      | Some (VSymbol i d) \<Rightarrow> (True, VSymbol i d, t)
      | Some (VFunction f) \<Rightarrow> (False, VUndefined, t)
      | Some (VArray b) \<Rightarrow>
          (let (c, s1) = jayess_array_new (js t);
               (ok, t2) = clone_slots (\<lambda>w. jayess_worker_clone_value other (Suc depth) w) c (slots_at (js t) b) (t\<lparr>js := s1\<rparr>)
           in (ok, if ok then VArray c else VUndefined, t2))
      | Some (VObject a) \<Rightarrow>
          if jayess_std_kind_is (js t) v ''SharedArrayBuffer''
          then (let (buffer, t1) = jayess_std_buffer_value_from_state t (jayess_std_bytes_state t v) in (True, buffer, t1))
          else
            (let is_view = (jayess_std_kind_is (js t) v ''DataView'' \<or> jayess_std_is_typed_array (js t) v);
                 (buffer, t1) = (if is_view then jayess_std_buffer_value_from_state t (jayess_std_bytes_state t v) else (VUndefined, t))
             in if is_view \<and> jayess_std_kind_is (js t1) (Some buffer) ''SharedArrayBuffer''
                then (let (w, t2) = (if jayess_std_kind_is (js t) v ''DataView'' then jayess_std_data_view_new t1 (Some buffer)
                                     else jayess_std_typed_array_new t1
                                            (case jayess_std_typed_array_kind (js t) v of None \<Rightarrow> [] | Some k \<Rightarrow> k) (Some buffer))
                      in (True, w, t2))
                else if native t1 a \<noteq> None \<or> other a then (False, VUndefined, t1)
                else (let (c, s1) = jayess_object_new (js t1);
                          (ok, t2) = clone_entries (\<lambda>w. jayess_worker_clone_value other (Suc depth) w) c (entries_at (js t) a) (t1\<lparr>js := s1\<rparr>)
                      in (ok, if ok then VObject c else VUndefined, t2)))))"
  by pat_completeness auto

termination jayess_worker_clone_value
  by (relation "measure (\<lambda>(other, depth, v, t). 65 - depth)") auto

declare jayess_worker_clone_value.simps [simp del]

section \<open>One message\<close>

definition jayess_worker_make_envelope :: "jayess_state \<Rightarrow> bool \<Rightarrow> jayess_value \<Rightarrow> jayess_value \<Rightarrow> jayess_value \<times> jayess_state" where
  "jayess_worker_make_envelope s ok v error =
     (let (a, s1) = jayess_object_new s
      in (VObject a, object_set (object_set (object_set s1 a ''ok'' (VBool ok)) a ''value'' v) a ''error'' error))"

text \<open>The handler runs on the message; its result, or the exception it left, is copied into an envelope.\<close>

definition jayess_worker_execute_message ::
  "(nat \<Rightarrow> bool) \<Rightarrow> native_code \<Rightarrow> jayess_value \<Rightarrow> jayess_value \<Rightarrow> byte_state \<Rightarrow> jayess_value \<times> byte_state" where
  "jayess_worker_execute_message other code handler message t =
     (let (result, s1) = jayess_value_call_with_this code (js t) (Some handler) (Some VUndefined) (Some message) 1;
          (ok, v, error, t4) =
            (if jayess_has_exception s1
             then (let (e, s2) = jayess_take_exception s1;
                       (clone_ok, w, t3) = jayess_worker_clone_value other 0 (Some e) (t\<lparr>js := s2\<rparr>)
                   in if clone_ok then (False, VUndefined, w, t3)
                      else (let (w', s4) = jayess_type_error_value (js t3) ''worker failed to clone thrown value''
                            in (False, VUndefined, w', t3\<lparr>js := s4\<rparr>)))
             else (let (clone_ok, w, t3) = jayess_worker_clone_value other 0 (Some result) (t\<lparr>js := s1\<rparr>)
                   in if clone_ok then (True, w, VUndefined, t3)
                      else (let (w', s4) = jayess_type_error_value (js t3) ''worker failed to clone result value''
                            in (False, VUndefined, w', t3\<lparr>js := s4\<rparr>))));
          (envelope, s5) = jayess_worker_make_envelope (js t4) ok v error
      in (envelope, t4\<lparr>js := s5\<rparr>))"

section \<open>The worker\<close>

text \<open>
  The queues hold the messages from the head to the tail; \<open>taken\<close> is the message the thread works on, \<open>own\<close> holds what
  belongs to the thread, and \<open>released\<close> is set when the owner has given up the state.
\<close>

record thread_state =
  own_this :: "jayess_value list"
  own_calls :: "string option list"
  own_exception :: "jayess_value option"

record worker =
  heap :: byte_state
  self :: nat
  handler :: jayess_value
  inbound :: "jayess_value list"
  outbound :: "jayess_value list"
  terminate_requested :: bool
  closed_flag :: bool
  taken :: "jayess_value option"
  own :: thread_state
  released :: bool

definition jayess_worker_queue_push :: "jayess_value list \<Rightarrow> jayess_value \<Rightarrow> jayess_value list" where
  "jayess_worker_queue_push q m = q @ [m]"

definition jayess_worker_queue_pop :: "jayess_value list \<Rightarrow> jayess_value option \<times> jayess_value list" where
  "jayess_worker_queue_pop q = (case q of [] \<Rightarrow> (None, []) | m # ms \<Rightarrow> (Some m, ms))"

text \<open>Running on the thread of the worker: its own stacks and exception for those of the owner.\<close>

definition enter_thread :: "thread_state \<Rightarrow> jayess_state \<Rightarrow> jayess_state" where
  "enter_thread th s = s\<lparr>this_stack := own_this th, call_stack := own_calls th, current_exception := own_exception th\<rparr>"

definition thread_of :: "jayess_state \<Rightarrow> thread_state" where
  "thread_of s = \<lparr>own_this = this_stack s, own_calls = call_stack s, own_exception = current_exception s\<rparr>"

text \<open>The owner has an object with the address \<open>self\<close>; for a handler that is no function there is an error value only.\<close>

definition jayess_std_worker_create :: "byte_state \<Rightarrow> jayess_value option \<Rightarrow> jayess_value \<times> byte_state \<times> worker option" where
  "jayess_std_worker_create t h =
     (case h of
        Some (VFunction f) \<Rightarrow>
          (let (a, s1) = jayess_object_new (js t);
               t1 = t\<lparr>js := object_set (object_set s1 a ''__jayess_std_kind'' (VString ''Worker'')) a ''closed'' (VBool False)\<rparr>
           in (VObject a, t1,
               Some \<lparr>heap = t1, self = a, handler = VFunction f, inbound = [], outbound = [], terminate_requested = False,
                     closed_flag = False, taken = None, own = \<lparr>own_this = [], own_calls = [], own_exception = None\<rparr>,
                     released = False\<rparr>))
      | _ \<Rightarrow> (let (e, s1) = jayess_type_error_value (js t) ''worker.create expects a function'' in (e, t\<lparr>js := s1\<rparr>, None)))"

definition note_closed :: "worker \<Rightarrow> bool \<Rightarrow> worker" where
  "note_closed w b = w\<lparr>heap := (heap w)\<lparr>js := object_set (js (heap w)) (self w) ''closed'' (VBool b)\<rparr>\<rparr>"

definition jayess_std_worker_post_message_method ::
  "(nat \<Rightarrow> bool) \<Rightarrow> worker \<Rightarrow> jayess_value option \<Rightarrow> jayess_value \<times> worker" where
  "jayess_std_worker_post_message_method other w message =
     (if released w \<or> closed_flag w then (VBool False, w)
      else (let (ok, m, t1) = jayess_worker_clone_value other 0 message (heap w); w1 = w\<lparr>heap := t1\<rparr>
            in if \<not> ok
               then (let (e, s2) = jayess_type_error_value (js t1) ''worker.postMessage only supports cloneable values''
                     in (VUndefined, w1\<lparr>heap := t1\<lparr>js := jayess_throw s2 (Some e)\<rparr>\<rparr>))
               else if closed_flag w \<or> terminate_requested w then (VBool False, w1)
               else (VBool True, w1\<lparr>inbound := jayess_worker_queue_push (inbound w) m\<rparr>)))"

text \<open>The thread: it takes a message, works on it, and ends when it is told to and no message is left.\<close>

definition thread_take :: "worker \<Rightarrow> worker option" where
  "thread_take w =
     (if taken w \<noteq> None \<or> closed_flag w then None
      else (case jayess_worker_queue_pop (inbound w) of
              (None, q) \<Rightarrow> None | (Some m, q) \<Rightarrow> Some (w\<lparr>inbound := q, taken := Some m\<rparr>)))"

definition thread_execute :: "(nat \<Rightarrow> bool) \<Rightarrow> native_code \<Rightarrow> worker \<Rightarrow> (jayess_value \<times> worker) option" where
  "thread_execute other code w =
     (case taken w of
        None \<Rightarrow> None
      | Some m \<Rightarrow>
          (let owner = thread_of (js (heap w));
               (e, t1) = jayess_worker_execute_message other code (handler w) m ((heap w)\<lparr>js := enter_thread (own w) (js (heap w))\<rparr>)
           in Some (e, w\<lparr>heap := t1\<lparr>js := enter_thread owner (js t1)\<rparr>, own := thread_of (js t1), taken := None,
                         outbound := jayess_worker_queue_push (outbound w) e\<rparr>)))"

definition thread_end :: "worker \<Rightarrow> worker option" where
  "thread_end w =
     (if terminate_requested w \<and> inbound w = [] \<and> taken w = None \<and> \<not> closed_flag w then Some (w\<lparr>closed_flag := True\<rparr>) else None)"

text \<open>
  Receiving, once it waits no longer: an answer is there, or the worker is closed, or the time is up. Without a timeout
  \<open>None\<close> is waiting on.
\<close>

definition jayess_std_worker_receive_method :: "bool \<Rightarrow> worker \<Rightarrow> (jayess_value option \<times> worker) option" where
  "jayess_std_worker_receive_method time_up w =
     (if released w then Some (None, w)
      else (case jayess_worker_queue_pop (outbound w) of
              (Some m, q) \<Rightarrow> Some (Some m, note_closed (w\<lparr>outbound := q\<rparr>) (closed_flag w))
            | (None, q) \<Rightarrow> if closed_flag w \<or> time_up then Some (None, w) else None))"

text \<open>
  Terminating, in two steps: the request, and, when the thread has ended, giving up what is queued and the state.
\<close>

definition request_terminate :: "worker \<Rightarrow> worker" where
  "request_terminate w = (if released w then w else w\<lparr>terminate_requested := True\<rparr>)"

definition finish_terminate :: "worker \<Rightarrow> worker option" where
  "finish_terminate w =
     (if closed_flag w \<and> \<not> released w then Some (note_closed (w\<lparr>inbound := [], outbound := [], released := True\<rparr>) True)
      else None)"

section \<open>The steps\<close>

text \<open>
  What a step shows: a call of \<open>postMessage\<close> the copy that was made of the message and what the call answered, the
  steps of the thread what was taken and answered, \<open>receive\<close> what it answered, and \<open>terminate\<close> what it gave up. A call of
  the handler is one step: the parameter \<open>code\<close> is total, a handler that does not return has no step.
\<close>

datatype worker_label =
    Posted jayess_value jayess_value
  | Took jayess_value
  | Answered jayess_value
  | Ended
  | Received "jayess_value option"
  | Requested
  | Finished "jayess_value list"

inductive worker_step :: "(nat \<Rightarrow> bool) \<Rightarrow> native_code \<Rightarrow> worker \<Rightarrow> worker_label \<Rightarrow> worker \<Rightarrow> bool" for other code where
  step_post: "jayess_worker_clone_value other 0 message (heap w) = (ok, m, t) \<Longrightarrow>
    jayess_std_worker_post_message_method other w message = (r, w') \<Longrightarrow> worker_step other code w (Posted m r) w'"
| step_take: "thread_take w = Some w' \<Longrightarrow> taken w' = Some m \<Longrightarrow> worker_step other code w (Took m) w'"
| step_execute: "thread_execute other code w = Some (e, w') \<Longrightarrow> worker_step other code w (Answered e) w'"
| step_end: "thread_end w = Some w' \<Longrightarrow> worker_step other code w Ended w'"
| step_receive: "jayess_std_worker_receive_method time_up w = Some (m, w') \<Longrightarrow> worker_step other code w (Received m) w'"
| step_request: "\<not> terminate_requested w \<Longrightarrow> worker_step other code w Requested (request_terminate w)"
| step_finish: "terminate_requested w \<Longrightarrow> finish_terminate w = Some w' \<Longrightarrow> worker_step other code w (Finished (outbound w)) w'"

inductive worker_runs :: "(nat \<Rightarrow> bool) \<Rightarrow> native_code \<Rightarrow> worker \<Rightarrow> worker_label list \<Rightarrow> worker \<Rightarrow> bool" for other code where
  runs_none: "worker_runs other code w [] w"
| runs_step: "worker_runs other code w ls w' \<Longrightarrow> worker_step other code w' l w'' \<Longrightarrow> worker_runs other code w (ls @ [l]) w''"

inductive_cases worker_stepE: "worker_step other code w l w'"

end
