(* ===== verification/Worker_Correct.thy ===== *)
theory Worker_Correct
  imports Workers
begin

text \<open>
  What workers promise: a value of plain data is copied to a fresh one with the same structure; messages are worked on
  in the order they were posted and answered in that order; and after a request to terminate the thread works off what
  was accepted and then ends.
\<close>

section \<open>Plain data\<close>

datatype tree = Leaf jayess_value | Items "tree list" | Fields "(string \<times> tree) list"

definition scalar :: "jayess_value \<Rightarrow> bool" where
  "scalar v \<longleftrightarrow> (case v of
     VNumber x \<Rightarrow> jayess_value_from_number x = v | VFunction f \<Rightarrow> False | VArray a \<Rightarrow> False | VObject a \<Rightarrow> False | _ \<Rightarrow> True)"

text \<open>Fields that make an object a shared buffer or a view of a buffer.\<close>

definition special :: "(string \<times> tree) list \<Rightarrow> bool" where
  "special kts \<longleftrightarrow> (case map_of kts ''__jayess_std_kind'' of
     Some (Leaf (VString k)) \<Rightarrow> k = ''SharedArrayBuffer'' \<or> k = ''DataView'' \<or> jayess_std_is_typed_array_kind k | _ \<Rightarrow> False)"

text \<open>The value is that tree, and its arrays and objects are at addresses from \<open>lo\<close> on.\<close>

inductive holds_tree :: "(nat \<Rightarrow> bool) \<Rightarrow> byte_state \<Rightarrow> nat \<Rightarrow> jayess_value option \<Rightarrow> tree \<Rightarrow> bool" for other t lo where
  tree_null: "holds_tree other t lo None (Leaf VUndefined)"
| tree_leaf: "scalar v \<Longrightarrow> holds_tree other t lo (Some v) (Leaf v)"
| tree_items: "lo \<le> b \<Longrightarrow> b < next_address (js t) \<Longrightarrow> list_all2 (holds_tree other t lo) (slots_at (js t) b) ts
    \<Longrightarrow> holds_tree other t lo (Some (VArray b)) (Items ts)"
| tree_fields: "lo \<le> a \<Longrightarrow> a < next_address (js t) \<Longrightarrow> native t a = None \<Longrightarrow> \<not> other a \<Longrightarrow> \<not> special kts
    \<Longrightarrow> distinct (map fst kts)
    \<Longrightarrow> list_all2 (\<lambda>e kt. entry_key e = Some (fst kt) \<and> entry_key_value e = None \<and> holds_tree other t lo (entry_value e) (snd kt))
          (entries_at (js t) a) kts
    \<Longrightarrow> holds_tree other t lo (Some (VObject a)) (Fields kts)"
  monos list.rel_mono_strong

inductive_cases tree_LeafE: "holds_tree other t lo v (Leaf w)"
inductive_cases tree_ItemsE: "holds_tree other t lo v (Items ts)"
inductive_cases tree_FieldsE: "holds_tree other t lo v (Fields kts)"

fun height :: "tree \<Rightarrow> nat" where
  "height (Leaf v) = 0"
| "height (Items ts) = foldr (\<lambda>t n. max (Suc (height t)) n) ts 0"
| "height (Fields kts) = foldr (\<lambda>kt n. max (Suc (height (snd kt))) n) kts 0"

lemma height_item: "x \<in> set ts \<Longrightarrow> Suc (height x) \<le> height (Items ts)"
  by (induction ts) (simp_all, fastforce)

lemma height_field: "kx \<in> set kts \<Longrightarrow> Suc (height (snd kx)) \<le> height (Fields kts)"
  by (induction kts) (simp_all, fastforce)

text \<open>A later state with the same at the old addresses of \<open>A\<close> and the same handles, and none at new ones.\<close>

definition keeps :: "nat set \<Rightarrow> byte_state \<Rightarrow> byte_state \<Rightarrow> bool" where
  "keeps A t t' \<longleftrightarrow> next_address (js t) \<le> next_address (js t') \<and> native t' = native t
     \<and> (\<forall>a \<in> A. a < next_address (js t) \<longrightarrow> slots_at (js t') a = slots_at (js t) a \<and> entries_at (js t') a = entries_at (js t) a)"

definition fresh_above :: "(nat \<Rightarrow> bool) \<Rightarrow> byte_state \<Rightarrow> bool" where
  "fresh_above other t \<longleftrightarrow> (\<forall>a \<ge> next_address (js t). native t a = None \<and> \<not> other a)"

lemma keeps_refl: "keeps A t t"
  by (simp add: keeps_def)

lemma keeps_trans: "keeps A t t1 \<Longrightarrow> keeps A t1 t2 \<Longrightarrow> keeps A t t2"
  by (fastforce simp: keeps_def)

lemma keeps_sub: "keeps B t t' \<Longrightarrow> A \<subseteq> B \<Longrightarrow> keeps A t t'"
  by (auto simp: keeps_def)

lemma keeps_fresh: "keeps A t t' \<Longrightarrow> fresh_above other t \<Longrightarrow> fresh_above other t'"
  by (auto simp: keeps_def fresh_above_def)

lemma keeps_new: "next_address (js t) \<le> c \<Longrightarrow> keeps (- {c}) t t' \<Longrightarrow> keeps UNIV t t'"
  by (force simp: keeps_def)

lemma holds_tree_keeps: "holds_tree other t lo v tr \<Longrightarrow> keeps {lo..} t t' \<Longrightarrow> holds_tree other t' lo v tr"
proof (induction rule: holds_tree.induct)
  case (tree_items b ts)
  have "list_all2 (holds_tree other t' lo) (slots_at (js t) b) ts"
    using tree_items(3) by (rule list.rel_mono_strong) (use tree_items(4) in blast)
  then show ?case using tree_items by (intro holds_tree.tree_items) (auto simp: keeps_def)
next
  case (tree_fields a kts)
  have "list_all2 (\<lambda>e kt. entry_key e = Some (fst kt) \<and> entry_key_value e = None \<and> holds_tree other t' lo (entry_value e) (snd kt))
      (entries_at (js t) a) kts"
    using tree_fields(7) by (rule list.rel_mono_strong) (use tree_fields(8) in blast)
  then show ?case using tree_fields by (intro holds_tree.tree_fields) (auto simp: keeps_def)
qed (auto intro: holds_tree.intros)

lemma holds_tree_lower: "holds_tree other t lo v tr \<Longrightarrow> l \<le> lo \<Longrightarrow> holds_tree other t l v tr"
proof (induction rule: holds_tree.induct)
  case (tree_items b ts)
  have "list_all2 (holds_tree other t l) (slots_at (js t) b) ts"
    using tree_items(3) by (rule list.rel_mono_strong) (use tree_items(4) in blast)
  then show ?case using tree_items by (intro holds_tree.tree_items) auto
next
  case (tree_fields a kts)
  have "list_all2 (\<lambda>e kt. entry_key e = Some (fst kt) \<and> entry_key_value e = None \<and> holds_tree other t l (entry_value e) (snd kt))
      (entries_at (js t) a) kts"
    using tree_fields(7) by (rule list.rel_mono_strong) (use tree_fields(8) in blast)
  then show ?case using tree_fields by (intro holds_tree.tree_fields) auto
qed (auto intro: holds_tree.intros)

section \<open>The loops of the copy\<close>

text \<open>What the copy of one value does.\<close>

definition copies :: "(nat \<Rightarrow> bool) \<Rightarrow> clone_result \<Rightarrow> byte_state \<Rightarrow> tree \<Rightarrow> bool" where
  "copies other r t tr \<longleftrightarrow> (\<exists>w t'. r = (True, w, t') \<and> keeps UNIV t t' \<and> holds_tree other t' (next_address (js t)) (Some w) tr)"

lemma slot_written:
  "keeps (- {c}) t (put_slot t c w)" "slots_at (js (put_slot t c w)) c = slots_at (js t) c @ [Some w]"
  by (simp_all add: put_slot_def keeps_def array_set_beyond) (simp add: array_write_def entries_at_def)

lemma field_written:
  assumes "\<forall>e \<in> set (entries_at (js t) c). entry_key e \<noteq> Some k"
  shows "keeps (- {c}) t (put_field t c (VString k) w)"
    and "entries_at (js (put_field t c (VString k) w)) c = entries_at (js t) c @ [new_entry (VString k) w]"
  using assms unfolding put_field_def object_set_def [symmetric] by (simp_all add: keeps_def member_set)

lemma clone_slots_tree:
  assumes "list_all2 (\<lambda>v tr. \<forall>t1. keeps UNIV t t1 \<longrightarrow> fresh_above other t1 \<longrightarrow> copies other (f v t1) t1 tr) vs trs"
    and "keeps UNIV t t1" and "next_address (js t) \<le> c" and "c < next_address (js t1)" and "fresh_above other t1"
    and "list_all2 (holds_tree other t1 (Suc c)) (slots_at (js t1) c) done"
  shows "\<exists>t2. clone_slots f c vs t1 = (True, t2) \<and> keeps (- {c}) t1 t2
    \<and> list_all2 (holds_tree other t2 (Suc c)) (slots_at (js t2) c) (done @ trs)"
  using assms
proof (induction arbitrary: t1 "done" rule: list_all2_induct)
  case Nil
  then show ?case by (simp add: keeps_refl)
next
  case (Cons v vs tr trs)
  obtain w t2 where f: "f v t1 = (True, w, t2)" and t2: "keeps UNIV t1 t2" "holds_tree other t2 (next_address (js t1)) (Some w) tr"
    using Cons.hyps(1) Cons.prems(1,4) unfolding copies_def by blast
  define t3 where "t3 = put_slot t2 c w"
  have c: "c < next_address (js t2)" using Cons.prems(3) t2(1) by (simp add: keeps_def)
  note pushed = slot_written [where t = t2 and c = c and w = w, folded t3_def]
  have t13: "keeps (- {c}) t1 t3" using t2(1) pushed(1) by (blast intro: keeps_trans keeps_sub)
  have slots: "slots_at (js t3) c = slots_at (js t1) c @ [Some w]"
    using pushed(2) t2(1) Cons.prems(3) by (simp add: keeps_def)
  have "list_all2 (holds_tree other t3 (Suc c)) (slots_at (js t1) c) done"
    using Cons.prems(5) by (rule list.rel_mono_strong) (auto elim!: holds_tree_keeps intro: keeps_sub [OF t13])
  moreover have "holds_tree other t3 (Suc c) (Some w) tr"
    by (rule holds_tree_keeps [OF holds_tree_lower [OF t2(2)]]) (use Cons.prems(3) in \<open>auto intro: keeps_sub [OF pushed(1)]\<close>)
  ultimately have "list_all2 (holds_tree other t3 (Suc c)) (slots_at (js t3) c) (done @ [tr])"
    by (simp add: slots list_all2_appendI)
  moreover have "keeps UNIV t t3" by (rule keeps_new [OF Cons.prems(2)]) (use Cons.prems(1) t13 in \<open>blast intro: keeps_trans keeps_sub\<close>)
  moreover have "c < next_address (js t3)" "fresh_above other t3"
    using Cons.prems(3) t13 keeps_fresh [OF t13 Cons.prems(4)] by (simp_all add: keeps_def)
  ultimately obtain t4 where "clone_slots f c vs t3 = (True, t4)" "keeps (- {c}) t3 t4"
    "list_all2 (holds_tree other t4 (Suc c)) (slots_at (js t4) c) ((done @ [tr]) @ trs)"
    using Cons.IH [of t3 "done @ [tr]"] Cons.prems(2) by blast
  then show ?case using keeps_trans [OF t13] by (simp add: f t3_def [symmetric] Let_def)
qed

text \<open>The entry for a field.\<close>

definition field_entry :: "(jayess_value option \<Rightarrow> tree \<Rightarrow> bool) \<Rightarrow> jayess_object_entry \<Rightarrow> string \<times> tree \<Rightarrow> bool" where
  "field_entry P e kt \<longleftrightarrow> entry_key e = Some (fst kt) \<and> entry_key_value e = None \<and> P (entry_value e) (snd kt)"

lemma field_entries_mono:
  "list_all2 (field_entry P) es kts \<Longrightarrow> (\<And>v tr. P v tr \<Longrightarrow> Q v tr) \<Longrightarrow> list_all2 (field_entry Q) es kts"
  by (erule list.rel_mono_strong) (simp add: field_entry_def)

lemma field_entry_keys: "list_all2 (field_entry P) es kts \<Longrightarrow> entry_key ` set es = Some ` fst ` set kts"
  by (induction rule: list_all2_induct) (auto simp: field_entry_def)

lemma clone_entries_tree:
  assumes "list_all2 (field_entry (\<lambda>v tr. \<forall>t1. keeps UNIV t t1 \<longrightarrow> fresh_above other t1 \<longrightarrow> copies other (f v t1) t1 tr)) es kts"
    and "keeps UNIV t t1" and "next_address (js t) \<le> c" and "c < next_address (js t1)" and "fresh_above other t1"
    and "list_all2 (field_entry (holds_tree other t1 (Suc c))) (entries_at (js t1) c) done"
    and "distinct (map fst (done @ kts))"
  shows "\<exists>t2. clone_entries f c es t1 = (True, t2) \<and> keeps (- {c}) t1 t2
    \<and> list_all2 (field_entry (holds_tree other t2 (Suc c))) (entries_at (js t2) c) (done @ kts)"
  using assms
proof (induction arbitrary: t1 "done" rule: list_all2_induct)
  case Nil
  then show ?case by (simp add: keeps_refl)
next
  case (Cons e es kt kts)
  obtain k tr where kt: "kt = (k, tr)" by fastforce
  have e: "entry_key e = Some k" "entry_key_value e = None" using Cons.hyps(1) by (simp_all add: field_entry_def kt)
  obtain w t2 where f: "f (entry_value e) t1 = (True, w, t2)" and t2: "keeps UNIV t1 t2" "holds_tree other t2 (next_address (js t1)) (Some w) tr"
    using Cons.hyps(1) Cons.prems(1,4) unfolding copies_def field_entry_def kt snd_conv by blast
  define t3 where "t3 = put_field t2 c (VString k) w"
  have same: "entries_at (js t2) c = entries_at (js t1) c" using t2(1) Cons.prems(3) by (simp add: keeps_def)
  have "Some k \<notin> entry_key ` set (entries_at (js t1) c)"
    using field_entry_keys [OF Cons.prems(5)] Cons.prems(6) by (auto simp: kt)
  then have absent: "\<forall>e \<in> set (entries_at (js t2) c). entry_key e \<noteq> Some k" unfolding same by (metis imageI)
  note written = field_written [OF absent, of w, folded t3_def]
  have t13: "keeps (- {c}) t1 t3" using t2(1) written(1) by (blast intro: keeps_trans keeps_sub)
  have "list_all2 (field_entry (holds_tree other t3 (Suc c))) (entries_at (js t1) c) done"
    by (rule field_entries_mono [OF Cons.prems(5)]) (auto elim!: holds_tree_keeps intro: keeps_sub [OF t13])
  moreover have "holds_tree other t3 (Suc c) (Some w) tr"
    by (rule holds_tree_keeps [OF holds_tree_lower [OF t2(2)]]) (use Cons.prems(3) in \<open>auto intro: keeps_sub [OF written(1)]\<close>)
  ultimately have "list_all2 (field_entry (holds_tree other t3 (Suc c))) (entries_at (js t3) c) (done @ [kt])"
    by (simp add: written(2) same list_all2_appendI field_entry_def kt new_entry_def)
  moreover have "keeps UNIV t t3" by (rule keeps_new [OF Cons.prems(2)]) (use Cons.prems(1) t13 in \<open>blast intro: keeps_trans keeps_sub\<close>)
  moreover have "c < next_address (js t3)" "fresh_above other t3"
    using Cons.prems(3) t13 keeps_fresh [OF t13 Cons.prems(4)] by (simp_all add: keeps_def)
  ultimately obtain t4 where "clone_entries f c es t3 = (True, t4)" "keeps (- {c}) t3 t4"
    "list_all2 (field_entry (holds_tree other t4 (Suc c))) (entries_at (js t4) c) ((done @ [kt]) @ kts)"
    using Cons.IH [of t3 "done @ [kt]"] Cons.prems(2,6) by force
  then show ?case using keeps_trans [OF t13] by (simp add: f e t3_def [symmetric] Let_def)
qed

section \<open>The copy of plain data\<close>

lemma object_kind_field:
  assumes "list_all2 (field_entry (holds_tree other t lo)) (entries_at (js t) a) kts" and "\<not> special kts"
  shows "\<not> jayess_std_kind_is (js t) (Some (VObject a)) ''SharedArrayBuffer''"
    and "\<not> jayess_std_kind_is (js t) (Some (VObject a)) ''DataView''" and "\<not> jayess_std_is_typed_array (js t) (Some (VObject a))"
proof -
  have get: "\<exists>tr. map_of kts key = Some tr \<and> holds_tree other t lo (Some v) tr" if "jayess_object_get es key = Some v"
    "list_all2 (field_entry (holds_tree other t lo)) es kts" for es kts key v
    using that(2,1)
  proof (induction rule: list_all2_induct)
    case (Cons e es kt kts)
    then show ?case
      by (auto simp: jayess_object_get_def jayess_object_get_key_value_def field_entry_def jayess_object_entry_matches_string_def split: if_splits)
  qed (simp add: jayess_object_get_def jayess_object_get_key_value_def)
  have "k \<noteq> ''SharedArrayBuffer'' \<and> k \<noteq> ''DataView'' \<and> \<not> jayess_std_is_typed_array_kind k"
    if got: "object_get (js t) a ''__jayess_std_kind'' = Some (VString k)" for k
  proof -
    obtain tr where tr: "map_of kts ''__jayess_std_kind'' = Some tr" "holds_tree other t lo (Some (VString k)) tr"
      using get [OF got [unfolded object_get_def] assms(1)] by blast
    have "tr = Leaf (VString k)" using tr(2) by (cases rule: holds_tree.cases) simp_all
    then show ?thesis using assms(2) tr(1) by (auto simp: special_def)
  qed
  then show "\<not> jayess_std_kind_is (js t) (Some (VObject a)) ''SharedArrayBuffer''"
    "\<not> jayess_std_kind_is (js t) (Some (VObject a)) ''DataView''" "\<not> jayess_std_is_typed_array (js t) (Some (VObject a))"
    by (auto simp: jayess_std_kind_is_def jayess_std_is_typed_array_def jayess_std_typed_array_kind_def object_kind_def
        split: option.splits jayess_value.splits if_splits)
qed

lemma array_new_keeps:
  "jayess_array_new (js t) = (c, s1) \<Longrightarrow> c = next_address (js t) \<and> keeps UNIV t (t\<lparr>js := s1\<rparr>)
   \<and> slots_at s1 c = [] \<and> next_address s1 = Suc c"
  by (auto simp: jayess_array_new_def keeps_def slots_at_def entries_at_def)

lemma object_new_keeps:
  "jayess_object_new (js t) = (c, s1) \<Longrightarrow> c = next_address (js t) \<and> keeps UNIV t (t\<lparr>js := s1\<rparr>)
   \<and> entries_at s1 c = [] \<and> next_address s1 = Suc c"
  by (auto simp: jayess_object_new_def keeps_def slots_at_def entries_at_def)

lemma tree_fields_entries:
  "holds_tree other t lo (Some (VObject a)) (Fields kts) \<Longrightarrow> list_all2 (field_entry (holds_tree other t lo)) (entries_at (js t) a) kts"
  by (erule tree_FieldsE) (simp add: field_entry_def [abs_def])

lemma clone_copies:
  "holds_tree other t 0 v tr \<Longrightarrow> fresh_above other t \<Longrightarrow> depth + height tr \<le> 64
   \<Longrightarrow> copies other (jayess_worker_clone_value other depth v t) t tr"
proof (induction tr arbitrary: v t depth)
  case (Leaf w)
  have depth: "\<not> 64 < depth" using Leaf.prems(3) by simp
  consider (null) "v = None" "w = VUndefined" | (leaf) "v = Some w" "scalar w" using Leaf.prems(1) by (auto elim: tree_LeafE)
  then show ?case
  proof cases
    case null
    have "jayess_worker_clone_value other depth None t = (True, VUndefined, t)"
      using depth by (simp add: jayess_worker_clone_value.simps [of other depth])
    moreover have "holds_tree other t (next_address (js t)) (Some VUndefined) (Leaf VUndefined)"
      by (rule tree_leaf) (simp add: scalar_def)
    ultimately show ?thesis using null by (auto simp: copies_def keeps_refl)
  next
    case leaf
    have "jayess_worker_clone_value other depth (Some w) t = (True, w, t)"
      using depth leaf(2) by (cases w) (simp_all add: jayess_worker_clone_value.simps [of other depth] scalar_def)
    then show ?thesis using leaf by (auto simp: copies_def keeps_refl intro: tree_leaf)
  qed
next
  case (Items ts)
  obtain b where v: "v = Some (VArray b)" and b: "b < next_address (js t)" "list_all2 (holds_tree other t 0) (slots_at (js t) b) ts"
    using Items.prems(1) by (auto elim: tree_ItemsE)
  obtain c s1 where new: "jayess_array_new (js t) = (c, s1)" by fastforce
  note c = array_new_keeps [OF new]
  let ?f = "\<lambda>w. jayess_worker_clone_value other (Suc depth) w"
  have each: "list_all2 (\<lambda>v tr. \<forall>t1. keeps UNIV t t1 \<longrightarrow> fresh_above other t1 \<longrightarrow> copies other (?f v t1) t1 tr) (slots_at (js t) b) ts"
    using b(2)
  proof (rule list.rel_mono_strong, intro allI impI)
    fix w tr t1
    assume tr: "tr \<in> set ts" "holds_tree other t 0 w tr" "keeps UNIV t t1" "fresh_above other t1"
    show "copies other (?f w t1) t1 tr"
      by (rule Items.IH [OF tr(1) holds_tree_keeps [OF tr(2)] tr(4)])
        (use tr(3) Items.prems(3) height_item [OF tr(1)] in \<open>auto intro: keeps_sub\<close>)
  qed
  obtain t2 where t2: "clone_slots ?f c (slots_at (js t) b) (t\<lparr>js := s1\<rparr>) = (True, t2)" "keeps (- {c}) (t\<lparr>js := s1\<rparr>) t2"
    "list_all2 (holds_tree other t2 (Suc c)) (slots_at (js t2) c) ts"
    using clone_slots_tree [OF each, of "t\<lparr>js := s1\<rparr>" c "[]"] c keeps_fresh [of UNIV t "t\<lparr>js := s1\<rparr>" other] Items.prems(2) by auto
  have "jayess_worker_clone_value other depth v t = (True, VArray c, t2)"
    using Items.prems(3) t2(1) by (simp add: v jayess_worker_clone_value.simps [of other depth] new)
  moreover have "keeps UNIV t t2" by (rule keeps_new [of t c]) (use c t2(2) in \<open>auto intro: keeps_trans keeps_sub\<close>)
  moreover have "holds_tree other t2 (next_address (js t)) (Some (VArray c)) (Items ts)"
  proof (rule tree_items)
    show "list_all2 (holds_tree other t2 (next_address (js t))) (slots_at (js t2) c) ts"
      using t2(3) by (rule list.rel_mono_strong) (use c in \<open>auto elim!: holds_tree_lower\<close>)
  qed (use c t2(2) in \<open>auto simp: keeps_def\<close>)
  ultimately show ?case by (auto simp: copies_def)
next
  case (Fields kts)
  obtain a where v: "v = Some (VObject a)" and a: "a < next_address (js t)" "native t a = None" "\<not> other a" "\<not> special kts" "distinct (map fst kts)"
    using Fields.prems(1) by (auto elim: tree_FieldsE)
  note fields = tree_fields_entries [OF Fields.prems(1) [unfolded v]]
  obtain c s1 where new: "jayess_object_new (js t) = (c, s1)" by fastforce
  note c = object_new_keeps [OF new]
  let ?f = "\<lambda>w. jayess_worker_clone_value other (Suc depth) w"
  have each: "list_all2 (field_entry (\<lambda>v tr. \<forall>t1. keeps UNIV t t1 \<longrightarrow> fresh_above other t1 \<longrightarrow> copies other (?f v t1) t1 tr))
      (entries_at (js t) a) kts"
    using fields
  proof (rule list.rel_mono_strong)
    fix e kt
    assume kt: "kt \<in> set kts" and entry: "field_entry (holds_tree other t 0) e kt"
    have "copies other (?f (entry_value e) t1) t1 (snd kt)" if "keeps UNIV t t1" "fresh_above other t1" for t1
    proof (rule Fields.IH [OF kt])
      show "holds_tree other t1 0 (entry_value e) (snd kt)"
        using entry that(1) by (auto simp: field_entry_def elim!: holds_tree_keeps intro: keeps_sub)
    qed (use that(2) Fields.prems(3) height_field [OF kt] in \<open>auto simp: snds.simps\<close>)
    then show "field_entry (\<lambda>v tr. \<forall>t1. keeps UNIV t t1 \<longrightarrow> fresh_above other t1 \<longrightarrow> copies other (?f v t1) t1 tr) e kt"
      using entry by (auto simp: field_entry_def)
  qed
  obtain t2 where t2: "clone_entries ?f c (entries_at (js t) a) (t\<lparr>js := s1\<rparr>) = (True, t2)" "keeps (- {c}) (t\<lparr>js := s1\<rparr>) t2"
    "list_all2 (field_entry (holds_tree other t2 (Suc c))) (entries_at (js t2) c) kts"
    using clone_entries_tree [OF each, of "t\<lparr>js := s1\<rparr>" c "[]"] c keeps_fresh [of UNIV t "t\<lparr>js := s1\<rparr>" other] Fields.prems(2) a(5) by auto
  have "jayess_worker_clone_value other depth v t = (True, VObject c, t2)"
    using Fields.prems(3) t2(1) object_kind_field [OF fields a(4)] a(2,3)
    by (simp add: v jayess_worker_clone_value.simps [of other depth] new)
  moreover have "keeps UNIV t t2" by (rule keeps_new [of t c]) (use c t2(2) in \<open>auto intro: keeps_trans keeps_sub\<close>)
  moreover have "holds_tree other t2 (next_address (js t)) (Some (VObject c)) (Fields kts)"
  proof (rule tree_fields)
    show "list_all2 (\<lambda>e kt. entry_key e = Some (fst kt) \<and> entry_key_value e = None
        \<and> holds_tree other t2 (next_address (js t)) (entry_value e) (snd kt)) (entries_at (js t2) c) kts"
      using t2(3) by (rule list.rel_mono_strong) (use c in \<open>auto simp: field_entry_def elim!: holds_tree_lower\<close>)
    show "native t2 c = None" "\<not> other c" using t2(2) c Fields.prems(2) by (auto simp: keeps_def fresh_above_def)
  qed (use c t2(2) a in \<open>auto simp: keeps_def\<close>)
  ultimately show ?case by (auto simp: copies_def)
qed

text \<open>
  C32. Plain data of at most 64 levels, whose values are scalars, arrays and objects with text keys, is copied: the
  result is the same tree and all its arrays and objects are new, and every old array and object is as it was.
\<close>

theorem worker_clone_copies:
  assumes "holds_tree other t 0 (Some v) tr" and "height tr \<le> 64"
    and "\<forall>a \<ge> next_address (js t). native t a = None \<and> \<not> other a"
  shows "\<exists>w t'. jayess_worker_clone_value other 0 (Some v) t = (True, w, t')
    \<and> holds_tree other t' (next_address (js t)) (Some w) tr
    \<and> (\<forall>a < next_address (js t). slots_at (js t') a = slots_at (js t) a \<and> entries_at (js t') a = entries_at (js t) a)"
  using clone_copies [of other t "Some v" tr 0] assms by (auto simp: copies_def keeps_def fresh_above_def)

text \<open>An array that holds an array, which is empty.\<close>

definition example_arrays :: byte_state where
  "example_arrays = \<lparr>js = initial_state\<lparr>arrays := [0 \<mapsto> [Some (VBool True), Some (VArray 2)], 2 \<mapsto> []], next_address := 3\<rparr>,
     native = (\<lambda>_. None)\<rparr>"

theorem worker_clone_copies_witness:
  "\<exists>w t'. jayess_worker_clone_value (\<lambda>_. False) 0 (Some (VArray 0)) example_arrays = (True, w, t')
    \<and> holds_tree (\<lambda>_. False) t' 3 (Some w) (Items [Leaf (VBool True), Items []])"
proof -
  have slots: "slots_at (js example_arrays) 0 = [Some (VBool True), Some (VArray 2)]" "slots_at (js example_arrays) 2 = []"
    "next_address (js example_arrays) = 3" "native example_arrays = (\<lambda>_. None)"
    by (simp_all add: example_arrays_def slots_at_def)
  have "holds_tree (\<lambda>_. False) example_arrays 0 (Some (VBool True)) (Leaf (VBool True))"
    by (rule tree_leaf) (simp add: scalar_def)
  moreover have "holds_tree (\<lambda>_. False) example_arrays 0 (Some (VArray 2)) (Items [])"
    by (rule tree_items) (simp_all add: slots)
  ultimately have "holds_tree (\<lambda>_. False) example_arrays 0 (Some (VArray 0)) (Items [Leaf (VBool True), Items []])"
    by (intro tree_items) (simp_all add: slots)
  from worker_clone_copies [OF this] show ?thesis by (auto simp: slots)
qed

text \<open>An array that contains itself cannot be copied.\<close>

lemma clone_cyclic_fails:
  "b < next_address (js t) \<Longrightarrow> slots_at (js t) b = [Some (VArray b)]
   \<Longrightarrow> \<not> fst (jayess_worker_clone_value other depth (Some (VArray b)) t)"
proof (induction "65 - depth" arbitrary: depth t)
  case 0
  then show ?case by (simp add: jayess_worker_clone_value.simps [of other depth])
next
  case (Suc n)
  obtain c s1 where new: "jayess_array_new (js t) = (c, s1)" by fastforce
  have "b < next_address s1" "slots_at s1 b = [Some (VArray b)]"
    using array_new_keeps [OF new] Suc.prems by (auto simp: keeps_def)
  then have "\<not> fst (jayess_worker_clone_value other (Suc depth) (Some (VArray b)) (t\<lparr>js := s1\<rparr>))"
    using Suc.hyps(1) [where depth = "Suc depth" and t = "t\<lparr>js := s1\<rparr>"] Suc.hyps(2) by simp
  then show ?case by (auto simp: jayess_worker_clone_value.simps [of other depth] new Suc.prems(2) split_beta)
qed

section \<open>The order of messages\<close>

text \<open>
  What the labels of a run say: the messages accepted (the copies made by the calls of \<open>postMessage\<close> that answered true),
  worked on, answered, received and given up.
\<close>

definition accepted :: "worker_label list \<Rightarrow> jayess_value list" where
  "accepted ls = concat (map (\<lambda>l. case l of Posted m r \<Rightarrow> if r = VBool True then [m] else [] | _ \<Rightarrow> []) ls)"

definition worked_on :: "worker_label list \<Rightarrow> jayess_value list" where
  "worked_on ls = concat (map (\<lambda>l. case l of Took m \<Rightarrow> [m] | _ \<Rightarrow> []) ls)"

definition answers :: "worker_label list \<Rightarrow> jayess_value list" where
  "answers ls = concat (map (\<lambda>l. case l of Answered e \<Rightarrow> [e] | _ \<Rightarrow> []) ls)"

definition received :: "worker_label list \<Rightarrow> jayess_value list" where
  "received ls = concat (map (\<lambda>l. case l of Received (Some m) \<Rightarrow> [m] | _ \<Rightarrow> []) ls)"

definition given_up :: "worker_label list \<Rightarrow> jayess_value list" where
  "given_up ls = concat (map (\<lambda>l. case l of Finished ms \<Rightarrow> ms | _ \<Rightarrow> []) ls)"

lemmas label_lists = accepted_def worked_on_def answers_def received_def given_up_def

lemma label_append:
  "accepted (ls @ ls') = accepted ls @ accepted ls'" "worked_on (ls @ ls') = worked_on ls @ worked_on ls'"
  "answers (ls @ ls') = answers ls @ answers ls'" "received (ls @ ls') = received ls @ received ls'"
  "given_up (ls @ ls') = given_up ls @ given_up ls'"
  by (simp_all add: label_lists)

lemma label_none: "accepted [] = []" "worked_on [] = []" "answers [] = []" "received [] = []" "given_up [] = []"
  by (simp_all add: label_lists)

lemma label_Cons:
  "accepted (l # ls) = (case l of Posted m r \<Rightarrow> if r = VBool True then [m] else [] | _ \<Rightarrow> []) @ accepted ls"
  "worked_on (l # ls) = (case l of Took m \<Rightarrow> [m] | _ \<Rightarrow> []) @ worked_on ls"
  "answers (l # ls) = (case l of Answered e \<Rightarrow> [e] | _ \<Rightarrow> []) @ answers ls"
  "received (l # ls) = (case l of Received (Some m) \<Rightarrow> [m] | _ \<Rightarrow> []) @ received ls"
  "given_up (l # ls) = (case l of Finished ms \<Rightarrow> ms | _ \<Rightarrow> []) @ given_up ls"
  by (simp_all add: label_lists)

lemmas label_simps = label_append label_none label_Cons

definition waiting :: "jayess_value option \<Rightarrow> nat" where
  "waiting m = (case m of None \<Rightarrow> 0 | Some _ \<Rightarrow> 1)"

definition orderly :: "worker_label list \<Rightarrow> worker \<Rightarrow> bool" where
  "orderly ls w \<longleftrightarrow> accepted ls = worked_on ls @ inbound w
     \<and> length (worked_on ls) = length (answers ls) + waiting (taken w)
     \<and> answers ls = received ls @ given_up ls @ outbound w
     \<and> (closed_flag w \<longrightarrow> terminate_requested w \<and> inbound w = [] \<and> taken w = None)
     \<and> (released w \<longrightarrow> closed_flag w \<and> outbound w = [])
     \<and> (\<not> released w \<longrightarrow> given_up ls = [])"

lemma post_cases:
  assumes "jayess_worker_clone_value other 0 message (heap w) = (ok, m, t0)"
    and "jayess_std_worker_post_message_method other w message = (r, w')"
  obtains (refused) t where "w' = w\<lparr>heap := t\<rparr>" "r \<noteq> VBool True"
  | (queued) t where "w' = w\<lparr>heap := t, inbound := inbound w @ [m]\<rparr>" "r = VBool True" "\<not> closed_flag w" "\<not> terminate_requested w"
    "\<not> released w"
proof -
  have same: "w = w\<lparr>heap := heap w\<rparr>" by simp
  show thesis
    using assms(2) refused [of "heap w"] refused queued
    by (auto simp: jayess_std_worker_post_message_method_def assms(1) jayess_worker_queue_push_def Let_def split: if_splits prod.splits)
qed

lemma orderly_step:
  assumes "orderly ls w" and "worker_step other code w l w'"
  shows "orderly (ls @ [l]) w'"
  using assms(2)
proof cases
  case (step_post message ok m t r)
  from step_post(2,3) show ?thesis
    by (cases rule: post_cases) (use assms(1) in \<open>auto simp: orderly_def label_simps step_post(1)\<close>)
next
  case (step_take m)
  then show ?thesis using assms(1)
    by (auto simp: thread_take_def jayess_worker_queue_pop_def orderly_def label_simps waiting_def split: if_splits list.splits)
next
  case (step_execute e)
  then show ?thesis using assms(1)
    by (auto simp: thread_execute_def jayess_worker_queue_push_def orderly_def label_simps waiting_def Let_def
        split: option.splits prod.splits)
next
  case step_end
  then show ?thesis using assms(1) by (auto simp: thread_end_def orderly_def label_simps split: if_splits)
next
  case (step_receive time_up m)
  then show ?thesis using assms(1)
    by (auto simp: jayess_std_worker_receive_method_def jayess_worker_queue_pop_def note_closed_def orderly_def label_simps
        split: if_splits list.splits)
next
  case step_request
  then show ?thesis using assms(1) by (auto simp: request_terminate_def orderly_def label_simps)
next
  case step_finish
  then show ?thesis using assms(1)
    by (auto simp: finish_terminate_def note_closed_def orderly_def label_simps split: if_splits)
qed

lemma orderly_run:
  assumes "worker_runs other code w0 ls w" and "jayess_std_worker_create t (Some (VFunction f)) = (v, t1, Some w0)"
  shows "orderly ls w"
  using assms
proof (induction rule: worker_runs.induct)
  case (runs_none w)
  then show ?case by (auto simp: jayess_std_worker_create_def orderly_def label_simps waiting_def Let_def split: prod.splits)
qed (blast intro: orderly_step)

text \<open>
  C33. Whatever the interleaving of the owner and the thread of a new worker: call a message accepted when \<open>postMessage\<close>
  answered true for it; what is accepted is the copy that was made of it. The accepted messages are, in the order of the
  calls, those the thread has taken and then those that still wait, each exactly once; there is one answer for each
  message worked on, and the answers were received in their order, or are still in the queue, or were given up when the
  worker was released; and the thread does not end while an accepted message is unanswered. One call of the handler is
  one step; the steps before it returns and a handler that never returns are not among the runs.
\<close>

theorem worker_fifo:
  assumes "jayess_std_worker_create t (Some (VFunction f)) = (v, t1, Some w0)" and "worker_runs other code w0 ls w"
  shows "accepted ls = worked_on ls @ inbound w
    \<and> length (worked_on ls) = length (answers ls) + waiting (taken w)
    \<and> answers ls = received ls @ given_up ls @ outbound w
    \<and> (closed_flag w \<longrightarrow> worked_on ls = accepted ls \<and> length (answers ls) = length (accepted ls))"
  using orderly_run [OF assms(2,1)] by (auto simp: orderly_def waiting_def)

section \<open>Termination\<close>

lemma runs_trans: "worker_runs other code w' ls' u \<Longrightarrow> worker_runs other code w ls w' \<Longrightarrow> worker_runs other code w (ls @ ls') u"
proof (induction rule: worker_runs.induct)
  case (runs_step w' ls' u l u')
  then show ?case using worker_runs.runs_step by fastforce
qed simp

definition thread_label :: "worker_label \<Rightarrow> bool" where
  "thread_label l \<longleftrightarrow> (case l of Took m \<Rightarrow> True | Answered e \<Rightarrow> True | Ended \<Rightarrow> True | _ \<Rightarrow> False)"

lemma thread_executes:
  assumes "taken w = Some m"
  obtains e w' where "worker_step other code w (Answered e) w'" "taken w' = None" "inbound w' = inbound w"
    "terminate_requested w' = terminate_requested w" "closed_flag w' = closed_flag w"
proof -
  obtain e t1 where "jayess_worker_execute_message other code (handler w) m ((heap w)\<lparr>js := enter_thread (own w) (js (heap w))\<rparr>) = (e, t1)"
    by fastforce
  then have "\<exists>w'. thread_execute other code w = Some (e, w') \<and> taken w' = None \<and> inbound w' = inbound w
      \<and> terminate_requested w' = terminate_requested w \<and> closed_flag w' = closed_flag w"
    using assms by (simp add: thread_execute_def Let_def)
  then show thesis using that step_execute by metis
qed

lemma thread_works_off:
  "terminate_requested w \<Longrightarrow> \<not> closed_flag w \<Longrightarrow> taken w = None \<Longrightarrow>
   \<exists>ls w'. worker_runs other code w ls w' \<and> list_all thread_label ls \<and> closed_flag w' \<and> worked_on ls = inbound w
     \<and> length (answers ls) = length (inbound w)"
proof (induction "inbound w" arbitrary: w)
  case Nil
  let ?w = "w\<lparr>closed_flag := True\<rparr>"
  have "thread_end w = Some ?w" using Nil by (simp add: thread_end_def)
  then have "worker_runs other code w ([] @ [Ended]) ?w" using runs_none by (intro runs_step) (auto intro: step_end)
  then show ?case using Nil.hyps by (intro exI [of _ "[Ended]"] exI [of _ ?w]) (simp add: thread_label_def label_simps)
next
  case (Cons m ms)
  define w1 where "w1 = w\<lparr>inbound := ms, taken := Some m\<rparr>"
  have "thread_take w = Some w1" using Cons by (simp add: thread_take_def jayess_worker_queue_pop_def w1_def flip: Cons.hyps(2))
  then have took: "worker_step other code w (Took m) w1" by (rule step_take) (simp add: w1_def)
  obtain e w2 where w2: "worker_step other code w1 (Answered e) w2" "taken w2 = None" "inbound w2 = ms"
    "terminate_requested w2" "\<not> closed_flag w2"
    using thread_executes [of w1 m other code] Cons.prems by (auto simp: w1_def)
  obtain ls w' where rest: "worker_runs other code w2 ls w'" "list_all thread_label ls" "closed_flag w'" "worked_on ls = ms"
    "length (answers ls) = length ms"
    using Cons.hyps(1) [of w2] w2 by auto
  have "worker_runs other code w (([] @ [Took m]) @ [Answered e]) w2"
    by (rule runs_step [OF runs_step [OF runs_none took] w2(1)])
  then have "worker_runs other code w ([Took m, Answered e] @ ls) w'" using runs_trans [OF rest(1)] by fastforce
  moreover have "list_all thread_label ([Took m, Answered e] @ ls)" using rest(2) by (simp add: thread_label_def)
  moreover have "worked_on ([Took m, Answered e] @ ls) = inbound w" "length (answers ([Took m, Answered e] @ ls)) = length (inbound w)"
    using rest(4,5) by (simp_all add: label_simps flip: Cons.hyps(2))
  ultimately show ?case using rest(3) by blast
qed

text \<open>
  C34. Provided that every call of the handler returns (the model has total handlers only; in the code \<open>terminate\<close> waits
  for the thread for ever when one does not): after a request to terminate, wherever the run stands, the thread alone can
  go on until it has ended; then every message for which \<open>postMessage\<close> ever answered true has been worked on and
  answered, \<open>postMessage\<close> answers false from then on, and the owner can finish.
\<close>

theorem terminate_drains:
  assumes "jayess_std_worker_create t (Some (VFunction f)) = (v, t1, Some w0)" and "worker_runs other code w0 ls w"
    and "terminate_requested w"
  shows "\<exists>ls' w'. worker_runs other code w ls' w' \<and> list_all thread_label ls' \<and> closed_flag w'
    \<and> worked_on (ls @ ls') = accepted ls \<and> length (answers (ls @ ls')) = length (accepted ls)
    \<and> fst (jayess_std_worker_post_message_method other w' message) = VBool False
    \<and> (released w' \<or> finish_terminate w' \<noteq> None)"
proof -
  note order = orderly_run [OF assms(2,1), unfolded orderly_def]
  have "\<exists>ls' w'. worker_runs other code w ls' w' \<and> list_all thread_label ls' \<and> closed_flag w'
      \<and> worked_on (ls @ ls') = accepted ls \<and> length (answers (ls @ ls')) = length (accepted ls)"
  proof (cases "closed_flag w")
    case True
    then show ?thesis using order runs_none [of other code w]
      by (intro exI [of _ "[]"] exI [of _ w]) (simp add: waiting_def)
  next
    case still_open: False
    show ?thesis
    proof (cases "taken w")
      case None
      obtain ls' w' where "worker_runs other code w ls' w'" "list_all thread_label ls'" "closed_flag w'" "worked_on ls' = inbound w"
        "length (answers ls') = length (inbound w)"
        using thread_works_off [OF assms(3) still_open None] by blast
      then show ?thesis using order None by (intro exI [of _ ls'] exI [of _ w']) (simp add: label_simps waiting_def)
    next
      case (Some m)
      obtain e w2 where w2: "worker_step other code w (Answered e) w2" "taken w2 = None" "inbound w2 = inbound w"
        "terminate_requested w2" "\<not> closed_flag w2"
        using thread_executes [OF Some, of other code] assms(3) still_open by metis
      obtain ls' w' where rest: "worker_runs other code w2 ls' w'" "list_all thread_label ls'" "closed_flag w'" "worked_on ls' = inbound w2"
        "length (answers ls') = length (inbound w2)"
        using thread_works_off [OF w2(4,5,2)] by blast
      have "worker_runs other code w (([] @ [Answered e]) @ ls') w'"
        by (rule runs_trans [OF rest(1) runs_step [OF runs_none w2(1)]])
      then show ?thesis using rest order Some w2(3)
        by (intro exI [of _ "Answered e # ls'"] exI [of _ w']) (simp add: label_simps waiting_def thread_label_def)
    qed
  qed
  then show ?thesis by (force simp: jayess_std_worker_post_message_method_def finish_terminate_def)
qed

text \<open>A worker to which a message is posted, and which is then told to terminate.\<close>

definition new_worker :: worker where
  "new_worker = the (snd (snd (jayess_std_worker_create example_arrays (Some (VFunction 4)))))"

lemma new_worker_created:
  "jayess_std_worker_create example_arrays (Some (VFunction 4)) = (VObject 3, heap new_worker, Some new_worker)"
  "\<not> released new_worker" "\<not> closed_flag new_worker" "\<not> terminate_requested new_worker" "inbound new_worker = []"
  by (simp_all add: new_worker_def jayess_std_worker_create_def example_arrays_def Let_def split: prod.split)
    (simp_all add: jayess_object_new_def)

lemma message_posted:
  "\<exists>w. worker_runs (\<lambda>_. False) (\<lambda>c args s. (None, s)) new_worker [Posted (VBool True) (VBool True)] w
    \<and> inbound w = [VBool True] \<and> \<not> terminate_requested w \<and> \<not> released w"
proof -
  define w where "w = new_worker\<lparr>inbound := [VBool True]\<rparr>"
  have clone: "jayess_worker_clone_value (\<lambda>_. False) 0 (Some (VBool True)) t = (True, VBool True, t)" for t
    by (simp add: jayess_worker_clone_value.simps [of _ 0])
  then have "jayess_std_worker_post_message_method (\<lambda>_. False) new_worker (Some (VBool True)) = (VBool True, w)"
    using new_worker_created(2-5) by (simp add: jayess_std_worker_post_message_method_def jayess_worker_queue_push_def w_def)
  from step_post [OF clone this, of "\<lambda>c args s. (None, s)"]
  have "worker_runs (\<lambda>_. False) (\<lambda>c args s. (None, s)) new_worker ([] @ [Posted (VBool True) (VBool True)]) w"
    by (intro runs_step [OF runs_none]) (simp add: new_worker_created(5) w_def)
  then show ?thesis using new_worker_created(2,4) by (auto simp: w_def)
qed

theorem worker_fifo_witness:
  "\<exists>ls w. worker_runs (\<lambda>_. False) (\<lambda>c args s. (None, s)) new_worker ls w \<and> inbound w = [VBool True]
    \<and> accepted ls = worked_on ls @ inbound w"
proof -
  obtain w where w: "worker_runs (\<lambda>_. False) (\<lambda>c args s. (None, s)) new_worker [Posted (VBool True) (VBool True)] w"
    "inbound w = [VBool True]"
    using message_posted by blast
  from worker_fifo [OF new_worker_created(1) w(1)] w show ?thesis by blast
qed

theorem terminate_drains_witness:
  "\<exists>ls ls' w w'. accepted ls = [VBool True] \<and> terminate_requested w
    \<and> worker_runs (\<lambda>_. False) (\<lambda>c args s. (None, s)) w ls' w' \<and> closed_flag w' \<and> worked_on (ls @ ls') = [VBool True]"
proof -
  let ?p = "Posted (VBool True) (VBool True)"
  obtain w where w: "worker_runs (\<lambda>_. False) (\<lambda>c args s. (None, s)) new_worker [?p] w"
    "\<not> terminate_requested w" "\<not> released w"
    using message_posted by blast
  have asked: "worker_runs (\<lambda>_. False) (\<lambda>c args s. (None, s)) new_worker ([?p] @ [Requested]) (request_terminate w)"
    by (rule runs_step [OF w(1) step_request [OF w(2)]])
  have "terminate_requested (request_terminate w)" using w(3) by (simp add: request_terminate_def)
  moreover have "accepted ([?p] @ [Requested]) = [VBool True]" by (simp add: accepted_def)
  ultimately show ?thesis using terminate_drains [OF new_worker_created(1) asked] by metis
qed

end
