(* ===== verification/Http_Body.thy ===== *)
theory Http_Body
  imports Sockets Listeners
begin

unbundle bit_operations_syntax

text \<open>
  Streams of HTTP bodies (\<open>jayess_runtime_network.c\<close>): a body is read piece by piece, from the bytes that came with
  the headers and then from the socket, plain, by length or in the chunked coding. What \<open>recv\<close> gives is a parameter,
  and so is what a freed text reads as, since the code looks at one. TLS and the Windows client are not modelled, and
  events are recorded, not delivered.
\<close>

section \<open>Reading lines from bytes\<close>

text \<open>
  The readers are over a function \<open>rd\<close> that reads at most so many bytes: none, when the source has ended, \<open>None\<close> when
  it failed. They answer \<open>None\<close> when the source never ends.
\<close>

type_synonym 's byte_reader = "'s \<Rightarrow> nat \<Rightarrow> string option \<times> 's"

definition strip_cr :: "string \<Rightarrow> string" where
  "strip_cr line = (if line \<noteq> [] \<and> last line = CHR 0x0D then butlast line else line)"

definition got :: "string option \<Rightarrow> string" where
  "got r = (case r of None \<Rightarrow> [] | Some p \<Rightarrow> p)"

partial_function (option) read_line :: "'s byte_reader \<Rightarrow> 's \<Rightarrow> string \<Rightarrow> (string option \<times> 's) option" where
  "read_line rd b line =
     (let r = rd b 1; p = got (fst r)
      in if p = [] then Some (None, snd r)
         else if hd p = CHR 0x0A then Some (Some (strip_cr line), snd r)
         else read_line rd (snd r) (line @ [hd p]))"

partial_function (option) read_trailer :: "'s byte_reader \<Rightarrow> 's \<Rightarrow> (bool \<times> 's) option" where
  "read_trailer rd b =
     Option.bind (read_line rd b [])
       (\<lambda>r. if fst r = None then Some (False, snd r)
            else if c_text (got (fst r)) = [] then Some (True, snd r)
            else read_trailer rd (snd r))"

definition consume_crlf :: "'s byte_reader \<Rightarrow> 's \<Rightarrow> bool \<times> 's" where
  "consume_crlf rd b =
     (let (r, b1) = rd b 1
      in case got r of
           [] \<Rightarrow> (False, b1)
         | c # _ \<Rightarrow>
             if c = CHR 0x0A then (True, b1)
             else if c = CHR 0x0D then (let (r2, b2) = rd b1 1 in (got r2 \<noteq> [] \<and> hd (got r2) = CHR 0x0A, b2))
             else (False, b1))"

text \<open>
  The loop that fills a buffer, what it has read and how it ended; a reader gives at most as many bytes as it is asked
  for.
\<close>

datatype fill_status = Filled | Source_Failed | Source_Ended

function read_data :: "'s byte_reader \<Rightarrow> 's \<Rightarrow> string \<Rightarrow> nat \<Rightarrow> fill_status \<times> string \<times> 's" where
  "read_data rd b acc n =
     (if n = 0 then (Filled, acc, b)
      else (let (r, b1) = rd b n
            in if r = None then (Source_Failed, acc, b1)
               else if got r = [] then (Source_Ended, acc, b1)
               else read_data rd b1 (acc @ got r) (n - length (got r))))"
  by auto

termination read_data
  by (relation "measure (\<lambda>(rd, b, acc, n). n)") (auto simp: got_def split: option.splits)

declare read_data.simps [simp del]

section \<open>The stream\<close>

datatype body_event = Ev_End | Ev_Body_Error string

datatype recv_result = Arrived string | Ended_By_Peer | Recv_Failed

text \<open>What \<open>recv\<close> gives, from what it has given before and the size of the buffer.\<close>

type_synonym incoming = "string \<Rightarrow> nat \<Rightarrow> recv_result"

text \<open>
  \<open>via_socket\<close> says whether the stream was made from a socket object, which it still has; \<open>own_handle\<close> whether its own
  copy of the handle is valid. \<open>closes\<close> counts how often the handle was closed.
\<close>

record body_stream =
  prebuffer :: string
  prebuffer_offset :: nat
  via_socket :: bool
  own_handle :: bool
  closes :: nat
  arrived :: string
  body_chunked :: bool
  body_remaining :: double
  chunk_remaining :: double
  chunk_finished :: bool
  readable_ended :: bool
  body_errored :: bool
  body_events :: "body_event list"

definition jayess_http_body_stream_mark_ended :: "body_stream \<Rightarrow> body_stream" where
  "jayess_http_body_stream_mark_ended b = b\<lparr>readable_ended := True\<rparr>"

definition jayess_http_body_stream_close_socket :: "body_stream \<Rightarrow> body_stream" where
  "jayess_http_body_stream_close_socket b =
     (if via_socket b then b\<lparr>via_socket := False, closes := closes b + 1\<rparr>
      else if own_handle b then b\<lparr>own_handle := False, closes := closes b + 1\<rparr> else b)"

definition note_body :: "body_stream \<Rightarrow> body_event \<Rightarrow> body_stream" where
  "note_body b e = b\<lparr>body_events := body_events b @ [e]\<rparr>"

definition body_error :: "body_stream \<Rightarrow> string \<Rightarrow> body_stream" where
  "body_error b message = note_body (b\<lparr>body_errored := True\<rparr>) (Ev_Body_Error message)"

definition jayess_http_body_stream_emit_end :: "body_stream \<Rightarrow> body_stream" where
  "jayess_http_body_stream_emit_end b =
     note_body (jayess_http_body_stream_close_socket (jayess_http_body_stream_mark_ended b)) Ev_End"

definition jayess_http_body_stream_take_prebuffer :: "body_stream \<Rightarrow> nat \<Rightarrow> string \<times> body_stream" where
  "jayess_http_body_stream_take_prebuffer b n =
     (let p = take n (drop (prebuffer_offset b) (prebuffer b)) in (p, b\<lparr>prebuffer_offset := prebuffer_offset b + length p\<rparr>))"

text \<open>Reading from a handle that was closed fails.\<close>

definition jayess_http_body_stream_read_raw :: "incoming \<Rightarrow> body_stream byte_reader" where
  "jayess_http_body_stream_read_raw net b n =
     (if n = 0 then (None, b)
      else (let (p, b1) = jayess_http_body_stream_take_prebuffer b n
            in if p \<noteq> [] then (Some p, b1)
               else if \<not> own_handle b then (Some [], b)
               else (case (if closes b = 0 then net (arrived b) n else Recv_Failed) of
                       Recv_Failed \<Rightarrow>
                         (None, jayess_http_body_stream_mark_ended (jayess_http_body_stream_close_socket
                                  (body_error b ''failed to read from HTTP body stream'')))
                     | Ended_By_Peer \<Rightarrow> (Some [], jayess_http_body_stream_close_socket b)
                     | Arrived q \<Rightarrow>
                         if take n q = [] then (Some [], jayess_http_body_stream_close_socket b)
                         else (Some (take n q), b\<lparr>arrived := arrived b @ take n q\<rparr>))))"

section \<open>Reading a piece\<close>

datatype body_read = Read_Null | Read_Undefined | Read_Data string

text \<open>By length; a negative length reads what there is.\<close>

definition jayess_http_body_stream_read_non_chunked :: "incoming \<Rightarrow> body_stream \<Rightarrow> int \<Rightarrow> body_read \<times> body_stream" where
  "jayess_http_body_stream_read_non_chunked net b requested =
     (let remaining = c_int64 (body_remaining b);
          rd = jayess_http_body_stream_read_raw net
      in if remaining = 0 then (Read_Null, jayess_http_body_stream_emit_end b)
         else if remaining < 0
         then (let (r, b1) = rd b (nat requested)
               in case r of
                    None \<Rightarrow> (Read_Undefined, b1)
                  | Some p \<Rightarrow> if p = [] then (Read_Null, jayess_http_body_stream_emit_end b1) else (Read_Data p, b1))
         else (let n = nat (if requested > remaining then remaining else requested);
                   (status, p, b1) = read_data rd b [] n
               in case status of
                    Source_Failed \<Rightarrow> (Read_Undefined, b1)
                  | Source_Ended \<Rightarrow> (Read_Undefined, body_error b1 ''HTTP body stream ended before expected Content-Length'')
                  | Filled \<Rightarrow>
                      (let left = remaining - int (length p); b2 = b1\<lparr>body_remaining := dbl_of_int left\<rparr>
                       in (Read_Data p,
                           if left = 0
                           then note_body (jayess_http_body_stream_close_socket (jayess_http_body_stream_mark_ended b2)) Ev_End
                           else b2))))"

text \<open>
  The size of the next chunk. The text of the size is freed before the character at the end of the number is looked
  at; \<open>freed\<close> says whether what was the rest of the text reads as its end.
\<close>

datatype next_chunk = Blank_Line | Bad_Chunk string | Last_Chunk | Chunk_Size int

definition next_chunk_size :: "(string \<Rightarrow> bool) \<Rightarrow> incoming \<Rightarrow> body_stream \<Rightarrow> (next_chunk \<times> body_stream) option" where
  "next_chunk_size freed net b =
     Option.bind (read_line (jayess_http_body_stream_read_raw net) b [])
       (\<lambda>(line, b1).
          case line of
            None \<Rightarrow> Some (Bad_Chunk ''failed to read HTTP chunk size'', b1)
          | Some l \<Rightarrow>
              (let t = jayess_http_trim_copy (c_text l); (n, r) = c_strtoul 16 (takeWhile (\<lambda>c. c \<noteq> CHR '';'') t)
               in if t = [] then Some (Blank_Line, b1)
                  else if \<not> freed r then Some (Bad_Chunk ''invalid HTTP chunk size'', b1)
                  else if n = 0
                  then map_option (\<lambda>(ended, b2). if ended then (Last_Chunk, b2\<lparr>chunk_finished := True\<rparr>)
                                                 else (Bad_Chunk ''failed to read HTTP chunk trailer'', b2))
                         (read_trailer (jayess_http_body_stream_read_raw net) b1)
                  else (let m = signed_take_bit 63 (int n) in Some (Chunk_Size m, b1\<lparr>chunk_remaining := dbl_of_int m\<rparr>))))"

text \<open>
  The bytes of the chunk, as far as they are asked for. The size is cast to \<open>int\<close>, so a larger one can count as none.
\<close>

definition read_chunk_data :: "incoming \<Rightarrow> body_stream \<Rightarrow> int \<Rightarrow> int \<Rightarrow> (string + string) \<times> body_stream" where
  "read_chunk_data net b requested n =
     (let rd = jayess_http_body_stream_read_raw net;
          (status, p, b1) = read_data rd b [] (nat (min requested (wrap_int n)));
          left = n - int (length p);
          b2 = (if p = [] then b1 else b1\<lparr>chunk_remaining := dbl_of_int left\<rparr>)
      in if status \<noteq> Filled then (Inl ''HTTP chunk body ended unexpectedly'', b2)
         else if left \<noteq> 0 then (Inr p, b2)
         else (let (ok, b3) = consume_crlf rd b2
               in if ok then (Inr p, b3\<lparr>chunk_remaining := dbl_of_int (- 1)\<rparr>)
                  else (Inl ''invalid HTTP chunk terminator'', b3)))"

partial_function (option) read_chunked ::
  "(string \<Rightarrow> bool) \<Rightarrow> incoming \<Rightarrow> body_stream \<Rightarrow> int \<Rightarrow> (body_read \<times> body_stream) option" where
  "read_chunked freed net b requested =
     (let left = c_int64 (chunk_remaining b)
      in if chunk_finished b then Some (Read_Null, jayess_http_body_stream_emit_end b)
         else Option.bind (if left < 0 then next_chunk_size freed net b else Some (Chunk_Size left, b))
           (\<lambda>x. case fst x of
                  Bad_Chunk message \<Rightarrow> Some (Read_Undefined, body_error (snd x) message)
                | Last_Chunk \<Rightarrow> Some (Read_Null, jayess_http_body_stream_emit_end (snd x))
                | Blank_Line \<Rightarrow> read_chunked freed net (snd x) requested
                | Chunk_Size n \<Rightarrow>
                    if n \<le> 0 then read_chunked freed net (snd x) requested
                    else (let y = read_chunk_data net (snd x) requested n
                          in case fst y of
                               Inl message \<Rightarrow> Some (Read_Undefined, body_error (snd y) message)
                             | Inr p \<Rightarrow> if p = [] then read_chunked freed net (snd y) requested else Some (Read_Data p, snd y))))"

definition jayess_http_body_stream_read_chunk ::
  "(string \<Rightarrow> bool) \<Rightarrow> incoming \<Rightarrow> body_stream \<Rightarrow> jayess_value option \<Rightarrow> (body_read \<times> body_stream) option" where
  "jayess_http_body_stream_read_chunk freed net b size_value =
     (let requested = jayess_std_stream_requested_size size_value 4095
      in if readable_ended b then Some (Read_Null, b)
         else if body_chunked b then read_chunked freed net b requested
         else Some (jayess_http_body_stream_read_non_chunked net b requested))"

section \<open>Methods\<close>

text \<open>A piece as a text ends at its first zero byte.\<close>

definition jayess_std_http_body_stream_read_method ::
  "(string \<Rightarrow> bool) \<Rightarrow> incoming \<Rightarrow> body_stream \<Rightarrow> jayess_value option \<Rightarrow> (jayess_value \<times> body_stream) option" where
  "jayess_std_http_body_stream_read_method freed net b size_value =
     map_option (\<lambda>(r, b1). ((case r of Read_Null \<Rightarrow> VNull | Read_Undefined \<Rightarrow> VUndefined | Read_Data p \<Rightarrow> VString (c_text p)), b1))
       (jayess_http_body_stream_read_chunk freed net b size_value)"

definition jayess_std_http_body_stream_read_bytes_method ::
  "(string \<Rightarrow> bool) \<Rightarrow> incoming \<Rightarrow> byte_state \<Rightarrow> body_stream \<Rightarrow> jayess_value option
   \<Rightarrow> (jayess_value \<times> byte_state \<times> body_stream) option" where
  "jayess_std_http_body_stream_read_bytes_method freed net t b size_value =
     map_option (\<lambda>(r, b1). case r of
           Read_Null \<Rightarrow> (VNull, t, b1)
         | Read_Undefined \<Rightarrow> (VUndefined, t, b1)
         | Read_Data p \<Rightarrow> (let (v, t1) = jayess_std_uint8_array_from_bytes t (map (\<lambda>c. int (char_code c)) p) in (v, t1, b1)))
       (jayess_http_body_stream_read_chunk freed net b size_value)"

definition jayess_std_http_body_stream_close_method :: "body_stream \<Rightarrow> body_stream" where
  "jayess_std_http_body_stream_close_method b = jayess_http_body_stream_close_socket (jayess_http_body_stream_mark_ended b)"

text \<open>
  A stream on an open handle, from the headers: \<open>pre\<close> are the bytes of the body among those that have arrived \<open>earlier\<close>.
  A body without a length is read until the peer ends.
\<close>

definition new_stream :: "string \<Rightarrow> bool \<Rightarrow> int \<Rightarrow> string \<Rightarrow> body_stream" where
  "new_stream earlier chunked content_length pre =
     (let b = \<lparr>prebuffer = pre, prebuffer_offset = 0, via_socket = False, own_handle = True, closes = 0, arrived = earlier,
               body_chunked = chunked, body_remaining = dbl_of_int (if chunked then - 1 else content_length),
               chunk_remaining = dbl_of_int (- 1), chunk_finished = False, readable_ended = False, body_errored = False,
               body_events = []\<rparr>
      in if \<not> chunked \<and> content_length = 0 \<and> pre = []
         then jayess_http_body_stream_close_socket (jayess_http_body_stream_mark_ended b) else b)"

definition jayess_http_body_stream_new :: "nat \<Rightarrow> jayess_state \<Rightarrow> string \<Rightarrow> string \<Rightarrow> nat option \<Rightarrow> body_stream option" where
  "jayess_http_body_stream_new d s earlier pre headers =
     Option.bind (jayess_http_headers_transfer_chunked d s headers)
       (\<lambda>chunked. map_option (\<lambda>n. new_stream earlier chunked n pre) (jayess_http_headers_content_length d s headers))"

definition jayess_http_body_stream_new_from_socket ::
  "nat \<Rightarrow> jayess_state \<Rightarrow> string \<Rightarrow> string \<Rightarrow> nat option \<Rightarrow> body_stream option" where
  "jayess_http_body_stream_new_from_socket d s earlier pre headers =
     map_option (\<lambda>b. b\<lparr>via_socket := True\<rparr>) (jayess_http_body_stream_new d s earlier pre headers)"

end
