(* ===== verification/Http_Client.thy ===== *)
theory Http_Client
  imports Http_Body
begin

text \<open>
  The client of plain HTTP (\<open>jayess_runtime_network.c\<close>): how a response is received, whole or as a stream, requests from
  options, and the loop that follows redirects. Finding the address, connecting, the timeout and sending are a parameter:
  from all requests so far, the last of which is to be sent, what will arrive on its connection, or nothing when it
  could not be sent. Requests over TLS are not modelled.
\<close>

section \<open>Receiving a response\<close>

text \<open>
  The header lines before the boundary at \<open>n\<close>. When there are none, the difference of the two places is negative: one
  short, no memory is allocated for a text of a huge length that is then copied; two short, the allocation fails and the
  text is empty.
\<close>

definition headers_before :: "string \<Rightarrow> nat \<Rightarrow> fault + string" where
  "headers_before buf n =
     (let start = length buf - length (jayess_http_next_line (jayess_http_line_end buf))
      in if start \<le> n then Inr (take (n - start) (drop start buf))
         else if start = n + 1 then Inl Out_of_bounds else Inr [])"

definition body_start :: "string \<Rightarrow> nat \<Rightarrow> nat" where
  "body_start buf n = (if prefix CRLF (drop n buf) then n + 4 else n + 2)"

text \<open>What has arrived is a text up to its first zero byte where headers are looked for.\<close>

definition jayess_http_response_complete :: "nat \<Rightarrow> jayess_state \<Rightarrow> string \<Rightarrow> (bool \<times> jayess_state) run" where
  "jayess_http_response_complete d s received =
     (let buf = c_text received
      in case jayess_http_header_boundary buf of
           None \<Rightarrow> Some (Inr (False, s))
         | Some n \<Rightarrow>
             and_then (Some (headers_before buf n)) (\<lambda>headers_text.
               (let (h, s1) = jayess_http_parse_header_object s headers_text; body = drop (body_start buf n) received
                in case (jayess_http_headers_transfer_chunked d s1 (Some h), jayess_http_headers_content_length d s1 (Some h)) of
                     (Some True, _) \<Rightarrow> Some (map_sum id (\<lambda>c. (c, s1)) (jayess_http_chunked_body_complete body))
                   | (Some False, Some len) \<Rightarrow> Some (Inr (0 \<le> len \<and> len \<le> int (length body), s1))
                   | _ \<Rightarrow> None)))"

text \<open>Everything up to the end of a complete response, or to the end of what arrives; \<open>None\<close> when neither comes.\<close>

partial_function (option) jayess_http_read_all_socket_value ::
  "nat \<Rightarrow> incoming \<Rightarrow> jayess_state \<Rightarrow> string \<Rightarrow> (fault + string \<times> jayess_state) option" where
  "jayess_http_read_all_socket_value d net s received =
     (case net received 1024 of
        Arrived p \<Rightarrow>
          if take 1024 p = [] then Some (Inr (received, s))
          else Option.bind (jayess_http_response_complete d s (received @ take 1024 p))
                 (\<lambda>r. case r of
                        Inl e \<Rightarrow> Some (Inl e)
                      | Inr x \<Rightarrow> if fst x then Some (Inr (received @ take 1024 p, snd x))
                                else jayess_http_read_all_socket_value d net (snd x) (received @ take 1024 p))
      | Ended_By_Peer \<Rightarrow> Some (Inr (received, s))
      | Recv_Failed \<Rightarrow> Some (Inr (received, s)))"

text \<open>As a stream: until the headers are there.\<close>

partial_function (option) read_head :: "incoming \<Rightarrow> string \<Rightarrow> (string \<times> nat) option option" where
  "read_head net received =
     (case net received 1024 of
        Arrived p \<Rightarrow>
          if take 1024 p = [] then Some None
          else (case jayess_http_header_boundary (c_text (received @ take 1024 p)) of
                  Some n \<Rightarrow> Some (Some (received @ take 1024 p, n))
                | None \<Rightarrow> read_head net (received @ take 1024 p))
      | Ended_By_Peer \<Rightarrow> Some None
      | Recv_Failed \<Rightarrow> Some None)"

text \<open>
  The response object. Of the properties of the body stream's object only its kind is in the state; the others are the
  record of the stream.
\<close>

definition streamed_response ::
  "nat \<Rightarrow> byte_state \<Rightarrow> string \<Rightarrow> nat \<Rightarrow> (jayess_value \<times> body_stream option \<times> byte_state) run" where
  "streamed_response d t received n =
     (let buf = c_text received;
          line = takeWhile line_char buf;
          r1 = dropWhile not_space line;
          r2 = dropWhile not_space (tl r1)
      in if r1 = [] then Some (Inr (VUndefined, None, t))
         else and_then (Some (headers_before buf n)) (\<lambda>headers_text.
                (let (h, s1) = jayess_http_parse_header_object (js t) headers_text
                 in case jayess_http_body_stream_new_from_socket d s1 received (drop (body_start buf n) received) (Some h) of
                      None \<Rightarrow> None
                    | Some b \<Rightarrow>
                        (let (o1, s2) = jayess_object_new s1;
                             s3 = object_set s2 o1 ''__jayess_std_kind'' (VString ''HttpBodyStream'');
                             status = fst (strtod (takeWhile not_space (tl r1)));
                             (a, s4) = jayess_object_new s3;
                             s5 = object_set s4 a ''version'' (VString (takeWhile not_space line));
                             s6 = object_set s5 a ''status'' (jayess_value_from_number status);
                             s7 = object_set s6 a ''reason'' (VString (tl r2));
                             s8 = object_set s7 a ''statusText'' (VString (tl r2));
                             s9 = object_set s8 a ''ok'' (VBool (status_ok status));
                             s10 = object_set s9 a ''headers'' (VObject h)
                         in Some (Inr (VObject a, Some b, t\<lparr>js := object_set s10 a ''bodyStream'' (VObject o1)\<rparr>))))))"

definition jayess_http_read_response_stream_socket ::
  "nat \<Rightarrow> incoming \<Rightarrow> byte_state \<Rightarrow> (jayess_value \<times> body_stream option \<times> byte_state) run" where
  "jayess_http_read_response_stream_socket d net t =
     Option.bind (read_head net [])
       (\<lambda>r. case r of None \<Rightarrow> Some (Inr (VUndefined, None, t)) | Some (received, n) \<Rightarrow> streamed_response d t received n)"

definition jayess_http_read_whole_response ::
  "nat \<Rightarrow> incoming \<Rightarrow> byte_state \<Rightarrow> (jayess_value \<times> body_stream option \<times> byte_state) run" where
  "jayess_http_read_whole_response d net t =
     and_then (jayess_http_read_all_socket_value d net (js t) []) (\<lambda>(received, s1).
       map_option (\<lambda>(v, t1). Inr (v, None, t1)) (jayess_std_http_parse_response d (t\<lparr>js := s1\<rparr>) (Some (VString (c_text received)))))"

section \<open>Sending a request\<close>

text \<open>A request that was tried: host, port, timeout and text.\<close>

type_synonym attempt = "string \<times> int \<times> int \<times> string"

type_synonym internet = "attempt list \<Rightarrow> incoming option"

definition send_request ::
  "nat \<Rightarrow> internet \<Rightarrow> byte_state \<Rightarrow> nat \<Rightarrow> attempt list \<Rightarrow> (incoming option \<times> attempt list \<times> byte_state) run" where
  "send_request d inet t a tries =
     and_then (value_text d (js t) (object_get (js t) a ''host'')) (\<lambda>host.
       (let port = c_int (jayess_value_to_number (object_get (js t) a ''port''));
            timeout = c_int (jayess_value_to_number (object_get (js t) a ''timeout''))
        in if host = [] \<or> port \<le> 0 then Some (Inr (None, tries, t))
           else (case jayess_http_prepare_request_headers d (js t) a host of
                   None \<Rightarrow> None
                 | Some s1 \<Rightarrow>
                     and_then (jayess_std_http_format_request d s1 (Some (VObject a))) (\<lambda>request_text.
                       (let tries1 = tries @ [(host, port, timeout, request_text)]
                        in Some (Inr (inet tries1, tries1, t\<lparr>js := s1\<rparr>)))))))"

section \<open>Redirects\<close>

definition note_final :: "nat \<Rightarrow> byte_state \<Rightarrow> nat \<Rightarrow> nat \<Rightarrow> nat \<Rightarrow> byte_state option" where
  "note_final d t n a redirects =
     map_option (\<lambda>url.
       (let s1 = object_set (js t) n ''redirected'' (VBool (0 < redirects));
            s2 = object_set s1 n ''redirectCount'' (jayess_value_from_number (dbl_of_int (int redirects)))
        in t\<lparr>js := object_set s2 n ''url'' (VString url)\<rparr>))
     (jayess_http_request_current_url d (js t) a)"

text \<open>The request to go on with, a new one or the same with another path; \<open>None\<close> when the location is not followed.\<close>

definition redirect_target :: "nat \<Rightarrow> jayess_state \<Rightarrow> nat \<Rightarrow> string \<Rightarrow> (nat \<times> jayess_state) option run" where
  "redirect_target d s a location =
     (if prefix ''http://'' location
      then and_then (jayess_http_request_object_from_url_value d s (Some (VString location)) (jayess_value_as_string (object_get s a ''method'')))
             (\<lambda>(a1, s1). Some (Inr (Some (a1, object_set_key s1 a1 (VString ''timeout'') (object_get s1 a ''timeout'')))))
      else if prefix ''/'' location then Some (Inr (Some (a, object_set s a ''path'' (VString location))))
      else Some (Inr None))"

definition redirected_request :: "jayess_state \<Rightarrow> nat \<Rightarrow> int \<Rightarrow> nat \<Rightarrow> jayess_state" where
  "redirected_request s a status most =
     (let s1 = (if status \<in> {301, 302, 303}
                then object_set (object_set s a ''method'' (VString ''GET'')) a ''body'' (VString []) else s);
          (h, s2) = jayess_object_new s1;
          s3 = object_set s2 a ''headers'' (VObject h)
      in object_set s3 a ''maxRedirects'' (jayess_value_from_number (dbl_of_int (int most))))"

definition follow_redirect :: "nat \<Rightarrow> byte_state \<Rightarrow> nat \<Rightarrow> nat \<Rightarrow> int \<Rightarrow> nat \<Rightarrow> (nat option \<times> byte_state) run" where
  "follow_redirect d t a n status most =
     and_then (value_text d (js t) (jayess_http_header_get_ci (js t) (headers_of (js t) n) ''Location'')) (\<lambda>location.
       and_then (redirect_target d (js t) a location) (\<lambda>next.
         (case next of
            None \<Rightarrow> Some (Inr (None, t))
          | Some (a1, s1) \<Rightarrow> Some (Inr (Some a1, t\<lparr>js := redirected_request s1 a1 status most\<rparr>)))))"

definition max_redirects :: "jayess_state \<Rightarrow> nat \<Rightarrow> nat" where
  "max_redirects s a =
     (let m = c_int (jayess_value_to_number (object_get s a ''maxRedirects''))
      in if m \<le> 0 \<and> object_get s a ''maxRedirects'' = None then 5 else nat m)"

lemma and_then_cong [fundef_cong]:
  "r = r' \<Longrightarrow> (\<And>x. r' = Some (Inr x) \<Longrightarrow> f x = f' x) \<Longrightarrow> and_then r f = and_then r' f'"
  by (auto simp: and_then_def split: option.splits sum.splits)

text \<open>
  One request after the other. A streamed response that is a redirect has its body closed, also when the location is
  not followed and the response is the answer.
\<close>

type_synonym answer = "jayess_value \<times> body_stream option \<times> attempt list \<times> byte_state"

function request_loop :: "nat \<Rightarrow> internet \<Rightarrow> bool \<Rightarrow> byte_state \<Rightarrow> nat \<Rightarrow> attempt list \<Rightarrow> nat \<Rightarrow> nat \<Rightarrow> answer run" where
  "request_loop d inet streamed t a tries redirects most =
     and_then (send_request d inet t a tries) (\<lambda>(c, tries1, t1).
       case c of
         None \<Rightarrow> Some (Inr (VUndefined, None, tries1, t1))
       | Some net \<Rightarrow>
           and_then (if streamed then jayess_http_read_response_stream_socket d net t1 else jayess_http_read_whole_response d net t1)
             (\<lambda>(v, b, t2).
                case jayess_value_as_object (Some v) of
                  None \<Rightarrow> Some (Inr (v, b, tries1, t2))
                | Some n \<Rightarrow>
                    (let status = c_int (jayess_value_to_number (object_get (js t2) n ''status''))
                     in if \<not> jayess_http_is_redirect_status status \<or> most \<le> redirects
                        then map_option (\<lambda>t3. Inr (v, b, tries1, t3)) (note_final d t2 n a redirects)
                        else and_then (follow_redirect d t2 a n status most) (\<lambda>(next, t3).
                               case next of
                                 None \<Rightarrow> Some (Inr (v, map_option jayess_std_http_body_stream_close_method b, tries1, t3))
                               | Some a1 \<Rightarrow> request_loop d inet streamed t3 a1 tries1 (redirects + 1) most))))"
  by pat_completeness auto

termination request_loop
  by (relation "measure (\<lambda>(d, inet, streamed, t, a, tries, redirects, most). most - redirects)") auto

declare request_loop.simps [simp del]

definition jayess_http_request_from_parts :: "nat \<Rightarrow> internet \<Rightarrow> byte_state \<Rightarrow> nat \<Rightarrow> answer run" where
  "jayess_http_request_from_parts d inet t a = request_loop d inet False t a [] 0 (max_redirects (js t) a)"

definition jayess_http_request_stream_from_parts :: "nat \<Rightarrow> internet \<Rightarrow> byte_state \<Rightarrow> nat \<Rightarrow> answer run" where
  "jayess_http_request_stream_from_parts d inet t a = request_loop d inet True t a [] 0 (max_redirects (js t) a)"

section \<open>Requests from options\<close>

definition copy_given :: "nat \<Rightarrow> nat \<Rightarrow> string \<Rightarrow> jayess_state \<Rightarrow> jayess_state" where
  "copy_given a from k s = (case object_get s from k of None \<Rightarrow> s | Some v \<Rightarrow> object_set s a k v)"

definition set_given :: "nat \<Rightarrow> nat \<Rightarrow> string \<Rightarrow> jayess_value \<Rightarrow> jayess_state \<Rightarrow> jayess_state" where
  "set_given a from k v s = object_set s a k (case object_get s from k of None \<Rightarrow> v | Some u \<Rightarrow> u)"

definition headers_given :: "nat \<Rightarrow> nat \<Rightarrow> jayess_state \<Rightarrow> jayess_state" where
  "headers_given a from s =
     (case object_get s from ''headers'' of
        Some v \<Rightarrow> object_set s a ''headers'' v
      | None \<Rightarrow> (let (h, s1) = jayess_object_new s in object_set s1 a ''headers'' (VObject h)))"

text \<open>A request without an address, from its fields; \<open>get\<close> is the one that has no method and no body.\<close>

definition request_from_fields :: "bool \<Rightarrow> jayess_state \<Rightarrow> nat \<Rightarrow> nat \<times> jayess_state" where
  "request_from_fields get s from =
     (let (a, s1) = jayess_object_new s;
          s2 = (if get then object_set s1 a ''method'' (VString ''GET'') else set_given a from ''method'' (VString ''GET'') s1);
          s3 = set_given a from ''path'' (VString ''/'') s2;
          s4 = set_given a from ''version'' (VString ''HTTP/1.1'') s3;
          s5 = headers_given a from s4;
          s6 = (if get then object_set s5 a ''body'' (VString []) else set_given a from ''body'' (VString []) s5);
          s7 = object_set_key s6 a (VString ''host'') (object_get s6 from ''host'');
          s8 = set_given a from ''port'' (jayess_value_from_number (dbl_of_int 80)) s7
      in (a, set_given a from ''timeout'' (jayess_value_from_number 0) s8))"

definition request_from_url :: "bool \<Rightarrow> nat \<Rightarrow> jayess_state \<Rightarrow> nat \<Rightarrow> (nat \<times> jayess_state) run" where
  "request_from_url get d s from =
     and_then (jayess_http_request_object_from_url_value d s (object_get s from ''url'')
                 (if get then ''GET'' else jayess_value_as_string (object_get s from ''method''))) (\<lambda>(a, s1).
       Some (Inr (a, fold (copy_given a from)
         (if get then [''version'', ''headers'', ''host'', ''port'', ''timeout'']
          else [''version'', ''headers'', ''body'', ''host'', ''port'', ''timeout'']) s1)))"

definition request_from_options :: "bool \<Rightarrow> nat \<Rightarrow> jayess_state \<Rightarrow> nat \<Rightarrow> (nat \<times> jayess_state) run" where
  "request_from_options get d s from =
     (if jayess_value_is_nullish (object_get s from ''url'') then Some (Inr (request_from_fields get s from))
      else request_from_url get d s from)"

text \<open>The names are compared with case, so a \<open>connection\<close> of the program's own gets a \<open>Connection\<close> beside it.\<close>

definition default_headers :: "jayess_state \<Rightarrow> nat \<Rightarrow> jayess_state" where
  "default_headers s a =
     (case headers_of s a of
        None \<Rightarrow> s
      | Some h \<Rightarrow>
          (let s1 = (case (object_get s h ''Host'', object_get s a ''host'') of
                      (None, Some v) \<Rightarrow> object_set s h ''Host'' v | _ \<Rightarrow> s)
           in if object_get s1 h ''Connection'' = None then object_set s1 h ''Connection'' (VString ''close'') else s1))"

definition start_request :: "nat \<Rightarrow> internet \<Rightarrow> bool \<Rightarrow> byte_state \<Rightarrow> (nat \<times> jayess_state) run \<Rightarrow> answer run" where
  "start_request d inet streamed t r =
     and_then r (\<lambda>(a, s).
       if jayess_http_text_eq_ci (jayess_value_as_string (object_get s a ''scheme'')) ''https''
       then Some (Inr (VUndefined, None, [], t\<lparr>js := jayess_throw_type_error s ''https URLs must use https.request(...) or https.get(...)''\<rparr>))
       else if streamed then jayess_http_request_stream_from_parts d inet (t\<lparr>js := default_headers s a\<rparr>) a
       else jayess_http_request_from_parts d inet (t\<lparr>js := default_headers s a\<rparr>) a)"

text \<open>What \<open>http.request\<close> and \<open>http.get\<close> and their streaming forms do.\<close>

definition jayess_std_http_request :: "nat \<Rightarrow> internet \<Rightarrow> byte_state \<Rightarrow> jayess_value option \<Rightarrow> answer run" where
  "jayess_std_http_request d inet t options =
     (case jayess_value_as_object options of
        None \<Rightarrow> Some (Inr (VUndefined, None, [], t))
      | Some from \<Rightarrow> start_request d inet False t (request_from_options False d (js t) from))"

definition jayess_std_http_request_stream :: "nat \<Rightarrow> internet \<Rightarrow> byte_state \<Rightarrow> jayess_value option \<Rightarrow> answer run" where
  "jayess_std_http_request_stream d inet t options =
     (case jayess_value_as_object options of
        None \<Rightarrow> Some (Inr (VUndefined, None, [], t))
      | Some from \<Rightarrow> start_request d inet True t (request_from_options False d (js t) from))"

definition jayess_std_http_get :: "nat \<Rightarrow> internet \<Rightarrow> byte_state \<Rightarrow> jayess_value option \<Rightarrow> answer run" where
  "jayess_std_http_get d inet t input =
     (case (input, jayess_value_as_object input) of
        (Some (VString u), _) \<Rightarrow> start_request d inet False t (jayess_http_request_object_from_url_value d (js t) input ''GET'')
      | (_, None) \<Rightarrow> Some (Inr (VUndefined, None, [], t))
      | (_, Some from) \<Rightarrow> start_request d inet False t (request_from_options True d (js t) from))"

definition jayess_std_http_get_stream :: "nat \<Rightarrow> internet \<Rightarrow> byte_state \<Rightarrow> jayess_value option \<Rightarrow> answer run" where
  "jayess_std_http_get_stream d inet t input =
     (case (input, jayess_value_as_object input) of
        (Some (VString u), _) \<Rightarrow> start_request d inet True t (jayess_http_request_object_from_url_value d (js t) input ''GET'')
      | (_, None) \<Rightarrow> Some (Inr (VUndefined, None, [], t))
      | (_, Some from) \<Rightarrow> start_request d inet True t (request_from_options True d (js t) from))"

end
