(* ===== verification/Http_Body_Correct.thy ===== *)
theory Http_Body_Correct
  imports Http_Body Server_Correct
begin

text \<open>
  A body in the chunked coding, read piece by piece: the contract of a source of bytes (a locale), what the readers of
  lines and data do on it, and that the pieces a client reads are the body, however the network cuts the bytes.
\<close>

section \<open>Sources of bytes\<close>

text \<open>While there is content, a read gives some of it, at most as much as was asked for, and takes it from the content.\<close>

locale byte_source =
  fixes rd :: "'s byte_reader" and content :: "'s \<Rightarrow> string" and inv :: "'s \<Rightarrow> bool"
  assumes rd_law: "inv b \<Longrightarrow> 0 < n \<Longrightarrow> content b \<noteq> [] \<Longrightarrow>
    \<exists>p b1. rd b n = (Some p, b1) \<and> p \<noteq> [] \<and> length p \<le> n \<and> content b = p @ content b1 \<and> inv b1"
begin

lemma rd_one: "inv b \<Longrightarrow> content b = c # rest \<Longrightarrow> \<exists>b1. rd b 1 = (Some [c], b1) \<and> content b1 = rest \<and> inv b1"
proof -
  assume b: "inv b" "content b = c # rest"
  then obtain p b1 where p: "rd b 1 = (Some p, b1)" "p \<noteq> []" "length p \<le> 1" "content b = p @ content b1" "inv b1"
    using rd_law [of b 1] by auto
  then have "p = [c]" using b(2) by (cases p) auto
  then show ?thesis using p b(2) by simp
qed

lemma read_line_law:
  "inv b \<Longrightarrow> content b = l @ CHR 0x0A # rest \<Longrightarrow> CHR 0x0A \<notin> set l \<Longrightarrow>
   \<exists>b1. read_line rd b acc = Some (Some (strip_cr (acc @ l)), b1) \<and> content b1 = rest \<and> inv b1"
proof (induction l arbitrary: b acc)
  case Nil
  then obtain b1 where "rd b 1 = (Some [CHR 0x0A], b1)" "content b1 = rest" "inv b1" using rd_one [of b] by auto
  then show ?case by (simp add: read_line.simps [of rd b] got_def Let_def)
next
  case (Cons c l)
  then obtain b1 where b1: "rd b 1 = (Some [c], b1)" "content b1 = l @ CHR 0x0A # rest" "inv b1" using rd_one [of b] by auto
  then have "read_line rd b acc = read_line rd b1 (acc @ [c])"
    using Cons.prems(3) by (auto simp: read_line.simps [of rd b] got_def Let_def)
  then show ?case using Cons.IH [OF b1(3,2), of "acc @ [c]"] Cons.prems(3) by simp
qed

lemma read_line_CRLF:
  assumes "inv b" and "content b = l @ CRLF @ rest" and "list_all line_char l"
  shows "\<exists>b1. read_line rd b [] = Some (Some l, b1) \<and> content b1 = rest \<and> inv b1"
  using read_line_law [of b "l @ [CHR 0x0D]" rest "[]"] assms
  by (fastforce simp: CRLF_def strip_cr_def list_all_iff line_char_def)

lemma read_trailer_law:
  "inv b \<Longrightarrow> content b = CRLF @ rest \<Longrightarrow> \<exists>b1. read_trailer rd b = Some (True, b1) \<and> content b1 = rest \<and> inv b1"
  using read_line_CRLF [of b "[]" rest] by (auto simp: read_trailer.simps [of rd b] got_def c_text_def)

lemma consume_crlf_law:
  "inv b \<Longrightarrow> content b = CRLF @ rest \<Longrightarrow> \<exists>b1. consume_crlf rd b = (True, b1) \<and> content b1 = rest \<and> inv b1"
proof -
  assume "inv b" "content b = CRLF @ rest"
  then obtain b1 where b1: "rd b 1 = (Some [CHR 0x0D], b1)" "content b1 = CHR 0x0A # rest" "inv b1"
    using rd_one [of b] by (auto simp: CRLF_def)
  then obtain b2 where "rd b1 1 = (Some [CHR 0x0A], b2)" "content b2 = rest" "inv b2" using rd_one by blast
  then show ?thesis using b1 by (simp add: consume_crlf_def got_def)
qed

lemma read_data_law:
  "inv b \<Longrightarrow> content b = p @ rest \<Longrightarrow>
   \<exists>b1. read_data rd b acc (length p) = (Filled, acc @ p, b1) \<and> content b1 = rest \<and> inv b1"
proof (induction "length p" arbitrary: b acc p rule: less_induct)
  case less
  show ?case
  proof (cases "p = []")
    case False
    then obtain q b1 where q: "rd b (length p) = (Some q, b1)" "q \<noteq> []" "length q \<le> length p" "content b = q @ content b1" "inv b1"
      using rd_law [of b "length p"] less.prems by auto
    then obtain u where u: "p = q @ u" "content b1 = u @ rest"
      using less.prems(2) by (metis append_eq_append_conv_if append_eq_conv_conj append_take_drop_id)
    then obtain b2 where "read_data rd b1 (acc @ q) (length u) = (Filled, (acc @ q) @ u, b2)" "content b2 = rest" "inv b2"
      using less.hyps [of u b1 "acc @ q"] q by auto
    moreover have "length p - length q = length u" using u(1) by simp
    ultimately show ?thesis using q(1,2) False u(1) by (simp add: read_data.simps [of rd b] got_def)
  qed (use less.prems in \<open>simp add: read_data.simps\<close>)
qed

end

section \<open>The stream as a source\<close>

text \<open>The network gives the bytes of the wire, at least one at a time.\<close>

definition reliable :: "incoming \<Rightarrow> string \<Rightarrow> bool" where
  "reliable net wire \<longleftrightarrow>
     (\<forall>h rest n. wire = h @ rest \<longrightarrow> rest \<noteq> [] \<longrightarrow> 0 < n \<longrightarrow> (\<exists>p. net h n = Arrived p \<and> p \<noteq> [] \<and> prefix p rest))"

definition unread :: "string \<Rightarrow> body_stream \<Rightarrow> string" where
  "unread wire b = drop (prebuffer_offset b) (prebuffer b) @ drop (length (arrived b)) wire"

text \<open>What reading leaves alone.\<close>

type_synonym body_meta = "double \<times> bool \<times> bool \<times> bool \<times> bool \<times> body_event list \<times> double"

definition meta :: "body_stream \<Rightarrow> body_meta" where
  "meta b = (chunk_remaining b, chunk_finished b, readable_ended b, body_chunked b, body_errored b, body_events b,
     body_remaining b)"

definition receiving :: "incoming \<Rightarrow> string \<Rightarrow> body_meta \<Rightarrow> body_stream \<Rightarrow> bool" where
  "receiving net wire m b \<longleftrightarrow> reliable net wire \<and> prefix (arrived b) wire \<and> own_handle b \<and> closes b = 0 \<and> meta b = m"

interpretation body: byte_source "jayess_http_body_stream_read_raw net" "unread wire" "receiving net wire m" for net wire m
proof
  fix b and n :: nat
  assume b: "receiving net wire m b" "0 < n" "unread wire b \<noteq> []"
  let ?pre = "drop (prebuffer_offset b) (prebuffer b)"
  show "\<exists>p b1. jayess_http_body_stream_read_raw net b n = (Some p, b1) \<and> p \<noteq> [] \<and> length p \<le> n \<and> unread wire b = p @ unread wire b1
    \<and> receiving net wire m b1"
  proof (cases "?pre = []")
    case False
    let ?p = "take n ?pre"
    let ?b = "b\<lparr>prebuffer_offset := prebuffer_offset b + length ?p\<rparr>"
    have "drop (prebuffer_offset b + length ?p) (prebuffer b) = drop n ?pre"
      by (cases "n \<le> length ?pre") (simp_all add: add.commute min_def)
    then have "?pre = ?p @ drop (prebuffer_offset b + length ?p) (prebuffer b)" by (simp only: append_take_drop_id)
    then have "unread wire b = ?p @ unread wire ?b" unfolding unread_def by simp
    moreover have "?p \<noteq> []" using b(2) False by simp
    then have "jayess_http_body_stream_read_raw net b n = (Some ?p, ?b)"
      using b(2) by (simp only: jayess_http_body_stream_read_raw_def jayess_http_body_stream_take_prebuffer_def Let_def) simp
    ultimately show ?thesis using b(1,2) False by (intro exI [of _ ?p] exI [of _ ?b]) (simp add: receiving_def meta_def)
  next
    case True
    obtain rest where rest: "wire = arrived b @ rest" using b(1) by (auto simp: receiving_def prefix_def)
    then have "rest \<noteq> []" using b(3) True by (simp add: unread_def)
    then obtain q where q: "net (arrived b) n = Arrived q" "q \<noteq> []" "prefix q rest"
      using b(1,2) rest unfolding receiving_def reliable_def by blast
    obtain u where u: "rest = take n q @ u" using q(3) by (metis append_assoc append_take_drop_id prefix_def)
    have "take n q \<noteq> []" using q(2) b(2) by simp
    then show ?thesis
      using b True q(1) rest u by (simp add: jayess_http_body_stream_read_raw_def jayess_http_body_stream_take_prebuffer_def
          receiving_def meta_def unread_def)
  qed
qed

section \<open>The pieces of a chunked body\<close>

text \<open>The rest of a chunk (none between chunks) is to be read, and behind its line end \<open>rest\<close>.\<close>

definition chunk_state :: "string \<Rightarrow> body_meta" where
  "chunk_state u = (dbl_of_int (if u = [] then - 1 else int (length u)), False, False, True, False, [], dbl_of_int (- 1))"

definition pending :: "incoming \<Rightarrow> string \<Rightarrow> string \<Rightarrow> string \<Rightarrow> body_stream \<Rightarrow> bool" where
  "pending net wire u rest b \<longleftrightarrow>
     receiving net wire (chunk_state u) b \<and> unread wire b = (if u = [] then rest else u @ CRLF @ rest)"

lemma receiving_set:
  "receiving net wire m b \<Longrightarrow>
   receiving net wire (x, snd m) (b\<lparr>chunk_remaining := x\<rparr>) \<and> unread wire (b\<lparr>chunk_remaining := x\<rparr>) = unread wire b"
  by (auto simp: receiving_def meta_def unread_def)

lemma chunk_data_pending:
  assumes "pending net wire u rest b" and "u \<noteq> []" and "length u < 2 ^ 31" and "0 < r"
  shows "\<exists>b1. read_chunk_data net b r (int (length u)) = (Inr (take (nat r) u), b1) \<and> pending net wire (drop (nat r) u) rest b1"
proof -
  define p where "p = take (nat r) u"
  define v where "v = drop (nat r) u"
  have u: "u = p @ v" by (simp add: p_def v_def)
  have b: "receiving net wire (chunk_state u) b" "unread wire b = p @ v @ CRLF @ rest"
    using assms(1,2) by (simp_all add: pending_def u)
  have n: "nat (min r (wrap_int (int (length u)))) = length p" using assms(3,4) by (auto simp: wrap_int_id min_def p_def)
  have ne: "p \<noteq> []" using assms(2,4) by (simp add: p_def)
  obtain b1 where b1: "read_data (jayess_http_body_stream_read_raw net) b [] (length p) = (Filled, p, b1)"
    "unread wire b1 = v @ CRLF @ rest" "receiving net wire (chunk_state u) b1"
    using body.read_data_law [OF b, of "[]"] by auto
  have left: "int (length u) - int (length p) = int (length v)" by (simp add: u)
  let ?b2 = "b1\<lparr>chunk_remaining := dbl_of_int (int (length v))\<rparr>"
  have b2: "receiving net wire (dbl_of_int (int (length v)), snd (chunk_state u)) ?b2" "unread wire ?b2 = v @ CRLF @ rest"
    using receiving_set [OF b1(3)] b1(2) by simp_all
  show ?thesis
  proof (cases "v = []")
    case False
    then have "pending net wire v rest ?b2" using b2 by (simp add: pending_def chunk_state_def)
    moreover have "read_chunk_data net b r (int (length u)) = (Inr p, ?b2)"
      using False ne b1(1) by (simp only: read_chunk_data_def Let_def n b1(1) split_conv left) simp
    ultimately show ?thesis unfolding p_def v_def by blast
  next
    case True
    then obtain b3 where b3: "consume_crlf (jayess_http_body_stream_read_raw net) ?b2 = (True, b3)" "unread wire b3 = rest"
      "receiving net wire (dbl_of_int (int (length v)), snd (chunk_state u)) b3"
      using body.consume_crlf_law [OF b2(1), of rest] b2(2) by auto
    have "pending net wire [] rest (b3\<lparr>chunk_remaining := dbl_of_int (- 1)\<rparr>)"
      using receiving_set [OF b3(3), of "dbl_of_int (- 1)"] b3(2) by (simp add: pending_def chunk_state_def)
    moreover have "read_chunk_data net b r (int (length u)) = (Inr p, b3\<lparr>chunk_remaining := dbl_of_int (- 1)\<rparr>)"
      using ne b3(1) by (simp only: read_chunk_data_def Let_def n b1(1) split_conv left) (simp add: True)
    ultimately show ?thesis using True unfolding p_def v_def by metis
  qed
qed

lemma hex_line:
  "list_all line_char (hex_text n)" "c_text (hex_text n) = hex_text n" "jayess_http_trim_copy (hex_text n) = hex_text n"
  "takeWhile (\<lambda>c. c \<noteq> CHR '';'') (hex_text n) = hex_text n"
proof -
  note chars = hex_text_chars [of _ n]
  show "list_all line_char (hex_text n)" using chars by (auto simp: list_all_iff)
  have "CHR 0x00 \<notin> set (hex_text n)" using chars [of "CHR 0x00"] by (auto simp: c_class_defs)
  then show "c_text (hex_text n) = hex_text n" unfolding c_text_def by (intro takeWhile_whole) (auto simp: list_all_iff)
  show "jayess_http_trim_copy (hex_text n) = hex_text n" using chars by (intro trim_none) (auto simp: list_all_iff)
  show "takeWhile (\<lambda>c. c \<noteq> CHR '';'') (hex_text n) = hex_text n" using chars by (intro takeWhile_whole) (auto simp: list_all_iff)
qed

lemma next_size_pending:
  assumes "pending net wire [] (chunk_text t @ rest) b" and "t \<noteq> []" and "length t < 2 ^ 31" and "freed []"
  shows "\<exists>b1. next_chunk_size freed net b = Some (Chunk_Size (int (length t)), b1) \<and> pending net wire t rest b1"
proof -
  let ?n = "length t"
  have b: "receiving net wire (chunk_state []) b" "unread wire b = hex_text ?n @ CRLF @ t @ CRLF @ rest"
    using assms(1) by (simp_all add: pending_def chunk_text_def)
  obtain b1 where b1: "read_line (jayess_http_body_stream_read_raw net) b [] = Some (Some (hex_text ?n), b1)"
    "unread wire b1 = t @ CRLF @ rest" "receiving net wire (chunk_state []) b1"
    using body.read_line_CRLF [OF b hex_line(1)] by auto
  have size: "signed_take_bit 63 (int ?n) = int ?n" using assms(3) by (simp add: signed_take_bit_int_eq_self)
  have "next_chunk_size freed net b = Some (Chunk_Size (int ?n), b1\<lparr>chunk_remaining := dbl_of_int (int ?n)\<rparr>)"
    using assms(2-4) by (simp add: next_chunk_size_def b1(1) hex_line strtoul_hex_text hex_text_nonempty size Let_def)
  moreover have "pending net wire t rest (b1\<lparr>chunk_remaining := dbl_of_int (int ?n)\<rparr>)"
    using receiving_set [OF b1(3), of "dbl_of_int (int ?n)"] b1(2) assms(2) by (simp add: pending_def chunk_state_def)
  ultimately show ?thesis by blast
qed

lemma pending_fields:
  assumes "pending net wire u rest b" and "length u < 2 ^ 31"
  shows "c_int64 (chunk_remaining b) = (if u = [] then - 1 else int (length u))" "\<not> chunk_finished b" "\<not> readable_ended b"
    "body_chunked b" "\<not> body_errored b" "body_events b = []"
  using assms by (simp_all add: pending_def receiving_def meta_def chunk_state_def c_int64_of_int)

lemma read_inside:
  assumes "pending net wire u rest b" and "u \<noteq> []" and "length u < 2 ^ 31" and "0 < r"
  shows "\<exists>b1. read_chunked freed net b r = Some (Read_Data (take (nat r) u), b1) \<and> pending net wire (drop (nat r) u) rest b1"
proof -
  obtain b1 where b1: "read_chunk_data net b r (int (length u)) = (Inr (take (nat r) u), b1)" "pending net wire (drop (nat r) u) rest b1"
    using chunk_data_pending [OF assms] by blast
  have "take (nat r) u \<noteq> []" using assms(2,4) by simp
  then show ?thesis using b1 assms(2) pending_fields [OF assms(1,3)]
    by (simp add: read_chunked.simps [of freed net b] Let_def)
qed

lemma read_between:
  assumes "pending net wire [] (chunk_text t @ rest) b" and "t \<noteq> []" and "length t < 2 ^ 31" and "freed []" and "0 < r"
  shows "\<exists>b1. read_chunked freed net b r = Some (Read_Data (take (nat r) t), b1) \<and> pending net wire (drop (nat r) t) rest b1"
proof -
  obtain b1 where b1: "next_chunk_size freed net b = Some (Chunk_Size (int (length t)), b1)" "pending net wire t rest b1"
    using next_size_pending [OF assms(1-3), of freed] assms(4) by blast
  obtain b2 where b2: "read_chunk_data net b1 r (int (length t)) = (Inr (take (nat r) t), b2)" "pending net wire (drop (nat r) t) rest b2"
    using chunk_data_pending [OF b1(2) assms(2,3,5)] by blast
  have "take (nat r) t \<noteq> []" using assms(2,5) by simp
  then show ?thesis using b1(1) b2 assms(2) pending_fields [OF assms(1)]
    by (simp add: read_chunked.simps [of freed net b] Let_def)
qed

lemma read_last:
  assumes "pending net wire [] (''0'' @ CRLF @ CRLF) b" and "freed []"
  shows "\<exists>b1. read_chunked freed net b r = Some (Read_Null, b1) \<and> readable_ended b1 \<and> \<not> body_errored b1 \<and> body_events b1 = [Ev_End]"
proof -
  have zero: "hex_text 0 = ''0''" by (simp add: hex_text.simps hex_digits_def)
  have b: "receiving net wire (chunk_state []) b" "unread wire b = ''0'' @ CRLF @ CRLF @ []"
    using assms(1) by (simp_all add: pending_def)
  obtain b1 where b1: "read_line (jayess_http_body_stream_read_raw net) b [] = Some (Some ''0'', b1)"
    "unread wire b1 = CRLF @ []" "receiving net wire (chunk_state []) b1"
    using body.read_line_CRLF [OF b] hex_line(1) [of 0] zero by auto
  obtain b2 where b2: "read_trailer (jayess_http_body_stream_read_raw net) b1 = Some (True, b2)" "receiving net wire (chunk_state []) b2"
    using body.read_trailer_law [OF b1(3,2)] by auto
  have "next_chunk_size freed net b = Some (Last_Chunk, b2\<lparr>chunk_finished := True\<rparr>)"
    using assms(2) hex_line(2-4) [of 0] strtoul_hex_text [of 0] by (simp add: next_chunk_size_def b1(1) b2(1) zero)
  then have "read_chunked freed net b r = Some (Read_Null, jayess_http_body_stream_emit_end (b2\<lparr>chunk_finished := True\<rparr>))"
    using pending_fields [OF assms(1)] by (simp add: read_chunked.simps [of freed net b] Let_def)
  then show ?thesis using b2(2)
    by (simp add: jayess_http_body_stream_emit_end_def jayess_http_body_stream_close_socket_def jayess_http_body_stream_mark_ended_def
        note_body_def receiving_def meta_def chunk_state_def)
qed

text \<open>The text of the size at most.\<close>

lemma requested_pos: "0 < jayess_std_stream_requested_size z 4095"
  by (simp add: jayess_std_stream_requested_size_def Let_def)

lemma read_ended: "readable_ended b \<Longrightarrow> jayess_http_body_stream_read_chunk freed net b z = Some (Read_Null, b)"
  by (simp add: jayess_http_body_stream_read_chunk_def)

lemma read_pending:
  "pending net wire u rest b \<Longrightarrow> length u < 2 ^ 31 \<Longrightarrow>
   jayess_http_body_stream_read_chunk freed net b z = read_chunked freed net b (jayess_std_stream_requested_size z 4095)"
  using pending_fields [of net wire u rest b] by (simp add: jayess_http_body_stream_read_chunk_def)

fun read_pieces :: "(string \<Rightarrow> bool) \<Rightarrow> incoming \<Rightarrow> body_stream \<Rightarrow> jayess_value option list \<Rightarrow> (body_read list \<times> body_stream) option" where
  "read_pieces freed net b [] = Some ([], b)"
| "read_pieces freed net b (z # zs) =
     Option.bind (jayess_http_body_stream_read_chunk freed net b z)
       (\<lambda>(r, b1). map_option (\<lambda>(rs, b2). (r # rs, b2)) (read_pieces freed net b1 zs))"

lemma read_pieces_ended:
  "readable_ended b \<Longrightarrow> read_pieces freed net b zs = Some (replicate (length zs) Read_Null, b)"
  by (induction zs) (simp_all add: read_ended)

text \<open>What a number of reads gives: pieces, and behind the last of them nothing.\<close>

definition delivers :: "nat \<Rightarrow> string \<Rightarrow> (body_read list \<times> body_stream) option \<Rightarrow> bool" where
  "delivers n body r \<longleftrightarrow> (\<exists>ps b. r = Some (map Read_Data ps @ replicate (n - length ps) Read_Null, b)
     \<and> length ps \<le> n \<and> [] \<notin> set ps \<and> prefix (concat ps) body \<and> \<not> body_errored b
     \<and> (length ps < n \<longrightarrow> concat ps = body \<and> body_events b = [Ev_End]))"

lemma delivers_Cons:
  assumes "delivers n body (read_pieces freed net b1 zs)" and "jayess_http_body_stream_read_chunk freed net b z = Some (Read_Data p, b1)"
    and "p \<noteq> []"
  shows "delivers (Suc n) (p @ body) (read_pieces freed net b (z # zs))"
proof -
  obtain ps b2 where "read_pieces freed net b1 zs = Some (map Read_Data ps @ replicate (n - length ps) Read_Null, b2)"
    "length ps \<le> n" "[] \<notin> set ps" "prefix (concat ps) body" "\<not> body_errored b2"
    "length ps < n \<longrightarrow> concat ps = body \<and> body_events b2 = [Ev_End]"
    using assms(1) unfolding delivers_def by blast
  then show ?thesis using assms(2,3) unfolding delivers_def by (intro exI [of _ "p # ps"] exI [of _ b2]) auto
qed

lemma read_pieces_deliver:
  assumes "freed []"
  shows "pending net wire u (concat (map chunk_text ts) @ ''0'' @ CRLF @ CRLF) b \<Longrightarrow> \<forall>t \<in> set (u # ts). length t < 2 ^ 31
    \<Longrightarrow> [] \<notin> set ts \<Longrightarrow> delivers (length zs) (u @ concat ts) (read_pieces freed net b zs)"
proof (induction zs arbitrary: u ts b)
  case Nil
  then show ?case using pending_fields(5) [of net wire u _ b] by (auto simp: delivers_def intro!: exI [of _ "[]"])
next
  case (Cons z zs)
  let ?r = "jayess_std_stream_requested_size z 4095"
  note size = requested_pos [of z]
  have short: "length u < 2 ^ 31" using Cons.prems(2) by simp
  note read = read_pending [OF Cons.prems(1) short, of freed z]
  have step: ?case if t: "read_chunked freed net b ?r = Some (Read_Data (take (nat ?r) t), b1)" "t \<noteq> []" "length t < 2 ^ 31"
      "pending net wire (drop (nat ?r) t) (concat (map chunk_text ts') @ ''0'' @ CRLF @ CRLF) b1"
      "u @ concat ts = t @ concat ts'" "set ts' \<subseteq> set ts" for t ts' b1
  proof -
    have "\<forall>x \<in> set (drop (nat ?r) t # ts'). length x < 2 ^ 31" using Cons.prems(2) t(3,6) by auto
    moreover have "[] \<notin> set ts'" using Cons.prems(3) t(6) by blast
    ultimately have "delivers (length zs) (drop (nat ?r) t @ concat ts') (read_pieces freed net b1 zs)"
      by (rule Cons.IH [OF t(4)])
    then have "delivers (Suc (length zs)) (take (nat ?r) t @ drop (nat ?r) t @ concat ts') (read_pieces freed net b (z # zs))"
      by (rule delivers_Cons) (use read t(1,2) size in simp_all)
    then show ?thesis by (simp add: t(5) append.assoc [symmetric] del: append.assoc read_pieces.simps)
  qed
  show ?case
  proof (cases "u = []")
    case False
    then obtain b1 where "read_chunked freed net b ?r = Some (Read_Data (take (nat ?r) u), b1)"
      "pending net wire (drop (nat ?r) u) (concat (map chunk_text ts) @ ''0'' @ CRLF @ CRLF) b1"
      using read_inside [OF Cons.prems(1) _ short size, of freed] by blast
    then show ?thesis by (intro step [of u _ ts]) (use False short in simp_all)
  next
    case True
    show ?thesis
    proof (cases ts)
      case (Cons t ts')
      note p = \<open>pending net wire u _ b\<close> [unfolded True Cons list.map concat.simps append_assoc]
      have t: "t \<noteq> []" "length t < 2 ^ 31" using \<open>[] \<notin> set ts\<close> \<open>\<forall>t \<in> set (u # ts). length t < 2 ^ 31\<close> Cons by auto
      obtain b1 where "read_chunked freed net b ?r = Some (Read_Data (take (nat ?r) t), b1)"
        "pending net wire (drop (nat ?r) t) (concat (map chunk_text ts') @ ''0'' @ CRLF @ CRLF) b1"
        using read_between [OF p t, of freed ?r] assms size by blast
      then show ?thesis by (intro step [of t _ ts']) (use t True Cons in auto)
    next
      case Nil
      obtain b1 where "read_chunked freed net b ?r = Some (Read_Null, b1)" "readable_ended b1" "\<not> body_errored b1" "body_events b1 = [Ev_End]"
        using read_last [of net wire b freed ?r] Cons.prems(1) True Nil assms by auto
      then show ?thesis using read True Nil
        by (auto simp: delivers_def read_pieces_ended intro!: exI [of _ "[]"])
    qed
  qed
qed

text \<open>
  However the network cuts the bytes, wherever the bytes that came with the headers end, and whatever sizes are asked
  for, the reads give the body.
\<close>

lemma chunked_body_delivered:
  assumes "reliable net wire" and "prefix earlier wire" and "freed []"
    and "pre @ drop (length earlier) wire = concat (map chunk_text ts) @ ''0'' @ CRLF @ CRLF" and "\<forall>t \<in> set ts. t \<noteq> [] \<and> length t < 2 ^ 31"
  shows "delivers (length zs) (concat ts) (read_pieces freed net (new_stream earlier True n pre\<lparr>via_socket := s\<rparr>) zs)"
proof -
  have "pending net wire [] (concat (map chunk_text ts) @ ''0'' @ CRLF @ CRLF) (new_stream earlier True n pre\<lparr>via_socket := s\<rparr>)"
    using assms(1,2,4) by (simp add: pending_def receiving_def meta_def chunk_state_def unread_def new_stream_def)
  from read_pieces_deliver [of freed, OF assms(3) this] assms(5) show ?thesis by auto
qed

section \<open>A body with a length\<close>

text \<open>The rest of the body is to be read; it is not empty, and behind it \<open>rest\<close>.\<close>

definition length_state :: "string \<Rightarrow> body_meta" where
  "length_state u = (dbl_of_int (- 1), False, False, False, False, [], dbl_of_int (int (length u)))"

definition awaiting :: "incoming \<Rightarrow> string \<Rightarrow> string \<Rightarrow> string \<Rightarrow> body_stream \<Rightarrow> bool" where
  "awaiting net wire u rest b \<longleftrightarrow> receiving net wire (length_state u) b \<and> unread wire b = u @ rest \<and> u \<noteq> []"

lemma receiving_left:
  "receiving net wire (length_state u) b \<Longrightarrow>
   receiving net wire (length_state v) (b\<lparr>body_remaining := dbl_of_int (int (length v))\<rparr>)
   \<and> unread wire (b\<lparr>body_remaining := dbl_of_int (int (length v))\<rparr>) = unread wire b"
  by (simp add: receiving_def meta_def unread_def length_state_def)

lemma read_awaiting:
  assumes "awaiting net wire u rest b" and "length u < 2 ^ 31" and "0 < r"
  shows "\<exists>b1. jayess_http_body_stream_read_non_chunked net b r = (Read_Data (take (nat r) u), b1)
    \<and> (if drop (nat r) u = [] then readable_ended b1 \<and> \<not> body_errored b1 \<and> body_events b1 = [Ev_End]
       else awaiting net wire (drop (nat r) u) rest b1)"
proof -
  define p where "p = take (nat r) u"
  define v where "v = drop (nat r) u"
  have u: "u = p @ v" by (simp add: p_def v_def)
  have b: "receiving net wire (length_state u) b" "unread wire b = p @ v @ rest" "u \<noteq> []"
    using assms(1) by (simp_all add: awaiting_def u)
  have remaining: "c_int64 (body_remaining b) = int (length u)"
    using b(1) assms(2) by (simp add: receiving_def meta_def length_state_def c_int64_of_int)
  have n: "nat (if r > int (length u) then int (length u) else r) = length p" using assms(3) by (auto simp: p_def)
  obtain b1 where b1: "read_data (jayess_http_body_stream_read_raw net) b [] (length p) = (Filled, p, b1)"
    "unread wire b1 = v @ rest" "receiving net wire (length_state u) b1"
    using body.read_data_law [OF b(1,2), of "[]"] by auto
  have left: "int (length u) - int (length p) = int (length v)" by (simp add: u)
  let ?b2 = "b1\<lparr>body_remaining := dbl_of_int (int (length v))\<rparr>"
  have b2: "receiving net wire (length_state v) ?b2" "unread wire ?b2 = v @ rest"
    using receiving_left [OF b1(3)] b1(2) by simp_all
  have run: "jayess_http_body_stream_read_non_chunked net b r = (Read_Data p,
      if int (length v) = 0 then note_body (jayess_http_body_stream_close_socket (jayess_http_body_stream_mark_ended ?b2)) Ev_End else ?b2)"
  proof -
    have "int (length u) \<noteq> 0" "\<not> int (length u) < 0" using b(3) by simp_all
    then show ?thesis
      by (simp only: jayess_http_body_stream_read_non_chunked_def Let_def remaining n b1(1) left prod.case fill_status.case if_False)
  qed
  show ?thesis
  proof (cases "v = []")
    case True
    then show ?thesis using run b2(1) unfolding p_def [symmetric] v_def [symmetric]
      by (simp add: jayess_http_body_stream_close_socket_def jayess_http_body_stream_mark_ended_def note_body_def
          receiving_def meta_def length_state_def)
  next
    case False
    then show ?thesis using run b2 unfolding p_def [symmetric] v_def [symmetric] by (simp add: awaiting_def)
  qed
qed

lemma awaiting_delivers:
  "awaiting net wire u rest b \<Longrightarrow> length u < 2 ^ 31 \<Longrightarrow> delivers (length zs) u (read_pieces freed net b zs)"
proof (induction zs arbitrary: u b)
  case Nil
  then show ?case by (auto simp: delivers_def awaiting_def receiving_def meta_def length_state_def intro!: exI [of _ "[]"])
next
  case (Cons z zs)
  let ?r = "jayess_std_stream_requested_size z 4095"
  let ?p = "take (nat ?r) u" and ?v = "drop (nat ?r) u"
  obtain b1 where b1: "jayess_http_body_stream_read_non_chunked net b ?r = (Read_Data ?p, b1)"
    "if ?v = [] then readable_ended b1 \<and> \<not> body_errored b1 \<and> body_events b1 = [Ev_End] else awaiting net wire ?v rest b1"
    using read_awaiting [OF Cons.prems requested_pos] by blast
  have "\<not> readable_ended b \<and> \<not> body_chunked b"
    using Cons.prems(1) by (simp add: awaiting_def receiving_def meta_def length_state_def)
  then have read: "jayess_http_body_stream_read_chunk freed net b z = Some (Read_Data ?p, b1)"
    by (simp add: jayess_http_body_stream_read_chunk_def b1(1))
  have ne: "?p \<noteq> []" using Cons.prems(1) requested_pos [of z] by (simp add: awaiting_def)
  have "delivers (length zs) ?v (read_pieces freed net b1 zs)"
  proof (cases "?v = []")
    case True
    then show ?thesis using b1(2) by (auto simp: delivers_def read_pieces_ended intro!: exI [of _ "[]"])
  next
    case False
    then show ?thesis using b1(2) Cons.prems(2) by (intro Cons.IH) auto
  qed
  from delivers_Cons [OF this read ne] show ?case by (simp add: append_take_drop_id)
qed

text \<open>
  A body with a length, from the headers on. An empty body that is announced as empty ends the stream at once, without
  an event.
\<close>

lemma body_with_length_delivered:
  assumes "reliable net wire" and "prefix earlier wire" and "pre @ drop (length earlier) wire = u" and "length u < 2 ^ 31"
  shows "\<exists>ps b. read_pieces freed net (new_stream earlier False (int (length u)) pre\<lparr>via_socket := s\<rparr>) zs
      = Some (map Read_Data ps @ replicate (length zs - length ps) Read_Null, b)
    \<and> length ps \<le> length zs \<and> [] \<notin> set ps \<and> prefix (concat ps) u \<and> \<not> body_errored b
    \<and> (length ps < length zs \<longrightarrow> concat ps = u \<and> body_events b = (if u = [] then [] else [Ev_End]))"
proof (cases "u = []")
  case True
  then have "pre = []" using assms(3) by simp
  with True have "readable_ended (new_stream earlier False (int (length u)) pre\<lparr>via_socket := s\<rparr>)"
    "\<not> body_errored (new_stream earlier False (int (length u)) pre\<lparr>via_socket := s\<rparr>)"
    "body_events (new_stream earlier False (int (length u)) pre\<lparr>via_socket := s\<rparr>) = []"
    by (simp_all add: new_stream_def jayess_http_body_stream_close_socket_def jayess_http_body_stream_mark_ended_def Let_def)
  with True show ?thesis by (intro exI [of _ "[]"]) (simp add: read_pieces_ended)
next
  case False
  have "awaiting net wire u [] (new_stream earlier False (int (length u)) pre\<lparr>via_socket := s\<rparr>)"
    using assms False by (auto simp: awaiting_def receiving_def meta_def length_state_def unread_def new_stream_def Let_def)
  from awaiting_delivers [OF this assms(4), of zs freed] False show ?thesis unfolding delivers_def by auto
qed

section \<open>Where the stream fails\<close>

text \<open>When the freed text of a size does not happen to read as its end, a well-formed body is rejected.\<close>

lemma freed_text_rejected:
  assumes "pending net wire [] (chunk_text t @ rest) b" and "t \<noteq> []" and "length t < 2 ^ 31" and "\<not> freed []"
  shows "\<exists>b1. read_chunked freed net b r = Some (Read_Undefined, body_error b1 ''invalid HTTP chunk size'')"
proof -
  have b: "receiving net wire (chunk_state []) b" "unread wire b = chunk_text t @ rest"
    using assms(1) by (simp_all add: pending_def)
  then have "unread wire b = hex_text (length t) @ CRLF @ (t @ CRLF @ rest)" by (simp add: chunk_text_def)
  from body.read_line_CRLF [OF b(1) this hex_line(1)]
  obtain b1 where "read_line (jayess_http_body_stream_read_raw net) b [] = Some (Some (hex_text (length t)), b1)" by blast
  then have "next_chunk_size freed net b = Some (Bad_Chunk ''invalid HTTP chunk size'', b1)"
    using assms(3,4) by (simp add: next_chunk_size_def hex_line strtoul_hex_text hex_text_nonempty Let_def)
  then show ?thesis using pending_fields [OF assms(1)] by (auto simp: read_chunked.simps [of freed net b] Let_def)
qed

text \<open>A chunk of 2 ^ 31 bytes and more counts as none, and the reader goes round for ever.\<close>

lemma huge_chunk_reads_none:
  assumes "2 ^ 31 \<le> n" and "n < 2 ^ 32"
  shows "read_chunk_data net b r n = (Inr [], b)"
proof -
  have "(n + 2 ^ 31) mod 2 ^ 32 = n - 2 ^ 31" using assms mod_pos_geq [of "2 ^ 32" "n + 2 ^ 31"] by (simp add: mod_pos_pos_trivial)
  then have "wrap_int n = n - 2 ^ 32" by (simp add: wrap_int_def signed_of_int signed_take_bit_eq_take_bit_shift take_bit_eq_mod)
  then have "nat (min r (wrap_int n)) = 0" using assms(2) by simp
  then show ?thesis using assms(1) by (simp add: read_chunk_data_def read_data.simps)
qed

lemma huge_chunk_diverges:
  assumes "chunk_remaining b = dbl_of_int n" and "2 ^ 31 \<le> n" and "n < 2 ^ 32" and "\<not> chunk_finished b"
  shows "read_chunked freed net b r = None"
proof -
  have left: "c_int64 (chunk_remaining b) = n" using assms(1-3) by (simp add: c_int64_of_int)
  have "\<not> (c_int64 (chunk_remaining b) = n \<and> \<not> chunk_finished b)" if y: "read_chunked freed net b r = Some y" for y
  proof (rule read_chunked.raw_induct [where P = "\<lambda>freed net b r y. \<not> (c_int64 (chunk_remaining b) = n \<and> \<not> chunk_finished b)", OF _ y],
      goal_cases)
    case prems: (1 rec freed net b r y)
    show ?case
    proof
      assume "c_int64 (chunk_remaining b) = n \<and> \<not> chunk_finished b"
      moreover from this have "rec freed net b r = Some y"
        using prems(2) huge_chunk_reads_none [OF assms(2,3), of net b r] assms(2) by (simp add: Let_def)
      ultimately show False using prems(1) by blast
    qed
  qed
  then show ?thesis using left assms(4) by (cases "read_chunked freed net b r") auto
qed

text \<open>The socket of a response without a body is closed once more when the stream is closed.\<close>

lemma bodiless_closed_twice:
  assumes "jayess_http_headers_transfer_chunked d s h = Some False" and "jayess_http_headers_content_length d s h = Some 0"
  shows "map_option (\<lambda>b. closes (jayess_std_http_body_stream_close_method b)) (jayess_http_body_stream_new_from_socket d s earlier [] h) = Some 2"
  using assms
  by (simp add: jayess_std_http_body_stream_close_method_def jayess_http_body_stream_new_from_socket_def jayess_http_body_stream_new_def
      new_stream_def jayess_http_body_stream_close_socket_def jayess_http_body_stream_mark_ended_def Let_def)

end
