(* ===== verification/Http_Stream_Correct.thy ===== *)
theory Http_Stream_Correct
  imports Http_Client Http_Body_Correct
begin

text \<open>
  A response whose handler ends it with one text: the server sends its length among the headers, and a client that reads
  it as a stream gets the text. First where the head of a message ends, on any network; then the two sides.
\<close>

section \<open>Heads\<close>

definition message_head :: "(string \<times> string) list \<Rightarrow> string" where
  "message_head hs = ''HTTP/1.1 200 OK'' @ CRLF @ join CRLF (map header_pair_text hs) @ CRLF @ CRLF"

definition head_end :: "(string \<times> string) list \<Rightarrow> nat" where
  "head_end hs = length (message_head hs) - 4"

definition plain_headers :: "(string \<times> string) list \<Rightarrow> bool" where
  "plain_headers hs \<longleftrightarrow> hs \<noteq> [] \<and> list_all header_fine hs \<and> distinct (map fst hs) \<and> CHR 0x00 \<notin> set (message_head hs)"

lemma response_head_message: "response_head keep = message_head (head_pairs keep)"
  by (simp add: response_head_def message_head_def)

lemma first_line: "list_all line_char ''HTTP/1.1 200 OK''"
  by code_simp

lemma header_lines_fine:
  "plain_headers hs \<Longrightarrow> map header_pair_text hs \<noteq> [] \<and> list_all (\<lambda>l. list_all line_char l \<and> l \<noteq> []) (map header_pair_text hs)"
  using header_pair_clean by (auto simp: plain_headers_def list_all_iff)

lemma head_tail: "drop (head_end hs) (message_head hs @ x) = CRLF @ CRLF @ x" "4 \<le> length (message_head hs)"
proof -
  obtain A where A: "message_head hs = A @ CRLF @ CRLF" unfolding message_head_def by (metis append_assoc)
  then have "head_end hs = length A" by (simp add: head_end_def)
  then show "drop (head_end hs) (message_head hs @ x) = CRLF @ CRLF @ x" by (simp add: A)
  show "4 \<le> length (message_head hs)" by (simp add: A)
qed

lemma c_text_head: "plain_headers hs \<Longrightarrow> c_text (message_head hs @ x) = message_head hs @ c_text x"
  unfolding c_text_def by (rule takeWhile_append2) (auto simp: plain_headers_def)

lemma head_boundary:
  assumes "plain_headers hs"
  shows "jayess_http_header_boundary (message_head hs @ y) = Some (head_end hs)"
proof -
  let ?j = "join CRLF (map header_pair_text hs)"
  have ls: "map header_pair_text hs \<noteq> []" "list_all (\<lambda>l. list_all line_char l \<and> l \<noteq> []) (map header_pair_text hs)"
    using header_lines_fine [OF assms] by blast+
  then obtain l ls' where l: "map header_pair_text hs = l # ls'" "l \<noteq> []" "list_all line_char l"
    by (cases "map header_pair_text hs") auto
  then obtain c t where c: "?j = c # t" "line_char c" by (cases l) (auto simp: join_Cons)
  have "jayess_http_header_boundary (c # t @ CRLF @ CRLF @ y) = Some (length ?j)"
    using header_boundary_lines [OF ls, of y] by (simp add: c(1))
  then show ?thesis
    using boundary_line [OF first_line, of "CRLF @ ?j @ CRLF @ CRLF @ y"] boundary_CRLF [OF c(2), of "t @ CRLF @ CRLF @ y"]
    by (simp add: message_head_def head_end_def c(1))
qed

lemma boundary_at:
  "jayess_http_header_boundary x = Some n \<Longrightarrow> prefix (CRLF @ CRLF) (drop n x) \<or> prefix [CHR 0x0A, CHR 0x0A] (drop n x)"
proof (induction x arbitrary: n)
  case (Cons c r)
  show ?case
  proof (cases "prefix (CRLF @ CRLF) (c # r) \<or> prefix [CHR 0x0A, CHR 0x0A] (c # r)")
    case True
    then show ?thesis using Cons.prems by (simp only: jayess_http_header_boundary.simps if_True) auto
  next
    case False
    then obtain m where "jayess_http_header_boundary r = Some m" "n = Suc m"
      using Cons.prems by (simp only: jayess_http_header_boundary.simps if_False) auto
    then show ?thesis using Cons.IH by simp
  qed
qed simp

lemma boundary_append: "jayess_http_header_boundary x = Some n \<Longrightarrow> \<exists>m \<le> n. jayess_http_header_boundary (x @ y) = Some m"
proof (induction x arbitrary: n)
  case (Cons c r)
  show ?case
  proof (cases "prefix (CRLF @ CRLF) (c # r @ y) \<or> prefix [CHR 0x0A, CHR 0x0A] (c # r @ y)")
    case True
    then show ?thesis by (simp only: append_Cons jayess_http_header_boundary.simps if_True) auto
  next
    case False
    then have "\<not> (prefix (CRLF @ CRLF) (c # r) \<or> prefix [CHR 0x0A, CHR 0x0A] (c # r))"
      by (metis append_Cons prefix_prefix)
    then obtain m where m: "jayess_http_header_boundary r = Some m" "n = Suc m"
      using Cons.prems by (simp only: jayess_http_header_boundary.simps if_False) auto
    then obtain m' where "m' \<le> m" "jayess_http_header_boundary (r @ y) = Some m'" using Cons.IH by blast
    then show ?thesis using False m(2) by (simp only: append_Cons jayess_http_header_boundary.simps if_False) auto
  qed
qed simp

lemma no_boundary_earlier:
  assumes "plain_headers hs" and "k < length (message_head hs)"
  shows "jayess_http_header_boundary (c_text (take k (message_head hs))) = None"
proof (cases "jayess_http_header_boundary (c_text (take k (message_head hs)))")
  case (Some n)
  let ?H = "message_head hs"
  have "CHR 0x00 \<notin> set (take k ?H)" using assms(1) set_take_subset [of k ?H] by (auto simp: plain_headers_def)
  then have "c_text (take k ?H) = take k ?H" unfolding c_text_def by (intro takeWhile_whole) (auto simp: list_all_iff)
  with Some have n: "jayess_http_header_boundary (take k ?H) = Some n" by simp
  have long: "4 \<le> length ?H" by (rule head_tail)
  obtain m where "m \<le> n" "jayess_http_header_boundary ?H = Some m" using boundary_append [OF n, of "drop k ?H"] by auto
  then have low: "length ?H - 4 \<le> n" using head_boundary [OF assms(1), of "[]"] by (simp add: head_end_def)
  have tail: "drop (length ?H - 4) ?H = CRLF @ CRLF" using head_tail(1) [of hs "[]"] by (simp add: head_end_def)
  have cut: "drop n ?H = drop (n - (length ?H - 4)) (CRLF @ CRLF)" using low long tail by (metis drop_drop le_add_diff_inverse2)
  from boundary_at [OF n] show ?thesis
  proof
    assume "prefix (CRLF @ CRLF) (drop n (take k ?H))"
    then have "4 \<le> length (drop n (take k ?H))" using prefix_length_le by fastforce
    then show ?thesis using low assms(2) by simp
  next
    assume p: "prefix [CHR 0x0A, CHR 0x0A] (drop n (take k ?H))"
    then have "2 \<le> length (drop n (take k ?H))" using prefix_length_le by fastforce
    then have "n - (length ?H - 4) = 0 \<or> n - (length ?H - 4) = 1" using low assms(2) by auto
    moreover have "prefix [CHR 0x0A, CHR 0x0A] (drop n ?H)"
      using p by (metis append_take_drop_id drop_take prefix_prefix)
    ultimately show ?thesis unfolding cut by (auto simp: CRLF_def)
  qed
qed

lemma headers_of_head:
  assumes "plain_headers hs"
  shows "headers_before (message_head hs @ x) (head_end hs) = Inr (join CRLF (map header_pair_text hs))"
    and "body_start (message_head hs @ x) (head_end hs) = length (message_head hs)"
proof -
  show "body_start (message_head hs @ x) (head_end hs) = length (message_head hs)"
    using head_tail [of hs] by (simp add: body_start_def) (simp add: head_end_def)
  have "jayess_http_next_line (jayess_http_line_end (message_head hs @ x)) = join CRLF (map header_pair_text hs) @ CRLF @ CRLF @ x"
    using line_then_CRLF(2) [OF first_line, of "join CRLF (map header_pair_text hs) @ CRLF @ CRLF @ x"] by (simp add: message_head_def)
  then show "headers_before (message_head hs @ x) (head_end hs) = Inr (join CRLF (map header_pair_text hs))"
    by (simp add: headers_before_def head_end_def message_head_def)
qed

lemma first_line_of_head: "takeWhile line_char (message_head hs @ x) = ''HTTP/1.1 200 OK''"
  using line_then_CRLF(1) [OF first_line, of "join CRLF (map header_pair_text hs) @ CRLF @ CRLF @ x"] by (simp add: message_head_def)

text \<open>However the network cuts the bytes, the client stops reading behind the head.\<close>

lemma read_head_reliable:
  assumes net: "reliable net (message_head hs @ rest)" and hs: "plain_headers hs"
  shows "k < length (message_head hs) \<Longrightarrow>
    \<exists>pre. read_head net (take k (message_head hs)) = Some (Some (message_head hs @ pre, head_end hs)) \<and> prefix pre rest"
proof (induction "length (message_head hs) - k" arbitrary: k rule: less_induct)
  case less
  let ?H = "message_head hs"
  have wire: "?H @ rest = take k ?H @ drop k ?H @ rest" by simp
  obtain p where p: "net (take k ?H) 1024 = Arrived p" "p \<noteq> []" "prefix p (drop k ?H @ rest)"
    using net wire less.prems unfolding reliable_def by (metis append_is_Nil_conv drop_eq_Nil not_le zero_less_numeral)
  define q where "q = take 1024 p"
  have q: "q \<noteq> []" "prefix q (drop k ?H @ rest)"
    using p(2) prefix_order.trans [OF take_is_prefix p(3)] by (simp_all add: q_def)
  show ?case
  proof (cases "k + length q < length ?H")
    case True
    then have "q = take (length q) (drop k ?H)" using q(2) by (auto simp: prefix_def append_eq_append_conv2)
    then have step: "take k ?H @ q = take (k + length q) ?H" by (metis take_add)
    have "0 < length q" using q(1) by blast
    then have "length ?H - (k + length q) < length ?H - k" using less.prems by linarith
    from less.hyps [OF this True] show ?thesis
      using no_boundary_earlier [OF hs True] q(1) p(1) by (simp add: read_head.simps [of net "take k ?H"] step q_def [symmetric])
  next
    case False
    then have "length (drop k ?H) \<le> length q" by simp
    then have "prefix (drop k ?H) q" using prefix_length_prefix [OF prefixI [OF refl] q(2)] by simp
    then obtain pre where pre: "q = drop k ?H @ pre" "prefix pre rest" using q(2) by (auto simp: prefix_def)
    then have "take k ?H @ q = ?H @ pre" by (metis append_assoc append_take_drop_id)
    then show ?thesis
      using head_boundary [OF hs, of "c_text pre"] q(1) p(1) pre(2)
      by (simp add: read_head.simps [of net "take k ?H"] q_def [symmetric] c_text_head [OF hs])
  qed
qed

section \<open>A length among the headers\<close>

definition length_pairs :: "bool \<Rightarrow> nat \<Rightarrow> (string \<times> string) list" where
  "length_pairs keep n = [(''Content-Length'', dec n), (''Connection'', if keep then ''keep-alive'' else ''close'')]"

lemma dec_plain: "list_all (\<lambda>c. line_char c \<and> \<not> c_isspace c \<and> c \<noteq> CHR 0x00) (dec n)"
proof -
  have "\<not> is_digit (CHR 0x0D)" "\<not> is_digit (CHR 0x0A)" "\<not> is_digit (CHR 0x00)" by code_simp+
  then have "line_char c \<and> \<not> c_isspace c \<and> c \<noteq> CHR 0x00" if "is_digit c" for c
    using is_digit_not_special [OF that] that unfolding line_char_def by blast
  then show ?thesis using dec_digits [of n] by (auto simp: list_all_iff)
qed

lemma digits_val_dec: "digits_val 10 (dec n) = n"
proof (induction n rule: dec.induct)
  case (1 n)
  have "hex_digit_val (digit_char d) = d" if "d < 10" for d
  proof -
    have "\<forall>d \<in> {..<10}. hex_digit_val (digit_char d) = d" by code_simp
    with that show ?thesis by simp
  qed
  then show ?case using 1 by (cases "n < 10") (simp_all add: dec.simps [of n] digits_val_def)
qed

lemma strtol_dec:
  assumes "n < 2 ^ 31"
  shows "c_strtol (dec n) = (int n, [])"
proof -
  have digits: "list_all (digit_in 10) (dec n)"
    using dec_digits [of n] by (auto simp: list_all_iff digit_in_def is_digit_def c_class_defs)
  have ws: "dropWhile c_isspace (dec n) = dec n" using dec_plain [of n] by (intro dropWhile_none) (auto simp: list_all_iff)
  have sign: "strip_sign (dec n) = (False, dec n)"
    using dec_digits [of n] is_digit_not_special by (cases "dec n") (auto simp: strip_sign_def)
  have "scan_integer 10 (dec n) = Some (False, n, [])"
    using digits by (simp add: scan_integer_def ws sign takeWhile_whole digits_val_dec)
  then show ?thesis using assms by (simp add: c_strtol_def)
qed

lemma length_of_dec: "n < 2 ^ 31 \<Longrightarrow> length_of_text (dec n) = int n"
proof -
  assume n: "n < 2 ^ 31"
  have "jayess_http_trim_copy (dec n) = dec n" using dec_plain [of n] by (intro trim_none) (auto simp: list_all_iff)
  then show ?thesis by (simp add: length_of_text_def strtol_dec [OF n] dec_nonempty [symmetric] del: dec_nonempty) (metis dec_nonempty)
qed

lemma length_pairs_plain: "plain_headers (length_pairs keep n)"
proof -
  have "jayess_http_trim_copy (dec n) = dec n" using dec_plain [of n] by (intro trim_none) (auto simp: list_all_iff)
  moreover have "list_all line_char (dec n)" "CHR 0x00 \<notin> set (dec n)" using dec_plain [of n] by (auto simp: list_all_iff)
  moreover have "header_fine (''Content-Length'', []) \<and> header_fine (''Connection'', ''close'') \<and> header_fine (''Connection'', ''keep-alive'')"
    by code_simp
  ultimately show ?thesis
    by (auto simp: plain_headers_def length_pairs_def header_fine_def message_head_def header_pair_text_def CRLF_def)
qed

lemma length_names:
  "jayess_http_text_eq_ci ''Content-Length'' ''Content-Length''" "\<not> jayess_http_text_eq_ci ''Content-Length'' ''Transfer-Encoding''"
  "\<not> jayess_http_text_eq_ci ''Content-Length'' ''Connection''"
  by code_simp+

lemma length_headers:
  assumes "entries_at s h = map text_entry (length_pairs keep n)"
  shows "jayess_http_headers_transfer_chunked (Suc d) s (Some h) = Some False" and "\<not> no_length s h"
    and "n < 2 ^ 31 \<Longrightarrow> jayess_http_headers_content_length (Suc d) s (Some h) = Some (int n)"
  using length_names names_differ
  by (simp_all add: jayess_http_headers_transfer_chunked_def jayess_http_header_value_contains_ci_def jayess_http_header_get_ci_def
      assms length_pairs_def no_length_def jayess_http_headers_content_length_def string_text length_of_dec)

section \<open>What the server sends\<close>

lemma strstr_boundary: "strstr x (CRLF @ CRLF) = Some m \<Longrightarrow> \<exists>n \<le> m. jayess_http_header_boundary x = Some n"
proof (induction x arbitrary: m)
  case (Cons c r)
  show ?case
  proof (cases "prefix (CRLF @ CRLF) (c # r) \<or> prefix [CHR 0x0A, CHR 0x0A] (c # r)")
    case True
    then show ?thesis by (simp only: jayess_http_header_boundary.simps if_True) auto
  next
    case False
    then obtain m' where "strstr r (CRLF @ CRLF) = Some m'" "m = Suc m'"
      using Cons.prems by (simp only: strstr.simps de_Morgan_disj if_False) auto
    moreover from this obtain n where "n \<le> m'" "jayess_http_header_boundary r = Some n" using Cons.IH by blast
    ultimately show ?thesis using False by (simp only: jayess_http_header_boundary.simps if_False) auto
  qed
qed (simp add: CRLF_def)

lemma header_part_head: "plain_headers hs \<Longrightarrow> header_part (message_head hs) = message_head hs"
proof (cases "strstr (message_head hs) (CRLF @ CRLF)")
  case (Some m)
  assume hs: "plain_headers hs"
  have "head_end hs \<le> m" using strstr_boundary [OF Some] head_boundary [OF hs, of "[]"] by auto
  then show ?thesis using Some by (simp add: header_part_def head_end_def)
qed (simp add: header_part_def)

lemma length_head_short: "n < 2 ^ 31 \<Longrightarrow> length (message_head (length_pairs keep n)) \<le> 128"
proof -
  assume "n < 2 ^ 31"
  then have "length (dec n) \<le> 10" by (intro length_dec_le) simp_all
  then show ?thesis by (simp add: message_head_def length_pairs_def header_pair_text_def)
qed

lemma status_object:
  assumes "object_get s a ''statusCode'' = Some (jayess_value_from_number (dbl_of_int 200))"
    and "entries_at s h = map text_entry hs" and "h < m" and "hs \<noteq> []"
  shows "jayess_std_http_format_response (Suc d) (header_message s m h (object_get s a ''statusCode'')) (Some (VObject m))
    = Some (Inr (message_head hs))"
proof -
  let ?s = "header_message s m h (object_get s a ''statusCode'')"
  have get: "object_get ?s m ''version'' = Some (VString ''HTTP/1.1'')" "object_get ?s m ''reason'' = Some (VString ''OK'')"
    "object_get ?s m ''status'' = Some (jayess_value_from_number (dbl_of_int 200))" "object_get ?s m ''body'' = Some (VString [])"
    "object_get ?s m ''headers'' = Some (VObject h)"
    by (simp_all add: header_message_def object_get_set assms(1))
  have "entries_at ?s h = map text_entry hs" using assms(2,3) by (simp add: header_message_def object_set_def)
  from format_header_pairs [OF this, of d] show ?thesis
    using concat_terminated [of "map header_pair_text hs" CRLF] assms(4)
    by (simp add: jayess_std_http_format_response_def jayess_value_as_object_def get status_text string_text headers_of_def
        format_response_texts_def into_buffer_def message_text_def or_else_def message_head_def)
qed

lemma ended_response:
  assumes room: "roomy net k M" and u: "length u \<le> M" "length u < 2 ^ 31"
  shows "\<exists>r. serve_request net (Suc d) t k keep [Op_End (Some (VString u))] = Some (Inr r)
    \<and> finished r \<and> handle_open (sock r) = keep
    \<and> sent (sock r) = sent k @ message_head (length_pairs keep (length u)) @ u"
proof -
  obtain a r where new: "new_response t k keep = (a, r)" by fastforce
  note facts = new_response_facts [OF new]
  let ?s = "js (heap r)" and ?h = "Suc a" and ?m = "Suc (Suc a)" and ?c = "if keep then ''keep-alive'' else ''close''"
  let ?hs = "length_pairs keep (length u)"
  define s0 where "s0 = object_set ?s ?h ''Content-Length'' (VString (dec (length u)))"
  define s1 where "s1 = snd (jayess_object_new s0)"
  define s3 where "s3 = object_set s1 ?h ''Connection'' (VString ?c)"
  define s5 where "s5 = header_message s3 ?m ?h (object_get s3 a ''statusCode'')"
  have h0: "ensure_headers ?s a = (?h, ?s)" by (simp add: ensure_headers_def headers_of_def facts(2) jayess_value_as_object_def)
  have "no_length ?s ?h" "jayess_http_headers_transfer_chunked (Suc d) ?s (Some ?h) = Some False"
    by (simp_all add: no_length_def jayess_http_headers_transfer_chunked_def jayess_http_header_value_contains_ci_def
        jayess_http_header_get_ci_def facts(3))
  then have noted: "note_length (Suc d) a r (Some (VString u)) = Some (with_js r s0)"
    by (simp add: note_length_def facts(5) absent_def h0 string_text s0_def)
  have m: "jayess_object_new s0 = (?m, s1)" by (simp add: s1_def s0_def facts(4) prod_eq_iff member_set)
  have e0: "entries_at s0 ?h = [text_entry (''Content-Length'', dec (length u))]"
    by (simp add: s0_def member_set facts(3) text_entry_def)
  have e1: "entries_at s1 ?h = entries_at s0 ?h"
    using object_new_other [of ?h s0] by (simp add: s1_def entries_at_def s0_def facts(4) member_set)
  then have "\<forall>e \<in> set (entries_at s1 ?h). entry_key e \<noteq> Some ''Connection''" by (simp add: e0)
  from member_set(3) [OF this] have e3: "entries_at s3 ?h = map text_entry ?hs"
    by (simp add: s3_def e1 e0 length_pairs_def) (simp add: text_entry_def)
  have get1: "object_get s1 a key = object_get ?s a key" for key
    using object_new_other [of a s0] by (simp add: s1_def object_get_def entries_at_def s0_def facts(4) member_set object_set_other)
  then have h: "ensure_headers s1 a = (?h, s1)" by (simp add: ensure_headers_def headers_of_def facts(2) jayess_value_as_object_def)
  have connection: "set_missing s1 ?h ''Connection'' ?c = s3"
    using length_names(3) by (simp add: set_missing_def jayess_http_header_get_ci_def e1 e0 s3_def)
  have get3: "object_get s3 a key = object_get ?s a key" for key by (simp add: s3_def object_get_set get1)
  note plain = length_headers(1,2) [OF e3]
  have formatted: "jayess_std_http_format_response (Suc d) s5 (Some (VObject ?m)) = Some (Inr (message_head ?hs))"
    unfolding s5_def by (rule status_object [OF _ e3]) (simp_all add: get3 facts(1) length_pairs_def)
  have status: "object_get s0 a ''statusCode'' = object_get s3 a ''statusCode''"
    by (simp add: get3 s0_def object_get_set)
  define r0 where "r0 = (with_js (with_js r s0) s5)\<lparr>chunked := False\<rparr>"
  obtain r1 where r1: "send_text net r0 (header_part (message_head ?hs)) = (True, r1)" "went_out r0 (message_head ?hs) r1"
    "roomy net (sock r1) M"
  proof -
    have "roomy net (sock r0) M" "length (message_head ?hs) \<le> M"
      using room length_head_short [OF u(2), of keep] facts(7) by (simp_all add: r0_def with_js_def roomy_def)
    from send_fitting [OF this] show thesis using that header_part_head [OF length_pairs_plain] by auto
  qed
  have head: "jayess_std_http_response_send_headers net (Suc d) a (with_js r s0) = Some (Inr (True, r1\<lparr>headers_sent := True\<rparr>))"
    using facts(5,8) formatted r1(1) plain
    by (simp add: jayess_std_http_response_send_headers_def with_js_def [of r s0] m h connection status s5_def [symmetric] Let_def)
      (simp add: r0_def with_js_def)
  obtain r2 where r2: "send_text net (r1\<lparr>headers_sent := True\<rparr>) u = (True, r2)" "went_out (r1\<lparr>headers_sent := True\<rparr>) u r2"
    using send_fitting [of net "r1\<lparr>headers_sent := True\<rparr>" M u] r1(3) u(1) by auto
  have fields: "\<not> chunked (r1\<lparr>headers_sent := True\<rparr>)" "keep_alive r2 = keep" "\<not> chunked r2" "handle_open (sock r2)"
    "sent (sock r2) = sent k @ message_head ?hs @ u"
    using r1(2,3) r2(2) facts(7,8) unfolding went_out_def
    by (cases r; cases r1; cases r2; auto simp: r0_def with_js_def same_socket_def roomy_def)+
  have wrote: "jayess_std_http_response_write_method net (Suc d) a (with_js r s0) (Some (VString u)) = Some (Inr (True, r2))"
    using facts(6) fields(1) r2(1)
    by (simp add: jayess_std_http_response_write_method_def with_js_def [of r s0] head [unfolded with_js_def] response_socket_write_text)
  define r3 where "r3 = finish_response net a r2"
  have r3: "finished r3 \<and> handle_open (sock r3) = keep \<and> sent (sock r3) = sent (sock r2)"
    using fields(2-4) unfolding r3_def finish_response_def
    by (simp add: Let_def with_js_def jayess_std_socket_close_method_def jayess_std_socket_mark_closed_def
        jayess_std_socket_emit_close_def note_event_def)
  have "serve_request net (Suc d) t k keep [Op_End (Some (VString u))] = Some (Inr r3)"
    using r3 facts(6) noted wrote
    by (simp add: serve_request_def new jayess_std_http_response_end_method_def absent_def r3_def [symmetric])
  with r3 fields(5) show ?thesis by auto
qed

section \<open>What the client reads\<close>

lemma client_streams:
  assumes "n < 2 ^ 31"
  shows "\<exists>m t2. streamed_response (Suc d) t1 (message_head (length_pairs keep n) @ pre) (head_end (length_pairs keep n))
      = Some (Inr (VObject m, Some (new_stream (message_head (length_pairs keep n) @ pre) False (int n) pre\<lparr>via_socket := True\<rparr>), t2))
    \<and> object_get (js t2) m ''status'' = Some (jayess_value_from_number (dbl_of_int 200))"
proof -
  let ?hs = "length_pairs keep n"
  let ?in = "message_head ?hs @ pre"
  note plain = length_pairs_plain [of keep n]
  define s1 where "s1 = set_texts (snd (jayess_object_new (js t1))) (next_address (js t1)) ?hs"
  have fine: "list_all header_fine ?hs" "distinct (map fst ?hs)" using plain by (simp_all add: plain_headers_def)
  note headers = parse_header_object [OF fine, of "js t1", folded s1_def]
  have body: "jayess_http_body_stream_new_from_socket (Suc d) s1 ?in pre (Some (next_address (js t1)))
      = Some (new_stream ?in False (int n) pre\<lparr>via_socket := True\<rparr>)"
    by (simp add: jayess_http_body_stream_new_from_socket_def jayess_http_body_stream_new_def length_headers(1) [OF headers(2)]
        length_headers(3) [OF headers(2) assms])
  obtain o1 s2 where o1: "jayess_object_new s1 = (o1, s2)" by fastforce
  define s3 where "s3 = object_set s2 o1 ''__jayess_std_kind'' (VString ''HttpBodyStream'')"
  obtain a s4 where a: "jayess_object_new s3 = (a, s4)" by fastforce
  show ?thesis
    by (simp add: streamed_response_def c_text_head [OF plain] first_line_of_head headers_of_head [OF plain] headers(1) not_space_def
        strtod_status body o1 s3_def [symmetric] a object_get_set Let_def)
qed

text \<open>
  C35. A streamed response arrives. The handler of a request ends its response with a text that fits the high-water mark of
  the socket (at least 128) and has fewer than \<open>2 ^ 31\<close> characters; every call of send takes at least one character. The
  response is then finished, the socket closed unless the connection is kept alive, and what went out comes to a client
  that reads it as a stream. However the network cuts the bytes (every recv gives at least one while there are some), the
  client gets a response with status 200, and whatever sizes it then asks for, its reads give pieces that are not empty
  and together a prefix of the text; once a read gives null the pieces are the whole text, every later read gives null
  too, the end was announced once (never for an empty text), and there is no error. This is the coding with
  \<open>Content-Length\<close>; a chunked stream is decided by memory that was freed.
\<close>

theorem streamed_response_delivered:
  assumes room: "roomy net k M" and fits: "length u \<le> M" "length u < 2 ^ 31" and link: "\<And>out. reliable (link out) out"
  shows "\<exists>r out n b t2 ps b2. serve_request net (Suc d) t k keep [Op_End (Some (VString u))] = Some (Inr r)
    \<and> finished r \<and> handle_open (sock r) = keep \<and> sent (sock r) = sent k @ out
    \<and> jayess_http_read_response_stream_socket (Suc d) (link out) t1 = Some (Inr (VObject n, Some b, t2))
    \<and> object_get (js t2) n ''status'' = Some (jayess_value_from_number (dbl_of_int 200))
    \<and> read_pieces freed (link out) b zs = Some (map Read_Data ps @ replicate (length zs - length ps) Read_Null, b2)
    \<and> length ps \<le> length zs \<and> [] \<notin> set ps \<and> prefix (concat ps) u \<and> \<not> body_errored b2
    \<and> (length ps < length zs \<longrightarrow> concat ps = u \<and> body_events b2 = (if u = [] then [] else [Ev_End]))"
proof -
  let ?hs = "length_pairs keep (length u)"
  let ?H = "message_head ?hs"
  let ?out = "?H @ u"
  obtain r where r: "serve_request net (Suc d) t k keep [Op_End (Some (VString u))] = Some (Inr r)"
    "finished r" "handle_open (sock r) = keep" "sent (sock r) = sent k @ ?out"
    using ended_response [OF room fits, of d t keep] by auto
  have "0 < length ?H" using head_tail(2) [of ?hs] by linarith
  from read_head_reliable [OF link length_pairs_plain this]
  obtain pre where pre: "read_head (link ?out) [] = Some (Some (?H @ pre, head_end ?hs))" "prefix pre u" by auto
  obtain n t2 where n: "streamed_response (Suc d) t1 (?H @ pre) (head_end ?hs)
      = Some (Inr (VObject n, Some (new_stream (?H @ pre) False (int (length u)) pre\<lparr>via_socket := True\<rparr>), t2))"
    "object_get (js t2) n ''status'' = Some (jayess_value_from_number (dbl_of_int 200))"
    using client_streams [OF fits(2)] by blast
  obtain v where "u = pre @ v" using pre(2) by (auto simp: prefix_def)
  then have rest: "pre @ drop (length (?H @ pre)) ?out = u" by (metis append_assoc append_eq_conv_conj)
  have "prefix (?H @ pre) ?out" using pre(2) by simp
  from body_with_length_delivered [OF link this rest fits(2), of freed True zs]
  obtain ps b2 where "read_pieces freed (link ?out) (new_stream (?H @ pre) False (int (length u)) pre\<lparr>via_socket := True\<rparr>) zs
      = Some (map Read_Data ps @ replicate (length zs - length ps) Read_Null, b2)"
    "length ps \<le> length zs \<and> [] \<notin> set ps \<and> prefix (concat ps) u \<and> \<not> body_errored b2
      \<and> (length ps < length zs \<longrightarrow> concat ps = u \<and> body_events b2 = (if u = [] then [] else [Ev_End]))" by blast
  moreover have "jayess_http_read_response_stream_socket (Suc d) (link ?out) t1
      = Some (Inr (VObject n, Some (new_stream (?H @ pre) False (int (length u)) pre\<lparr>via_socket := True\<rparr>), t2))"
    by (simp only: jayess_http_read_response_stream_socket_def pre(1) n(1) bind.simps option.case prod.case)
  ultimately show ?thesis using r n(2) by blast
qed

text \<open>A network that gives everything that has not arrived, as far as it fits.\<close>

definition whole_net :: "string \<Rightarrow> incoming" where
  "whole_net wire h n = (let r = drop (length h) wire in if r = [] then Ended_By_Peer else Arrived (take n r))"

lemma reliable_whole_net: "reliable (whole_net wire) wire"
  by (auto simp: reliable_def whole_net_def take_is_prefix)

theorem streamed_response_delivered_witness:
  "\<exists>r out n b t2 ps b2. serve_request example_net 1 \<lparr>js = initial_state, native = \<lambda>a. None\<rparr> jayess_std_socket_value_from_handle False
       [Op_End (Some (VString ''hello''))] = Some (Inr r)
    \<and> sent (sock r) = sent jayess_std_socket_value_from_handle @ out
    \<and> jayess_http_read_response_stream_socket 1 (whole_net out) \<lparr>js = initial_state, native = \<lambda>a. None\<rparr> = Some (Inr (VObject n, Some b, t2))
    \<and> read_pieces (\<lambda>r. False) (whole_net out) b (replicate 6 None)
        = Some (map Read_Data ps @ replicate (6 - length ps) Read_Null, b2)
    \<and> concat ps = ''hello'' \<and> body_events b2 = [Ev_End]"
proof -
  have fits: "length ''hello'' \<le> 4096" "length ''hello'' < 2 ^ 31" by simp_all
  have short: "length ps < 6" if "[] \<notin> set ps" "prefix (concat ps) ''hello''" for ps :: "string list"
  proof -
    have "length ps \<le> length (concat ps)" using that(1)
    proof (induction ps)
      case (Cons p ps)
      then show ?case by (cases p) auto
    qed simp
    also have "\<dots> \<le> length ''hello''" using that(2) by (rule prefix_length_le)
    finally show ?thesis by simp
  qed
  from streamed_response_delivered [OF roomy_example_net fits reliable_whole_net, of 0
      "\<lparr>js = initial_state, native = \<lambda>a. None\<rparr>" False "\<lparr>js = initial_state, native = \<lambda>a. None\<rparr>" "\<lambda>r. False" "replicate 6 None"]
  obtain r out n b t2 ps b2 where run: "serve_request example_net (Suc 0) \<lparr>js = initial_state, native = \<lambda>a. None\<rparr>
      jayess_std_socket_value_from_handle False [Op_End (Some (VString ''hello''))] = Some (Inr r)"
    "sent (sock r) = sent jayess_std_socket_value_from_handle @ out"
    "jayess_http_read_response_stream_socket (Suc 0) (whole_net out) \<lparr>js = initial_state, native = \<lambda>a. None\<rparr>
      = Some (Inr (VObject n, Some b, t2))"
    "read_pieces (\<lambda>r. False) (whole_net out) b (replicate 6 None) = Some (map Read_Data ps @ replicate (6 - length ps) Read_Null, b2)"
    "[] \<notin> set ps" "prefix (concat ps) ''hello''" "length ps < 6 \<longrightarrow> concat ps = ''hello'' \<and> body_events b2 = [Ev_End]"
    by (simp only: length_replicate list.distinct if_False) blast
  with short [OF run(5,6)] show ?thesis unfolding One_nat_def by blast
qed

end
