(* ===== verification/Http_Client_Correct.thy ===== *)
theory Http_Client_Correct
  imports Http_Stream_Correct
begin

text \<open>
  How many requests a redirect can cause, and where receiving a response goes wrong.
\<close>

section \<open>Redirects\<close>

lemma send_request_tries:
  "send_request d inet t a tries = Some (Inr (c, tries1, t1)) \<Longrightarrow> length tries1 \<le> length tries + 1"
  by (auto simp: send_request_def and_then_def Let_def split: option.splits sum.splits if_splits)

text \<open>
  A request is tried at most once more than redirects are allowed.
\<close>

lemma and_then_InrE:
  assumes "and_then r f = Some (Inr y)"
  obtains x where "r = Some (Inr x)" and "f x = Some (Inr y)"
  using assms by (auto simp: and_then_def split: option.splits sum.splits)

lemma request_loop_step:
  assumes "request_loop d inet streamed t a tries redirects most = Some (Inr (v, b, tries1, t1))"
  shows "length tries1 \<le> length tries + 1 \<or> (redirects < most \<and> (\<exists>t2 a2 tries2. length tries2 \<le> length tries + 1
    \<and> request_loop d inet streamed t2 a2 tries2 (redirects + 1) most = Some (Inr (v, b, tries1, t1))))"
  using assms unfolding request_loop.simps [of d inet streamed t]
  by (auto elim!: and_then_InrE simp: Let_def dest!: send_request_tries split: option.splits if_splits) blast+

lemma redirects_bounded:
  "request_loop d inet streamed t a tries redirects most = Some (Inr (v, b, tries1, t1))
   \<Longrightarrow> length tries1 \<le> length tries + (most - redirects) + 1"
proof (induction "most - redirects" arbitrary: t a tries redirects rule: less_induct)
  case less
  show ?case
  proof (cases "length tries1 \<le> length tries + 1")
    case False
    then obtain t2 a2 tries2 where "redirects < most" "length tries2 \<le> length tries + 1"
      and run: "request_loop d inet streamed t2 a2 tries2 (redirects + 1) most = Some (Inr (v, b, tries1, t1))"
      using request_loop_step [OF less.prems] by blast
    moreover from this have "most - (redirects + 1) < most - redirects" by simp
    from less.hyps [OF this run] have "length tries1 \<le> length tries2 + (most - (redirects + 1)) + 1" .
    ultimately show ?thesis by linarith
  qed simp
qed

text \<open>\<open>http.request\<close> takes no notice of the number of redirects its options allow.\<close>

definition no_limit :: "nat \<Rightarrow> jayess_state \<Rightarrow> bool" where
  "no_limit a s \<longleftrightarrow> object_get s a ''maxRedirects'' = None \<and> a < next_address s"

lemma no_limit_set: "no_limit a s \<Longrightarrow> k \<noteq> ''maxRedirects'' \<Longrightarrow> no_limit a (object_set s b k v)"
  by (simp add: no_limit_def object_get_set)

lemma no_limit_given: "no_limit a s \<Longrightarrow> k \<noteq> ''maxRedirects'' \<Longrightarrow> no_limit a (set_given a from k v s)"
  by (simp add: set_given_def no_limit_set)

lemma no_limit_new: "no_limit a s \<Longrightarrow> no_limit a (snd (jayess_object_new s))"
  using object_new_other [of a s] by (simp add: no_limit_def object_get_def entries_at_def)

lemma no_limit_key: "no_limit a s \<Longrightarrow> k \<noteq> ''maxRedirects'' \<Longrightarrow> no_limit a (object_set_key s b (VString k) v)"
proof (cases v)
  case None
  then show "no_limit a s \<Longrightarrow> ?thesis"
    by (auto simp: no_limit_def object_get_def entries_at_def object_set_key_def jayess_object_set_key_value_def)
qed (simp add: no_limit_set flip: object_set_def)

lemma no_limit_headers: "no_limit a s \<Longrightarrow> no_limit a (headers_given a from s)"
  using no_limit_new [of a s] by (auto simp: headers_given_def no_limit_set split: option.split prod.split)

lemma max_redirects_ignored:
  assumes "request_from_fields get s from = (a, s1)"
  shows "max_redirects s1 a = 5"
proof -
  have "no_limit (fst (jayess_object_new s)) (snd (jayess_object_new s))"
    by (simp add: no_limit_def object_get_def entries_at_def jayess_object_new_def jayess_object_get_def jayess_object_get_key_value_def Let_def)
  moreover obtain a0 s0 where new: "jayess_object_new s = (a0, s0)" by fastforce
  ultimately have "no_limit a0 s0" by simp
  then have "no_limit a s1"
    using assms unfolding request_from_fields_def Let_def
    by (auto simp: new intro!: no_limit_given no_limit_key no_limit_set no_limit_headers split: if_splits)
  then show ?thesis using c_int_of_int [of 0] by (simp add: max_redirects_def no_limit_def dbl_of_int_0)
qed

section \<open>Where receiving fails\<close>

text \<open>A whole response in the chunked coding: whether it is complete depends on freed memory.\<close>

lemma head_pairs_plain: "plain_headers (head_pairs keep)"
proof -
  have "\<forall>keep \<in> {True, False}. CHR 0x00 \<notin> set (message_head (head_pairs keep))" by code_simp
  then have "CHR 0x00 \<notin> set (message_head (head_pairs keep))" by (cases keep) simp_all
  then show ?thesis using head_pairs_fine [of keep] by (simp add: plain_headers_def head_pairs_def)
qed

lemma whole_chunked_reads_freed:
  "jayess_http_response_complete (Suc d) s (response_head keep @ hex_text n @ CRLF @ x) = Some (Inl Out_of_bounds)"
proof -
  let ?hs = "head_pairs keep" and ?rest = "hex_text n @ CRLF @ x"
  define s1 where "s1 = set_texts (snd (jayess_object_new s)) (next_address s) ?hs"
  note headers = parse_header_object [OF head_pairs_fine(1) [of keep] head_pairs_fine(2) [of keep], of s, folded s1_def]
  have "takeWhile line_char ?rest = hex_text n" "hex_text n \<noteq> ?rest"
    using line_then_CRLF(1) [OF hex_line(1)] by (simp_all add: CRLF_def)
  moreover have "jayess_http_trim_copy (hex_text n) \<noteq> []" by (simp add: hex_line hex_text_nonempty)
  ultimately have "jayess_http_chunked_body_complete ?rest = Inl Out_of_bounds"
    by (simp add: jayess_http_chunked_body_complete_def hex_line Let_def)
  then show ?thesis
    using head_boundary [OF head_pairs_plain, of keep "c_text ?rest"]
    by (simp add: jayess_http_response_complete_def response_head_message c_text_head [OF head_pairs_plain]
        headers_of_head [OF head_pairs_plain] headers(1) head_chunked [OF headers(2)] Let_def)
qed

text \<open>A response whose lines end in line feeds and that has no headers makes the client copy from unallocated memory.\<close>

lemma bare_response_overreads:
  "streamed_response d t (''HTTP/1.1 200 OK'' @ [CHR 0x0A, CHR 0x0A]) 15 = Some (Inl Out_of_bounds)"
  by (simp add: streamed_response_def headers_before_def c_text_def line_char_def not_space_def jayess_http_line_end_def
      jayess_http_next_line_def CRLF_def Let_def)

end
