(* ===== verification/Members.thy ===== *)
theory Members
  imports Workers Listeners Map_Set
begin

text \<open>
  Reading and writing members of values (\<open>jayess_runtime.c\<close>): the members every kind of value has by itself, accessors,
  properties, the functions of \<open>Object\<close>, and the index operator. The code of functions is the parameter \<open>code\<close>; the
  address the linker gives to a function of the runtime is the parameter \<open>link\<close>.
\<close>

section \<open>Built-in members\<close>

text \<open>
  A method is a new function on the value, with its number of parameters and whether the last takes the rest; a field is
  a property of the object under that or another name; the others are computed.
\<close>

datatype member =
    M_Method string int bool
  | M_Field string
  | M_Slot_Count string
  | M_Byte_Length
  | M_Byte_Count
  | M_Buffer
  | M_Elements
  | M_Text_Length
  | M_Description

definition method_list :: "(string \<times> string \<times> int) list \<Rightarrow> (string \<times> member) list" where
  "method_list ms = map (\<lambda>(key, symbol, params). (key, M_Method symbol params False)) ms"

definition field_list :: "string list \<Rightarrow> (string \<times> member) list" where
  "field_list keys = map (\<lambda>key. (key, M_Field key)) keys"

definition symbol_members :: "(string \<times> member) list" where
  "symbol_members =
     [(''description'', M_Description)] @
     method_list [(''toString'', ''jayess_std_symbol_to_string_method'', 0)]"

definition string_members :: "(string \<times> member) list" where
  "string_members =
     [(''length'', M_Text_Length)] @
     method_list [(''includes'', ''jayess_std_string_includes_method'', 1),
       (''startsWith'', ''jayess_std_string_starts_with_method'', 1),
       (''endsWith'', ''jayess_std_string_ends_with_method'', 1),
       (''slice'', ''jayess_std_string_slice_method'', 2),
       (''trim'', ''jayess_std_string_trim_method'', 0),
       (''toUpperCase'', ''jayess_std_string_upper_method'', 0),
       (''toLowerCase'', ''jayess_std_string_lower_method'', 0),
       (''split'', ''jayess_std_string_split_method'', 1),
       (''match'', ''jayess_std_string_match_method'', 1),
       (''search'', ''jayess_std_string_search_method'', 1),
       (''replace'', ''jayess_std_string_replace_method'', 2)]"

definition array_members :: "(string \<times> member) list" where
  "array_members =
     method_list [(''includes'', ''jayess_value_array_includes'', 1),
       (''join'', ''jayess_value_array_join'', 1)]"

definition map_members :: "(string \<times> member) list" where
  "map_members =
     [(''size'', M_Slot_Count ''__jayess_map_keys'')] @
     method_list [(''get'', ''jayess_std_map_get_method'', 1),
       (''set'', ''jayess_std_map_set_method'', 2),
       (''has'', ''jayess_std_map_has_method'', 1),
       (''delete'', ''jayess_std_map_delete_method'', 1),
       (''keys'', ''jayess_std_map_keys_method'', 0),
       (''values'', ''jayess_std_map_values_method'', 0),
       (''entries'', ''jayess_std_map_entries_method'', 0),
       (''clear'', ''jayess_std_map_clear_method'', 0)]"

definition set_members :: "(string \<times> member) list" where
  "set_members =
     [(''size'', M_Slot_Count ''__jayess_set_values'')] @
     method_list [(''add'', ''jayess_std_set_add_method'', 1),
       (''has'', ''jayess_std_set_has_method'', 1),
       (''delete'', ''jayess_std_set_delete_method'', 1),
       (''values'', ''jayess_std_set_values_method'', 0),
       (''entries'', ''jayess_std_set_entries_method'', 0),
       (''clear'', ''jayess_std_set_clear_method'', 0)]"

definition weak_map_members :: "(string \<times> member) list" where
  "weak_map_members =
     method_list [(''get'', ''jayess_std_weak_map_get_method'', 1),
       (''set'', ''jayess_std_weak_map_set_method'', 2),
       (''has'', ''jayess_std_weak_map_has_method'', 1),
       (''delete'', ''jayess_std_weak_map_delete_method'', 1)]"

definition weak_set_members :: "(string \<times> member) list" where
  "weak_set_members =
     method_list [(''add'', ''jayess_std_weak_set_add_method'', 1),
       (''has'', ''jayess_std_weak_set_has_method'', 1),
       (''delete'', ''jayess_std_weak_set_delete_method'', 1)]"

definition date_members :: "(string \<times> member) list" where
  "date_members =
     method_list [(''getTime'', ''jayess_std_date_get_time_method'', 0),
       (''toString'', ''jayess_std_date_to_string_method'', 0),
       (''toISOString'', ''jayess_std_date_to_iso_string_method'', 0)]"

definition reg_exp_members :: "(string \<times> member) list" where
  "reg_exp_members =
     [(''source'', M_Field ''__jayess_regexp_pattern'')] @
     [(''flags'', M_Field ''__jayess_regexp_flags'')] @
     method_list [(''test'', ''jayess_std_regexp_test_method'', 1)]"

definition error_members :: "(string \<times> member) list" where
  "error_members =
     method_list [(''toString'', ''jayess_std_error_to_string_method'', 0)]"

definition buffer_members :: "(string \<times> member) list" where
  "buffer_members =
     [(''byteLength'', M_Byte_Length)]"

definition data_view_members :: "(string \<times> member) list" where
  "data_view_members =
     [(''buffer'', M_Buffer)] @
     [(''byteLength'', M_Byte_Count)] @
     method_list [(''getUint8'', ''jayess_std_data_view_get_uint8_method'', 1),
       (''setUint8'', ''jayess_std_data_view_set_uint8_method'', 2),
       (''getInt8'', ''jayess_std_data_view_get_int8_method'', 1),
       (''setInt8'', ''jayess_std_data_view_set_int8_method'', 2),
       (''getUint16'', ''jayess_std_data_view_get_uint16_method'', 2),
       (''setUint16'', ''jayess_std_data_view_set_uint16_method'', 3),
       (''getInt16'', ''jayess_std_data_view_get_int16_method'', 2),
       (''setInt16'', ''jayess_std_data_view_set_int16_method'', 3),
       (''getUint32'', ''jayess_std_data_view_get_uint32_method'', 2),
       (''setUint32'', ''jayess_std_data_view_set_uint32_method'', 3),
       (''getInt32'', ''jayess_std_data_view_get_int32_method'', 2),
       (''setInt32'', ''jayess_std_data_view_set_int32_method'', 3),
       (''getFloat32'', ''jayess_std_data_view_get_float32_method'', 2),
       (''setFloat32'', ''jayess_std_data_view_set_float32_method'', 3),
       (''getFloat64'', ''jayess_std_data_view_get_float64_method'', 2),
       (''setFloat64'', ''jayess_std_data_view_set_float64_method'', 3)]"

definition typed_array_members :: "string \<Rightarrow> (string \<times> member) list" where
  "typed_array_members kind =
     [(''buffer'', M_Buffer)] @
     [(''length'', M_Elements)] @
     [(''byteLength'', M_Byte_Count)] @
     method_list [(''fill'', ''jayess_std_typed_array_fill_method'', 1),
       (''includes'', ''jayess_std_typed_array_includes_method'', 1)] @
     [(''indexOf'',
       M_Method (if kind = ''Uint8Array'' then ''jayess_std_uint8_index_of_method'' else ''jayess_std_typed_array_index_of_method'') 1 False)] @
     method_list [(''set'', ''jayess_std_typed_array_set_method'', 2),
       (''slice'', ''jayess_std_typed_array_slice_method'', 2)]"

definition uint8_array_members :: "(string \<times> member) list" where
  "uint8_array_members =
     method_list [(''startsWith'', ''jayess_std_uint8_starts_with_method'', 1),
       (''endsWith'', ''jayess_std_uint8_ends_with_method'', 1),
       (''copyWithin'', ''jayess_std_uint8_copy_within_method'', 3),
       (''toString'', ''jayess_std_uint8_to_string_method'', 1)] @
     [(''concat'', M_Method ''jayess_std_uint8_concat_method'' 1 True)] @
     method_list [(''equals'', ''jayess_std_uint8_equals_method'', 1),
       (''compare'', ''jayess_std_uint8_compare_method'', 1)]"

definition iterator_members :: "(string \<times> member) list" where
  "iterator_members =
     method_list [(''next'', ''jayess_std_iterator_next_method'', 0)]"

definition async_iterator_members :: "(string \<times> member) list" where
  "async_iterator_members =
     method_list [(''next'', ''jayess_std_async_iterator_next_method'', 0)]"

definition promise_members :: "(string \<times> member) list" where
  "promise_members =
     method_list [(''then'', ''jayess_std_promise_then_method'', 2),
       (''catch'', ''jayess_std_promise_catch_method'', 1),
       (''finally'', ''jayess_std_promise_finally_method'', 1)]"

definition read_stream_members :: "(string \<times> member) list" where
  "read_stream_members =
     field_list [''readableEnded'', ''errored'', ''error''] @
     method_list [(''read'', ''jayess_std_read_stream_read_method'', 1),
       (''readBytes'', ''jayess_std_read_stream_read_bytes_method'', 1),
       (''on'', ''jayess_std_read_stream_on_method'', 2),
       (''once'', ''jayess_std_read_stream_once_method'', 2),
       (''off'', ''jayess_std_stream_off_method'', 2),
       (''removeListener'', ''jayess_std_stream_off_method'', 2),
       (''listenerCount'', ''jayess_std_stream_listener_count_method'', 1),
       (''eventNames'', ''jayess_std_stream_event_names_method'', 0),
       (''pipe'', ''jayess_std_read_stream_pipe_method'', 1),
       (''close'', ''jayess_std_read_stream_close_method'', 0),
       (''destroy'', ''jayess_std_read_stream_close_method'', 0)]"

definition http_body_stream_members :: "(string \<times> member) list" where
  "http_body_stream_members =
     field_list [''readableEnded'', ''closed'', ''errored'', ''error''] @
     method_list [(''read'', ''jayess_std_http_body_stream_read_method'', 1),
       (''readBytes'', ''jayess_std_http_body_stream_read_bytes_method'', 1),
       (''on'', ''jayess_std_http_body_stream_on_method'', 2),
       (''once'', ''jayess_std_http_body_stream_once_method'', 2),
       (''off'', ''jayess_std_stream_off_method'', 2),
       (''removeListener'', ''jayess_std_stream_off_method'', 2),
       (''listenerCount'', ''jayess_std_stream_listener_count_method'', 1),
       (''eventNames'', ''jayess_std_stream_event_names_method'', 0),
       (''pipe'', ''jayess_std_http_body_stream_pipe_method'', 1),
       (''close'', ''jayess_std_http_body_stream_close_method'', 0),
       (''destroy'', ''jayess_std_http_body_stream_close_method'', 0)]"

definition write_stream_members :: "(string \<times> member) list" where
  "write_stream_members =
     field_list [''writableEnded'', ''writableNeedDrain'', ''writableLength'', ''writableHighWaterMark'', ''errored'',
       ''error''] @
     method_list [(''on'', ''jayess_std_write_stream_on_method'', 2),
       (''once'', ''jayess_std_write_stream_once_method'', 2),
       (''off'', ''jayess_std_stream_off_method'', 2),
       (''removeListener'', ''jayess_std_stream_off_method'', 2),
       (''listenerCount'', ''jayess_std_stream_listener_count_method'', 1),
       (''eventNames'', ''jayess_std_stream_event_names_method'', 0),
       (''write'', ''jayess_std_write_stream_write_method'', 1),
       (''end'', ''jayess_std_write_stream_end_method'', 0),
       (''close'', ''jayess_std_write_stream_end_method'', 0),
       (''destroy'', ''jayess_std_write_stream_end_method'', 0)]"

definition compression_stream_members :: "(string \<times> member) list" where
  "compression_stream_members =
     field_list [''readableEnded'', ''writableEnded'', ''writableNeedDrain'', ''writableLength'',
       ''writableHighWaterMark'', ''errored'', ''error''] @
     method_list [(''read'', ''jayess_std_compression_stream_read_method'', 1),
       (''readBytes'', ''jayess_std_compression_stream_read_bytes_method'', 1),
       (''write'', ''jayess_std_compression_stream_write_method'', 1),
       (''end'', ''jayess_std_compression_stream_end_method'', 0),
       (''close'', ''jayess_std_compression_stream_end_method'', 0),
       (''destroy'', ''jayess_std_compression_stream_end_method'', 0),
       (''pipe'', ''jayess_std_compression_stream_pipe_method'', 1),
       (''on'', ''jayess_std_compression_stream_on_method'', 2),
       (''once'', ''jayess_std_compression_stream_once_method'', 2),
       (''off'', ''jayess_std_stream_off_method'', 2),
       (''removeListener'', ''jayess_std_stream_off_method'', 2),
       (''listenerCount'', ''jayess_std_stream_listener_count_method'', 1),
       (''eventNames'', ''jayess_std_stream_event_names_method'', 0)]"

definition worker_members :: "(string \<times> member) list" where
  "worker_members =
     field_list [''closed''] @
     method_list [(''postMessage'', ''jayess_std_worker_post_message_method'', 1),
       (''receive'', ''jayess_std_worker_receive_method'', 1),
       (''terminate'', ''jayess_std_worker_terminate_method'', 0),
       (''close'', ''jayess_std_worker_terminate_method'', 0)]"

definition watcher_members :: "(string \<times> member) list" where
  "watcher_members =
     field_list [''path'', ''exists'', ''isDir'', ''isFile'', ''size'', ''mtimeMs'', ''closed'', ''errored'', ''error''] @
     method_list [(''poll'', ''jayess_std_fs_watch_poll_method'', 0),
       (''pollAsync'', ''jayess_std_fs_watch_poll_async_method'', 1),
       (''on'', ''jayess_std_fs_watch_on_method'', 2),
       (''once'', ''jayess_std_fs_watch_once_method'', 2),
       (''off'', ''jayess_std_stream_off_method'', 2),
       (''removeListener'', ''jayess_std_stream_off_method'', 2),
       (''listenerCount'', ''jayess_std_stream_listener_count_method'', 1),
       (''eventNames'', ''jayess_std_stream_event_names_method'', 0),
       (''close'', ''jayess_std_fs_watch_close_method'', 0),
       (''destroy'', ''jayess_std_fs_watch_close_method'', 0)]"

definition socket_members :: "(string \<times> member) list" where
  "socket_members =
     field_list [''connected'', ''closed'', ''readable'', ''writable'', ''timeout'', ''remoteAddress'', ''remotePort'',
       ''remoteFamily'', ''localAddress'', ''localPort'', ''localFamily'', ''bytesRead'', ''bytesWritten'',
       ''writableLength'', ''writableHighWaterMark'', ''writableNeedDrain'', ''errored'', ''error'', ''secure'',
       ''authorized'', ''backend'', ''protocol'', ''alpnProtocol'', ''alpnProtocols''] @
     method_list [(''address'', ''jayess_std_socket_address_method'', 0),
       (''remote'', ''jayess_std_socket_remote_method'', 0),
       (''getPeerCertificate'', ''jayess_std_socket_get_peer_certificate_method'', 0),
       (''read'', ''jayess_std_socket_read_method'', 1),
       (''readAsync'', ''jayess_std_socket_read_async_method'', 1),
       (''readBytes'', ''jayess_std_socket_read_bytes_method'', 1),
       (''write'', ''jayess_std_socket_write_method'', 1),
       (''writeAsync'', ''jayess_std_socket_write_async_method'', 1),
       (''setNoDelay'', ''jayess_std_socket_set_no_delay_method'', 1),
       (''setKeepAlive'', ''jayess_std_socket_set_keep_alive_method'', 1),
       (''setTimeout'', ''jayess_std_socket_set_timeout_method'', 1),
       (''on'', ''jayess_std_socket_on_method'', 2),
       (''once'', ''jayess_std_socket_once_method'', 2),
       (''off'', ''jayess_std_stream_off_method'', 2),
       (''removeListener'', ''jayess_std_stream_off_method'', 2),
       (''listenerCount'', ''jayess_std_stream_listener_count_method'', 1),
       (''eventNames'', ''jayess_std_stream_event_names_method'', 0),
       (''end'', ''jayess_std_socket_close_method'', 0),
       (''close'', ''jayess_std_socket_close_method'', 0),
       (''destroy'', ''jayess_std_socket_close_method'', 0)]"

definition datagram_socket_members :: "(string \<times> member) list" where
  "datagram_socket_members =
     field_list [''closed'', ''timeout'', ''localAddress'', ''localPort'', ''localFamily'', ''bytesRead'',
       ''bytesWritten'', ''errored'', ''error'', ''backend'', ''protocol'', ''broadcast'', ''multicastLoopback'',
       ''multicastInterface''] @
     method_list [(''address'', ''jayess_std_socket_address_method'', 0),
       (''send'', ''jayess_std_datagram_socket_send_method'', 3),
       (''receive'', ''jayess_std_datagram_socket_receive_method'', 1),
       (''setBroadcast'', ''jayess_std_datagram_socket_set_broadcast_method'', 1),
       (''joinGroup'', ''jayess_std_datagram_socket_join_group_method'', 2),
       (''leaveGroup'', ''jayess_std_datagram_socket_leave_group_method'', 2),
       (''setMulticastInterface'', ''jayess_std_datagram_socket_set_multicast_interface_method'', 1),
       (''setMulticastLoopback'', ''jayess_std_datagram_socket_set_multicast_loopback_method'', 1),
       (''setTimeout'', ''jayess_std_socket_set_timeout_method'', 1),
       (''on'', ''jayess_std_socket_on_method'', 2),
       (''once'', ''jayess_std_socket_once_method'', 2),
       (''off'', ''jayess_std_stream_off_method'', 2),
       (''removeListener'', ''jayess_std_stream_off_method'', 2),
       (''listenerCount'', ''jayess_std_stream_listener_count_method'', 1),
       (''eventNames'', ''jayess_std_stream_event_names_method'', 0),
       (''close'', ''jayess_std_socket_close_method'', 0),
       (''destroy'', ''jayess_std_socket_close_method'', 0)]"

definition server_members :: "(string \<times> member) list" where
  "server_members =
     field_list [''listening'', ''closed'', ''host'', ''port'', ''timeout'', ''connectionsAccepted'', ''errored'',
       ''error''] @
     method_list [(''address'', ''jayess_std_server_address_method'', 0),
       (''accept'', ''jayess_std_server_accept_method'', 0),
       (''acceptAsync'', ''jayess_std_server_accept_async_method'', 0),
       (''close'', ''jayess_std_server_close_method'', 0),
       (''end'', ''jayess_std_server_close_method'', 0),
       (''destroy'', ''jayess_std_server_close_method'', 0),
       (''setTimeout'', ''jayess_std_server_set_timeout_method'', 1),
       (''on'', ''jayess_std_socket_on_method'', 2),
       (''once'', ''jayess_std_socket_once_method'', 2),
       (''off'', ''jayess_std_stream_off_method'', 2),
       (''removeListener'', ''jayess_std_stream_off_method'', 2),
       (''listenerCount'', ''jayess_std_stream_listener_count_method'', 1),
       (''eventNames'', ''jayess_std_stream_event_names_method'', 0)]"

text \<open>The members of an object with a kind, in the order in which they are looked for.\<close>

definition members_of_kind :: "string \<Rightarrow> (string \<times> member) list" where
  "members_of_kind kind =
     (if kind = ''Map'' then map_members else []) @
     (if kind = ''Set'' then set_members else []) @
     (if kind = ''WeakMap'' then weak_map_members else []) @
     (if kind = ''WeakSet'' then weak_set_members else []) @
     (if kind = ''Date'' then date_members else []) @
     (if kind = ''RegExp'' then reg_exp_members else []) @
     (if kind \<in> {''Error'', ''TypeError'', ''AggregateError''} then error_members else []) @
     (if kind \<in> {''ArrayBuffer'', ''SharedArrayBuffer''} then buffer_members else []) @
     (if kind = ''DataView'' then data_view_members else []) @
     (if jayess_std_is_typed_array_kind kind then typed_array_members kind else []) @
     (if kind = ''Uint8Array'' then uint8_array_members else []) @
     (if kind = ''Iterator'' then iterator_members else []) @
     (if kind = ''AsyncIterator'' then async_iterator_members else []) @
     (if kind = ''Promise'' then promise_members else []) @
     (if kind = ''ReadStream'' then read_stream_members else []) @
     (if kind = ''HttpBodyStream'' then http_body_stream_members else []) @
     (if kind = ''WriteStream'' then write_stream_members else []) @
     (if kind = ''CompressionStream'' then compression_stream_members else []) @
     (if kind = ''Worker'' then worker_members else []) @
     (if kind = ''Watcher'' then watcher_members else []) @
     (if kind = ''Socket'' then socket_members else []) @
     (if kind = ''DatagramSocket'' then datagram_socket_members else []) @
     (if kind = ''Server'' then server_members else [])"

definition builtin_members :: "jayess_state \<Rightarrow> jayess_value \<Rightarrow> (string \<times> member) list" where
  "builtin_members s target =
     (case target of
        VSymbol _ _ \<Rightarrow> symbol_members
      | VString _ \<Rightarrow> string_members
      | VArray _ \<Rightarrow> array_members
      | VObject _ \<Rightarrow> (case object_kind s (Some target) of None \<Rightarrow> [] | Some kind \<Rightarrow> members_of_kind kind)
      | _ \<Rightarrow> [])"

definition count_value :: "nat \<Rightarrow> jayess_value" where
  "count_value n = jayess_value_from_number (dbl_of_int (int n))"

definition slot_count :: "jayess_state \<Rightarrow> nat option \<Rightarrow> nat" where
  "slot_count s slot = (case slot of None \<Rightarrow> 0 | Some b \<Rightarrow> length (slots_at s b))"

definition member_value ::
  "(string \<Rightarrow> nat) \<Rightarrow> byte_state \<Rightarrow> jayess_value \<Rightarrow> string \<Rightarrow> member \<Rightarrow> jayess_value option \<times> byte_state" where
  "member_value link t target key m =
     (case m of
        M_Method symbol params rest \<Rightarrow>
          (let (f, s1) = jayess_value_from_function (js t) (Some (link symbol)) (Some target) key [] params rest
           in (Some f, t\<lparr>js := s1\<rparr>))
      | M_Field k \<Rightarrow> (case target of VObject a \<Rightarrow> object_get (js t) a k | _ \<Rightarrow> None, t)
      | M_Slot_Count k \<Rightarrow> (Some (count_value (slot_count (js t) (jayess_std_array_slot (js t) (Some target) k))), t)
      | M_Byte_Length \<Rightarrow> (Some (count_value (jayess_std_byte_length t (Some target))), t)
      | M_Byte_Count \<Rightarrow> (Some (count_value (slot_count (js t) (jayess_std_bytes_slot t (Some target)))), t)
      | M_Buffer \<Rightarrow> (let (v, t1) = jayess_std_buffer_value_from_state t (jayess_std_bytes_state t (Some target)) in (Some v, t1))
      | M_Elements \<Rightarrow> (Some (count_value (jayess_value_array_length t (Some target))), t)
      | M_Text_Length \<Rightarrow> (Some (count_value (case target of VString u \<Rightarrow> length u | _ \<Rightarrow> 0)), t)
      | M_Description \<Rightarrow> (Some (case target of VSymbol _ (Some u) \<Rightarrow> VString u | _ \<Rightarrow> VUndefined), t))"

section \<open>Reading, writing and deleting\<close>

definition getter_prefix :: string where
  "getter_prefix = ''__jayess_get_''"

definition setter_prefix :: string where
  "setter_prefix = ''__jayess_set_''"

definition properties_of :: "jayess_state \<Rightarrow> jayess_value option \<Rightarrow> nat option" where
  "properties_of s target =
     (case target of
        Some (VObject a) \<Rightarrow> Some a
      | Some (VFunction f) \<Rightarrow> map_option fn_properties (funcs s f)
      | _ \<Rightarrow> None)"

definition own_member ::
  "native_code \<Rightarrow> jayess_state \<Rightarrow> jayess_value option \<Rightarrow> nat \<Rightarrow> string \<Rightarrow> jayess_value \<times> jayess_state" where
  "own_member code s target p key =
     (let getter = object_get s p (getter_prefix @ key)
      in if is_callback getter then jayess_value_call_with_this code s getter target None 0
         else (value_or_undefined (object_get s p key), s))"

definition jayess_value_get_member ::
  "(string \<Rightarrow> nat) \<Rightarrow> native_code \<Rightarrow> byte_state \<Rightarrow> jayess_value option \<Rightarrow> string \<Rightarrow> jayess_value option \<times> byte_state" where
  "jayess_value_get_member link code t target key =
     (case target of
        None \<Rightarrow> (None, t)
      | Some v \<Rightarrow>
          (case map_of (builtin_members (js t) v) key of
             Some m \<Rightarrow> member_value link t v key m
           | None \<Rightarrow>
               (case properties_of (js t) target of
                  None \<Rightarrow> (None, t)
                | Some p \<Rightarrow> (let (r, s1) = own_member code (js t) target p key in (Some r, t\<lparr>js := s1\<rparr>)))))"

definition jayess_value_set_member ::
  "native_code \<Rightarrow> jayess_state \<Rightarrow> jayess_value option \<Rightarrow> string \<Rightarrow> jayess_value option \<Rightarrow> jayess_state" where
  "jayess_value_set_member code s target key v =
     (case properties_of s target of
        None \<Rightarrow> s
      | Some p \<Rightarrow>
          (let setter = object_get s p (setter_prefix @ key)
           in if is_callback setter then snd (jayess_value_call_with_this code s setter target v 1)
              else object_set_key s p (VString key) v))"

definition jayess_value_delete_member :: "jayess_state \<Rightarrow> jayess_value option \<Rightarrow> string \<Rightarrow> jayess_state" where
  "jayess_value_delete_member s target key =
     (case properties_of s target of None \<Rightarrow> s | Some p \<Rightarrow> object_delete s p key)"

section \<open>The functions of Object\<close>

definition entries_of :: "jayess_state \<Rightarrow> jayess_value option \<Rightarrow> jayess_entries" where
  "entries_of s target = (case properties_of s target of None \<Rightarrow> [] | Some p \<Rightarrow> entries_at s p)"

definition jayess_value_object_keys :: "jayess_state \<Rightarrow> jayess_value option \<Rightarrow> jayess_value \<times> jayess_state" where
  "jayess_value_object_keys s target = text_array s (jayess_object_keys (entries_of s target))"

definition slots_array :: "jayess_state \<Rightarrow> jayess_slots \<Rightarrow> nat \<times> jayess_state" where
  "slots_array s vs = (let (a, s1) = jayess_array_new s in (a, foldl (\<lambda>s v. push_slot s a v) s1 vs))"

definition jayess_value_object_symbols :: "jayess_state \<Rightarrow> jayess_value option \<Rightarrow> jayess_value \<times> jayess_state" where
  "jayess_value_object_symbols s target =
     (let (a, s1) = slots_array s (map entry_key_value (filter jayess_object_entry_is_symbol (entries_of s target)))
      in (VArray a, s1))"

text \<open>The key of an entry as a value.\<close>

definition entry_key_box :: "jayess_object_entry \<Rightarrow> jayess_value option" where
  "entry_key_box e = (case entry_key e of Some k \<Rightarrow> Some (VString k) | None \<Rightarrow> entry_key_value e)"

definition hidden_entry :: "jayess_object_entry \<Rightarrow> bool" where
  "hidden_entry e \<longleftrightarrow> (case entry_key e of Some k \<Rightarrow> \<not> listed_key k | None \<Rightarrow> False)"

definition rest_entry :: "jayess_slots \<Rightarrow> nat \<Rightarrow> jayess_state \<Rightarrow> jayess_object_entry \<Rightarrow> jayess_state" where
  "rest_entry excluded copy s e =
     (case entry_key_box e of
        None \<Rightarrow> s
      | Some key \<Rightarrow>
          if hidden_entry e \<or> list_ex (\<lambda>x. x \<noteq> None \<and> value_eq s (Some key) x) excluded then s
          else object_set_key s copy key (entry_value e))"

definition jayess_value_object_rest ::
  "jayess_state \<Rightarrow> jayess_value option \<Rightarrow> jayess_value option \<Rightarrow> jayess_value \<times> jayess_state" where
  "jayess_value_object_rest s target excluded_keys =
     (let (copy, s1) = jayess_object_new s
      in (VObject copy,
          case target of
            Some (VObject a) \<Rightarrow> foldl (rest_entry (tail_slots s excluded_keys) copy) s1 (entries_at s a)
          | _ \<Rightarrow> s1))"

fun values_loop ::
  "(string \<Rightarrow> nat) \<Rightarrow> native_code \<Rightarrow> byte_state \<Rightarrow> jayess_value option \<Rightarrow> nat \<Rightarrow> string list \<Rightarrow> byte_state" where
  "values_loop link code t target a [] = t"
| "values_loop link code t target a (key # keys) =
     (let (v, t1) = jayess_value_get_member link code t target key
      in values_loop link code (t1\<lparr>js := push_slot (js t1) a v\<rparr>) target a keys)"

definition jayess_value_object_values ::
  "(string \<Rightarrow> nat) \<Rightarrow> native_code \<Rightarrow> byte_state \<Rightarrow> jayess_value option \<Rightarrow> jayess_value \<times> byte_state" where
  "jayess_value_object_values link code t target =
     (let (keys, s1) = jayess_value_object_keys (js t) target;
          (a, s2) = jayess_array_new s1
      in (VArray a, values_loop link code (t\<lparr>js := s2\<rparr>) target a (jayess_object_keys (entries_of (js t) target))))"

fun entries_loop ::
  "(string \<Rightarrow> nat) \<Rightarrow> native_code \<Rightarrow> byte_state \<Rightarrow> jayess_value option \<Rightarrow> nat \<Rightarrow> string list \<Rightarrow> byte_state" where
  "entries_loop link code t target a [] = t"
| "entries_loop link code t target a (key # keys) =
     (let (pair, s1) = jayess_array_new (js t);
          (v, t1) = jayess_value_get_member link code (t\<lparr>js := push_slot s1 pair (Some (VString key))\<rparr>) target key;
          s2 = push_slot (js t1) pair v
      in entries_loop link code (t1\<lparr>js := push_slot s2 a (Some (VArray pair))\<rparr>) target a keys)"

definition jayess_value_object_entries ::
  "(string \<Rightarrow> nat) \<Rightarrow> native_code \<Rightarrow> byte_state \<Rightarrow> jayess_value option \<Rightarrow> jayess_value \<times> byte_state" where
  "jayess_value_object_entries link code t target =
     (let (keys, s1) = jayess_value_object_keys (js t) target;
          (a, s2) = jayess_array_new s1
      in (VArray a, entries_loop link code (t\<lparr>js := s2\<rparr>) target a (jayess_object_keys (entries_of (js t) target))))"


text \<open>
  Assigning walks the list of the source while setters may change it: an entry that is appended is reached, and when the
  current one has gone its link is read from freed memory. \<open>None\<close>: setters append for ever.
\<close>

definition assign_entry :: "native_code \<Rightarrow> jayess_value option \<Rightarrow> jayess_object_entry \<Rightarrow> jayess_state \<Rightarrow> jayess_state" where
  "assign_entry code target e s =
     (case entry_key e of
        Some key \<Rightarrow> if hidden_entry e then s else jayess_value_set_member code s target key (entry_value e)
      | None \<Rightarrow>
          (case (jayess_object_entry_is_symbol e, entry_key_value e, properties_of s target) of
             (True, Some key, Some p) \<Rightarrow> object_set_key s p key (entry_value e)
           | _ \<Rightarrow> s))"

fun entries_after :: "jayess_object_entry \<Rightarrow> jayess_entries \<Rightarrow> jayess_entries option" where
  "entries_after e [] = None"
| "entries_after e (x # xs) =
     (if entry_key x = entry_key e \<and> entry_key_value x = entry_key_value e then Some xs else entries_after e xs)"

partial_function (option) assign_loop ::
  "native_code \<Rightarrow> jayess_value option \<Rightarrow> nat \<Rightarrow> jayess_object_entry \<Rightarrow> jayess_state \<Rightarrow> (fault + jayess_state) option" where
  "assign_loop code target p e s =
     (let s1 = assign_entry code target e s
      in case entries_after e (entries_at s1 p) of
           None \<Rightarrow> Some (Inl Out_of_bounds)
         | Some [] \<Rightarrow> Some (Inr s1)
         | Some (e1 # _) \<Rightarrow> assign_loop code target p e1 s1)"

definition jayess_value_object_assign ::
  "native_code \<Rightarrow> jayess_state \<Rightarrow> jayess_value option \<Rightarrow> jayess_value option \<Rightarrow> (fault + jayess_value \<times> jayess_state) option" where
  "jayess_value_object_assign code s target source =
     (case (target, properties_of s source) of
        (Some v, Some p) \<Rightarrow>
          (case entries_at s p of
             [] \<Rightarrow> Some (Inr (v, s))
           | e # _ \<Rightarrow> map_option (map_sum id (\<lambda>s1. (v, s1))) (assign_loop code target p e s))
      | _ \<Rightarrow> Some (Inr (value_or_undefined target, s)))"

definition jayess_value_object_has_own ::
  "nat \<Rightarrow> jayess_state \<Rightarrow> jayess_value option \<Rightarrow> jayess_value option \<Rightarrow> jayess_value option" where
  "jayess_value_object_has_own d s target key =
     map_option (\<lambda>k. VBool (case (k, properties_of s target) of
         (Some k, Some p) \<Rightarrow> jayess_object_get_key_value (entries_at s p) k \<noteq> None | _ \<Rightarrow> False))
       (if target = None then Some None else jayess_value_to_property_key d s key)"

fun from_entries_loop :: "nat \<Rightarrow> nat \<Rightarrow> jayess_state \<Rightarrow> jayess_slots \<Rightarrow> jayess_state option" where
  "from_entries_loop d a s [] = Some s"
| "from_entries_loop d a s (entry # rest) =
     (case entry of
        Some (VArray b) \<Rightarrow>
          if length (slots_at s b) < 2 then from_entries_loop d a s rest
          else Option.bind (jayess_value_to_property_key d s (jayess_array_get (slots_at s b) 0))
                 (\<lambda>key. from_entries_loop d a
                    (case key of None \<Rightarrow> s | Some k \<Rightarrow> object_set_key s a k (jayess_array_get (slots_at s b) 1)) rest)
      | _ \<Rightarrow> from_entries_loop d a s rest)"

definition jayess_std_object_from_entries ::
  "nat \<Rightarrow> jayess_state \<Rightarrow> jayess_value option \<Rightarrow> (jayess_value \<times> jayess_state) option" where
  "jayess_std_object_from_entries d s entries =
     (let (a, s1) = jayess_object_new s
      in map_option (Pair (VObject a)) (from_entries_loop d a s1 (tail_slots s1 entries)))"

section \<open>Computed members and indices\<close>

definition jayess_value_set_computed_member ::
  "nat \<Rightarrow> native_code \<Rightarrow> jayess_state \<Rightarrow> jayess_value option \<Rightarrow> jayess_value option \<Rightarrow> jayess_value option \<Rightarrow> jayess_state option" where
  "jayess_value_set_computed_member d code s target key v =
     (if target = None \<or> key = None \<or> v = None then Some s
      else map_option (\<lambda>k. case k of
               Some (VString u) \<Rightarrow> jayess_value_set_member code s target u v
             | Some k \<Rightarrow> (case properties_of s target of None \<Rightarrow> s | Some p \<Rightarrow> object_set_key s p k v)
             | None \<Rightarrow> s)
           (jayess_value_to_property_key d s key))"

definition jayess_value_set_index :: "byte_state \<Rightarrow> jayess_value option \<Rightarrow> int \<Rightarrow> jayess_value option \<Rightarrow> byte_state" where
  "jayess_value_set_index t target index v =
     (if jayess_std_is_typed_array (js t) target then jayess_std_typed_array_set_number t target index (jayess_value_to_number v)
      else (case target of
              Some (VArray b) \<Rightarrow>
                t\<lparr>js := array_write (js t) b (jayess_array_set_value (accounting (js t)) (slots_at (js t) b) index v)\<rparr>
            | _ \<Rightarrow> t))"

definition jayess_value_get_index :: "byte_state \<Rightarrow> jayess_value option \<Rightarrow> int \<Rightarrow> jayess_value option" where
  "jayess_value_get_index t target index =
     (if jayess_std_is_typed_array (js t) target
      then Some (jayess_value_from_number (jayess_std_typed_array_get_number t target index))
      else (case target of Some (VArray b) \<Rightarrow> jayess_array_get (slots_at (js t) b) index | _ \<Rightarrow> None))"

definition is_object_or_function :: "jayess_value option \<Rightarrow> bool" where
  "is_object_or_function v \<longleftrightarrow> (case v of Some (VObject _) \<Rightarrow> True | Some (VFunction _) \<Rightarrow> True | _ \<Rightarrow> False)"

text \<open>The key of an index that is none of the kinds with a rule of their own.\<close>

definition index_key :: "nat \<Rightarrow> jayess_state \<Rightarrow> jayess_value option \<Rightarrow> string option option" where
  "index_key d s index =
     map_option (\<lambda>k. case k of Some (VString u) \<Rightarrow> Some u | _ \<Rightarrow> None) (jayess_value_to_property_key d s index)"

definition jayess_value_set_dynamic_index ::
  "nat \<Rightarrow> native_code \<Rightarrow> byte_state \<Rightarrow> jayess_value option \<Rightarrow> jayess_value option \<Rightarrow> jayess_value option \<Rightarrow> byte_state option" where
  "jayess_value_set_dynamic_index d code t target index v =
     (if target = None \<or> v = None then Some t
      else case index of
        None \<Rightarrow> Some t
      | Some (VSymbol i u) \<Rightarrow>
          Some (case properties_of (js t) target of None \<Rightarrow> t | Some p \<Rightarrow> t\<lparr>js := object_set_key (js t) p (VSymbol i u) v\<rparr>)
      | Some (VString u) \<Rightarrow> Some (t\<lparr>js := jayess_value_set_member code (js t) target u v\<rparr>)
      | Some (VNumber x) \<Rightarrow> Some (jayess_value_set_index t target (c_int x) v)
      | Some (VBool b) \<Rightarrow> Some (jayess_value_set_index t target (if b then 1 else 0) v)
      | Some VNull \<Rightarrow> Some t
      | Some VUndefined \<Rightarrow> Some t
      | _ \<Rightarrow> map_option (\<lambda>k. case k of
                 Some u \<Rightarrow> if is_object_or_function target then t\<lparr>js := jayess_value_set_member code (js t) target u v\<rparr> else t
               | None \<Rightarrow> t) (index_key d (js t) index))"

definition jayess_value_get_dynamic_index ::
  "nat \<Rightarrow> (string \<Rightarrow> nat) \<Rightarrow> native_code \<Rightarrow> byte_state \<Rightarrow> jayess_value option \<Rightarrow> jayess_value option
   \<Rightarrow> (jayess_value option \<times> byte_state) option" where
  "jayess_value_get_dynamic_index d link code t target index =
     (if target = None then Some (None, t)
      else case index of
        None \<Rightarrow> Some (None, t)
      | Some (VSymbol i u) \<Rightarrow>
          Some (map_option (\<lambda>p. value_or_undefined (jayess_object_get_key_value (entries_at (js t) p) (VSymbol i u)))
                  (properties_of (js t) target), t)
      | Some (VString u) \<Rightarrow> Some (jayess_value_get_member link code t target u)
      | Some (VNumber x) \<Rightarrow> Some (jayess_value_get_index t target (c_int x), t)
      | Some (VBool b) \<Rightarrow> Some (jayess_value_get_index t target (if b then 1 else 0), t)
      | _ \<Rightarrow> map_option (\<lambda>k. case k of
                 Some u \<Rightarrow> if is_object_or_function target then jayess_value_get_member link code t target u else (None, t)
               | None \<Rightarrow> (None, t)) (index_key d (js t) index))"

definition jayess_value_delete_dynamic_index ::
  "nat \<Rightarrow> jayess_state \<Rightarrow> jayess_value option \<Rightarrow> jayess_value option \<Rightarrow> jayess_state option" where
  "jayess_value_delete_dynamic_index d s target index =
     (case index of
        None \<Rightarrow> Some s
      | Some (VSymbol i u) \<Rightarrow>
          Some (case properties_of s target of None \<Rightarrow> s
                | Some p \<Rightarrow> (let (acc, es) = jayess_object_delete_key_value (accounting s) (entries_at s p) (VSymbol i u)
                            in s\<lparr>objects := (objects s)(p \<mapsto> es), accounting := acc\<rparr>))
      | Some (VString u) \<Rightarrow> Some (jayess_value_delete_member s target u)
      | _ \<Rightarrow> if target = None then Some s
             else map_option (\<lambda>k. case k of Some u \<Rightarrow> jayess_value_delete_member s target u | None \<Rightarrow> s) (index_key d s index))"

section \<open>The functions of arrays\<close>

definition array_push :: "jayess_state \<Rightarrow> jayess_value option \<Rightarrow> jayess_value option \<Rightarrow> jayess_value \<times> jayess_state" where
  "array_push s target v =
     (case target of
        Some (VArray b) \<Rightarrow>
          (let (acc, vs, n) = jayess_array_push_value (accounting s) (slots_at s b) v in (count_value n, array_write s b (acc, vs)))
      | _ \<Rightarrow> (VUndefined, s))"

definition array_pop :: "jayess_state \<Rightarrow> jayess_value option \<Rightarrow> jayess_value \<times> jayess_state" where
  "array_pop s target =
     (case target of
        Some (VArray b) \<Rightarrow>
          (let (acc, vs, v) = jayess_array_pop_value (accounting s) (slots_at s b) in (v, array_write s b (acc, vs)))
      | _ \<Rightarrow> (VUndefined, s))"

definition array_shift :: "jayess_state \<Rightarrow> jayess_value option \<Rightarrow> jayess_value \<times> jayess_state" where
  "array_shift s target =
     (case target of
        Some (VArray b) \<Rightarrow>
          (let (acc, vs, v) = jayess_array_shift_value (accounting s) (slots_at s b) in (v, array_write s b (acc, vs)))
      | _ \<Rightarrow> (VUndefined, s))"

definition array_unshift :: "jayess_state \<Rightarrow> jayess_value option \<Rightarrow> jayess_value option \<Rightarrow> jayess_value \<times> jayess_state" where
  "array_unshift s target v =
     (case target of
        Some (VArray b) \<Rightarrow>
          (let (acc, vs, n) = jayess_array_unshift_value (accounting s) (slots_at s b) v in (count_value n, array_write s b (acc, vs)))
      | _ \<Rightarrow> (VUndefined, s))"

definition array_slice :: "byte_state \<Rightarrow> jayess_value option \<Rightarrow> int \<Rightarrow> int \<Rightarrow> bool \<Rightarrow> jayess_value \<times> byte_state" where
  "array_slice t target start finish has_end =
     (if jayess_std_is_typed_array (js t) target then jayess_std_typed_array_slice_values t target start finish has_end
      else (let s = js t;
                (a, s1) = jayess_array_new s
            in (VArray a,
                t\<lparr>js := (case target of
                         Some (VArray b) \<Rightarrow>
                           array_write s1 a (jayess_array_slice_values (accounting s) (slots_at s b) start finish has_end)
                       | _ \<Rightarrow> s1)\<rparr>)))"

definition array_includes :: "jayess_state \<Rightarrow> jayess_value option \<Rightarrow> jayess_value option \<Rightarrow> jayess_value" where
  "array_includes s target v = VBool (list_ex (\<lambda>w. value_eq s w v) (tail_slots s target))"

end
