(* ===== verification/Iteration.thy ===== *)
theory Iteration
  imports Members
begin

text \<open>
  Symbols and iteration (\<open>jayess_runtime.c\<close>): the registry behind \<open>Symbol.for\<close>, the well-known symbols, iterators over
  a list of values, and the protocol that asks an iterator for its values one after the other.
\<close>

section \<open>Symbols\<close>

text \<open>The registry, the newest entry first, and the well-known symbols made so far, by their descriptions.\<close>

record symbol_table =
  registry :: "(string \<times> jayess_value) list"
  well_known :: "string \<Rightarrow> jayess_value option"

definition no_symbols :: symbol_table where
  "no_symbols = \<lparr>registry = [], well_known = (\<lambda>_. None)\<rparr>"

definition jayess_value_from_symbol :: "jayess_state \<Rightarrow> string option \<Rightarrow> jayess_value \<times> jayess_state" where
  "jayess_value_from_symbol s description =
     (VSymbol (next_symbol_id s) description, s\<lparr>next_symbol_id := next_symbol_id s + 1\<rparr>)"

definition jayess_std_symbol :: "nat \<Rightarrow> jayess_state \<Rightarrow> jayess_value option \<Rightarrow> (jayess_value \<times> jayess_state) option" where
  "jayess_std_symbol d s description =
     (if description = None \<or> description = Some VUndefined then Some (jayess_value_from_symbol s None)
      else map_option (\<lambda>u. jayess_value_from_symbol s (Some u)) (jayess_value_stringify d s description))"

definition jayess_symbol_registry_find :: "symbol_table \<Rightarrow> string \<Rightarrow> jayess_value option" where
  "jayess_symbol_registry_find y key = map_of (registry y) key"

definition register_symbol :: "symbol_table \<Rightarrow> jayess_state \<Rightarrow> string \<Rightarrow> jayess_value \<times> symbol_table \<times> jayess_state" where
  "register_symbol y s key =
     (case jayess_symbol_registry_find y key of
        Some v \<Rightarrow> (v, y, s)
      | None \<Rightarrow>
          (let (v, s1) = jayess_value_from_symbol s (Some key)
           in (v, y\<lparr>registry := (key, v) # registry y\<rparr>, s1)))"

definition jayess_std_symbol_for ::
  "nat \<Rightarrow> symbol_table \<Rightarrow> jayess_state \<Rightarrow> jayess_value option \<Rightarrow> (jayess_value \<times> symbol_table \<times> jayess_state) option" where
  "jayess_std_symbol_for d y s key =
     map_option (register_symbol y s) (if key = None then Some [] else jayess_value_stringify d s key)"

definition jayess_std_symbol_key_for :: "symbol_table \<Rightarrow> jayess_state \<Rightarrow> jayess_value option \<Rightarrow> jayess_value" where
  "jayess_std_symbol_key_for y s symbol =
     (case symbol of
        Some (VSymbol i u) \<Rightarrow>
          (case find (\<lambda>(key, v). value_eq s (Some v) symbol) (registry y) of None \<Rightarrow> VUndefined | Some (key, v) \<Rightarrow> VString key)
      | _ \<Rightarrow> VUndefined)"

definition jayess_symbol_singleton ::
  "symbol_table \<Rightarrow> jayess_state \<Rightarrow> string \<Rightarrow> jayess_value \<times> symbol_table \<times> jayess_state" where
  "jayess_symbol_singleton y s description =
     (case well_known y description of
        Some v \<Rightarrow> (v, y, s)
      | None \<Rightarrow>
          (let (v, s1) = jayess_value_from_symbol s (Some description)
           in (v, y\<lparr>well_known := (well_known y)(description \<mapsto> v)\<rparr>, s1)))"

definition jayess_std_symbol_iterator :: "symbol_table \<Rightarrow> jayess_state \<Rightarrow> jayess_value \<times> symbol_table \<times> jayess_state" where
  "jayess_std_symbol_iterator y s = jayess_symbol_singleton y s ''Symbol.iterator''"

definition jayess_std_symbol_async_iterator :: "symbol_table \<Rightarrow> jayess_state \<Rightarrow> jayess_value \<times> symbol_table \<times> jayess_state" where
  "jayess_std_symbol_async_iterator y s = jayess_symbol_singleton y s ''Symbol.asyncIterator''"

definition jayess_std_symbol_to_string_tag :: "symbol_table \<Rightarrow> jayess_state \<Rightarrow> jayess_value \<times> symbol_table \<times> jayess_state" where
  "jayess_std_symbol_to_string_tag y s = jayess_symbol_singleton y s ''Symbol.toStringTag''"

definition jayess_std_symbol_has_instance :: "symbol_table \<Rightarrow> jayess_state \<Rightarrow> jayess_value \<times> symbol_table \<times> jayess_state" where
  "jayess_std_symbol_has_instance y s = jayess_symbol_singleton y s ''Symbol.hasInstance''"

definition jayess_std_symbol_species :: "symbol_table \<Rightarrow> jayess_state \<Rightarrow> jayess_value \<times> symbol_table \<times> jayess_state" where
  "jayess_std_symbol_species y s = jayess_symbol_singleton y s ''Symbol.species''"

definition jayess_std_symbol_match :: "symbol_table \<Rightarrow> jayess_state \<Rightarrow> jayess_value \<times> symbol_table \<times> jayess_state" where
  "jayess_std_symbol_match y s = jayess_symbol_singleton y s ''Symbol.match''"

definition jayess_std_symbol_replace :: "symbol_table \<Rightarrow> jayess_state \<Rightarrow> jayess_value \<times> symbol_table \<times> jayess_state" where
  "jayess_std_symbol_replace y s = jayess_symbol_singleton y s ''Symbol.replace''"

definition jayess_std_symbol_search :: "symbol_table \<Rightarrow> jayess_state \<Rightarrow> jayess_value \<times> symbol_table \<times> jayess_state" where
  "jayess_std_symbol_search y s = jayess_symbol_singleton y s ''Symbol.search''"

definition jayess_std_symbol_split :: "symbol_table \<Rightarrow> jayess_state \<Rightarrow> jayess_value \<times> symbol_table \<times> jayess_state" where
  "jayess_std_symbol_split y s = jayess_symbol_singleton y s ''Symbol.split''"

definition jayess_std_symbol_to_primitive :: "symbol_table \<Rightarrow> jayess_state \<Rightarrow> jayess_value \<times> symbol_table \<times> jayess_state" where
  "jayess_std_symbol_to_primitive y s = jayess_symbol_singleton y s ''Symbol.toPrimitive''"

definition jayess_std_symbol_to_string_method :: "nat \<Rightarrow> jayess_state \<Rightarrow> jayess_value option \<Rightarrow> jayess_value option" where
  "jayess_std_symbol_to_string_method d s env = map_option VString (jayess_value_stringify d s env)"

section \<open>Iterators\<close>

text \<open>The result of a step; a value that is NULL leaves the result without one.\<close>

definition step_result :: "jayess_state \<Rightarrow> jayess_value option \<Rightarrow> bool \<Rightarrow> jayess_value \<times> jayess_state" where
  "step_result s v done =
     (let (r, s1) = jayess_object_new s
      in (VObject r, object_set (object_set_key s1 r (VString ''value'') v) r ''done'' (VBool done)))"

definition jayess_std_iterator_next_method :: "jayess_state \<Rightarrow> nat \<Rightarrow> jayess_value \<times> jayess_state" where
  "jayess_std_iterator_next_method s a =
     (let index = c_int (jayess_value_to_number (object_get s a ''__jayess_iterator_index''))
      in case jayess_std_array_slot s (Some (VObject a)) ''__jayess_iterator_values'' of
           None \<Rightarrow> step_result s (Some VUndefined) True
         | Some b \<Rightarrow>
             if int (length (slots_at s b)) \<le> index then step_result s (Some VUndefined) True
             else (let (r, s1) = step_result s (jayess_array_get (slots_at s b) index) False
                   in (r, object_set s1 a ''__jayess_iterator_index'' (jayess_value_from_number (dbl_of_int (index + 1))))))"

definition iteration_limit :: nat where
  "iteration_limit = 1000000"

text \<open>
  The values an iterator gives, at most so many; a result that is no object ends them. Exceptions are not looked at.
\<close>

primrec protocol_loop ::
  "(string \<Rightarrow> nat) \<Rightarrow> native_code \<Rightarrow> jayess_value option \<Rightarrow> nat \<Rightarrow> nat \<Rightarrow> byte_state \<Rightarrow> byte_state" where
  "protocol_loop link code iterator values 0 t = t"
| "protocol_loop link code iterator values (Suc n) t =
     (let (next_method, t1) = jayess_value_get_member link code t iterator ''next''
      in if \<not> is_callback next_method then t1
         else (let (step, s2) = jayess_value_call_with_this code (js t1) next_method iterator None 0;
                   t2 = t1\<lparr>js := s2\<rparr>
               in case step of
                    VObject r \<Rightarrow>
                      (let (done, t3) = jayess_value_get_member link code t2 (Some step) ''done''
                       in if state_bool (js t3) done then t3
                          else (let (v, t4) = jayess_value_get_member link code t3 (Some step) ''value''
                                in protocol_loop link code iterator values n
                                     (t4\<lparr>js := push_slot (js t4) values (Some (value_or_undefined v))\<rparr>)))
                  | _ \<Rightarrow> t2))"

definition jayess_std_iterator_protocol_values ::
  "(string \<Rightarrow> nat) \<Rightarrow> native_code \<Rightarrow> byte_state \<Rightarrow> jayess_value option \<Rightarrow> jayess_value \<times> byte_state" where
  "jayess_std_iterator_protocol_values link code t iterator =
     (let (a, s1) = jayess_array_new (js t); t1 = t\<lparr>js := s1\<rparr>
      in (VArray a, if iterator = None then t1 else protocol_loop link code iterator a iteration_limit t1))"

text \<open>A text gives its bytes, each as a text.\<close>

definition jayess_std_iterable_protocol_values ::
  "(string \<Rightarrow> nat) \<Rightarrow> native_code \<Rightarrow> symbol_table \<Rightarrow> byte_state \<Rightarrow> jayess_value option
   \<Rightarrow> jayess_value \<times> symbol_table \<times> byte_state" where
  "jayess_std_iterable_protocol_values link code y t target =
     (case target of
        None \<Rightarrow> (let (a, s1) = jayess_array_new (js t) in (VArray a, y, t\<lparr>js := s1\<rparr>))
      | Some (VString u) \<Rightarrow> (let (v, s1) = text_array (js t) (map (\<lambda>c. [c]) u) in (v, y, t\<lparr>js := s1\<rparr>))
      | Some v \<Rightarrow>
          (let (symbol, y1, s1) = jayess_std_symbol_iterator y (js t);
               iterator_method = Option.bind (properties_of s1 target)
                 (\<lambda>p. Some (value_or_undefined (jayess_object_get_key_value (entries_at s1 p) symbol)))
           in if is_callback iterator_method
              then (let (iterator, s2) = jayess_value_call_with_this code s1 iterator_method target None 0;
                        (r, t3) = jayess_std_iterator_protocol_values link code (t\<lparr>js := s2\<rparr>) (Some iterator)
                    in (r, y1, t3))
              else (let (next_method, t2) = jayess_value_get_member link code (t\<lparr>js := s1\<rparr>) target ''next''
                    in if next_method \<noteq> None
                       then (let (r, t3) = jayess_std_iterator_protocol_values link code t2 target in (r, y1, t3))
                       else (let (a, s3) = jayess_array_new (js t2) in (VArray a, y1, t2\<lparr>js := s3\<rparr>)))))"

definition cloned_array :: "byte_state \<Rightarrow> nat \<Rightarrow> jayess_value \<times> byte_state" where
  "cloned_array t b = (let (c, s1) = jayess_array_clone (js t) (slots_at (js t) b) in (VArray c, t\<lparr>js := s1\<rparr>))"

definition element_values :: "byte_state \<Rightarrow> jayess_value option \<Rightarrow> jayess_slots" where
  "element_values t target =
     map (\<lambda>i. Some (jayess_value_from_number (jayess_std_typed_array_get_number t target (int i))))
       [0 ..< jayess_value_array_length t target]"

text \<open>An iterator gives all its values, also those it has given already.\<close>

definition iterable_values ::
  "(string \<Rightarrow> nat) \<Rightarrow> native_code \<Rightarrow> symbol_table \<Rightarrow> byte_state \<Rightarrow> jayess_value option
   \<Rightarrow> jayess_value \<times> symbol_table \<times> byte_state" where
  "iterable_values link code y t target =
     (case target of
        Some (VArray b) \<Rightarrow> (let (v, t1) = cloned_array t b in (v, y, t1))
      | Some (VObject a) \<Rightarrow>
          if jayess_std_kind_is (js t) target ''Map''
          then (let (v, s1) = jayess_std_map_entries_method (js t) target in (v, y, t\<lparr>js := s1\<rparr>))
          else if jayess_std_kind_is (js t) target ''Set''
          then (let (v, s1) = jayess_std_set_values_method (js t) target in (v, y, t\<lparr>js := s1\<rparr>))
          else if jayess_std_is_typed_array (js t) target
          then (let (b, s1) = slots_array (js t) (element_values t target) in (VArray b, y, t\<lparr>js := s1\<rparr>))
          else (case (jayess_std_kind_is (js t) target ''Iterator'', object_get (js t) a ''__jayess_iterator_values'') of
                  (True, Some (VArray b)) \<Rightarrow> (let (v, t1) = cloned_array t b in (v, y, t1))
                | _ \<Rightarrow> jayess_std_iterable_protocol_values link code y t target)
      | _ \<Rightarrow> jayess_std_iterable_protocol_values link code y t target)"

text \<open>A new object over the values, which are made after it.\<close>

definition iterator_object ::
  "(string \<Rightarrow> nat) \<Rightarrow> native_code \<Rightarrow> symbol_table \<Rightarrow> byte_state \<Rightarrow> jayess_value option \<Rightarrow> string
   \<Rightarrow> nat \<times> symbol_table \<times> byte_state" where
  "iterator_object link code y t target kind =
     (let (a, s1) = jayess_object_new (js t);
          s2 = object_set s1 a ''__jayess_std_kind'' (VString kind);
          (v, y1, t3) = iterable_values link code y (t\<lparr>js := s2\<rparr>) target;
          s4 = object_set (js t3) a ''__jayess_iterator_values'' v
      in (a, y1, t3\<lparr>js := object_set s4 a ''__jayess_iterator_index'' (jayess_value_from_number 0)\<rparr>))"

definition jayess_std_iterator_from ::
  "(string \<Rightarrow> nat) \<Rightarrow> native_code \<Rightarrow> symbol_table \<Rightarrow> byte_state \<Rightarrow> jayess_value option
   \<Rightarrow> jayess_value \<times> symbol_table \<times> byte_state" where
  "jayess_std_iterator_from link code y t target =
     (let (a, y1, t1) = iterator_object link code y t target ''Iterator'' in (VObject a, y1, t1))"

definition jayess_std_async_iterator_from ::
  "(string \<Rightarrow> nat) \<Rightarrow> native_code \<Rightarrow> symbol_table \<Rightarrow> byte_state \<Rightarrow> jayess_value option
   \<Rightarrow> jayess_value \<times> symbol_table \<times> byte_state" where
  "jayess_std_async_iterator_from link code y t target =
     (let (a, y1, t1) = iterator_object link code y t target ''AsyncIterator'';
          (symbol, y2, s2) = jayess_std_symbol_async_iterator y1 (js t1);
          (f, s3) = jayess_value_from_function s2 (Some (link ''jayess_std_async_iterator_identity_method'')) (Some (VObject a))
                      ''[Symbol.asyncIterator]'' [] 0 False
      in (VObject a, y2, t1\<lparr>js := object_set_key s3 a symbol (Some f)\<rparr>))"

end
