(* ===== verification/Member_Correct.thy ===== *)
theory Member_Correct
  imports Iteration Listener_Correct String_Correct
begin

text \<open>
  What the symbol registry, the functions of \<open>Object\<close> and the iterators promise: one symbol per key, entries that make the
  same object again, and all the values of an iterator up to the limit.
\<close>

section \<open>The symbol registry\<close>

definition symbol_id :: "jayess_value \<Rightarrow> nat" where
  "symbol_id v = (case v of VSymbol i _ \<Rightarrow> i | _ \<Rightarrow> 0)"

text \<open>Every symbol has an id that was given out once.\<close>

definition known_symbol :: "jayess_state \<Rightarrow> string \<Rightarrow> jayess_value \<Rightarrow> bool" where
  "known_symbol s key v \<longleftrightarrow> (\<exists>i < next_symbol_id s. v = VSymbol i (Some key))"

definition symbols_ok :: "symbol_table \<Rightarrow> jayess_state \<Rightarrow> bool" where
  "symbols_ok y s \<longleftrightarrow> (\<forall>(key, v) \<in> set (registry y). known_symbol s key v) \<and> distinct (map fst (registry y))
     \<and> distinct (map (symbol_id \<circ> snd) (registry y))
     \<and> (\<forall>key v. well_known y key = Some v \<longrightarrow> known_symbol s key v \<and> symbol_id v \<notin> symbol_id ` snd ` set (registry y))"

lemma symbols_ok_initial: "symbols_ok no_symbols s"
  by (simp add: symbols_ok_def no_symbols_def)

lemma symbol_eq [simp]: "value_eq s (Some (VSymbol i k)) (Some (VSymbol j l)) \<longleftrightarrow> i = j"
  by (simp add: value_eq_def jayess_value_eq_def)

lemma symbol_id_simp [simp]: "symbol_id (VSymbol i k) = i"
  by (simp add: symbol_id_def)

lemma known_symbol_mono: "known_symbol s key v \<Longrightarrow> next_symbol_id s \<le> next_symbol_id s' \<Longrightarrow> known_symbol s' key v"
  by (auto simp: known_symbol_def)

lemma known_symbol_id: "known_symbol s key v \<Longrightarrow> symbol_id v < next_symbol_id s"
  by (auto simp: known_symbol_def)

lemma new_symbol:
  "jayess_value_from_symbol s d = (VSymbol (next_symbol_id s) d, snd (jayess_value_from_symbol s d))"
  "next_symbol_id (snd (jayess_value_from_symbol s d)) = Suc (next_symbol_id s)"
  by (simp_all add: jayess_value_from_symbol_def)

lemma fresh_id:
  assumes "\<forall>(key, v) \<in> set xs. known_symbol s key v"
  shows "next_symbol_id s \<notin> symbol_id ` snd ` set xs"
  using assms by (force dest: known_symbol_id)

lemma symbols_okD:
  assumes "symbols_ok y s"
  shows "(key, v) \<in> set (registry y) \<Longrightarrow> known_symbol s key v" and "distinct (map fst (registry y))"
    and "distinct (map (symbol_id \<circ> snd) (registry y))"
    and "well_known y key = Some v \<Longrightarrow> known_symbol s key v \<and> symbol_id v \<notin> symbol_id ` snd ` set (registry y)"
  using assms unfolding symbols_ok_def by blast+

text \<open>Registering keeps the table in order, and keeps what was registered.\<close>

lemma register_symbol_ok:
  assumes "symbols_ok y s" and "register_symbol y s key = (v, y1, s1)"
  shows "symbols_ok y1 s1 \<and> (key, v) \<in> set (registry y1) \<and> set (registry y) \<subseteq> set (registry y1)"
proof (cases "map_of (registry y) key")
  case None
  have known: "\<forall>(k, w) \<in> set (registry y). known_symbol s k w" using symbols_okD(1) [OF assms(1)] by auto
  have y1: "v = VSymbol (next_symbol_id s) (Some key)" "y1 = y\<lparr>registry := (key, v) # registry y\<rparr>"
    "next_symbol_id s1 = Suc (next_symbol_id s)"
    using assms(2) None by (auto simp: register_symbol_def jayess_symbol_registry_find_def jayess_value_from_symbol_def)
  have new: "key \<notin> fst ` set (registry y)" using None by (simp add: map_of_eq_None_iff)
  have mono: "known_symbol s k w \<Longrightarrow> known_symbol s1 k w" for k w using y1(3) by (auto intro: known_symbol_mono)
  have "known_symbol s1 key v" using y1 by (simp add: known_symbol_def)
  moreover have "known_symbol s1 k w \<and> symbol_id w \<noteq> next_symbol_id s \<and> symbol_id w \<notin> symbol_id ` snd ` set (registry y)"
    if "well_known y k = Some w" for k w
    using symbols_okD(4) [OF assms(1) that] mono known_symbol_id by fastforce
  moreover have "\<forall>(k, w) \<in> set (registry y). known_symbol s1 k w" using known mono by auto
  ultimately have "symbols_ok y1 s1"
    using symbols_okD(2,3) [OF assms(1)] fresh_id [OF known] new y1(1)
    by (simp add: symbols_ok_def y1(2) image_comp)
  then show ?thesis by (auto simp: y1(2))
next
  case (Some w)
  then show ?thesis using assms by (auto simp: register_symbol_def jayess_symbol_registry_find_def dest: map_of_SomeD)
qed

lemma singleton_ok:
  assumes "symbols_ok y s" and "jayess_symbol_singleton y s key = (v, y1, s1)"
  shows "symbols_ok y1 s1 \<and> well_known y1 key = Some v \<and> registry y1 = registry y"
proof (cases "well_known y key")
  case None
  have known: "\<forall>(k, w) \<in> set (registry y). known_symbol s k w" using symbols_okD(1) [OF assms(1)] by auto
  have y1: "v = VSymbol (next_symbol_id s) (Some key)" "y1 = y\<lparr>well_known := (well_known y)(key \<mapsto> v)\<rparr>"
    "next_symbol_id s1 = Suc (next_symbol_id s)"
    using assms(2) None by (auto simp: jayess_symbol_singleton_def jayess_value_from_symbol_def)
  have mono: "known_symbol s k w \<Longrightarrow> known_symbol s1 k w" for k w using y1(3) by (auto intro: known_symbol_mono)
  have "known_symbol s1 key v" using y1 by (simp add: known_symbol_def)
  then show ?thesis
    using symbols_okD(2,3,4) [OF assms(1)] known fresh_id [OF known] mono y1(1)
    by (auto simp: symbols_ok_def y1(2))
next
  case (Some w)
  then show ?thesis using assms by (auto simp: jayess_symbol_singleton_def)
qed

lemma symbol_found:
  assumes "symbols_ok y s" and "(key, v) \<in> set (registry y)"
  shows "jayess_std_symbol_key_for y s (Some v) = VString key"
proof -
  from symbols_okD(1) [OF assms] obtain i where v: "v = VSymbol i (Some key)" by (auto simp: known_symbol_def)
  have "find (\<lambda>(k, w). value_eq s (Some w) (Some v)) xs = Some (key, v)"
    if "(key, v) \<in> set xs" "\<forall>(k, w) \<in> set xs. known_symbol s k w" "distinct (map (symbol_id \<circ> snd) xs)" for xs
    using that
  proof (induction xs)
    case (Cons x xs)
    obtain k w where x: "x = (k, w)" by (cases x)
    with Cons.prems(2) obtain j where w: "w = VSymbol j (Some k)" by (auto simp: known_symbol_def)
    show ?case using Cons x w v by (force simp: image_iff)
  qed simp
  then have "find (\<lambda>(k, w). value_eq s (Some w) (Some v)) (registry y) = Some (key, v)"
    using assms(2) symbols_okD(1,3) [OF assms(1)] by auto
  then show ?thesis by (simp add: jayess_std_symbol_key_for_def v)
qed

lemma symbol_not_found:
  assumes "symbols_ok y s" and "known_symbol s key v" and "symbol_id v \<notin> symbol_id ` snd ` set (registry y)"
  shows "jayess_std_symbol_key_for y s (Some v) = VUndefined"
proof -
  from assms(2) obtain i where v: "v = VSymbol i (Some key)" by (auto simp: known_symbol_def)
  have "\<not> value_eq s (Some w) (Some v)" if "(k, w) \<in> set (registry y)" for k w
    using symbols_okD(1) [OF assms(1) that] assms(3) that by (force simp: known_symbol_def v image_iff)
  then have "find (\<lambda>(k, w). value_eq s (Some w) (Some v)) (registry y) = None" by (auto simp: find_None_iff)
  then show ?thesis by (simp add: jayess_std_symbol_key_for_def v)
qed

text \<open>
  C36. \<open>Symbol.for\<close> gives one symbol per key: two keys give equal symbols exactly when they are equal, \<open>Symbol.keyFor\<close>
  gives each symbol its key again, a well-known symbol has no key, and the table stays in order.
\<close>

theorem symbol_registry:
  assumes "symbols_ok y s" and "jayess_std_symbol_for (Suc d) y s (Some (VString k)) = Some (v, y1, s1)"
    and "jayess_std_symbol_for (Suc d) y1 s1 (Some (VString l)) = Some (w, y2, s2)"
    and "jayess_std_symbol_iterator y2 s2 = (i, y3, s3)"
  shows "jayess_std_symbol_key_for y3 s3 (Some v) = VString k \<and> jayess_std_symbol_key_for y3 s3 (Some w) = VString l
    \<and> jayess_std_symbol_key_for y3 s3 (Some i) = VUndefined
    \<and> (value_eq s3 (Some v) (Some w) \<longleftrightarrow> k = l) \<and> symbols_ok y3 s3"
proof -
  have "register_symbol y s k = (v, y1, s1)" "register_symbol y1 s1 l = (w, y2, s2)"
    using assms(2,3) by (simp_all add: jayess_std_symbol_for_def stringify_Suc_simp)
  note first = register_symbol_ok [OF assms(1) this(1)] and second = register_symbol_ok [OF _ this(2)]
  have y2: "symbols_ok y2 s2" "(k, v) \<in> set (registry y2)" "(l, w) \<in> set (registry y2)" using first second by blast+
  note singleton = singleton_ok [OF y2(1) assms(4) [unfolded jayess_std_symbol_iterator_def]]
  then have ok: "symbols_ok y3 s3" and kv: "(k, v) \<in> set (registry y3)" and lw: "(l, w) \<in> set (registry y3)"
    using y2 by simp_all
  have eq: "value_eq s3 (Some v) (Some w) \<longleftrightarrow> k = l"
  proof -
    obtain a b where ab: "v = VSymbol a (Some k)" "w = VSymbol b (Some l)"
      using symbols_okD(1) [OF ok kv] symbols_okD(1) [OF ok lw] by (auto simp: known_symbol_def)
    have "k = l \<Longrightarrow> v = w" using kv lw symbols_okD(2) [OF ok] by (auto dest: eq_key_imp_eq_value)
    moreover have "a = b \<Longrightarrow> (k, v) = (l, w)"
      using symbols_okD(3) [OF ok] kv lw inj_onD [of "symbol_id \<circ> snd" "set (registry y3)" "(k, v)" "(l, w)"]
      by (auto simp: distinct_map ab)
    ultimately show ?thesis using ab by auto
  qed
  show ?thesis
    using symbol_found [OF ok kv] symbol_found [OF ok lw] symbol_not_found [OF ok] symbols_okD(4) [OF ok] singleton eq ok
    by blast
qed

theorem symbol_registry_witness:
  "\<exists>v w. jayess_std_symbol_for 1 no_symbols initial_state (Some (VString ''a''))
     = Some (v, no_symbols\<lparr>registry := [(''a'', v)]\<rparr>, initial_state\<lparr>next_symbol_id := 2\<rparr>)
   \<and> jayess_std_symbol_for 1 (no_symbols\<lparr>registry := [(''a'', v)]\<rparr>) (initial_state\<lparr>next_symbol_id := 2\<rparr>) (Some (VString ''b''))
     = Some (w, no_symbols\<lparr>registry := [(''b'', w), (''a'', v)]\<rparr>, initial_state\<lparr>next_symbol_id := 3\<rparr>)
   \<and> jayess_std_symbol_key_for
       (no_symbols\<lparr>registry := [(''b'', w), (''a'', v)], well_known := [''Symbol.iterator'' \<mapsto> VSymbol 3 (Some ''Symbol.iterator'')]\<rparr>)
       (initial_state\<lparr>next_symbol_id := 4\<rparr>) (Some v) = VString ''a''"
proof -
  let ?v = "VSymbol 1 (Some ''a'')" and ?w = "VSymbol 2 (Some ''b'')"
  let ?y1 = "no_symbols\<lparr>registry := [(''a'', ?v)]\<rparr>" and ?y2 = "no_symbols\<lparr>registry := [(''b'', ?w), (''a'', ?v)]\<rparr>"
  have for1: "jayess_std_symbol_for (Suc 0) no_symbols initial_state (Some (VString ''a''))
      = Some (?v, ?y1, initial_state\<lparr>next_symbol_id := 2\<rparr>)"
    and for2: "jayess_std_symbol_for (Suc 0) ?y1 (initial_state\<lparr>next_symbol_id := 2\<rparr>) (Some (VString ''b''))
      = Some (?w, ?y2, initial_state\<lparr>next_symbol_id := 3\<rparr>)"
    by (simp_all add: jayess_std_symbol_for_def stringify_Suc_simp register_symbol_def jayess_symbol_registry_find_def
        no_symbols_def jayess_value_from_symbol_def initial_state_def)
  have it: "jayess_std_symbol_iterator ?y2 (initial_state\<lparr>next_symbol_id := 3\<rparr>)
      = (VSymbol 3 (Some ''Symbol.iterator''), ?y2\<lparr>well_known := [''Symbol.iterator'' \<mapsto> VSymbol 3 (Some ''Symbol.iterator'')]\<rparr>,
         initial_state\<lparr>next_symbol_id := 4\<rparr>)"
    by (simp add: jayess_std_symbol_iterator_def jayess_symbol_singleton_def no_symbols_def jayess_value_from_symbol_def
        initial_state_def)
  from symbol_registry [OF symbols_ok_initial for1 for2 it] for1 for2 show ?thesis
    by (intro exI [of _ ?v] exI [of _ ?w]) (simp add: no_symbols_def)
qed

section \<open>Iterators\<close>

lemma this_frame [simp]:
  "entries_at (jayess_push_this s v) = entries_at s" "slots_at (jayess_push_this s v) = slots_at s"
  "next_address (jayess_push_this s v) = next_address s"
  "entries_at (jayess_pop_this s) = entries_at s" "slots_at (jayess_pop_this s) = slots_at s"
  "next_address (jayess_pop_this s) = next_address s"
  by (simp_all add: jayess_push_this_def jayess_pop_this_def fun_eq_iff entries_at_def slots_at_def split: list.split)

lemma new_function_value:
  assumes "jayess_value_from_function s c e name cl n rest = (f, s1)"
  shows "function_at s1 (Some f) = Some \<lparr>fn_callee = c, fn_env = e, fn_name = name, fn_class_name = cl, fn_param_count = n,
      fn_has_rest = rest, fn_properties = next_address s, fn_bound_this = Some VUndefined, fn_bound_args = Suc (next_address s)\<rparr>"
    and "is_callback (Some f)" and "next_address s \<le> next_address s1"
    and "x < next_address s \<Longrightarrow> entries_at s1 x = entries_at s x \<and> slots_at s1 x = slots_at s x"
  using assms by (auto simp: jayess_value_from_function_def jayess_object_new_def jayess_array_new_def new_function_def
      function_at_def is_callback_def entries_at_def slots_at_def)

lemma index_number:
  assumes "i < 2 ^ 31"
  shows "c_int (jayess_value_to_number (Some (jayess_value_from_number (dbl_of_int (int i))))) = int i"
proof -
  have "c_int 0 = 0" using c_int_of_int [of 0] by (simp add: dbl_of_int_0)
  then show ?thesis
    using assms c_int_of_int [of "int i"] dbl_eq_of_int [of "int i" 0] by (auto simp: value_from_number dbl_of_int_0)
qed

text \<open>An iterator over the slots at an address, that has given so many.\<close>

definition iterating :: "jayess_state \<Rightarrow> nat \<Rightarrow> nat \<Rightarrow> jayess_slots \<Rightarrow> nat \<Rightarrow> bool" where
  "iterating s a b vs i \<longleftrightarrow> a < next_address s \<and> b < next_address s \<and> slots_at s b = vs
     \<and> object_get s a ''__jayess_std_kind'' = Some (VString ''Iterator'')
     \<and> object_get s a ''__jayess_iterator_values'' = Some (VArray b)
     \<and> object_get s a ''__jayess_iterator_index'' = Some (jayess_value_from_number (dbl_of_int (int i)))"

lemma iterating_mono:
  assumes "iterating s a b vs i" and "next_address s \<le> next_address s1"
    and "\<And>x. x < next_address s \<Longrightarrow> entries_at s1 x = entries_at s x" and "slots_at s1 b = slots_at s b"
  shows "iterating s1 a b vs i"
  using assms by (simp add: iterating_def object_get_def)

lemma plain_member:
  assumes "object_get (js t) r ''__jayess_std_kind'' = None" and "object_get (js t) r (getter_prefix @ key) = None"
  shows "jayess_value_get_member link code t (Some (VObject r)) key = (Some (value_or_undefined (object_get (js t) r key)), t)"
  using assms by (simp add: jayess_value_get_member_def builtin_members_def object_kind_def properties_of_def own_member_def
      is_callback_def)

lemma step_value:
  assumes "step_result s v done = (r, s1)"
  shows "r = VObject (next_address s)" and "next_address s1 = Suc (next_address s)" and "slots_at s1 = slots_at s"
    and "x < next_address s \<Longrightarrow> entries_at s1 x = entries_at s x"
    and "object_get s1 (next_address s) ''done'' = Some (VBool done)"
    and "object_get s1 (next_address s) ''value'' = v"
    and "k \<noteq> ''value'' \<Longrightarrow> k \<noteq> ''done'' \<Longrightarrow> object_get s1 (next_address s) k = None"
proof -
  let ?s = "snd (jayess_object_new s)"
  have s1: "r = VObject (next_address s)"
    "s1 = object_set (object_set_key ?s (next_address s) (VString ''value'') v) (next_address s) ''done'' (VBool done)"
    using assms by (auto simp: step_result_def jayess_object_new_def)
  have v: "object_get (object_set_key ?s (next_address s) (VString ''value'') v) (next_address s) k
      = (if k = ''value'' then v else None)" for k
  proof (cases v)
    case None
    then show ?thesis by (simp add: object_get_def jayess_object_set_key_value_def jayess_object_get_def
        jayess_object_get_key_value_def)
  next
    case (Some w)
    then have "object_set_key ?s (next_address s) (VString ''value'') v = object_set ?s (next_address s) ''value'' w"
      by (simp add: object_set_def)
    then show ?thesis using Some by (simp add: object_get_set) (simp add: object_get_def jayess_object_get_def jayess_object_get_key_value_def)
  qed
  show "r = VObject (next_address s)" "next_address s1 = Suc (next_address s)" by (simp_all add: s1)
  show "slots_at s1 = slots_at s" by (simp add: s1 fun_eq_iff slots_at_def)
  show "x < next_address s \<Longrightarrow> entries_at s1 x = entries_at s x" by (simp add: s1 object_set_def)
  show "object_get s1 (next_address s) ''done'' = Some (VBool done)"
    "object_get s1 (next_address s) ''value'' = v"
    "k \<noteq> ''value'' \<Longrightarrow> k \<noteq> ''done'' \<Longrightarrow> object_get s1 (next_address s) k = None"
    by (simp_all add: s1 object_get_set v)
qed

text \<open>One step of an iterator.\<close>

lemma next_step:
  assumes "iterating s a b vs i" and "i + 1 < 2 ^ 31" and "jayess_std_iterator_next_method s a = (r, s1)"
  shows "r = VObject (next_address s)" and "next_address s1 = Suc (next_address s)" and "slots_at s1 = slots_at s"
    and "object_get s1 (next_address s) ''done'' = Some (VBool (length vs \<le> i))"
    and "i < length vs \<Longrightarrow> object_get s1 (next_address s) ''value'' = vs ! i"
    and "k \<noteq> ''value'' \<Longrightarrow> k \<noteq> ''done'' \<Longrightarrow> object_get s1 (next_address s) k = None"
    and "i < length vs \<Longrightarrow> iterating s1 a b vs (Suc i)"
proof -
  have a: "a < next_address s" "b < next_address s" "slots_at s b = vs"
      "object_get s a ''__jayess_iterator_values'' = Some (VArray b)"
    and index: "c_int (jayess_value_to_number (object_get s a ''__jayess_iterator_index'')) = int i"
    using assms(1,2) index_number [of i] by (simp_all add: iterating_def)
  let ?v = "if length vs \<le> i then Some VUndefined else vs ! i"
  obtain r' s' where step: "step_result s ?v (length vs \<le> i) = (r', s')" by fastforce
  note new = step_value [OF step]
  let ?s = "if length vs \<le> i then s'
    else object_set s' a ''__jayess_iterator_index'' (jayess_value_from_number (dbl_of_int (int i + 1)))"
  have r: "r = r'" "s1 = ?s"
    using assms(3) index a step
    by (auto simp: jayess_std_iterator_next_method_def jayess_std_array_slot_def jayess_array_get_def split: if_splits)
  have other: "object_get s1 (next_address s) k = object_get s' (next_address s) k" for k
    using a(1) by (simp add: r object_get_set)
  show "r = VObject (next_address s)" "next_address s1 = Suc (next_address s)" "slots_at s1 = slots_at s"
    using new(1-3) by (simp_all add: r fun_eq_iff slots_at_def)
  show "object_get s1 (next_address s) ''done'' = Some (VBool (length vs \<le> i))"
    "i < length vs \<Longrightarrow> object_get s1 (next_address s) ''value'' = vs ! i"
    "k \<noteq> ''value'' \<Longrightarrow> k \<noteq> ''done'' \<Longrightarrow> object_get s1 (next_address s) k = None"
    unfolding other by (simp_all add: new)
  have get: "object_get s' a k = object_get s a k" for k using a(1) new(4) by (simp add: object_get_def)
  have "slots_at ?s b = vs" using new(3) a(3) by (simp add: slots_at_def fun_eq_iff)
  then show "i < length vs \<Longrightarrow> iterating s1 a b vs (Suc i)"
    using assms(1) a new(2) by (simp add: iterating_def r object_get_set get add.commute)
qed

text \<open>What a program links for the method of an iterator.\<close>

definition linked_next :: "(string \<Rightarrow> nat) \<Rightarrow> native_code \<Rightarrow> bool" where
  "linked_next link code \<longleftrightarrow> (\<forall>a s. code (link ''jayess_std_iterator_next_method'') [VObject a] s
     = apfst Some (jayess_std_iterator_next_method s a))"

lemma next_member:
  assumes "object_kind (js t) (Some (VObject a)) = Some ''Iterator''"
  shows "jayess_value_get_member link code t (Some (VObject a)) ''next''
    = (let (f, s1) = jayess_value_from_function (js t) (Some (link ''jayess_std_iterator_next_method'')) (Some (VObject a))
                       ''next'' [] 0 False
       in (Some f, t\<lparr>js := s1\<rparr>))"
  using assms by (simp add: jayess_value_get_member_def builtin_members_def members_of_kind_def
      iterator_members_def method_list_def jayess_std_is_typed_array_kind_def member_value_def)

lemma from_function_exception:
  "current_exception (snd (jayess_value_from_function s c env name class_name n rest)) = current_exception s"
  by (simp add: jayess_value_from_function_def Let_def split_beta new_function_def jayess_array_new_def)

lemma next_exception: "current_exception (snd (jayess_std_iterator_next_method s a)) = current_exception s"
  by (auto simp: jayess_std_iterator_next_method_def step_result_def Let_def split_beta object_set_key_def split: option.split)

text \<open>One round of the loop: the method is called on the iterator, and its result is read.\<close>

lemma protocol_round:
  assumes "linked_next link code" and "iterating (js t) a b vs i" and "i + 1 < 2 ^ 31" and "v < next_address (js t)"
  shows "\<exists>t1. protocol_loop link code (Some (VObject a)) v (Suc n) t
      = (if i < length vs
         then protocol_loop link code (Some (VObject a)) v n (t1\<lparr>js := push_slot (js t1) v (Some (value_or_undefined (vs ! i)))\<rparr>)
         else t1)
    \<and> slots_at (js t1) v = slots_at (js t) v \<and> slots_at (js t1) b = vs \<and> next_address (js t) \<le> next_address (js t1)
    \<and> current_exception (js t1) = current_exception (js t)
    \<and> (i < length vs \<longrightarrow> iterating (js t1) a b vs (Suc i))"
proof -
  obtain f s1 where f: "jayess_value_from_function (js t) (Some (link ''jayess_std_iterator_next_method'')) (Some (VObject a))
      ''next'' [] 0 False = (f, s1)" by fastforce
  note fun_f = new_function_value [OF f]
  let ?s = "jayess_push_this s1 (Some (VObject a))"
  obtain r s2 where r: "jayess_std_iterator_next_method ?s a = (r, s2)" by fastforce
  have it: "iterating ?s a b vs i"
    using iterating_mono [OF assms(2) fun_f(3)] fun_f(4) assms(2) by (simp add: iterating_def object_get_def)
  note new = next_step [OF it assms(3) r]
  let ?t1 = "t\<lparr>js := jayess_pop_this s2\<rparr>"
  have kind: "object_kind (js t) (Some (VObject a)) = Some ''Iterator''"
    using assms(2) by (simp add: iterating_def object_kind_def)
  have call: "jayess_value_call_with_this code s1 (Some f) (Some (VObject a)) None 0
      = (VObject (next_address ?s), jayess_pop_this s2)"
    using assms(1) r new(1) by (simp add: jayess_value_call_with_this_def fun_f(1) chosen_this_def env_args_def linked_next_def
        value_or_undefined_def)
  have pop: "object_get (jayess_pop_this s2) x k = object_get s2 x k" for x k by (simp add: object_get_def)
  have member: "jayess_value_get_member link code ?t1 (Some (VObject (next_address ?s))) k
      = (Some (value_or_undefined (object_get s2 (next_address ?s) k)), ?t1)" if "k = ''done'' \<or> k = ''value''" for k
  proof -
    have "getter_prefix @ k \<noteq> ''value''" "getter_prefix @ k \<noteq> ''done''" using that by (auto simp: getter_prefix_def)
    then show ?thesis using plain_member [of ?t1 "next_address ?s" k link code] new(6) by (simp add: pop)
  qed
  have "protocol_loop link code (Some (VObject a)) v (Suc n) t
      = (if i < length vs
         then protocol_loop link code (Some (VObject a)) v n (?t1\<lparr>js := push_slot (js ?t1) v (Some (value_or_undefined (vs ! i)))\<rparr>)
         else ?t1)"
    using new(4,5) member [of "''done''"] member [of "''value''"]
    by (simp add: next_member [OF kind] f fun_f(2) call value_or_undefined_def state_bool_def jayess_value_as_bool_def)
  moreover have "slots_at (jayess_pop_this s2) v = slots_at (js t) v" "slots_at (jayess_pop_this s2) b = vs"
    using new(3) fun_f(4) [of v] assms(4) it by (simp_all add: iterating_def)
  moreover have "i < length vs \<Longrightarrow> iterating (jayess_pop_this s2) a b vs (Suc i)"
    using new(7) by (simp add: iterating_def object_get_def)
  moreover have "current_exception (jayess_pop_this s2) = current_exception (js t)"
    using next_exception [of ?s a] from_function_exception [of "js t"] by (simp add: r) (metis f snd_conv)
  ultimately show ?thesis using fun_f(3) new(2) by (intro exI [of _ ?t1]) (simp del: protocol_loop.simps)
qed

lemma protocol_values:
  assumes "linked_next link code" and "iterating (js t) a b vs i" and "i + n < 2 ^ 31"
    and "v < next_address (js t)" and "v \<noteq> b"
  shows "slots_at (js (protocol_loop link code (Some (VObject a)) v n t)) v
      = slots_at (js t) v @ map (Some \<circ> value_or_undefined) (take n (drop i vs))
    \<and> slots_at (js (protocol_loop link code (Some (VObject a)) v n t)) b = vs
    \<and> current_exception (js (protocol_loop link code (Some (VObject a)) v n t)) = current_exception (js t)"
  using assms(2-4)
proof (induction n arbitrary: t i)
  case (Suc n)
  obtain t1 where t1: "protocol_loop link code (Some (VObject a)) v (Suc n) t
      = (if i < length vs
         then protocol_loop link code (Some (VObject a)) v n (t1\<lparr>js := push_slot (js t1) v (Some (value_or_undefined (vs ! i)))\<rparr>)
         else t1)"
    "slots_at (js t1) v = slots_at (js t) v" "slots_at (js t1) b = vs" "next_address (js t) \<le> next_address (js t1)"
    "current_exception (js t1) = current_exception (js t)" "i < length vs \<longrightarrow> iterating (js t1) a b vs (Suc i)"
    using protocol_round [OF assms(1) Suc.prems(1) _ Suc.prems(3)] Suc.prems(2) by fastforce
  show ?case
  proof (cases "i < length vs")
    case True
    let ?t2 = "t1\<lparr>js := push_slot (js t1) v (Some (value_or_undefined (vs ! i)))\<rparr>"
    have "iterating (js t1) a b vs (Suc i)" using True t1(6) by simp
    then have "iterating (js ?t2) a b vs (Suc i)" using assms(5) by (simp add: iterating_def object_get_def)
    with Suc.IH [of ?t2 "Suc i"] Suc.prems(2,3) t1(4) assms(5)
    show ?thesis unfolding t1(1) using True by (simp add: t1(2,5) Cons_nth_drop_Suc [symmetric])
  next
    case False
    then show ?thesis unfolding t1(1) by (simp add: t1(2,3,5))
  qed
qed (simp add: iterating_def)

lemma array_write_exception: "current_exception (array_write s b r) = current_exception s"
  by (simp add: array_write_def split_beta)

lemma array_new_exception: "current_exception (snd (jayess_array_new s)) = current_exception s"
  by (simp add: jayess_array_new_def)

lemma array_clone:
  assumes "jayess_array_clone s vs = (c, s1)"
  shows "c = next_address s" and "slots_at s1 x = (if x = c then vs else slots_at s x)" and "objects s1 = objects s"
    and "next_address s1 = Suc (next_address s)" and "current_exception s1 = current_exception s"
  using assms by (auto simp: jayess_array_clone_def append_loop Let_def split_beta array_write_exception) (simp add: jayess_array_new_def)

lemma iterator_over_array:
  assumes "jayess_std_iterator_from link code y t (Some (VArray b)) = (it, y1, t1)"
  shows "it = VObject (next_address (js t))"
    and "iterating (js t1) (next_address (js t)) (Suc (next_address (js t))) (slots_at (js t) b) 0"
    and "current_exception (js t1) = current_exception (js t)"
proof -
  let ?a = "next_address (js t)"
  let ?s = "object_set (snd (jayess_object_new (js t))) ?a ''__jayess_std_kind'' (VString ''Iterator'')"
  obtain c s1 where clone: "jayess_array_clone ?s (slots_at ?s b) = (c, s1)" by fastforce
  note new = array_clone [OF clone]
  have get: "object_get s1 ?a ''__jayess_std_kind'' = Some (VString ''Iterator'')"
    using object_get_set [of "snd (jayess_object_new (js t))"] new(3) by (simp add: object_get_def entries_at_def)
  have same: "slots_at ?s b = slots_at (js t) b" by (simp add: slots_at_def)
  have t1: "it = VObject ?a" "js t1 = object_set (object_set s1 ?a ''__jayess_iterator_values'' (VArray c)) ?a
      ''__jayess_iterator_index'' (jayess_value_from_number 0)"
    using assms clone
    by (auto simp: jayess_std_iterator_from_def iterator_object_def iterable_values_def cloned_array_def Let_def split_beta)
  show "it = VObject ?a" by (fact t1(1))
  show "current_exception (js t1) = current_exception (js t)" by (simp add: t1(2) new(5))
  show "iterating (js t1) ?a (Suc ?a) (slots_at (js t) b) 0"
    using get same by (simp add: iterating_def t1(2) object_get_set new(1,4) dbl_of_int_0 member_set(2) new(2))
qed

text \<open>
  C37. An iterator made from an array, asked for its values until it is done, gives those of the array in order, NULL slots
  as undefined. After a million values the loop stops, without an error: in every case the pending exception, or that there
  is none, is the one from before the iterator was made.
\<close>

theorem iterator_values:
  assumes "linked_next link code"
    and "jayess_std_iterator_from link code y t (Some (VArray b)) = (it, y1, t1)"
    and "jayess_std_iterator_protocol_values link code t1 (Some it) = (r, t2)"
  shows "\<exists>c. r = VArray c \<and> slots_at (js t2) c = map (Some \<circ> value_or_undefined) (take 1000000 (slots_at (js t) b))
    \<and> current_exception (js t2) = current_exception (js t)"
proof -
  let ?a = "next_address (js t)" and ?c = "next_address (js t1)" and ?t = "t1\<lparr>js := snd (jayess_array_new (js t1))\<rparr>"
  note over = iterator_over_array [OF assms(2)]
  have r: "r = VArray ?c" "t2 = protocol_loop link code (Some (VObject ?a)) ?c iteration_limit ?t"
    using assms(3) by (auto simp: jayess_std_iterator_protocol_values_def over(1) Let_def split_beta)
  have "iterating (js ?t) ?a (Suc ?a) (slots_at (js t) b) 0" "Suc ?a < ?c"
    using over(2) by (auto simp: iterating_def object_get_def entries_at_def)
  with protocol_values [OF assms(1), of ?t ?a "Suc ?a" "slots_at (js t) b" 0 iteration_limit ?c] show ?thesis
    by (simp add: r iteration_limit_def array_new_exception over(3))
qed

definition example_next :: native_code where
  "example_next c args s = (case args of [VObject a] \<Rightarrow> apfst Some (jayess_std_iterator_next_method s a) | _ \<Rightarrow> (None, s))"

definition example_values :: byte_state where
  "example_values = \<lparr>js = initial_state\<lparr>arrays := [0 \<mapsto> [Some (VBool True), None]], next_address := 1\<rparr>, native = (\<lambda>_. None)\<rparr>"

theorem iterator_values_witness:
  "\<exists>it y1 t1 c t2. jayess_std_iterator_from (\<lambda>_. 0) example_next no_symbols example_values (Some (VArray 0)) = (it, y1, t1)
    \<and> jayess_std_iterator_protocol_values (\<lambda>_. 0) example_next t1 (Some it) = (VArray c, t2)
    \<and> slots_at (js t2) c = [Some (VBool True), Some VUndefined]"
proof -
  obtain it y1 t1 where made: "jayess_std_iterator_from (\<lambda>_. 0) example_next no_symbols example_values (Some (VArray 0)) = (it, y1, t1)"
    using prod_cases3 by blast
  obtain r t2 where loop: "jayess_std_iterator_protocol_values (\<lambda>_. 0) example_next t1 (Some it) = (r, t2)" by fastforce
  have "linked_next (\<lambda>_. 0) example_next" by (simp add: linked_next_def example_next_def)
  from iterator_values [OF this made loop] made loop show ?thesis
    by (auto simp: example_values_def slots_at_def value_or_undefined_def)
qed

text \<open>Spreading an iterator gives all its values, however many it has given already.\<close>

lemma iterator_restarts:
  assumes "iterating (js t) a b vs i"
  shows "\<exists>c t1. iterable_values link code y t (Some (VObject a)) = (VArray c, y, t1) \<and> slots_at (js t1) c = vs"
proof -
  obtain c s1 where clone: "jayess_array_clone (js t) (slots_at (js t) b) = (c, s1)" by fastforce
  have "\<not> jayess_std_is_typed_array (js t) (Some (VObject a))"
    using assms by (auto simp: jayess_std_is_typed_array_def jayess_std_typed_array_kind_def iterating_def object_kind_def
        jayess_std_is_typed_array_kind_def)
  then show ?thesis
    using assms array_clone [OF clone]
    by (auto simp: iterable_values_def jayess_std_kind_is_def iterating_def object_kind_def cloned_array_def clone)
qed

section \<open>Entries\<close>

text \<open>The entries of an object without internal properties.\<close>

definition own_entry :: "string \<times> jayess_value \<Rightarrow> jayess_object_entry" where
  "own_entry kv = new_entry (VString (fst kv)) (snd kv)"

definition plain_entries :: "(string \<times> jayess_value) list \<Rightarrow> bool" where
  "plain_entries kvs \<longleftrightarrow> distinct (map fst kvs) \<and> (\<forall>kv \<in> set kvs. take 9 (fst kv) \<noteq> ''__jayess_'')"

lemma own_entry_simps [simp]:
  "entry_key (own_entry kv) = Some (fst kv)" "entry_value (own_entry kv) = Some (snd kv)"
  by (simp_all add: own_entry_def new_entry_def)

lemma own_keys:
  assumes "plain_entries kvs"
  shows "jayess_object_keys (map own_entry kvs) = map fst kvs"
proof -
  have "listed_key k" if "take 9 k \<noteq> ''__jayess_''" for k
    using that by (auto simp: listed_key_def internal_prefix_def strncmp_eq_all)
  then have "\<forall>k \<in> set (map fst kvs). listed_key k" using assms by (simp add: plain_entries_def)
  moreover have "List.map_filter entry_key (map own_entry kvs) = map fst kvs"
    by (induction kvs) (simp_all add: List.map_filter_simps)
  ultimately show ?thesis unfolding jayess_object_keys_def by (simp only: filter_True)
qed

lemma own_get:
  "jayess_object_get (map own_entry kvs) k = map_of kvs k"
  by (induction kvs) (auto simp: jayess_object_get_def jayess_object_get_key_value_def own_entry_def new_entry_def
      jayess_object_entry_matches_string_def)

lemma own_get_internal:
  assumes "plain_entries kvs" and "take 9 k = ''__jayess_''"
  shows "jayess_object_get (map own_entry kvs) k = None"
  unfolding own_get using assms by (auto simp: plain_entries_def map_of_eq_None_iff)

text \<open>A slot that holds a key and its value, as an array of two.\<close>

definition pair_at :: "jayess_state \<Rightarrow> nat \<Rightarrow> jayess_value option \<Rightarrow> string \<times> jayess_value \<Rightarrow> bool" where
  "pair_at s a w kv \<longleftrightarrow> (\<exists>b < next_address s. w = Some (VArray b) \<and> b \<noteq> a
     \<and> slots_at s b = [Some (VString (fst kv)), Some (snd kv)])"

lemma pair_at_mono:
  assumes "pair_at s a w kv" and "next_address s \<le> next_address s1"
    and "\<And>b. b < next_address s \<Longrightarrow> b \<noteq> a \<Longrightarrow> slots_at s1 b = slots_at s b"
  shows "pair_at s1 a w kv"
  using assms unfolding pair_at_def by (metis less_le_trans)

lemma entries_pairs:
  assumes "entries_at (js t) p = map own_entry whole" and "plain_entries whole" and "set kvs \<subseteq> set whole"
    and "a < next_address (js t)" and "list_all2 (pair_at (js t) a) (slots_at (js t) a) seen"
    and "entries_loop link code t (Some (VObject p)) a (map fst kvs) = t1"
  shows "list_all2 (pair_at (js t1) a) (slots_at (js t1) a) (seen @ kvs) \<and> entries_at (js t1) = entries_at (js t)
    \<and> next_address (js t) \<le> next_address (js t1)"
  using assms
proof (induction kvs arbitrary: t seen)
  case (Cons kv kvs)
  let ?b = "next_address (js t)"
  let ?s = "push_slot (snd (jayess_array_new (js t))) ?b (Some (VString (fst kv)))"
  let ?t2 = "t\<lparr>js := push_slot (push_slot ?s ?b (Some (snd kv))) a (Some (VArray ?b))\<rparr>"
  have entries: "entries_at ?s = entries_at (js t)" by (simp add: fun_eq_iff entries_at_def)
  have kv: "map_of whole (fst kv) = Some (snd kv)"
    using Cons.prems(2,3) by (cases kv) (auto simp: plain_entries_def)
  have member: "jayess_value_get_member link code (t\<lparr>js := ?s\<rparr>) (Some (VObject p)) (fst kv) = (Some (snd kv), t\<lparr>js := ?s\<rparr>)"
  proof -
    have "object_get ?s p (getter_prefix @ fst kv) = None" "object_get ?s p ''__jayess_std_kind'' = None"
      using own_get_internal [OF Cons.prems(2)] by (simp_all add: object_get_def entries Cons.prems(1) getter_prefix_def)
    then show ?thesis
      using plain_member [of "t\<lparr>js := ?s\<rparr>" p "fst kv"] kv
      by (simp add: object_get_def entries Cons.prems(1) own_get value_or_undefined_def)
  qed
  have t1: "entries_loop link code ?t2 (Some (VObject p)) a (map fst kvs) = t1"
    using Cons.prems(6) member by (simp add: jayess_array_new_def split_beta Let_def)
  have ent2: "entries_at (js ?t2) = entries_at (js t)" using entries by (simp add: fun_eq_iff)
  have "pair_at (js ?t2) a w e" if "pair_at (js t) a w e" for w e using that by (rule pair_at_mono) simp_all
  with Cons.prems(5) have "list_all2 (pair_at (js ?t2) a) (slots_at (js t) a) seen" by (rule list_all2_mono)
  moreover have "pair_at (js ?t2) a (Some (VArray ?b)) kv" using Cons.prems(4) by (simp add: pair_at_def)
  ultimately have "list_all2 (pair_at (js ?t2) a) (slots_at (js ?t2) a) (seen @ [kv])"
    using Cons.prems(4) by (simp add: list_all2_appendI)
  from Cons.IH [OF _ Cons.prems(2) _ _ this t1] Cons.prems(1,3,4) ent2 show ?case by simp
qed simp

lemma from_entries_pairs:
  assumes "list_all2 (pair_at s a) ws kvs" and "distinct (map fst kvs)"
    and "\<forall>e \<in> set (entries_at s q). \<forall>kv \<in> set kvs. entry_key e \<noteq> Some (fst kv)"
  shows "\<exists>s1. from_entries_loop (Suc d) q s ws = Some s1
    \<and> (\<forall>x. entries_at s1 x = (if x = q then entries_at s q @ map own_entry kvs else entries_at s x))"
  using assms
proof (induction ws arbitrary: s kvs)
  case (Cons w ws)
  then obtain kv rest where kvs: "kvs = kv # rest" and head: "pair_at s a w kv" and tail: "list_all2 (pair_at s a) ws rest"
    by (auto simp: list_all2_Cons1)
  obtain b where b: "w = Some (VArray b)" "slots_at s b = [Some (VString (fst kv)), Some (snd kv)]"
    using head by (auto simp: pair_at_def)
  let ?s = "object_set s q (fst kv) (snd kv)"
  have loop: "from_entries_loop (Suc d) q s (w # ws) = from_entries_loop (Suc d) q ?s ws"
    using b by (simp add: jayess_array_get_def jayess_value_to_property_key_def stringify_Suc_simp object_set_def)
  have entries: "entries_at ?s x = (if x = q then entries_at s q @ [own_entry kv] else entries_at s x)" for x
    using Cons.prems(3) by (subst member_set(3)) (auto simp: kvs own_entry_def)
  have "list_all2 (pair_at ?s a) ws rest" using tail
    by (rule list_all2_mono) (auto intro: pair_at_mono simp: member_set(2))
  moreover have "\<forall>e \<in> set (entries_at ?s q). \<forall>kv \<in> set rest. entry_key e \<noteq> Some (fst kv)"
    unfolding entries using Cons.prems(2,3) by (auto simp: kvs)
  ultimately obtain s1 where "from_entries_loop (Suc d) q ?s ws = Some s1"
    "\<forall>x. entries_at s1 x = (if x = q then entries_at ?s q @ map own_entry rest else entries_at ?s x)"
    using Cons.IH [of ?s rest] Cons.prems(2) by (auto simp: kvs)
  then show ?case unfolding loop entries by (simp add: kvs)
qed simp

text \<open>
  C38. The entries of an object without internal properties make the same object again: \<open>Object.fromEntries\<close> of what
  \<open>Object.entries\<close> answers is a new object with the same properties, in their order.
\<close>

theorem object_entries_roundtrip:
  assumes "plain_entries kvs" and "entries_at (js t) p = map own_entry kvs" and "p < next_address (js t)"
    and "jayess_value_object_entries link code t (Some (VObject p)) = (r, t1)"
  shows "\<exists>q s1. jayess_std_object_from_entries (Suc d) (js t1) (Some r) = Some (VObject q, s1)
    \<and> q \<noteq> p \<and> entries_at s1 q = entries_at (js t) p \<and> entries_at s1 p = entries_at (js t) p"
proof -
  let ?s = "snd (text_array (js t) (map fst kvs))"
  let ?a = "next_address ?s" and ?t = "t\<lparr>js := snd (jayess_array_new ?s)\<rparr>"
  have keys: "jayess_object_keys (entries_of (js t) (Some (VObject p))) = map fst kvs"
    using own_keys [OF assms(1)] by (simp add: entries_of_def properties_of_def assms(2))
  have r: "r = VArray ?a" "t1 = entries_loop link code ?t (Some (VObject p)) ?a (map fst kvs)"
    using assms(4) by (auto simp: jayess_value_object_entries_def jayess_value_object_keys_def keys Let_def split_beta)
  have "entries_at (snd (jayess_array_new u)) x = entries_at u x" for u x by (simp add: entries_at_def)
  then have same: "entries_at (js ?t) = entries_at (js t)" by (simp add: fun_eq_iff text_array_result(3))
  have grown: "next_address (js t) \<le> ?a"
  proof -
    have "next_address (foldl (\<lambda>s u. push_value s a (VString u)) s us) = next_address s" for a s us
      by (induction us arbitrary: s) simp_all
    then show ?thesis by (simp add: text_array_def Let_def split_beta)
  qed
  have "entries_loop link code ?t (Some (VObject p)) ?a (map fst kvs) = t1" by (simp add: r(2))
  from entries_pairs [OF _ assms(1) _ _ _ this, where seen = "[]"] assms(2) same
  have pairs: "list_all2 (pair_at (js t1) ?a) (slots_at (js t1) ?a) kvs" "entries_at (js t1) = entries_at (js t)"
    "?a < next_address (js t1)" by (auto simp: text_array_result(3))
  let ?q = "next_address (js t1)" and ?s1 = "snd (jayess_object_new (js t1))"
  have tail: "tail_slots ?s1 (Some r) = slots_at (js t1) ?a" by (simp add: tail_slots_def r(1) slots_at_def)
  have "list_all2 (pair_at ?s1 ?a) (tail_slots ?s1 (Some r)) kvs"
    unfolding tail using pairs(1) by (rule list_all2_mono) (auto intro: pair_at_mono simp: slots_at_def)
  moreover have "\<forall>e \<in> set (entries_at ?s1 ?q). \<forall>kv \<in> set kvs. entry_key e \<noteq> Some (fst kv)" by simp
  ultimately obtain s1 where s1: "from_entries_loop (Suc d) ?q ?s1 (tail_slots ?s1 (Some r)) = Some s1"
    "\<forall>x. entries_at s1 x = (if x = ?q then entries_at ?s1 ?q @ map own_entry kvs else entries_at ?s1 x)"
    using from_entries_pairs assms(1) unfolding plain_entries_def by blast
  then show ?thesis
    using assms(2,3) pairs(2,3) grown
    by (intro exI [of _ ?q] exI [of _ s1])
       (simp add: s1 jayess_std_object_from_entries_def Let_def split_beta)
qed

definition example_own :: byte_state where
  "example_own = \<lparr>js = initial_state\<lparr>objects := [0 \<mapsto> map own_entry [(''b'', VBool True), (''a'', VNull)]], next_address := 1\<rparr>,
     native = (\<lambda>_. None)\<rparr>"

theorem object_entries_roundtrip_witness:
  "\<exists>r t1 q s1. jayess_value_object_entries (\<lambda>_. 0) example_next example_own (Some (VObject 0)) = (r, t1)
    \<and> jayess_std_object_from_entries 1 (js t1) (Some r) = Some (VObject q, s1)
    \<and> entries_at s1 q = map own_entry [(''b'', VBool True), (''a'', VNull)]"
proof -
  obtain r t1 where made: "jayess_value_object_entries (\<lambda>_. 0) example_next example_own (Some (VObject 0)) = (r, t1)"
    by fastforce
  have "plain_entries [(''b'', VBool True), (''a'', VNull)]" by (simp add: plain_entries_def)
  moreover have "entries_at (js example_own) 0 = map own_entry [(''b'', VBool True), (''a'', VNull)]"
    "0 < next_address (js example_own)" by (simp_all add: example_own_def entries_at_def)
  ultimately show ?thesis
    using object_entries_roundtrip [OF _ _ _ made, where d = 0] made unfolding One_nat_def by metis
qed

section \<open>Members and indices\<close>

text \<open>Without accessors, a property that is set is the one that is read.\<close>

lemma set_get_member:
  assumes "object_get (js t) p ''__jayess_std_kind'' = None" and "\<not> is_callback (object_get (js t) p (setter_prefix @ k))"
    and "object_get (js t) p (getter_prefix @ k) = None" and "k \<noteq> ''__jayess_std_kind''"
  shows "jayess_value_get_member link code (t\<lparr>js := jayess_value_set_member code (js t) (Some (VObject p)) k (Some v)\<rparr>) (Some (VObject p)) k
    = (Some v, t\<lparr>js := object_set (js t) p k v\<rparr>)"
proof -
  have "getter_prefix @ k \<noteq> k" by (simp add: getter_prefix_def)
  then show ?thesis
    using assms plain_member [of "t\<lparr>js := object_set (js t) p k v\<rparr>" p k link code]
    by (simp add: jayess_value_set_member_def properties_of_def object_get_set object_set_def [symmetric] value_or_undefined_def)
qed

text \<open>An index that is a number never reaches the properties of an object.\<close>

lemma object_index_dropped:
  assumes "\<not> jayess_std_is_typed_array (js t) (Some (VObject p))"
  shows "jayess_value_set_dynamic_index d code t (Some (VObject p)) (Some (VNumber x)) v = Some t"
    and "jayess_value_get_dynamic_index d link code t (Some (VObject p)) (Some (VNumber x)) = Some (None, t)"
  using assms by (simp_all add: jayess_value_set_dynamic_index_def jayess_value_get_dynamic_index_def jayess_value_set_index_def
      jayess_value_get_index_def)

end
