(* ===== verification/Files.thy ===== *)
theory Files
  imports Paths Listeners
begin

text \<open>
  The functions on files and directories (\<open>jayess_runtime_fs.c\<close>, \<open>jayess_runtime.c\<close>), for POSIX. The operating system is
  a parameter: a record of what its calls answer in a state of the disk, whose type is a variable. Output is given to the
  system when it is written: the buffers of the C library are not modelled.
\<close>

section \<open>The operating system\<close>

datatype open_mode = Open_Read | Open_Write | Open_Append

text \<open>What \<open>stat\<close> answers: seconds and nanoseconds of the last change, and the nine permission bits, the owner's first.\<close>

record file_info =
  info_dir :: bool
  info_size :: int
  info_seconds :: int
  info_nanoseconds :: nat
  info_mode :: "bool list"

text \<open>
  The calls, by what they do to the disk: \<open>stat\<close>; the names \<open>readdir\<close> gives; \<open>mkdir\<close>, \<open>rmdir\<close>, \<open>remove\<close>, \<open>rename\<close>, \<open>symlink\<close>
  (which answer whether they succeed); opening a file, which gives a number for it; the offset of its end, or a negative
  number; reading at an offset at most so many bytes, and whether that failed; writing at an offset, or at the end, and how
  much was written; and whether flushing succeeds.
\<close>

record 'w posix =
  os_stat :: "'w \<Rightarrow> string \<Rightarrow> file_info option"
  os_names :: "'w \<Rightarrow> string \<Rightarrow> string list option"
  os_mkdir :: "'w \<Rightarrow> string \<Rightarrow> bool \<times> 'w"
  os_rmdir :: "'w \<Rightarrow> string \<Rightarrow> bool \<times> 'w"
  os_remove :: "'w \<Rightarrow> string \<Rightarrow> bool \<times> 'w"
  os_rename :: "'w \<Rightarrow> string \<Rightarrow> string \<Rightarrow> bool \<times> 'w"
  os_symlink :: "'w \<Rightarrow> string \<Rightarrow> string \<Rightarrow> bool \<times> 'w"
  os_open :: "'w \<Rightarrow> open_mode \<Rightarrow> string \<Rightarrow> nat option \<times> 'w"
  os_end :: "'w \<Rightarrow> nat \<Rightarrow> int"
  os_read :: "'w \<Rightarrow> nat \<Rightarrow> nat \<Rightarrow> nat \<Rightarrow> string \<times> bool"
  os_write :: "'w \<Rightarrow> nat \<Rightarrow> nat option \<Rightarrow> string \<Rightarrow> nat \<times> 'w"
  os_flush :: "'w \<Rightarrow> nat \<Rightarrow> bool"

text \<open>An open file and the offset in it, \<open>None\<close> when it was opened for appending.\<close>

record open_file =
  file_number :: nat
  file_offset :: "nat option"

definition c_fopen :: "'w posix \<Rightarrow> 'w \<Rightarrow> open_mode \<Rightarrow> string \<Rightarrow> open_file option \<times> 'w" where
  "c_fopen p w mode path =
     (let (i, w1) = os_open p w mode path
      in (map_option (\<lambda>i. \<lparr>file_number = i, file_offset = (if mode = Open_Append then None else Some 0)\<rparr>) i, w1))"

definition advance :: "open_file \<Rightarrow> nat \<Rightarrow> open_file" where
  "advance f n = f\<lparr>file_offset := map_option (\<lambda>k. k + n) (file_offset f)\<rparr>"

text \<open>What was read, whether the read failed, and the file behind it.\<close>

definition c_fread :: "'w posix \<Rightarrow> 'w \<Rightarrow> open_file \<Rightarrow> nat \<Rightarrow> string \<times> bool \<times> open_file" where
  "c_fread p w f n =
     (let (t, failed) = os_read p w (file_number f) (case file_offset f of None \<Rightarrow> 0 | Some k \<Rightarrow> k) n; t1 = take n t
      in (t1, failed, advance f (length t1)))"

definition c_fwrite :: "'w posix \<Rightarrow> 'w \<Rightarrow> open_file \<Rightarrow> string \<Rightarrow> nat \<times> open_file \<times> 'w" where
  "c_fwrite p w f t = (let (n, w1) = os_write p w (file_number f) (file_offset f) t in (n, advance f n, w1))"

section \<open>Whole files\<close>

definition reads_as_text :: "string \<Rightarrow> bool" where
  "reads_as_text encoding \<longleftrightarrow> encoding \<in> {''utf8'', ''utf-8'', ''text''}"

text \<open>The text ends at the first NUL of the file.\<close>

definition read_whole :: "'w posix \<Rightarrow> 'w \<Rightarrow> string \<Rightarrow> jayess_value" where
  "read_whole p w path =
     (case fst (c_fopen p w Open_Read path) of
        None \<Rightarrow> VUndefined
      | Some f \<Rightarrow>
          (let n = os_end p w (file_number f)
           in if n < 0 then VUndefined
              else (let (t, failed, f1) = c_fread p w f (nat n)
                    in if length t = nat n then VString (c_text t) else VUndefined)))"

definition jayess_std_fs_read_file ::
  "nat \<Rightarrow> 'w posix \<Rightarrow> jayess_state \<Rightarrow> 'w \<Rightarrow> jayess_value option \<Rightarrow> jayess_value option \<Rightarrow> jayess_value option" where
  "jayess_std_fs_read_file d p s w path encoding =
     Option.bind (jayess_value_stringify d s path)
       (\<lambda>path_text.
          if jayess_value_is_nullish encoding then Some (read_whole p w path_text)
          else map_option (\<lambda>e. if reads_as_text e then read_whole p w path_text else VUndefined)
                 (jayess_value_stringify d s encoding))"

text \<open>The file is closed without a look at what closing answers.\<close>

definition put_whole :: "'w posix \<Rightarrow> open_mode \<Rightarrow> 'w \<Rightarrow> string \<Rightarrow> string \<Rightarrow> bool \<times> 'w" where
  "put_whole p mode w path t =
     (let (f, w1) = c_fopen p w mode path
      in case f of
           None \<Rightarrow> (False, w1)
         | Some f \<Rightarrow> (let (n, f1, w2) = c_fwrite p w1 f t in (n = length t, w2)))"

definition put_file ::
  "nat \<Rightarrow> 'w posix \<Rightarrow> open_mode \<Rightarrow> jayess_state \<Rightarrow> 'w \<Rightarrow> jayess_value option \<Rightarrow> jayess_value option
   \<Rightarrow> (jayess_value \<times> 'w) option" where
  "put_file d p mode s w path content =
     (case (jayess_value_stringify d s path, jayess_value_stringify d s content) of
        (Some path_text, Some t) \<Rightarrow> (let (ok, w1) = put_whole p mode w path_text t in Some (VBool ok, w1))
      | _ \<Rightarrow> None)"

definition jayess_std_fs_write_file ::
  "nat \<Rightarrow> 'w posix \<Rightarrow> jayess_state \<Rightarrow> 'w \<Rightarrow> jayess_value option \<Rightarrow> jayess_value option \<Rightarrow> (jayess_value \<times> 'w) option" where
  "jayess_std_fs_write_file d p s w path content = put_file d p Open_Write s w path content"

definition jayess_std_fs_append_file ::
  "nat \<Rightarrow> 'w posix \<Rightarrow> jayess_state \<Rightarrow> 'w \<Rightarrow> jayess_value option \<Rightarrow> jayess_value option \<Rightarrow> (jayess_value \<times> 'w) option" where
  "jayess_std_fs_append_file d p s w path content = put_file d p Open_Append s w path content"

definition jayess_std_fs_exists ::
  "nat \<Rightarrow> 'w posix \<Rightarrow> jayess_state \<Rightarrow> 'w \<Rightarrow> jayess_value option \<Rightarrow> jayess_value option" where
  "jayess_std_fs_exists d p s w path =
     map_option (\<lambda>t. VBool (fst (c_fopen p w Open_Read t) \<noteq> None)) (jayess_value_stringify d s path)"

text \<open>
  Copying in blocks of 4096 bytes, read from the disk as the writes leave it; \<open>None\<close> when the source never ends.
\<close>

partial_function (option) copy_blocks ::
  "'w posix \<Rightarrow> bool \<Rightarrow> open_file \<Rightarrow> open_file \<Rightarrow> 'w \<Rightarrow> (bool \<times> 'w) option" where
  "copy_blocks p bad source dest w =
     (let (t, failed, source1) = c_fread p w source 4096
      in if t = [] then Some (\<not> (bad \<or> failed), w)
         else (let (n, dest1, w1) = c_fwrite p w dest t
               in if n \<noteq> length t then Some (False, w1) else copy_blocks p (bad \<or> failed) source1 dest1 w1))"

definition copy_file_texts :: "'w posix \<Rightarrow> 'w \<Rightarrow> string \<Rightarrow> string \<Rightarrow> (bool \<times> 'w) option" where
  "copy_file_texts p w from_text to_text =
     (let (source, w1) = c_fopen p w Open_Read from_text
      in case source of
           None \<Rightarrow> Some (False, w1)
         | Some source \<Rightarrow>
             (let (dest, w2) = c_fopen p w1 Open_Write to_text
              in case dest of None \<Rightarrow> Some (False, w2) | Some dest \<Rightarrow> copy_blocks p False source dest w2))"

definition jayess_std_fs_copy_file ::
  "nat \<Rightarrow> 'w posix \<Rightarrow> jayess_state \<Rightarrow> 'w \<Rightarrow> jayess_value option \<Rightarrow> jayess_value option \<Rightarrow> (jayess_value \<times> 'w) option" where
  "jayess_std_fs_copy_file d p s w from_path to_path =
     (case (jayess_value_stringify d s from_path, jayess_value_stringify d s to_path) of
        (Some from_text, Some to_text) \<Rightarrow> map_option (apfst VBool) (copy_file_texts p w from_text to_text)
      | _ \<Rightarrow> None)"

section \<open>Names\<close>

definition jayess_path_exists_text :: "'w posix \<Rightarrow> 'w \<Rightarrow> string \<Rightarrow> bool" where
  "jayess_path_exists_text p w path \<longleftrightarrow> os_stat p w path \<noteq> None"

definition jayess_path_is_dir_text :: "'w posix \<Rightarrow> 'w \<Rightarrow> string \<Rightarrow> bool" where
  "jayess_path_is_dir_text p w path \<longleftrightarrow> (case os_stat p w path of None \<Rightarrow> False | Some i \<Rightarrow> info_dir i)"

definition jayess_path_file_size_text :: "'w posix \<Rightarrow> 'w \<Rightarrow> string \<Rightarrow> double" where
  "jayess_path_file_size_text p w path = (case os_stat p w path of None \<Rightarrow> 0 | Some i \<Rightarrow> dbl_of_int (info_size i))"

text \<open>Seconds times 1000, plus nanoseconds by a million, each rounded.\<close>

definition jayess_path_modified_time_ms_text :: "'w posix \<Rightarrow> 'w \<Rightarrow> string \<Rightarrow> double" where
  "jayess_path_modified_time_ms_text p w path =
     (case os_stat p w path of
        None \<Rightarrow> 0
      | Some i \<Rightarrow> dbl_add (dbl_of_int (info_seconds i * 1000)) (dbl_of_ratio False (info_nanoseconds i) 1000000))"

definition jayess_path_permissions_text :: "'w posix \<Rightarrow> 'w \<Rightarrow> string \<Rightarrow> string" where
  "jayess_path_permissions_text p w path =
     (case os_stat p w path of
        None \<Rightarrow> []
      | Some i \<Rightarrow> map (\<lambda>(b, c). if b then c else CHR ''-'') (zip (info_mode i) ''rwxrwxrwx''))"

definition jayess_path_mkdir_single :: "'w posix \<Rightarrow> 'w \<Rightarrow> string \<Rightarrow> bool \<times> 'w" where
  "jayess_path_mkdir_single p w path =
     (if path = [] then (False, w)
      else if jayess_path_exists_text p w path then (jayess_path_is_dir_text p w path, w)
      else os_mkdir p w path)"

text \<open>The path of an entry of a directory; the directory itself and the one above are left out.\<close>

definition child_path :: "string \<Rightarrow> string \<Rightarrow> string" where
  "child_path path name =
     path @ (if path \<noteq> [] \<and> \<not> jayess_path_is_separator (last path) then ''/'' else []) @ name"

definition real_names :: "string list \<Rightarrow> string list" where
  "real_names = filter (\<lambda>n. n \<noteq> ''.'' \<and> n \<noteq> ''..'')"

definition option_bool :: "jayess_state \<Rightarrow> jayess_value option \<Rightarrow> string \<Rightarrow> bool" where
  "option_bool s options key = (case options of Some (VObject a) \<Rightarrow> state_bool s (object_get s a key) | _ \<Rightarrow> False)"

section \<open>Directories\<close>

text \<open>
  Removing, copying and listing a directory walk over its names. A walk is given the names that are left, \<open>None\<close> at its
  start, and has no result when the directories go on for ever. What a name leads to is asked with \<open>stat\<close>, which follows
  links.
\<close>

partial_function (option) remove_walk ::
  "'w posix \<Rightarrow> string \<Rightarrow> (string list \<times> bool) option \<Rightarrow> 'w \<Rightarrow> (bool \<times> 'w) option" where
  "remove_walk p path rest w =
     (case rest of
        None \<Rightarrow>
          if path = [] then Some (False, w)
          else if \<not> jayess_path_is_dir_text p w path then Some (os_remove p w path)
          else (case os_names p w path of
                  None \<Rightarrow> Some (False, w)
                | Some names \<Rightarrow> remove_walk p path (Some (real_names names, True)) w)
      | Some (names, ok) \<Rightarrow>
          (case names of
             [] \<Rightarrow> Some (if ok then os_rmdir p w path else (False, w))
           | n # ns \<Rightarrow>
               Option.bind (remove_walk p (child_path path n) None w)
                 (\<lambda>r. remove_walk p path (Some (ns, ok \<and> fst r)) (snd r))))"

definition jayess_fs_remove_path_recursive :: "'w posix \<Rightarrow> 'w \<Rightarrow> string \<Rightarrow> (bool \<times> 'w) option" where
  "jayess_fs_remove_path_recursive p w path = remove_walk p path None w"

definition jayess_std_fs_remove ::
  "nat \<Rightarrow> 'w posix \<Rightarrow> jayess_state \<Rightarrow> 'w \<Rightarrow> jayess_value option \<Rightarrow> jayess_value option \<Rightarrow> (jayess_value \<times> 'w) option" where
  "jayess_std_fs_remove d p s w path options =
     Option.bind (jayess_value_stringify d s path)
       (\<lambda>t. map_option (apfst VBool)
          (if option_bool s options ''recursive'' then jayess_fs_remove_path_recursive p w t
           else Some (if jayess_path_is_dir_text p w t then os_rmdir p w t else os_remove p w t)))"

partial_function (option) copy_walk ::
  "'w posix \<Rightarrow> string \<Rightarrow> string \<Rightarrow> (string list \<times> bool) option \<Rightarrow> 'w \<Rightarrow> (bool \<times> 'w) option" where
  "copy_walk p from_text to_text rest w =
     (case rest of
        None \<Rightarrow>
          if \<not> jayess_path_is_dir_text p w from_text then Some (False, w)
          else (let (made, w1) = jayess_path_mkdir_single p w to_text
                in if \<not> made \<and> \<not> jayess_path_is_dir_text p w1 to_text then Some (False, w1)
                   else (case os_names p w1 from_text of
                           None \<Rightarrow> Some (False, w1)
                         | Some names \<Rightarrow> copy_walk p from_text to_text (Some (real_names names, True)) w1))
      | Some (names, ok) \<Rightarrow>
          (case names of
             [] \<Rightarrow> Some (ok, w)
           | n # ns \<Rightarrow>
               Option.bind
                 (if jayess_path_is_dir_text p w (child_path from_text n)
                  then copy_walk p (child_path from_text n) (child_path to_text n) None w
                  else copy_file_texts p w (child_path from_text n) (child_path to_text n))
                 (\<lambda>r. copy_walk p from_text to_text (Some (ns, ok \<and> fst r)) (snd r))))"

definition jayess_std_fs_copy_dir ::
  "nat \<Rightarrow> 'w posix \<Rightarrow> jayess_state \<Rightarrow> 'w \<Rightarrow> jayess_value option \<Rightarrow> jayess_value option \<Rightarrow> (jayess_value \<times> 'w) option" where
  "jayess_std_fs_copy_dir d p s w from_path to_path =
     (case (jayess_value_stringify d s from_path, jayess_value_stringify d s to_path) of
        (Some from_text, Some to_text) \<Rightarrow> map_option (apfst VBool) (copy_walk p from_text to_text None w)
      | _ \<Rightarrow> None)"

text \<open>The entry of a listing; \<open>stat\<close> asks for the same facts under the path alone.\<close>

definition file_facts :: "'w posix \<Rightarrow> 'w \<Rightarrow> string \<Rightarrow> bool \<Rightarrow> jayess_state \<Rightarrow> nat \<Rightarrow> jayess_state" where
  "file_facts p w path is_dir s a =
     object_set (object_set (object_set (object_set (object_set s
       a ''isDir'' (VBool is_dir))
       a ''isFile'' (VBool (\<not> is_dir)))
       a ''size'' (jayess_value_from_number (jayess_path_file_size_text p w path)))
       a ''mtimeMs'' (jayess_value_from_number (jayess_path_modified_time_ms_text p w path)))
       a ''permissions'' (VString (jayess_path_permissions_text p w path))"

definition jayess_fs_dir_entry_value ::
  "'w posix \<Rightarrow> 'w \<Rightarrow> jayess_state \<Rightarrow> string \<Rightarrow> string \<Rightarrow> bool \<Rightarrow> jayess_value \<times> jayess_state" where
  "jayess_fs_dir_entry_value p w s name full_path is_dir =
     (let (a, s1) = jayess_object_new s;
          s2 = object_set (object_set s1 a ''name'' (VString name)) a ''path'' (VString full_path)
      in (VObject a, file_facts p w full_path is_dir s2 a))"

partial_function (option) collect_walk ::
  "'w posix \<Rightarrow> 'w \<Rightarrow> bool \<Rightarrow> nat \<Rightarrow> string \<Rightarrow> string list option \<Rightarrow> jayess_state \<Rightarrow> jayess_state option" where
  "collect_walk p w recursive entries path rest s =
     (case rest of
        None \<Rightarrow>
          (case os_names p w path of
             None \<Rightarrow> Some s
           | Some names \<Rightarrow> collect_walk p w recursive entries path (Some (real_names names)) s)
      | Some names \<Rightarrow>
          (case names of
             [] \<Rightarrow> Some s
           | n # ns \<Rightarrow>
               (let full_path = child_path path n;
                    is_dir = jayess_path_is_dir_text p w full_path;
                    (v, s1) = jayess_fs_dir_entry_value p w s n full_path is_dir;
                    s2 = push_slot s1 entries (Some v)
                in Option.bind (if recursive \<and> is_dir then collect_walk p w recursive entries full_path None s2 else Some s2)
                     (\<lambda>s3. collect_walk p w recursive entries path (Some ns) s3))))"

definition jayess_std_fs_read_dir ::
  "nat \<Rightarrow> 'w posix \<Rightarrow> jayess_state \<Rightarrow> 'w \<Rightarrow> jayess_value option \<Rightarrow> jayess_value option \<Rightarrow> (jayess_value \<times> jayess_state) option" where
  "jayess_std_fs_read_dir d p s w path options =
     Option.bind (jayess_value_stringify d s path)
       (\<lambda>t. let (a, s1) = jayess_array_new s
            in map_option (Pair (VArray a)) (collect_walk p w (option_bool s1 options ''recursive'') a t None s1))"

definition jayess_std_fs_stat ::
  "nat \<Rightarrow> 'w posix \<Rightarrow> jayess_state \<Rightarrow> 'w \<Rightarrow> jayess_value option \<Rightarrow> (jayess_value \<times> jayess_state) option" where
  "jayess_std_fs_stat d p s w path =
     map_option (\<lambda>t.
         if \<not> jayess_path_exists_text p w t then (VUndefined, s)
         else (let (a, s1) = jayess_object_new s
               in (VObject a, file_facts p w t (jayess_path_is_dir_text p w t) (object_set s1 a ''path'' (VString t)) a)))
       (jayess_value_stringify d s path)"

text \<open>Every directory on the way is made; a path is put together in a buffer of its own, which may be too small.\<close>

fun mkdir_loop :: "'w posix \<Rightarrow> string \<Rightarrow> char \<Rightarrow> string list \<Rightarrow> string list \<Rightarrow> 'w \<Rightarrow> fault + bool \<times> 'w" where
  "mkdir_loop p root sep built [] w = Inr (True, w)"
| "mkdir_loop p root sep built (segment # rest) w =
     (case jayess_path_join_segments_with_root root (built @ [segment]) sep of
        Inl e \<Rightarrow> Inl e
      | Inr path \<Rightarrow>
          (let (ok, w1) = jayess_path_mkdir_single p w path
           in if ok then mkdir_loop p root sep (built @ [segment]) rest w1 else Inr (False, w1)))"

definition mkdir_text :: "'w posix \<Rightarrow> 'w \<Rightarrow> string \<Rightarrow> bool \<Rightarrow> fault + bool \<times> 'w" where
  "mkdir_text p w path recursive =
     (if \<not> recursive then Inr (jayess_path_mkdir_single p w path)
      else mkdir_loop p (take (min 3 (jayess_path_root_length path)) path) (jayess_path_preferred_separator_char path) []
             (jayess_path_split_segments path) w)"

definition jayess_std_fs_mkdir ::
  "nat \<Rightarrow> 'w posix \<Rightarrow> jayess_state \<Rightarrow> 'w \<Rightarrow> jayess_value option \<Rightarrow> jayess_value option
   \<Rightarrow> (fault + jayess_value \<times> 'w) option" where
  "jayess_std_fs_mkdir d p s w path options =
     map_option (\<lambda>t. map_sum id (apfst VBool) (mkdir_text p w t (option_bool s options ''recursive'')))
       (jayess_value_stringify d s path)"

definition jayess_std_fs_rename ::
  "nat \<Rightarrow> 'w posix \<Rightarrow> jayess_state \<Rightarrow> 'w \<Rightarrow> jayess_value option \<Rightarrow> jayess_value option \<Rightarrow> (jayess_value \<times> 'w) option" where
  "jayess_std_fs_rename d p s w from_path to_path =
     (case (jayess_value_stringify d s from_path, jayess_value_stringify d s to_path) of
        (Some from_text, Some to_text) \<Rightarrow> Some (apfst VBool (os_rename p w from_text to_text))
      | _ \<Rightarrow> None)"

definition jayess_std_fs_symlink ::
  "nat \<Rightarrow> 'w posix \<Rightarrow> jayess_state \<Rightarrow> 'w \<Rightarrow> jayess_value option \<Rightarrow> jayess_value option \<Rightarrow> (jayess_value \<times> 'w) option" where
  "jayess_std_fs_symlink d p s w target path =
     (case (jayess_value_stringify d s target, jayess_value_stringify d s path) of
        (Some target_text, Some path_text) \<Rightarrow> Some (apfst VBool (os_symlink p w target_text path_text))
      | _ \<Rightarrow> None)"

end
