(* ===== verification/File_Streams.thy ===== *)
theory File_Streams
  imports Files Byte_Text
begin

text \<open>
  Streams on files and compression streams (\<open>jayess_runtime_network.c\<close>, \<open>jayess_runtime_streams.c\<close>,
  \<open>jayess_runtime.c\<close>). A stream is an object with properties, listeners and a file. What zlib and Brotli make of a text
  is the parameter \<open>codec\<close>, by the mode of the stream. The code behind a listener may change the heap, not the files.
\<close>

record 'w file_state =
  stream_heap :: byte_state
  open_files :: "nat \<Rightarrow> open_file option"
  disk :: 'w

definition js_of :: "'w file_state \<Rightarrow> jayess_state" where
  "js_of f = js (stream_heap f)"

definition set_js :: "'w file_state \<Rightarrow> jayess_state \<Rightarrow> 'w file_state" where
  "set_js f s = f\<lparr>stream_heap := (stream_heap f)\<lparr>js := s\<rparr>\<rparr>"

definition set_property :: "'w file_state \<Rightarrow> nat \<Rightarrow> string \<Rightarrow> jayess_value \<Rightarrow> 'w file_state" where
  "set_property f a key v = set_js f (object_set (js_of f) a key v)"

definition emit_event ::
  "native_code \<Rightarrow> 'w file_state \<Rightarrow> nat \<Rightarrow> string \<Rightarrow> 'w file_state option" where
  "emit_event code f a event =
     map_option (set_js f) (jayess_std_stream_emit code (js_of f) (Some (VObject a)) event (Some VUndefined))"

definition emit_failure :: "native_code \<Rightarrow> 'w file_state \<Rightarrow> nat \<Rightarrow> string \<Rightarrow> 'w file_state option" where
  "emit_failure code f a message =
     map_option (set_js f) (stream_emit_error code (js_of f) (Some (VObject a)) (Some message))"

section \<open>Backpressure\<close>

definition number_property :: "jayess_state \<Rightarrow> nat \<Rightarrow> string \<Rightarrow> double" where
  "number_property s a key = jayess_value_to_number (object_get s a key)"

definition bool_property :: "jayess_state \<Rightarrow> nat \<Rightarrow> string \<Rightarrow> bool" where
  "bool_property s a key = state_bool s (object_get s a key)"

definition stream_high_mark :: "jayess_state \<Rightarrow> nat \<Rightarrow> double" where
  "stream_high_mark s a =
     (let x = number_property s a ''writableHighWaterMark'' in if dbl_less x 0 \<or> dbl_eq x 0 then dbl_of_int 4096 else x)"

definition stream_set_length :: "'w file_state \<Rightarrow> nat \<Rightarrow> double \<Rightarrow> 'w file_state" where
  "stream_set_length f a x = set_property f a ''writableLength'' (jayess_value_from_number (if dbl_less x 0 then 0 else x))"

definition stream_note_pending :: "'w file_state \<Rightarrow> nat \<Rightarrow> double \<Rightarrow> bool \<times> 'w file_state" where
  "stream_note_pending f a pending =
     (let f1 = stream_set_length f a pending
      in if dbl_less (stream_high_mark (js_of f) a) pending then (False, set_property f1 a ''writableNeedDrain'' (VBool True))
         else (True, f1))"

definition stream_maybe_drain :: "native_code \<Rightarrow> 'w file_state \<Rightarrow> nat \<Rightarrow> double \<Rightarrow> 'w file_state option" where
  "stream_maybe_drain code f a pending =
     (let mark = stream_high_mark (js_of f) a; f1 = stream_set_length f a pending
      in if bool_property (js_of f) a ''writableNeedDrain'' \<and> (dbl_less pending mark \<or> dbl_eq pending mark)
         then emit_event code (set_property f1 a ''writableNeedDrain'' (VBool False)) a ''drain'' else Some f1)"

section \<open>Opening\<close>

definition jayess_std_fs_stream_open_error :: "'w file_state \<Rightarrow> string \<Rightarrow> string \<Rightarrow> jayess_value \<times> 'w file_state" where
  "jayess_std_fs_stream_open_error f kind message =
     (let (a, s1) = jayess_object_new (js_of f);
          s2 = object_set (object_set (object_set s1 a ''__jayess_std_kind'' (VString kind))
                 a ''closed'' (VBool True)) a ''errored'' (VBool True);
          (e, s3) = jayess_std_error_new_text s2 ''Error'' message;
          s4 = object_set s3 a ''error'' e;
          s5 = (if kind = ''ReadStream'' then object_set s4 a ''readableEnded'' (VBool True)
                else if kind = ''WriteStream'' then object_set s4 a ''writableEnded'' (VBool True) else s4)
      in (VObject a, set_js f s5))"

definition open_stream ::
  "'w posix \<Rightarrow> open_mode \<Rightarrow> string \<Rightarrow> string \<Rightarrow> (string \<times> jayess_value) list \<Rightarrow> 'w file_state \<Rightarrow> string
   \<Rightarrow> jayess_value \<times> 'w file_state" where
  "open_stream p mode kind message properties f path =
     (let (file, w1) = c_fopen p (disk f) mode path; f1 = f\<lparr>disk := w1\<rparr>
      in case file of
           None \<Rightarrow> jayess_std_fs_stream_open_error f1 kind message
         | Some file \<Rightarrow>
             (let (a, s1) = jayess_object_new (js_of f1);
                  s2 = foldl (\<lambda>s (key, v). object_set s a key v) s1 ((''__jayess_std_kind'', VString kind) # properties)
              in (VObject a, set_js (f1\<lparr>open_files := (open_files f1)(a \<mapsto> file)\<rparr>) s2)))"

definition jayess_std_fs_create_read_stream ::
  "nat \<Rightarrow> 'w posix \<Rightarrow> 'w file_state \<Rightarrow> jayess_value option \<Rightarrow> (jayess_value \<times> 'w file_state) option" where
  "jayess_std_fs_create_read_stream d p f path =
     map_option (open_stream p Open_Read ''ReadStream'' ''failed to open read stream''
         [(''closed'', VBool False), (''readableEnded'', VBool False), (''errored'', VBool False), (''error'', VNull)] f)
       (jayess_value_stringify d (js_of f) path)"

definition jayess_std_fs_create_write_stream ::
  "nat \<Rightarrow> 'w posix \<Rightarrow> 'w file_state \<Rightarrow> jayess_value option \<Rightarrow> (jayess_value \<times> 'w file_state) option" where
  "jayess_std_fs_create_write_stream d p f path =
     map_option (open_stream p Open_Write ''WriteStream'' ''failed to open write stream''
         [(''closed'', VBool False), (''writableEnded'', VBool False), (''writableNeedDrain'', VBool False),
          (''writableLength'', jayess_value_from_number 0), (''writableHighWaterMark'', jayess_value_from_number (dbl_of_int 4096)),
          (''errored'', VBool False), (''error'', VNull)] f)
       (jayess_value_stringify d (js_of f) path)"

section \<open>Reading a file\<close>

definition stream_file :: "'w file_state \<Rightarrow> jayess_value option \<Rightarrow> open_file option" where
  "stream_file f env = (case env of Some (VObject a) \<Rightarrow> open_files f a | _ \<Rightarrow> None)"

definition jayess_std_read_stream_mark_ended :: "'w file_state \<Rightarrow> nat \<Rightarrow> 'w file_state" where
  "jayess_std_read_stream_mark_ended f a = set_property f a ''readableEnded'' (VBool True)"

definition jayess_std_read_stream_emit_end :: "native_code \<Rightarrow> 'w file_state \<Rightarrow> nat \<Rightarrow> 'w file_state option" where
  "jayess_std_read_stream_emit_end code f a = emit_event code (jayess_std_read_stream_mark_ended f a) a ''end''"

text \<open>A stream without a file is closed.\<close>

definition note_no_file :: "'w file_state \<Rightarrow> jayess_value option \<Rightarrow> 'w file_state" where
  "note_no_file f env =
     (case env of
        Some (VObject a) \<Rightarrow> jayess_std_read_stream_mark_ended (set_property f a ''closed'' (VBool True)) a
      | _ \<Rightarrow> f)"

text \<open>What both readers do: the value made of the bytes, NULL behind the end, undefined after an error.\<close>

definition read_stream_with ::
  "native_code \<Rightarrow> 'w posix \<Rightarrow> (byte_state \<Rightarrow> string \<Rightarrow> jayess_value \<times> byte_state) \<Rightarrow> 'w file_state \<Rightarrow> jayess_value option
   \<Rightarrow> jayess_value option \<Rightarrow> (jayess_value \<times> 'w file_state) option" where
  "read_stream_with code p chunk_of f env size_value =
     (case (env, stream_file f env) of
        (Some (VObject a), Some file) \<Rightarrow>
          (let (t, failed, file1) = c_fread p (disk f) file (nat (jayess_std_stream_requested_size size_value 4095));
               f1 = f\<lparr>open_files := (open_files f)(a \<mapsto> file1)\<rparr>
           in if t \<noteq> [] then (let (v, h1) = chunk_of (stream_heap f1) t in Some (v, f1\<lparr>stream_heap := h1\<rparr>))
              else if \<not> failed then map_option (Pair VNull) (jayess_std_read_stream_emit_end code f1 a)
              else map_option (Pair VUndefined) (emit_failure code f1 a ''failed to read from stream''))
      | _ \<Rightarrow> Some (VUndefined, note_no_file f env))"

text \<open>A text ends at the first NUL of the bytes that were read.\<close>

definition text_chunk :: "byte_state \<Rightarrow> string \<Rightarrow> jayess_value \<times> byte_state" where
  "text_chunk h t = (VString (c_text t), h)"

definition byte_chunk :: "byte_state \<Rightarrow> string \<Rightarrow> jayess_value \<times> byte_state" where
  "byte_chunk h t = new_bytes h (map (\<lambda>c. Some (jayess_value_from_number (dbl_of_int (int (char_code c))))) t)"

definition jayess_std_read_stream_read_chunk ::
  "native_code \<Rightarrow> 'w posix \<Rightarrow> 'w file_state \<Rightarrow> jayess_value option \<Rightarrow> jayess_value option
   \<Rightarrow> (jayess_value \<times> 'w file_state) option" where
  "jayess_std_read_stream_read_chunk code p f env size_value = read_stream_with code p text_chunk f env size_value"

definition jayess_std_read_stream_read_bytes_method ::
  "native_code \<Rightarrow> 'w posix \<Rightarrow> 'w file_state \<Rightarrow> jayess_value option \<Rightarrow> jayess_value option
   \<Rightarrow> (jayess_value \<times> 'w file_state) option" where
  "jayess_std_read_stream_read_bytes_method code p f env size_value = read_stream_with code p byte_chunk f env size_value"

definition jayess_std_read_stream_close_method :: "'w file_state \<Rightarrow> jayess_value option \<Rightarrow> jayess_value \<times> 'w file_state" where
  "jayess_std_read_stream_close_method f env =
     (VUndefined,
      (case (env, stream_file f env) of
         (Some (VObject a), Some file) \<Rightarrow>
           jayess_std_read_stream_mark_ended
             (set_property (f\<lparr>open_files := (open_files f)(a := None)\<rparr>) a ''closed'' (VBool True)) a
       | _ \<Rightarrow> f))"

definition is_chunk :: "jayess_value \<Rightarrow> bool" where
  "is_chunk v \<longleftrightarrow> v \<noteq> VNull \<and> v \<noteq> VUndefined"

definition call_listener :: "native_code \<Rightarrow> 'w file_state \<Rightarrow> jayess_value option \<Rightarrow> jayess_value \<Rightarrow> 'w file_state" where
  "call_listener code f callback v = set_js f (snd (jayess_value_call_one code (js_of f) callback (Some v)))"

text \<open>Registering for data reads the whole file at once.\<close>

partial_function (option) data_loop ::
  "native_code \<Rightarrow> ('w file_state \<Rightarrow> (jayess_value \<times> 'w file_state) option) \<Rightarrow> jayess_value option \<Rightarrow> 'w file_state
   \<Rightarrow> 'w file_state option" where
  "data_loop code read callback f =
     Option.bind (read f)
       (\<lambda>r. if \<not> is_chunk (fst r) then Some (snd r)
            else (let f2 = call_listener code (snd r) callback (fst r)
                  in if jayess_has_exception (js_of f2) then Some f2 else data_loop code read callback f2))"

definition read_stream_on ::
  "native_code \<Rightarrow> 'w posix \<Rightarrow> 'w file_state \<Rightarrow> nat \<Rightarrow> string \<Rightarrow> jayess_value option \<Rightarrow> 'w file_state option" where
  "read_stream_on code p f a event callback =
     (let env = Some (VObject a)
      in if event = ''end'' then
           (let f1 = set_js f (jayess_std_stream_on (js_of f) env ''end'' callback)
            in Some (if bool_property (js_of f1) a ''readableEnded'' then call_listener code f1 callback VUndefined else f1))
         else if event = ''error'' then
           Some (set_js f (jayess_std_stream_register_error_handler code (js_of f) env callback))
         else if event = ''data'' then
           data_loop code (\<lambda>f. jayess_std_read_stream_read_chunk code p f env (Some VUndefined)) callback f
         else Some f)"

definition jayess_std_read_stream_on_method ::
  "nat \<Rightarrow> native_code \<Rightarrow> 'w posix \<Rightarrow> 'w file_state \<Rightarrow> jayess_value option \<Rightarrow> jayess_value option \<Rightarrow> jayess_value option
   \<Rightarrow> (jayess_value \<times> 'w file_state) option" where
  "jayess_std_read_stream_on_method d code p f env event callback =
     Option.bind (jayess_value_stringify d (js_of f) event)
       (\<lambda>t. map_option (Pair (stream_answer env callback))
          (case env of
             Some (VObject a) \<Rightarrow> if is_callback callback then read_stream_on code p f a t callback else Some f
           | _ \<Rightarrow> Some f))"

definition read_stream_once ::
  "native_code \<Rightarrow> 'w posix \<Rightarrow> 'w file_state \<Rightarrow> nat \<Rightarrow> string \<Rightarrow> jayess_value option \<Rightarrow> 'w file_state option" where
  "read_stream_once code p f a event callback =
     (let env = Some (VObject a)
      in if event = ''end'' then
           Some (if bool_property (js_of f) a ''readableEnded'' then call_listener code f callback VUndefined
                 else set_js f (jayess_std_stream_once (js_of f) env ''end'' callback))
         else if event = ''error'' then
           Some (set_js f (jayess_std_stream_register_error_once code (js_of f) env callback))
         else if event = ''data'' then
           map_option (\<lambda>(v, f1). if is_chunk v then call_listener code f1 callback v else f1)
             (jayess_std_read_stream_read_chunk code p f env (Some VUndefined))
         else Some f)"

definition jayess_std_read_stream_once_method ::
  "nat \<Rightarrow> native_code \<Rightarrow> 'w posix \<Rightarrow> 'w file_state \<Rightarrow> jayess_value option \<Rightarrow> jayess_value option \<Rightarrow> jayess_value option
   \<Rightarrow> (jayess_value \<times> 'w file_state) option" where
  "jayess_std_read_stream_once_method d code p f env event callback =
     Option.bind (jayess_value_stringify d (js_of f) event)
       (\<lambda>t. map_option (Pair (stream_answer env callback))
          (case env of
             Some (VObject a) \<Rightarrow> if is_callback callback then read_stream_once code p f a t callback else Some f
           | _ \<Rightarrow> Some f))"

section \<open>Writing a file\<close>

text \<open>Behind a write: above the mark the file is flushed, the stream drains and the answer is false.\<close>

definition wrote ::
  "native_code \<Rightarrow> 'w posix \<Rightarrow> 'w file_state \<Rightarrow> nat \<Rightarrow> open_file \<Rightarrow> nat \<Rightarrow> (bool \<times> 'w file_state) option" where
  "wrote code p f a file n =
     (let (ok, f1) = stream_note_pending f a (dbl_of_int (int n))
      in if ok then Some (True, f1)
         else if \<not> os_flush p (disk f1) (file_number file)
         then map_option (Pair False) (emit_failure code f1 a ''failed to flush stream'')
         else map_option (Pair False) (stream_maybe_drain code f1 a 0))"

definition write_failed :: "native_code \<Rightarrow> 'w file_state \<Rightarrow> nat \<Rightarrow> (bool \<times> 'w file_state) option" where
  "write_failed code f a = map_option (Pair False) (emit_failure code f a ''failed to write to stream'')"

definition put_text :: "'w posix \<Rightarrow> 'w file_state \<Rightarrow> nat \<Rightarrow> open_file \<Rightarrow> string \<Rightarrow> nat \<times> open_file \<times> 'w file_state" where
  "put_text p f a file t =
     (let (n, file1, w1) = c_fwrite p (disk f) file t
      in (n, file1, f\<lparr>open_files := (open_files f)(a \<mapsto> file1), disk := w1\<rparr>))"

text \<open>Bytes are written one by one.\<close>

fun put_bytes :: "'w posix \<Rightarrow> 'w file_state \<Rightarrow> nat \<Rightarrow> open_file \<Rightarrow> string \<Rightarrow> bool \<times> 'w file_state" where
  "put_bytes p f a file [] = (True, f)"
| "put_bytes p f a file (c # t) =
     (let (n, file1, f1) = put_text p f a file [c] in if n \<noteq> 1 then (False, f1) else put_bytes p f1 a file1 t)"

definition chars_of_slots :: "jayess_slots \<Rightarrow> string" where
  "chars_of_slots vs = map (\<lambda>v. char_of (nat (byte_of v))) vs"

definition jayess_std_write_stream_write_method ::
  "nat \<Rightarrow> native_code \<Rightarrow> 'w posix \<Rightarrow> 'w file_state \<Rightarrow> jayess_value option \<Rightarrow> jayess_value option
   \<Rightarrow> (bool \<times> 'w file_state) option" where
  "jayess_std_write_stream_write_method d code p f env v =
     (case (env, stream_file f env) of
        (Some (VObject a), Some file) \<Rightarrow>
          if jayess_std_kind_is (js_of f) v ''Uint8Array''
          then (case jayess_std_bytes_slot (stream_heap f) v of
                  None \<Rightarrow> Some (False, f)
                | Some b \<Rightarrow>
                    (let t = chars_of_slots (slots_at (js_of f) b); (ok, f1) = put_bytes p f a file t
                     in if ok then wrote code p f1 a file (length t) else write_failed code f1 a))
          else Option.bind (jayess_value_stringify d (js_of f) v)
                 (\<lambda>t. let (n, file1, f1) = put_text p f a file t
                      in if n = length t then wrote code p f1 a file1 n else write_failed code f1 a)
      | _ \<Rightarrow> Some (False, case env of Some (VObject a) \<Rightarrow> set_property f a ''closed'' (VBool True) | _ \<Rightarrow> f))"

definition emit_finish :: "native_code \<Rightarrow> 'w file_state \<Rightarrow> nat \<Rightarrow> 'w file_state option" where
  "emit_finish code f a = map_option (set_js f) (jayess_std_write_stream_emit_finish code (js_of f) (Some (VObject a)))"

definition jayess_std_write_stream_end_method ::
  "native_code \<Rightarrow> 'w posix \<Rightarrow> 'w file_state \<Rightarrow> jayess_value option \<Rightarrow> 'w file_state option" where
  "jayess_std_write_stream_end_method code p f env =
     (case (env, stream_file f env) of
        (Some (VObject a), Some file) \<Rightarrow>
          Option.bind (if os_flush p (disk f) (file_number file) then Some f else emit_failure code f a ''failed to flush stream'')
            (\<lambda>f1. Option.bind (stream_maybe_drain code f1 a 0)
               (\<lambda>f2. let f3 = set_property (f2\<lparr>open_files := (open_files f2)(a := None)\<rparr>) a ''closed'' (VBool True)
                     in emit_finish code (set_property f3 a ''writableEnded'' (VBool True)) a))
      | _ \<Rightarrow> Some f)"

section \<open>Compression streams\<close>

definition jayess_std_compression_stream_new :: "'w file_state \<Rightarrow> string \<Rightarrow> jayess_value \<times> 'w file_state" where
  "jayess_std_compression_stream_new f mode =
     (let (a, s1) = jayess_object_new (js_of f);
          s2 = object_set (object_set s1 a ''__jayess_std_kind'' (VString ''CompressionStream'')) a ''__jayess_compression_mode'' (VString mode);
          (b, s3) = jayess_array_new s2;
          s4 = foldl (\<lambda>s (key, v). object_set s a key v) s3
                 [(''__jayess_bytes'', VArray b), (''__jayess_compression_offset'', jayess_value_from_number 0),
                  (''readableEnded'', VBool False), (''writableEnded'', VBool False), (''writableNeedDrain'', VBool False),
                  (''writableLength'', jayess_value_from_number 0),
                  (''writableHighWaterMark'', jayess_value_from_number (dbl_of_int 4096)),
                  (''errored'', VBool False), (''error'', VNull)]
      in (VObject a, set_js f s4))"

text \<open>The bytes of a value: those of its store, or its text.\<close>

definition jayess_std_crypto_copy_bytes :: "nat \<Rightarrow> byte_state \<Rightarrow> jayess_value option \<Rightarrow> string option" where
  "jayess_std_crypto_copy_bytes d t v =
     (case jayess_std_bytes_slot t v of
        Some b \<Rightarrow> Some (chars_of_slots (slots_at (js t) b))
      | None \<Rightarrow> jayess_value_stringify d (js t) v)"

type_synonym codec = "string \<Rightarrow> string \<Rightarrow> string option"

definition codec_modes :: "string list" where
  "codec_modes = [''gzip'', ''gunzip'', ''deflate'', ''inflate'', ''brotli'', ''unbrotli'']"

text \<open>A chunk is transformed by itself; the answer is a new array of bytes, or undefined.\<close>

definition transform_chunk :: "codec \<Rightarrow> nat \<Rightarrow> byte_state \<Rightarrow> string \<Rightarrow> jayess_value option \<Rightarrow> (jayess_value \<times> byte_state) option" where
  "transform_chunk codec d t mode v =
     map_option (\<lambda>u. case codec mode u of None \<Rightarrow> (VUndefined, t) | Some z \<Rightarrow> byte_chunk t z)
       (jayess_std_crypto_copy_bytes d t v)"

definition jayess_std_compression_stream_transform ::
  "codec \<Rightarrow> nat \<Rightarrow> byte_state \<Rightarrow> jayess_value option \<Rightarrow> jayess_value option \<Rightarrow> (jayess_value \<times> byte_state) option" where
  "jayess_std_compression_stream_transform codec d t env v =
     (case env of
        Some (VObject a) \<Rightarrow>
          Option.bind (jayess_value_stringify d (js t) (object_get (js t) a ''__jayess_compression_mode''))
            (\<lambda>mode. if mode \<in> set codec_modes then transform_chunk codec d t mode v else Some (VUndefined, t))
      | _ \<Rightarrow> Some (VUndefined, t))"

definition compression_offset :: "'w file_state \<Rightarrow> nat \<Rightarrow> int" where
  "compression_offset f a = c_int (number_property (js_of f) a ''__jayess_compression_offset'')"

definition jayess_std_compression_stream_write_method ::
  "codec \<Rightarrow> nat \<Rightarrow> native_code \<Rightarrow> 'w file_state \<Rightarrow> jayess_value option \<Rightarrow> jayess_value option
   \<Rightarrow> (bool \<times> 'w file_state) option" where
  "jayess_std_compression_stream_write_method codec d code f env v =
     (case env of
        Some (VObject a) \<Rightarrow>
          Option.bind (jayess_std_compression_stream_transform codec d (stream_heap f) env v)
            (\<lambda>(chunk, h1).
               let f1 = f\<lparr>stream_heap := h1\<rparr>
               in if \<not> jayess_std_kind_is (js h1) (Some chunk) ''Uint8Array''
                  then map_option (Pair False) (emit_failure code f1 a ''compression stream transform failed'')
                  else (case (jayess_std_bytes_slot h1 env, jayess_std_bytes_slot h1 (Some chunk)) of
                          (Some b, Some c) \<Rightarrow>
                            (let f2 = set_js f1 (foldl (\<lambda>s v. push_slot s b v) (js h1) (slots_at (js h1) c))
                             in Some (stream_note_pending f2 a
                                  (dbl_of_int (int (length (slots_at (js_of f2) b)) - compression_offset f2 a))))
                        | _ \<Rightarrow> map_option (Pair False) (emit_failure code f1 a ''compression stream buffer is unavailable'')))
      | _ \<Rightarrow> Some (False, f))"

text \<open>Reading answers undefined while there are no bytes, also before the end.\<close>

definition jayess_std_compression_stream_read_bytes_method ::
  "native_code \<Rightarrow> 'w file_state \<Rightarrow> jayess_value option \<Rightarrow> jayess_value option
   \<Rightarrow> (jayess_value \<times> 'w file_state) option" where
  "jayess_std_compression_stream_read_bytes_method code f env size_value =
     (case (env, jayess_std_bytes_slot (stream_heap f) env) of
        (Some (VObject a), Some b) \<Rightarrow>
          (let offset = compression_offset f a;
               count = int (length (slots_at (js_of f) b));
               ended = bool_property (js_of f) a ''writableEnded''
           in if count \<le> offset then Some (VUndefined, if ended then jayess_std_read_stream_mark_ended f a else f)
              else (let n = min (jayess_std_stream_requested_size size_value (count - offset)) (count - offset);
                        taken = map (\<lambda>i. jayess_array_get (slots_at (js_of f) b) (offset + i)) [0..n - 1];
                        (v, h1) = new_bytes (stream_heap f) taken;
                        f1 = set_property (f\<lparr>stream_heap := h1\<rparr>) a ''__jayess_compression_offset''
                               (jayess_value_from_number (dbl_of_int (offset + n)))
                    in Option.bind (stream_maybe_drain code f1 a (dbl_of_int (count - (offset + n))))
                         (\<lambda>f2. map_option (Pair v)
                            (if int (length (slots_at (js_of f2) b)) \<le> offset + n \<and> bool_property (js_of f2) a ''writableEnded''
                             then emit_event code (jayess_std_read_stream_mark_ended f2 a) a ''end'' else Some f2))))
      | (Some (VObject a), None) \<Rightarrow> Some (VUndefined, jayess_std_read_stream_mark_ended f a)
      | _ \<Rightarrow> Some (VUndefined, f))"

definition jayess_std_compression_stream_read_method ::
  "nat \<Rightarrow> native_code \<Rightarrow> 'w file_state \<Rightarrow> jayess_value option \<Rightarrow> jayess_value option
   \<Rightarrow> (jayess_value \<times> 'w file_state) option" where
  "jayess_std_compression_stream_read_method d code f env size_value =
     Option.bind (jayess_std_compression_stream_read_bytes_method code f env size_value)
       (\<lambda>(v, f1). if \<not> is_chunk v then Some (v, f1)
          else map_option (\<lambda>u. (u, f1)) (jayess_std_uint8_to_string_method d (stream_heap f1) (Some v) (Some VUndefined)))"

definition jayess_std_compression_stream_end_method ::
  "native_code \<Rightarrow> 'w file_state \<Rightarrow> jayess_value option \<Rightarrow> 'w file_state option" where
  "jayess_std_compression_stream_end_method code f env =
     (case env of
        Some (VObject a) \<Rightarrow>
          (let slot = jayess_std_bytes_slot (stream_heap f) env; offset = compression_offset f a
           in Option.bind (emit_event code (set_property f a ''writableEnded'' (VBool True)) a ''finish'')
                (\<lambda>f1. if (case slot of None \<Rightarrow> True | Some b \<Rightarrow> int (length (slots_at (js_of f1) b)) \<le> offset)
                      then emit_event code (jayess_std_read_stream_mark_ended f1 a) a ''end'' else Some f1))
      | _ \<Rightarrow> Some f)"

section \<open>Piping\<close>

definition jayess_std_writable_write ::
  "codec \<Rightarrow> nat \<Rightarrow> native_code \<Rightarrow> 'w posix \<Rightarrow> 'w file_state \<Rightarrow> jayess_value option \<Rightarrow> jayess_value option
   \<Rightarrow> (bool \<times> 'w file_state) option" where
  "jayess_std_writable_write codec d code p f destination chunk =
     (if jayess_std_kind_is (js_of f) destination ''WriteStream''
      then jayess_std_write_stream_write_method d code p f destination chunk
      else if jayess_std_kind_is (js_of f) destination ''CompressionStream''
      then jayess_std_compression_stream_write_method codec d code f destination chunk
      else Some (False, f))"

definition jayess_std_writable_end ::
  "native_code \<Rightarrow> 'w posix \<Rightarrow> 'w file_state \<Rightarrow> jayess_value option \<Rightarrow> 'w file_state option" where
  "jayess_std_writable_end code p f destination =
     (if jayess_std_kind_is (js_of f) destination ''WriteStream'' then jayess_std_write_stream_end_method code p f destination
      else if jayess_std_kind_is (js_of f) destination ''CompressionStream''
      then jayess_std_compression_stream_end_method code f destination
      else Some f)"

text \<open>The loop of every pipe; what a write answers is not looked at.\<close>

partial_function (option) pipe_loop ::
  "('w file_state \<Rightarrow> (jayess_value \<times> 'w file_state) option)
   \<Rightarrow> ('w file_state \<Rightarrow> jayess_value \<Rightarrow> (bool \<times> 'w file_state) option) \<Rightarrow> 'w file_state \<Rightarrow> 'w file_state option" where
  "pipe_loop read write_chunk f =
     Option.bind (read f)
       (\<lambda>r. if \<not> is_chunk (fst r) then Some (snd r)
            else Option.bind (write_chunk (snd r) (fst r))
                   (\<lambda>x. if jayess_has_exception (js_of (snd x)) then Some (snd x) else pipe_loop read write_chunk (snd x)))"

definition piped ::
  "codec \<Rightarrow> nat \<Rightarrow> native_code \<Rightarrow> 'w posix \<Rightarrow> ('w file_state \<Rightarrow> (jayess_value \<times> 'w file_state) option) \<Rightarrow> 'w file_state
   \<Rightarrow> jayess_value option \<Rightarrow> (jayess_value \<times> 'w file_state) option" where
  "piped codec d code p read f destination =
     map_option (Pair (value_or_undefined destination))
       (Option.bind (pipe_loop read (\<lambda>f v. jayess_std_writable_write codec d code p f destination (Some v)) f)
          (\<lambda>f1. jayess_std_writable_end code p f1 destination))"

definition jayess_std_read_stream_pipe_method ::
  "codec \<Rightarrow> nat \<Rightarrow> native_code \<Rightarrow> 'w posix \<Rightarrow> 'w file_state \<Rightarrow> jayess_value option \<Rightarrow> jayess_value option
   \<Rightarrow> (jayess_value \<times> 'w file_state) option" where
  "jayess_std_read_stream_pipe_method codec d code p f env destination =
     (if jayess_value_as_object destination = None then Some (value_or_undefined destination, f)
      else piped codec d code p
             (\<lambda>f. if jayess_std_kind_is (js_of f) destination ''CompressionStream''
                  then jayess_std_read_stream_read_bytes_method code p f env (Some VUndefined)
                  else jayess_std_read_stream_read_chunk code p f env (Some VUndefined)) f destination)"

definition jayess_std_compression_stream_pipe_method ::
  "codec \<Rightarrow> nat \<Rightarrow> native_code \<Rightarrow> 'w posix \<Rightarrow> 'w file_state \<Rightarrow> jayess_value option \<Rightarrow> jayess_value option
   \<Rightarrow> (jayess_value \<times> 'w file_state) option" where
  "jayess_std_compression_stream_pipe_method codec d code p f env destination =
     piped codec d code p (\<lambda>f. jayess_std_compression_stream_read_bytes_method code f env (Some VUndefined)) f destination"

section \<open>Listeners of compression streams\<close>

definition compression_on ::
  "nat \<Rightarrow> native_code \<Rightarrow> 'w file_state \<Rightarrow> jayess_value option \<Rightarrow> string \<Rightarrow> jayess_value option \<Rightarrow> 'w file_state option" where
  "compression_on d code f env event callback =
     (if event = ''error'' then Some (set_js f (jayess_std_stream_register_error_handler code (js_of f) env callback))
      else if event \<in> {''end'', ''finish'', ''drain''} then Some (set_js f (jayess_std_stream_on (js_of f) env event callback))
      else if event = ''data''
      then data_loop code (\<lambda>f. jayess_std_compression_stream_read_method d code f env (Some VUndefined)) callback f
      else Some f)"

definition jayess_std_compression_stream_on_method ::
  "nat \<Rightarrow> native_code \<Rightarrow> 'w file_state \<Rightarrow> jayess_value option \<Rightarrow> jayess_value option \<Rightarrow> jayess_value option
   \<Rightarrow> (jayess_value \<times> 'w file_state) option" where
  "jayess_std_compression_stream_on_method d code f env event callback =
     Option.bind (jayess_value_stringify d (js_of f) event)
       (\<lambda>t. map_option (Pair (value_or_undefined env))
          (if is_callback callback then compression_on d code f env t callback else Some f))"

definition compression_once ::
  "nat \<Rightarrow> native_code \<Rightarrow> 'w file_state \<Rightarrow> nat \<Rightarrow> string \<Rightarrow> jayess_value option \<Rightarrow> 'w file_state option" where
  "compression_once d code f a event callback =
     (let env = Some (VObject a);
          later = set_js f (jayess_std_stream_once (js_of f) env event callback);
          at_once = call_listener code f callback VUndefined
      in if event = ''error'' then Some (set_js f (jayess_std_stream_register_error_once code (js_of f) env callback))
         else if event = ''end'' then Some (if bool_property (js_of f) a ''readableEnded'' then at_once else later)
         else if event = ''finish'' then Some (if bool_property (js_of f) a ''writableEnded'' then at_once else later)
         else if event = ''drain'' then Some (if bool_property (js_of f) a ''writableNeedDrain'' then later else at_once)
         else if event = ''data''
         then map_option (\<lambda>(v, f1). if is_chunk v then call_listener code f1 callback v else f1)
                (jayess_std_compression_stream_read_method d code f env (Some VUndefined))
         else Some f)"

text \<open>Without an object the method would read one through NULL.\<close>

definition jayess_std_compression_stream_once_method ::
  "nat \<Rightarrow> native_code \<Rightarrow> 'w file_state \<Rightarrow> jayess_value option \<Rightarrow> jayess_value option \<Rightarrow> jayess_value option
   \<Rightarrow> (fault + jayess_value \<times> 'w file_state) option" where
  "jayess_std_compression_stream_once_method d code f env event callback =
     Option.bind (jayess_value_stringify d (js_of f) event)
       (\<lambda>t. if \<not> is_callback callback then Some (Inr (value_or_undefined env, f))
            else (case env of
                    Some (VObject a) \<Rightarrow> map_option (\<lambda>f1. Inr (VObject a, f1)) (compression_once d code f a t callback)
                  | _ \<Rightarrow> if t \<in> {''end'', ''finish''} then Some (Inl Out_of_bounds)
                          else Some (Inr (value_or_undefined env, if t = ''drain'' then call_listener code f callback VUndefined else f))))"

end
