(* ===== verification/Watchers.thy ===== *)
theory Watchers
  imports File_Streams
begin

text \<open>
  Watching a path (\<open>jayess_runtime.c\<close>, \<open>jayess_runtime_network.c\<close>): a watcher keeps what \<open>stat\<close> said last, and a poll
  compares. The polls on a timer are not modelled.
\<close>

record snapshot =
  snap_exists :: bool
  snap_dir :: bool
  snap_size :: double
  snap_mtime :: double

record 'w watch_state = "'w file_state" +
  watches :: "nat \<Rightarrow> (string \<times> snapshot) option"

definition jayess_fs_watch_snapshot_text :: "'w posix \<Rightarrow> 'w \<Rightarrow> string \<Rightarrow> snapshot" where
  "jayess_fs_watch_snapshot_text p w path =
     (let found = jayess_path_exists_text p w path
      in \<lparr>snap_exists = found, snap_dir = found \<and> jayess_path_is_dir_text p w path,
          snap_size = (if found then jayess_path_file_size_text p w path else 0),
          snap_mtime = (if found then jayess_path_modified_time_ms_text p w path else 0)\<rparr>)"

text \<open>The facts of a snapshot as properties of an object.\<close>

definition jayess_std_fs_watch_apply_snapshot :: "jayess_state \<Rightarrow> nat \<Rightarrow> snapshot \<Rightarrow> jayess_state" where
  "jayess_std_fs_watch_apply_snapshot s a x =
     foldl (\<lambda>s (key, v). object_set s a key v) s
       [(''exists'', VBool (snap_exists x)), (''isDir'', VBool (snap_dir x)), (''isFile'', VBool (snap_exists x \<and> \<not> snap_dir x)),
        (''size'', jayess_value_from_number (snap_size x)), (''mtimeMs'', jayess_value_from_number (snap_mtime x))]"

definition set_watch_js :: "'w watch_state \<Rightarrow> jayess_state \<Rightarrow> 'w watch_state" where
  "set_watch_js f s = f\<lparr>stream_heap := (stream_heap f)\<lparr>js := s\<rparr>\<rparr>"

definition watch_js :: "'w watch_state \<Rightarrow> jayess_state" where
  "watch_js f = js (stream_heap f)"

definition watch_path :: "'w posix \<Rightarrow> 'w watch_state \<Rightarrow> string \<Rightarrow> jayess_value \<times> 'w watch_state" where
  "watch_path p f path =
     (let x = jayess_fs_watch_snapshot_text p (disk f) path;
          (a, s1) = jayess_object_new (watch_js f);
          s2 = foldl (\<lambda>s (key, v). object_set s a key v) s1
                 [(''__jayess_std_kind'', VString ''Watcher''), (''path'', VString path), (''closed'', VBool False),
                  (''errored'', VBool False), (''error'', VNull)]
      in (VObject a,
          set_watch_js (f\<lparr>watches := (watches f)(a \<mapsto> (path, x))\<rparr>) (jayess_std_fs_watch_apply_snapshot s2 a x)))"

definition jayess_std_fs_watch ::
  "nat \<Rightarrow> 'w posix \<Rightarrow> 'w watch_state \<Rightarrow> jayess_value option \<Rightarrow> (jayess_value \<times> 'w watch_state) option" where
  "jayess_std_fs_watch d p f path = map_option (watch_path p f) (jayess_value_stringify d (watch_js f) path)"

definition jayess_std_fs_watch_state :: "'w watch_state \<Rightarrow> jayess_value option \<Rightarrow> (string \<times> snapshot) option" where
  "jayess_std_fs_watch_state f env =
     (case env of
        Some (VObject a) \<Rightarrow> if jayess_std_kind_is (watch_js f) env ''Watcher'' then watches f a else None
      | _ \<Rightarrow> None)"

definition jayess_std_fs_watch_event_value :: "jayess_state \<Rightarrow> string \<Rightarrow> snapshot \<Rightarrow> jayess_value \<times> jayess_state" where
  "jayess_std_fs_watch_event_value s path x =
     (let (a, s1) = jayess_object_new s;
          s2 = object_set (object_set s1 a ''type'' (VString ''change'')) a ''path'' (VString path)
      in (VObject a, jayess_std_fs_watch_apply_snapshot s2 a x))"

definition same_snapshot :: "snapshot \<Rightarrow> snapshot \<Rightarrow> bool" where
  "same_snapshot x y \<longleftrightarrow> snap_exists x = snap_exists y \<and> snap_dir x = snap_dir y
     \<and> dbl_eq (snap_size x) (snap_size y) \<and> dbl_eq (snap_mtime x) (snap_mtime y)"

definition jayess_std_fs_watch_poll_method ::
  "native_code \<Rightarrow> 'w posix \<Rightarrow> 'w watch_state \<Rightarrow> jayess_value option \<Rightarrow> (jayess_value \<times> 'w watch_state) option" where
  "jayess_std_fs_watch_poll_method code p f env =
     (case (env, jayess_std_fs_watch_state f env) of
        (Some (VObject a), Some (path, old)) \<Rightarrow>
          (let x = jayess_fs_watch_snapshot_text p (disk f) path
           in if same_snapshot x old then Some (VNull, f)
              else (let f1 = f\<lparr>watches := (watches f)(a \<mapsto> (path, x))\<rparr>;
                        (event, s1) = jayess_std_fs_watch_event_value (jayess_std_fs_watch_apply_snapshot (watch_js f1) a x) path x
                    in map_option (\<lambda>s2. (event, set_watch_js f1 s2))
                         (jayess_std_stream_emit code s1 env ''change'' (Some event))))
      | _ \<Rightarrow> Some (VNull, f))"

definition jayess_std_fs_watch_emit_close :: "native_code \<Rightarrow> jayess_state \<Rightarrow> nat \<Rightarrow> jayess_state option" where
  "jayess_std_fs_watch_emit_close code s a =
     (if bool_property s a ''__jayess_watcher_close_emitted'' then Some s
      else jayess_std_stream_emit code (object_set s a ''__jayess_watcher_close_emitted'' (VBool True)) (Some (VObject a))
             ''close'' (Some VUndefined))"

definition jayess_std_fs_watch_close_method ::
  "native_code \<Rightarrow> 'w watch_state \<Rightarrow> jayess_value option \<Rightarrow> (jayess_value \<times> 'w watch_state) option" where
  "jayess_std_fs_watch_close_method code f env =
     (case env of
        Some (VObject a) \<Rightarrow>
          (let f1 = (if jayess_std_fs_watch_state f env \<noteq> None then f\<lparr>watches := (watches f)(a := None)\<rparr> else f)
           in map_option (\<lambda>s. (VObject a, set_watch_js f1 s))
                (jayess_std_fs_watch_emit_close code (object_set (watch_js f1) a ''closed'' (VBool True)) a))
      | _ \<Rightarrow> Some (value_or_undefined env, f))"

definition watch_call :: "native_code \<Rightarrow> jayess_state \<Rightarrow> jayess_value option \<Rightarrow> jayess_state" where
  "watch_call code s callback = snd (jayess_value_call_one code s callback (Some VUndefined))"

definition watch_on :: "native_code \<Rightarrow> jayess_state \<Rightarrow> nat \<Rightarrow> string \<Rightarrow> jayess_value option \<Rightarrow> jayess_state" where
  "watch_on code s a event callback =
     (let env = Some (VObject a)
      in if event = ''error'' then jayess_std_stream_register_error_handler code s env callback
         else if event = ''close'' then
           (let s1 = jayess_std_stream_on s env ''close'' callback
            in if bool_property s1 a ''closed'' then watch_call code s1 callback else s1)
         else if event = ''change'' then jayess_std_stream_on s env ''change'' callback else s)"

definition watch_once :: "native_code \<Rightarrow> jayess_state \<Rightarrow> nat \<Rightarrow> string \<Rightarrow> jayess_value option \<Rightarrow> jayess_state" where
  "watch_once code s a event callback =
     (let env = Some (VObject a)
      in if event = ''error'' then jayess_std_stream_register_error_once code s env callback
         else if event = ''close'' then
           (if bool_property s a ''closed'' then watch_call code s callback else jayess_std_stream_once s env ''close'' callback)
         else if event = ''change'' then jayess_std_stream_once s env ''change'' callback else s)"

definition watch_register ::
  "(jayess_state \<Rightarrow> nat \<Rightarrow> string \<Rightarrow> jayess_value option \<Rightarrow> jayess_state) \<Rightarrow> nat \<Rightarrow> jayess_state \<Rightarrow> jayess_value option
   \<Rightarrow> jayess_value option \<Rightarrow> jayess_value option \<Rightarrow> (jayess_value \<times> jayess_state) option" where
  "watch_register register d s env event callback =
     map_option (\<lambda>t. (stream_answer env callback,
         (case env of Some (VObject a) \<Rightarrow> if is_callback callback then register s a t callback else s | _ \<Rightarrow> s)))
       (jayess_value_stringify d s event)"

definition jayess_std_fs_watch_on_method ::
  "nat \<Rightarrow> native_code \<Rightarrow> jayess_state \<Rightarrow> jayess_value option \<Rightarrow> jayess_value option \<Rightarrow> jayess_value option
   \<Rightarrow> (jayess_value \<times> jayess_state) option" where
  "jayess_std_fs_watch_on_method d code = watch_register (watch_on code) d"

definition jayess_std_fs_watch_once_method ::
  "nat \<Rightarrow> native_code \<Rightarrow> jayess_state \<Rightarrow> jayess_value option \<Rightarrow> jayess_value option \<Rightarrow> jayess_value option
   \<Rightarrow> (jayess_value \<times> jayess_state) option" where
  "jayess_std_fs_watch_once_method d code = watch_register (watch_once code) d"

end
