(* ===== verification/File_Correct.thy ===== *)
theory File_Correct
  imports Watchers Listener_Correct Byte_Correct Path_Correct
begin

text \<open>
  What copying and piping leave on the disk, when the operating system stores what it is given, and what the loops over
  directories do with links.
\<close>

section \<open>Copying\<close>

text \<open>
  A system with room: a file gives its bytes from an offset on, a write at the end is appended, opening for writing leaves
  nothing of the file, and other files stay.
\<close>

definition stores_bytes :: "'w posix \<Rightarrow> ('w \<Rightarrow> nat \<Rightarrow> string) \<Rightarrow> bool" where
  "stores_bytes p bytes \<longleftrightarrow>
     (\<forall>w i k n. os_read p w i k n = (take n (drop k (bytes w i)), False)) \<and>
     (\<forall>w i k t. k = None \<or> k = Some (length (bytes w i)) \<longrightarrow>
        fst (os_write p w i k t) = length t \<and> bytes (snd (os_write p w i k t)) = (bytes w)(i := bytes w i @ t)) \<and>
     (\<forall>w path. bytes (snd (os_open p w Open_Read path)) = bytes w) \<and>
     (\<forall>w path i. fst (os_open p w Open_Write path) = Some i \<longrightarrow>
        bytes (snd (os_open p w Open_Write path)) = (bytes w)(i := []))"

lemma stores_bytesD:
  assumes "stores_bytes p bytes"
  shows "os_read p w i k n = (take n (drop k (bytes w i)), False)"
    and "m = None \<or> m = Some (length (bytes w i)) \<Longrightarrow> \<exists>w1. os_write p w i m t = (length t, w1) \<and> bytes w1 = (bytes w)(i := bytes w i @ t)"
    and "os_open p w Open_Read path = (r, w1) \<Longrightarrow> bytes w1 = bytes w"
    and "os_open p w Open_Write path = (Some i, w1) \<Longrightarrow> bytes w1 = (bytes w)(i := [])"
  using assms unfolding stores_bytes_def
  by (auto simp: prod_eq_iff intro: exI [of _ "snd (os_write p w i m t)"] dest: spec [of _ w])

definition file_at :: "nat \<Rightarrow> nat \<Rightarrow> open_file" where
  "file_at i k = \<lparr>file_number = i, file_offset = Some k\<rparr>"

lemma file_at_simps [simp]:
  "file_number (file_at i k) = i" "file_offset (file_at i k) = Some k" "advance (file_at i k) n = file_at i (k + n)"
  by (simp_all add: file_at_def advance_def)

lemma read_at:
  assumes "stores_bytes p bytes"
  shows "c_fread p w (file_at i k) n
    = (take n (drop k (bytes w i)), False, file_at i (k + length (take n (drop k (bytes w i)))))"
  by (simp add: c_fread_def stores_bytesD(1) [OF assms])

lemma write_at:
  assumes "stores_bytes p bytes" and "k = length (bytes w i)"
  obtains w1 where "c_fwrite p w (file_at i k) t = (length t, file_at i (k + length t), w1)"
    and "bytes w1 = (bytes w)(i := bytes w i @ t)"
proof -
  from stores_bytesD(2) [OF assms(1), of "Some k" w i t] assms(2) obtain w1
    where "os_write p w i (Some k) t = (length t, w1)" "bytes w1 = (bytes w)(i := bytes w i @ t)" by auto
  then show ?thesis using that by (simp add: c_fwrite_def)
qed

lemma take_drop_block: "take n xs @ drop (length (take n xs)) xs = xs"
  by (cases "n \<le> length xs") simp_all

lemma copy_blocks_copies:
  assumes "stores_bytes p bytes" and "i \<noteq> j" and "m = length (bytes w j)"
  shows "\<exists>w1. copy_blocks p False (file_at i k) (file_at j m) w = Some (True, w1)
    \<and> bytes w1 = (bytes w)(j := bytes w j @ drop k (bytes w i))"
  using assms(3)
proof (induction "length (bytes w i) - k" arbitrary: w k m rule: less_induct)
  case less
  let ?t = "take 4096 (drop k (bytes w i))"
  note step = read_at [OF assms(1), of w i k 4096]
  show ?case
  proof (cases "?t = []")
    case True
    then have "drop k (bytes w i) = []" by simp
    with True step show ?thesis by (subst copy_blocks.simps) simp
  next
    case False
    obtain w1 where w1: "c_fwrite p w (file_at j m) ?t = (length ?t, file_at j (m + length ?t), w1)"
      "bytes w1 = (bytes w)(j := bytes w j @ ?t)"
      using write_at [OF assms(1) less.prems] by blast
    have same: "bytes w1 i = bytes w i" using assms(2) by (simp add: w1(2))
    have "length (bytes w1 i) - (k + length ?t) < length (bytes w i) - k" using False by (simp add: same)
    from less.hyps [OF this, of "m + length ?t"] less.prems obtain w2 where
      w2: "copy_blocks p False (file_at i (k + length ?t)) (file_at j (m + length ?t)) w1 = Some (True, w2)"
        "bytes w2 = (bytes w1)(j := bytes w1 j @ drop (k + length ?t) (bytes w1 i))"
      by (auto simp: w1(2))
    have "copy_blocks p False (file_at i k) (file_at j m) w = Some (True, w2)"
      using False step w1(1) w2(1) by (subst copy_blocks.simps) simp
    moreover have "?t @ drop (k + length ?t) (bytes w i) = drop k (bytes w i)"
      using take_drop_block [of 4096 "drop k (bytes w i)"] by (simp add: add.commute)
    ultimately show ?thesis using w2(2) assms(2) by (auto simp: w1(2))
  qed
qed

text \<open>
  C39. Copying a file to another, on a disk that does what it is asked: both files can be opened, reading gives the bytes that
  are there (as many as asked for, fewer only at the end) and never fails, every write succeeds in full (there is room for
  everything), opening for writing empties the file, and one file's bytes do not depend on another's. Then the copy ends
  and answers true, the target is the source byte for byte, and no other file changes.
\<close>

theorem copy_file_copies:
  assumes "stores_bytes p bytes" and "os_open p w Open_Read src = (Some i, w1)" and "os_open p w1 Open_Write dst = (Some j, w2)"
    and "i \<noteq> j"
  shows "\<exists>w3. jayess_std_fs_copy_file (Suc d) p s w (Some (VString src)) (Some (VString dst)) = Some (VBool True, w3)
    \<and> bytes w3 = (bytes w)(j := bytes w i)"
proof -
  have opened: "c_fopen p w Open_Read src = (Some (file_at i 0), w1)" "c_fopen p w1 Open_Write dst = (Some (file_at j 0), w2)"
    using assms(2,3) by (simp_all add: c_fopen_def file_at_def)
  have b: "bytes w1 = bytes w" "bytes w2 = (bytes w)(j := [])"
    using stores_bytesD(3,4) [OF assms(1)] assms(2,3) by metis+
  then obtain w3 where "copy_blocks p False (file_at i 0) (file_at j 0) w2 = Some (True, w3)" "bytes w3 = (bytes w)(j := bytes w i)"
    using copy_blocks_copies [OF assms(1,4), of 0 w2 0] assms(4) by auto
  then show ?thesis
    by (simp add: jayess_std_fs_copy_file_def stringify_Suc_simp copy_file_texts_def opened)
qed

text \<open>A disk of files by number, whose names are their numbers in unary, with room for everything.\<close>

definition example_posix :: "(nat \<Rightarrow> string) posix" where
  "example_posix =
     \<lparr>os_stat = (\<lambda>w t. None), os_names = (\<lambda>w t. None), os_mkdir = (\<lambda>w t. (False, w)), os_rmdir = (\<lambda>w t. (False, w)),
      os_remove = (\<lambda>w t. (False, w)), os_rename = (\<lambda>w t u. (False, w)), os_symlink = (\<lambda>w t u. (False, w)),
      os_open = (\<lambda>w mode t. (Some (length t), if mode = Open_Write then w(length t := []) else w)),
      os_end = (\<lambda>w i. int (length (w i))), os_read = (\<lambda>w i k n. (take n (drop k (w i)), False)),
      os_write = (\<lambda>w i k t. (length t, w(i := w i @ t))), os_flush = (\<lambda>w i. True)\<rparr>"

lemma example_stores: "stores_bytes example_posix (\<lambda>w. w)"
  by (simp add: stores_bytes_def example_posix_def)

definition example_disk :: "nat \<Rightarrow> string" where
  "example_disk = (\<lambda>_. [])(1 := ''x'' @ [CHR 0x00] @ ''y'', 2 := ''old'')"

theorem copy_file_copies_witness:
  "\<exists>w3. jayess_std_fs_copy_file 1 example_posix initial_state example_disk (Some (VString ''a'')) (Some (VString ''bb''))
      = Some (VBool True, w3)
    \<and> w3 2 = ''x'' @ [CHR 0x00] @ ''y''"
  using copy_file_copies [OF example_stores, of example_disk "''a''" 1 example_disk "''bb''" 2 _ 0 initial_state]
  by (auto simp: example_posix_def example_disk_def)

text \<open>A file that is copied onto itself is empty afterwards: it is cut off before it is read.\<close>

lemma copy_onto_itself:
  assumes "stores_bytes p bytes" and "os_open p w Open_Read src = (Some i, w1)" and "os_open p w1 Open_Write src = (Some i, w2)"
  shows "jayess_std_fs_copy_file (Suc d) p s w (Some (VString src)) (Some (VString src)) = Some (VBool True, w2) \<and> bytes w2 i = []"
proof -
  have opened: "c_fopen p w Open_Read src = (Some (file_at i 0), w1)" "c_fopen p w1 Open_Write src = (Some (file_at i 0), w2)"
    using assms(2,3) by (simp_all add: c_fopen_def file_at_def)
  have b: "bytes w2 i = []" using stores_bytesD(4) [OF assms(1,3)] by simp
  then have "copy_blocks p False (file_at i 0) (file_at i 0) w2 = Some (True, w2)"
    by (subst copy_blocks.simps) (simp add: read_at [OF assms(1)])
  with b show ?thesis
    by (simp add: jayess_std_fs_copy_file_def stringify_Suc_simp copy_file_texts_def opened)
qed

section \<open>Piping\<close>

text \<open>An object whose stream events nobody listens to.\<close>

definition quiet :: "jayess_state \<Rightarrow> nat \<Rightarrow> bool" where
  "quiet s a \<longleftrightarrow> (\<forall>k. prefix ''__jayess_stream_'' k \<longrightarrow> object_get s a k = None)"

lemma quiet_emit: "quiet s a \<Longrightarrow> jayess_std_stream_emit code s (Some (VObject a)) event v = Some s"
  by (simp add: jayess_std_stream_emit_def jayess_std_stream_listeners_def jayess_std_stream_event_key_def
      jayess_std_stream_once_key_def jayess_std_stream_listeners_for_key_def emit_once_def quiet_def event_prefix_def
      once_prefix_def Let_def)

lemma quiet_set: "quiet s a \<Longrightarrow> \<not> prefix ''__jayess_stream_'' k \<Longrightarrow> quiet (object_set s b k v) a"
  by (auto simp: quiet_def object_get_set)

lemma js_of_simps [simp]:
  "js_of (set_js f s) = s" "open_files (set_js f s) = open_files f" "disk (set_js f s) = disk f"
  "js_of (f\<lparr>open_files := g\<rparr>) = js_of f" "js_of (f\<lparr>disk := w\<rparr>) = js_of f"
  "set_js (set_js f s) s' = set_js f s'"
  by (simp_all add: js_of_def set_js_def)

lemma set_property_simps [simp]:
  "js_of (set_property f a k v) = object_set (js_of f) a k v" "open_files (set_property f a k v) = open_files f"
  "disk (set_property f a k v) = disk f"
  by (simp_all add: set_property_def)

text \<open>A stream \<open>a\<close> that reads file \<open>i\<close> at an offset, and a stream \<open>b\<close> that writes at the end of file \<open>j\<close>.\<close>

definition between :: "('w \<Rightarrow> nat \<Rightarrow> string) \<Rightarrow> 'w file_state \<Rightarrow> nat \<Rightarrow> nat \<Rightarrow> nat \<Rightarrow> nat \<Rightarrow> nat \<Rightarrow> bool" where
  "between bytes f a b i j k \<longleftrightarrow> a \<noteq> b \<and> i \<noteq> j \<and> open_files f a = Some (file_at i k)
     \<and> open_files f b = Some (file_at j (length (bytes (disk f) j)))
     \<and> quiet (js_of f) a \<and> quiet (js_of f) b \<and> current_exception (js_of f) = None
     \<and> object_get (js_of f) b ''__jayess_std_kind'' = Some (VString ''WriteStream'')
     \<and> object_get (js_of f) b ''writableHighWaterMark'' = Some (jayess_value_from_number (dbl_of_int 4096))"

lemma between_kind: "between bytes f a b i j k \<Longrightarrow> jayess_std_kind_is (js_of f) (Some (VObject b)) kind \<longleftrightarrow> kind = ''WriteStream''"
  by (auto simp: between_def jayess_std_kind_is_def object_kind_def)

lemma pipe_read:
  assumes "stores_bytes p bytes" and "between bytes f a b i j k"
  defines "t \<equiv> take 4095 (drop k (bytes (disk f) i))"
  shows "t \<noteq> [] \<Longrightarrow> jayess_std_read_stream_read_chunk code p f (Some (VObject a)) (Some VUndefined)
      = Some (VString (c_text t), f\<lparr>open_files := (open_files f)(a \<mapsto> file_at i (k + length t))\<rparr>)"
    and "t = [] \<Longrightarrow> jayess_std_read_stream_read_chunk code p f (Some (VObject a)) (Some VUndefined)
      = Some (VNull, set_property (f\<lparr>open_files := (open_files f)(a \<mapsto> file_at i k)\<rparr>) a ''readableEnded'' (VBool True))"
proof -
  have opened: "stream_file f (Some (VObject a)) = Some (file_at i k)" using assms(2) by (simp add: stream_file_def between_def)
  have size: "jayess_std_stream_requested_size (Some VUndefined) 4095 = 4095"
    by (simp add: jayess_std_stream_requested_size_def jayess_value_is_nullish_def)
  have q: "quiet (object_set (js_of f) a ''readableEnded'' (VBool True)) a"
    using assms(2) by (intro quiet_set) (simp_all add: between_def)
  show "t \<noteq> [] \<Longrightarrow> jayess_std_read_stream_read_chunk code p f (Some (VObject a)) (Some VUndefined)
      = Some (VString (c_text t), f\<lparr>open_files := (open_files f)(a \<mapsto> file_at i (k + length t))\<rparr>)"
    by (simp add: jayess_std_read_stream_read_chunk_def read_stream_with_def opened size read_at [OF assms(1)] text_chunk_def t_def)
  show "t = [] \<Longrightarrow> jayess_std_read_stream_read_chunk code p f (Some (VObject a)) (Some VUndefined)
      = Some (VNull, set_property (f\<lparr>open_files := (open_files f)(a \<mapsto> file_at i k)\<rparr>) a ''readableEnded'' (VBool True))"
    using q by (simp add: jayess_std_read_stream_read_chunk_def read_stream_with_def opened size read_at [OF assms(1)] t_def
        jayess_std_read_stream_emit_end_def jayess_std_read_stream_mark_ended_def emit_event_def quiet_emit set_property_def)
qed

lemma pipe_write:
  assumes "stores_bytes p bytes" and "between bytes f a b i j k" and "length u \<le> 4096"
  shows "\<exists>f1. jayess_std_writable_write codec (Suc d) code p f (Some (VObject b)) (Some (VString u)) = Some (True, f1)
    \<and> between bytes f1 a b i j k \<and> bytes (disk f1) = (bytes (disk f))(j := bytes (disk f) j @ u)"
proof -
  let ?j = "file_at j (length (bytes (disk f) j))"
  obtain w1 where w1: "c_fwrite p (disk f) ?j u = (length u, file_at j (length (bytes (disk f) j) + length u), w1)"
    "bytes w1 = (bytes (disk f))(j := bytes (disk f) j @ u)"
    using write_at [OF assms(1) refl] by blast
  let ?f = "f\<lparr>open_files := (open_files f)(b \<mapsto> file_at j (length (bytes (disk f) j) + length u)), disk := w1\<rparr>"
  have opened: "stream_file f (Some (VObject b)) = Some ?j" using assms(2) by (simp add: stream_file_def between_def)
  have mark: "stream_high_mark (js_of ?f) b = dbl_of_int 4096"
  proof -
    have "jayess_value_to_number (Some (jayess_value_from_number (dbl_of_int 4096))) = dbl_of_int 4096"
      using dbl_eq_of_int [of 4096 0] by (simp add: value_from_number dbl_of_int_0)
    then show ?thesis
      using assms(2) dbl_less_of_int [of 4096 0] dbl_eq_of_int [of 4096 0]
      by (simp add: stream_high_mark_def number_property_def between_def dbl_of_int_0)
  qed
  obtain x where noted: "stream_note_pending ?f b (dbl_of_int (int (length u))) = (True, set_property ?f b ''writableLength'' x)"
    using assms(3) dbl_less_of_int [of 4096 "int (length u)"] mark
    by (simp add: stream_note_pending_def stream_set_length_def)
  have plain: "\<not> jayess_std_kind_is (js_of f) (Some (VString u)) ''Uint8Array''" by (simp add: jayess_std_kind_is_def object_kind_def)
  have "jayess_std_writable_write codec (Suc d) code p f (Some (VObject b)) (Some (VString u))
      = Some (True, set_property ?f b ''writableLength'' x)"
    using opened w1(1) noted plain
    by (simp add: jayess_std_writable_write_def between_kind [OF assms(2)] jayess_std_write_stream_write_method_def
        stringify_Suc_simp put_text_def wrote_def)
  moreover have "between bytes (set_property ?f b ''writableLength'' x) a b i j k"
    using assms(2) w1(2) by (simp add: between_def object_get_set quiet_set)
  ultimately show ?thesis using w1(2) by (intro exI [of _ "set_property ?f b ''writableLength'' x"]) simp
qed

fun blocks :: "nat \<Rightarrow> string \<Rightarrow> string list" where
  "blocks n t = (if t = [] \<or> n = 0 then [] else take n t # blocks n (drop n t))"

declare blocks.simps [simp del]

lemma blocks_whole: "0 < n \<Longrightarrow> CHR 0x00 \<notin> set t \<Longrightarrow> concat (map c_text (blocks n t)) = t"
proof (induction n t rule: blocks.induct)
  case (1 n t)
  show ?case
  proof (cases "t = []")
    case False
    have "CHR 0x00 \<notin> set (drop n t)" "CHR 0x00 \<notin> set (take n t)" using 1(3) by (auto dest: in_set_dropD in_set_takeD)
    moreover from this have "c_text (take n t) = take n t" unfolding c_text_def takeWhile_eq_all_conv by auto
    ultimately show ?thesis using 1 False by (subst blocks.simps) simp
  qed (simp add: blocks.simps)
qed

lemma pipe_loop_copies:
  assumes "stores_bytes p bytes" and "between bytes f a b i j k"
    and "\<And>f k. between bytes f a b i j k \<Longrightarrow> read f = jayess_std_read_stream_read_chunk code p f (Some (VObject a)) (Some VUndefined)"
    and "write = (\<lambda>f v. jayess_std_writable_write codec (Suc d) code p f (Some (VObject b)) (Some v))"
  shows "\<exists>f1 m. pipe_loop read write f = Some f1 \<and> between bytes f1 a b i j m
    \<and> bytes (disk f1) = (bytes (disk f))(j := bytes (disk f) j @ concat (map c_text (blocks 4095 (drop k (bytes (disk f) i)))))"
  using assms(2)
proof (induction "length (bytes (disk f) i) - k" arbitrary: f k rule: less_induct)
  case less
  let ?t = "take 4095 (drop k (bytes (disk f) i))"
  show ?case
  proof (cases "?t = []")
    case True
    let ?f = "set_property (f\<lparr>open_files := (open_files f)(a \<mapsto> file_at i k)\<rparr>) a ''readableEnded'' (VBool True)"
    have "pipe_loop read write f = Some ?f"
      using pipe_read(2) [OF assms(1) less.prems True] by (subst pipe_loop.simps) (simp add: assms(3) [OF less.prems] is_chunk_def)
    moreover have "between bytes ?f a b i j k" using less.prems by (auto simp: between_def object_get_set quiet_set)
    moreover have "drop k (bytes (disk f) i) = []" using True by simp
    ultimately show ?thesis by (intro exI [of _ ?f] exI [of _ k]) (simp add: blocks.simps)
  next
    case False
    let ?f = "f\<lparr>open_files := (open_files f)(a \<mapsto> file_at i (k + length ?t))\<rparr>"
    have go: "between bytes ?f a b i j (k + length ?t)" using less.prems by (auto simp: between_def)
    have "length (c_text ?t) \<le> 4096"
      using length_takeWhile_le [of "\<lambda>c. c \<noteq> CHR 0x00" ?t] by (simp add: c_text_def)
    from pipe_write [OF assms(1) go this, of codec d code] obtain f1 where f1: "write ?f (VString (c_text ?t)) = Some (True, f1)"
      "between bytes f1 a b i j (k + length ?t)" "bytes (disk f1) = (bytes (disk f))(j := bytes (disk f) j @ c_text ?t)"
      by (auto simp: assms(4))
    have same: "bytes (disk f1) i = bytes (disk f) i" using less.prems by (simp add: f1(3) between_def)
    have "length (bytes (disk f1) i) - (k + length ?t) < length (bytes (disk f) i) - k" using False by (simp add: same)
    from less.hyps [OF this f1(2)] obtain f2 m where f2: "pipe_loop read write f1 = Some f2" "between bytes f2 a b i j m"
      "bytes (disk f2) = (bytes (disk f1))(j := bytes (disk f1) j
        @ concat (map c_text (blocks 4095 (drop (k + length ?t) (bytes (disk f1) i)))))" by blast
    have "pipe_loop read write f = Some f2"
      using pipe_read(1) [OF assms(1) less.prems False] f1(1,2) f2(1)
      by (subst pipe_loop.simps) (simp add: assms(3) [OF less.prems] is_chunk_def jayess_has_exception_def between_def)
    moreover have "blocks 4095 (drop k (bytes (disk f) i)) = ?t # blocks 4095 (drop (k + length ?t) (bytes (disk f) i))"
    proof -
      have "drop 4095 (drop k (bytes (disk f) i)) = drop (k + length ?t) (bytes (disk f) i)"
        by (cases "4095 \<le> length (drop k (bytes (disk f) i))") (simp_all add: add.commute)
      then show ?thesis using False by (subst blocks.simps) simp
    qed
    ultimately show ?thesis
      using f2(2,3) less.prems by (intro exI [of _ f2] exI [of _ m]) (auto simp: f1(3) same between_def)
  qed
qed

lemma pipe_end:
  assumes "between bytes f a b i j k" and "os_flush p (disk f) j"
  shows "\<exists>f1. jayess_std_writable_end code p f (Some (VObject b)) = Some f1 \<and> disk f1 = disk f \<and> open_files f1 b = None
    \<and> open_files f1 a = open_files f a \<and> object_get (js_of f1) b ''writableEnded'' = Some (VBool True)"
proof -
  have b: "a \<noteq> b" "open_files f b = Some (file_at j (length (bytes (disk f) j)))" "quiet (js_of f) b"
    using assms(1) by (simp_all add: between_def)
  obtain f2 where f2: "stream_maybe_drain code f b 0 = Some f2" "disk f2 = disk f" "open_files f2 = open_files f" "quiet (js_of f2) b"
  proof -
    have "\<exists>f2. stream_maybe_drain code f b 0 = Some f2 \<and> disk f2 = disk f \<and> open_files f2 = open_files f \<and> quiet (js_of f2) b"
      using b(3) by (auto simp: stream_maybe_drain_def stream_set_length_def emit_event_def Let_def quiet_set quiet_emit)
    then show ?thesis using that by blast
  qed
  let ?f = "set_property (set_property (f2\<lparr>open_files := (open_files f2)(b := None)\<rparr>) b ''closed'' (VBool True)) b ''writableEnded'' (VBool True)"
  have "quiet (js_of ?f) b" using f2(4) by (simp add: quiet_set)
  then have "emit_finish code ?f b = Some (set_js ?f (js_of ?f))"
    by (simp add: emit_finish_def jayess_std_write_stream_emit_finish_def quiet_emit)
  then have "jayess_std_writable_end code p f (Some (VObject b)) = Some (set_js ?f (js_of ?f))"
    using b(2) assms(2) f2(1)
    by (simp add: jayess_std_writable_end_def between_kind [OF assms(1)] jayess_std_write_stream_end_method_def stream_file_def Let_def)
  then show ?thesis
    using b(1) by (intro exI [of _ "set_js ?f (js_of ?f)"]) (simp add: f2 object_get_set)
qed

lemma pipe_copies:
  assumes "stores_bytes p bytes" and "\<And>w i. os_flush p w i" and "between bytes f a b i j 0"
  shows "\<exists>f1. jayess_std_read_stream_pipe_method codec (Suc d) code p f (Some (VObject a)) (Some (VObject b)) = Some (VObject b, f1)
    \<and> bytes (disk f1) = (bytes (disk f))(j := bytes (disk f) j @ concat (map c_text (blocks 4095 (bytes (disk f) i))))
    \<and> (CHR 0x00 \<notin> set (bytes (disk f) i) \<longrightarrow> bytes (disk f1) j = bytes (disk f) j @ bytes (disk f) i)
    \<and> open_files f1 b = None \<and> object_get (js_of f1) b ''writableEnded'' = Some (VBool True)"
proof -
  let ?get = "\<lambda>f. if jayess_std_kind_is (js_of f) (Some (VObject b)) ''CompressionStream''
    then jayess_std_read_stream_read_bytes_method code p f (Some (VObject a)) (Some VUndefined)
    else jayess_std_read_stream_read_chunk code p f (Some (VObject a)) (Some VUndefined)"
  let ?put = "\<lambda>f v. jayess_std_writable_write codec (Suc d) code p f (Some (VObject b)) (Some v)"
  obtain f1 m where f1: "pipe_loop ?get ?put f = Some f1" "between bytes f1 a b i j m"
    "bytes (disk f1) = (bytes (disk f))(j := bytes (disk f) j @ concat (map c_text (blocks 4095 (bytes (disk f) i))))"
    using pipe_loop_copies [OF assms(1,3) _ refl, of ?get code codec d] by (auto simp: between_kind)
  from pipe_end [OF f1(2) assms(2), of code] obtain f2 where f2: "jayess_std_writable_end code p f1 (Some (VObject b)) = Some f2"
    "disk f2 = disk f1" "open_files f2 b = None" "object_get (js_of f2) b ''writableEnded'' = Some (VBool True)" by blast
  have "jayess_std_read_stream_pipe_method codec (Suc d) code p f (Some (VObject a)) (Some (VObject b)) = Some (VObject b, f2)"
    by (simp add: jayess_std_read_stream_pipe_method_def jayess_value_as_object_def piped_def f1(1) f2(1) value_or_undefined_def)
  moreover have "CHR 0x00 \<notin> set (bytes (disk f) i) \<Longrightarrow> bytes (disk f2) j = bytes (disk f) j @ bytes (disk f) i"
    using blocks_whole [of 4095 "bytes (disk f) i"] by (simp add: f2(2) f1(3))
  ultimately show ?thesis using f2 f1(3) by auto
qed

text \<open>The object of a new stream.\<close>

definition set_all :: "jayess_state \<Rightarrow> nat \<Rightarrow> (string \<times> jayess_value) list \<Rightarrow> jayess_state" where
  "set_all s a kvs = foldl (\<lambda>s (key, v). object_set s a key v) s kvs"

lemma set_all_simps [simp]:
  "set_all s a [] = s" "set_all s a ((k, v) # kvs) = set_all (object_set s a k v) a kvs"
  by (simp_all add: set_all_def)

lemma set_all_frame:
  "current_exception (set_all s a kvs) = current_exception s" "next_address (set_all s a kvs) = next_address s"
  "b \<noteq> a \<Longrightarrow> object_get (set_all s a kvs) b k = object_get s b k"
  by (induction kvs arbitrary: s) (auto simp: object_get_set)

lemma set_all_get:
  "object_get (set_all s a kvs) a k = (case map_of (rev kvs) k of None \<Rightarrow> object_get s a k | Some v \<Rightarrow> Some v)"
  by (induction kvs arbitrary: s) (auto simp: object_get_set map_add_def split: option.split)

lemma new_object_get: "object_get (snd (jayess_object_new s)) b k = (if b = next_address s then None else object_get s b k)"
  by (simp add: object_get_def jayess_object_get_def jayess_object_get_key_value_def)

lemma opened_stream:
  assumes "c_fopen p (disk f) mode path = (Some h, w1)"
  shows "open_stream p mode kind message properties f path
    = (VObject (next_address (js_of f)),
       set_js (f\<lparr>disk := w1, open_files := (open_files f)(next_address (js_of f) \<mapsto> h)\<rparr>)
         (set_all (snd (jayess_object_new (js_of f))) (next_address (js_of f)) ((''__jayess_std_kind'', VString kind) # properties)))"
  using assms by (simp add: open_stream_def set_all_def Let_def split_beta)

text \<open>
  C40. A read stream on a file is piped to a new write stream on another file, with nobody listening and no exception pending, on
  a disk that does what it is asked: both files can be opened, reading gives the bytes that are there and never fails, every
  write and every flush succeeds in full, and opening for writing empties the file. Then the pipe ends, the writing stream
  is closed, no other file changes, and the target is what the code makes of the source: its blocks of 4095 bytes, each only
  up to its first NUL. So a source without NUL is copied whole, while one with a NUL is not, although the documentation
  says that all remaining chunks are copied.
\<close>

theorem stream_copies:
  assumes "stores_bytes p bytes" and "\<And>w i. os_flush p w i" and "current_exception (js_of f) = None"
    and "os_open p (disk f) Open_Read src = (Some i, w1)" and "os_open p w1 Open_Write dst = (Some j, w2)" and "i \<noteq> j"
    and "jayess_std_fs_create_read_stream (Suc d) p f (Some (VString src)) = Some (r, f1)"
    and "jayess_std_fs_create_write_stream (Suc d) p f1 (Some (VString dst)) = Some (v, f2)"
  shows "\<exists>f3. jayess_std_read_stream_pipe_method codec (Suc d) code p f2 (Some r) (Some v) = Some (v, f3)
    \<and> bytes (disk f3) = (bytes (disk f))(j := concat (map c_text (blocks 4095 (bytes (disk f) i))))
    \<and> (CHR 0x00 \<notin> set (bytes (disk f) i) \<longrightarrow> bytes (disk f3) = (bytes (disk f))(j := bytes (disk f) i))
    \<and> jayess_value_as_object (Some v) \<noteq> None \<and> open_files f3 (the (jayess_value_as_object (Some v))) = None"
proof -
  let ?a = "next_address (js_of f)" and ?b = "Suc (next_address (js_of f))"
  have opened: "c_fopen p (disk f) Open_Read src = (Some (file_at i 0), w1)" "c_fopen p w1 Open_Write dst = (Some (file_at j 0), w2)"
    using assms(4,5) by (simp_all add: c_fopen_def file_at_def)
  have bytes: "bytes w1 = bytes (disk f)" "bytes w2 = (bytes (disk f))(j := [])"
    using stores_bytesD(3,4) [OF assms(1)] assms(4,5) by metis+
  have r: "r = VObject ?a" "disk f1 = w1" "open_files f1 = (open_files f)(?a \<mapsto> file_at i 0)"
    "js_of f1 = set_all (snd (jayess_object_new (js_of f))) ?a
      [(''__jayess_std_kind'', VString ''ReadStream''), (''closed'', VBool False), (''readableEnded'', VBool False),
       (''errored'', VBool False), (''error'', VNull)]"
    using assms(7) by (auto simp: jayess_std_fs_create_read_stream_def stringify_Suc_simp opened_stream [OF opened(1)]
        simp del: set_all_simps)
  then have "c_fopen p (disk f1) Open_Write dst = (Some (file_at j 0), w2)" using opened(2) by simp
  note written = opened_stream [OF this]
  have na: "next_address (js_of f1) = ?b" by (simp add: r(4) set_all_frame del: set_all_simps)
  have v: "v = VObject ?b" "disk f2 = w2" "open_files f2 = (open_files f1)(?b \<mapsto> file_at j 0)"
    "js_of f2 = set_all (snd (jayess_object_new (js_of f1))) ?b
      [(''__jayess_std_kind'', VString ''WriteStream''), (''closed'', VBool False), (''writableEnded'', VBool False),
       (''writableNeedDrain'', VBool False), (''writableLength'', jayess_value_from_number 0),
       (''writableHighWaterMark'', jayess_value_from_number (dbl_of_int 4096)), (''errored'', VBool False), (''error'', VNull)]"
    using assms(8) by (auto simp: jayess_std_fs_create_write_stream_def stringify_Suc_simp written na simp del: set_all_simps)
  have get: "object_get (js_of f2) ?b k = (if k = ''__jayess_std_kind'' then Some (VString ''WriteStream'')
      else if k = ''writableHighWaterMark'' then Some (jayess_value_from_number (dbl_of_int 4096))
      else if k \<in> {''closed'', ''writableEnded'', ''writableNeedDrain'', ''errored''} then Some (VBool False)
      else if k = ''writableLength'' then Some (jayess_value_from_number 0) else if k = ''error'' then Some VNull else None)" for k
    by (simp add: v(4) set_all_get new_object_get na del: set_all_simps)
  have "object_get (js_of f1) ?a k = (if k = ''__jayess_std_kind'' then Some (VString ''ReadStream'')
      else if k \<in> {''closed'', ''readableEnded'', ''errored''} then Some (VBool False)
      else if k = ''error'' then Some VNull else None)" for k
    by (simp add: r(4) set_all_get new_object_get del: set_all_simps)
  then have "quiet (js_of f2) ?a"
    by (auto simp: quiet_def v(4) set_all_frame(3) new_object_get na simp del: set_all_simps)
  moreover have "quiet (js_of f2) ?b" by (auto simp: quiet_def get)
  moreover have "current_exception (js_of f2) = None"
    using assms(3) by (simp add: v(4) r(4) set_all_frame del: set_all_simps)
  ultimately have between: "between bytes f2 ?a ?b i j 0"
    using assms(6) by (simp add: between_def get r(3) v(2,3) bytes)
  obtain f3 where "jayess_std_read_stream_pipe_method codec (Suc d) code p f2 (Some (VObject ?a)) (Some (VObject ?b)) = Some (VObject ?b, f3)"
    "bytes (disk f3) = (bytes (disk f2))(j := bytes (disk f2) j @ concat (map c_text (blocks 4095 (bytes (disk f2) i))))"
    "open_files f3 ?b = None"
    using pipe_copies [OF assms(1,2) between] by blast
  then show ?thesis
    using assms(6) blocks_whole [of 4095 "bytes (disk f) i"]
    by (intro exI [of _ f3]) (simp add: r(1) v(1,2) bytes jayess_value_as_object_def)
qed

definition example_files :: "(nat \<Rightarrow> string) file_state" where
  "example_files = \<lparr>stream_heap = \<lparr>js = initial_state, native = (\<lambda>_. None)\<rparr>, open_files = (\<lambda>_. None), disk = example_disk\<rparr>"

theorem stream_copies_witness:
  "\<exists>r v f1 f2 f3. jayess_std_fs_create_read_stream 1 example_posix example_files (Some (VString ''a'')) = Some (r, f1)
    \<and> jayess_std_fs_create_write_stream 1 example_posix f1 (Some (VString ''bb'')) = Some (v, f2)
    \<and> jayess_std_read_stream_pipe_method (\<lambda>_ _. None) 1 (\<lambda>_ _ s. (None, s)) example_posix f2 (Some r) (Some v) = Some (v, f3)
    \<and> disk f3 2 = ''x''"
proof -
  obtain r f1 where r: "jayess_std_fs_create_read_stream (Suc 0) example_posix example_files (Some (VString ''a'')) = Some (r, f1)"
    by (fastforce simp: jayess_std_fs_create_read_stream_def stringify_Suc_simp)
  obtain v f2 where v: "jayess_std_fs_create_write_stream (Suc 0) example_posix f1 (Some (VString ''bb'')) = Some (v, f2)"
    by (fastforce simp: jayess_std_fs_create_write_stream_def stringify_Suc_simp)
  have "current_exception (js_of example_files) = None" by (simp add: example_files_def js_of_def initial_state_def)
  moreover have "os_open example_posix (disk example_files) Open_Read ''a'' = (Some 1, example_disk)"
    "os_open example_posix example_disk Open_Write ''bb'' = (Some 2, example_disk(2 := []))"
    by (simp_all add: example_posix_def example_files_def numeral_2_eq_2)
  moreover have "os_flush example_posix w i" for w i by (simp add: example_posix_def)
  moreover have "concat (map c_text (blocks 4095 (''x'' @ [CHR 0x00] @ ''y''))) = ''x''"
    by (simp add: blocks.simps c_text_def)
  ultimately show ?thesis
    using stream_copies [OF example_stores _ _ _ _ _ r v, of 1 example_disk 2 "example_disk(2 := [])" "\<lambda>_ _. None" "\<lambda>_ _ s. (None, s)"] r v
    unfolding One_nat_def by (force simp: example_files_def example_disk_def)
qed

section \<open>Links and parents\<close>

text \<open>
  Removing a directory whose only entry is a link to a directory elsewhere removes the files behind the link, since \<open>stat\<close>
  says that the link is a directory.
\<close>

lemma remove_follows_link:
  assumes "d \<noteq> []" and "jayess_path_is_dir_text p w d" and "os_names p w d = Some [l]"
    and "l \<notin> {''.'', ''..''}" and "n \<notin> {''.'', ''..''}"
    and "jayess_path_is_dir_text p w (child_path d l)" and "os_names p w (child_path d l) = Some [n]"
    and "\<not> jayess_path_is_dir_text p w (child_path (child_path d l) n)"
    and "os_remove p w (child_path (child_path d l) n) = (True, w1)" and "os_rmdir p w1 (child_path d l) = (ok, w2)"
  shows "jayess_fs_remove_path_recursive p w d = Some (if ok then os_rmdir p w2 d else (False, w2))"
proof -
  have ne: "child_path d l \<noteq> []" "child_path (child_path d l) n \<noteq> []" using assms(1) by (simp_all add: child_path_def)
  have "remove_walk p (child_path (child_path d l) n) None w = Some (True, w1)"
    using assms(8,9) ne by (subst remove_walk.simps) simp
  then have "remove_walk p (child_path d l) None w = Some (ok, w2)"
    using assms(5,6,7,10) ne by (simp add: remove_walk.simps [of _ "child_path d l"] real_names_def)
  then show ?thesis
    using assms(1-4) by (simp add: jayess_fs_remove_path_recursive_def remove_walk.simps [of _ d] real_names_def)
qed

text \<open>Making a directory beside the working directory with its parents makes one inside it.\<close>

lemma mkdir_loses_parent: "mkdir_text p w ''../x'' True = Inr (apfst (\<lambda>ok. ok) (jayess_path_mkdir_single p w ''x''))"
proof -
  have path: "jayess_path_split_segments ''../x'' = [''x'']" "jayess_path_root_length ''../x'' = 0"
    "jayess_path_join_segments_with_root [] [''x''] (jayess_path_preferred_separator_char ''../x'') = Inr ''x''"
    by code_simp+
  obtain ok w1 where made: "jayess_path_mkdir_single p w ''x'' = (ok, w1)" by fastforce
  show ?thesis unfolding mkdir_text_def path by (simp add: path made)
qed

end
