(* ===== verification/Scheduler_History.thy ===== *)
theory Scheduler_History
  imports Scheduler_Steps
begin

text \<open>
  What becomes of every task that was ever created. A history is the list of the configurations a run of the scheduler
  has gone through; a task leaves the scheduler only by being released while it is run, or as a timer that is cleared.
\<close>

section \<open>Tasks that are alive\<close>

definition alive :: "sched \<Rightarrow> nat \<Rightarrow> bool" where
  "alive s t \<longleftrightarrow> (\<exists>k. task_at s t = Some k \<and> \<not> tk_finished k)"

text \<open>The tasks that are alive stay so, and new ones are.\<close>

definition keeps_tasks :: "sched \<Rightarrow> sched \<Rightarrow> bool" where
  "keeps_tasks s s' \<longleftrightarrow> (\<forall>t. alive s t \<longrightarrow> alive s' t) \<and> (\<forall>t. next_task s \<le> t \<longrightarrow> t < next_task s' \<longrightarrow> alive s' t)"


lemma keeps_tasks_same:
  "task_at s' = task_at s \<Longrightarrow> next_task s' = next_task s \<Longrightarrow> keeps_tasks s s'"
  by (simp add: keeps_tasks_def alive_def)

lemma keeps_tasks_refl [simp]: "keeps_tasks s s"
  by (simp add: keeps_tasks_same)













section \<open>How a task leaves\<close>





section \<open>Histories\<close>










end
