(* ===== verification/Atomic_Correct.thy ===== *)
theory Atomic_Correct
  imports Byte_Correct
begin

unbundle bit_operations_syntax

text \<open>
  The functions of \<open>Atomics\<close>: what each of them answers and what the element holds afterwards, as integers.
\<close>

section \<open>Atomics as element accesses\<close>

lemma atomic_element:
  assumes "jayess_atomics_state t target i = Inr (b, kind)"
  shows "dbl_of_int (atomic_read (slots_at (js t) b) kind (i * int (jayess_std_typed_array_element_size kind)))
      = jayess_std_typed_array_get_number t target i"
    and "atomic_write t b kind (i * int (jayess_std_typed_array_element_size kind)) x
      = jayess_std_typed_array_set_number t target i x"
proof -
  have kind: "jayess_std_typed_array_kind (js t) target = Some kind" "jayess_atomics_is_supported_kind kind"
    and range: "0 \<le> i" "i < int (jayess_value_array_length t target)"
    and state: "jayess_std_bytes_state t target = Some (b, True)"
    using assms by (auto simp: jayess_atomics_state_def split: option.splits if_splits bool.splits)
  have slot: "jayess_std_bytes_slot t target = Some b" using state by (simp add: jayess_std_bytes_slot_def)
  have slot_kept: "jayess_std_bytes_slot (jayess_std_bytes_write t b j v) target = Some b"
    if "jayess_std_bytes_slot t target = Some b" for t :: byte_state and j v
    using that by (simp add: bytes_slot_cong(1) [of "jayess_std_bytes_write t b j v" t])
  have wr: "jayess_std_byte_write t target j v = jayess_std_bytes_write t b j v"
    if "jayess_std_bytes_slot t target = Some b" for t :: byte_state and j v
    using that by (simp add: jayess_std_byte_write_def)
  have rd: "jayess_std_byte_read t target = jayess_std_bytes_read (slots_at (js t) b)"
    by (rule ext) (simp add: jayess_std_byte_read_def slot)
  have w32: "write_u32 (\<lambda>t. jayess_std_byte_write t target) t off n le = write_u32 (\<lambda>t. jayess_std_bytes_write t b) t off n le"
    for off n le by (simp add: write_u32_def Let_def wr slot slot_kept)
  show "dbl_of_int (atomic_read (slots_at (js t) b) kind (i * int (jayess_std_typed_array_element_size kind)))
      = jayess_std_typed_array_get_number t target i"
    using kind(2) range
    by (auto simp: jayess_atomics_is_supported_kind_def jayess_std_typed_array_get_number_def kind(1) Let_def atomic_read_def
        jayess_std_data_view_read_u32_def jayess_std_data_view_read_u32_target_def rd)
  show "atomic_write t b kind (i * int (jayess_std_typed_array_element_size kind)) x
      = jayess_std_typed_array_set_number t target i x"
    using kind(2) range
    by (auto simp: jayess_atomics_is_supported_kind_def jayess_std_typed_array_set_number_def kind(1) Let_def atomic_write_def
        jayess_std_data_view_write_u32_def jayess_std_data_view_write_u32_target_def w32 wr slot slot_kept)
qed

lemma byte_read_range: "0 \<le> jayess_std_byte_read t target j" "jayess_std_byte_read t target j < 2 ^ 8"
proof -
  have "0 \<le> i AND 255 \<and> i AND 255 < 2 ^ 8" for i :: int
    by (simp add: and_255 take_bit_eq_mod)
  then show "0 \<le> jayess_std_byte_read t target j" "jayess_std_byte_read t target j < 2 ^ 8"
    by (auto simp: jayess_std_byte_read_def jayess_std_bytes_read_def byte_of_def split: option.split)
qed

lemma two_byte_range:
  assumes "0 \<le> x" "x < 2 ^ 8" "0 \<le> y" "y < (2::int) ^ 8"
  shows "0 \<le> x OR push_bit 8 y" "x OR push_bit 8 y < 2 ^ 16"
proof -
  show "0 \<le> x OR push_bit 8 y" using assms by (simp add: push_bit_eq_mult)
  show "x OR push_bit 8 y < 2 ^ 16" by (rule OR_upper) (use assms in \<open>simp_all add: push_bit_eq_mult\<close>)
qed

lemma integer_element:
  assumes kind: "jayess_std_typed_array_kind (js t) target = Some kind" and "jayess_atomics_is_supported_kind kind"
    and range: "0 \<le> i" "i < int (jayess_value_array_length t target)"
  shows "\<exists>k. - (2 ^ 31) \<le> k \<and> k < 2 ^ 32 \<and> jayess_std_typed_array_get_number t target i = dbl_of_int k"
proof -
  let ?b = "jayess_std_byte_read t target" and ?o = "i * int (jayess_std_typed_array_element_size kind)"
  let ?u16 = "?b ?o OR push_bit 8 (?b (?o + 1))" and ?u32 = "uint (jayess_std_data_view_read_u32_target t target ?o True)"
  define v where "v = (if kind = ''Uint8Array'' then ?b ?o else if kind = ''Int8Array'' then sign_extend 8 (?b ?o)
     else if kind = ''Uint16Array'' then ?u16 else if kind = ''Int16Array'' then sign_extend 16 ?u16
     else if kind = ''Uint32Array'' then ?u32 else sign_extend 32 ?u32)"
  define R :: "int \<Rightarrow> bool" where "R k \<longleftrightarrow> - (2 ^ 31) \<le> k \<and> k < 2 ^ 32" for k
  have branch: "R (if c then x else y)" if "R x" "R y" for c x y using that by simp
  have parts: "R k \<and> R (sign_extend n k)" if "0 \<le> k" "k < 2 ^ n" "n = 8 \<or> n = 16 \<or> n = 32" for n k
    using that by (auto simp: R_def sign_extend_def)
  note bytes = two_byte_range [OF byte_read_range byte_read_range, of t target ?o t target "?o + 1"]
  have "R v"
    unfolding v_def
    using parts [OF byte_read_range, of t target ?o] parts [of ?u16 16, OF bytes] parts [of ?u32 32] uint_lt2p [of "jayess_std_data_view_read_u32_target t target ?o True"]
    by (intro branch) simp_all
  moreover have "jayess_std_typed_array_get_number t target i = dbl_of_int v"
    using assms(2) range
    by (auto simp: jayess_std_typed_array_get_number_def kind Let_def v_def jayess_atomics_is_supported_kind_def)
  ultimately show ?thesis unfolding R_def by blast
qed

lemma unat_bound: "unat (x :: u64) < 2 ^ 64"
  using unsigned_less [of x] by simp

lemma unat_dbl_minus: "unat (dbl_minus x) = (if dbl_neg x then unat x - 2 ^ 63 else unat x + 2 ^ 63)"
proof -
  have "bit x 63 \<longleftrightarrow> odd (unat x div 2 ^ 63)" 
    using bit_unsigned_iff [where 'a = nat, of x 63] by (simp add: bit_iff_odd [of "unat x" 63])
  moreover have "unat x div 2 ^ 63 < 2" using unat_bound [of x] by (simp add: less_mult_imp_div_less)
  moreover from this have "odd (unat x div 2 ^ 63) \<longleftrightarrow> unat x div 2 ^ 63 \<noteq> 0" by (cases "unat x div 2 ^ 63") auto
  ultimately have neg: "bit x 63 \<longleftrightarrow> dbl_neg x" by (simp add: dbl_neg_def div_eq_0_iff not_less)
  have flipped: "dbl_minus x = (if dbl_neg x then x - 2 ^ 63 else x + 2 ^ 63)"
    using flip_bit_eq_xor [of 63 x] flip_bit_eq_if [of 63 x] set_bit_eq [of 63 x] unset_bit_eq [of 63 x] neg
    by (cases "dbl_neg x") (simp_all add: dbl_minus_def)
  show ?thesis
  proof (cases "dbl_neg x")
    case True
    then have "2 ^ 63 \<le> x" by (simp add: dbl_neg_def word_le_nat_alt)
    with True show ?thesis by (simp add: flipped unat_sub)
  next
    case False
    with unat_word_ariths(1) [of x "2 ^ 63"] show ?thesis by (simp add: flipped dbl_neg_def)
  qed
qed

lemma scaled_minus: "dbl_scaled (dbl_minus x) = - dbl_scaled x" "dbl_neg (dbl_minus x) \<longleftrightarrow> \<not> dbl_neg x"
proof -
  show neg: "dbl_neg (dbl_minus x) \<longleftrightarrow> \<not> dbl_neg x"
    using unat_bound [of x] by (auto simp: dbl_neg_def unat_dbl_minus)
  obtain d where d: "unat x = (if dbl_neg x then d + 2 ^ 63 else d)" "unat (dbl_minus x) = (if dbl_neg x then d else d + 2 ^ 63)"
    by (rule that [of "if dbl_neg x then unat x - 2 ^ 63 else unat x"]) (simp_all add: unat_dbl_minus dbl_neg_def)
  have "(d + 2 ^ 63) div 2 ^ 52 = d div 2 ^ 52 + 2 ^ 11" "(d + 2 ^ 63) mod 2 ^ 52 = d mod 2 ^ 52"
    using div_mult_self1 [of "2 ^ 52" d "2 ^ 11"] mod_mult_self1 [of d "2 ^ 11" "2 ^ 52"] by simp_all
  then have "dbl_exp (dbl_minus x) = dbl_exp x" "dbl_frac (dbl_minus x) = dbl_frac x"
    by (auto simp: dbl_exp_def dbl_frac_def d)
  then show "dbl_scaled (dbl_minus x) = - dbl_scaled x" by (simp add: dbl_scaled_def dbl_mag_def neg)
qed

lemma dbl_minus_of_int:
  assumes "\<bar>i\<bar> < 2 ^ 53" and "\<bar>j\<bar> < 2 ^ 53" and "\<bar>i - j\<bar> < 2 ^ 53"
  shows "dbl_add (dbl_of_int i) (dbl_minus (dbl_of_int j)) = dbl_of_int (i - j)"
proof -
  have sum: "dbl_scaled (dbl_of_int i) + dbl_scaled (dbl_minus (dbl_of_int j)) = (i - j) * int UNIT"
    by (simp only: scaled_minus dbl_scaled_of_int [OF assms(1)] dbl_scaled_of_int [OF assms(2)]) (simp only: left_diff_distrib)
  have neg: "(i - j) * int UNIT < 0 \<longleftrightarrow> i - j < 0" and zero: "(i - j) * int UNIT = 0 \<longleftrightarrow> i - j = 0"
    by (simp_all add: mult_less_0_iff)
  have abs: "nat \<bar>(i - j) * int UNIT\<bar> = nat \<bar>i - j\<bar> * UNIT"
    by (simp add: abs_mult nat_mult_distrib)
  have "(if i - j = 0 then dbl_neg (dbl_of_int i) \<and> dbl_neg (dbl_minus (dbl_of_int j)) else i - j < 0) = (i - j < 0)"
    using assms by (simp add: dbl_of_int_exact(3) scaled_minus)
  then show ?thesis
    unfolding dbl_add_def Let_def sum neg zero abs by (simp add: dbl_of_int_def dbl_of_ratio_def)
qed

section \<open>Results\<close>

text \<open>
  The integers that the cast of the store is defined for, and the integer an element holds after such an integer is
  stored.
\<close>

definition storable :: "string \<Rightarrow> int \<Rightarrow> bool" where
  "storable kind r \<longleftrightarrow> (if kind = ''Uint32Array'' then 0 \<le> r \<and> r < 2 ^ 32 else - (2 ^ 31) \<le> r \<and> r < 2 ^ 31)"

definition element_integer :: "string \<Rightarrow> int \<Rightarrow> int" where
  "element_integer kind r =
     (if kind = ''Uint8Array'' then r mod 2 ^ 8 else if kind = ''Int8Array'' then signed_part 8 r
      else if kind = ''Uint16Array'' then r mod 2 ^ 16 else if kind = ''Int16Array'' then signed_part 16 r else r)"

text \<open>The element at \<open>i\<close> becomes \<open>r\<close>, and nothing else changes.\<close>

definition element_becomes :: "byte_state \<Rightarrow> jayess_value option \<Rightarrow> nat \<Rightarrow> string \<Rightarrow> int \<Rightarrow> int \<Rightarrow> byte_state \<Rightarrow> bool" where
  "element_becomes t target b kind i r t' \<longleftrightarrow>
     jayess_std_typed_array_get_number t' target i = dbl_of_int (element_integer kind r)
     \<and> (\<forall>j. j \<noteq> i \<longrightarrow> jayess_std_typed_array_get_number t' target j = jayess_std_typed_array_get_number t target j)
     \<and> writes_only b t t'"

lemma atomics_state_facts:
  assumes "jayess_atomics_state t target i = Inr (b, kind)"
  shows "jayess_std_typed_array_kind (js t) target = Some kind" "jayess_atomics_is_supported_kind kind"
    "jayess_std_bytes_slot t target = Some b" "0 \<le> i" "i < int (jayess_value_array_length t target)"
proof -
  show "jayess_std_typed_array_kind (js t) target = Some kind" "jayess_atomics_is_supported_kind kind"
    "0 \<le> i" "i < int (jayess_value_array_length t target)"
    using assms by (auto simp: jayess_atomics_state_def split: option.splits if_splits bool.splits)
  have "jayess_std_bytes_state t target = Some (b, True)"
    using assms by (auto simp: jayess_atomics_state_def split: option.splits if_splits bool.splits)
  then show "jayess_std_bytes_slot t target = Some b" by (simp add: jayess_std_bytes_slot_def)
qed

lemma store_element:
  assumes "jayess_atomics_state t target i = Inr (b, kind)" and "storable kind r"
  shows "element_becomes t target b kind i r (jayess_std_typed_array_set_number t target i (dbl_of_int r))"
proof -
  note facts = atomics_state_facts [OF assms(1)]
  have fits: "number_fits kind (dbl_of_int r)"
    using assms(2) by (auto simp: storable_def number_fits_def int_fits_of_int uint_fits_of_int split: if_splits)
  have r: "dbl_trunc (dbl_of_int r) = r" using assms(2) by (auto simp: storable_def dbl_trunc_of_int split: if_splits)
  have "signed_part 32 r = r" if "kind = ''Int32Array''" using that assms(2) signed_part_id [of 32 r] by (simp add: storable_def)
  then have "stored_number kind (dbl_of_int r) = dbl_of_int (element_integer kind r)"
    using facts(2) assms(2)
    unfolding jayess_atomics_is_supported_kind_def
    by (elim insertE emptyE) (simp_all add: stored_number_def element_integer_def r storable_def)
  with get_stored [OF facts(1,3,4,5) fits] show ?thesis
    by (simp add: element_becomes_def other_elements [OF facts(1,3)] set_number_only [OF facts(3)])
qed

lemma apply_element:
  assumes "jayess_atomics_state t target (int_arg index) = Inr (b, kind)"
    and "atomic_next op (jayess_std_typed_array_get_number t target (int_arg index)) (jayess_value_to_number v)
      (jayess_value_to_number e) = dbl_of_int r"
    and "op \<noteq> At_Load" and "op = At_Compare \<Longrightarrow>
      dbl_eq (jayess_std_typed_array_get_number t target (int_arg index)) (jayess_value_to_number e)"
  shows "fst (jayess_atomics_apply t target index v op e) = jayess_std_typed_array_get_number t target (int_arg index)"
    and "storable kind r
      \<Longrightarrow> element_becomes t target b kind (int_arg index) r (snd (jayess_atomics_apply t target index v op e))"
  using assms store_element [OF assms(1), of r] by (auto simp: jayess_atomics_apply_def Let_def atomic_element [OF assms(1)])

section \<open>Property\<close>

text \<open>
  C23. Atomics. When \<open>Atomics\<close> accepts its operands (an integer typed array on shared memory and an index inside it) the
  element holds an integer \<open>k\<close>. \<open>load\<close> answers \<open>k\<close> and changes nothing. With an integer operand \<open>m\<close> below \<open>2 ^ 53\<close> in size
  \<open>store\<close> answers \<open>m\<close> and stores \<open>m\<close>, \<open>exchange\<close> answers \<open>k\<close> and stores \<open>m\<close>, and \<open>add\<close>, \<open>sub\<close>, \<open>and\<close>, \<open>or\<close> and \<open>xor\<close> answer
  \<open>k\<close> and store \<open>k + m\<close>, \<open>k - m\<close> and the three bitwise results. \<open>compareExchange\<close> answers \<open>k\<close> and stores \<open>m\<close> if \<open>k\<close> is the
  expected integer, and changes nothing otherwise. A result that fits the C type it is cast to (\<open>unsigned int\<close> for
  \<open>Uint32Array\<close>, \<open>int\<close> for the others) is what the element then holds, modulo two to its width; no other element
  changes, and nothing else in the heap.
\<close>

theorem atomics_on_elements:
  assumes "jayess_atomics_state t target (int_arg index) = Inr (b, kind)"
    and "jayess_value_to_number v = dbl_of_int m" and "\<bar>m\<bar> < 2 ^ 53"
  shows "\<exists>k. \<bar>k\<bar> < 2 ^ 53 \<and> jayess_std_typed_array_get_number t target (int_arg index) = dbl_of_int k
    \<and> jayess_atomics_load t target index = (dbl_of_int k, t)
    \<and> (\<forall>(call, answer, r) \<in> set
         [(jayess_atomics_store, m, m), (jayess_atomics_exchange, k, m), (jayess_atomics_add, k, k + m),
          (jayess_atomics_sub, k, k - m), (jayess_atomics_and, k, k AND m), (jayess_atomics_or, k, k OR m),
          (jayess_atomics_xor, k, k XOR m)].
         storable kind r \<longrightarrow> fst (call t target index v) = dbl_of_int answer
           \<and> element_becomes t target b kind (int_arg index) r (snd (call t target index v)))
    \<and> (\<forall>e n. jayess_value_to_number e = dbl_of_int n \<longrightarrow> \<bar>n\<bar> < 2 ^ 53
        \<longrightarrow> fst (jayess_atomics_compareExchange t target index e v) = dbl_of_int k
          \<and> (if k \<noteq> n then snd (jayess_atomics_compareExchange t target index e v) = t
             else storable kind m \<longrightarrow>
               element_becomes t target b kind (int_arg index) m (snd (jayess_atomics_compareExchange t target index e v))))"
proof -
  note facts = atomics_state_facts [OF assms(1)]
  obtain k where range: "- (2 ^ 31) \<le> k" "k < 2 ^ 32" and old: "jayess_std_typed_array_get_number t target (int_arg index) = dbl_of_int k"
    using integer_element [OF facts(1,2,4,5)] by blast
  have k: "\<bar>k\<bar> < 2 ^ 53" using range by simp
  note run = apply_element [OF assms(1), of _ v, unfolded old assms(2)]
  have small: "\<bar>r\<bar> < 2 ^ 53" if "storable kind r" for r using that by (auto simp: storable_def split: if_splits)
  have add: "dbl_add (dbl_of_int k) (dbl_of_int m) = dbl_of_int (k + m)" if "storable kind (k + m)"
    using dbl_add_of_int [OF k assms(3) small [OF that]] .
  have sub: "dbl_add (dbl_of_int k) (dbl_minus (dbl_of_int m)) = dbl_of_int (k - m)" if "storable kind (k - m)"
    using dbl_minus_of_int [OF k assms(3) small [OF that]] .
  note bitwise = c_int64_of_int [OF k] c_int64_of_int [OF assms(3)]
  have load: "jayess_atomics_load t target index = (dbl_of_int k, t)"
    using assms(1) old by (simp add: jayess_atomics_load_def jayess_atomics_apply_def atomic_element [OF assms(1)])
  have "fst (jayess_atomics_compareExchange t target index e v) = dbl_of_int k
      \<and> (if k \<noteq> n then snd (jayess_atomics_compareExchange t target index e v) = t
         else storable kind m \<longrightarrow>
           element_becomes t target b kind (int_arg index) m (snd (jayess_atomics_compareExchange t target index e v)))"
    if "jayess_value_to_number e = dbl_of_int n" "\<bar>n\<bar> < 2 ^ 53" for e n
  proof (cases "k = n")
    case True
    with run [of At_Compare e m] that show ?thesis
      by (simp add: jayess_atomics_compareExchange_def dbl_eq_of_int [OF that(2) that(2)])
  next
    case False
    with assms(1) old that show ?thesis
      by (simp add: jayess_atomics_compareExchange_def jayess_atomics_apply_def Let_def atomic_element [OF assms(1)]
          dbl_eq_of_int [OF k that(2)])
  qed
  moreover have "fst (call t target index v) = dbl_of_int answer
      \<and> element_becomes t target b kind (int_arg index) r (snd (call t target index v))"
    if "storable kind r" and "(call, answer, r) \<in> set
         [(jayess_atomics_store, m, m), (jayess_atomics_exchange, k, m), (jayess_atomics_add, k, k + m),
          (jayess_atomics_sub, k, k - m), (jayess_atomics_and, k, k AND m), (jayess_atomics_or, k, k OR m),
          (jayess_atomics_xor, k, k XOR m)]" for call answer r
    using that run [of At_Store None r] run [of At_Exchange None r] run [of At_Add None r] run [of At_Sub None r]
      run [of At_And None r] run [of At_Or None r] run [of At_Xor None r]
    by (auto simp: jayess_atomics_store_def jayess_atomics_exchange_def jayess_atomics_add_def jayess_atomics_sub_def
        jayess_atomics_and_def jayess_atomics_or_def jayess_atomics_xor_def assms(2) add sub bitwise)
  ultimately show ?thesis using k old load by blast
qed

text \<open>Five is added to an element of a new \<open>Int32Array\<close>.\<close>

theorem atomics_on_elements_witness:
  "fst (jayess_atomics_store (example_bytes ''Int32Array'' True) (Some (VObject 0)) None
     (Some (VNumber (dbl_of_int 5)))) = dbl_of_int 5
   \<and> jayess_std_typed_array_get_number (snd (jayess_atomics_store (example_bytes ''Int32Array'' True) (Some (VObject 0)) None
     (Some (VNumber (dbl_of_int 5))))) (Some (VObject 0)) 0 = dbl_of_int 5"
proof -
  have kind: "jayess_std_typed_array_kind (js (example_bytes ''Int32Array'' True)) (Some (VObject 0)) = Some ''Int32Array''"
    by (simp add: jayess_std_typed_array_kind_def example_bytes_facts jayess_std_is_typed_array_kind_def)
  moreover from this have "jayess_value_array_length (example_bytes ''Int32Array'' True) (Some (VObject 0)) = 2"
    by (simp add: jayess_value_array_length_def bytes_of_def example_bytes_slot jayess_std_is_typed_array_kind_def
        example_bytes_facts jayess_std_typed_array_length_from_bytes_def jayess_std_typed_array_element_size_def)
  ultimately have "jayess_atomics_state (example_bytes ''Int32Array'' True) (Some (VObject 0)) (int_arg None)
      = Inr (2, ''Int32Array'')"
    by (simp add: jayess_atomics_state_def jayess_atomics_is_supported_kind_def jayess_std_bytes_state_def example_bytes_facts)
  from atomics_on_elements [OF this, of "Some (VNumber (dbl_of_int 5))" 5] show ?thesis
    by (auto simp: element_becomes_def element_integer_def storable_def)
qed

end
