(* ===== verification/Spec2Isabelle.thy ===== *)
theory Spec2Isabelle
  imports Bigint_Ops Number_Text Object_Links Scheduler_Correct Map_Correct Path_Correct Server_Correct
    String_Correct Listener_Correct Worker_Correct Http_Client_Correct Member_Correct File_Correct Scheduler_History
    Atomic_Correct
begin

text \<open>
  A verification of the C runtime of Jayess, \<open>src/old_version/runtime\<close>: the library that compiled Jayess
  programs are linked with. The Go compilers that emit these programs, the vendored native libraries and the
  bindings around them are not part of it.

  \<^bold>\<open>The program.\<close> Every value of a program is a \<open>jayess_value\<close> box. Objects are linked lists of properties, arrays
  are growing blocks of boxes, functions are code pointers with an environment; built-in classes (Map, Set, typed arrays,
  promises) are objects with internal properties or a native handle. Errors are a pending exception beside the
  normal result. Asynchronous work is a set of task queues drained by one loop. The model keeps these as one record,
  \<open>jayess_state\<close> (\<open>Runtime_State\<close>): maps from addresses to property lists, slot lists and functions, the next address,
  the accounting counters, the stacks and the pending exception. A routine takes the state and returns it updated. The
  scheduler and the buffers have records of their own around it (\<open>sched\<close> of \<open>Scheduler\<close>, \<open>byte_state\<close> of
  \<open>Typed_Arrays\<close>), and so have a socket, a response of the server, a body that is received, and a worker.

  \<^bold>\<open>C in the model.\<close> \<open>Prelude\<close> has the words and the fault value, \<open>C_Strings\<close>, \<open>Decimal\<close>, \<open>Doubles\<close>,
  \<open>Number_Text\<close> and \<open>C_Numbers\<close> the parts of the C library and of C's conversions the runtime uses, \<open>double\<close> as its 64-bit
  pattern with exact rounding. A pointer that may be NULL is an option; a read or write outside an object is the value
  \<open>Out_of_bounds\<close>; \<open>None\<close> is a call that does not return. Integers wrap where the code can make them wrap.
  Allocation succeeds.

  \<^bold>\<open>Theories and files.\<close>
  \<^item> \<open>Bigint_Words\<close>, \<open>Bigint_Shift\<close>, \<open>Bigint_Text\<close> model \<open>jayess_runtime_bigint.c\<close>: word arrays, shifts, decimal texts,
    two's complement. \<open>Bigint_Correct\<close> and \<open>Bigint_Ops\<close> measure every operator against integer arithmetic: where
    it is exact, where it never returns (the most negative value of a width) and where it reads out of bounds.
  \<^item> \<open>Values\<close> (\<open>jayess_runtime_values.c\<close>, \<open>jayess_runtime_strings.c\<close>): kinds, conversions, equality.
    \<open>Collections\<close> (\<open>jayess_runtime_collections.c\<close>): objects and arrays as lists, an interpretation of the locale
    \<open>ordered_store\<close> of \<open>Key_Store\<close>. \<open>Object_Links\<close> models the same routines on linked cells and proves that they refine
    the lists.
  \<^item> \<open>Runtime_State\<close> (\<open>jayess_runtime_errors.c\<close>, parts of \<open>jayess_runtime.c\<close>): exceptions, stacks, functions, binding,
    calls, bit operators. \<open>State_Correct\<close> proves what they leave in the state.
  \<^item> \<open>Value_Text\<close> (\<open>jayess_runtime_strings.c\<close>, \<open>jayess_runtime.c\<close>): texts of values, addition, printing, and when
    they terminate. \<open>Json_Parse\<close>: the JSON parser and printer; \<open>Json_Correct\<close> shows that it returns,
    \<open>Json_Roundtrip\<close> that parsing undoes printing.
  \<^item> \<open>Map_Set\<close> (\<open>jayess_runtime.c\<close>): Map, Set, WeakMap, WeakSet; \<open>Map_Correct\<close> interprets \<open>ordered_store\<close> on Map.
  \<^item> \<open>Scheduler\<close> (\<open>jayess_runtime_core.h\<close>, \<open>jayess_runtime.c\<close>): promises, timers, the queues, the loop, and the
    step relation \<open>sched_step\<close> of everything that can act on them. \<open>Scheduler_Invariant\<close> has the invariants,
    \<open>Scheduler_Steps\<close> their preservation and the safety theorem, \<open>Scheduler_History\<close> what becomes of every task over the
    histories of the scheduler, \<open>Scheduler_Correct\<close> what settling, the combinators and the order of dequeueing do.
  \<^item> \<open>Paths\<close> (\<open>jayess_runtime_fs.c\<close>, \<open>jayess_runtime_network.c\<close>): the path module; \<open>Path_Correct\<close> its normal forms and
    buffer sizes.
  \<^item> \<open>Typed_Arrays\<close>, \<open>Byte_Methods\<close>, \<open>Byte_Text\<close> (\<open>jayess_runtime_typed_arrays.c\<close>, \<open>jayess_runtime.c\<close>,
    \<open>jayess_runtime_crypto.c\<close>): buffers, typed arrays, data views, atomics, hex and base64. \<open>Byte_Correct\<close> states the
    contract of a store of bytes (the locale \<open>byte_store\<close>, interpreted by the views and by the byte arrays) and
    what it gives, for views and typed arrays; \<open>Atomic_Correct\<close> says in terms of integers what each function of \<open>Atomics\<close>
    answers and stores; \<open>Encoding_Correct\<close> has new views and the encodings.
  \<^item> \<open>Url_Text\<close>, \<open>Http_Text\<close> (\<open>jayess_runtime_network.c\<close>): URLs, query strings, headers, the chunked coding, parsing and
    formatting of messages. \<open>Url_Correct\<close> has the loop over the parts of a text (the locale \<open>split_loop\<close>) and the
    round trip of query strings, \<open>Http_Correct\<close> interprets the same locale for header lines and has the round trip of messages.
  \<^item> \<open>Sockets\<close>, \<open>Http_Server\<close>, \<open>Http_Body\<close>, \<open>Http_Client\<close> (\<open>jayess_runtime_network.c\<close>, \<open>jayess_runtime_streams.c\<close>):
    writing to a socket, the responses of the server, the streams bodies are read from, requests and redirects of the client.
    What \<open>send\<close> takes and \<open>recv\<close> gives are functions of the history. \<open>Server_Correct\<close> shows that a response written in
    pieces is parsed back to them, \<open>Http_Body_Correct\<close> that a stream gives the body however the network cuts it (the locale
    \<open>byte_source\<close>, interpreted by the stream), \<open>Http_Stream_Correct\<close> puts both ends together for a body with
    \<open>Content-Length\<close>: what one end writes is what the other reads. A chunked stream has no such theorem, since the code
    reads a text that it has freed; \<open>Http_Body_Correct\<close> has both what happens if the memory still looks empty and an
    input on which it does not. \<open>Http_Client_Correct\<close> has redirects and the inputs on which the client fails.
  \<^item> \<open>Regex\<close>, \<open>String_Methods\<close> (\<open>jayess_runtime.c\<close>): the pattern matcher and the methods of strings. \<open>Regex_Correct\<close>
    gives the patterns a language and shows that the search finds its matches, \<open>String_Correct\<close> has splitting, slicing and
    replacing.
  \<^item> \<open>Listeners\<close> (\<open>jayess_runtime_streams.c\<close>): adding, removing and emitting; \<open>Listener_Correct\<close> shows that listeners are
    called in the order they were added, and when emitting does not end.
  \<^item> \<open>Workers\<close> (\<open>jayess_runtime_process.c\<close>): the copy of a value between threads, the two queues, the owner and the thread as
    the step relation \<open>worker_step\<close>. \<open>Worker_Correct\<close> shows that the copy is a copy, that messages are answered in order, and
    that a thread asked to terminate works off what was posted.
  \<^item> \<open>Members\<close>, \<open>Iteration\<close> (\<open>jayess_runtime.c\<close>): the built-in members of every kind of value, accessors, the index operator,
    the functions of \<open>Object\<close>, symbols, iterators. \<open>Member_Correct\<close> shows that there is one symbol per key, that the entries of
    an object make it again, and that an iterator gives all its values, up to a million.
  \<^item> \<open>Files\<close>, \<open>File_Streams\<close>, \<open>Watchers\<close> (\<open>jayess_runtime_fs.c\<close>, \<open>jayess_runtime_streams.c\<close>, \<open>jayess_runtime_network.c\<close>,
    \<open>jayess_runtime.c\<close>): files and directories over a record of system calls, the streams on files, compression streams,
    watchers. \<open>File_Correct\<close> shows what copying and piping leave on a disk that stores what it is given.

  \<^bold>\<open>Interfaces.\<close> Objects and Maps are used through the laws of \<open>ordered_store\<close> (an extension of \<open>key_store\<close>), bytes of views
  and typed arrays through \<open>byte_store\<close>, loops over separated texts through \<open>split_loop\<close>, received bytes through
  \<open>byte_source\<close>. Each is interpreted on the definitions that model the code, and the theorems rest on its facts.

  \<^bold>\<open>Bounds and fuel.\<close> \<open>json_fuel\<close> is twice the length of the text and one, and is proved to be enough. The depth of
  \<open>jayess_value_stringify\<close> is an argument; it is proved to be enough for arrays without a cycle, and that no depth is
  enough for an array that contains itself. \<open>guard_limit\<close> is the bound of the code on the rounds of its loop, and 64 that
  on the depth of a value posted to a worker; \<open>iteration_limit\<close> is the million steps of the loop over an iterator. The walks along linked cells, the printing of big integers,
  the calls of listeners and the readers of a network are partial functions, whose results are proved to exist or not to
  exist. The invariants of the scheduler and of a worker hold after every step.

  \<^bold>\<open>Where the model is larger than the machine.\<close> The counts of arrays and the lengths of texts, \<open>int\<close> or \<open>size_t\<close> in the code,
  are the lengths of lists. Where the code casts or computes one in \<open>int\<close>, the property that rests on it bounds it: the
  bytes of a hex text (\<open>2 ^ 30\<close>), a searched text, a text that is sent (\<open>2 ^ 31\<close>). A cast of a \<open>double\<close> that C leaves
  undefined has the value the usual processors give it (\<open>C_Numbers\<close>); the properties of views, typed arrays and atomics ask
  for numbers that the cast is defined for. Key kinds other than text and symbol, and the guards against a NULL
  object that cannot be reached from a value, are left out of \<open>Object_Links\<close> and of the copy of a worker. A function of
  the program is total: a handler that never returns cannot be expressed, and the properties on workers say so. The
  items of an iterable that a promise combinator waits for are a parameter: the scheduler does not run code to get them.

  \<^bold>\<open>Where the code fails.\<close> A branch on which the code reads or writes outside an object, reads freed memory or does not
  return is a branch of the model, and lemmas beside the properties show inputs that reach it: the most negative big integers, a slice
  behind the end of a text, a message formatted from an empty word, a chunk of 2 ^ 31 bytes, a listener that adds itself.

  \<^bold>\<open>Not modelled.\<close> Freeing and reference counting, the static caches of boxes, the code of compiled functions and
  callbacks (a parameter), locks (what happens under one is one step, and the copy of a posted message, which is made before
  the lock is taken, is part of that step), and whatever is mostly calls to the operating system or to
  third-party libraries: child processes and signals, accepting and resolving connections, datagrams, TLS and https,
  cryptography by OpenSSL and Windows, zlib and Brotli (a parameter), the console and the clock. The operating system under the
  files is a parameter, and the buffers of the C library are left out. The methods that tie a component to the scheduler (the
  next step of an async iterator, reading files asynchronously, polling a watcher) are not modelled.
\<close>

end
